(* ===== verification/Prelude.thy ===== *)
theory Prelude
  imports Main "HOL-Library.Word" "HOL-Library.Char_ord" "HOL-Library.List_Lexorder"
begin

text \<open>
  Shared vocabulary of the development: the machine integer types of the Rust sources, UTF-8
  strings, little-endian byte images of fixed-size values, the ordered map that stands for
  \<open>BTreeMap\<close>, and the slicing functions of \<open>str\<close> that several components call.

  A Rust \<open>String\<close> is a \<^typ>\<open>string\<close> whose characters are the bytes of its UTF-8 form, so
  \<open>length\<close> is \<open>str::len\<close> and the lexicographic order of \<^typ>\<open>string\<close> is the order of
  \<open>str\<close>. The type does not enforce well-formedness; \<open>utf8_valid\<close> states it. Signed integers are
  words read with \<^const>\<open>sint\<close>; an \<open>f64\<close> is its 64-bit pattern.
\<close>

section \<open>Machine types\<close>

type_synonym u8 = "8 word"
type_synonym u16 = "16 word"
type_synonym u32 = "32 word"
type_synonym u64 = "64 word"
type_synonym usize = "64 word"
type_synonym i16 = "16 word"
type_synonym i32 = "32 word"
type_synonym i64 = "64 word"
type_synonym f64 = "64 word"
type_synonym bytes = "u8 list"

named_theorems reader_intros "closure of well-behaved readers under the reader combinators"
named_theorems enc_simps "what each writer appends to its buffer"

section \<open>Strings and bytes\<close>

definition byte_of :: "char \<Rightarrow> u8" where
  "byte_of c = of_nat (of_char c)"

definition char_of_byte :: "u8 \<Rightarrow> char" where
  "char_of_byte b = char_of (unat b)"

lemma char_of_byte_of [simp]: "char_of_byte (byte_of c) = c"
proof -
  have "of_char c < (256 :: nat)"
    using of_char_mod_256 [of c, where ?'a = nat] by (metis mod_less_divisor zero_less_numeral)
  then show ?thesis
    by (simp add: char_of_byte_def byte_of_def unat_of_nat)
qed

lemma byte_of_char_of [simp]: "byte_of (char_of_byte b) = b"
proof -
  have "unat b < 256" using unsigned_less [of b, where ?'a = nat] by simp
  then show ?thesis
    by (simp add: char_of_byte_def byte_of_def)
qed

definition as_bytes :: "string \<Rightarrow> bytes" where
  "as_bytes s = map byte_of s"

definition of_bytes :: "bytes \<Rightarrow> string" where
  "of_bytes bs = map char_of_byte bs"

lemma of_bytes_as_bytes [simp]: "of_bytes (as_bytes s) = s"
  by (simp add: of_bytes_def as_bytes_def comp_def)

lemma as_bytes_of_bytes [simp]: "as_bytes (of_bytes bs) = bs"
  by (simp add: of_bytes_def as_bytes_def comp_def)

lemma length_as_bytes [simp]: "length (as_bytes s) = length s"
  by (simp add: as_bytes_def)

lemma length_of_bytes [simp]: "length (of_bytes bs) = length bs"
  by (simp add: of_bytes_def)

lemma as_bytes_append [simp]: "as_bytes (s @ t) = as_bytes s @ as_bytes t"
  by (simp add: as_bytes_def)

text \<open>Well-formed UTF-8, byte class by byte class, as \<open>std::str::from_utf8\<close> decides it.\<close>

definition utf8_cont :: "nat \<Rightarrow> bool" where
  "utf8_cont b \<longleftrightarrow> 0x80 \<le> b \<and> b \<le> 0xBF"

fun utf8_codes :: "nat list \<Rightarrow> bool" where
  "utf8_codes [] = True"
| "utf8_codes (b # bs) =
     (if b < 0x80 then utf8_codes bs
      else if 0xC2 \<le> b \<and> b \<le> 0xDF then
        (case bs of c # r \<Rightarrow> utf8_cont c \<and> utf8_codes r | [] \<Rightarrow> False)
      else if 0xE0 \<le> b \<and> b \<le> 0xEF then
        (case bs of c # d # r \<Rightarrow>
             (if b = 0xE0 then 0xA0 \<le> c \<and> c \<le> 0xBF
              else if b = 0xED then 0x80 \<le> c \<and> c \<le> 0x9F else utf8_cont c)
             \<and> utf8_cont d \<and> utf8_codes r
         | _ \<Rightarrow> False)
      else if 0xF0 \<le> b \<and> b \<le> 0xF4 then
        (case bs of c # d # e # r \<Rightarrow>
             (if b = 0xF0 then 0x90 \<le> c \<and> c \<le> 0xBF
              else if b = 0xF4 then 0x80 \<le> c \<and> c \<le> 0x8F else utf8_cont c)
             \<and> utf8_cont d \<and> utf8_cont e \<and> utf8_codes r
         | _ \<Rightarrow> False)
      else False)"

definition utf8_valid :: "string \<Rightarrow> bool" where
  "utf8_valid s \<longleftrightarrow> utf8_codes (map of_char s)"

definition is_ascii :: "string \<Rightarrow> bool" where
  "is_ascii s \<longleftrightarrow> list_all (\<lambda>c. of_char c < (128 :: nat)) s"

lemma utf8_valid_Nil [simp]: "utf8_valid []"
  by (simp add: utf8_valid_def)

lemma ascii_utf8_valid: "is_ascii s \<Longrightarrow> utf8_valid s"
  by (induction s) (simp_all add: utf8_valid_def is_ascii_def)

section \<open>Little-endian images of fixed-size values\<close>

primrec nat_le_bytes :: "nat \<Rightarrow> nat \<Rightarrow> bytes" where
  "nat_le_bytes 0 k = []"
| "nat_le_bytes (Suc n) k = of_nat (k mod 256) # nat_le_bytes n (k div 256)"

primrec le_nat :: "bytes \<Rightarrow> nat" where
  "le_nat [] = 0"
| "le_nat (b # bs) = unat b + 256 * le_nat bs"

definition le_bytes :: "nat \<Rightarrow> 'a::len word \<Rightarrow> bytes" where
  "le_bytes n w = nat_le_bytes n (unat w)"

definition le_word :: "bytes \<Rightarrow> 'a::len word" where
  "le_word bs = of_nat (le_nat bs)"

lemma length_nat_le_bytes [simp]: "length (nat_le_bytes n k) = n"
  by (induction n arbitrary: k) simp_all

lemma length_le_bytes [simp]: "length (le_bytes n w) = n"
  by (simp add: le_bytes_def)

lemma le_nat_nat_le_bytes: "le_nat (nat_le_bytes n k) = k mod 256 ^ n"
proof (induction n arbitrary: k)
  case (Suc n)
  have "unat (of_nat (k mod 256) :: u8) = k mod 256" by (simp add: unat_of_nat)
  then show ?case by (simp add: Suc mod_mult2_eq)
qed simp

lemma le_word_le_bytes:
  fixes w :: "'a::len word"
  assumes "LENGTH('a) \<le> 8 * n"
  shows "le_word (le_bytes n w) = w"
proof -
  have "unat w < 2 ^ LENGTH('a)" by (rule unsigned_less)
  also have "\<dots> \<le> 2 ^ (8 * n)" using assms by (simp add: power_increasing)
  also have "(2 :: nat) ^ (8 * n) = 256 ^ n" by (simp add: power_mult)
  finally show ?thesis
    by (simp add: le_word_def le_bytes_def le_nat_nat_le_bytes)
qed

lemma le_nat_less: "le_nat bs < 256 ^ length bs"
proof (induction bs)
  case (Cons b bs)
  have "unat b < 256" using unsigned_less [of b, where ?'a = nat] by simp
  with Cons show ?case by simp
qed simp

lemma nat_le_bytes_le_nat: "nat_le_bytes (length bs) (le_nat bs) = bs"
proof (induction bs)
  case (Cons b bs)
  have "unat b < 256" using unsigned_less [of b, where ?'a = nat] by simp
  with Cons show ?case by simp
qed simp

lemma le_bytes_le_word:
  assumes "LENGTH('a) = 8 * length bs"
  shows "le_bytes (length bs) (le_word bs :: 'a::len word) = bs"
proof -
  have "le_nat bs < 2 ^ LENGTH('a)"
    using le_nat_less [of bs] assms by (simp add: power_mult)
  then have "unat (le_word bs :: 'a word) = le_nat bs"
    by (simp add: le_word_def unat_of_nat)
  then show ?thesis
    by (simp add: le_bytes_def nat_le_bytes_le_nat)
qed

section \<open>Signed 32-bit values\<close>

lemma sint_small:
  assumes "unat (w :: i32) < 2 ^ 31"
  shows "sint w = int (unat w)"
proof -
  have "unat w < 2147483648" using assms by simp
  then have "int (unat w) < 2147483648" by linarith
  then have "uint w < 2 ^ 31" by simp
  moreover have "- (2 ^ 31) \<le> uint w" by (rule order_trans [OF _ uint_ge_0]) simp
  ultimately have "signed_take_bit 31 (uint w) = uint w" by (simp add: signed_take_bit_int_eq_self_iff)
  then show ?thesis by (simp add: sint_uint)
qed

lemma sint_of_nat32: "n < 2 ^ 31 \<Longrightarrow> sint (of_nat n :: i32) = int n"
  by (subst sint_small) (simp_all add: unat_of_nat)

lemma word_range32: "- (2 ^ 31) \<le> sint (w :: i32)" "sint w < 2 ^ 31"
  using sint_range_size [of w] by (simp_all add: word_size)

lemma sint_arith32:
  fixes x :: i32
  assumes "sint x = a" and "- (2 ^ 31) \<le> a + k" and "a + k < 2 ^ 31"
  shows "sint (x + word_of_int k) = a + k"
proof -
  have "x + word_of_int k = word_of_int (a + k)" unfolding assms(1) [symmetric] by (simp flip: wi_hom_add)
  then have "sint (x + word_of_int k) = signed_take_bit 31 (a + k)" by (simp only: sint_sbintrunc') simp
  then show ?thesis using assms(2,3) by (simp add: signed_take_bit_int_eq_self_iff)
qed

lemma sint_inject: "sint a = sint b \<longleftrightarrow> a = b"
proof
  assume "sint a = sint b"
  then have "(word_of_int (sint a) :: 'a word) = word_of_int (sint b)" by (rule arg_cong)
  then show "a = b" by simp
qed simp

end
