(* ===== verification/Errors.thy ===== *)
theory Errors
  imports Prelude
begin

text \<open>
  \<open>datashare_common_rust/src/error.rs\<close>: the error codes shared by all crates, the \<open>i32\<close> each is
  cast to and the conversion back. The two interfaces of a \<open>repr(i32)\<close> enumeration live here as
  locales: \<open>enum_code\<close> for a partial decoder and \<open>enum_code_default\<close> for a decoder that maps every
  unknown number to one constructor; the enumerations of the other components interpret them.
\<close>

section \<open>Enumerations with a numeric representation\<close>

locale enum_code =
  fixes code :: "'e \<Rightarrow> 32 word" and of_code :: "32 word \<Rightarrow> 'e option"
  assumes of_code_code: "of_code (code e) = Some e"
    and of_code_SomeD: "of_code c = Some e \<Longrightarrow> code e = c"
begin

lemma code_inject: "code e = code f \<longleftrightarrow> e = f"
  by (metis of_code_code option.inject)

lemma of_code_None_iff: "of_code c = None \<longleftrightarrow> c \<notin> range code"
proof
  assume none: "of_code c = None"
  show "c \<notin> range code"
  proof
    assume "c \<in> range code"
    then obtain e where "c = code e" by blast
    with none show False by (simp add: of_code_code)
  qed
next
  assume "c \<notin> range code"
  then show "of_code c = None"
    by (cases "of_code c") (auto dest: of_code_SomeD)
qed

end

locale enum_code_default =
  fixes code :: "'e \<Rightarrow> 32 word" and of_code :: "32 word \<Rightarrow> 'e" and other :: "'e"
  assumes of_code_total: "of_code (code e) = e"
    and of_code_other: "c \<notin> range code \<Longrightarrow> of_code c = other"
begin

definition checked :: "32 word \<Rightarrow> 'e option" where
  "checked c = (if code (of_code c) = c then Some (of_code c) else None)"

sublocale partial: enum_code code checked
  by unfold_locales (auto simp: checked_def of_code_total split: if_splits)

lemma of_code_eq_iff: "of_code c = e \<longleftrightarrow> c = code e \<or> (e = other \<and> c \<notin> range code)"
  using of_code_total of_code_other by (metis rangeE rangeI)

end

section \<open>DataShareError\<close>

datatype data_share_error =
  ErrOk
| ErrGeneralError
| ErrError
| ErrRegisteredRepeated
| ErrUnregisteredEmpty
| ErrInvalidStatement
| ErrInvalidColumnIndex
| ErrInvalidObjectType
| ErrInvalidParcel
| ErrVersionNotNewer
| ErrTemplateNotExist
| ErrSubscriberNotExist
| ErrUriNotExist
| ErrBundleNameNotExist
| ErrBmsNotReady
| ErrMetadataNotExists
| ErrSilentProxyDisable
| ErrTokenEmpty
| ErrExtUriInvalid
| ErrDataShareNotReady
| ErrDbError
| ErrDataSupplierError
| ErrMarshalError
| ErrUnmarshalError
| ErrWriteToParcelError
| ErrResultSetBusy
| ErrAppIndexInvalid
| ErrNullObserver
| ErrHelperDied
| ErrDataObsNotReady
| ErrProviderNotConnected
| ErrProviderConnNull
| ErrInvalidUserId
| ErrNotSystemApp
| ErrRegisterError
| ErrNotifyChangeError
| ErrTimeoutError
| ErrErrorOverLimitTask
| ErrExecutorPoolIsNull
| ErrNotHap
| ErrGetBundleInfoFailed
| ErrNotDataShareExtension
| ErrDataShareInvalidUri
| ErrVerifyFailed
| ErrPermissionDenied
| ErrEmptyUri
| ErrNotInTrusts
| ErrGetCallerNameFailed
| ErrNullObserverClient
| ErrUnimplement
| ErrDataShareType
| ErrFieldIllegal
| ErrFieldInvalid
| ErrSystemAbilityOperateFailed
| ErrInvalidParameter
| ErrOutOfMemory
| ErrInvalidOperation
| ErrInvalidColumnName
| ErrInvalidRowIndex

text \<open>\<open>impl From<DataShareError> for i32\<close>: the discriminant.\<close>

primrec error_code :: "data_share_error \<Rightarrow> i32" where
  "error_code ErrOk = 0"
| "error_code ErrGeneralError = - 1"
| "error_code ErrError = 1001"
| "error_code ErrRegisteredRepeated = 1002"
| "error_code ErrUnregisteredEmpty = 1003"
| "error_code ErrInvalidStatement = 1007"
| "error_code ErrInvalidColumnIndex = 1008"
| "error_code ErrInvalidObjectType = 1020"
| "error_code ErrInvalidParcel = 1042"
| "error_code ErrVersionNotNewer = 1045"
| "error_code ErrTemplateNotExist = 1046"
| "error_code ErrSubscriberNotExist = 1047"
| "error_code ErrUriNotExist = 1048"
| "error_code ErrBundleNameNotExist = 1049"
| "error_code ErrBmsNotReady = 1050"
| "error_code ErrMetadataNotExists = 1051"
| "error_code ErrSilentProxyDisable = 1052"
| "error_code ErrTokenEmpty = 1053"
| "error_code ErrExtUriInvalid = 1054"
| "error_code ErrDataShareNotReady = 1055"
| "error_code ErrDbError = 1056"
| "error_code ErrDataSupplierError = 1057"
| "error_code ErrMarshalError = 1058"
| "error_code ErrUnmarshalError = 1059"
| "error_code ErrWriteToParcelError = 1060"
| "error_code ErrResultSetBusy = 1061"
| "error_code ErrAppIndexInvalid = 1062"
| "error_code ErrNullObserver = 1063"
| "error_code ErrHelperDied = 1064"
| "error_code ErrDataObsNotReady = 1065"
| "error_code ErrProviderNotConnected = 1066"
| "error_code ErrProviderConnNull = 1067"
| "error_code ErrInvalidUserId = 1068"
| "error_code ErrNotSystemApp = 1069"
| "error_code ErrRegisterError = 1070"
| "error_code ErrNotifyChangeError = 1071"
| "error_code ErrTimeoutError = 1072"
| "error_code ErrErrorOverLimitTask = 1073"
| "error_code ErrExecutorPoolIsNull = 1074"
| "error_code ErrNotHap = 1075"
| "error_code ErrGetBundleInfoFailed = 1076"
| "error_code ErrNotDataShareExtension = 1077"
| "error_code ErrDataShareInvalidUri = 1078"
| "error_code ErrVerifyFailed = 1079"
| "error_code ErrPermissionDenied = 1080"
| "error_code ErrEmptyUri = 1081"
| "error_code ErrNotInTrusts = 1082"
| "error_code ErrGetCallerNameFailed = 1083"
| "error_code ErrNullObserverClient = 1084"
| "error_code ErrUnimplement = 1085"
| "error_code ErrDataShareType = 1086"
| "error_code ErrFieldIllegal = 1087"
| "error_code ErrFieldInvalid = 1088"
| "error_code ErrSystemAbilityOperateFailed = 1089"
| "error_code ErrInvalidParameter = 1090"
| "error_code ErrOutOfMemory = 1091"
| "error_code ErrInvalidOperation = 1092"
| "error_code ErrInvalidColumnName = 1093"
| "error_code ErrInvalidRowIndex = 1094"

text \<open>\<open>impl From<i32> for DataShareError\<close>.\<close>

definition error_of_code :: "i32 \<Rightarrow> data_share_error" where
  "error_of_code c =
    (if c = 0 then ErrOk else
     if c = - 1 then ErrGeneralError else
     if c = 1001 then ErrError else
     if c = 1002 then ErrRegisteredRepeated else
     if c = 1003 then ErrUnregisteredEmpty else
     if c = 1007 then ErrInvalidStatement else
     if c = 1008 then ErrInvalidColumnIndex else
     if c = 1020 then ErrInvalidObjectType else
     if c = 1042 then ErrInvalidParcel else
     if c = 1045 then ErrVersionNotNewer else
     if c = 1046 then ErrTemplateNotExist else
     if c = 1047 then ErrSubscriberNotExist else
     if c = 1048 then ErrUriNotExist else
     if c = 1049 then ErrBundleNameNotExist else
     if c = 1050 then ErrBmsNotReady else
     if c = 1051 then ErrMetadataNotExists else
     if c = 1052 then ErrSilentProxyDisable else
     if c = 1053 then ErrTokenEmpty else
     if c = 1054 then ErrExtUriInvalid else
     if c = 1055 then ErrDataShareNotReady else
     if c = 1056 then ErrDbError else
     if c = 1057 then ErrDataSupplierError else
     if c = 1058 then ErrMarshalError else
     if c = 1059 then ErrUnmarshalError else
     if c = 1060 then ErrWriteToParcelError else
     if c = 1061 then ErrResultSetBusy else
     if c = 1062 then ErrAppIndexInvalid else
     if c = 1063 then ErrNullObserver else
     if c = 1064 then ErrHelperDied else
     if c = 1065 then ErrDataObsNotReady else
     if c = 1066 then ErrProviderNotConnected else
     if c = 1067 then ErrProviderConnNull else
     if c = 1068 then ErrInvalidUserId else
     if c = 1069 then ErrNotSystemApp else
     if c = 1070 then ErrRegisterError else
     if c = 1071 then ErrNotifyChangeError else
     if c = 1072 then ErrTimeoutError else
     if c = 1073 then ErrErrorOverLimitTask else
     if c = 1074 then ErrExecutorPoolIsNull else
     if c = 1075 then ErrNotHap else
     if c = 1076 then ErrGetBundleInfoFailed else
     if c = 1077 then ErrNotDataShareExtension else
     if c = 1078 then ErrDataShareInvalidUri else
     if c = 1079 then ErrVerifyFailed else
     if c = 1080 then ErrPermissionDenied else
     if c = 1081 then ErrEmptyUri else
     if c = 1082 then ErrNotInTrusts else
     if c = 1083 then ErrGetCallerNameFailed else
     if c = 1084 then ErrNullObserverClient else
     if c = 1085 then ErrUnimplement else
     if c = 1086 then ErrDataShareType else
     if c = 1087 then ErrFieldIllegal else
     if c = 1088 then ErrFieldInvalid else
     if c = 1089 then ErrSystemAbilityOperateFailed else
     if c = 1090 then ErrInvalidParameter else
     if c = 1091 then ErrOutOfMemory else
     if c = 1092 then ErrInvalidOperation else
     if c = 1093 then ErrInvalidColumnName else
     if c = 1094 then ErrInvalidRowIndex else
     ErrGeneralError)"

text \<open>\<open>pub type Result<T>\<close>.\<close>

type_synonym 'a ds_result = "data_share_error + 'a"

lemma error_of_code_error_code [simp]: "error_of_code (error_code e) = e"
  by (cases e) (simp_all add: error_of_code_def)

lemma error_of_code_cases: "error_of_code c = ErrGeneralError \<or> error_code (error_of_code c) = c"
  by (simp add: error_of_code_def)

lemma error_of_code_unknown: "c \<notin> range error_code \<Longrightarrow> error_of_code c = ErrGeneralError"
  using error_of_code_cases [of c] by (metis rangeI)

interpretation ds_error: enum_code_default error_code error_of_code ErrGeneralError
  by unfold_locales (simp_all add: error_of_code_unknown)

lemma error_code_eq_0 [simp]: "error_code e = 0 \<longleftrightarrow> e = ErrOk"
  using ds_error.partial.code_inject [of e ErrOk] by simp

end
