(* ===== verification/Predicates.thy ===== *)
theory Predicates
  imports Prelude Errors
begin

text \<open>
  \<open>predicates/operations.rs\<close> and \<open>predicates/predicates.rs\<close>: the operation codes, the single
  values, one predicate operation, and the predicates object with its builders and getters.
\<close>

section \<open>Operation types\<close>

datatype operation_type =
  OpInvalidOperation
| OpEqualTo
| OpNotEqualTo
| OpGreaterThan
| OpLessThan
| OpGreaterThanOrEqualTo
| OpLessThanOrEqualTo
| OpAnd
| OpOr
| OpIsNull
| OpIsNotNull
| OpIn
| OpNotIn
| OpLike
| OpUnlike
| OpOrderByAsc
| OpOrderByDesc
| OpLimit
| OpOffset
| OpBeginWarp
| OpEndWarp
| OpBeginWith
| OpEndWith
| OpInKey
| OpDistinct
| OpGroupBy
| OpIndexedBy
| OpContains
| OpGlob
| OpBetween
| OpNotBetween
| OpKeyPrefix
| OpCrossJoin
| OpInnerJoin
| OpLeftOuterJoin
| OpUsing
| OpOn

primrec operation_type_code :: "operation_type \<Rightarrow> i32" where
  "operation_type_code OpInvalidOperation = 0"
| "operation_type_code OpEqualTo = 1"
| "operation_type_code OpNotEqualTo = 2"
| "operation_type_code OpGreaterThan = 3"
| "operation_type_code OpLessThan = 4"
| "operation_type_code OpGreaterThanOrEqualTo = 5"
| "operation_type_code OpLessThanOrEqualTo = 6"
| "operation_type_code OpAnd = 7"
| "operation_type_code OpOr = 8"
| "operation_type_code OpIsNull = 9"
| "operation_type_code OpIsNotNull = 10"
| "operation_type_code OpIn = 11"
| "operation_type_code OpNotIn = 12"
| "operation_type_code OpLike = 13"
| "operation_type_code OpUnlike = 14"
| "operation_type_code OpOrderByAsc = 15"
| "operation_type_code OpOrderByDesc = 16"
| "operation_type_code OpLimit = 17"
| "operation_type_code OpOffset = 18"
| "operation_type_code OpBeginWarp = 19"
| "operation_type_code OpEndWarp = 20"
| "operation_type_code OpBeginWith = 21"
| "operation_type_code OpEndWith = 22"
| "operation_type_code OpInKey = 23"
| "operation_type_code OpDistinct = 24"
| "operation_type_code OpGroupBy = 25"
| "operation_type_code OpIndexedBy = 26"
| "operation_type_code OpContains = 27"
| "operation_type_code OpGlob = 28"
| "operation_type_code OpBetween = 29"
| "operation_type_code OpNotBetween = 30"
| "operation_type_code OpKeyPrefix = 31"
| "operation_type_code OpCrossJoin = 32"
| "operation_type_code OpInnerJoin = 33"
| "operation_type_code OpLeftOuterJoin = 34"
| "operation_type_code OpUsing = 35"
| "operation_type_code OpOn = 36"

definition operation_type_from_i32 :: "i32 \<Rightarrow> operation_type option" where
  "operation_type_from_i32 val =
    (if val = 0 then Some OpInvalidOperation else
     if val = 1 then Some OpEqualTo else
     if val = 2 then Some OpNotEqualTo else
     if val = 3 then Some OpGreaterThan else
     if val = 4 then Some OpLessThan else
     if val = 5 then Some OpGreaterThanOrEqualTo else
     if val = 6 then Some OpLessThanOrEqualTo else
     if val = 7 then Some OpAnd else
     if val = 8 then Some OpOr else
     if val = 9 then Some OpIsNull else
     if val = 10 then Some OpIsNotNull else
     if val = 11 then Some OpIn else
     if val = 12 then Some OpNotIn else
     if val = 13 then Some OpLike else
     if val = 14 then Some OpUnlike else
     if val = 15 then Some OpOrderByAsc else
     if val = 16 then Some OpOrderByDesc else
     if val = 17 then Some OpLimit else
     if val = 18 then Some OpOffset else
     if val = 19 then Some OpBeginWarp else
     if val = 20 then Some OpEndWarp else
     if val = 21 then Some OpBeginWith else
     if val = 22 then Some OpEndWith else
     if val = 23 then Some OpInKey else
     if val = 24 then Some OpDistinct else
     if val = 25 then Some OpGroupBy else
     if val = 26 then Some OpIndexedBy else
     if val = 27 then Some OpContains else
     if val = 28 then Some OpGlob else
     if val = 29 then Some OpBetween else
     if val = 30 then Some OpNotBetween else
     if val = 31 then Some OpKeyPrefix else
     if val = 32 then Some OpCrossJoin else
     if val = 33 then Some OpInnerJoin else
     if val = 34 then Some OpLeftOuterJoin else
     if val = 35 then Some OpUsing else
     if val = 36 then Some OpOn else None)"

lemma operation_type_from_code [simp]:
  "operation_type_from_i32 (operation_type_code e) = Some e"
  by (cases e) (simp_all add: operation_type_from_i32_def)

lemma operation_type_from_i32_cases:
  "operation_type_from_i32 c = None \<or> (\<exists>e. operation_type_from_i32 c = Some e \<and> operation_type_code e = c)"
  by (simp add: operation_type_from_i32_def)

interpretation op_type: enum_code operation_type_code operation_type_from_i32
proof unfold_locales
  show "operation_type_code e = c" if "operation_type_from_i32 c = Some e" for c e
    using operation_type_from_i32_cases [of c] that by auto
qed simp

section \<open>Single values and operation items\<close>

datatype single_value =
    SvNull
  | SvInt i32
  | SvDouble f64
  | SvString string
  | SvBool bool
  | SvLong i64
  | SvBlob bytes

record multi_value =
  mv_values :: "single_value list"

record operation_item =
  oi_operation :: operation_type
  oi_field :: string
  oi_value :: "single_value option"
  oi_multi_values :: "single_value list option"
  oi_extra :: "single_value list"

definition operation_item_new :: "operation_type \<Rightarrow> string \<Rightarrow> operation_item" where
  "operation_item_new operation field =
     \<lparr>oi_operation = operation, oi_field = field, oi_value = None, oi_multi_values = None, oi_extra = []\<rparr>"

definition with_value :: "single_value \<Rightarrow> operation_item \<Rightarrow> operation_item" where
  "with_value v item = item\<lparr>oi_value := Some v\<rparr>"

definition with_multi_values :: "single_value list \<Rightarrow> operation_item \<Rightarrow> operation_item" where
  "with_multi_values vs item = item\<lparr>oi_multi_values := Some vs\<rparr>"

section \<open>DataSharePredicates\<close>

definition INVALID_MODE :: i16 where
  "INVALID_MODE = - 1"

record data_share_predicates =
  pd_operations :: "operation_item list"
  pd_where_clause :: string
  pd_where_args :: "string list"
  pd_order :: string
  pd_setting_mode :: i16

definition predicates_new :: data_share_predicates where
  "predicates_new = \<lparr>pd_operations = [], pd_where_clause = [], pd_where_args = [], pd_order = [],
     pd_setting_mode = INVALID_MODE\<rparr>"

definition from_operations :: "operation_item list \<Rightarrow> data_share_predicates" where
  "from_operations ops = \<lparr>pd_operations = ops, pd_where_clause = [], pd_where_args = [], pd_order = [],
     pd_setting_mode = INVALID_MODE\<rparr>"

text \<open>Every builder pushes one item.\<close>

definition push_op :: "operation_item \<Rightarrow> data_share_predicates \<Rightarrow> data_share_predicates" where
  "push_op item p = p\<lparr>pd_operations := pd_operations p @ [item]\<rparr>"

definition equal_to :: "string \<Rightarrow> single_value \<Rightarrow> data_share_predicates \<Rightarrow> data_share_predicates" where
  "equal_to field value = push_op \<lparr>oi_operation = OpEqualTo, oi_field = field, oi_value = Some value,
     oi_multi_values = None, oi_extra = []\<rparr>"

definition not_equal_to :: "string \<Rightarrow> single_value \<Rightarrow> data_share_predicates \<Rightarrow> data_share_predicates" where
  "not_equal_to field value = push_op \<lparr>oi_operation = OpNotEqualTo, oi_field = field,
     oi_value = Some value, oi_multi_values = None, oi_extra = []\<rparr>"

definition greater_than :: "string \<Rightarrow> single_value \<Rightarrow> data_share_predicates \<Rightarrow> data_share_predicates" where
  "greater_than field value = push_op \<lparr>oi_operation = OpGreaterThan, oi_field = field,
     oi_value = Some value, oi_multi_values = None, oi_extra = []\<rparr>"

definition less_than :: "string \<Rightarrow> single_value \<Rightarrow> data_share_predicates \<Rightarrow> data_share_predicates" where
  "less_than field value = push_op \<lparr>oi_operation = OpLessThan, oi_field = field,
     oi_value = Some value, oi_multi_values = None, oi_extra = []\<rparr>"

definition in_set :: "string \<Rightarrow> single_value list \<Rightarrow> data_share_predicates \<Rightarrow> data_share_predicates" where
  "in_set field values = push_op \<lparr>oi_operation = OpIn, oi_field = field, oi_value = None,
     oi_multi_values = Some values, oi_extra = []\<rparr>"

definition order_by_asc :: "string \<Rightarrow> data_share_predicates \<Rightarrow> data_share_predicates" where
  "order_by_asc field = push_op \<lparr>oi_operation = OpOrderByAsc, oi_field = field, oi_value = None,
     oi_multi_values = None, oi_extra = []\<rparr>"

definition order_by_desc :: "string \<Rightarrow> data_share_predicates \<Rightarrow> data_share_predicates" where
  "order_by_desc field = push_op \<lparr>oi_operation = OpOrderByDesc, oi_field = field, oi_value = None,
     oi_multi_values = None, oi_extra = []\<rparr>"

definition limit :: "i64 \<Rightarrow> data_share_predicates \<Rightarrow> data_share_predicates" where
  "limit count = push_op \<lparr>oi_operation = OpLimit, oi_field = [], oi_value = Some (SvLong count),
     oi_multi_values = None, oi_extra = []\<rparr>"

definition offset :: "i64 \<Rightarrow> data_share_predicates \<Rightarrow> data_share_predicates" where
  "offset off = push_op \<lparr>oi_operation = OpOffset, oi_field = [], oi_value = Some (SvLong off),
     oi_multi_values = None, oi_extra = []\<rparr>"

definition get_operation_list :: "data_share_predicates \<Rightarrow> operation_item list" where
  "get_operation_list p = pd_operations p"

definition set_operation_list :: "operation_item list \<Rightarrow> data_share_predicates \<Rightarrow> data_share_predicates" where
  "set_operation_list ops p = p\<lparr>pd_operations := ops\<rparr>"

definition set_where_clause :: "string \<Rightarrow> data_share_predicates \<Rightarrow> data_share_predicates" where
  "set_where_clause clause p = p\<lparr>pd_where_clause := clause\<rparr>"

definition set_where_args :: "string list \<Rightarrow> data_share_predicates \<Rightarrow> data_share_predicates" where
  "set_where_args args p = p\<lparr>pd_where_args := args\<rparr>"

definition set_order :: "string \<Rightarrow> data_share_predicates \<Rightarrow> data_share_predicates" where
  "set_order ord p = p\<lparr>pd_order := ord\<rparr>"

definition set_setting_mode :: "i16 \<Rightarrow> data_share_predicates \<Rightarrow> data_share_predicates" where
  "set_setting_mode mode p = p\<lparr>pd_setting_mode := mode\<rparr>"

definition predicates_clear :: "data_share_predicates \<Rightarrow> data_share_predicates" where
  "predicates_clear p = p\<lparr>pd_operations := []\<rparr>"

definition predicates_is_empty :: "data_share_predicates \<Rightarrow> bool" where
  "predicates_is_empty p \<longleftrightarrow> pd_operations p = []"

definition predicates_count :: "data_share_predicates \<Rightarrow> nat" where
  "predicates_count p = length (pd_operations p)"

text \<open>The \<open>for op in &self.operations\<close> loops of \<open>get_limit\<close>, \<open>get_offset\<close> and \<open>is_distinct\<close>.\<close>

fun first_long_of :: "operation_type \<Rightarrow> operation_item list \<Rightarrow> i64" where
  "first_long_of t [] = 0"
| "first_long_of t (op # ops) =
     (if oi_operation op = t
      then (case oi_value op of Some (SvLong v) \<Rightarrow> v | _ \<Rightarrow> first_long_of t ops)
      else first_long_of t ops)"

definition get_limit :: "data_share_predicates \<Rightarrow> i64" where
  "get_limit p = first_long_of OpLimit (pd_operations p)"

definition get_offset :: "data_share_predicates \<Rightarrow> i64" where
  "get_offset p = first_long_of OpOffset (pd_operations p)"

definition is_distinct :: "data_share_predicates \<Rightarrow> bool" where
  "is_distinct p \<longleftrightarrow> (\<exists>op \<in> set (pd_operations p). oi_operation op = OpDistinct)"

definition get_order_by :: "data_share_predicates \<Rightarrow> string" where
  "get_order_by p = pd_order p"

lemmas builder_defs = equal_to_def not_equal_to_def greater_than_def less_than_def in_set_def
  order_by_asc_def order_by_desc_def limit_def offset_def push_op_def

lemma first_long_of_append:
  "first_long_of t (xs @ ys) =
     (if \<exists>op \<in> set xs. oi_operation op = t \<and> (\<exists>v. oi_value op = Some (SvLong v))
      then first_long_of t xs else first_long_of t ys)"
  by (induction xs) (auto split: option.splits single_value.splits)

section \<open>Interface of a builder\<close>

text \<open>
  What the query components rely on: a builder appends exactly one operation and leaves the raw
  SQL parts alone.
\<close>

locale predicate_builder =
  fixes build :: "data_share_predicates \<Rightarrow> data_share_predicates" and item :: operation_item
  assumes appends: "pd_operations (build p) = pd_operations p @ [item]"
    and keeps: "(build p)\<lparr>pd_operations := []\<rparr> = p\<lparr>pd_operations := []\<rparr>"
begin

lemma count_build: "predicates_count (build p) = Suc (predicates_count p)"
  by (simp add: predicates_count_def appends)

lemma not_empty_build: "\<not> predicates_is_empty (build p)"
  by (simp add: predicates_is_empty_def appends)

lemma limit_build:
  "(\<nexists>op v. op \<in> set (pd_operations p) \<and> oi_operation op = OpLimit \<and> oi_value op = Some (SvLong v))
   \<Longrightarrow> get_limit (build p) = first_long_of OpLimit [item]"
  by (auto simp: get_limit_def appends first_long_of_append)

end

interpretation bl_limit: predicate_builder "limit n"
    "\<lparr>oi_operation = OpLimit, oi_field = [], oi_value = Some (SvLong n), oi_multi_values = None, oi_extra = []\<rparr>"
  for n
  by unfold_locales (simp_all add: builder_defs)

interpretation bl_eq: predicate_builder "equal_to f v"
    "\<lparr>oi_operation = OpEqualTo, oi_field = f, oi_value = Some v, oi_multi_values = None, oi_extra = []\<rparr>"
  for f v
  by unfold_locales (simp_all add: builder_defs)

text \<open>C33: the first \<open>limit(n)\<close> applied to predicates without an earlier limit is the one
  \<open>get_limit\<close> reports, whatever further conditions \<open>equal_to\<close> or \<open>offset\<close> push afterwards, and a
  second \<open>limit(m)\<close> does not override it; each call adds exactly one operation.\<close>

theorem get_limit_first_wins:
  assumes "\<nexists>op v. op \<in> set (pd_operations p) \<and> oi_operation op = OpLimit \<and> oi_value op = Some (SvLong v)"
  shows "get_limit (limit m (offset k (equal_to f v (limit n p)))) = n
    \<and> predicates_count (limit m (offset k (equal_to f v (limit n p)))) = predicates_count p + 4"
proof
  have "get_limit (limit n p) = n" using bl_limit.limit_build [OF assms] by simp
  then show "get_limit (limit m (offset k (equal_to f v (limit n p)))) = n"
    using assms by (auto simp: get_limit_def builder_defs first_long_of_append)
  show "predicates_count (limit m (offset k (equal_to f v (limit n p)))) = predicates_count p + 4"
    by (simp add: bl_limit.count_build bl_eq.count_build) (simp add: predicates_count_def builder_defs)
qed

theorem get_limit_first_wins_witness:
  "get_limit (limit 99 (offset 5 (equal_to ''id'' (SvInt 1) (limit 10 predicates_new)))) = 10"
  using get_limit_first_wins [of predicates_new 99 5 "''id''" "SvInt 1" 10]
  by (simp add: predicates_new_def)

end
