(* ===== verification/Rust_Str.thy ===== *)
theory Rust_Str
  imports Prelude
begin

text \<open>
  The \<open>str\<close> methods of the Rust standard library that the sources call, on strings of UTF-8 bytes:
  prefix and substring search, splitting on an ASCII character, trimming of Unicode white space,
  byte slicing with its char-boundary panic, and the decimal parsers of \<open>u32\<close> and \<open>i64\<close>.
\<close>

section \<open>Prefixes and search\<close>

fun strip_prefix :: "string \<Rightarrow> string \<Rightarrow> string option" where
  "strip_prefix [] s = Some s"
| "strip_prefix (p # ps) [] = None"
| "strip_prefix (p # ps) (c # s) = (if p = c then strip_prefix ps s else None)"

definition starts_with :: "string \<Rightarrow> string \<Rightarrow> bool" where
  "starts_with s p \<longleftrightarrow> strip_prefix p s \<noteq> None"

definition ends_with :: "string \<Rightarrow> string \<Rightarrow> bool" where
  "ends_with s p \<longleftrightarrow> starts_with (rev s) (rev p)"

lemma strip_prefix_eq_Some: "strip_prefix p s = Some r \<longleftrightarrow> s = p @ r"
  by (induction p s rule: strip_prefix.induct) auto

lemma strip_prefix_append [simp]: "strip_prefix p (p @ r) = Some r"
  by (simp add: strip_prefix_eq_Some)

lemma starts_with_iff: "starts_with s p \<longleftrightarrow> (\<exists>r. s = p @ r)"
  by (auto simp: starts_with_def strip_prefix_eq_Some)

lemma starts_with_append [simp]: "starts_with (p @ r) p"
  by (auto simp: starts_with_iff)

lemma ends_with_iff: "ends_with s p \<longleftrightarrow> (\<exists>r. s = r @ p)"
proof -
  have "ends_with s p \<longleftrightarrow> (\<exists>r. rev s = rev p @ r)"
    by (simp add: ends_with_def starts_with_iff)
  also have "\<dots> \<longleftrightarrow> (\<exists>r. s = r @ p)"
    by (metis rev_append rev_rev_ident)
  finally show ?thesis .
qed

fun find_char :: "char \<Rightarrow> string \<Rightarrow> nat option" where
  "find_char c [] = None"
| "find_char c (x # s) = (if x = c then Some 0 else map_option Suc (find_char c s))"

definition rfind_char :: "char \<Rightarrow> string \<Rightarrow> nat option" where
  "rfind_char c s = map_option (\<lambda>i. length s - Suc i) (find_char c (rev s))"

fun find_sub :: "string \<Rightarrow> string \<Rightarrow> nat option" where
  "find_sub p [] = (if p = [] then Some 0 else None)"
| "find_sub p (x # s) = (if starts_with (x # s) p then Some 0 else map_option Suc (find_sub p s))"

lemma find_char_eq_None: "find_char c s = None \<longleftrightarrow> c \<notin> set s"
  by (induction s) auto

lemma find_char_eq_Some: "find_char c s = Some i \<longleftrightarrow> i < length s \<and> s ! i = c \<and> c \<notin> set (take i s)"
proof (induction s arbitrary: i)
  case (Cons x s)
  then show ?case by (cases i) auto
qed simp

lemma find_char_split:
  "find_char c s = Some i \<Longrightarrow> \<exists>a b. s = a @ c # b \<and> c \<notin> set a \<and> length a = i"
  by (metis find_char_eq_Some id_take_nth_drop length_take min.absorb4)

lemma find_char_append: "c \<notin> set a \<Longrightarrow> find_char c (a @ c # b) = Some (length a)"
  by (induction a) auto

lemma rfind_char_append: "c \<notin> set b \<Longrightarrow> rfind_char c (a @ c # b) = Some (length a)"
  by (simp add: rfind_char_def find_char_append)

lemma rfind_char_eq_None: "rfind_char c s = None \<longleftrightarrow> c \<notin> set s"
  by (simp add: rfind_char_def find_char_eq_None)

lemma find_sub_eq_Some: "find_sub p s = Some i \<Longrightarrow> \<exists>a b. s = a @ p @ b \<and> length a = i"
proof (induction p s arbitrary: i rule: find_sub.induct)
  case (2 p x s)
  show ?case
  proof (cases "starts_with (x # s) p")
    case True
    with 2 show ?thesis by (auto simp: starts_with_iff)
  next
    case False
    with 2 obtain a b where "s = a @ p @ b" "i = Suc (length a)" by auto
    then have "x # s = (x # a) @ p @ b" "length (x # a) = i" by simp_all
    then show ?thesis by blast
  qed
qed (auto split: if_splits)

section \<open>Splitting\<close>

fun split_char :: "char \<Rightarrow> string \<Rightarrow> string list" where
  "split_char c [] = [[]]"
| "split_char c (x # s) =
     (if x = c then [] # split_char c s
      else (case split_char c s of [] \<Rightarrow> [[x]] | y # ys \<Rightarrow> (x # y) # ys))"

lemma split_char_not_Nil [simp]: "split_char c s \<noteq> []"
  by (induction s) (auto split: list.splits)

lemma split_char_none: "c \<notin> set s \<Longrightarrow> split_char c s = [s]"
  by (induction s) auto

lemma split_char_append: "c \<notin> set a \<Longrightarrow> split_char c (a @ c # b) = a # split_char c b"
  by (induction a) auto

lemma split_char_parts: "p \<in> set (split_char c s) \<Longrightarrow> c \<notin> set p \<and> set p \<subseteq> set s"
proof (induction s arbitrary: p)
  case (Cons x s)
  then show ?case
    by (cases "split_char c s") (fastforce split: if_splits)+
qed simp

lemma set_split_char: "set s \<subseteq> {c} \<union> (\<Union>p \<in> set (split_char c s). set p)"
proof (induction s)
  case (Cons x s)
  then show ?case
    by (cases "split_char c s") (auto split: if_splits)
qed simp

lemma hd_split_char: "hd (split_char c s) = takeWhile (\<lambda>x. x \<noteq> c) s"
proof (induction s)
  case (Cons x s)
  then show ?case by (cases "split_char c s") auto
qed simp

section \<open>Trimming\<close>

text \<open>The UTF-8 forms of the characters with the Unicode property White_Space.\<close>

definition ws_codes :: "nat list list" where
  "ws_codes = [[9], [10], [11], [12], [13], [32], [0xC2, 0x85], [0xC2, 0xA0], [0xE1, 0x9A, 0x80],
     [0xE2, 0x80, 0x80], [0xE2, 0x80, 0x81], [0xE2, 0x80, 0x82], [0xE2, 0x80, 0x83],
     [0xE2, 0x80, 0x84], [0xE2, 0x80, 0x85], [0xE2, 0x80, 0x86], [0xE2, 0x80, 0x87],
     [0xE2, 0x80, 0x88], [0xE2, 0x80, 0x89], [0xE2, 0x80, 0x8A], [0xE2, 0x80, 0xA8],
     [0xE2, 0x80, 0xA9], [0xE2, 0x80, 0xAF], [0xE2, 0x81, 0x9F], [0xE3, 0x80, 0x80]]"

definition ws_strings :: "string list" where
  "ws_strings = map (map char_of) ws_codes"

function trim_by :: "string list \<Rightarrow> string \<Rightarrow> string" where
  "trim_by ws s =
     (case find (\<lambda>w. w \<noteq> [] \<and> starts_with s w) ws of
        None \<Rightarrow> s
      | Some w \<Rightarrow> trim_by ws (drop (length w) s))"
  by pat_completeness auto
termination
  by (relation "measure (\<lambda>(ws, s). length s)") (auto simp: find_Some_iff starts_with_iff)

declare trim_by.simps [simp del]

definition trim_start :: "string \<Rightarrow> string" where
  "trim_start s = trim_by ws_strings s"

definition trim_end :: "string \<Rightarrow> string" where
  "trim_end s = rev (trim_by (map rev ws_strings) (rev s))"

definition trim :: "string \<Rightarrow> string" where
  "trim s = trim_end (trim_start s)"

lemma trim_by_suffix: "\<exists>p. s = p @ trim_by ws s"
proof (induction ws s rule: trim_by.induct)
  case (1 ws s)
  show ?case
  proof (cases "find (\<lambda>w. w \<noteq> [] \<and> starts_with s w) ws")
    case None
    then show ?thesis by (simp add: trim_by.simps [of ws s])
  next
    case (Some w)
    with 1 obtain p where "drop (length w) s = p @ trim_by ws (drop (length w) s)" by blast
    then have "s = (take (length w) s @ p) @ trim_by ws (drop (length w) s)"
      by (metis append_assoc append_take_drop_id)
    moreover have "trim_by ws s = trim_by ws (drop (length w) s)"
      using Some by (simp add: trim_by.simps [of ws s])
    ultimately show ?thesis by metis
  qed
qed

lemma trim_infix: "\<exists>a b. s = a @ trim s @ b"
proof -
  obtain a where a: "s = a @ trim_start s"
    using trim_by_suffix [of s ws_strings] by (auto simp: trim_start_def)
  obtain b where "rev (trim_start s) = b @ trim_by (map rev ws_strings) (rev (trim_start s))"
    using trim_by_suffix by blast
  then have "trim_start s = trim s @ rev b"
    by (metis rev_append rev_rev_ident trim_def trim_end_def)
  with a show ?thesis by metis
qed

section \<open>Byte slicing\<close>

text \<open>\<open>str::is_char_boundary\<close>; \<open>&s[i..]\<close> panics (\<open>None\<close>) at an index that is none.\<close>

definition is_char_boundary :: "string \<Rightarrow> nat \<Rightarrow> bool" where
  "is_char_boundary s i \<longleftrightarrow>
     i = 0 \<or> i = length s \<or> (i < length s \<and> \<not> utf8_cont (of_char (s ! i)))"

definition slice_from :: "string \<Rightarrow> nat \<Rightarrow> string option" where
  "slice_from s i = (if is_char_boundary s i then Some (drop i s) else None)"

definition slice :: "string \<Rightarrow> nat \<Rightarrow> nat \<Rightarrow> string option" where
  "slice s i j =
     (if i \<le> j \<and> is_char_boundary s i \<and> is_char_boundary s j then Some (take (j - i) (drop i s)) else None)"

lemma ascii_char_boundary: "is_ascii s \<Longrightarrow> i \<le> length s \<Longrightarrow> is_char_boundary s i"
  by (force simp: is_ascii_def is_char_boundary_def utf8_cont_def list_all_length le_less)

section \<open>Decimal parsing\<close>

definition is_digit :: "char \<Rightarrow> bool" where
  "is_digit c \<longleftrightarrow> 48 \<le> (of_char c :: nat) \<and> (of_char c :: nat) \<le> 57"

definition digit_value :: "char \<Rightarrow> nat" where
  "digit_value c = of_char c - 48"

definition parse_digits :: "string \<Rightarrow> nat option" where
  "parse_digits s =
     (if s \<noteq> [] \<and> list_all is_digit s then Some (foldl (\<lambda>n c. 10 * n + digit_value c) 0 s) else None)"

text \<open>\<open>str::parse::<u32>\<close>: an optional \<open>+\<close>, at least one digit, an error on overflow.\<close>

definition parse_u32 :: "string \<Rightarrow> u32 option" where
  "parse_u32 s =
     (let d = (case s of c # r \<Rightarrow> if c = CHR ''+'' then r else s | [] \<Rightarrow> [])
      in case parse_digits d of
           Some n \<Rightarrow> if n < 2 ^ 32 then Some (of_nat n) else None
         | None \<Rightarrow> None)"

text \<open>\<open>str::parse::<i64>\<close>: an optional sign, at least one digit, an error out of range.\<close>

definition parse_i64 :: "string \<Rightarrow> i64 option" where
  "parse_i64 s =
     (case s of
        [] \<Rightarrow> None
      | c # r \<Rightarrow>
          if c = CHR ''-'' then
            (case parse_digits r of
               Some n \<Rightarrow> if n \<le> 2 ^ 63 then Some (- of_nat n) else None | None \<Rightarrow> None)
          else
            (case parse_digits (if c = CHR ''+'' then r else s) of
               Some n \<Rightarrow> if n < 2 ^ 63 then Some (of_nat n) else None | None \<Rightarrow> None))"

lemma parse_u32_plus: "parse_u32 s = Some v \<Longrightarrow> starts_with s ''+'' = False \<Longrightarrow> parse_u32 (''+'' @ s) = Some v"
  by (cases s) (auto simp: parse_u32_def starts_with_def Let_def split: if_splits)

section \<open>Decimal printing\<close>

text \<open>\<open>to_string\<close> of an unsigned number and of an \<open>i64\<close>.\<close>

fun decimal :: "nat \<Rightarrow> string" where
  "decimal n = (if n < 10 then [char_of (48 + n)] else decimal (n div 10) @ [char_of (48 + n mod 10)])"

declare decimal.simps [simp del]

lemma digit_char: "n < 10 \<Longrightarrow> is_digit (char_of (48 + n)) \<and> digit_value (char_of (48 + n)) = n"
  by (simp add: is_digit_def digit_value_def)

lemma decimal_not_Nil: "decimal n \<noteq> []"
  by (simp add: decimal.simps [of n])

lemma decimal_digits: "c \<in> set (decimal n) \<Longrightarrow> is_digit c"
proof (induction n rule: decimal.induct)
  case (1 n)
  then show ?case
    using digit_char [of n] digit_char [of "n mod 10"]
    by (auto simp: decimal.simps [of n] split: if_splits)
qed

lemma parse_digits_decimal: "parse_digits (decimal n) = Some n"
proof -
  have "foldl (\<lambda>n c. 10 * n + digit_value c) 0 (decimal n) = n"
  proof (induction n rule: decimal.induct)
    case (1 n)
    then show ?case
      using digit_char [of n] digit_char [of "n mod 10"] by (simp add: decimal.simps [of n])
  qed
  then show ?thesis
    by (auto simp: parse_digits_def list_all_iff decimal_digits decimal_not_Nil)
qed

definition i64_to_string :: "i64 \<Rightarrow> string" where
  "i64_to_string v = (if sint v < 0 then ''-'' @ decimal (nat (- sint v)) else decimal (nat (sint v)))"

lemma decimal_hd_digit: "\<exists>c r. decimal n = c # r \<and> is_digit c"
  using decimal_not_Nil [of n] decimal_digits [of _ n] by (cases "decimal n") auto

lemma parse_i64_to_string: "parse_i64 (i64_to_string v) = Some v"
proof -
  have b: "- (2 ^ 63) \<le> sint v" "sint v < 2 ^ 63"
    using sint_range_size [of v] by (simp_all add: word_size)
  show ?thesis
  proof (cases "sint v < 0")
    case True
    have "- of_nat (nat (- sint v)) = (word_of_int (sint v) :: i64)"
      using True by (simp only: of_nat_nat of_int_minus [symmetric]) simp
    moreover have "nat (- sint v) \<le> 2 ^ 63" using b True by simp
    ultimately show ?thesis
      using True by (simp add: i64_to_string_def parse_i64_def parse_digits_decimal)
  next
    case False
    obtain c r where c: "decimal (nat (sint v)) = c # r" "is_digit c" using decimal_hd_digit by blast
    then have "c \<noteq> CHR ''-''" "c \<noteq> CHR ''+''" by (auto simp: is_digit_def)
    moreover have "of_nat (nat (sint v)) = (word_of_int (sint v) :: i64)"
      using False by (simp only: of_nat_nat)
    moreover have "nat (sint v) < 2 ^ 63" using b False by simp
    ultimately show ?thesis
      using False c parse_digits_decimal [of "nat (sint v)"] by (simp add: i64_to_string_def parse_i64_def)
  qed
qed

end
