(* ===== verification/Verify.thy ===== *)
theory Verify
  imports Predicates Rust_Str
begin

text \<open>
  \<open>predicates/verify.rs\<close>: the check of field names that keeps SQL fragments out of predicates. The
  lemmas characterise which characters an accepted field can hold and which item a failed
  verification of a predicates object reports.
\<close>

section \<open>Fields\<close>

definition is_ascii_alphanumeric :: "char \<Rightarrow> bool" where
  "is_ascii_alphanumeric c \<longleftrightarrow>
     (let b = (of_char c :: nat) in 48 \<le> b \<and> b \<le> 57 \<or> 65 \<le> b \<and> b \<le> 90 \<or> 97 \<le> b \<and> b \<le> 122)"

definition is_word :: "string \<Rightarrow> bool" where
  "is_word s \<longleftrightarrow> s \<noteq> [] \<and> list_all (\<lambda>b. is_ascii_alphanumeric b \<or> b = CHR ''_'') s"

definition is_valid_identifier :: "string \<Rightarrow> bool" where
  "is_valid_identifier s \<longleftrightarrow>
     (if s = [] then False
      else (case strip_prefix ''$.'' s of
              Some rest \<Rightarrow> is_word rest
            | None \<Rightarrow>
                (let parts = split_char (CHR ''.'') s
                 in if length parts = 1 then is_word (parts ! 0)
                    else if length parts = 2 then is_word (parts ! 0) \<and> is_word (parts ! 1)
                    else if length parts = 3 then is_word (parts ! 0) \<and> is_word (parts ! 1) \<and> is_word (parts ! 2)
                    else False)))"

text \<open>\<open>&s[1..s.len() - 1]\<close> starts and ends next to an ASCII character, so the slice never panics.\<close>

definition unwrap_brackets :: "string \<Rightarrow> string" where
  "unwrap_brackets s =
     (if length s \<ge> 2
         \<and> (s ! 0 = CHR ''('' \<and> s ! (length s - 1) = CHR '')''
            \<or> s ! 0 = CHR ''['' \<and> s ! (length s - 1) = CHR '']''
            \<or> s ! 0 = CHR 0x22 \<and> s ! (length s - 1) = CHR 0x22)
      then take (length s - 2) (drop 1 s)
      else s)"

definition verify_field :: "string \<Rightarrow> bool" where
  "verify_field field \<longleftrightarrow>
     (if field = [] then True
      else (let field = trim field; inner = unwrap_brackets field in is_valid_identifier inner))"

fun verify_fields :: "single_value list \<Rightarrow> bool" where
  "verify_fields [] = True"
| "verify_fields (v # vs) =
     (case v of SvString s \<Rightarrow> if \<not> verify_field s then False else verify_fields vs | _ \<Rightarrow> verify_fields vs)"

section \<open>Items and predicates\<close>

datatype predicates_verify_type =
    PvDefault
  | PvSingle2ParamsPublic
  | PvSingle3ParamsPublic
  | PvSingle2ParamsSys
  | PvSingle3ParamsSys
  | PvMulti2ParamsSys

definition get_verify_type :: "operation_type \<Rightarrow> predicates_verify_type" where
  "get_verify_type op =
     (if op \<in> {OpOrderByAsc, OpOrderByDesc} then PvSingle2ParamsPublic
      else if op = OpEqualTo then PvSingle3ParamsPublic
      else if op \<in> {OpIsNull, OpIsNotNull, OpIndexedBy, OpKeyPrefix} then PvSingle2ParamsSys
      else if op \<in> {OpNotEqualTo, OpGreaterThan, OpLessThan, OpGreaterThanOrEqualTo, OpLessThanOrEqualTo,
          OpNotIn, OpLike, OpUnlike, OpBeginWith, OpEndWith, OpContains, OpGlob, OpBetween, OpNotBetween}
        then PvSingle3ParamsSys
      else if op \<in> {OpInKey, OpGroupBy} then PvMulti2ParamsSys
      else PvDefault)"

definition check_param_num :: "predicates_verify_type \<Rightarrow> operation_item \<Rightarrow> bool" where
  "check_param_num verify_type item =
     (case verify_type of
        PvDefault \<Rightarrow> True
      | PvMulti2ParamsSys \<Rightarrow> oi_multi_values item \<noteq> None
      | _ \<Rightarrow> oi_field item \<noteq> [] \<or> oi_value item \<noteq> None)"

definition verify_by_type :: "predicates_verify_type \<Rightarrow> operation_item \<Rightarrow> i32" where
  "verify_by_type verify_type item =
     (if verify_type = PvDefault \<or> \<not> check_param_num verify_type item then error_code ErrOk
      else if verify_type \<in> {PvSingle2ParamsPublic, PvSingle3ParamsPublic} \<and> \<not> verify_field (oi_field item)
        then error_code ErrFieldInvalid
      else if verify_type \<in> {PvSingle2ParamsSys, PvSingle3ParamsSys} \<and> \<not> verify_field (oi_field item)
        then error_code ErrFieldIllegal
      else if verify_type = PvMulti2ParamsSys
          \<and> (case oi_multi_values item of Some vals \<Rightarrow> \<not> verify_fields vals | None \<Rightarrow> False)
        then error_code ErrFieldIllegal
      else error_code ErrOk)"

fun verify_items :: "operation_item list \<Rightarrow> i32 \<times> i32" where
  "verify_items [] = (0, 0)"
| "verify_items (item # items) =
     (let verify_type = get_verify_type (oi_operation item);
          err_code = verify_by_type verify_type item
      in if err_code \<noteq> error_code ErrOk then (operation_type_code (oi_operation item), err_code)
         else verify_items items)"

definition verify_predicates :: "data_share_predicates \<Rightarrow> i32 \<times> i32" where
  "verify_predicates predicates = verify_items (pd_operations predicates)"

section \<open>What an accepted field holds\<close>

definition field_chars :: "char set" where
  "field_chars = {c. is_ascii_alphanumeric c \<or> c \<in> {CHR ''_'', CHR ''.'', CHR ''$''}}"

lemma is_word_chars: "is_word s \<Longrightarrow> set s \<subseteq> field_chars"
  by (auto simp: is_word_def list_all_iff field_chars_def)

lemma split_chars_words:
  assumes "\<forall>p \<in> set (split_char (CHR ''.'') s). is_word p"
  shows "set s \<subseteq> field_chars"
proof -
  have "(\<Union>p \<in> set (split_char (CHR ''.'') s). set p) \<subseteq> field_chars"
    using assms is_word_chars by blast
  moreover have "CHR ''.'' \<in> field_chars" by (simp add: field_chars_def)
  ultimately show ?thesis
    using set_split_char [of s "CHR ''.''"] by blast
qed

lemma is_valid_identifier_chars:
  assumes "is_valid_identifier s"
  shows "s \<noteq> [] \<and> set s \<subseteq> field_chars"
proof (cases "strip_prefix ''$.'' s")
  case (Some rest)
  then have "s = ''$.'' @ rest" by (simp only: strip_prefix_eq_Some)
  with Some assms is_word_chars [of rest] show ?thesis
    by (auto simp: is_valid_identifier_def field_chars_def)
next
  case None
  let ?ps = "split_char (CHR ''.'') s"
  have "\<forall>i < length ?ps. is_word (?ps ! i)"
    using assms None
    by (auto simp: is_valid_identifier_def Let_def less_Suc_eq numeral_2_eq_2 numeral_3_eq_3 split: if_splits)
  then have "\<forall>p \<in> set ?ps. is_word p" by (metis in_set_conv_nth)
  then show ?thesis
    using assms split_chars_words by (auto simp: is_valid_identifier_def split: if_splits)
qed

definition bracket_pairs :: "(string \<times> string) set" where
  "bracket_pairs = {([], []), (''('', '')''), (''['', '']''), ([CHR 0x22], [CHR 0x22])}"

lemma unwrap_brackets_cases: "\<exists>(a, b) \<in> bracket_pairs. s = a @ unwrap_brackets s @ b"
proof (cases "unwrap_brackets s = s")
  case True
  then show ?thesis by (auto simp: bracket_pairs_def)
next
  case False
  then have "2 \<le> length s" by (auto simp: unwrap_brackets_def split: if_splits)
  then obtain a r where "s = a # r" "r \<noteq> []" by (cases s) fastforce+
  then obtain m b where s: "s = a # m @ [b]" by (metis rev_exhaust)
  then have "([a], [b]) \<in> bracket_pairs \<and> unwrap_brackets s = m"
    using False by (auto simp: unwrap_brackets_def nth_append bracket_pairs_def split: if_splits)
  with s show ?thesis by (intro bexI [of _ "([a], [b])"]) simp_all
qed

lemma field_chars_safe:
  "field_chars \<inter> {CHR 0x27, CHR 0x22, CHR '';'', CHR ''-'', CHR ''('', CHR '')'', CHR '' '', CHR ''=''} = {}"
  by (auto simp: field_chars_def is_ascii_alphanumeric_def)

text \<open>C4: no SQL fragment passes the field check. An accepted non-empty field is white space around an
  optional bracket or quote pair around a non-empty name of letters, digits, underscores, dots and
  dollar signs; in particular no accepted name contains a quote, a semicolon, a comment dash, a
  parenthesis or inner white space.\<close>

theorem verify_field_no_injection:
  assumes "verify_field field" and "field \<noteq> []"
  shows "\<exists>pre opn name cls post. field = pre @ opn @ name @ cls @ post \<and> trim field = opn @ name @ cls
    \<and> (opn, cls) \<in> bracket_pairs \<and> name \<noteq> [] \<and> set name \<subseteq> field_chars
    \<and> set name \<inter> {CHR 0x27, CHR 0x22, CHR '';'', CHR ''-'', CHR ''('', CHR '')'', CHR '' '', CHR ''=''} = {}"
proof -
  let ?name = "unwrap_brackets (trim field)"
  obtain pre post where f: "field = pre @ trim field @ post"
    using trim_infix by blast
  obtain a b where ab: "(a, b) \<in> bracket_pairs" "trim field = a @ ?name @ b"
    using unwrap_brackets_cases [of "trim field"] by blast
  have n: "?name \<noteq> []" "set ?name \<subseteq> field_chars"
    using assms is_valid_identifier_chars [of ?name] by (auto simp: verify_field_def Let_def)
  have "field = pre @ a @ ?name @ b @ post"
    using f ab(2) by (metis append_assoc)
  moreover have "set ?name \<inter> {CHR 0x27, CHR 0x22, CHR '';'', CHR ''-'', CHR ''('', CHR '')'', CHR '' '', CHR ''=''} = {}"
    using n(2) field_chars_safe by blast
  ultimately show ?thesis using n ab by blast
qed

lemma find_ws_None:
  "s \<noteq> [] \<Longrightarrow> hd s \<notin> hd ` set ws \<Longrightarrow> find (\<lambda>w. w \<noteq> [] \<and> starts_with s w) ws = None"
  by (auto simp: find_None_iff starts_with_iff image_iff)

lemma ws_not_visible:
  "w \<in> set ws_strings \<Longrightarrow> w \<noteq> [] \<and> of_char (hd w) \<notin> {33..<128 :: nat} \<and> of_char (last w) \<notin> {33..<128 :: nat}"
proof -
  have "list_all (\<lambda>w. w \<noteq> [] \<and> of_char (hd w) \<notin> {33..<128 :: nat} \<and> of_char (last w) \<notin> {33..<128 :: nat}) ws_strings"
    by (simp add: ws_strings_def ws_codes_def)
  then show "w \<in> set ws_strings \<Longrightarrow> w \<noteq> [] \<and> of_char (hd w) \<notin> {33..<128 :: nat} \<and> of_char (last w) \<notin> {33..<128 :: nat}"
    by (simp add: list_all_iff)
qed

lemma trim_no_ws:
  assumes "s \<noteq> []" "of_char (hd s) \<in> {33..<128 :: nat}" "of_char (last s) \<in> {33..<128 :: nat}"
  shows "trim s = s"
proof -
  have 1: "hd s \<notin> hd ` set ws_strings"
    using assms(2) ws_not_visible by fastforce
  have "last s \<notin> last ` set ws_strings"
    using assms(3) ws_not_visible by fastforce
  then have "hd (rev s) \<notin> hd ` set (map rev ws_strings)"
    by (simp add: hd_rev image_image)
  with 1 show ?thesis
    using assms
    by (simp add: trim_def trim_start_def trim_end_def trim_by.simps [of ws_strings s]
        trim_by.simps [of "map rev ws_strings" "rev s"] find_ws_None)
qed

theorem verify_field_no_injection_witness:
  "verify_field ''[t.col]'' \<and> (\<exists>opn name cls. (opn, cls) \<in> bracket_pairs \<and> name \<noteq> [] \<and> set name \<subseteq> field_chars)"
proof -
  have 1: "trim ''[t.col]'' = ''[t.col]''"
    by (rule trim_no_ws) simp_all
  have 2: "unwrap_brackets ''[t.col]'' = ''t.col''"
    by (simp add: unwrap_brackets_def)
  have 3: "split_char (CHR ''.'') ''t.col'' = [''t'', ''col'']" "strip_prefix ''$.'' ''t.col'' = None"
    by simp_all
  have 4: "is_word ''t''" "is_word ''col''"
    by (simp_all add: is_word_def is_ascii_alphanumeric_def)
  have "is_valid_identifier ''t.col''"
    unfolding is_valid_identifier_def 3 Let_def option.case by (simp add: 4)
  then have "verify_field ''[t.col]''"
    unfolding verify_field_def Let_def 1 2 by simp
  moreover obtain opn name cls where "(opn, cls) \<in> bracket_pairs" "name \<noteq> []" "set name \<subseteq> field_chars"
    using verify_field_no_injection [OF calculation list.distinct(2)] by (elim exE conjE) (rule that)
  ultimately show ?thesis by (intro conjI exI)
qed

section \<open>Verifying a predicates object\<close>

lemma verify_fields_iff: "verify_fields vs \<longleftrightarrow> (\<forall>s. SvString s \<in> set vs \<longrightarrow> verify_field s)"
  by (induction vs) (auto split: single_value.splits)

text \<open>The fields an item exposes to the check: none for an unclassified operation, the string elements
  of the list for the multi-field operations, else the field itself.\<close>

definition checked_fields :: "operation_item \<Rightarrow> string set" where
  "checked_fields item =
     (case get_verify_type (oi_operation item) of
        PvDefault \<Rightarrow> {}
      | PvMulti2ParamsSys \<Rightarrow> {s. \<exists>vs. oi_multi_values item = Some vs \<and> SvString s \<in> set vs}
      | _ \<Rightarrow> {oi_field item})"

definition item_error :: "operation_item \<Rightarrow> data_share_error" where
  "item_error item =
     (if get_verify_type (oi_operation item) \<in> {PvSingle2ParamsPublic, PvSingle3ParamsPublic}
      then ErrFieldInvalid else ErrFieldIllegal)"

definition item_fields_ok :: "operation_item \<Rightarrow> bool" where
  "item_fields_ok item \<longleftrightarrow> (\<forall>f \<in> checked_fields item. verify_field f)"

lemma verify_by_type_eq:
  "verify_by_type (get_verify_type (oi_operation item)) item =
     (if item_fields_ok item then error_code ErrOk else error_code (item_error item))"
  by (cases "get_verify_type (oi_operation item)")
    (auto simp: verify_by_type_def check_param_num_def checked_fields_def item_error_def verify_fields_iff
      verify_field_def item_fields_ok_def split: option.splits)

lemma item_error_code: "error_code (item_error item) \<noteq> error_code ErrOk"
  by (simp add: item_error_def)

lemma verify_items_Cons:
  "verify_items (x # xs) =
     (if item_fields_ok x then verify_items xs
      else (operation_type_code (oi_operation x), error_code (item_error x)))"
  using item_error_code [of x] by (simp add: verify_by_type_eq Let_def)

lemma verify_items_ok: "\<forall>item \<in> set items. item_fields_ok item \<Longrightarrow> verify_items items = (0, 0)"
  by (induction items) (simp_all add: verify_items_Cons del: verify_items.simps(2))

lemma verify_items_offender:
  "\<forall>it \<in> set before. item_fields_ok it \<Longrightarrow> \<not> item_fields_ok item \<Longrightarrow>
     verify_items (before @ item # after) = (operation_type_code (oi_operation item), error_code (item_error item))"
  by (induction before) (simp_all add: verify_items_Cons del: verify_items.simps(2))



end
