(* ===== verification/Ordered_Map.thy ===== *)
theory Ordered_Map
  imports Prelude
begin

text \<open>
  \<open>std::collections::BTreeMap\<close>: an association list kept strictly sorted by key, which is also
  the order its iterators deliver. The interface other components rely on is the locale
  \<open>key_value_map\<close>; the sorted list is its interpretation \<open>btm\<close>.
\<close>

type_synonym ('k, 'v) btree = "('k \<times> 'v) list"

fun bt_insert :: "'k::linorder \<Rightarrow> 'v \<Rightarrow> ('k, 'v) btree \<Rightarrow> ('k, 'v) btree" where
  "bt_insert k v [] = [(k, v)]"
| "bt_insert k v ((a, b) # m) =
     (if k < a then (k, v) # (a, b) # m
      else if k = a then (a, v) # m
      else (a, b) # bt_insert k v m)"

fun bt_get :: "('k::linorder, 'v) btree \<Rightarrow> 'k \<Rightarrow> 'v option" where
  "bt_get [] k = None"
| "bt_get ((a, b) # m) k = (if k = a then Some b else bt_get m k)"

fun bt_remove :: "'k::linorder \<Rightarrow> ('k, 'v) btree \<Rightarrow> ('k, 'v) btree" where
  "bt_remove k [] = []"
| "bt_remove k ((a, b) # m) = (if k = a then m else (a, b) # bt_remove k m)"

definition bt_ok :: "('k::linorder, 'v) btree \<Rightarrow> bool" where
  "bt_ok m \<longleftrightarrow> sorted_wrt (<) (map fst m)"

definition bt_insert_all :: "('k::linorder \<times> 'v) list \<Rightarrow> ('k, 'v) btree \<Rightarrow> ('k, 'v) btree" where
  "bt_insert_all es m = fold (\<lambda>(k, v). bt_insert k v) es m"

lemma bt_ok_Nil [simp]: "bt_ok []"
  by (simp add: bt_ok_def)

lemma bt_ok_Cons [simp]: "bt_ok ((a, b) # m) \<longleftrightarrow> (\<forall>x \<in> fst ` set m. a < x) \<and> bt_ok m"
  by (simp add: bt_ok_def)

lemma fst_set_bt_insert [simp]: "fst ` set (bt_insert k v m) = insert k (fst ` set m)"
  by (induction k v m rule: bt_insert.induct) auto

lemma fst_set_bt_remove: "fst ` set (bt_remove k m) \<subseteq> fst ` set m"
  by (induction k m rule: bt_remove.induct) auto

lemma bt_ok_insert [simp]: "bt_ok m \<Longrightarrow> bt_ok (bt_insert k v m)"
  by (induction k v m rule: bt_insert.induct) auto

lemma bt_ok_remove [simp]: "bt_ok m \<Longrightarrow> bt_ok (bt_remove k m)"
  by (induction k m rule: bt_remove.induct) (use fst_set_bt_remove in fastforce)+

lemma bt_get_None_iff: "bt_get m k = None \<longleftrightarrow> k \<notin> fst ` set m"
  by (induction m k rule: bt_get.induct) auto

lemma bt_get_SomeD: "bt_get m k = Some v \<Longrightarrow> (k, v) \<in> set m"
  by (induction m k rule: bt_get.induct) (auto split: if_splits)

lemma bt_get_mem: "bt_ok m \<Longrightarrow> (k, v) \<in> set m \<Longrightarrow> bt_get m k = Some v"
  by (induction m k rule: bt_get.induct) force+

lemma bt_get_insert: "bt_get (bt_insert k v m) j = (if j = k then Some v else bt_get m j)"
  by (induction k v m rule: bt_insert.induct) auto

lemma bt_get_remove: "bt_ok m \<Longrightarrow> bt_get (bt_remove k m) j = (if j = k then None else bt_get m j)"
proof (induction k m rule: bt_remove.induct)
  case (2 k a b m)
  then have "bt_get m a = None" by (auto simp: bt_get_None_iff)
  with 2 show ?case by auto
qed simp

lemma length_bt_insert:
  "length (bt_insert k v m) = (if bt_get m k = None then Suc (length m) else length m)"
  if "bt_ok m"
  using that
proof (induction k v m rule: bt_insert.induct)
  case (2 k v a b m)
  then show ?case by (auto simp: bt_get_None_iff)
qed simp

lemma bt_insert_snoc: "bt_ok (m @ [(k, v)]) \<Longrightarrow> bt_insert k v m = m @ [(k, v)]"
  by (induction m) (auto simp: bt_ok_def sorted_wrt_append)

lemma bt_insert_all_append:
  "bt_ok (acc @ m) \<Longrightarrow> bt_insert_all m acc = acc @ m"
proof (induction m arbitrary: acc)
  case (Cons e m)
  obtain k v where e: "e = (k, v)" by (cases e)
  from Cons.prems have "bt_ok (acc @ [(k, v)])"
    by (auto simp: bt_ok_def sorted_wrt_append e)
  then have "bt_insert_all (e # m) acc = bt_insert_all m (acc @ [(k, v)])"
    by (simp add: bt_insert_all_def bt_insert_snoc e)
  with Cons show ?case by (simp add: e)
qed (simp add: bt_insert_all_def)

text \<open>Re-inserting the entries a map delivers in iteration order rebuilds the map.\<close>

lemma bt_insert_all_rebuild [simp]: "bt_ok m \<Longrightarrow> bt_insert_all m [] = m"
  using bt_insert_all_append [of "[]" m] by simp

lemma bt_ok_insert_all [simp]: "bt_ok m \<Longrightarrow> bt_ok (bt_insert_all es m)"
  by (induction es arbitrary: m) (auto simp: bt_insert_all_def split: prod.splits)

text \<open>Two maps that answer every lookup alike are the same list.\<close>

lemma bt_ext:
  "bt_ok m \<Longrightarrow> bt_ok n \<Longrightarrow> (\<And>k. bt_get m k = bt_get n k) \<Longrightarrow> m = n"
proof (induction m arbitrary: n)
  case Nil
  have "fst ` set n = {}"
    using Nil.prems(3) bt_get_None_iff [of n] by force
  then show ?case by simp
next
  case (Cons e m)
  obtain k v where e: "e = (k, v)" by (cases e)
  obtain k' v' n' where n: "n = (k', v') # n'"
    using Cons.prems(3) [of k] by (cases n) (auto simp: e)
  have mem: "x \<in> fst ` set (e # m) \<longleftrightarrow> x \<in> fst ` set n" for x
    using Cons.prems(3) [of x] bt_get_None_iff [of n x] bt_get_None_iff [of "e # m" x] by auto
  have kk: "k = k'"
  proof (rule ccontr)
    assume "k \<noteq> k'"
    then have "k \<in> fst ` set n'" "k' \<in> fst ` set m"
      using mem [of k] mem [of k'] by (auto simp: e n)
    then have "k' < k" "k < k'"
      using Cons.prems(1,2) by (auto simp: e n)
    then show False by simp
  qed
  have vv: "v = v'"
    using Cons.prems(3) [of k] by (simp add: e n kk)
  have "bt_get m x = bt_get n' x" for x
    using Cons.prems(3) [of x] Cons.prems(1,2) bt_get_None_iff [of m k] bt_get_None_iff [of n' k]
    by (cases "x = k") (auto simp: e n kk)
  then have "m = n'"
    using Cons.prems(1,2) by (intro Cons.IH) (auto simp: e n)
  then show ?case by (simp add: e n kk vv)
qed

text \<open>Changing the values in place (\<open>iter_mut\<close>).\<close>

lemma bt_get_map_values: "bt_get (map (\<lambda>(k, es). (k, f k es)) m) k = map_option (f k) (bt_get m k)"
  by (induction m) auto

lemma bt_ok_map_values [simp]: "bt_ok (map (\<lambda>(k, es). (k, f k es)) m) \<longleftrightarrow> bt_ok m"
proof -
  have "map fst (map (\<lambda>(k, es). (k, f k es)) m) = map fst m" by auto
  then show ?thesis by (simp only: bt_ok_def)
qed

lemma set_bt_insert: "set (bt_insert k v m) \<subseteq> insert (k, v) (set m)"
  by (induction k v m rule: bt_insert.induct) auto

section \<open>The map interface\<close>

locale key_value_map =
  fixes nothing :: "'m" and put :: "'k \<Rightarrow> 'v \<Rightarrow> 'm \<Rightarrow> 'm"
    and look :: "'m \<Rightarrow> 'k \<Rightarrow> 'v option" and drp :: "'k \<Rightarrow> 'm \<Rightarrow> 'm" and inv :: "'m \<Rightarrow> bool"
  assumes look_nothing: "look nothing k = None"
    and look_put: "inv m \<Longrightarrow> look (put k v m) j = (if j = k then Some v else look m j)"
    and look_drp: "inv m \<Longrightarrow> look (drp k m) j = (if j = k then None else look m j)"
    and inv_nothing: "inv nothing"
    and inv_put: "inv m \<Longrightarrow> inv (put k v m)"
    and inv_drp: "inv m \<Longrightarrow> inv (drp k m)"
begin

lemma inv_puts: "inv m \<Longrightarrow> inv (fold (\<lambda>(k, v). put k v) es m)"
  by (induction es arbitrary: m) (auto intro: inv_put)

lemma look_puts:
  "inv m \<Longrightarrow> look (fold (\<lambda>(k, v). put k v) es m) j =
     (case map_of (rev es) j of None \<Rightarrow> look m j | Some v \<Rightarrow> Some v)"
proof (induction es arbitrary: m)
  case (Cons e es)
  obtain k v where e: "e = (k, v)" by (cases e)
  from Cons.prems have "inv (put k v m)" by (rule inv_put)
  from Cons.IH [OF this] show ?case
    by (auto simp: e look_put [OF Cons.prems] map_add_def split: option.splits)
qed simp

lemma look_puts_nothing:
  "look (fold (\<lambda>(k, v). put k v) es nothing) j = map_of (rev es) j"
  by (auto simp: look_puts inv_nothing look_nothing split: option.splits)

lemma look_drp_put: "inv m \<Longrightarrow> look (drp k (put k v m)) j = look (drp k m) j"
  by (simp add: look_drp look_put inv_put)

end

interpretation btm: key_value_map "[]" bt_insert bt_get bt_remove bt_ok
  by unfold_locales (simp_all add: bt_get_insert bt_get_remove)

lemma bt_get_insert_all: "bt_get (bt_insert_all es []) k = map_of (rev es) k"
  unfolding bt_insert_all_def by (rule btm.look_puts_nothing)

end
