(* ===== verification/Uri_Utils.thy ===== *)
theory Uri_Utils
  imports Rust_Str Ordered_Map Errors
begin

text \<open>
  \<open>utils/uri_utils.rs\<close> and \<open>utils/string_utils.rs\<close>: authority and path of a \<open>content://\<close> URI, query
  parameters, the user and system-ability numbers carried by a URI, and the anonymizing and random
  helpers. Index arithmetic on \<open>&str\<close> is a recursion on the remaining bytes; where a slice can panic
  the model returns \<open>None\<close>.
\<close>

section \<open>Scheme, authority and path\<close>

definition CONTENT :: string where
  "CONTENT = ''content://''"

definition is_datashare_uri :: "string \<Rightarrow> bool" where
  "is_datashare_uri uri \<longleftrightarrow> starts_with uri CONTENT"

definition get_authority :: "string \<Rightarrow> string option" where
  "get_authority uri =
     (if \<not> starts_with uri CONTENT then None
      else (let after_scheme = drop (length CONTENT) uri
            in case split_char (CHR ''/'') after_scheme of [] \<Rightarrow> None | s # _ \<Rightarrow> Some s))"

text \<open>\<open>splitn(2, c)\<close>.\<close>

definition splitn2 :: "char \<Rightarrow> string \<Rightarrow> string list" where
  "splitn2 c s = (case find_char c s of None \<Rightarrow> [s] | Some i \<Rightarrow> [take i s, drop (Suc i) s])"

definition get_path :: "string \<Rightarrow> string option" where
  "get_path uri =
     (if \<not> starts_with uri CONTENT then None
      else (let after_scheme = drop (length CONTENT) uri;
                parts = splitn2 (CHR ''/'') after_scheme
            in if 1 < length parts then Some (''/'' @ parts ! 1) else Some ''/''))"

definition ok_or :: "'a option \<Rightarrow> data_share_error \<Rightarrow> 'a ds_result" where
  "ok_or x e = (case x of None \<Rightarrow> Inl e | Some v \<Rightarrow> Inr v)"

definition parse_uri :: "string \<Rightarrow> (string \<times> string) ds_result" where
  "parse_uri uri =
     (if \<not> is_datashare_uri uri then Inl ErrDataShareInvalidUri
      else (case ok_or (get_authority uri) ErrDataShareInvalidUri of
              Inl e \<Rightarrow> Inl e
            | Inr authority \<Rightarrow>
                (case ok_or (get_path uri) ErrDataShareInvalidUri of
                   Inl e \<Rightarrow> Inl e
                 | Inr path \<Rightarrow> Inr (authority, path))))"

definition build_uri :: "string \<Rightarrow> string \<Rightarrow> string" where
  "build_uri authority path = CONTENT @ authority @ path"

definition normalize_uri :: "string \<Rightarrow> string" where
  "normalize_uri uri =
     (if starts_with uri CONTENT then uri
      else if starts_with uri ''//'' then ''content:'' @ uri
      else CONTENT @ uri)"

definition uri_equals :: "string \<Rightarrow> string \<Rightarrow> bool" where
  "uri_equals uri1 uri2 \<longleftrightarrow> uri1 = uri2"

definition get_bundle_name :: "string \<Rightarrow> string option" where
  "get_bundle_name uri =
     map_option (\<lambda>auth. case split_char (CHR ''.'') auth of [] \<Rightarrow> auth | s # _ \<Rightarrow> s) (get_authority uri)"

definition format_uri :: "string \<Rightarrow> string" where
  "format_uri uri = (case rfind_char (CHR ''?'') uri of Some pos \<Rightarrow> take pos uri | None \<Rightarrow> uri)"

section \<open>Numbers and query parameters\<close>

definition strtoul :: "string \<Rightarrow> bool \<times> u32" where
  "strtoul s =
     (if s = [] then (False, 0)
      else (let trimmed = trim_start s;
                stripped = (case strip_prefix ''+'' trimmed of Some r \<Rightarrow> r | None \<Rightarrow> trimmed)
            in if stripped = [] then (False, 0)
               else (case parse_u32 stripped of Some v \<Rightarrow> (True, v) | None \<Rightarrow> (False, 0))))"

text \<open>The \<open>while start < query.len()\<close> loop; the argument is \<open>query[start..]\<close>.\<close>

function query_loop :: "string \<Rightarrow> (string, string) btree \<Rightarrow> (string, string) btree" where
  "query_loop q params =
     (if q = [] then params
      else (let delimiter = (case find_char (CHR ''&'') q of None \<Rightarrow> length q | Some p \<Rightarrow> p);
                params' = (case find_char (CHR ''='') q of
                     Some eq \<Rightarrow>
                       (if eq < delimiter
                        then bt_insert (take eq q) (take (delimiter - Suc eq) (drop (Suc eq) q)) params
                        else params)
                   | None \<Rightarrow> params)
            in query_loop (drop (Suc delimiter) q) params'))"
  by pat_completeness auto
termination
  by (relation "measure (\<lambda>(q, params). length q)") auto

declare query_loop.simps [simp del]

definition get_query_params :: "string \<Rightarrow> (string, string) btree" where
  "get_query_params uri =
     (case find_char (CHR ''?'') uri of
        None \<Rightarrow> []
      | Some query_start \<Rightarrow> query_loop (drop (Suc query_start) uri) [])"

definition get_user_from_uri :: "string \<Rightarrow> bool \<times> i32" where
  "get_user_from_uri uri =
     (let params = get_query_params uri
      in case bt_get params ''user'' of
           None \<Rightarrow> (True, - 1)
         | Some user_str \<Rightarrow>
             (if user_str = [] then (True, - 1)
              else (case strtoul user_str of
                      (True, data) \<Rightarrow> if data > 0x7FFFFFFF then (False, - 1) else (True, data)
                    | (False, _) \<Rightarrow> (False, - 1))))"

definition trim_start_matches :: "char \<Rightarrow> string \<Rightarrow> string" where
  "trim_start_matches c s = dropWhile (\<lambda>x. x = c) s"

definition extract_first_path_segment :: "string \<Rightarrow> string" where
  "extract_first_path_segment uri =
     (case find_sub ''://'' uri of
        None \<Rightarrow> []
      | Some colon_pos \<Rightarrow>
          (let after_scheme = drop (colon_pos + 3) uri;
               trimmed = trim_start_matches (CHR ''/'') after_scheme
           in if trimmed = [] then []
              else (case find_char (CHR ''/'') trimmed of
                      Some pos \<Rightarrow> take pos trimmed
                    | None \<Rightarrow> trimmed)))"

definition SA_SCHEMA :: string where
  "SA_SCHEMA = ''datashare://''"

definition SA_ID_TAG :: string where
  "SA_ID_TAG = ''/SAID=''"

definition get_system_ability_id :: "string \<Rightarrow> bool \<times> i32" where
  "get_system_ability_id uri =
     (if \<not> starts_with uri SA_SCHEMA then (False, - 1)
      else (case find_sub SA_ID_TAG uri of
              None \<Rightarrow> (False, - 1)
            | Some sa_id_pos \<Rightarrow>
                if \<not> sa_id_pos > length SA_SCHEMA then (False, - 1)
                else (let value_start = sa_id_pos + length SA_ID_TAG;
                          rest = drop value_start uri;
                          sa_id_str = (case find_char (CHR ''/'') rest of None \<Rightarrow> rest | Some p \<Rightarrow> take p rest)
                      in if sa_id_str = [] then (False, - 1)
                         else (case strtoul sa_id_str of
                                 (ok, sa_id) \<Rightarrow>
                                   if \<not> ok \<or> sa_id > 0xFFFFFF then (False, - 1) else (True, sa_id)))))"

section \<open>String helpers\<close>

definition is_empty_or_null :: "string option \<Rightarrow> bool" where
  "is_empty_or_null s = (case s of None \<Rightarrow> True | Some s \<Rightarrow> s = [])"

fun contains_sub :: "string \<Rightarrow> string \<Rightarrow> bool" where
  "contains_sub s sub = (find_sub sub s \<noteq> None)"

definition substring :: "string \<Rightarrow> nat \<Rightarrow> nat \<Rightarrow> string option" where
  "substring s start end' =
     (if start \<ge> length s \<or> end' > length s \<or> start \<ge> end' then Some [] else slice s start end')"

definition DEFAULT_ANONYMOUS :: string where
  "DEFAULT_ANONYMOUS = ''******''"

definition anonymous :: "string \<Rightarrow> string option" where
  "anonymous name =
     (if length name \<le> 10 then Some DEFAULT_ANONYMOUS
      else (case slice_from name (length name - 10) of
              None \<Rightarrow> None
            | Some tail \<Rightarrow> Some (DEFAULT_ANONYMOUS @ tail)))"

definition remove_from_query :: "string \<Rightarrow> string" where
  "remove_from_query uri = (case rfind_char (CHR ''?'') uri of Some pos \<Rightarrow> take pos uri | None \<Rightarrow> uri)"

definition change :: "string \<Rightarrow> string option" where
  "change name =
     (if length name \<le> 12 then Some name
      else (case slice_from name 12 of
              None \<Rightarrow> None
            | Some tail \<Rightarrow> Some (DEFAULT_ANONYMOUS @ tail)))"

text \<open>\<open>entropy\<close> is what \<open>getrandom\<close> delivers: \<open>None\<close> when the call fails.\<close>

definition get_random_number :: "u64 option \<Rightarrow> i32 \<Rightarrow> i32 \<Rightarrow> i32" where
  "get_random_number entropy mn mx =
     (if sint mx \<le> sint mn then mn
      else (case entropy of
              None \<Rightarrow> mn
            | Some random_val \<Rightarrow>
                (let range = (word_of_int (sint mx - sint mn + 1) :: u64)
                 in mn + ucast (random_val mod range))))"

section \<open>Authority and path\<close>

lemma splitn2_none: "c \<notin> set s \<Longrightarrow> splitn2 c s = [s]"
  by (simp add: splitn2_def find_char_eq_None [THEN iffD2])

lemma splitn2_append: "c \<notin> set a \<Longrightarrow> splitn2 c (a @ c # b) = [a, b]"
  by (simp add: splitn2_def find_char_append)

lemma parse_uri_content:
  "parse_uri (CONTENT @ r) =
     Inr (hd (split_char (CHR ''/'') r),
          case splitn2 (CHR ''/'') r of [_] \<Rightarrow> ''/'' | ps \<Rightarrow> ''/'' @ ps ! 1)"
  by (cases "split_char (CHR ''/'') r"; cases "find_char (CHR ''/'') r")
    (simp_all add: parse_uri_def is_datashare_uri_def get_authority_def get_path_def ok_or_def splitn2_def)

lemma parse_uri_not_content: "\<not> starts_with u CONTENT \<Longrightarrow> parse_uri u = Inl ErrDataShareInvalidUri"
  by (simp add: parse_uri_def is_datashare_uri_def)

lemma parse_uri_build: "CHR ''/'' \<notin> set a \<Longrightarrow> parse_uri (build_uri a (''/'' @ p)) = Inr (a, ''/'' @ p)"
  using parse_uri_content [of "a @ ''/'' @ p"]
  by (simp add: build_uri_def split_char_append splitn2_append)

lemma build_uri_parse:
  assumes h: "parse_uri u = Inr (a, p)"
  shows "CHR ''/'' \<notin> set a \<and> starts_with p ''/'' \<and> (build_uri a p = u \<or> build_uri a p = u @ ''/'' \<and> p = ''/'')"
proof -
  obtain r where u: "u = CONTENT @ r"
    using h parse_uri_not_content [of u] by (auto simp: starts_with_iff)
  show ?thesis
  proof (cases "find_char (CHR ''/'') r")
    case None
    then have "CHR ''/'' \<notin> set r" by (simp add: find_char_eq_None)
    with h u show ?thesis
      by (auto simp: parse_uri_content split_char_none splitn2_none build_uri_def starts_with_def)
  next
    case (Some i)
    then obtain x y where "r = x @ CHR ''/'' # y" "CHR ''/'' \<notin> set x"
      using find_char_split by blast
    with h u show ?thesis
      by (auto simp: parse_uri_content split_char_append splitn2_append build_uri_def starts_with_def)
  qed
qed

lemma parse_uri_Inl: "parse_uri u = Inl e \<longleftrightarrow> e = ErrDataShareInvalidUri \<and> \<not> is_datashare_uri u"
  using parse_uri_not_content [of u]
  by (cases "starts_with u CONTENT") (auto simp: is_datashare_uri_def starts_with_iff parse_uri_content)

text \<open>Parsing inverts building. A URI built from an authority without a slash and an absolute
  path parses back to exactly that pair; conversely, whatever parses, its authority has no slash,
  its path is absolute, and rebuilding gives the URI back, up to the root path the parser supplies
  when the URI stops after its authority. Every other string is rejected with the invalid-URI
  error.\<close>

theorem parse_build_uri:
  "(CHR ''/'' \<notin> set a \<longrightarrow> parse_uri (build_uri a (''/'' @ p)) = Inr (a, ''/'' @ p))
   \<and> (parse_uri u = Inr (b, q) \<longrightarrow>
       CHR ''/'' \<notin> set b \<and> starts_with q ''/'' \<and> (build_uri b q = u \<or> build_uri b q = u @ ''/'' \<and> q = ''/''))
   \<and> (parse_uri u = Inl e \<longleftrightarrow> e = ErrDataShareInvalidUri \<and> \<not> is_datashare_uri u)"
  using parse_uri_build build_uri_parse parse_uri_Inl by blast

theorem parse_build_uri_witness:
  "parse_uri (build_uri ''com.example'' ''/table/1'') = Inr (''com.example'', ''/table/1'')
   \<and> starts_with ''/table/1'' ''/''"
proof -
  have 1: "parse_uri (build_uri ''com.example'' (''/'' @ ''table/1'')) = Inr (''com.example'', ''/'' @ ''table/1'')"
    using parse_build_uri [THEN conjunct1, of "''com.example''" "''table/1''"] by simp
  show ?thesis
    using 1 parse_build_uri [THEN conjunct2, THEN conjunct1, THEN mp, OF 1] by simp
qed

text \<open>Normalizing always yields a content URI, changes nothing on one, and is idempotent.\<close>

theorem normalize_uri_idempotent:
  "is_datashare_uri (normalize_uri u) \<and> normalize_uri (normalize_uri u) = normalize_uri u
   \<and> (is_datashare_uri u \<longrightarrow> normalize_uri u = u)"
  by (auto simp: is_datashare_uri_def normalize_uri_def CONTENT_def starts_with_iff)

theorem normalize_uri_idempotent_witness:
  "is_datashare_uri ''content://a'' \<and> normalize_uri ''content://a'' = ''content://a''"
  using normalize_uri_idempotent [of "''content://a''"]
  by (simp add: is_datashare_uri_def starts_with_def CONTENT_def)

section \<open>Query parameters\<close>

text \<open>Reference definition: the pieces between ampersands that hold an equals sign, split at their
  first one.\<close>

definition piece_pair :: "string \<Rightarrow> (string \<times> string) list" where
  "piece_pair piece =
     (case find_char (CHR ''='') piece of None \<Rightarrow> [] | Some i \<Rightarrow> [(take i piece, drop (Suc i) piece)])"

definition query_pairs :: "string \<Rightarrow> (string \<times> string) list" where
  "query_pairs q = concat (map piece_pair (split_char (CHR ''&'') q))"

lemma find_char_app:
  "find_char c (a @ b) =
     (case find_char c a of Some i \<Rightarrow> Some i | None \<Rightarrow> map_option (\<lambda>i. length a + i) (find_char c b))"
  by (induction a; cases "find_char c b") (auto split: option.splits)

lemma find_char_less: "find_char c a = Some i \<Longrightarrow> i < length a"
  by (simp add: find_char_eq_Some)

lemma bt_insert_all_piece:
  "bt_insert_all (piece_pair a @ r) m =
     bt_insert_all r (case find_char (CHR ''='') a of
        Some eq \<Rightarrow> bt_insert (take eq a) (drop (Suc eq) a) m | None \<Rightarrow> m)"
  by (simp add: piece_pair_def bt_insert_all_def split: option.splits)

lemma query_loop_last:
  assumes "q \<noteq> []" and "CHR ''&'' \<notin> set q"
  shows "query_loop q m = bt_insert_all (piece_pair q) m"
  using assms bt_insert_all_piece [of q "[]" m]
  by (simp add: query_loop.simps [of q m] query_loop.simps [of "[]"] find_char_eq_None [THEN iffD2]
      bt_insert_all_def find_char_less split: option.splits)

lemma query_loop_step:
  assumes "CHR ''&'' \<notin> set a"
  shows "query_loop (a @ CHR ''&'' # b) m =
    query_loop b (case find_char (CHR ''='') a of
        Some eq \<Rightarrow> bt_insert (take eq a) (drop (Suc eq) a) m | None \<Rightarrow> m)"
proof -
  have eq: "find_char (CHR ''='') (a @ CHR ''&'' # b) =
      (case find_char (CHR ''='') a of Some i \<Rightarrow> Some i
       | None \<Rightarrow> map_option (\<lambda>i. Suc (length a + i)) (find_char (CHR ''='') b))"
    by (simp add: find_char_app option.map_comp comp_def split: option.splits)
  show ?thesis
  proof (cases "find_char (CHR ''='') a")
    case None
    with eq show ?thesis
      using find_char_append [OF assms, of b]
      by (cases "find_char (CHR ''='') b") (simp_all add: query_loop.simps [of "a @ CHR ''&'' # b" m])
  next
    case (Some i)
    then have "i < length a" by (rule find_char_less)
    with Some eq show ?thesis
      using find_char_append [OF assms, of b]
      by (simp add: query_loop.simps [of "a @ CHR ''&'' # b" m])
  qed
qed

lemma query_loop_eq: "query_loop q m = bt_insert_all (query_pairs q) m"
proof (induction "length q" arbitrary: q m rule: less_induct)
  case less
  show ?case
  proof (cases "find_char (CHR ''&'') q")
    case None
    then have "CHR ''&'' \<notin> set q" by (simp add: find_char_eq_None)
    then show ?thesis
      by (cases "q = []")
        (simp_all add: query_loop.simps [of "[]"] query_loop_last query_pairs_def split_char_none
          piece_pair_def bt_insert_all_def)
  next
    case (Some i)
    then obtain a b where q: "q = a @ CHR ''&'' # b" "CHR ''&'' \<notin> set a"
      using find_char_split by blast
    then show ?thesis
      by (simp add: query_loop_step less query_pairs_def split_char_append bt_insert_all_piece)
  qed
qed

text \<open>C16: the index-based scan for query parameters agrees with the reference definition (split the
  text after the first question mark at ampersands, keep the pieces with an equals sign, split each
  at its first one), and a parameter given twice has its last value.\<close>

theorem get_query_params_spec:
  assumes "CHR ''?'' \<notin> set base"
  shows "get_query_params (base @ CHR ''?'' # q) = bt_insert_all (query_pairs q) []
    \<and> bt_get (get_query_params (base @ CHR ''?'' # q)) k = map_of (rev (query_pairs q)) k
    \<and> get_query_params base = []"
  using assms
  by (simp add: get_query_params_def find_char_append find_char_eq_None [THEN iffD2] query_loop_eq
      bt_get_insert_all)

theorem get_query_params_spec_witness:
  "bt_get (get_query_params ''datashare:///a?user=1&x&user=7'') ''user'' = Some ''7''"
proof -
  have "bt_get (get_query_params (''datashare:///a'' @ CHR ''?'' # ''user=1&x&user=7'')) ''user''
      = map_of (rev (query_pairs ''user=1&x&user=7'')) ''user''"
    by (rule get_query_params_spec [THEN conjunct2, THEN conjunct1]) simp
  then show ?thesis by (simp add: query_pairs_def piece_pair_def)
qed

section \<open>User and system ability numbers\<close>

lemma is_digit_not:
  "is_digit c \<Longrightarrow> c \<noteq> CHR ''&'' \<and> c \<noteq> CHR ''='' \<and> c \<noteq> CHR ''?'' \<and> c \<noteq> CHR ''+'' \<and> c \<noteq> CHR ''/''"
  by (auto simp: is_digit_def)

lemma ws_not_digit: "w \<in> set ws_strings \<Longrightarrow> w \<noteq> [] \<and> \<not> is_digit (hd w)"
proof -
  have "list_all (\<lambda>w. w \<noteq> [] \<and> \<not> is_digit (hd w)) ws_strings"
    by (simp add: ws_strings_def ws_codes_def is_digit_def)
  then show "w \<in> set ws_strings \<Longrightarrow> w \<noteq> [] \<and> \<not> is_digit (hd w)"
    by (simp add: list_all_iff)
qed

lemma trim_start_digit: "is_digit c \<Longrightarrow> trim_start (c # s) = c # s"
proof -
  assume c: "is_digit c"
  have "find (\<lambda>w. w \<noteq> [] \<and> starts_with (c # s) w) ws_strings = None"
    using c by (auto simp: find_None_iff starts_with_iff Cons_eq_append_conv dest: ws_not_digit)
  then show ?thesis by (simp add: trim_start_def trim_by.simps [of _ "c # s"])
qed

lemma strtoul_digits:
  assumes "parse_digits s = Some n" and "n < 2 ^ 32"
  shows "strtoul s = (True, of_nat n)"
proof -
  from assms(1) have s: "s \<noteq> []" "list_all is_digit s" by (auto simp: parse_digits_def split: if_splits)
  then obtain c r where cr: "s = c # r" "is_digit c" by (cases s) auto
  then have "parse_u32 s = Some (of_nat n)"
    using assms is_digit_not [OF cr(2)] by (simp add: parse_u32_def)
  then show ?thesis
    using cr is_digit_not [OF cr(2)] trim_start_digit [OF cr(2), of r] by (auto simp: strtoul_def)
qed

lemma strtoul_less: "strtoul s = (ok, v) \<Longrightarrow> \<not> ok \<Longrightarrow> v = 0"
  by (auto simp: strtoul_def Let_def split: if_splits option.splits)

lemma sint_u32_small:
  fixes v :: u32
  assumes "v \<le> 0x7FFFFFFF"
  shows "sint v = int (unat v)" and "0 \<le> sint v"
proof -
  have "uint v \<le> uint (0x7FFFFFFF :: u32)" using assms by (simp only: word_le_def)
  then have "uint v < 2 ^ 31" by simp
  then have "signed_take_bit 31 (uint v) = uint v"
    by (intro signed_take_bit_int_eq_self) (simp_all add: order_trans [OF _ unsigned_greater_eq])
  then show eq: "sint v = int (unat v)"
    by (simp add: sint_uint)
  show "0 \<le> sint v" by (simp add: eq)
qed

lemma user_param:
  assumes "CHR ''?'' \<notin> set base"
  shows "bt_get (get_query_params (base @ ''?user='' @ decimal n)) ''user'' = Some (decimal n)"
proof -
  have "CHR ''&'' \<notin> set (''user='' @ decimal n)" "CHR ''='' \<notin> set (decimal n)"
    using decimal_digits [of _ n] is_digit_not by auto
  then have "query_pairs (''user='' @ decimal n) = [(''user'', decimal n)]"
    by (simp add: query_pairs_def split_char_none piece_pair_def)
  with assms show ?thesis
    by (simp add: get_query_params_def find_char_append query_loop_eq bt_get_insert_all)
qed

lemma get_user_from_uri_range:
  "get_user_from_uri u = (ok, v) \<Longrightarrow> (if ok then -1 \<le> sint v else v = - 1)"
  by (auto simp: get_user_from_uri_def Let_def not_less
      split: option.splits if_splits prod.splits bool.splits intro: order_trans [OF _ sint_u32_small(2)])

text \<open>A user number written into the query of a URI is the user the provider side reads back, for
  every number that fits an \<open>i32\<close>; any larger number below $2^{32}$ is refused. For any URI at all a
  successful result is at least -1 and a failure carries -1.\<close>

theorem get_user_from_uri_roundtrip:
  assumes "CHR ''?'' \<notin> set base" and "n < 2 ^ 32"
  shows "get_user_from_uri (base @ ''?user='' @ decimal n) =
      (if n < 2 ^ 31 then (True, of_nat n) else (False, - 1))
    \<and> (case get_user_from_uri u of (ok, v) \<Rightarrow> if ok then -1 \<le> sint v else v = - 1)"
proof -
  have "(of_nat n :: u32) > 0x7FFFFFFF \<longleftrightarrow> \<not> n < 2 ^ 31"
    using assms(2) by (auto simp: word_less_nat_alt unat_of_nat)
  then show ?thesis
    using assms(2) user_param [OF assms(1), of n] strtoul_digits [OF parse_digits_decimal, of n]
      decimal_not_Nil [of n] get_user_from_uri_range [of u]
    by (auto simp: get_user_from_uri_def Let_def)
qed

theorem get_user_from_uri_roundtrip_witness:
  "get_user_from_uri (''datashare:///com.acts/db'' @ ''?user='' @ decimal 100) = (True, 100)"
  using get_user_from_uri_roundtrip [THEN conjunct1, of "''datashare:///com.acts/db''" 100] by simp

text \<open>A system ability number is accepted only from a \<open>datashare://\<close> URI, lies between 0 and the
  last system ability id 0x00FFFFFF, and every refusal is reported as -1.\<close>

theorem get_system_ability_id_bounds:
  assumes "get_system_ability_id uri = (ok, said)"
  shows "if ok then starts_with uri SA_SCHEMA \<and> (\<exists>i > length SA_SCHEMA. find_sub SA_ID_TAG uri = Some i)
      \<and> 0 \<le> sint said \<and> sint said \<le> 0xFFFFFF
    else said = - 1"
proof -
  have bound: "0 \<le> sint v \<and> sint v \<le> 0xFFFFFF" if "v \<le> 0xFFFFFF" for v :: i32
  proof -
    have "v \<le> 0x7FFFFFFF" using that by (rule order_trans) simp
    moreover have "uint v \<le> uint (0xFFFFFF :: u32)" using that by (simp only: word_le_def)
    ultimately show ?thesis using sint_u32_small [of v] by simp
  qed
  show ?thesis
    using assms bound
    by (auto simp: get_system_ability_id_def Let_def not_less split: if_splits option.splits prod.splits)
qed

theorem get_system_ability_id_bounds_witness:
  "get_system_ability_id ''datashare:///x/SAID=401/y'' = (True, 401) \<and> 0 \<le> sint (401 :: i32)"
proof -
  have "strtoul ''401'' = (True, 401)"
    using strtoul_digits [of "''401''" 401]
    by (simp add: parse_digits_def is_digit_def digit_value_def)
  then have "get_system_ability_id ''datashare:///x/SAID=401/y'' = (True, 401)"
    by (simp add: get_system_ability_id_def SA_SCHEMA_def SA_ID_TAG_def starts_with_def Let_def)
  with get_system_ability_id_bounds [OF this] show ?thesis by simp
qed

section \<open>String helpers\<close>

lemma anonymous_eq:
  "anonymous name =
     (if length name \<le> 10 then Some DEFAULT_ANONYMOUS
      else if utf8_cont (of_char (name ! (length name - 10))) then None
      else Some (DEFAULT_ANONYMOUS @ drop (length name - 10) name))"
  by (auto simp: anonymous_def slice_from_def is_char_boundary_def)

text \<open>The anonymizer shows at most the last ten bytes of a name behind six stars. It never fails
  on ASCII text; on other text it fails (a panic in the code) exactly when the name is longer than
  ten bytes and its tenth byte from the end continues a multi-byte character.\<close>

theorem anonymous_total_on_ascii:
  "(anonymous name = None \<longleftrightarrow> 10 < length name \<and> utf8_cont (of_char (name ! (length name - 10))))
   \<and> (is_ascii name \<longrightarrow> anonymous name =
        Some (DEFAULT_ANONYMOUS @ (if length name \<le> 10 then [] else drop (length name - 10) name)))
   \<and> (anonymous name = Some r \<longrightarrow> length r \<le> 16 \<and> starts_with r DEFAULT_ANONYMOUS)"
proof -
  have "\<not> utf8_cont (of_char (name ! (length name - 10)))" if "is_ascii name" "10 < length name"
  proof -
    have "of_char (name ! (length name - 10)) < (128 :: nat)"
      using that by (simp add: is_ascii_def list_all_length)
    then show ?thesis by (simp add: utf8_cont_def)
  qed
  then show ?thesis
    by (auto simp: anonymous_eq starts_with_iff DEFAULT_ANONYMOUS_def split: if_splits)
qed

theorem anonymous_total_on_ascii_witness:
  "anonymous ''com.example.bundle'' = Some ''******ple.bundle''
   \<and> anonymous (CHR 0xC3 # CHR 0xA9 # ''abcdefghi'') = None"
  using anonymous_total_on_ascii [of "''com.example.bundle''"]
    anonymous_total_on_ascii [of "CHR 0xC3 # CHR 0xA9 # ''abcdefghi''"]
  by (simp add: is_ascii_def utf8_cont_def DEFAULT_ANONYMOUS_def)

lemma sint_word_of_int_i32:
  "- (2 ^ 31) \<le> x \<Longrightarrow> x < 2 ^ 31 \<Longrightarrow> sint (word_of_int x :: i32) = x"
  by (simp add: signed_of_int signed_take_bit_int_eq_self)

lemma get_random_number_value:
  assumes "sint mn < sint mx"
  shows "sint (get_random_number (Some e) mn mx) = sint mn + uint e mod (sint mx - sint mn + 1)"
proof -
  let ?n = "sint mx - sint mn + 1"
  have b: "- (2 ^ 31) \<le> sint mn" "sint mx < 2 ^ 31"
    using sint_range_size [of mn] sint_range_size [of mx] by (simp_all add: word_size)
  then have n: "0 < ?n" "?n < 2 ^ 64" using assms by simp_all
  then have "uint (word_of_int ?n :: u64) = ?n"
    by (simp only: unsigned_of_int) (simp add: take_bit_int_eq_self)
  then have k: "uint (e mod (word_of_int ?n)) = uint e mod ?n"
    by (simp add: uint_mod)
  have "get_random_number (Some e) mn mx = word_of_int (sint mn + uint e mod ?n)"
  proof -
    have "get_random_number (Some e) mn mx = mn + ucast (e mod word_of_int ?n)"
      using assms by (simp only: get_random_number_def Let_def option.case linorder_not_le [symmetric] if_False)
    also have "\<dots> = word_of_int (sint mn) + word_of_int (uint (e mod word_of_int ?n))"
      by (simp only: ucast_eq of_int_sint scast_id)
    finally show ?thesis unfolding k by (simp only: of_int_add)
  qed
  moreover have "0 \<le> uint e mod ?n" "uint e mod ?n < ?n"
    using n(1) pos_mod_bound pos_mod_sign by blast+
  ultimately show ?thesis
    using b by (simp only:) (rule sint_word_of_int_i32; simp)
qed

text \<open>Whatever the entropy source delivers, and also when it fails, the random number lies
  between the two bounds given in order; and every number of the range is drawn for some entropy.\<close>

theorem get_random_number_range:
  assumes "sint mn \<le> sint mx"
  shows "sint (get_random_number entropy mn mx) \<in> {sint mn..sint mx}
    \<and> (sint mn \<le> k \<and> k \<le> sint mx \<longrightarrow> (\<exists>e. sint (get_random_number (Some e) mn mx) = k))"
proof (cases "sint mn < sint mx")
  case True
  let ?n = "sint mx - sint mn + 1"
  have "0 < ?n" using True by simp
  then have "0 \<le> uint e mod ?n \<and> uint e mod ?n < ?n" for e :: u64
    using pos_mod_bound pos_mod_sign by blast
  then have "sint (get_random_number entropy mn mx) \<in> {sint mn..sint mx}"
  proof (cases entropy)
    case None
    with True show ?thesis by (simp add: get_random_number_def)
  next
    case (Some e)
    with \<open>\<And>e :: u64. 0 \<le> uint e mod ?n \<and> uint e mod ?n < ?n\<close> [of e]
    show ?thesis by (simp add: get_random_number_value [OF True])
  qed
  moreover have "\<exists>e. sint (get_random_number (Some e) mn mx) = k" if "sint mn \<le> k" "k \<le> sint mx"
  proof -
    have "k - sint mn < 2 ^ 64"
      using that sint_range_size [of mn] sint_range_size [of mx] by (simp add: word_size)
    then have "uint (word_of_int (k - sint mn) :: u64) = k - sint mn"
      using that by (simp only: unsigned_of_int) (simp add: take_bit_int_eq_self)
    then have "sint (get_random_number (Some (word_of_int (k - sint mn))) mn mx) = k"
      using that get_random_number_value [OF True, of "word_of_int (k - sint mn)"] by simp
    then show ?thesis by blast
  qed
  ultimately show ?thesis by blast
next
  case False
  with assms show ?thesis by (auto simp: get_random_number_def)
qed

theorem get_random_number_range_witness:
  "sint (get_random_number (Some 12345) 1 6) \<in> {1..6} \<and> (\<exists>e. sint (get_random_number (Some e) 1 6) = 4)"
  using get_random_number_range [of 1 6 "Some 12345" 4] by simp

end
