(* ===== verification/Binary_Buffer.thy ===== *)
theory Binary_Buffer
  imports Prelude
begin

text \<open>
  The byte streams of \<open>ipc/itypes_utils.rs\<close>. A writer appends to a \<open>Vec<u8>\<close> and returns \<open>None\<close> where
  the code returns \<open>false\<close>; a reader consumes a prefix of the bytes left in the cursor. A reader
  fails with \<open>ReadNone\<close> where the code returns \<open>None\<close>, and with \<open>ReadUndefined\<close> where the code reads a
  \<open>bool\<close> from a byte that is neither 0 nor 1, which the language leaves undefined.

  The locale \<open>codec\<close> is the contract between a writer and its reader; the predicate \<open>well_behaved\<close>
  says of a reader alone that it only looks at the prefix it consumes, and is closed under the
  combinators (the collection \<open>reader_intros\<close>).
\<close>

section \<open>Writers and readers\<close>

type_synonym writer = "bytes \<Rightarrow> bytes option"

datatype read_error = ReadNone | ReadUndefined

type_synonym 'a reader = "bytes \<Rightarrow> read_error + ('a \<times> bytes)"

text \<open>\<open>write_all\<close> on a vector and \<open>read_exact\<close> on a cursor.\<close>

definition write_all :: "bytes \<Rightarrow> writer" where
  "write_all bs buf = Some (buf @ bs)"

definition read_exact :: "nat \<Rightarrow> bytes reader" where
  "read_exact n bs = (if n \<le> length bs then Inr (take n bs, drop n bs) else Inl ReadNone)"

definition wseq :: "writer \<Rightarrow> writer \<Rightarrow> writer" where
  "wseq v w buf = (case v buf of None \<Rightarrow> None | Some buf' \<Rightarrow> w buf')"

definition wskip :: writer where
  "wskip buf = Some buf"

primrec write_each :: "('a \<Rightarrow> writer) \<Rightarrow> 'a list \<Rightarrow> writer" where
  "write_each w [] = wskip"
| "write_each w (x # xs) = wseq (w x) (write_each w xs)"

definition rret :: "'a \<Rightarrow> 'a reader" where
  "rret x bs = Inr (x, bs)"

definition rfail :: "read_error \<Rightarrow> 'a reader" where
  "rfail e bs = Inl e"

definition rbind :: "'a reader \<Rightarrow> ('a \<Rightarrow> 'b reader) \<Rightarrow> 'b reader" where
  "rbind r k bs = (case r bs of Inl e \<Rightarrow> Inl e | Inr (x, rest) \<Rightarrow> k x rest)"

primrec read_n :: "nat \<Rightarrow> 'a reader \<Rightarrow> 'a list reader" where
  "read_n 0 r = rret []"
| "read_n (Suc n) r = rbind r (\<lambda>x. rbind (read_n n r) (\<lambda>xs. rret (x # xs)))"

text \<open>Fixed-size values in little-endian order; \<open>size_of\<close> is a type's width in bytes.\<close>

definition write_basic :: "'a::len word \<Rightarrow> writer" where
  "write_basic v = write_all (le_bytes (LENGTH('a) div 8) v)"

definition read_basic :: "'a::len word reader" where
  "read_basic = rbind (read_exact (LENGTH('a) div 8)) (\<lambda>bs. rret (le_word bs))"

definition write_bool :: "bool \<Rightarrow> writer" where
  "write_bool b = write_basic (if b then 1 else 0 :: u8)"

definition read_bool :: "bool reader" where
  "read_bool = rbind (read_basic :: u8 reader)
     (\<lambda>b. if b = 0 then rret False else if b = 1 then rret True else rfail ReadUndefined)"

section \<open>Well-behaved readers\<close>

definition well_behaved :: "nat \<Rightarrow> 'a reader \<Rightarrow> bool" where
  "well_behaved k r \<longleftrightarrow>
     (\<forall>bs. case r bs of
         Inr (x, rest) \<Rightarrow> (\<exists>p. bs = p @ rest \<and> k \<le> length p) \<and> (\<forall>z. r (bs @ z) = Inr (x, rest @ z))
       | Inl ReadUndefined \<Rightarrow> (\<forall>z. r (bs @ z) = Inl ReadUndefined)
       | Inl ReadNone \<Rightarrow> True)"

lemma well_behaved_Inr:
  assumes "well_behaved k r" and "r bs = Inr (x, rest)"
  shows "\<exists>p. bs = p @ rest \<and> k \<le> length p" and "r (bs @ z) = Inr (x, rest @ z)"
    and "length rest + k \<le> length bs"
proof -
  have "(\<exists>p. bs = p @ rest \<and> k \<le> length p) \<and> (\<forall>z. r (bs @ z) = Inr (x, rest @ z))"
    using assms(1) [unfolded well_behaved_def, rule_format, of bs] by (simp add: assms(2))
  then show "\<exists>p. bs = p @ rest \<and> k \<le> length p" "r (bs @ z) = Inr (x, rest @ z)"
    "length rest + k \<le> length bs" by auto
qed

lemma well_behaved_Undef:
  assumes "well_behaved k r" and "r bs = Inl ReadUndefined"
  shows "r (bs @ z) = Inl ReadUndefined"
  using assms(1) [unfolded well_behaved_def, rule_format, of bs] by (simp add: assms(2))

lemma well_behavedI:
  assumes "\<And>bs x rest z. r bs = Inr (x, rest) \<Longrightarrow> (\<exists>p. bs = p @ rest \<and> k \<le> length p) \<and> r (bs @ z) = Inr (x, rest @ z)"
    and "\<And>bs z. r bs = Inl ReadUndefined \<Longrightarrow> r (bs @ z) = Inl ReadUndefined"
  shows "well_behaved k r"
  using assms unfolding well_behaved_def by (auto split: sum.splits prod.splits read_error.splits)

lemma well_behaved_rret [reader_intros]: "well_behaved 0 (rret x)"
  by (rule well_behavedI) (auto simp: rret_def)

lemma well_behaved_rfail [reader_intros]: "well_behaved k (rfail e)"
  by (rule well_behavedI) (auto simp: rfail_def)

lemma well_behaved_read_exact [reader_intros]: "well_behaved n (read_exact n)"
proof (rule well_behavedI)
  fix bs z x rest assume "read_exact n bs = Inr (x, rest)"
  then show "(\<exists>p. bs = p @ rest \<and> n \<le> length p) \<and> read_exact n (bs @ z) = Inr (x, rest @ z)"
    by (auto simp: read_exact_def intro!: exI [of _ "take n bs"] split: if_splits)
qed (auto simp: read_exact_def split: if_splits)

lemma well_behaved_rbind [reader_intros]:
  assumes r: "well_behaved j r" and k: "\<And>x. well_behaved k (f x)"
  shows "well_behaved (j + k) (rbind r f)"
proof (rule well_behavedI)
  fix bs z y rest assume "rbind r f bs = Inr (y, rest)"
  then obtain x mid where 1: "r bs = Inr (x, mid)" "f x mid = Inr (y, rest)"
    by (auto simp: rbind_def split: sum.splits)
  obtain p q where "bs = p @ mid" "j \<le> length p" "mid = q @ rest" "k \<le> length q"
    using well_behaved_Inr(1) [OF r 1(1)] well_behaved_Inr(1) [OF k 1(2)] by blast
  then have "bs = (p @ q) @ rest \<and> j + k \<le> length (p @ q)" by simp
  moreover have "rbind r f (bs @ z) = Inr (y, rest @ z)"
    using well_behaved_Inr(2) [OF r 1(1)] well_behaved_Inr(2) [OF k 1(2)] by (simp add: rbind_def)
  ultimately show "(\<exists>p. bs = p @ rest \<and> j + k \<le> length p) \<and> rbind r f (bs @ z) = Inr (y, rest @ z)"
    by blast
next
  fix bs z assume "rbind r f bs = Inl ReadUndefined"
  then consider "r bs = Inl ReadUndefined" | x mid where "r bs = Inr (x, mid)" "f x mid = Inl ReadUndefined"
    by (auto simp: rbind_def split: sum.splits)
  then show "rbind r f (bs @ z) = Inl ReadUndefined"
    by cases (simp_all add: rbind_def well_behaved_Undef [OF r] well_behaved_Inr(2) [OF r] well_behaved_Undef [OF k])
qed

lemma well_behaved_mono: "well_behaved k r \<Longrightarrow> j \<le> k \<Longrightarrow> well_behaved j r"
  by (rule well_behavedI) (meson well_behaved_Inr well_behaved_Undef le_trans)+

lemma well_behaved_0: "well_behaved k r \<Longrightarrow> well_behaved 0 r"
  by (erule well_behaved_mono) simp

lemma well_behaved_rbind_0 [reader_intros]:
  "well_behaved j r \<Longrightarrow> (\<And>x. well_behaved 0 (f x)) \<Longrightarrow> well_behaved j (rbind r f)"
  using well_behaved_rbind [of j r 0 f] by simp

lemma well_behaved_if [reader_intros]:
  "well_behaved k r \<Longrightarrow> well_behaved k s \<Longrightarrow> well_behaved k (if b then r else s)"
  by simp

lemma well_behaved_read_n:
  assumes "well_behaved k r"
  shows "well_behaved (n * k) (read_n n r)"
proof (induction n)
  case 0
  show ?case by (simp add: well_behaved_rret)
next
  case (Suc n)
  have "well_behaved (k + n * k) (rbind r (\<lambda>x. rbind (read_n n r) (\<lambda>xs. rret (x # xs))))"
    by (intro well_behaved_rbind [OF assms] well_behaved_rbind_0 [OF Suc] well_behaved_rret)
  then show ?case by simp
qed

lemma length_read_n: "read_n n r bs = Inr (xs, rest) \<Longrightarrow> length xs = n"
  by (induction n arbitrary: bs xs rest) (auto simp: rret_def rbind_def split: sum.splits)

lemma well_behaved_read_basic [reader_intros]: "well_behaved (LENGTH('a) div 8) (read_basic :: 'a::len word reader)"
  unfolding read_basic_def by (intro well_behaved_rbind_0 well_behaved_read_exact well_behaved_rret)

lemma well_behaved_read_bool [reader_intros]: "well_behaved 1 read_bool"
  using well_behaved_read_basic [where ?'a = 8] unfolding read_bool_def
  by (intro well_behaved_rbind_0 well_behaved_if well_behaved_rret well_behaved_rfail) simp

section \<open>What a writer appends\<close>

text \<open>\<open>appends w bs\<close>: the writer never fails and adds exactly these bytes.\<close>

definition appends :: "writer \<Rightarrow> bytes \<Rightarrow> bool" where
  "appends w bs \<longleftrightarrow> (\<forall>buf. w buf = Some (buf @ bs))"

lemma appendsD: "appends w bs \<Longrightarrow> w buf = Some (buf @ bs)"
  by (simp add: appends_def)

lemma appends_unique: "appends w bs \<Longrightarrow> appends w cs \<Longrightarrow> bs = cs"
  by (simp add: appends_def)

lemma appends_write_all [enc_simps]: "appends (write_all bs) bs"
  by (simp add: appends_def write_all_def)

lemma appends_wskip [enc_simps]: "appends wskip []"
  by (simp add: appends_def wskip_def)

lemma appends_wseq [enc_simps]: "appends v bs \<Longrightarrow> appends w cs \<Longrightarrow> appends (wseq v w) (bs @ cs)"
  by (simp add: appends_def wseq_def)

lemma appends_write_each: "(\<And>x. appends (w x) (e x)) \<Longrightarrow> appends (write_each w xs) (concat (map e xs))"
  by (induction xs) (auto intro: appends_wskip appends_wseq)

lemma appends_write_basic [enc_simps]: "appends (write_basic (v :: 'a::len word)) (le_bytes (LENGTH('a) div 8) v)"
  by (simp add: write_basic_def appends_write_all)

lemma appends_write_bool [enc_simps]: "appends (write_bool b) (le_bytes (Suc 0) (if b then 1 else 0 :: u8))"
  using appends_write_basic [of "if b then 1 else 0 :: u8"] by (simp add: write_bool_def)

section \<open>Reading back\<close>

lemma rbind_Inr [simp]: "r bs = Inr (x, rest) \<Longrightarrow> rbind r k bs = k x rest"
  by (simp add: rbind_def)

lemma read_exact_append [simp]: "length p = n \<Longrightarrow> read_exact n (p @ rest) = Inr (p, rest)"
  by (simp add: read_exact_def)

lemma read_basic_le_bytes:
  assumes "8 dvd LENGTH('a)" and "n = LENGTH('a) div 8"
  shows "read_basic (le_bytes n (v :: 'a::len word) @ rest) = Inr (v, rest)"
  using assms by (simp add: read_basic_def rret_def le_word_le_bytes)

lemma read_basic_8 [simp]: "read_basic (le_bytes (Suc 0) (v :: u8) @ rest) = Inr (v, rest)"
  by (rule read_basic_le_bytes) simp_all

lemma read_basic_16 [simp]: "read_basic (le_bytes 2 (v :: u16) @ rest) = Inr (v, rest)"
  by (rule read_basic_le_bytes) simp_all

lemma read_basic_32 [simp]: "read_basic (le_bytes 4 (v :: u32) @ rest) = Inr (v, rest)"
  by (rule read_basic_le_bytes) simp_all

lemma read_basic_64 [simp]: "read_basic (le_bytes 8 (v :: u64) @ rest) = Inr (v, rest)"
  by (rule read_basic_le_bytes) simp_all

lemma read_bool_write [simp]: "read_bool (le_bytes (Suc 0) (if b then 1 else 0 :: u8) @ rest) = Inr (b, rest)"
  by (simp add: read_bool_def rret_def)

lemma rret_apply [simp]: "rret x bs = Inr (x, bs)"
  by (simp add: rret_def)

lemma rfail_apply [simp]: "rfail e bs = Inl e"
  by (simp add: rfail_def)

lemma read_n_concat:
  assumes "\<And>x rest. x \<in> set xs \<Longrightarrow> r (e x @ rest) = Inr (f x, rest)"
  shows "read_n (length xs) r (concat (map e xs) @ rest) = Inr (map f xs, rest)"
  using assms by (induction xs arbitrary: rest) simp_all

section \<open>The contract of a writer and its reader\<close>

text \<open>
  \<open>norm\<close> is what the receiver sees of a value (the formats drop some values), \<open>ok\<close> the values a
  writer may be given; \<open>least\<close> is the size of the smallest image.
\<close>

locale codec =
  fixes wr :: "'a \<Rightarrow> writer" and rd :: "'b reader" and norm :: "'a \<Rightarrow> 'b" and ok :: "'a \<Rightarrow> bool"
    and enc :: "'a \<Rightarrow> bytes" and least :: nat
  assumes wr_enc: "appends (wr x) (enc x)"
    and rd_enc: "ok x \<Longrightarrow> rd (enc x @ rest) = Inr (norm x, rest)"
    and rd_wb: "well_behaved least rd"
begin

lemma rd_wr: "ok x \<Longrightarrow> wr x [] = Some bs \<Longrightarrow> rd (bs @ rest) = Inr (norm x, rest)"
  using appendsD [OF wr_enc, of x "[]"] rd_enc by auto

lemma norm_determined: "ok x \<Longrightarrow> ok y \<Longrightarrow> enc x = enc y \<Longrightarrow> norm x = norm y"
  using rd_enc [of x "[]"] rd_enc [of y "[]"] by simp

text \<open>No image is a prefix of another one, unless both stand for the same value.\<close>

lemma enc_prefix_free:
  assumes "ok x" "ok y" "enc x = enc y @ z"
  shows "z = [] \<and> norm x = norm y"
  using rd_enc [OF assms(1), of "[]"] rd_enc [OF assms(2), of z] assms(3) by simp

text \<open>A truncated image is refused, and never runs into undefined behaviour.\<close>

lemma rd_truncated:
  assumes "ok x" and enc: "enc x = p @ z" and "z \<noteq> []"
  shows "rd p = Inl ReadNone"
proof (cases "rd p")
  case (Inl e)
  show ?thesis
  proof (cases e)
    case ReadUndefined
    with Inl have "rd (p @ z) = Inl ReadUndefined" using well_behaved_Undef [OF rd_wb] by blast
    with rd_enc [OF assms(1), of "[]"] enc show ?thesis by simp
  qed (simp add: Inl)
next
  case (Inr res)
  then obtain y r where "rd p = Inr (y, r)" by (cases res) auto
  then have "rd (p @ z) = Inr (y, r @ z)" using well_behaved_Inr(2) [OF rd_wb] by blast
  with rd_enc [OF assms(1), of "[]"] enc \<open>z \<noteq> []\<close> show ?thesis by simp
qed

lemma enc_least: "ok x \<Longrightarrow> least \<le> length (enc x)"
  using well_behaved_Inr(3) [OF rd_wb rd_enc, of x "[]"] by simp

text \<open>A sequence of images is read back element by element, and its length is bounded by the input.\<close>

lemma read_n_enc:
  "list_all ok xs \<Longrightarrow> read_n (length xs) rd (concat (map enc xs) @ rest) = Inr (map norm xs, rest)"
  by (rule read_n_concat) (auto simp: list_all_iff rd_enc)

lemma appends_each: "appends (write_each wr xs) (concat (map enc xs))"
  by (rule appends_write_each) (rule wr_enc)

lemma read_n_bounded: "read_n n rd bs = Inr (xs, rest) \<Longrightarrow> length xs = n \<and> n * least + length rest \<le> length bs"
  using length_read_n well_behaved_Inr(3) [OF well_behaved_read_n [OF rd_wb]] by fastforce

end

section \<open>Length-prefixed sequences\<close>

text \<open>The shape every \<open>write_*_vec\<close> and \<open>read_*_vec\<close> shares: a \<open>usize\<close> count, then the elements.\<close>

definition write_counted :: "('a \<Rightarrow> writer) \<Rightarrow> 'a list \<Rightarrow> writer" where
  "write_counted w xs = wseq (write_basic (of_nat (length xs) :: usize)) (write_each w xs)"

definition read_counted :: "'a reader \<Rightarrow> 'a list reader" where
  "read_counted r = rbind (read_basic :: usize reader) (\<lambda>len. read_n (unat len) r)"

definition counted_enc :: "('a \<Rightarrow> bytes) \<Rightarrow> 'a list \<Rightarrow> bytes" where
  "counted_enc e xs = le_bytes 8 (of_nat (length xs) :: usize) @ concat (map e xs)"

definition counted_ok :: "('a \<Rightarrow> bool) \<Rightarrow> 'a list \<Rightarrow> bool" where
  "counted_ok ok xs \<longleftrightarrow> length xs < 2 ^ 64 \<and> list_all ok xs"

lemma well_behaved_read_counted [reader_intros]:
  assumes "well_behaved k r"
  shows "well_behaved 8 (read_counted r)"
proof -
  have "well_behaved 0 (read_n n r)" for n
    using well_behaved_read_n [OF assms] by (rule well_behaved_0)
  then show ?thesis
    using well_behaved_rbind_0 [OF well_behaved_read_basic [where ?'a = 64], of "\<lambda>len. read_n (unat len) r"]
    by (simp add: read_counted_def)
qed

context codec
begin

lemma read_counted_enc:
  "counted_ok ok xs \<Longrightarrow> read_counted rd (counted_enc enc xs @ rest) = Inr (map norm xs, rest)"
  by (simp add: read_counted_def counted_enc_def counted_ok_def unat_of_nat read_n_enc)

lemma appends_counted: "appends (write_counted wr xs) (counted_enc enc xs)"
  using appends_wseq [OF appends_write_basic [of "of_nat (length xs) :: usize"] appends_each [of xs]]
  by (simp add: write_counted_def counted_enc_def)

lemma read_counted_bounded:
  assumes "read_counted rd bs = Inr (xs, rest)"
  shows "8 + length xs * least + length rest \<le> length bs"
proof -
  obtain len :: usize and mid where "read_basic bs = Inr (len, mid)" "read_n (unat len) rd mid = Inr (xs, rest)"
    using assms by (auto simp: read_counted_def rbind_def split: sum.splits)
  then show ?thesis
    using well_behaved_Inr(3) [OF well_behaved_read_basic [where ?'a = 64], of bs len mid] read_n_bounded
    by fastforce
qed

lemma codec_counted:
  "codec (write_counted wr) (read_counted rd) (map norm) (counted_ok ok) (counted_enc enc) 8"
  by unfold_locales
    (simp_all add: appends_counted read_counted_enc well_behaved_read_counted [OF rd_wb])

end

end
