(* ===== verification/Values.thy ===== *)
theory Values
  imports Ordered_Map Errors
begin

text \<open>
  \<open>value_object.rs\<close> and \<open>values_bucket.rs\<close>: the value variant, its type tag and coercions, and the
  bucket of named values, with the bucket conversions of \<open>types.rs\<close>. A bucket is the ordered map of
  \<open>Ordered_Map\<close>; its well-formedness \<open>bucket_ok\<close> (sorted keys) is what every operation keeps.
\<close>

section \<open>Value types and values\<close>

datatype data_share_value_type = VtNull | VtInt | VtDouble | VtString | VtBool | VtBlob

fun value_type_code :: "data_share_value_type \<Rightarrow> i32" where
  "value_type_code VtNull = 0"
| "value_type_code VtInt = 1"
| "value_type_code VtDouble = 2"
| "value_type_code VtString = 3"
| "value_type_code VtBool = 4"
| "value_type_code VtBlob = 5"

definition value_type_from_i32 :: "i32 \<Rightarrow> data_share_value_type ds_result" where
  "value_type_from_i32 val =
    (if val = 0 then Inr VtNull else
     if val = 1 then Inr VtInt else
     if val = 2 then Inr VtDouble else
     if val = 3 then Inr VtString else
     if val = 4 then Inr VtBool else
     if val = 5 then Inr VtBlob else Inl ErrInvalidObjectType)"

definition ok_option :: "'e + 'a \<Rightarrow> 'a option" where
  "ok_option r = (case r of Inl _ \<Rightarrow> None | Inr x \<Rightarrow> Some x)"

interpretation value_type: enum_code value_type_code "\<lambda>c. ok_option (value_type_from_i32 c)"
proof unfold_locales
  show "ok_option (value_type_from_i32 (value_type_code e)) = Some e" for e
    by (cases e) (simp_all add: value_type_from_i32_def ok_option_def)
  show "value_type_code e = c" if "ok_option (value_type_from_i32 c) = Some e" for c e
    using that by (auto simp: value_type_from_i32_def ok_option_def split: if_splits)
qed

datatype data_share_value =
    VNull
  | VInt i64
  | VDouble f64
  | VString string
  | VBool bool
  | VBlob bytes

fun get_type :: "data_share_value \<Rightarrow> data_share_value_type" where
  "get_type VNull = VtNull"
| "get_type (VInt _) = VtInt"
| "get_type (VDouble _) = VtDouble"
| "get_type (VString _) = VtString"
| "get_type (VBool _) = VtBool"
| "get_type (VBlob _) = VtBlob"

fun as_i64 :: "data_share_value \<Rightarrow> i64" where
  "as_i64 (VInt v) = v"
| "as_i64 _ = 0"

fun as_f64 :: "data_share_value \<Rightarrow> f64" where
  "as_f64 (VDouble v) = v"
| "as_f64 _ = 0"

fun as_str :: "data_share_value \<Rightarrow> string" where
  "as_str (VString v) = v"
| "as_str _ = []"

fun as_bool :: "data_share_value \<Rightarrow> bool" where
  "as_bool (VBool v) = v"
| "as_bool _ = False"

fun value_as_bytes :: "data_share_value \<Rightarrow> bytes" where
  "value_as_bytes (VBlob v) = v"
| "value_as_bytes _ = []"

text \<open>A value read back from its own type tag and accessor.\<close>

fun value_of_parts :: "data_share_value_type \<Rightarrow> data_share_value \<Rightarrow> data_share_value" where
  "value_of_parts VtNull _ = VNull"
| "value_of_parts VtInt v = VInt (as_i64 v)"
| "value_of_parts VtDouble v = VDouble (as_f64 v)"
| "value_of_parts VtString v = VString (as_str v)"
| "value_of_parts VtBool v = VBool (as_bool v)"
| "value_of_parts VtBlob v = VBlob (value_as_bytes v)"

lemma value_of_parts_get_type [simp]: "value_of_parts (get_type v) v = v"
  by (cases v) simp_all

fun value_ok :: "data_share_value \<Rightarrow> bool" where
  "value_ok (VString s) = utf8_valid s"
| "value_ok _ = True"

section \<open>Values bucket\<close>

type_synonym vbucket = "(string, data_share_value) btree"

record data_share_values_bucket =
  bucket_values :: vbucket

definition bucket_new :: data_share_values_bucket where
  "bucket_new = \<lparr>bucket_values = []\<rparr>"

definition bucket_put ::
  "string \<Rightarrow> data_share_value \<Rightarrow> data_share_values_bucket \<Rightarrow> data_share_values_bucket" where
  "bucket_put column value b = b\<lparr>bucket_values := bt_insert column value (bucket_values b)\<rparr>"

definition put_int :: "string \<Rightarrow> i64 \<Rightarrow> data_share_values_bucket \<Rightarrow> data_share_values_bucket" where
  "put_int column value b = bucket_put column (VInt value) b"

definition put_double :: "string \<Rightarrow> f64 \<Rightarrow> data_share_values_bucket \<Rightarrow> data_share_values_bucket" where
  "put_double column value b = bucket_put column (VDouble value) b"

definition put_string :: "string \<Rightarrow> string \<Rightarrow> data_share_values_bucket \<Rightarrow> data_share_values_bucket" where
  "put_string column value b = bucket_put column (VString value) b"

definition put_bool :: "string \<Rightarrow> bool \<Rightarrow> data_share_values_bucket \<Rightarrow> data_share_values_bucket" where
  "put_bool column value b = bucket_put column (VBool value) b"

definition put_blob :: "string \<Rightarrow> bytes \<Rightarrow> data_share_values_bucket \<Rightarrow> data_share_values_bucket" where
  "put_blob column value b = bucket_put column (VBlob value) b"

definition bucket_get :: "data_share_values_bucket \<Rightarrow> string \<Rightarrow> data_share_value option" where
  "bucket_get b column = bt_get (bucket_values b) column"

definition bucket_clear :: "data_share_values_bucket \<Rightarrow> data_share_values_bucket" where
  "bucket_clear b = b\<lparr>bucket_values := []\<rparr>"

definition bucket_is_empty :: "data_share_values_bucket \<Rightarrow> bool" where
  "bucket_is_empty b \<longleftrightarrow> bucket_values b = []"

definition bucket_size :: "data_share_values_bucket \<Rightarrow> nat" where
  "bucket_size b = length (bucket_values b)"

definition get_all :: "data_share_values_bucket \<Rightarrow> vbucket" where
  "get_all b = bucket_values b"

definition bucket_keys :: "data_share_values_bucket \<Rightarrow> string list" where
  "bucket_keys b = map fst (bucket_values b)"

definition bucket_entries :: "data_share_values_bucket \<Rightarrow> (string \<times> data_share_value) list" where
  "bucket_entries b = map (\<lambda>(k, v). (k, v)) (bucket_values b)"

definition bucket_ok :: "data_share_values_bucket \<Rightarrow> bool" where
  "bucket_ok b \<longleftrightarrow> bt_ok (bucket_values b)"

lemmas bucket_defs = bucket_new_def bucket_put_def put_int_def put_double_def put_string_def
  put_bool_def put_blob_def bucket_get_def bucket_clear_def bucket_is_empty_def bucket_size_def
  get_all_def bucket_keys_def bucket_entries_def bucket_ok_def

text \<open>Buckets are maps from column names; the typed setters are instances of \<open>put\<close>.\<close>

interpretation bucket: key_value_map bucket_new bucket_put bucket_get
    "\<lambda>k b. b\<lparr>bucket_values := bt_remove k (bucket_values b)\<rparr>" bucket_ok
  by unfold_locales (simp_all add: bucket_defs bt_get_insert bt_get_remove)

lemma bucket_ok_clear: "bucket_ok (bucket_clear b)"
  by (simp add: bucket_defs)

lemma bucket_size_put:
  "bucket_ok b \<Longrightarrow>
     bucket_size (bucket_put c v b) = (if bucket_get b c = None then Suc (bucket_size b) else bucket_size b)"
  by (simp add: bucket_defs length_bt_insert)

lemma bucket_keys_sorted: "bucket_ok b \<Longrightarrow> sorted (bucket_keys b) \<and> distinct (bucket_keys b)"
  by (simp add: bucket_defs bt_ok_def strict_sorted_iff)

section \<open>VBucket conversions of types.rs\<close>

definition values_bucket_to_vbucket :: "data_share_values_bucket \<Rightarrow> vbucket" where
  "values_bucket_to_vbucket b = get_all b"

definition vbucket_to_values_bucket :: "vbucket \<Rightarrow> data_share_values_bucket" where
  "vbucket_to_values_bucket vb = fold (\<lambda>(key, value) b. bucket_put key value b) vb bucket_new"

definition values_buckets_to_vbuckets :: "data_share_values_bucket list \<Rightarrow> vbucket list" where
  "values_buckets_to_vbuckets bs = map values_bucket_to_vbucket bs"

definition vbuckets_to_values_buckets :: "vbucket list \<Rightarrow> data_share_values_bucket list" where
  "vbuckets_to_values_buckets vbs = map vbucket_to_values_bucket vbs"

lemma fold_bucket_put:
  "fold (\<lambda>(k, v) b. bucket_put k v b) es \<lparr>bucket_values = m\<rparr> = \<lparr>bucket_values = bt_insert_all es m\<rparr>"
  by (induction es arbitrary: m) (auto simp: bucket_put_def bt_insert_all_def)

lemma vbucket_to_values_bucket_eq: "bt_ok m \<Longrightarrow> vbucket_to_values_bucket m = \<lparr>bucket_values = m\<rparr>"
  by (simp add: vbucket_to_values_bucket_def bucket_new_def fold_bucket_put)

lemma vbucket_roundtrip: "bucket_ok b \<Longrightarrow> vbucket_to_values_bucket (values_bucket_to_vbucket b) = b"
  by (simp add: values_bucket_to_vbucket_def bucket_defs vbucket_to_values_bucket_eq)

text \<open>Converting a list of buckets to the C++ VBucket representation and back is the
  identity, bucket by bucket, for every list of well-formed buckets; and each converted bucket
  answers every column lookup as the original did.\<close>

theorem vbuckets_roundtrip:
  assumes "list_all bucket_ok bs"
  shows "vbuckets_to_values_buckets (values_buckets_to_vbuckets bs) = bs
    \<and> (\<forall>i < length bs. \<forall>c. bt_get (values_buckets_to_vbuckets bs ! i) c = bucket_get (bs ! i) c)"
proof
  show "vbuckets_to_values_buckets (values_buckets_to_vbuckets bs) = bs"
    using assms by (induction bs)
      (simp_all add: vbuckets_to_values_buckets_def values_buckets_to_vbuckets_def vbucket_roundtrip)
  show "\<forall>i < length bs. \<forall>c. bt_get (values_buckets_to_vbuckets bs ! i) c = bucket_get (bs ! i) c"
    by (simp add: values_buckets_to_vbuckets_def values_bucket_to_vbucket_def bucket_defs)
qed

theorem vbuckets_roundtrip_witness:
  "vbuckets_to_values_buckets (values_buckets_to_vbuckets
     [put_int ''age'' 30 (put_string ''name'' ''Alice'' bucket_new), bucket_new])
   = [put_int ''age'' 30 (put_string ''name'' ''Alice'' bucket_new), bucket_new]"
  using vbuckets_roundtrip
    [of "[put_int ''age'' 30 (put_string ''name'' ''Alice'' bucket_new), bucket_new]"]
  by (simp add: bucket_defs)

end
