(* ===== verification/Statements.thy ===== *)
theory Statements
  imports Predicates Values
begin

text \<open>
  \<open>operation.rs\<close>: the operation of a batch statement, its back reference and the statement itself.
\<close>

datatype operation = Insert | Update | Delete

primrec operation_code :: "operation \<Rightarrow> i32" where
  "operation_code Insert = 0"
| "operation_code Update = 1"
| "operation_code Delete = 2"

definition operation_from_i32 :: "i32 \<Rightarrow> operation option" where
  "operation_from_i32 val =
     (if val = 0 then Some Insert else if val = 1 then Some Update else if val = 2 then Some Delete else None)"

interpretation stmt_op: enum_code operation_code operation_from_i32
proof unfold_locales
  show "operation_from_i32 (operation_code e) = Some e" for e
    by (cases e) (simp_all add: operation_from_i32_def)
qed (auto simp: operation_from_i32_def split: if_splits)

record back_reference =
  br_column :: string
  br_from_index :: i32

definition back_reference_default :: back_reference where
  "back_reference_default = \<lparr>br_column = [], br_from_index = - 1\<rparr>"

record operation_statement =
  os_operation_type :: operation
  os_uri :: string
  os_predicates :: data_share_predicates
  os_values_bucket :: data_share_values_bucket
  os_back_reference :: back_reference

definition statement_new :: "operation \<Rightarrow> string \<Rightarrow> operation_statement" where
  "statement_new operation_type uri =
     \<lparr>os_operation_type = operation_type, os_uri = uri, os_predicates = predicates_new,
      os_values_bucket = bucket_new, os_back_reference = back_reference_default\<rparr>"

definition statement_insert :: "string \<Rightarrow> operation_statement" where
  "statement_insert uri = statement_new Insert uri"

definition statement_update :: "string \<Rightarrow> operation_statement" where
  "statement_update uri = statement_new Update uri"

definition statement_delete :: "string \<Rightarrow> operation_statement" where
  "statement_delete uri = statement_new Delete uri"

definition statement_set_predicates :: "data_share_predicates \<Rightarrow> operation_statement \<Rightarrow> operation_statement" where
  "statement_set_predicates predicates s = s\<lparr>os_predicates := predicates\<rparr>"

definition statement_set_values_bucket ::
  "data_share_values_bucket \<Rightarrow> operation_statement \<Rightarrow> operation_statement" where
  "statement_set_values_bucket values_bucket s = s\<lparr>os_values_bucket := values_bucket\<rparr>"

end
