(* ===== verification/Itypes_Utils.thy ===== *)
theory Itypes_Utils
  imports Binary_Buffer Statements
begin

text \<open>
  \<open>ipc/itypes_utils.rs\<close> and \<open>ipc/predicates_marshal.rs\<close>: the binary image of predicates, values buckets
  and batch statements that crosses the process boundary. This theory holds the writers and readers
  as the code composes them; the theory \<open>Marshalling\<close> shows each pair to be a \<open>codec\<close> and draws the
  conclusions for whole messages.
\<close>

section \<open>Strings and plain vectors\<close>

definition MAX_IPC_SIZE :: nat where
  "MAX_IPC_SIZE = 128 * 1024 * 1024"

definition write_string :: "string \<Rightarrow> writer" where
  "write_string s =
     wseq (write_basic (of_nat (length s) :: usize))
       (if 0 < length s then write_all (as_bytes s) else wskip)"

definition read_string :: "string reader" where
  "read_string =
     rbind (read_basic :: usize reader) (\<lambda>len.
       if unat len > MAX_IPC_SIZE then rfail ReadNone
       else if len = 0 then rret []
       else rbind (read_exact (unat len)) (\<lambda>buf.
              if utf8_valid (of_bytes buf) then rret (of_bytes buf) else rfail ReadNone))"

definition write_string_vec :: "string list \<Rightarrow> writer" where
  "write_string_vec values = write_counted write_string values"

definition read_string_vec :: "string list reader" where
  "read_string_vec = read_counted read_string"

text \<open>The numeric vectors are copied as one block of \<open>size_of_val\<close> bytes.\<close>

definition write_pod_vec :: "'a::len word list \<Rightarrow> writer" where
  "write_pod_vec values =
     wseq (write_basic (of_nat (length values) :: usize))
       (if 0 < length values then write_all (concat (map (le_bytes (LENGTH('a) div 8)) values)) else wskip)"

primrec pod_chunks :: "nat \<Rightarrow> bytes \<Rightarrow> 'a::len word list" where
  "pod_chunks 0 bs = []"
| "pod_chunks (Suc n) bs = le_word (take (LENGTH('a) div 8) bs) # pod_chunks n (drop (LENGTH('a) div 8) bs)"

definition read_pod_vec :: "'a::len word list reader" where
  "read_pod_vec =
     rbind (read_basic :: usize reader) (\<lambda>len.
       if unat len > MAX_IPC_SIZE div (LENGTH('a) div 8) then rfail ReadNone
       else if unat len > 0
         then rbind (read_exact (unat len * (LENGTH('a) div 8))) (\<lambda>bs. rret (pod_chunks (unat len) bs))
         else rret [])"

definition write_i32_vec :: "i32 list \<Rightarrow> writer" where
  "write_i32_vec values = write_pod_vec values"

definition read_i32_vec :: "i32 list reader" where
  "read_i32_vec = read_pod_vec"

definition write_i64_vec :: "i64 list \<Rightarrow> writer" where
  "write_i64_vec values = write_pod_vec values"

definition read_i64_vec :: "i64 list reader" where
  "read_i64_vec = read_pod_vec"

definition write_f64_vec :: "f64 list \<Rightarrow> writer" where
  "write_f64_vec values = write_pod_vec values"

definition read_f64_vec :: "f64 list reader" where
  "read_f64_vec = read_pod_vec"

definition write_u8_vec :: "bytes \<Rightarrow> writer" where
  "write_u8_vec values =
     wseq (write_basic (of_nat (length values) :: usize))
       (if 0 < length values then write_all values else wskip)"

definition read_u8_vec :: "bytes reader" where
  "read_u8_vec =
     rbind (read_basic :: usize reader) (\<lambda>len.
       if unat len > MAX_IPC_SIZE then rfail ReadNone
       else if unat len > 0 then read_exact (unat len) else rret [])"

section \<open>Single and multi values\<close>

definition write_single_value :: "single_value option \<Rightarrow> writer" where
  "write_single_value value =
     (case value of
        None \<Rightarrow> write_basic (0 :: u8)
      | Some sv \<Rightarrow>
          (case sv of
             SvNull \<Rightarrow> write_basic (0 :: u8)
           | SvInt v \<Rightarrow> wseq (write_basic (1 :: u8)) (write_basic v)
           | SvDouble v \<Rightarrow> wseq (write_basic (2 :: u8)) (write_basic v)
           | SvString v \<Rightarrow> wseq (write_basic (3 :: u8)) (write_string v)
           | SvBool v \<Rightarrow> wseq (write_basic (4 :: u8)) (write_bool v)
           | SvLong v \<Rightarrow> wseq (write_basic (5 :: u8)) (write_basic v)
           | SvBlob _ \<Rightarrow> write_basic (0 :: u8)))"

definition read_single_value :: "single_value reader" where
  "read_single_value =
     rbind (read_basic :: u8 reader) (\<lambda>type_id.
       if type_id = 0 then rret SvNull
       else if type_id = 1 then rbind (read_basic :: i32 reader) (\<lambda>v. rret (SvInt v))
       else if type_id = 2 then rbind (read_basic :: f64 reader) (\<lambda>v. rret (SvDouble v))
       else if type_id = 3 then rbind read_string (\<lambda>v. rret (SvString v))
       else if type_id = 4 then rbind read_bool (\<lambda>v. rret (SvBool v))
       else if type_id = 5 then rbind (read_basic :: i64 reader) (\<lambda>v. rret (SvLong v))
       else rfail ReadNone)"

definition write_single_value_vec :: "single_value list \<Rightarrow> writer" where
  "write_single_value_vec values = write_counted (\<lambda>v. write_single_value (Some v)) values"

definition read_single_value_vec :: "single_value list reader" where
  "read_single_value_vec = read_counted read_single_value"

text \<open>The type of a multi value is that of its first element; elements of another type are dropped.\<close>

definition ints_of :: "single_value list \<Rightarrow> i32 list" where
  "ints_of values = List.map_filter (\<lambda>v. case v of SvInt i \<Rightarrow> Some i | _ \<Rightarrow> None) values"

definition longs_of :: "single_value list \<Rightarrow> i64 list" where
  "longs_of values = List.map_filter (\<lambda>v. case v of SvLong l \<Rightarrow> Some l | _ \<Rightarrow> None) values"

definition doubles_of :: "single_value list \<Rightarrow> f64 list" where
  "doubles_of values = List.map_filter (\<lambda>v. case v of SvDouble d \<Rightarrow> Some d | _ \<Rightarrow> None) values"

definition strings_of :: "single_value list \<Rightarrow> string list" where
  "strings_of values = List.map_filter (\<lambda>v. case v of SvString s \<Rightarrow> Some s | _ \<Rightarrow> None) values"

definition write_multi_value :: "single_value list option \<Rightarrow> writer" where
  "write_multi_value value =
     (case value of
        None \<Rightarrow> write_basic (0 :: u8)
      | Some [] \<Rightarrow> write_basic (0 :: u8)
      | Some (v # vs) \<Rightarrow>
          (case v of
             SvInt _ \<Rightarrow> wseq (write_basic (1 :: u8)) (write_i32_vec (ints_of (v # vs)))
           | SvLong _ \<Rightarrow> wseq (write_basic (2 :: u8)) (write_i64_vec (longs_of (v # vs)))
           | SvDouble _ \<Rightarrow> wseq (write_basic (3 :: u8)) (write_f64_vec (doubles_of (v # vs)))
           | SvString _ \<Rightarrow> wseq (write_basic (4 :: u8)) (write_string_vec (strings_of (v # vs)))
           | _ \<Rightarrow> write_basic (0 :: u8)))"

definition read_multi_value :: "single_value list reader" where
  "read_multi_value =
     rbind (read_basic :: u8 reader) (\<lambda>type_id.
       if type_id = 0 then rret []
       else if type_id = 1 then rbind read_i32_vec (\<lambda>ints. rret (map SvInt ints))
       else if type_id = 2 then rbind read_i64_vec (\<lambda>longs. rret (map SvLong longs))
       else if type_id = 3 then rbind read_f64_vec (\<lambda>doubles. rret (map SvDouble doubles))
       else if type_id = 4 then rbind read_string_vec (\<lambda>strings. rret (map SvString strings))
       else rfail ReadNone)"

definition write_multi_value_vec :: "single_value list list \<Rightarrow> writer" where
  "write_multi_value_vec values = write_counted (\<lambda>v. write_multi_value (Some v)) values"

definition read_multi_value_vec :: "single_value list list reader" where
  "read_multi_value_vec = read_counted read_multi_value"

section \<open>Operation items\<close>

definition single_params :: "operation_item \<Rightarrow> single_value list" where
  "single_params item =
     (if oi_field item \<noteq> [] then [SvString (oi_field item)] else [])
     @ (case oi_value item of Some v \<Rightarrow> [v] | None \<Rightarrow> []) @ oi_extra item"

definition multi_params :: "operation_item \<Rightarrow> single_value list list" where
  "multi_params item = (case oi_multi_values item of Some v \<Rightarrow> [v] | None \<Rightarrow> [])"

definition write_operation_item :: "operation_item \<Rightarrow> writer" where
  "write_operation_item item =
     wseq (write_basic (operation_type_code (oi_operation item)))
       (wseq (write_single_value_vec (single_params item)) (write_multi_value_vec (multi_params item)))"

definition item_of_params ::
  "operation_type \<Rightarrow> single_value list \<Rightarrow> single_value list list \<Rightarrow> operation_item" where
  "item_of_params operation sps mps =
     (let (field, value, extra) =
            (case sps of
               [] \<Rightarrow> ([], None, [])
             | first_val # rest \<Rightarrow>
                 (if operation = OpLimit \<or> operation = OpOffset then ([], Some first_val, rest)
                  else (case first_val of
                          SvString s \<Rightarrow> (case rest of [] \<Rightarrow> (s, None, []) | second # r \<Rightarrow> (s, Some second, r))
                        | _ \<Rightarrow> ([], Some first_val, rest))))
      in \<lparr>oi_operation = operation, oi_field = field, oi_value = value,
          oi_multi_values = (case mps of [] \<Rightarrow> None | m # _ \<Rightarrow> Some m), oi_extra = extra\<rparr>)"

definition read_operation_item :: "operation_item reader" where
  "read_operation_item =
     rbind (read_basic :: i32 reader) (\<lambda>op.
       let operation = (case operation_type_from_i32 op of Some t \<Rightarrow> t | None \<Rightarrow> OpEqualTo)
       in rbind read_single_value_vec (\<lambda>sps.
          rbind read_multi_value_vec (\<lambda>mps.
          rret (item_of_params operation sps mps))))"

definition write_operation_item_vec :: "operation_item list \<Rightarrow> writer" where
  "write_operation_item_vec items = write_counted write_operation_item items"

definition read_operation_item_vec :: "operation_item list reader" where
  "read_operation_item_vec = read_counted read_operation_item"

section \<open>Values and buckets\<close>

definition write_datashare_value :: "string \<Rightarrow> data_share_value \<Rightarrow> writer" where
  "write_datashare_value key value =
     wseq (write_string key)
       (case value of
          VNull \<Rightarrow> write_basic (0 :: u8)
        | VInt v \<Rightarrow> wseq (write_basic (1 :: u8)) (write_basic v)
        | VDouble v \<Rightarrow> wseq (write_basic (2 :: u8)) (write_basic v)
        | VString v \<Rightarrow> wseq (write_basic (3 :: u8)) (write_string v)
        | VBool v \<Rightarrow> wseq (write_basic (4 :: u8)) (write_bool v)
        | VBlob v \<Rightarrow> wseq (write_basic (5 :: u8)) (write_u8_vec v))"

definition read_datashare_value :: "(string \<times> data_share_value) reader" where
  "read_datashare_value =
     rbind read_string (\<lambda>key.
     rbind (read_basic :: u8 reader) (\<lambda>type_id.
     rbind (if type_id = 0 then rret VNull
            else if type_id = 1 then rbind (read_basic :: i64 reader) (\<lambda>v. rret (VInt v))
            else if type_id = 2 then rbind (read_basic :: f64 reader) (\<lambda>v. rret (VDouble v))
            else if type_id = 3 then rbind read_string (\<lambda>v. rret (VString v))
            else if type_id = 4 then rbind read_bool (\<lambda>v. rret (VBool v))
            else if type_id = 5 then rbind read_u8_vec (\<lambda>v. rret (VBlob v))
            else rfail ReadNone) (\<lambda>value.
     rret (key, value))))"

definition write_values_bucket_to_buffer :: "data_share_values_bucket \<Rightarrow> writer" where
  "write_values_bucket_to_buffer bucket = write_counted (\<lambda>(key, value). write_datashare_value key value) (get_all bucket)"

primrec read_bucket_entries :: "nat \<Rightarrow> data_share_values_bucket \<Rightarrow> data_share_values_bucket reader" where
  "read_bucket_entries 0 bucket = rret bucket"
| "read_bucket_entries (Suc n) bucket =
     rbind read_datashare_value (\<lambda>(key, value). read_bucket_entries n (bucket_put key value bucket))"

definition read_values_bucket_from_buffer :: "data_share_values_bucket reader" where
  "read_values_bucket_from_buffer =
     rbind (read_basic :: usize reader) (\<lambda>map_size. read_bucket_entries (unat map_size) bucket_new)"

definition write_back_reference :: "back_reference \<Rightarrow> writer" where
  "write_back_reference br = wseq (write_string (br_column br)) (write_basic (br_from_index br))"

definition read_back_reference :: "back_reference reader" where
  "read_back_reference =
     rbind read_string (\<lambda>column. rbind (read_basic :: i32 reader) (\<lambda>from_index.
       rret \<lparr>br_column = column, br_from_index = from_index\<rparr>))"

section \<open>Predicates, bucket vectors and statements\<close>

definition write_predicates :: "data_share_predicates \<Rightarrow> writer" where
  "write_predicates predicates =
     wseq (write_operation_item_vec (pd_operations predicates))
     (wseq (write_string (pd_where_clause predicates))
     (wseq (write_string_vec (pd_where_args predicates))
     (wseq (write_string (pd_order predicates))
       (write_basic (pd_setting_mode predicates)))))"

definition marshal_predicates_to_buffer :: "data_share_predicates \<Rightarrow> bytes option" where
  "marshal_predicates_to_buffer predicates = write_predicates predicates []"

definition read_predicates :: "data_share_predicates reader" where
  "read_predicates =
     rbind read_operation_item_vec (\<lambda>operations.
     rbind read_string (\<lambda>where_clause.
     rbind read_string_vec (\<lambda>where_args.
     rbind read_string (\<lambda>order.
     rbind (read_basic :: i16 reader) (\<lambda>mode.
     rret ((from_operations operations)
       \<lparr>pd_where_clause := where_clause, pd_where_args := where_args, pd_order := order,
        pd_setting_mode := mode\<rparr>))))))"

text \<open>What a decoder returns; bytes left in the cursor are ignored.\<close>

definition decoded :: "'a reader \<Rightarrow> bytes \<Rightarrow> read_error + 'a" where
  "decoded r data = (case r data of Inl e \<Rightarrow> Inl e | Inr (x, _) \<Rightarrow> Inr x)"

definition unmarshal_predicates_from_buffer :: "bytes \<Rightarrow> read_error + data_share_predicates" where
  "unmarshal_predicates_from_buffer data = decoded read_predicates data"

definition marshal_values_bucket_vec_to_buffer :: "data_share_values_bucket list \<Rightarrow> bytes option" where
  "marshal_values_bucket_vec_to_buffer values = write_counted write_values_bucket_to_buffer values []"

definition unmarshal_values_bucket_vec_from_buffer :: "bytes \<Rightarrow> read_error + data_share_values_bucket list" where
  "unmarshal_values_bucket_vec_from_buffer data = decoded (read_counted read_values_bucket_from_buffer) data"

text \<open>\<open>size > MAX_IPC_SIZE\<close> is refused; \<open>size as i32\<close> is exact below it.\<close>

definition sized :: "bytes option \<Rightarrow> (i32 \<times> bytes) option" where
  "sized b = (case b of None \<Rightarrow> None
     | Some buf \<Rightarrow> if length buf > MAX_IPC_SIZE then None else Some (of_nat (length buf), buf))"

definition marshal_predicates_raw :: "data_share_predicates \<Rightarrow> (i32 \<times> bytes) option" where
  "marshal_predicates_raw predicates = sized (marshal_predicates_to_buffer predicates)"

definition unmarshal_predicates_raw :: "bytes \<Rightarrow> read_error + data_share_predicates" where
  "unmarshal_predicates_raw data =
     (if data = [] \<or> length data > MAX_IPC_SIZE then Inl ReadNone else unmarshal_predicates_from_buffer data)"

definition marshal_values_bucket_vec_raw :: "data_share_values_bucket list \<Rightarrow> (i32 \<times> bytes) option" where
  "marshal_values_bucket_vec_raw values = sized (marshal_values_bucket_vec_to_buffer values)"

definition unmarshal_values_bucket_vec_raw :: "bytes \<Rightarrow> read_error + data_share_values_bucket list" where
  "unmarshal_values_bucket_vec_raw data =
     (if data = [] \<or> length data > MAX_IPC_SIZE then Inl ReadNone
      else unmarshal_values_bucket_vec_from_buffer data)"

definition write_statement :: "operation_statement \<Rightarrow> writer" where
  "write_statement stmt =
     wseq (write_basic (operation_code (os_operation_type stmt)))
     (wseq (write_string (os_uri stmt))
     (wseq (\<lambda>buf. case marshal_predicates_to_buffer (os_predicates stmt) of
              None \<Rightarrow> None | Some preds_buf \<Rightarrow> Some (buf @ preds_buf))
     (wseq (write_values_bucket_to_buffer (os_values_bucket stmt))
       (write_back_reference (os_back_reference stmt)))))"

definition read_statement :: "operation_statement reader" where
  "read_statement =
     rbind (read_basic :: i32 reader) (\<lambda>op.
     let operation_type = (case operation_from_i32 op of Some t \<Rightarrow> t | None \<Rightarrow> Insert) in
     rbind read_string (\<lambda>uri.
     rbind read_predicates (\<lambda>predicates.
     rbind read_values_bucket_from_buffer (\<lambda>values_bucket.
     rbind read_back_reference (\<lambda>back_reference.
     rret \<lparr>os_operation_type = operation_type, os_uri = uri, os_predicates = predicates,
           os_values_bucket = values_bucket, os_back_reference = back_reference\<rparr>)))))"

definition marshal_operation_statement_vec_to_buffer :: "operation_statement list \<Rightarrow> bytes option" where
  "marshal_operation_statement_vec_to_buffer stmts = write_counted write_statement stmts []"

definition unmarshal_operation_statement_vec_from_buffer :: "bytes \<Rightarrow> read_error + operation_statement list" where
  "unmarshal_operation_statement_vec_from_buffer data = decoded (read_counted read_statement) data"

definition marshal_operation_statement_vec :: "operation_statement list \<Rightarrow> bytes option" where
  "marshal_operation_statement_vec stmts =
     (case marshal_operation_statement_vec_to_buffer stmts of
        None \<Rightarrow> None
      | Some buf \<Rightarrow> if length buf > MAX_IPC_SIZE then None else Some buf)"

definition unmarshal_operation_statement_vec :: "bytes \<Rightarrow> read_error + operation_statement list" where
  "unmarshal_operation_statement_vec data =
     (if data = [] \<or> length data > MAX_IPC_SIZE then Inl ReadNone
      else unmarshal_operation_statement_vec_from_buffer data)"

text \<open>\<open>predicates_marshal.rs\<close> delegates.\<close>

definition marshalling :: "data_share_predicates \<Rightarrow> (i32 \<times> bytes) option" where
  "marshalling predicates = marshal_predicates_raw predicates"

definition unmarshalling :: "bytes \<Rightarrow> read_error + data_share_predicates" where
  "unmarshalling data = unmarshal_predicates_raw data"

end
