(* ===== verification/Marshalling.thy ===== *)
theory Marshalling
  imports Itypes_Utils
begin

text \<open>
  Each writer and reader of \<open>ipc/itypes_utils.rs\<close> is a \<open>codec\<close>, bottom up: strings, vectors, single
  and multi values, operation items, buckets, predicates, statements. The properties of whole
  messages (what the receiver sees, refusal of truncated data, bounds on what a message can make the
  receiver build) are instances of the lemmas of the locale.
\<close>

section \<open>Strings and vectors\<close>

definition string_enc :: "string \<Rightarrow> bytes" where
  "string_enc s = le_bytes 8 (of_nat (length s) :: usize) @ as_bytes s"

definition string_ok :: "string \<Rightarrow> bool" where
  "string_ok s \<longleftrightarrow> utf8_valid s \<and> length s \<le> MAX_IPC_SIZE"

lemma as_bytes_Nil: "as_bytes [] = []"
  by (simp add: as_bytes_def)

lemma max_ipc_usize: "n \<le> MAX_IPC_SIZE \<Longrightarrow> unat (of_nat n :: usize) = n"
  by (simp add: MAX_IPC_SIZE_def unat_of_nat)

lemma of_nat_usize_0: "n \<le> MAX_IPC_SIZE \<Longrightarrow> (of_nat n :: usize) = 0 \<longleftrightarrow> n = 0"
  using max_ipc_usize [of n] unat_eq_zero [of "of_nat n :: usize"] by simp

lemma well_behaved_basic_0 [reader_intros]: "well_behaved 0 (read_basic :: 'a::len word reader)"
  by (rule well_behaved_0 [OF well_behaved_read_basic])

lemma well_behaved_exact_0 [reader_intros]: "well_behaved 0 (read_exact n)"
  by (rule well_behaved_0 [OF well_behaved_read_exact])

lemma well_behaved_usize: "(\<And>x. well_behaved 0 (f x)) \<Longrightarrow> well_behaved 8 (rbind (read_basic :: usize reader) f)"
  using well_behaved_rbind_0 [OF well_behaved_read_basic [where ?'a = 64], of f] by simp

lemma well_behaved_u8: "(\<And>x. well_behaved 0 (f x)) \<Longrightarrow> well_behaved 1 (rbind (read_basic :: u8 reader) f)"
  using well_behaved_rbind_0 [OF well_behaved_read_basic [where ?'a = 8], of f] by simp

lemma well_behaved_read_string: "well_behaved 8 read_string"
  unfolding read_string_def
  by (intro well_behaved_usize well_behaved_if well_behaved_rbind_0 reader_intros)

interpretation str: codec write_string read_string "\<lambda>s. s" string_ok string_enc 8
proof unfold_locales
  show "appends (write_string s) (string_enc s)" for s
    by (simp add: write_string_def string_enc_def appends_def wseq_def write_basic_def write_all_def wskip_def
        as_bytes_def)
  show "read_string (string_enc s @ rest) = Inr (s, rest)" if "string_ok s" for s rest
    using that by (cases "s = []") (simp_all add: read_string_def string_enc_def string_ok_def max_ipc_usize
        of_nat_usize_0 as_bytes_Nil)
qed (rule well_behaved_read_string)

interpretation strs: codec write_string_vec read_string_vec "map (\<lambda>s. s)" "counted_ok string_ok"
    "counted_enc string_enc" 8
  unfolding write_string_vec_def [abs_def] read_string_vec_def by (rule str.codec_counted)

definition pod_enc :: "'a::len word list \<Rightarrow> bytes" where
  "pod_enc vs = le_bytes 8 (of_nat (length vs) :: usize) @ concat (map (le_bytes (LENGTH('a) div 8)) vs)"

lemma pod_chunks_concat:
  "8 dvd LENGTH('a::len) \<Longrightarrow> pod_chunks (length vs) (concat (map (le_bytes (LENGTH('a) div 8)) vs)) = (vs :: 'a word list)"
  by (induction vs) (simp_all add: le_word_le_bytes)

lemma length_concat_le_bytes: "length (concat (map (le_bytes n) vs)) = length vs * n"
  by (induction vs) simp_all

lemma appends_pod: "appends (write_pod_vec vs) (pod_enc vs)"
  by (simp add: write_pod_vec_def pod_enc_def appends_def wseq_def write_basic_def write_all_def wskip_def)

lemma read_pod_enc:
  assumes "8 dvd LENGTH('a::len)" and "length (vs :: 'a word list) \<le> MAX_IPC_SIZE div (LENGTH('a) div 8)"
  shows "read_pod_vec (pod_enc vs @ rest) = Inr (vs, rest)"
proof -
  have "length vs \<le> MAX_IPC_SIZE" using assms(2) by (meson div_le_dividend le_trans)
  then show ?thesis
    using assms
    by (simp add: read_pod_vec_def pod_enc_def max_ipc_usize pod_chunks_concat length_concat_le_bytes)
qed

lemma well_behaved_read_pod: "well_behaved 8 (read_pod_vec :: 'a::len word list reader)"
  unfolding read_pod_vec_def
  by (intro well_behaved_usize well_behaved_if well_behaved_rbind_0 reader_intros)

interpretation i32s: codec write_i32_vec read_i32_vec "\<lambda>v. v" "\<lambda>v. length v \<le> MAX_IPC_SIZE div 4" pod_enc 8
  by unfold_locales
    (simp_all add: write_i32_vec_def read_i32_vec_def appends_pod read_pod_enc well_behaved_read_pod)

interpretation i64s: codec write_i64_vec read_i64_vec "\<lambda>v. v" "\<lambda>v. length v \<le> MAX_IPC_SIZE div 8" pod_enc 8
  by unfold_locales
    (simp_all add: write_i64_vec_def read_i64_vec_def appends_pod read_pod_enc well_behaved_read_pod)

interpretation f64s: codec write_f64_vec read_f64_vec "\<lambda>v. v" "\<lambda>v. length v \<le> MAX_IPC_SIZE div 8" pod_enc 8
  by unfold_locales
    (simp_all add: write_f64_vec_def read_f64_vec_def appends_pod read_pod_enc well_behaved_read_pod)

definition u8s_enc :: "bytes \<Rightarrow> bytes" where
  "u8s_enc v = le_bytes 8 (of_nat (length v) :: usize) @ v"

lemma well_behaved_read_u8_vec: "well_behaved 8 read_u8_vec"
  unfolding read_u8_vec_def by (intro well_behaved_usize well_behaved_if reader_intros)

interpretation u8s: codec write_u8_vec read_u8_vec "\<lambda>v. v" "\<lambda>v. length v \<le> MAX_IPC_SIZE" u8s_enc 8
proof unfold_locales
  show "appends (write_u8_vec v) (u8s_enc v)" for v
    by (simp add: write_u8_vec_def u8s_enc_def appends_def wseq_def write_basic_def write_all_def wskip_def)
  show "read_u8_vec (u8s_enc v @ rest) = Inr (v, rest)" if "length v \<le> MAX_IPC_SIZE" for v rest
    using that by (simp add: read_u8_vec_def u8s_enc_def max_ipc_usize)
qed (rule well_behaved_read_u8_vec)

section \<open>Single and multi values\<close>

text \<open>What the receiver sees: a blob arrives as null.\<close>

fun single_norm :: "single_value \<Rightarrow> single_value" where
  "single_norm (SvBlob _) = SvNull"
| "single_norm v = v"

fun single_ok :: "single_value \<Rightarrow> bool" where
  "single_ok (SvString s) = string_ok s"
| "single_ok _ = True"

fun single_enc :: "single_value \<Rightarrow> bytes" where
  "single_enc (SvInt v) = le_bytes (Suc 0) (1 :: u8) @ le_bytes 4 v"
| "single_enc (SvDouble v) = le_bytes (Suc 0) (2 :: u8) @ le_bytes 8 v"
| "single_enc (SvString v) = le_bytes (Suc 0) (3 :: u8) @ string_enc v"
| "single_enc (SvBool v) = le_bytes (Suc 0) (4 :: u8) @ le_bytes (Suc 0) (if v then 1 else 0 :: u8)"
| "single_enc (SvLong v) = le_bytes (Suc 0) (5 :: u8) @ le_bytes 8 v"
| "single_enc _ = le_bytes (Suc 0) (0 :: u8)"

lemma appends_tag: "appends (write_basic (t :: u8)) (le_bytes (Suc 0) t)"
  using appends_write_basic [of t] by simp

lemma appends_32: "appends (write_basic (t :: u32)) (le_bytes 4 t)"
  using appends_write_basic [of t] by simp

lemma appends_64: "appends (write_basic (t :: u64)) (le_bytes 8 t)"
  using appends_write_basic [of t] by simp

lemma appends_16: "appends (write_basic (t :: u16)) (le_bytes 2 t)"
  using appends_write_basic [of t] by simp

lemmas appends_intros = appends_wseq appends_tag appends_16 appends_32 appends_64 str.wr_enc strs.wr_enc
  i32s.wr_enc i64s.wr_enc f64s.wr_enc u8s.wr_enc

lemma appends_bool: "appends (write_bool b) (le_bytes (Suc 0) (if b then 1 else 0 :: u8))"
  using appends_write_bool [of b] by simp

lemma appends_single: "appends (write_single_value (Some v)) (single_enc v)"
  unfolding write_single_value_def option.case
  by (cases v) (simp_all only: single_value.case single_enc.simps, (intro appends_intros appends_bool)+)

lemmas well_behaved_0s = well_behaved_0 [OF well_behaved_read_string] well_behaved_0 [OF well_behaved_read_bool]
  well_behaved_0 [OF well_behaved_read_u8_vec] well_behaved_0 [OF i32s.rd_wb] well_behaved_0 [OF i64s.rd_wb]
  well_behaved_0 [OF f64s.rd_wb] well_behaved_0 [OF strs.rd_wb] well_behaved_rret well_behaved_rfail
  well_behaved_basic_0

lemma well_behaved_single: "well_behaved 1 read_single_value"
  unfolding read_single_value_def
  by (intro well_behaved_u8 well_behaved_if well_behaved_rbind_0 well_behaved_0s)

interpretation sv: codec "\<lambda>v. write_single_value (Some v)" read_single_value single_norm single_ok single_enc 1
proof unfold_locales
  show "read_single_value (single_enc v @ rest) = Inr (single_norm v, rest)" if "single_ok v" for v rest
    using that by (cases v) (simp_all add: read_single_value_def str.rd_enc)
qed (rule appends_single well_behaved_single)+

interpretation svs: codec write_single_value_vec read_single_value_vec "map single_norm" "counted_ok single_ok"
    "counted_enc single_enc" 8
  unfolding write_single_value_vec_def [abs_def] read_single_value_vec_def by (rule sv.codec_counted)

text \<open>A multi value keeps the elements of its first element's type, if that is one of four.\<close>

definition multi_norm :: "single_value list \<Rightarrow> single_value list" where
  "multi_norm vs =
     (case vs of
        SvInt _ # _ \<Rightarrow> map SvInt (ints_of vs)
      | SvLong _ # _ \<Rightarrow> map SvLong (longs_of vs)
      | SvDouble _ # _ \<Rightarrow> map SvDouble (doubles_of vs)
      | SvString _ # _ \<Rightarrow> map SvString (strings_of vs)
      | _ \<Rightarrow> [])"

definition multi_enc :: "single_value list \<Rightarrow> bytes" where
  "multi_enc vs =
     (case vs of
        SvInt _ # _ \<Rightarrow> le_bytes (Suc 0) (1 :: u8) @ pod_enc (ints_of vs)
      | SvLong _ # _ \<Rightarrow> le_bytes (Suc 0) (2 :: u8) @ pod_enc (longs_of vs)
      | SvDouble _ # _ \<Rightarrow> le_bytes (Suc 0) (3 :: u8) @ pod_enc (doubles_of vs)
      | SvString _ # _ \<Rightarrow> le_bytes (Suc 0) (4 :: u8) @ counted_enc string_enc (strings_of vs)
      | _ \<Rightarrow> le_bytes (Suc 0) (0 :: u8))"

definition multi_ok :: "single_value list \<Rightarrow> bool" where
  "multi_ok vs \<longleftrightarrow> length vs \<le> MAX_IPC_SIZE div 8 \<and> list_all single_ok vs"

lemma length_map_filter: "length (List.map_filter f xs) \<le> length xs"
  by (induction xs) (auto simp: List.map_filter_simps split: option.splits)

lemma strings_of_ok: "list_all single_ok vs \<Longrightarrow> list_all string_ok (strings_of vs)"
  by (induction vs) (auto simp: strings_of_def List.map_filter_simps split: single_value.splits)

lemma multi_ok_lengths:
  assumes "multi_ok vs"
  shows "length (ints_of vs) \<le> MAX_IPC_SIZE div 4" "length (longs_of vs) \<le> MAX_IPC_SIZE div 8"
    "length (doubles_of vs) \<le> MAX_IPC_SIZE div 8" "counted_ok string_ok (strings_of vs)"
proof -
  have *: "length (List.map_filter f vs) \<le> MAX_IPC_SIZE div 8" for f :: "single_value \<Rightarrow> 'b option"
    using assms le_trans [OF length_map_filter [of f vs]] by (simp add: multi_ok_def)
  show "length (ints_of vs) \<le> MAX_IPC_SIZE div 4"
    using * [of "\<lambda>v. case v of SvInt i \<Rightarrow> Some i | _ \<Rightarrow> None"] by (simp add: ints_of_def MAX_IPC_SIZE_def)
  show "length (longs_of vs) \<le> MAX_IPC_SIZE div 8" "length (doubles_of vs) \<le> MAX_IPC_SIZE div 8"
    unfolding longs_of_def doubles_of_def by (rule *)+
  have "length (strings_of vs) < 2 ^ 64"
    using * [of "\<lambda>v. case v of SvString s \<Rightarrow> Some s | _ \<Rightarrow> None"] by (simp add: strings_of_def MAX_IPC_SIZE_def)
  then show "counted_ok string_ok (strings_of vs)"
    using assms strings_of_ok [of vs] by (simp add: counted_ok_def multi_ok_def)
qed

interpretation mv: codec "\<lambda>v. write_multi_value (Some v)" read_multi_value multi_norm multi_ok multi_enc 1
proof unfold_locales
  show "appends (write_multi_value (Some vs)) (multi_enc vs)" for vs
    unfolding write_multi_value_def multi_enc_def option.case
    by (auto intro: appends_intros split: list.split single_value.split)
  show "read_multi_value (multi_enc vs @ rest) = Inr (multi_norm vs, rest)" if "multi_ok vs" for vs rest
    using multi_ok_lengths [OF that]
    by (auto simp: read_multi_value_def multi_enc_def multi_norm_def i32s.rd_enc i64s.rd_enc f64s.rd_enc strs.rd_enc
        split: list.split single_value.split)
  show "well_behaved 1 read_multi_value"
    unfolding read_multi_value_def
    by (intro well_behaved_u8 well_behaved_if well_behaved_rbind_0 well_behaved_0s)
qed

interpretation mvs: codec write_multi_value_vec read_multi_value_vec "map multi_norm" "counted_ok multi_ok"
    "counted_enc multi_enc" 8
  unfolding write_multi_value_vec_def [abs_def] read_multi_value_vec_def by (rule mv.codec_counted)

section \<open>Operation items\<close>

text \<open>The item the receiver builds: the parameters after the losses of the value formats, split into
  field, value and extras by the reader's rule.\<close>

definition item_norm :: "operation_item \<Rightarrow> operation_item" where
  "item_norm item =
     item_of_params (oi_operation item) (map single_norm (single_params item)) (map multi_norm (multi_params item))"

definition item_ok :: "operation_item \<Rightarrow> bool" where
  "item_ok item \<longleftrightarrow> counted_ok single_ok (single_params item) \<and> counted_ok multi_ok (multi_params item)"

definition item_enc :: "operation_item \<Rightarrow> bytes" where
  "item_enc item =
     le_bytes 4 (operation_type_code (oi_operation item))
     @ counted_enc single_enc (single_params item) @ counted_enc multi_enc (multi_params item)"

lemma well_behaved_item: "well_behaved 20 read_operation_item"
proof -
  have "well_behaved (4 + (8 + 8)) read_operation_item"
    unfolding read_operation_item_def Let_def
    using well_behaved_read_basic [where ?'a = 32]
    by (intro well_behaved_rbind svs.rd_wb well_behaved_rbind_0 mvs.rd_wb well_behaved_rret) simp_all
  then show ?thesis by simp
qed

interpretation item: codec write_operation_item read_operation_item item_norm item_ok item_enc 20
proof unfold_locales
  show "appends (write_operation_item x) (item_enc x)" for x
    unfolding write_operation_item_def item_enc_def
    by (intro appends_wseq appends_32 svs.wr_enc mvs.wr_enc)
  show "read_operation_item (item_enc x @ rest) = Inr (item_norm x, rest)" if "item_ok x" for x rest
    using that
    by (simp add: read_operation_item_def item_enc_def item_norm_def item_ok_def svs.rd_enc mvs.rd_enc)
qed (rule well_behaved_item)

interpretation items: codec write_operation_item_vec read_operation_item_vec "map item_norm" "counted_ok item_ok"
    "counted_enc item_enc" 8
  unfolding write_operation_item_vec_def [abs_def] read_operation_item_vec_def by (rule item.codec_counted)

text \<open>The items that cross the boundary unchanged.\<close>

fun plain_single :: "single_value \<Rightarrow> bool" where
  "plain_single (SvBlob _) = False"
| "plain_single _ = True"

definition same_kind :: "single_value \<Rightarrow> single_value \<Rightarrow> bool" where
  "same_kind v w = (case (v, w) of
     (SvInt _, SvInt _) \<Rightarrow> True | (SvLong _, SvLong _) \<Rightarrow> True | (SvDouble _, SvDouble _) \<Rightarrow> True
   | (SvString _, SvString _) \<Rightarrow> True | _ \<Rightarrow> False)"

definition plain_multi :: "single_value list \<Rightarrow> bool" where
  "plain_multi vs \<longleftrightarrow> (case vs of [] \<Rightarrow> True | v # _ \<Rightarrow> list_all (same_kind v) vs)"

definition plain_item :: "operation_item \<Rightarrow> bool" where
  "plain_item item \<longleftrightarrow>
     (oi_operation item \<in> {OpLimit, OpOffset} \<longrightarrow> oi_field item = [])
     \<and> (oi_value item = None \<longrightarrow> oi_extra item = [])
     \<and> (\<forall>v. oi_value item = Some v \<longrightarrow> plain_single v)
     \<and> (\<forall>s. oi_field item = [] \<and> oi_operation item \<notin> {OpLimit, OpOffset} \<longrightarrow> oi_value item \<noteq> Some (SvString s))
     \<and> list_all plain_single (oi_extra item)
     \<and> (\<forall>vs. oi_multi_values item = Some vs \<longrightarrow> plain_multi vs)"

lemma single_norm_plain: "plain_single v \<Longrightarrow> single_norm v = v"
  by (cases v) simp_all

lemma map_single_norm_plain: "list_all plain_single vs \<Longrightarrow> map single_norm vs = vs"
  by (induction vs) (simp_all add: single_norm_plain)

lemma same_kind_filters:
  "list_all (same_kind (SvInt i)) vs \<Longrightarrow> map SvInt (ints_of vs) = vs"
  "list_all (same_kind (SvLong l)) vs \<Longrightarrow> map SvLong (longs_of vs) = vs"
  "list_all (same_kind (SvDouble d)) vs \<Longrightarrow> map SvDouble (doubles_of vs) = vs"
  "list_all (same_kind (SvString s)) vs \<Longrightarrow> map SvString (strings_of vs) = vs"
  by (induction vs)
    (auto simp: ints_of_def longs_of_def doubles_of_def strings_of_def same_kind_def List.map_filter_simps
      split: single_value.splits)

lemma multi_norm_plain: "plain_multi vs \<Longrightarrow> multi_norm vs = vs"
proof (cases vs)
  case (Cons v r)
  assume "plain_multi vs"
  then have all: "list_all (same_kind v) vs" by (simp add: plain_multi_def Cons)
  then have "same_kind v v" by (simp add: Cons)
  then show ?thesis
    using all same_kind_filters [of _ vs]
    by (cases v) (simp_all add: multi_norm_def same_kind_def Cons [symmetric] split: list.split, simp_all add: Cons)
qed (simp add: multi_norm_def)

lemma item_norm_plain:
  assumes "plain_item item"
  shows "item_norm item = item"
proof -
  have mult: "map multi_norm (multi_params item) = multi_params item"
    using assms by (simp add: multi_params_def plain_item_def multi_norm_plain split: option.split)
  have sing: "map single_norm (single_params item) = single_params item"
    using assms by (simp add: single_params_def plain_item_def map_single_norm_plain single_norm_plain split: option.split)
  show ?thesis
    unfolding item_norm_def mult sing using assms
    by (cases item)
      (auto simp: item_of_params_def single_params_def multi_params_def plain_item_def
        split: option.splits single_value.splits)
qed

section \<open>Buckets\<close>

fun ds_value_ok :: "data_share_value \<Rightarrow> bool" where
  "ds_value_ok (VString s) = string_ok s"
| "ds_value_ok (VBlob b) = (length b \<le> MAX_IPC_SIZE)"
| "ds_value_ok _ = True"

definition entry_ok :: "string \<times> data_share_value \<Rightarrow> bool" where
  "entry_ok kv \<longleftrightarrow> string_ok (fst kv) \<and> ds_value_ok (snd kv)"

fun ds_value_enc :: "data_share_value \<Rightarrow> bytes" where
  "ds_value_enc VNull = le_bytes (Suc 0) (0 :: u8)"
| "ds_value_enc (VInt v) = le_bytes (Suc 0) (1 :: u8) @ le_bytes 8 v"
| "ds_value_enc (VDouble v) = le_bytes (Suc 0) (2 :: u8) @ le_bytes 8 v"
| "ds_value_enc (VString v) = le_bytes (Suc 0) (3 :: u8) @ string_enc v"
| "ds_value_enc (VBool v) = le_bytes (Suc 0) (4 :: u8) @ le_bytes (Suc 0) (if v then 1 else 0 :: u8)"
| "ds_value_enc (VBlob v) = le_bytes (Suc 0) (5 :: u8) @ u8s_enc v"

definition entry_enc :: "string \<times> data_share_value \<Rightarrow> bytes" where
  "entry_enc kv = string_enc (fst kv) @ ds_value_enc (snd kv)"

lemma well_behaved_entry: "well_behaved 9 read_datashare_value"
proof -
  have "well_behaved (8 + 1) read_datashare_value"
    unfolding read_datashare_value_def
    by (intro well_behaved_rbind well_behaved_read_string)
      (intro well_behaved_u8 well_behaved_if well_behaved_rbind_0 well_behaved_0s)
  then show ?thesis by simp
qed

interpretation entry: codec "\<lambda>(k, v). write_datashare_value k v" read_datashare_value "\<lambda>kv. kv" entry_ok entry_enc 9
proof unfold_locales
  show "appends (case kv of (k, v) \<Rightarrow> write_datashare_value k v) (entry_enc kv)" for kv
    unfolding write_datashare_value_def entry_enc_def prod.case_eq_if
    by (cases "snd kv")
      (simp_all only: data_share_value.case ds_value_enc.simps, (intro appends_intros appends_bool)+)
  show "read_datashare_value (entry_enc kv @ rest) = Inr (kv, rest)" if "entry_ok kv" for kv rest
    using that
    by (cases kv; cases "snd kv")
      (simp_all add: read_datashare_value_def entry_enc_def entry_ok_def str.rd_enc u8s.rd_enc)
qed (rule well_behaved_entry)

definition bucket_enc :: "data_share_values_bucket \<Rightarrow> bytes" where
  "bucket_enc b = counted_enc entry_enc (bucket_values b)"

definition bucket_wf :: "data_share_values_bucket \<Rightarrow> bool" where
  "bucket_wf b \<longleftrightarrow> bucket_ok b \<and> counted_ok entry_ok (bucket_values b)"

lemma read_bucket_entries_eq:
  "read_bucket_entries n b =
     rbind (read_n n read_datashare_value) (\<lambda>es. rret (fold (\<lambda>(k, v) b. bucket_put k v b) es b))"
proof (induction n arbitrary: b)
  case 0
  show ?case by (simp add: fun_eq_iff rbind_def)
next
  case (Suc n)
  show ?case
    by (rule ext) (simp add: Suc rbind_def split: sum.split prod.split)
qed

lemma well_behaved_bucket: "well_behaved 8 read_values_bucket_from_buffer"
  unfolding read_values_bucket_from_buffer_def read_bucket_entries_eq
  by (intro well_behaved_usize well_behaved_rbind_0 well_behaved_rret
      well_behaved_0 [OF well_behaved_read_n [OF well_behaved_entry]])

interpretation bkt: codec write_values_bucket_to_buffer read_values_bucket_from_buffer "\<lambda>b. b" bucket_wf bucket_enc 8
proof unfold_locales
  show "appends (write_values_bucket_to_buffer b) (bucket_enc b)" for b
    unfolding write_values_bucket_to_buffer_def bucket_enc_def get_all_def by (rule entry.appends_counted)
  show "read_values_bucket_from_buffer (bucket_enc b @ rest) = Inr (b, rest)" if "bucket_wf b" for b rest
    using that entry.read_n_enc [of "bucket_values b" rest]
    by (cases b) (simp add: read_values_bucket_from_buffer_def bucket_enc_def counted_enc_def counted_ok_def
        bucket_wf_def read_bucket_entries_eq unat_of_nat bucket_new_def fold_bucket_put bucket_ok_def)
qed (rule well_behaved_bucket)

interpretation bkts: codec "write_counted write_values_bucket_to_buffer" "read_counted read_values_bucket_from_buffer"
    "map (\<lambda>b. b)" "counted_ok bucket_wf" "counted_enc bucket_enc" 8
  by (rule bkt.codec_counted)

section \<open>Predicates\<close>

definition predicates_enc :: "data_share_predicates \<Rightarrow> bytes" where
  "predicates_enc p = counted_enc item_enc (pd_operations p) @ string_enc (pd_where_clause p)
     @ counted_enc string_enc (pd_where_args p) @ string_enc (pd_order p) @ le_bytes 2 (pd_setting_mode p)"

definition predicates_wf :: "data_share_predicates \<Rightarrow> bool" where
  "predicates_wf p \<longleftrightarrow> counted_ok item_ok (pd_operations p) \<and> string_ok (pd_where_clause p)
     \<and> counted_ok string_ok (pd_where_args p) \<and> string_ok (pd_order p)"

definition predicates_norm :: "data_share_predicates \<Rightarrow> data_share_predicates" where
  "predicates_norm p = p\<lparr>pd_operations := map item_norm (pd_operations p)\<rparr>"

lemma well_behaved_predicates: "well_behaved 34 read_predicates"
proof -
  have "well_behaved (8 + (8 + (8 + (8 + 2)))) read_predicates"
    unfolding read_predicates_def
    using well_behaved_read_basic [where ?'a = 16]
    by (intro well_behaved_rbind items.rd_wb str.rd_wb strs.rd_wb well_behaved_rbind_0 well_behaved_rret) simp_all
  then show ?thesis by simp
qed

interpretation pred: codec write_predicates read_predicates predicates_norm predicates_wf predicates_enc 34
proof unfold_locales
  show "appends (write_predicates p) (predicates_enc p)" for p
    unfolding write_predicates_def predicates_enc_def
    by (intro appends_wseq items.wr_enc str.wr_enc strs.wr_enc appends_16)
  show "read_predicates (predicates_enc p @ rest) = Inr (predicates_norm p, rest)" if "predicates_wf p" for p rest
    using that
    by (cases p) (simp add: read_predicates_def predicates_enc_def predicates_norm_def predicates_wf_def
        items.rd_enc str.rd_enc strs.rd_enc from_operations_def)
qed (rule well_behaved_predicates)

lemma predicates_norm_plain: "list_all plain_item (pd_operations p) \<Longrightarrow> predicates_norm p = p"
  by (simp add: predicates_norm_def list_all_iff map_idI item_norm_plain)

section \<open>Statements\<close>

definition back_reference_enc :: "back_reference \<Rightarrow> bytes" where
  "back_reference_enc br = string_enc (br_column br) @ le_bytes 4 (br_from_index br)"

lemma well_behaved_back_reference: "well_behaved 12 read_back_reference"
proof -
  have "well_behaved (8 + 4) read_back_reference"
    unfolding read_back_reference_def
    using well_behaved_read_basic [where ?'a = 32]
    by (intro well_behaved_rbind str.rd_wb well_behaved_rbind_0 well_behaved_rret) simp_all
  then show ?thesis by simp
qed

interpretation bref: codec write_back_reference read_back_reference "\<lambda>b. b" "\<lambda>b. string_ok (br_column b)"
    back_reference_enc 12
proof unfold_locales
  show "appends (write_back_reference b) (back_reference_enc b)" for b
    unfolding write_back_reference_def back_reference_enc_def by (intro appends_wseq str.wr_enc appends_32)
  show "read_back_reference (back_reference_enc b @ rest) = Inr (b, rest)" if "string_ok (br_column b)" for b rest
    using that by (cases b) (simp add: read_back_reference_def back_reference_enc_def str.rd_enc)
qed (rule well_behaved_back_reference)

definition statement_enc :: "operation_statement \<Rightarrow> bytes" where
  "statement_enc s = le_bytes 4 (operation_code (os_operation_type s)) @ string_enc (os_uri s)
     @ predicates_enc (os_predicates s) @ bucket_enc (os_values_bucket s) @ back_reference_enc (os_back_reference s)"

definition statement_wf :: "operation_statement \<Rightarrow> bool" where
  "statement_wf s \<longleftrightarrow> string_ok (os_uri s) \<and> predicates_wf (os_predicates s) \<and> bucket_wf (os_values_bucket s)
     \<and> string_ok (br_column (os_back_reference s))"

definition statement_norm :: "operation_statement \<Rightarrow> operation_statement" where
  "statement_norm s = s\<lparr>os_predicates := predicates_norm (os_predicates s)\<rparr>"

lemma well_behaved_statement: "well_behaved 66 read_statement"
proof -
  have "well_behaved (4 + (8 + (34 + (8 + 12)))) read_statement"
    unfolding read_statement_def Let_def
    using well_behaved_read_basic [where ?'a = 32]
    by (intro well_behaved_rbind str.rd_wb pred.rd_wb bkt.rd_wb well_behaved_rbind_0 [OF bref.rd_wb] well_behaved_rret)
      simp_all
  then show ?thesis by simp
qed

interpretation stmt: codec write_statement read_statement statement_norm statement_wf statement_enc 66
proof unfold_locales
  have p: "appends (\<lambda>buf. case marshal_predicates_to_buffer q of None \<Rightarrow> None | Some preds_buf \<Rightarrow> Some (buf @ preds_buf))
      (predicates_enc q)" for q
    using appendsD [OF pred.wr_enc, of q "[]"] by (simp add: appends_def marshal_predicates_to_buffer_def)
  show "appends (write_statement s) (statement_enc s)" for s
    unfolding write_statement_def statement_enc_def
    by (intro appends_wseq appends_32 str.wr_enc p bkt.wr_enc bref.wr_enc)
  show "read_statement (statement_enc s @ rest) = Inr (statement_norm s, rest)" if "statement_wf s" for s rest
    using that
    by (cases s) (simp add: read_statement_def statement_enc_def statement_norm_def statement_wf_def str.rd_enc
        pred.rd_enc bkt.rd_enc bref.rd_enc stmt_op.of_code_code)
qed (rule well_behaved_statement)

interpretation stmts: codec "write_counted write_statement" "read_counted read_statement" "map statement_norm"
    "counted_ok statement_wf" "counted_enc statement_enc" 8
  by (rule stmt.codec_counted)

section \<open>Whole messages\<close>

lemma marshal_predicates_eq: "marshal_predicates_to_buffer p = Some (predicates_enc p)"
  using appendsD [OF pred.wr_enc, of p "[]"] by (simp add: marshal_predicates_to_buffer_def)

lemma marshal_buckets_eq: "marshal_values_bucket_vec_to_buffer bs = Some (counted_enc bucket_enc bs)"
  using appendsD [OF bkts.wr_enc, of bs "[]"] by (simp add: marshal_values_bucket_vec_to_buffer_def)

lemma marshal_statements_eq: "marshal_operation_statement_vec_to_buffer ss = Some (counted_enc statement_enc ss)"
  using appendsD [OF stmts.wr_enc, of ss "[]"] by (simp add: marshal_operation_statement_vec_to_buffer_def)

lemma decoded_Inr: "r data = Inr (x, rest) \<Longrightarrow> decoded r data = Inr x"
  by (simp add: decoded_def)

lemma decoded_Inl: "decoded r data = Inl e \<longleftrightarrow> r data = Inl e"
  by (auto simp: decoded_def split: sum.splits)

lemma decoded_eq_Inr: "decoded r data = Inr x \<longleftrightarrow> (\<exists>rest. r data = Inr (x, rest))"
  by (auto simp: decoded_def split: sum.splits)

text \<open>C1: predicates survive the trip through the binary buffer. Marshalling never fails; the receiver,
  whatever bytes follow the image, decodes exactly the sender's where clause, arguments, order and
  mode, and each operation as \<open>item_norm\<close> describes it, and leaves exactly these bytes unread; when every operation is plain (no blob, no
  field on limit or offset, extras only behind a value, uniform value lists) the object it decodes is
  the one that was sent.\<close>

theorem marshal_predicates_roundtrip:
  assumes "predicates_wf p"
  shows "\<exists>buf. marshal_predicates_to_buffer p = Some buf
    \<and> (\<forall>trail. unmarshal_predicates_from_buffer (buf @ trail) = Inr (predicates_norm p))
    \<and> (\<forall>trail. read_predicates (buf @ trail) = Inr (predicates_norm p, trail))
    \<and> (list_all plain_item (pd_operations p) \<longrightarrow> unmarshal_predicates_from_buffer buf = Inr p)"
proof -
  have read: "read_predicates (predicates_enc p @ trail) = Inr (predicates_norm p, trail)" for trail
    using pred.rd_enc [OF assms] .
  then have "unmarshal_predicates_from_buffer (predicates_enc p @ trail) = Inr (predicates_norm p)" for trail
    unfolding unmarshal_predicates_from_buffer_def by (rule decoded_Inr)
  from read this this [of "[]"] show ?thesis
    by (auto simp: marshal_predicates_eq predicates_norm_plain)
qed

definition sample_predicates :: data_share_predicates where
  "sample_predicates = from_operations
     [with_value (SvInt 5) (operation_item_new OpEqualTo ''id''), with_value (SvInt 10) (operation_item_new OpLimit [])]"

lemma string_ok_small: "is_ascii s \<Longrightarrow> length s \<le> 100 \<Longrightarrow> string_ok s"
  by (simp add: string_ok_def ascii_utf8_valid MAX_IPC_SIZE_def)

lemmas sample_simps = from_operations_def with_value_def operation_item_new_def single_params_def multi_params_def
  item_ok_def counted_ok_def string_ok_small is_ascii_def

lemma sample_predicates_wf:
  "predicates_wf sample_predicates" "list_all plain_item (pd_operations sample_predicates)"
  by (simp_all add: sample_predicates_def predicates_wf_def plain_item_def sample_simps)

theorem marshal_predicates_roundtrip_witness:
  "\<exists>buf. marshal_predicates_to_buffer sample_predicates = Some buf
    \<and> unmarshal_predicates_from_buffer buf = Inr sample_predicates"
  using marshal_predicates_roundtrip [OF sample_predicates_wf(1)] sample_predicates_wf(2) by blast

text \<open>C2: the values buckets of a batch insert survive the trip: every list of well-formed buckets
  (columns in order, strings and blobs within the IPC limit) decodes to itself.\<close>

theorem marshal_values_buckets_roundtrip:
  assumes "length bs < 2 ^ 64" and "list_all bucket_wf bs"
  shows "\<exists>buf. marshal_values_bucket_vec_to_buffer bs = Some buf
    \<and> (\<forall>trail. unmarshal_values_bucket_vec_from_buffer (buf @ trail) = Inr bs)"
proof -
  have "read_counted read_values_bucket_from_buffer (counted_enc bucket_enc bs @ trail) = Inr (bs, trail)" for trail
    using bkts.rd_enc [of bs trail] assms by (simp add: counted_ok_def)
  then show ?thesis
    by (auto simp: marshal_buckets_eq unmarshal_values_bucket_vec_from_buffer_def intro: decoded_Inr)
qed

definition sample_bucket :: data_share_values_bucket where
  "sample_bucket = put_int ''age'' 30 (put_blob ''raw'' [1, 2] (put_string ''name'' ''Alice'' bucket_new))"

lemma sample_bucket_wf: "bucket_wf sample_bucket"
  by (simp add: sample_bucket_def bucket_wf_def bucket_defs entry_ok_def sample_simps MAX_IPC_SIZE_def)

theorem marshal_values_buckets_roundtrip_witness:
  "\<exists>buf. marshal_values_bucket_vec_to_buffer [sample_bucket, bucket_new] = Some buf
    \<and> unmarshal_values_bucket_vec_from_buffer (buf @ []) = Inr [sample_bucket, bucket_new]"
  using marshal_values_buckets_roundtrip [of "[sample_bucket, bucket_new]"] sample_bucket_wf
  by (fastforce simp: bucket_wf_def bucket_defs counted_ok_def)

text \<open>C7: batch statements survive the trip with operation, URI, values and back reference intact and
  their predicates up to the normal form of C1, which is the identity on plain ones, whenever the message fits the IPC limit.\<close>

theorem marshal_statements_roundtrip:
  assumes "counted_ok statement_wf ss" and "marshal_operation_statement_vec ss = Some buf"
  shows "unmarshal_operation_statement_vec buf = Inr (map statement_norm ss)
    \<and> (list_all (\<lambda>s. list_all plain_item (pd_operations (os_predicates s))) ss \<longrightarrow>
        unmarshal_operation_statement_vec buf = Inr ss)"
proof -
  have buf: "buf = counted_enc statement_enc ss" "length buf \<le> MAX_IPC_SIZE"
    using assms(2) by (auto simp: marshal_operation_statement_vec_def marshal_statements_eq split: if_splits)
  have "8 \<le> length buf" using stmts.enc_least [OF assms(1)] buf(1) by simp
  then have eq: "unmarshal_operation_statement_vec buf = Inr (map statement_norm ss)"
    using stmts.rd_enc [OF assms(1), of "[]"] buf
    by (auto simp: unmarshal_operation_statement_vec_def unmarshal_operation_statement_vec_from_buffer_def
        intro: decoded_Inr)
  moreover have "map statement_norm ss = ss"
    if "list_all (\<lambda>s. list_all plain_item (pd_operations (os_predicates s))) ss"
    using that by (simp add: list_all_iff map_idI statement_norm_def predicates_norm_plain)
  ultimately show ?thesis by simp
qed

definition sample_statement :: operation_statement where
  "sample_statement = statement_set_values_bucket sample_bucket
     (statement_set_predicates sample_predicates (statement_update ''datashare:///a''))"

lemma sample_statement_wf: "counted_ok statement_wf [sample_statement]"
  by (simp add: sample_statement_def statement_set_values_bucket_def statement_set_predicates_def statement_update_def
      statement_new_def statement_wf_def sample_bucket_wf sample_predicates_wf(1) back_reference_default_def
      counted_ok_def string_ok_small is_ascii_def)

lemma sample_statement_small: "length (counted_enc statement_enc [sample_statement]) \<le> 1000"
  by (simp add: sample_statement_def statement_set_values_bucket_def statement_set_predicates_def statement_update_def
      statement_new_def back_reference_default_def counted_enc_def statement_enc_def back_reference_enc_def
      predicates_enc_def string_enc_def bucket_enc_def sample_bucket_def bucket_defs entry_enc_def u8s_enc_def
      sample_predicates_def sample_simps item_enc_def)

theorem marshal_statements_roundtrip_witness:
  "\<exists>buf. marshal_operation_statement_vec [sample_statement] = Some buf
    \<and> unmarshal_operation_statement_vec buf = Inr [sample_statement]"
proof -
  have m: "marshal_operation_statement_vec [sample_statement] = Some (counted_enc statement_enc [sample_statement])"
    using sample_statement_small by (simp add: marshal_operation_statement_vec_def marshal_statements_eq MAX_IPC_SIZE_def)
  have "list_all (\<lambda>s. list_all plain_item (pd_operations (os_predicates s))) [sample_statement]"
    using sample_predicates_wf(2)
    by (simp add: sample_statement_def statement_set_values_bucket_def statement_set_predicates_def statement_update_def
      statement_new_def)
  with m marshal_statements_roundtrip [OF sample_statement_wf m] show ?thesis by blast
qed

text \<open>C8: a message cut short is refused. No proper prefix of the image of well-formed predicates,
  buckets or statements decodes to anything, and none of them drives the decoder into undefined
  behaviour.\<close>

theorem truncated_message_refused:
  assumes "z \<noteq> []"
  shows "(predicates_wf p \<and> marshal_predicates_to_buffer p = Some (q @ z) \<longrightarrow>
      unmarshal_predicates_from_buffer q = Inl ReadNone)
    \<and> (counted_ok bucket_wf bs \<and> marshal_values_bucket_vec_to_buffer bs = Some (q @ z) \<longrightarrow>
      unmarshal_values_bucket_vec_from_buffer q = Inl ReadNone)
    \<and> (counted_ok statement_wf ss \<and> marshal_operation_statement_vec_to_buffer ss = Some (q @ z) \<longrightarrow>
      unmarshal_operation_statement_vec_from_buffer q = Inl ReadNone)"
  using assms pred.rd_truncated [of p q z] bkts.rd_truncated [of bs q z] stmts.rd_truncated [of ss q z]
  by (simp add: marshal_predicates_eq marshal_buckets_eq marshal_statements_eq decoded_Inl
      unmarshal_predicates_from_buffer_def unmarshal_values_bucket_vec_from_buffer_def
      unmarshal_operation_statement_vec_from_buffer_def)

theorem truncated_message_refused_witness:
  "unmarshal_predicates_from_buffer (butlast (predicates_enc sample_predicates)) = Inl ReadNone"
proof -
  have "predicates_enc sample_predicates \<noteq> []"
    using pred.enc_least [OF sample_predicates_wf(1)] by auto
  then have "marshal_predicates_to_buffer sample_predicates =
      Some (butlast (predicates_enc sample_predicates) @ [last (predicates_enc sample_predicates)])"
    by (simp add: marshal_predicates_eq)
  with truncated_message_refused [THEN conjunct1, rule_format, OF _ conjI, OF _ sample_predicates_wf(1) this]
  show ?thesis by simp
qed

lemma read_predicates_bounded:
  assumes "read_predicates bs = Inr (p, rest)"
  shows "34 + 20 * length (pd_operations p) + 8 * length (pd_where_args p) \<le> length bs"
proof -
  obtain ops r1 w r2 args r3 order r4 mode where
    1: "read_operation_item_vec bs = Inr (ops, r1)" and 2: "read_string r1 = Inr (w, r2)"
    and 3: "read_string_vec r2 = Inr (args, r3)" and 4: "read_string r3 = Inr (order, r4)"
    and 5: "read_basic r4 = Inr (mode :: i16, rest)"
    and p: "pd_operations p = ops" "pd_where_args p = args"
    using assms by (auto simp: read_predicates_def rbind_def from_operations_def split: sum.splits)
  have "8 + length ops * 20 + length r1 \<le> length bs"
    using item.read_counted_bounded 1 unfolding read_operation_item_vec_def by blast
  moreover have "8 + length args * 8 + length r3 \<le> length r2"
    using str.read_counted_bounded 3 unfolding read_string_vec_def by blast
  moreover have "length r2 + 8 \<le> length r1" "length r4 + 8 \<le> length r3"
    using well_behaved_Inr(3) [OF str.rd_wb] 2 4 by blast+
  moreover have "length rest + 2 \<le> length r4"
    using well_behaved_Inr(3) [OF well_behaved_read_basic [where ?'a = 16] 5] by simp
  ultimately show ?thesis using p by simp
qed

text \<open>A length over the limit is refused before its buffer is allocated, whatever follows it.\<close>

lemma length_over_limit:
  fixes n :: usize
  shows "unat n > MAX_IPC_SIZE \<Longrightarrow> read_string (le_bytes 8 n @ rest) = Inl ReadNone \<and> read_u8_vec (le_bytes 8 n @ rest) = Inl ReadNone"
    and "unat n > MAX_IPC_SIZE div (LENGTH('a::len) div 8) \<Longrightarrow> (read_pod_vec :: 'a word list reader) (le_bytes 8 n @ rest) = Inl ReadNone"
  by (simp_all add: read_string_def read_u8_vec_def read_pod_vec_def rbind_def read_basic_64 rfail_def)

text \<open>C15: a message cannot make the receiver return more than it carries. Data over the IPC limit is
  refused outright; from accepted data the number of operations, arguments, buckets and statements
  decoded is bounded by the length of the data, whatever counts the data claims. A claimed length of a string,
  a blob or a numeric vector over the IPC limit is refused before anything is allocated for it; a claimed length within
  the limit does make the code allocate that much before it finds that the data is shorter.\<close>

theorem decoded_size_bounded:
  "(unmarshal_predicates_raw data = Inr p \<longrightarrow> length data \<le> MAX_IPC_SIZE
      \<and> 34 + 20 * length (pd_operations p) + 8 * length (pd_where_args p) \<le> length data)
   \<and> (unmarshal_values_bucket_vec_raw data = Inr bs \<longrightarrow> length data \<le> MAX_IPC_SIZE \<and> 8 + 8 * length bs \<le> length data)
   \<and> (unmarshal_operation_statement_vec data = Inr ss \<longrightarrow> length data \<le> MAX_IPC_SIZE \<and> 8 + 66 * length ss \<le> length data)
   \<and> (length data > MAX_IPC_SIZE \<longrightarrow> unmarshal_predicates_raw data = Inl ReadNone
      \<and> unmarshal_values_bucket_vec_raw data = Inl ReadNone \<and> unmarshal_operation_statement_vec data = Inl ReadNone)
   \<and> (unat (n :: usize) > MAX_IPC_SIZE \<longrightarrow>
        read_string (le_bytes 8 n @ rest) = Inl ReadNone \<and> read_u8_vec (le_bytes 8 n @ rest) = Inl ReadNone)
   \<and> (unat n > MAX_IPC_SIZE div 4 \<longrightarrow> read_i32_vec (le_bytes 8 n @ rest) = Inl ReadNone)
   \<and> (unat n > MAX_IPC_SIZE div 8 \<longrightarrow>
        read_i64_vec (le_bytes 8 n @ rest) = Inl ReadNone \<and> read_f64_vec (le_bytes 8 n @ rest) = Inl ReadNone)"
proof -
  have vecs: "unat n > MAX_IPC_SIZE div 4 \<Longrightarrow> read_i32_vec (le_bytes 8 n @ rest) = Inl ReadNone"
    "unat n > MAX_IPC_SIZE div 8 \<Longrightarrow> read_i64_vec (le_bytes 8 n @ rest) = Inl ReadNone \<and> read_f64_vec (le_bytes 8 n @ rest) = Inl ReadNone"
    using length_over_limit(2) [where 'a = 32, of n rest] length_over_limit(2) [where 'a = 64, of n rest]
    by (simp_all add: read_i32_vec_def read_i64_vec_def read_f64_vec_def)
  show ?thesis
    using read_predicates_bounded [of data p] bkt.read_counted_bounded [of data bs] stmt.read_counted_bounded [of data ss]
      length_over_limit(1) [of n rest] vecs
    by (fastforce simp: unmarshal_predicates_raw_def unmarshal_values_bucket_vec_raw_def unmarshal_operation_statement_vec_def
        unmarshal_predicates_from_buffer_def unmarshal_values_bucket_vec_from_buffer_def
        unmarshal_operation_statement_vec_from_buffer_def decoded_eq_Inr split: if_splits)
qed

theorem decoded_size_bounded_witness:
  "unmarshal_predicates_raw (predicates_enc sample_predicates) = Inr sample_predicates
   \<and> 34 + 20 * 2 \<le> length (predicates_enc sample_predicates)"
proof -
  let ?d = "predicates_enc sample_predicates"
  have "?d \<noteq> []" using pred.enc_least [OF sample_predicates_wf(1)] by auto
  moreover have "length ?d \<le> 1000"
    by (simp add: predicates_enc_def sample_predicates_def sample_simps counted_enc_def item_enc_def string_enc_def)
  moreover have "unmarshal_predicates_from_buffer ?d = Inr sample_predicates"
    unfolding unmarshal_predicates_from_buffer_def
    using pred.rd_enc [OF sample_predicates_wf(1), of "[]"] predicates_norm_plain [OF sample_predicates_wf(2)]
    by (simp add: decoded_Inr)
  ultimately have "unmarshal_predicates_raw ?d = Inr sample_predicates"
    by (simp add: unmarshal_predicates_raw_def MAX_IPC_SIZE_def)
  with decoded_size_bounded [THEN conjunct1, rule_format, OF this] show ?thesis
    by (simp add: sample_predicates_def from_operations_def)
qed

text \<open>The IPC entry points. Marshalling gives a size that is the exact, positive length of the
  data, and the data decodes to what the receiver of C1 sees; it gives nothing exactly when the image
  exceeds the IPC limit.\<close>

theorem marshalling_unmarshalling:
  assumes "predicates_wf p"
  shows "(marshalling p = None \<longleftrightarrow> MAX_IPC_SIZE < length (predicates_enc p))
    \<and> (\<forall>size data. marshalling p = Some (size, data) \<longrightarrow>
        sint size = int (length data) \<and> 0 < sint size \<and> unmarshalling data = Inr (predicates_norm p))"
proof -
  have len: "34 \<le> length (predicates_enc p)" by (rule pred.enc_least [OF assms])
  have sint: "sint (of_nat n :: i32) = int n" if "n \<le> MAX_IPC_SIZE" for n
    using that by (simp add: MAX_IPC_SIZE_def signed_of_nat signed_take_bit_int_eq_self)
  have "unmarshal_predicates_raw (predicates_enc p) = Inr (predicates_norm p)"
    if "length (predicates_enc p) \<le> MAX_IPC_SIZE"
    using that len pred.rd_enc [OF assms, of "[]"]
    by (auto simp: unmarshal_predicates_raw_def unmarshal_predicates_from_buffer_def decoded_Inr)
  then show ?thesis
    using len sint
    by (auto simp: marshalling_def unmarshalling_def marshal_predicates_raw_def sized_def marshal_predicates_eq
        split: if_splits)
qed

theorem marshalling_unmarshalling_witness:
  "\<exists>size data. marshalling sample_predicates = Some (size, data) \<and> sint size = int (length data)
    \<and> unmarshalling data = Inr (predicates_norm sample_predicates)"
proof -
  have "length (predicates_enc sample_predicates) \<le> MAX_IPC_SIZE"
    by (simp add: predicates_enc_def sample_predicates_def sample_simps counted_enc_def item_enc_def string_enc_def
        MAX_IPC_SIZE_def)
  then obtain size data where "marshalling sample_predicates = Some (size, data)"
    using marshalling_unmarshalling [OF sample_predicates_wf(1), THEN conjunct1] by fastforce
  with marshalling_unmarshalling [OF sample_predicates_wf(1)] show ?thesis by blast
qed

section \<open>Where the format loses or breaks\<close>

text \<open>The losses of the item format, for every operation other than limit and offset: a blob value
  arrives as null, and a string value without a field arrives as a field without a value; a limit
  with a field loses its number to the extras.\<close>

theorem item_format_losses:
  assumes "op \<notin> {OpLimit, OpOffset}" and "string_ok s" and "s \<noteq> []" and "f \<noteq> []" and "string_ok f"
  shows "item_norm (with_value (SvBlob b) (operation_item_new op f)) = with_value SvNull (operation_item_new op f)
    \<and> item_norm (with_value (SvString s) (operation_item_new op [])) = operation_item_new op s
    \<and> item_norm (with_value (SvInt n) (operation_item_new OpLimit f)) =
        (with_value (SvString f) (operation_item_new OpLimit []))\<lparr>oi_extra := [SvInt n]\<rparr>
    \<and> (\<forall>rest. read_operation_item (item_enc (with_value (SvBlob b) (operation_item_new op f)) @ rest)
        = Inr (with_value SvNull (operation_item_new op f), rest))"
proof -
  let ?i = "with_value (SvBlob b) (operation_item_new op f)"
  have n: "item_norm ?i = with_value SvNull (operation_item_new op f)"
    using assms
    by (simp add: item_norm_def item_of_params_def single_params_def multi_params_def with_value_def operation_item_new_def)
  moreover have "item_ok ?i"
    using assms by (simp add: item_ok_def single_params_def multi_params_def with_value_def operation_item_new_def counted_ok_def)
  ultimately show ?thesis
    using assms item.rd_enc [of ?i]
    by (simp add: n item_norm_def item_of_params_def single_params_def multi_params_def with_value_def operation_item_new_def)
qed

theorem item_format_losses_witness:
  "item_norm (with_value (SvBlob [7]) (operation_item_new OpEqualTo ''c'')) = with_value SvNull (operation_item_new OpEqualTo ''c'')"
  using item_format_losses [of OpEqualTo "''v''" "''c''" "[7]", THEN conjunct1] by (simp add: string_ok_small is_ascii_def)

text \<open>A received boolean is trusted. A bucket message whose boolean byte is neither 0 nor 1 drives
  the decoder into behaviour the language leaves undefined; exactly these two bytes are safe.\<close>

theorem bool_byte_undefined:
  assumes "string_ok key"
  shows "unmarshal_values_bucket_vec_from_buffer
      (le_bytes 8 (1 :: usize) @ le_bytes 8 (1 :: usize) @ string_enc key @ [4, b]) =
    (if b = 0 then Inr [put_bool key False bucket_new]
     else if b = 1 then Inr [put_bool key True bucket_new]
     else Inl ReadUndefined)"
proof -
  have tag: "read_basic ((4 :: u8) # bs) = Inr (4 :: u8, bs)" for bs
    using read_basic_8 [of 4 bs] by (simp add: le_bytes_def)
  have byte: "read_basic [b] = Inr (b :: u8, [])"
    using read_basic_8 [of b "[]"] le_bytes_le_word [where ?'a = 8, of "[b]"] by (simp add: le_word_def)
  have "read_datashare_value (string_enc key @ [4, b]) =
      (if b = 0 then Inr ((key, VBool False), []) else if b = 1 then Inr ((key, VBool True), []) else Inl ReadUndefined)"
    using assms by (simp add: read_datashare_value_def str.rd_enc tag byte read_bool_def rbind_def)
  then show ?thesis
    by (cases "b = 0"; cases "b = 1")
      (simp_all add: unmarshal_values_bucket_vec_from_buffer_def decoded_def read_counted_def
        read_values_bucket_from_buffer_def put_bool_def rbind_def [of read_datashare_value],
       simp_all add: rbind_def)
qed

theorem bool_byte_undefined_witness:
  "unmarshal_values_bucket_vec_from_buffer
     (le_bytes 8 (1 :: usize) @ le_bytes 8 (1 :: usize) @ string_enc ''on'' @ [4, 2]) = Inl ReadUndefined"
  using bool_byte_undefined [of "''on''" 2] by (simp add: string_ok_small is_ascii_def)

end
