(* ===== verification/Shared_Block.thy ===== *)
theory Shared_Block
  imports Errors Rust_Str "HOL-Library.Monad_Syntax"
begin

unbundle bit_operations_syntax

text \<open>
  \<open>shared_block.rs\<close>: the block of shared memory that carries query results between processes. The
  block is modelled byte by byte: a header of seven \<open>u32\<close>, chained groups of 100 row offsets, one
  directory of 12-byte cells per row, and the bytes of strings and blobs, at the offsets the
  \<open>repr(C)\<close> layouts prescribe. Every access through a raw pointer is a \<open>load\<close> or \<open>store\<close> that is \<open>None\<close>
  when it leaves the mapping, so that memory safety is a statement about the model.

  The anonymous shared memory itself (creating, mapping and reading a region) is a service outside
  the sources: what it delivers is an argument of \<open>create\<close> and \<open>create_from_fd\<close>.
\<close>

section \<open>Memory\<close>

definition load :: "nat \<Rightarrow> nat \<Rightarrow> bytes \<Rightarrow> bytes option" where
  "load off n mem = (if off + n \<le> length mem then Some (take n (drop off mem)) else None)"

definition store :: "nat \<Rightarrow> bytes \<Rightarrow> bytes \<Rightarrow> bytes option" where
  "store off bs mem =
     (if off + length bs \<le> length mem then Some (take off mem @ bs @ drop (off + length bs) mem) else None)"

definition load32 :: "nat \<Rightarrow> bytes \<Rightarrow> u32 option" where
  "load32 off mem = map_option le_word (load off 4 mem)"

definition store32 :: "nat \<Rightarrow> u32 \<Rightarrow> bytes \<Rightarrow> bytes option" where
  "store32 off v mem = store off (le_bytes 4 v) mem"

section \<open>Constants and types\<close>

definition SHARED_BLOCK_OK :: i32 where "SHARED_BLOCK_OK = 0"
definition SHARED_BLOCK_BAD_VALUE :: i32 where "SHARED_BLOCK_BAD_VALUE = 1"
definition SHARED_BLOCK_NO_MEMORY :: i32 where "SHARED_BLOCK_NO_MEMORY = 2"
definition SHARED_BLOCK_INVALID_OPERATION :: i32 where "SHARED_BLOCK_INVALID_OPERATION = 3"
definition SHARED_BLOCK_ASHMEM_ERROR :: i32 where "SHARED_BLOCK_ASHMEM_ERROR = 4"
definition SHARED_BLOCK_SET_PORT_ERROR :: i32 where "SHARED_BLOCK_SET_PORT_ERROR = 5"

lemmas block_codes = SHARED_BLOCK_OK_def SHARED_BLOCK_BAD_VALUE_def SHARED_BLOCK_NO_MEMORY_def
  SHARED_BLOCK_INVALID_OPERATION_def SHARED_BLOCK_ASHMEM_ERROR_def SHARED_BLOCK_SET_PORT_ERROR_def

definition CELL_UNIT_TYPE_NULL :: i32 where "CELL_UNIT_TYPE_NULL = 0"
definition CELL_UNIT_TYPE_INTEGER :: i32 where "CELL_UNIT_TYPE_INTEGER = 1"
definition CELL_UNIT_TYPE_FLOAT :: i32 where "CELL_UNIT_TYPE_FLOAT = 2"
definition CELL_UNIT_TYPE_STRING :: i32 where "CELL_UNIT_TYPE_STRING = 3"
definition CELL_UNIT_TYPE_BLOB :: i32 where "CELL_UNIT_TYPE_BLOB = 4"

lemmas cell_types = CELL_UNIT_TYPE_NULL_def CELL_UNIT_TYPE_INTEGER_def CELL_UNIT_TYPE_FLOAT_def
  CELL_UNIT_TYPE_STRING_def CELL_UNIT_TYPE_BLOB_def

definition COL_MAX_NUM :: u32 where "COL_MAX_NUM = 32767"
definition ROW_OFFSETS_NUM :: nat where "ROW_OFFSETS_NUM = 100"

text \<open>Offsets of the header fields and sizes of the \<open>repr(C)\<close> structures.\<close>

definition H_unused :: nat where "H_unused = 0"
definition H_first :: nat where "H_first = 4"
definition H_rows :: nat where "H_rows = 8"
definition H_cols :: nat where "H_cols = 12"
definition H_start :: nat where "H_start = 16"
definition H_last :: nat where "H_last = 20"
definition H_block :: nat where "H_block = 24"
definition HEADER_SIZE :: nat where "HEADER_SIZE = 28"
definition GROUP_SIZE :: nat where "GROUP_SIZE = 404"
definition CELL_SIZE :: nat where "CELL_SIZE = 12"

lemmas block_layout = H_unused_def H_first_def H_rows_def H_cols_def H_start_def H_last_def H_block_def
  HEADER_SIZE_def GROUP_SIZE_def CELL_SIZE_def ROW_OFFSETS_NUM_def

record shared_block =
  sb_name :: string
  sb_size :: nat
  sb_read_only :: bool
  sb_mapped :: bool
  sb_mem :: bytes

record cell_value_legacy =
  cv_cell_type :: i32
  cv_long_value :: i64
  cv_double_value :: f64
  cv_offset :: u32
  cv_size :: u32

definition hdr :: "nat \<Rightarrow> shared_block \<Rightarrow> u32 option" where
  "hdr off b = load32 off (sb_mem b)"

definition poke :: "nat \<Rightarrow> bytes \<Rightarrow> shared_block \<Rightarrow> shared_block option" where
  "poke off bs b = map_option (\<lambda>m. b\<lparr>sb_mem := m\<rparr>) (store off bs (sb_mem b))"

definition poke32 :: "nat \<Rightarrow> u32 \<Rightarrow> shared_block \<Rightarrow> shared_block option" where
  "poke32 off v b = poke off (le_bytes 4 v) b"

section \<open>Pointers and allocation\<close>

definition offset_to_ptr :: "shared_block \<Rightarrow> u32 \<Rightarrow> u32 \<Rightarrow> nat option" where
  "offset_to_ptr b offset buffer_size =
     (if \<not> sb_mapped b then None
      else if unat offset \<ge> sb_size b then None
      else if offset > 0xFFFFFFFF - buffer_size then None
      else if unat offset + unat buffer_size \<ge> sb_size b then None
      else Some (unat offset))"

text \<open>
  The sum \<open>(offset as usize) + size\<close> cannot wrap: the offset has 32 bits and the size is a length of a slice, a constant or a row
  directory, which is below $2^{63}$, so that the sum of numbers is the sum of the code.
\<close>

definition alloc :: "nat \<Rightarrow> bool \<Rightarrow> shared_block \<Rightarrow> (u32 \<times> shared_block) option" where
  "alloc sz aligned b = do {
     unused \<leftarrow> hdr H_unused b;
     let padding = (if aligned then (NOT unused + 1) AND 3 else 0);
     let offset = unused + padding;
     if unat offset + sz \<ge> sb_size b then Some (0, b)
     else do {
       b \<leftarrow> poke32 H_unused (offset + of_nat sz) b;
       Some (offset, b)
     }
   }"

text \<open>The two loops over the chain of row groups. The inner \<open>None\<close> is a null pointer.\<close>

fun get_row_walk :: "shared_block \<Rightarrow> nat \<Rightarrow> nat \<Rightarrow> nat option option" where
  "get_row_walk b row_pos grp =
     (if row_pos \<ge> 100 then do {
        nxt \<leftarrow> load32 (grp + 400) (sb_mem b);
        case offset_to_ptr b nxt 404 of
          None \<Rightarrow> Some None
        | Some g \<Rightarrow> get_row_walk b (row_pos - 100) g
      }
      else Some (Some (grp + 4 * row_pos)))"

declare get_row_walk.simps [simp del]

definition get_row_offset :: "shared_block \<Rightarrow> u32 \<Rightarrow> nat option option" where
  "get_row_offset b row = do {
     first_off \<leftarrow> hdr H_first b;
     case offset_to_ptr b first_off 404 of
       None \<Rightarrow> Some None
     | Some g \<Rightarrow> get_row_walk b (unat row) g
   }"

fun alloc_row_walk :: "shared_block \<Rightarrow> nat \<Rightarrow> nat \<Rightarrow> (nat \<times> nat) option option" where
  "alloc_row_walk b row_pos grp =
     (if row_pos > 100 then do {
        nxt \<leftarrow> load32 (grp + 400) (sb_mem b);
        case offset_to_ptr b nxt 404 of
          None \<Rightarrow> Some None
        | Some g \<Rightarrow> alloc_row_walk b (row_pos - 100) g
      }
      else Some (Some (row_pos, grp)))"

declare alloc_row_walk.simps [simp del]

text \<open>The part of \<open>alloc_row_offset\<close> that enters a fresh group.\<close>

definition enter_next_group :: "nat \<Rightarrow> shared_block \<Rightarrow> (nat option \<times> shared_block) option" where
  "enter_next_group grp b = do {
     next_existing \<leftarrow> load32 (grp + 400) (sb_mem b);
     (ok, b) \<leftarrow> (if next_existing = 0 then do {
         (new_off, b) \<leftarrow> alloc GROUP_SIZE True b;
         if new_off = 0 then Some (False, b)
         else do { b \<leftarrow> poke32 (grp + 400) new_off b; Some (True, b) }
       } else Some (True, b));
     if \<not> ok then Some (None, b)
     else do {
       next_off \<leftarrow> load32 (grp + 400) (sb_mem b);
       case offset_to_ptr b next_off 404 of
         None \<Rightarrow> Some (None, b)
       | Some g \<Rightarrow> do { b \<leftarrow> poke32 (g + 400) 0 b; Some (Some g, b) }
     }
   }"

definition finish_row_offset :: "nat \<Rightarrow> nat \<Rightarrow> shared_block \<Rightarrow> (nat option \<times> shared_block) option" where
  "finish_row_offset row_pos grp b = do {
     rows \<leftarrow> hdr H_rows b;
     b \<leftarrow> poke32 H_rows (rows + 1) b;
     Some (Some (grp + 4 * row_pos), b)
   }"

definition alloc_row_offset :: "shared_block \<Rightarrow> (nat option \<times> shared_block) option" where
  "alloc_row_offset b = do {
     row_nums \<leftarrow> hdr H_rows b;
     first_off \<leftarrow> hdr H_first b;
     case offset_to_ptr b first_off 404 of
       None \<Rightarrow> Some (None, b)
     | Some g0 \<Rightarrow> do {
         w \<leftarrow> alloc_row_walk b (unat row_nums) g0;
         case w of
           None \<Rightarrow> Some (None, b)
         | Some (row_pos, grp) \<Rightarrow>
             if row_pos = 100 then do {
               (g, b) \<leftarrow> enter_next_group grp b;
               case g of None \<Rightarrow> Some (None, b) | Some grp \<Rightarrow> finish_row_offset 0 grp b
             }
             else finish_row_offset row_pos grp b
       }
   }"

section \<open>Construction\<close>

definition shared_block_new :: "string \<Rightarrow> bytes \<Rightarrow> nat \<Rightarrow> bool \<Rightarrow> shared_block" where
  "shared_block_new name ashmem sz read_only =
     \<lparr>sb_name = name, sb_size = sz, sb_read_only = read_only, sb_mapped = False, sb_mem = ashmem\<rparr>"

text \<open>\<open>read_ok\<close>: whether \<open>read_from_ashmem\<close> delivers a pointer.\<close>

definition init :: "bool \<Rightarrow> shared_block \<Rightarrow> bool \<times> shared_block" where
  "init read_ok b = (if \<not> read_ok then (False, b) else (True, b\<lparr>sb_mapped := True\<rparr>))"

definition reset_header :: "shared_block \<Rightarrow> shared_block option" where
  "reset_header b = do {
     b \<leftarrow> poke32 H_unused (of_nat (HEADER_SIZE + GROUP_SIZE)) b;
     b \<leftarrow> poke32 H_first (of_nat HEADER_SIZE) b;
     b \<leftarrow> poke32 H_rows 0 b;
     b \<leftarrow> poke32 H_cols 0 b;
     b \<leftarrow> poke32 H_start 0 b;
     b \<leftarrow> poke32 H_last 0 b;
     poke32 H_block 0 b
   }"

definition create :: "bytes option \<Rightarrow> bool \<Rightarrow> bool \<Rightarrow> string \<Rightarrow> nat \<Rightarrow> (i32 + shared_block) option" where
  "create region map_ok read_ok name sz =
     (case region of
        None \<Rightarrow> Some (Inl SHARED_BLOCK_ASHMEM_ERROR)
      | Some ashmem \<Rightarrow>
          if \<not> map_ok then Some (Inl SHARED_BLOCK_SET_PORT_ERROR)
          else (case init read_ok (shared_block_new name ashmem sz False) of
                  (False, _) \<Rightarrow> Some (Inl SHARED_BLOCK_ASHMEM_ERROR)
                | (True, block) \<Rightarrow> do {
                    block \<leftarrow> reset_header block;
                    first_off \<leftarrow> hdr H_first block;
                    case offset_to_ptr block first_off 404 of
                      None \<Rightarrow> Some (Inr block)
                    | Some grp \<Rightarrow> do {
                        block \<leftarrow> poke grp (replicate GROUP_SIZE 0) block;
                        block \<leftarrow> poke32 (grp + 400) 0 block;
                        Some (Inr block)
                      }
                  }))"

definition create_from_fd :: "bytes option \<Rightarrow> bool \<Rightarrow> bool \<Rightarrow> string \<Rightarrow> nat \<Rightarrow> bool \<Rightarrow> i32 + shared_block" where
  "create_from_fd region map_ok read_ok name sz read_only =
     (case region of
        None \<Rightarrow> Inl SHARED_BLOCK_ASHMEM_ERROR
      | Some ashmem \<Rightarrow>
          if \<not> map_ok then Inl SHARED_BLOCK_SET_PORT_ERROR
          else (case init read_ok (shared_block_new name ashmem sz read_only) of
                  (False, _) \<Rightarrow> Inl SHARED_BLOCK_ASHMEM_ERROR
                | (True, block) \<Rightarrow> Inr block))"

section \<open>Mutators\<close>

definition clear :: "shared_block \<Rightarrow> (i32 \<times> shared_block) option" where
  "clear b =
     (if sb_read_only b then Some (SHARED_BLOCK_INVALID_OPERATION, b)
      else do {
        b \<leftarrow> reset_header b;
        first_off \<leftarrow> hdr H_first b;
        case offset_to_ptr b first_off 404 of
          None \<Rightarrow> Some (SHARED_BLOCK_BAD_VALUE, b)
        | Some grp \<Rightarrow> do { b \<leftarrow> poke32 (grp + 400) 0 b; Some (SHARED_BLOCK_OK, b) }
      })"

definition set_column_num :: "u32 \<Rightarrow> shared_block \<Rightarrow> (i32 \<times> shared_block) option" where
  "set_column_num n b =
     (if sb_read_only b then Some (SHARED_BLOCK_INVALID_OPERATION, b)
      else do {
        cur \<leftarrow> hdr H_cols b;
        rows \<leftarrow> hdr H_rows b;
        if (cur > 0 \<or> rows > 0) \<and> cur \<noteq> n then Some (SHARED_BLOCK_INVALID_OPERATION, b)
        else if n > COL_MAX_NUM then Some (SHARED_BLOCK_INVALID_OPERATION, b)
        else do { b \<leftarrow> poke32 H_cols n b; Some (SHARED_BLOCK_OK, b) }
      })"

definition drop_last_row :: "shared_block \<Rightarrow> shared_block option" where
  "drop_last_row b = do {
     rows \<leftarrow> hdr H_rows b;
     if rows > 0 then poke32 H_rows (rows - 1) b else Some b
   }"

definition alloc_row :: "shared_block \<Rightarrow> (i32 \<times> shared_block) option" where
  "alloc_row b =
     (if sb_read_only b then Some (SHARED_BLOCK_INVALID_OPERATION, b)
      else do {
        (row_off_ptr, b) \<leftarrow> alloc_row_offset b;
        case row_off_ptr of
          None \<Rightarrow> Some (SHARED_BLOCK_NO_MEMORY, b)
        | Some ptr \<Rightarrow> do {
            column_nums \<leftarrow> hdr H_cols b;
            let field_dir_size = unat column_nums * CELL_SIZE;
            (field_dir_offset, b) \<leftarrow> alloc field_dir_size True b;
            if field_dir_offset = 0 then do {
              b \<leftarrow> drop_last_row b;
              Some (SHARED_BLOCK_NO_MEMORY, b)
            }
            else (case offset_to_ptr b field_dir_offset (of_nat CELL_SIZE) of
                    None \<Rightarrow> Some (SHARED_BLOCK_BAD_VALUE, b)
                  | Some dir_ptr \<Rightarrow> do {
                      b \<leftarrow> poke dir_ptr (replicate field_dir_size 0) b;
                      b \<leftarrow> poke32 ptr field_dir_offset b;
                      Some (SHARED_BLOCK_OK, b)
                    })
          }
      })"

definition free_last_row :: "shared_block \<Rightarrow> (i32 \<times> shared_block) option" where
  "free_last_row b =
     (if sb_read_only b then Some (SHARED_BLOCK_INVALID_OPERATION, b)
      else do { b \<leftarrow> drop_last_row b; Some (SHARED_BLOCK_OK, b) })"

section \<open>Cells\<close>

definition get_cell_unit :: "shared_block \<Rightarrow> u32 \<Rightarrow> u32 \<Rightarrow> nat option option" where
  "get_cell_unit b row col = do {
     rows \<leftarrow> hdr H_rows b;
     cols \<leftarrow> hdr H_cols b;
     if row \<ge> rows \<or> col \<ge> cols then Some None
     else do {
       row_off_ptr \<leftarrow> get_row_offset b row;
       case row_off_ptr of
         None \<Rightarrow> Some None
       | Some ptr \<Rightarrow> do {
           row_off \<leftarrow> load32 ptr (sb_mem b);
           case offset_to_ptr b row_off (of_nat CELL_SIZE) of
             None \<Rightarrow> Some None
           | Some base \<Rightarrow> Some (Some (base + unat col * CELL_SIZE))
         }
     }
   }"

text \<open>\<open>CellUnit\<close>: the type, then eight bytes read as \<open>i64\<close>, \<open>f64\<close> or offset and size.\<close>

definition put_cell :: "u32 \<Rightarrow> u32 \<Rightarrow> i32 \<Rightarrow> bytes \<Rightarrow> shared_block \<Rightarrow> (i32 \<times> shared_block) option" where
  "put_cell row col cell_type value b =
     (if sb_read_only b then Some (SHARED_BLOCK_INVALID_OPERATION, b)
      else do {
        cell \<leftarrow> get_cell_unit b row col;
        case cell of
          None \<Rightarrow> Some (SHARED_BLOCK_BAD_VALUE, b)
        | Some p \<Rightarrow> do { b \<leftarrow> poke p (le_bytes 4 cell_type @ value) b; Some (SHARED_BLOCK_OK, b) }
      })"

definition put_long :: "u32 \<Rightarrow> u32 \<Rightarrow> i64 \<Rightarrow> shared_block \<Rightarrow> (i32 \<times> shared_block) option" where
  "put_long row col v b = put_cell row col CELL_UNIT_TYPE_INTEGER (le_bytes 8 v) b"

definition put_double :: "u32 \<Rightarrow> u32 \<Rightarrow> f64 \<Rightarrow> shared_block \<Rightarrow> (i32 \<times> shared_block) option" where
  "put_double row col v b = put_cell row col CELL_UNIT_TYPE_FLOAT (le_bytes 8 v) b"

definition put_null :: "u32 \<Rightarrow> u32 \<Rightarrow> shared_block \<Rightarrow> (i32 \<times> shared_block) option" where
  "put_null row col b =
     put_cell row col CELL_UNIT_TYPE_NULL (le_bytes 4 (0 :: u32) @ le_bytes 4 (0 :: u32)) b"

text \<open>\<open>data\<close> is \<open>None\<close> for a null pointer.\<close>

definition put_blob_or_string ::
  "u32 \<Rightarrow> u32 \<Rightarrow> bytes option \<Rightarrow> nat \<Rightarrow> i32 \<Rightarrow> shared_block \<Rightarrow> (i32 \<times> shared_block) option" where
  "put_blob_or_string row col data sz kind b =
     (if sb_read_only b then Some (SHARED_BLOCK_INVALID_OPERATION, b)
      else do {
        cell \<leftarrow> get_cell_unit b row col;
        case cell of
          None \<Rightarrow> Some (SHARED_BLOCK_BAD_VALUE, b)
        | Some p \<Rightarrow> do {
            (offset, b) \<leftarrow> alloc sz False b;
            if offset = 0 then Some (SHARED_BLOCK_NO_MEMORY, b)
            else (case offset_to_ptr b offset (of_nat sz) of
                    None \<Rightarrow> Some (SHARED_BLOCK_NO_MEMORY, b)
                  | Some dst \<Rightarrow> do {
                      b \<leftarrow> (case data of
                              Some d \<Rightarrow> if sz \<noteq> 0 then poke dst (take sz d) b else Some b
                            | None \<Rightarrow> Some b);
                      b \<leftarrow> poke p (le_bytes 4 kind @ le_bytes 4 offset @ le_bytes 4 (of_nat sz :: u32)) b;
                      Some (SHARED_BLOCK_OK, b)
                    })
          }
      })"

definition block_put_blob :: "u32 \<Rightarrow> u32 \<Rightarrow> bytes \<Rightarrow> shared_block \<Rightarrow> (i32 \<times> shared_block) option" where
  "block_put_blob row col data b = put_blob_or_string row col (Some data) (length data) CELL_UNIT_TYPE_BLOB b"

definition block_put_string ::
  "u32 \<Rightarrow> u32 \<Rightarrow> bytes option \<Rightarrow> nat \<Rightarrow> shared_block \<Rightarrow> (i32 \<times> shared_block) option" where
  "block_put_string row col value size_inc_null b =
     put_blob_or_string row col value size_inc_null CELL_UNIT_TYPE_STRING b"

section \<open>Reading\<close>

definition row_num :: "shared_block \<Rightarrow> u32 option" where
  "row_num b = (if \<not> sb_mapped b then Some 0 else hdr H_rows b)"

definition column_num :: "shared_block \<Rightarrow> u32 option" where
  "column_num b = (if \<not> sb_mapped b then Some 0 else hdr H_cols b)"

definition used_bytes :: "shared_block \<Rightarrow> u32 option" where
  "used_bytes b = (if \<not> sb_mapped b then Some 0 else hdr H_unused b)"

definition start_pos :: "shared_block \<Rightarrow> u32 option" where "start_pos b = hdr H_start b"
definition last_pos :: "shared_block \<Rightarrow> u32 option" where "last_pos b = hdr H_last b"
definition block_pos :: "shared_block \<Rightarrow> u32 option" where "block_pos b = hdr H_block b"
definition set_start_pos :: "u32 \<Rightarrow> shared_block \<Rightarrow> shared_block option" where "set_start_pos v b = poke32 H_start v b"
definition set_last_pos :: "u32 \<Rightarrow> shared_block \<Rightarrow> shared_block option" where "set_last_pos v b = poke32 H_last v b"
definition set_block_pos :: "u32 \<Rightarrow> shared_block \<Rightarrow> shared_block option" where "set_block_pos v b = poke32 H_block v b"

definition set_raw_data :: "bytes option \<Rightarrow> nat \<Rightarrow> shared_block \<Rightarrow> (i32 \<times> shared_block) option" where
  "set_raw_data data sz b =
     (if sz = 0 then Some (SHARED_BLOCK_INVALID_OPERATION, b)
      else if sz > sb_size b then Some (SHARED_BLOCK_NO_MEMORY, b)
      else (case data of
              None \<Rightarrow> Some (SHARED_BLOCK_NO_MEMORY, b)
            | Some d \<Rightarrow>
                if \<not> sb_mapped b then Some (SHARED_BLOCK_NO_MEMORY, b)
                else do { b \<leftarrow> poke 0 (take sz d) b; Some (SHARED_BLOCK_OK, b) }))"

definition get_cell_value :: "shared_block \<Rightarrow> u32 \<Rightarrow> u32 \<Rightarrow> (i32 \<times> cell_value_legacy) ds_result option" where
  "get_cell_value b row col = do {
     cell \<leftarrow> get_cell_unit b row col;
     case cell of
       None \<Rightarrow> Some (Inl ErrInvalidColumnIndex)
     | Some p \<Rightarrow> do {
         bs \<leftarrow> load p CELL_SIZE (sb_mem b);
         let ty = (le_word (take 4 bs) :: i32);
         let value = drop 4 bs;
         let legacy = \<lparr>cv_cell_type = ty, cv_long_value = 0, cv_double_value = 0, cv_offset = 0, cv_size = 0\<rparr>;
         Some (Inr (ty,
           if ty = CELL_UNIT_TYPE_INTEGER then legacy\<lparr>cv_long_value := le_word value\<rparr>
           else if ty = CELL_UNIT_TYPE_FLOAT then legacy\<lparr>cv_double_value := le_word value\<rparr>
           else if ty = CELL_UNIT_TYPE_STRING \<or> ty = CELL_UNIT_TYPE_BLOB
             then legacy\<lparr>cv_offset := le_word (take 4 value), cv_size := le_word (drop 4 value)\<rparr>
           else legacy))
       }
   }"

definition get_string_data :: "shared_block \<Rightarrow> u32 \<Rightarrow> u32 \<Rightarrow> bytes ds_result option" where
  "get_string_data b offset sz =
     (case offset_to_ptr b offset sz of
        None \<Rightarrow> Some (Inl ErrInvalidColumnIndex)
      | Some p \<Rightarrow> do { bs \<leftarrow> load p (unat sz) (sb_mem b); Some (Inr bs) })"

definition get_cell_unit_str :: "shared_block \<Rightarrow> cell_value_legacy \<Rightarrow> string ds_result option" where
  "get_cell_unit_str b cell =
     (if cv_cell_type cell \<noteq> CELL_UNIT_TYPE_STRING then Some (Inl ErrInvalidOperation)
      else (case offset_to_ptr b (cv_offset cell) (cv_size cell) of
              None \<Rightarrow> Some (Inl ErrInvalidColumnIndex)
            | Some p \<Rightarrow> do {
                slice \<leftarrow> load p (unat (cv_size cell)) (sb_mem b);
                let s = of_bytes (takeWhile (\<lambda>x. x \<noteq> 0) slice);
                Some (if utf8_valid s then Inr s else Inl ErrInvalidOperation)
              }))"

definition result_from_code :: "i32 \<Rightarrow> unit ds_result" where
  "result_from_code code =
     (if code = SHARED_BLOCK_OK then Inr ()
      else if code = SHARED_BLOCK_NO_MEMORY then Inl ErrOutOfMemory
      else if code = SHARED_BLOCK_INVALID_OPERATION then Inl ErrInvalidOperation
      else if code = SHARED_BLOCK_BAD_VALUE then Inl ErrInvalidParameter
      else Inl ErrGeneralError)"

definition put_string_str :: "u32 \<Rightarrow> u32 \<Rightarrow> string \<Rightarrow> shared_block \<Rightarrow> (unit ds_result \<times> shared_block) option" where
  "put_string_str row col value b = do {
     let buf = as_bytes value @ [0];
     (code, b) \<leftarrow> block_put_string row col (Some buf) (length buf) b;
     Some (result_from_code code, b)
   }"

end
