(* ===== verification/Block_Layout.thy ===== *)
theory Block_Layout
  imports Shared_Block
begin

text \<open>
  Correctness of the shared block. \<open>block_ok\<close> is the invariant of a block, with the chain of row
  groups, the row directories, the column count and the first unused byte as its ghost layout:
  groups and directories are disjoint regions below the unused byte, every row slot holds its
  directory, and the data of every string or blob cell is clear of both. \<open>cell_view\<close> is the abstract
  content of a block, a partial function from rows and columns to typed values; the mutators refine
  its updates.
\<close>

section \<open>Loads after stores\<close>

definition rdisj :: "nat \<times> nat \<Rightarrow> nat \<times> nat \<Rightarrow> bool" where
  "rdisj r s \<longleftrightarrow> fst r + snd r \<le> fst s \<or> fst s + snd s \<le> fst r"

lemma rdisj_sym: "rdisj r s \<longleftrightarrow> rdisj s r"
  by (auto simp: rdisj_def)

lemma rdisj_sub: "rdisj r s \<Longrightarrow> fst s \<le> a \<Longrightarrow> a + n \<le> fst s + snd s \<Longrightarrow> rdisj r (a, n)"
  by (auto simp: rdisj_def)

lemma store_Some: "store off bs m = Some m' \<longleftrightarrow> off + length bs \<le> length m \<and> m' = take off m @ bs @ drop (off + length bs) m"
  by (auto simp: store_def)

lemma length_store: "store off bs m = Some m' \<Longrightarrow> length m' = length m"
  by (auto simp: store_Some)

lemma load_store_same: "store off bs m = Some m' \<Longrightarrow> n = length bs \<Longrightarrow> load off n m' = Some bs"
  by (auto simp: store_Some load_def)

lemma load_store_inside:
  "store off bs m = Some m' \<Longrightarrow> off \<le> a \<Longrightarrow> a + n \<le> off + length bs \<Longrightarrow> load a n m' = Some (take n (drop (a - off) bs))"
  by (auto simp: store_Some load_def)

lemma load_store_other:
  assumes "store off bs m = Some m'" and "rdisj (off, length bs) (a, n)"
  shows "load a n m' = load a n m"
proof (cases "a + n \<le> off")
  case True
  with assms show ?thesis
    by (auto simp: store_Some load_def take_drop)
next
  case False
  then have "off + length bs \<le> a" using assms(2) by (auto simp: rdisj_def)
  with assms(1) show ?thesis
    by (auto simp: store_Some load_def)
qed

lemma load32_store_same: "store off (le_bytes 4 v) m = Some m' \<Longrightarrow> load32 off m' = Some v"
  by (simp add: load32_def load_store_same le_word_le_bytes)

lemma load32_store_other:
  "store off bs m = Some m' \<Longrightarrow> rdisj (off, length bs) (a, 4) \<Longrightarrow> load32 a m' = load32 a m"
  by (simp add: load32_def load_store_other)

lemma store_ex: "off + length bs \<le> length m \<Longrightarrow> \<exists>m'. store off bs m = Some m'"
  by (simp add: store_def)

section \<open>The invariant\<close>

type_synonym dirs = "nat list"

definition slot :: "nat list \<Rightarrow> nat \<Rightarrow> nat" where
  "slot gs i = gs ! (i div 100) + 4 * (i mod 100)"

text \<open>Facts about the groups: where they lie and that the chain links them.\<close>

definition groups_ok :: "bytes \<Rightarrow> nat list \<Rightarrow> nat \<Rightarrow> bool" where
  "groups_ok m gs u \<longleftrightarrow>
     gs \<noteq> [] \<and> hd gs = 28 \<and> (\<forall>g \<in> set gs. 28 \<le> g \<and> g + 404 \<le> u)
     \<and> sorted_wrt rdisj (map (\<lambda>g. (g, 404)) gs)
     \<and> (\<forall>i. Suc i < length gs \<longrightarrow> load32 (gs ! i + 400) m = Some (of_nat (gs ! Suc i)))
     \<and> load32 (last gs + 400) m = Some 0"

text \<open>Facts about the row directories; a block without columns has rows but no cells.\<close>

definition dirs_ok :: "bytes \<Rightarrow> nat list \<Rightarrow> nat list \<Rightarrow> nat \<Rightarrow> nat \<Rightarrow> bool" where
  "dirs_ok m gs ds cols u \<longleftrightarrow>
     length ds \<le> 100 * length gs
     \<and> (0 < cols \<longrightarrow> sorted_wrt rdisj (map (\<lambda>d. (d, 12 * cols)) ds)
         \<and> (\<forall>g \<in> set gs. \<forall>d \<in> set ds. rdisj (g, 404) (d, 12 * cols))
         \<and> (\<forall>d \<in> set ds. 432 \<le> d \<and> d + 12 * cols \<le> u)
         \<and> (\<forall>i < length ds. load32 (slot gs i) m = Some (of_nat (ds ! i))))"

definition cell_bytes :: "bytes \<Rightarrow> nat list \<Rightarrow> nat \<Rightarrow> nat \<Rightarrow> bytes" where
  "cell_bytes m ds r c = take 12 (drop (ds ! r + 12 * c) m)"

definition cell_kind :: "bytes \<Rightarrow> i32" where
  "cell_kind bs = le_word (take 4 bs)"

definition cell_off :: "bytes \<Rightarrow> nat" where
  "cell_off bs = unat (le_word (take 4 (drop 4 bs)) :: u32)"

definition cell_len :: "bytes \<Rightarrow> nat" where
  "cell_len bs = unat (le_word (drop 8 bs) :: u32)"

definition data_clear :: "nat list \<Rightarrow> nat list \<Rightarrow> nat \<Rightarrow> nat \<Rightarrow> bytes \<Rightarrow> bool" where
  "data_clear gs ds cols u bs \<longleftrightarrow>
     (cell_kind bs = 3 \<or> cell_kind bs = 4 \<longrightarrow>
        432 \<le> cell_off bs \<and> cell_off bs + cell_len bs \<le> u
        \<and> (\<forall>g \<in> set gs. rdisj (g, 404) (cell_off bs, cell_len bs))
        \<and> (\<forall>d \<in> set ds. rdisj (d, 12 * cols) (cell_off bs, cell_len bs)))"

definition block_ok :: "shared_block \<Rightarrow> nat list \<Rightarrow> nat list \<Rightarrow> nat \<Rightarrow> nat \<Rightarrow> bool" where
  "block_ok b gs ds cols u \<longleftrightarrow>
     sb_mapped b \<and> sb_size b = length (sb_mem b) \<and> sb_size b < 2 ^ 31 \<and> 432 \<le> u \<and> u < sb_size b
     \<and> cols \<le> 32767
     \<and> hdr 0 b = Some (of_nat u) \<and> hdr 4 b = Some 28
     \<and> hdr 8 b = Some (of_nat (length ds)) \<and> hdr 12 b = Some (of_nat cols)
     \<and> groups_ok (sb_mem b) gs u \<and> dirs_ok (sb_mem b) gs ds cols u
     \<and> (\<forall>r < length ds. \<forall>c < cols. data_clear gs ds cols u (cell_bytes (sb_mem b) ds r c))"

lemma unat_small: "n < 2 ^ 31 \<Longrightarrow> unat (of_nat n :: u32) = n"
  by (simp add: unat_of_nat)

lemma length_le_sum: "sorted_wrt rdisj (map (\<lambda>g. (g, 404)) gs) \<Longrightarrow> \<forall>g \<in> set gs. g + 404 \<le> u \<Longrightarrow> 404 * length gs \<le> u"
proof -
  assume s: "sorted_wrt rdisj (map (\<lambda>g. (g, 404)) gs)" and b: "\<forall>g \<in> set gs. g + 404 \<le> u"
  have "card (\<Union>g \<in> set gs. {g ..< g + 404}) = 404 * length gs"
    using s
  proof (induction gs)
    case (Cons g gs)
    have "{g ..< g + 404} \<inter> (\<Union>g \<in> set gs. {g ..< g + 404}) = {}"
      using Cons.prems by (fastforce simp: rdisj_def)
    with Cons show ?case by (simp add: card_Un_disjoint)
  qed simp
  moreover have "(\<Union>g \<in> set gs. {g ..< g + 404}) \<subseteq> {..<u}" using b by fastforce
  ultimately show ?thesis
    by (metis card_lessThan card_mono finite_lessThan)
qed

lemma block_rows_small:
  assumes "block_ok b gs ds cols u"
  shows "length ds < 2 ^ 31"
proof -
  have "404 * length gs \<le> u"
    using assms by (intro length_le_sum) (auto simp: block_ok_def groups_ok_def)
  then have "length ds \<le> u" using assms by (simp add: block_ok_def dirs_ok_def)
  then show ?thesis using assms by (simp add: block_ok_def)
qed

lemma offset_to_ptr_in:
  assumes "sb_mapped b" and "sb_size b < 2 ^ 31" and "off + n < sb_size b"
  shows "offset_to_ptr b (of_nat off) (of_nat n) = Some off"
proof -
  have u: "unat (of_nat off :: u32) = off" "unat (of_nat n :: u32) = n" using assms by (simp_all add: unat_small)
  have "unat (0xFFFFFFFF - of_nat n :: u32) = 0xFFFFFFFF - n"
    using assms u by (subst unat_sub) (simp_all add: word_le_nat_alt)
  then have "\<not> (of_nat off :: u32) > 0xFFFFFFFF - of_nat n"
    using assms u by (simp add: word_less_nat_alt)
  then show ?thesis using assms u by (simp add: offset_to_ptr_def)
qed

section \<open>Abstract content\<close>

datatype cell = CNull | CLong i64 | CDouble f64 | CString bytes | CBlob bytes

definition decode :: "bytes \<Rightarrow> bytes \<Rightarrow> cell" where
  "decode m bs =
     (if cell_kind bs = 1 then CLong (le_word (drop 4 bs))
      else if cell_kind bs = 2 then CDouble (le_word (drop 4 bs))
      else if cell_kind bs = 3 then CString (take (cell_len bs) (drop (cell_off bs) m))
      else if cell_kind bs = 4 then CBlob (take (cell_len bs) (drop (cell_off bs) m))
      else CNull)"

text \<open>What a reader of the block sees in a cell, through the reading functions of the code.\<close>

definition cell_view :: "shared_block \<Rightarrow> u32 \<Rightarrow> u32 \<Rightarrow> cell option" where
  "cell_view b r c =
     (case get_cell_value b r c of
        Some (Inr (ty, cv)) \<Rightarrow>
          if ty = CELL_UNIT_TYPE_INTEGER then Some (CLong (cv_long_value cv))
          else if ty = CELL_UNIT_TYPE_FLOAT then Some (CDouble (cv_double_value cv))
          else if ty = CELL_UNIT_TYPE_STRING then
            (case get_string_data b (cv_offset cv) (cv_size cv) of Some (Inr d) \<Rightarrow> Some (CString d) | _ \<Rightarrow> None)
          else if ty = CELL_UNIT_TYPE_BLOB then
            (case get_string_data b (cv_offset cv) (cv_size cv) of Some (Inr d) \<Rightarrow> Some (CBlob d) | _ \<Rightarrow> None)
          else Some CNull
      | _ \<Rightarrow> None)"

section \<open>Finding a row\<close>

lemma block_group_ptr:
  "block_ok b gs ds cols u \<Longrightarrow> g \<in> set gs \<Longrightarrow> offset_to_ptr b (of_nat g) 404 = Some g"
  using offset_to_ptr_in [of b g 404] by (fastforce simp: block_ok_def groups_ok_def)

lemma block_first_group:
  assumes "block_ok b gs ds cols u"
  shows "offset_to_ptr b 28 404 = Some (gs ! 0)"
proof -
  have gs: "gs \<noteq> []" "hd gs = 28" using assms by (auto simp: block_ok_def groups_ok_def)
  with block_group_ptr [OF assms, of 28] hd_in_set [of gs] show ?thesis by (simp add: hd_conv_nth)
qed

lemma block_next_group:
  assumes "block_ok b gs ds cols u" and "Suc k < length gs"
  shows "load32 (gs ! k + 400) (sb_mem b) = Some (of_nat (gs ! Suc k))"
    and "offset_to_ptr b (of_nat (gs ! Suc k)) 404 = Some (gs ! Suc k)"
  using assms block_group_ptr [OF assms(1)] by (auto simp: block_ok_def groups_ok_def)

lemma get_row_walk_groups:
  assumes "block_ok b gs ds cols u"
  shows "k < length gs \<Longrightarrow> row_pos < 100 * (length gs - k) \<Longrightarrow>
    get_row_walk b row_pos (gs ! k) = Some (Some (gs ! (k + row_pos div 100) + 4 * (row_pos mod 100)))"
proof (induction row_pos arbitrary: k rule: less_induct)
  case (less row_pos)
  show ?case
  proof (cases "100 \<le> row_pos")
    case False
    then show ?thesis by (simp add: get_row_walk.simps)
  next
    case True
    then have k: "Suc k < length gs" using less.prems by (cases "Suc k < length gs") (auto simp: not_less)
    moreover have "row_pos - 100 < 100 * (length gs - Suc k)" using less.prems True by simp
    ultimately have "get_row_walk b (row_pos - 100) (gs ! Suc k) =
        Some (Some (gs ! (Suc k + (row_pos - 100) div 100) + 4 * ((row_pos - 100) mod 100)))"
      using less.IH [of "row_pos - 100" "Suc k"] True by simp
    moreover have "Suc k + (row_pos - 100) div 100 = k + row_pos div 100" "(row_pos - 100) mod 100 = row_pos mod 100"
      using True by (simp_all add: le_div_geq le_mod_geq)
    ultimately have "get_row_walk b (row_pos - 100) (gs ! Suc k) =
        Some (Some (gs ! (k + row_pos div 100) + 4 * (row_pos mod 100)))"
      by (simp only:)
    then show ?thesis
      using True block_next_group [OF assms k] by (subst get_row_walk.simps) simp
  qed
qed

lemma get_row_offset_slot:
  assumes "block_ok b gs ds cols u" and "r < length ds"
  shows "get_row_offset b (of_nat r) = Some (Some (slot gs r))"
proof -
  have "r < 100 * length gs" "gs \<noteq> []" using assms by (auto simp: block_ok_def dirs_ok_def groups_ok_def)
  moreover have "unat (of_nat r :: u32) = r"
    using block_rows_small [OF assms(1)] assms(2) by (simp add: unat_small)
  ultimately show ?thesis
    using get_row_walk_groups [OF assms(1), of 0 r] block_first_group [OF assms(1)] assms(1)
    by (simp add: get_row_offset_def block_layout block_ok_def slot_def)
qed

lemma block_dir_bounds:
  assumes "block_ok b gs ds cols u" and "r < length ds" and "c < cols"
  shows "432 \<le> ds ! r" "ds ! r + 12 * c + 12 \<le> u" "ds ! r + 12 * cols \<le> u" "u < sb_size b"
    "load32 (slot gs r) (sb_mem b) = Some (of_nat (ds ! r))"
proof -
  have "432 \<le> ds ! r \<and> ds ! r + 12 * cols \<le> u \<and> u < sb_size b \<and> load32 (slot gs r) (sb_mem b) = Some (of_nat (ds ! r))"
    using assms by (auto simp: block_ok_def dirs_ok_def)
  moreover have "12 * c + 12 \<le> 12 * cols" using assms(3) by simp
  ultimately show "432 \<le> ds ! r" "ds ! r + 12 * c + 12 \<le> u" "ds ! r + 12 * cols \<le> u" "u < sb_size b"
    "load32 (slot gs r) (sb_mem b) = Some (of_nat (ds ! r))" by auto
qed

lemma get_cell_unit_block:
  assumes b: "block_ok b gs ds cols u"
  shows "get_cell_unit b r c =
    Some (if unat r < length ds \<and> unat c < cols then Some (ds ! unat r + 12 * unat c) else None)"
proof -
  have h: "hdr 8 b = Some (of_nat (length ds))" "hdr 12 b = Some (of_nat cols)"
    and cmp: "r \<ge> of_nat (length ds) \<longleftrightarrow> \<not> unat r < length ds" "c \<ge> of_nat cols \<longleftrightarrow> \<not> unat c < cols"
    using b block_rows_small [OF b] by (auto simp: block_ok_def word_le_nat_alt unat_small)
  show ?thesis
  proof (cases "unat r < length ds \<and> unat c < cols")
    case True
    then have "get_row_offset b r = Some (Some (slot gs (unat r)))"
      using get_row_offset_slot [OF b, of "unat r"] by simp
    moreover have "offset_to_ptr b (of_nat (ds ! unat r)) 12 = Some (ds ! unat r)"
      using True block_dir_bounds [OF b, of "unat r" "unat c"] offset_to_ptr_in [of b "ds ! unat r" 12] b
      by (simp add: block_ok_def)
    ultimately show ?thesis
      using True h cmp block_dir_bounds(5) [OF b, of "unat r" "unat c"]
      by (simp add: get_cell_unit_def block_layout mult.commute)
  next
    case False
    then show ?thesis using h cmp by (auto simp: get_cell_unit_def block_layout)
  qed
qed

lemma cell_view_block:
  assumes b: "block_ok b gs ds cols u"
  shows "cell_view b r c =
    (if unat r < length ds \<and> unat c < cols
     then Some (decode (sb_mem b) (cell_bytes (sb_mem b) ds (unat r) (unat c))) else None)"
proof (cases "unat r < length ds \<and> unat c < cols")
  case False
  then have "get_cell_unit b r c = Some None" by (simp only: get_cell_unit_block [OF b] if_False)
  with False show ?thesis by (simp add: cell_view_def get_cell_value_def)
next
  case True
  let ?bs = "cell_bytes (sb_mem b) ds (unat r) (unat c)"
  have bounds: "ds ! unat r + 12 * unat c + 12 \<le> u" "u < length (sb_mem b)" "sb_size b = length (sb_mem b)"
    using True block_dir_bounds [OF b, of "unat r" "unat c"] b by (auto simp: block_ok_def)
  then have ld: "load (ds ! unat r + 12 * unat c) 12 (sb_mem b) = Some ?bs" and len: "length ?bs = 12"
    by (simp_all add: load_def cell_bytes_def)
  have data: "get_string_data b (le_word (take 4 (drop 4 ?bs))) (le_word (drop 4 (drop 4 ?bs))) =
      Some (Inr (take (cell_len ?bs) (drop (cell_off ?bs) (sb_mem b))))"
    if "cell_kind ?bs = 3 \<or> cell_kind ?bs = 4"
  proof -
    have "data_clear gs ds cols u ?bs" using True b by (simp add: block_ok_def)
    then have "cell_off ?bs + cell_len ?bs < sb_size b" using that bounds by (simp add: data_clear_def)
    then have "offset_to_ptr b (le_word (take 4 (drop 4 ?bs))) (le_word (drop 8 ?bs)) = Some (cell_off ?bs)"
      using offset_to_ptr_in [of b "cell_off ?bs" "cell_len ?bs"] b
      by (simp add: block_ok_def cell_off_def cell_len_def)
    with \<open>cell_off ?bs + cell_len ?bs < sb_size b\<close> bounds show ?thesis
      by (simp add: get_string_data_def load_def cell_len_def)
  qed
  have "get_cell_unit b r c = Some (Some (ds ! unat r + 12 * unat c))"
    by (simp only: get_cell_unit_block [OF b] if_P [OF True])
  then show ?thesis
    using True ld data
    by (simp add: cell_view_def get_cell_value_def block_layout cell_types decode_def cell_kind_def Let_def)
qed

section \<open>Stores that keep the layout\<close>

lemma slot_in_group:
  "i < 100 * length gs \<Longrightarrow> \<exists>g \<in> set gs. g \<le> slot gs i \<and> slot gs i + 4 \<le> g + 400"
  by (rule bexI [of _ "gs ! (i div 100)"]) (auto simp: slot_def)

lemma groups_ok_frame:
  assumes "groups_ok m gs u" and "store off bs m = Some m'" and "u \<le> u'"
    and "\<forall>g \<in> set gs. rdisj (off, length bs) (g + 400, 4)"
  shows "groups_ok m' gs u'"
  using assms load32_store_other [OF assms(2)] by (fastforce simp: groups_ok_def)

lemma dirs_ok_frame:
  assumes "dirs_ok m gs ds cols u" and "store off bs m = Some m'" and "u \<le> u'"
    and "\<forall>g \<in> set gs. rdisj (off, length bs) (g, 400)"
  shows "dirs_ok m' gs ds cols u'"
proof -
  have "load32 (slot gs i) m' = load32 (slot gs i) m" if "i < length ds" for i
  proof (rule load32_store_other [OF assms(2)])
    obtain g where "g \<in> set gs" "g \<le> slot gs i" "slot gs i + 4 \<le> g + 400"
      using slot_in_group [of i gs] \<open>i < length ds\<close> assms(1) by (auto simp: dirs_ok_def)
    with assms(4) show "rdisj (off, length bs) (slot gs i, 4)" by (fastforce intro: rdisj_sub)
  qed
  with assms(1,3) show ?thesis by (fastforce simp: dirs_ok_def)
qed

lemma data_clear_mono: "data_clear gs ds cols u bs \<Longrightarrow> u \<le> u' \<Longrightarrow> data_clear gs ds cols u' bs"
  by (fastforce simp: data_clear_def)

lemma block_cell_load:
  "block_ok b gs ds cols u \<Longrightarrow> r < length ds \<Longrightarrow> c < cols \<Longrightarrow>
     load (ds ! r + 12 * c) 12 (sb_mem b) = Some (cell_bytes (sb_mem b) ds r c)"
  using block_dir_bounds(2,4) [of b gs ds cols u r c] by (simp add: load_def cell_bytes_def block_ok_def)

text \<open>Where a store cannot change the content: in the header, in a row group, or in unused space.\<close>

definition benign :: "nat list \<Rightarrow> nat \<Rightarrow> nat \<Rightarrow> nat \<Rightarrow> bool" where
  "benign gs u off n \<longleftrightarrow> off + n \<le> 28 \<or> u \<le> off \<or> (\<exists>g \<in> set gs. g \<le> off \<and> off + n \<le> g + 404)"

lemma benign_group: "g \<in> set gs \<Longrightarrow> g \<le> off \<Longrightarrow> off + n \<le> g + 404 \<Longrightarrow> benign gs u off n"
  by (auto simp: benign_def)

lemma benign_rdisj:
  assumes "benign gs u off n" and "28 \<le> a" and "a + k \<le> u" and "\<And>g. g \<in> set gs \<Longrightarrow> rdisj (g, 404) (a, k)"
  shows "rdisj (off, n) (a, k)"
proof -
  consider "off + n \<le> 28" | "u \<le> off" | g where "g \<in> set gs" "g \<le> off" "off + n \<le> g + 404"
    using assms(1) by (auto simp: benign_def)
  then show ?thesis
  proof cases
    case 3
    with assms(4) [of g] show ?thesis by (auto simp: rdisj_def)
  qed (use assms in \<open>auto simp: rdisj_def\<close>)
qed

lemma cell_bytes_benign:
  assumes b: "block_ok b gs ds cols u" and st: "store off bs (sb_mem b) = Some m'" and "benign gs u off (length bs)"
    and r: "r < length ds" and c: "c < cols"
  shows "cell_bytes m' ds r c = cell_bytes (sb_mem b) ds r c"
proof -
  have "rdisj (off, length bs) (ds ! r, 12 * cols)"
  proof (rule benign_rdisj [OF assms(3)])
    show "rdisj (g, 404) (ds ! r, 12 * cols)" if "g \<in> set gs" for g
      using b r c that by (simp add: block_ok_def dirs_ok_def)
  qed (use block_dir_bounds [OF b r c] in auto)
  then have "rdisj (off, length bs) (ds ! r + 12 * c, 12)"
    by (rule rdisj_sub) (use c in auto)
  then have "load (ds ! r + 12 * c) 12 m' = Some (cell_bytes (sb_mem b) ds r c)"
    using load_store_other [OF st] block_cell_load [OF b r c] by simp
  then show ?thesis by (auto simp: load_def cell_bytes_def split: if_splits)
qed

lemma decode_store:
  assumes st: "store off bs m = Some m'"
    and "cell_kind cb = 3 \<or> cell_kind cb = 4 \<Longrightarrow> rdisj (off, length bs) (cell_off cb, cell_len cb) \<and> cell_off cb + cell_len cb \<le> length m"
  shows "decode m' cb = decode m cb"
proof (cases "cell_kind cb = 3 \<or> cell_kind cb = 4")
  case True
  then have "load (cell_off cb) (cell_len cb) m' = load (cell_off cb) (cell_len cb) m"
    using assms load_store_other [OF st] by blast
  moreover have "cell_off cb + cell_len cb \<le> length m'" "cell_off cb + cell_len cb \<le> length m"
    using True assms length_store [OF st] by auto
  ultimately have "take (cell_len cb) (drop (cell_off cb) m') = take (cell_len cb) (drop (cell_off cb) m)"
    by (simp add: load_def)
  then show ?thesis by (simp add: decode_def)
qed (simp add: decode_def)

lemma decode_benign:
  assumes b: "block_ok b gs ds cols u" and st: "store off bs (sb_mem b) = Some m'" and ben: "benign gs u off (length bs)"
    and r: "r < length ds" and c: "c < cols"
  shows "decode m' (cell_bytes m' ds r c) = decode (sb_mem b) (cell_bytes (sb_mem b) ds r c)"
proof -
  let ?cb = "cell_bytes (sb_mem b) ds r c"
  have "data_clear gs ds cols u ?cb" "u < length (sb_mem b)" using b r c by (auto simp: block_ok_def)
  then have "decode m' ?cb = decode (sb_mem b) ?cb"
    by (intro decode_store [OF st] conjI benign_rdisj [OF ben]) (auto simp: data_clear_def)
  with cell_bytes_benign [OF b st ben r c] show ?thesis by simp
qed

text \<open>A store in the header changes only the header.\<close>

lemma block_ok_header_store:
  assumes b: "block_ok b gs ds cols u" and st: "store off bs (sb_mem b) = Some m'" and hd: "off + length bs \<le> 28"
    and u: "u \<le> u'" "u' < sb_size b"
    and h: "load32 0 m' = Some (of_nat u')" "load32 4 m' = Some 28" "load32 8 m' = Some (of_nat (length ds))"
      "load32 12 m' = Some (of_nat cols)"
  shows "block_ok (b\<lparr>sb_mem := m'\<rparr>) gs ds cols u'"
proof -
  have g28: "\<forall>g \<in> set gs. 28 \<le> g" using b by (auto simp: block_ok_def groups_ok_def)
  have "groups_ok m' gs u'"
    using b hd g28 by (intro groups_ok_frame [OF _ st u(1)]) (auto simp: block_ok_def rdisj_def)
  moreover have "dirs_ok m' gs ds cols u'"
    using b hd g28 by (intro dirs_ok_frame [OF _ st u(1)]) (auto simp: block_ok_def rdisj_def)
  moreover have "benign gs u off (length bs)" using hd by (simp add: benign_def)
  then have "data_clear gs ds cols u' (cell_bytes m' ds r c)" if "r < length ds" "c < cols" for r c
    using cell_bytes_benign [OF b st _ that] b that u(1) data_clear_mono by (fastforce simp: block_ok_def)
  ultimately show ?thesis
    using b h u length_store [OF st] by (auto simp: block_ok_def hdr_def)
qed

text \<open>Two blocks show the same cells.\<close>

definition same_view :: "shared_block \<Rightarrow> shared_block \<Rightarrow> bool" where
  "same_view b b' \<longleftrightarrow> (\<forall>r c. cell_view b' r c = cell_view b r c)"

lemma same_view_refl [simp]: "same_view b b"
  by (simp add: same_view_def)

lemma same_view_trans: "same_view a b \<Longrightarrow> same_view b c \<Longrightarrow> same_view a c"
  by (simp add: same_view_def)

lemma same_view_benign:
  assumes b: "block_ok b gs ds cols u" and b': "block_ok (b\<lparr>sb_mem := m'\<rparr>) gs' ds cols u'"
    and st: "store off bs (sb_mem b) = Some m'" and ben: "benign gs u off (length bs)"
  shows "same_view b (b\<lparr>sb_mem := m'\<rparr>)"
  using decode_benign [OF b st ben]
  by (simp add: same_view_def cell_view_block [OF b] cell_view_block [OF b'])

section \<open>Allocation\<close>

lemma and_3_le: "unat (w AND 3 :: u32) \<le> 3"
proof -
  have "w AND 3 \<le> (3 :: u32)" by (rule word_and_le1)
  then show ?thesis by (simp add: word_le_nat_alt)
qed

lemma alloc_basic:
  assumes h: "hdr 0 b = Some (of_nat u)" and sz: "432 \<le> u" "u < sb_size b" "sb_size b < 2 ^ 31" "sb_size b = length (sb_mem b)"
  obtains "alloc n al b = Some (0, b)" "sb_size b \<le> u + 3 + n"
  | off m' where "u \<le> off" "off \<le> u + 3" "off + n < sb_size b" "alloc n al b = Some (of_nat off, b\<lparr>sb_mem := m'\<rparr>)"
      "store 0 (le_bytes 4 (of_nat (off + n) :: u32)) (sb_mem b) = Some m'"
proof -
  define pad :: u32 where "pad = (if al then (NOT (of_nat u) + 1) AND 3 else 0)"
  define off where "off = u + unat pad"
  have pad: "unat pad \<le> 3" by (simp add: pad_def and_3_le)
  have w: "of_nat u + pad = of_nat off" by (simp add: off_def)
  have un: "unat (of_nat u + pad) = off"
    unfolding w unat_of_nat using pad sz by (simp add: off_def)
  show thesis
  proof (cases "sb_size b \<le> off + n")
    case True
    then have "alloc n al b = Some (0, b)"
      using h un by (simp add: alloc_def block_layout pad_def [symmetric] Let_def)
    then show thesis using True pad by (intro that(1)) (simp_all add: off_def)
  next
    case False
    obtain m' where st: "store 0 (le_bytes 4 (of_nat (off + n) :: u32)) (sb_mem b) = Some m'"
      using store_ex [of 0 "le_bytes 4 (of_nat (off + n) :: u32)" "sb_mem b"] sz by auto
    have "alloc n al b = Some (of_nat off, b\<lparr>sb_mem := m'\<rparr>)"
      using h un w False st by (simp add: alloc_def block_layout pad_def [symmetric] Let_def poke32_def poke_def)
    then show thesis using that(2) [of off m'] False st pad by (simp add: off_def)
  qed
qed

lemma block_basic:
  "block_ok b gs ds cols u \<Longrightarrow> hdr 0 b = Some (of_nat u)" "block_ok b gs ds cols u \<Longrightarrow> 432 \<le> u"
  "block_ok b gs ds cols u \<Longrightarrow> u < sb_size b" "block_ok b gs ds cols u \<Longrightarrow> sb_size b < 2 ^ 31"
  "block_ok b gs ds cols u \<Longrightarrow> sb_size b = length (sb_mem b)"
  by (simp_all add: block_ok_def)

section \<open>Writing cells\<close>

lemma dirs_disjoint:
  assumes "dirs_ok m gs ds cols u" and "i < length ds" and "j < length ds" and "i \<noteq> j" and "0 < cols"
  shows "rdisj (ds ! i, 12 * cols) (ds ! j, 12 * cols)"
proof -
  have less: "rdisj (ds ! x, 12 * cols) (ds ! y, 12 * cols)" if "x < y" "y < length ds" for x y
    using assms(1,5) that by (auto simp: dirs_ok_def sorted_wrt_iff_nth_less)
  show ?thesis
  proof (cases "i < j")
    case True
    with less assms show ?thesis by blast
  next
    case False
    with less [of j i] assms show ?thesis by (simp add: rdisj_sym)
  qed
qed

lemma cells_disjoint:
  assumes b: "block_ok b gs ds cols u" and "r < length ds" "c < cols" "r' < length ds" "c' < cols" "(r', c') \<noteq> (r, c)"
  shows "rdisj (ds ! r + 12 * c, 12) (ds ! r' + 12 * c', 12)"
proof (cases "r = r'")
  case True
  then have "c < c' \<or> c' < c" using assms by auto
  with True show ?thesis by (auto simp: rdisj_def)
next
  case False
  have "rdisj (ds ! r, 12 * cols) (ds ! r', 12 * cols)"
    using b assms False by (intro dirs_disjoint) (auto simp: block_ok_def)
  then have "rdisj (ds ! r, 12 * cols) (ds ! r' + 12 * c', 12)"
    by (rule rdisj_sub) (use assms in auto)
  then have "rdisj (ds ! r' + 12 * c', 12) (ds ! r + 12 * c, 12)"
    unfolding rdisj_sym [of "(ds ! r, 12 * cols)"] by (rule rdisj_sub) (use assms in auto)
  then show ?thesis by (simp add: rdisj_sym)
qed

lemma cell_clear_of_group:
  assumes b: "block_ok b gs ds cols u" and "r < length ds" "c < cols" "g \<in> set gs"
  shows "rdisj (ds ! r + 12 * c, 12) (g, 404)"
proof -
  have "rdisj (g, 404) (ds ! r, 12 * cols)" using assms by (simp add: block_ok_def dirs_ok_def)
  then have "rdisj (g, 404) (ds ! r + 12 * c, 12)" by (rule rdisj_sub) (use assms in auto)
  then show ?thesis by (simp add: rdisj_sym)
qed

lemma data_clear_of_cell:
  assumes "data_clear gs ds cols u cb" and "cell_kind cb = 3 \<or> cell_kind cb = 4" and "r < length ds" "c < cols"
  shows "rdisj (ds ! r + 12 * c, 12) (cell_off cb, cell_len cb)"
proof -
  have "rdisj (cell_off cb, cell_len cb) (ds ! r, 12 * cols)"
    using assms by (simp add: data_clear_def rdisj_sym)
  then have "rdisj (cell_off cb, cell_len cb) (ds ! r + 12 * c, 12)" by (rule rdisj_sub) (use assms in auto)
  then show ?thesis by (simp add: rdisj_sym)
qed

lemma cell_bytes_store:
  assumes b: "block_ok b gs ds cols u" and r: "r < length ds" and c: "c < cols"
    and st: "store (ds ! r + 12 * c) bs (sb_mem b) = Some m'" and len: "length bs = 12"
    and r': "r' < length ds" and c': "c' < cols"
  shows "cell_bytes m' ds r' c' = (if (r', c') = (r, c) then bs else cell_bytes (sb_mem b) ds r' c')"
proof -
  have "load (ds ! r' + 12 * c') 12 m' = Some (if (r', c') = (r, c) then bs else cell_bytes (sb_mem b) ds r' c')"
  proof (cases "(r', c') = (r, c)")
    case True
    with load_store_same [OF st] len show ?thesis by simp
  next
    case False
    then have "load (ds ! r' + 12 * c') 12 m' = Some (cell_bytes (sb_mem b) ds r' c')"
      using load_store_other [OF st] cells_disjoint [OF b r c r' c'] len block_cell_load [OF b r' c'] by simp
    with False show ?thesis by (simp only: if_False)
  qed
  then show ?thesis by (auto simp: load_def cell_bytes_def split: if_splits)
qed

lemma block_ok_cell_store:
  assumes b: "block_ok b gs ds cols u" and r: "r < length ds" and c: "c < cols"
    and st: "store (ds ! r + 12 * c) bs (sb_mem b) = Some m'" and len: "length bs = 12"
    and clear: "data_clear gs ds cols u bs"
  shows "block_ok (b\<lparr>sb_mem := m'\<rparr>) gs ds cols u"
proof -
  have dj: "rdisj (ds ! r + 12 * c, length bs) (g + a, k)" if "g \<in> set gs" "a + k \<le> 404" for g a k
    unfolding len by (rule rdisj_sub [OF cell_clear_of_group [OF b r c that(1)]]) (use that(2) in auto)
  have hdrs: "load32 a m' = load32 a (sb_mem b)" if "a + 4 \<le> 28" for a
    using that block_dir_bounds(1) [OF b r c] by (intro load32_store_other [OF st]) (auto simp: rdisj_def)
  have "groups_ok m' gs u"
    using b dj [of _ 400 4] by (intro groups_ok_frame [OF _ st]) (auto simp: block_ok_def)
  moreover have "dirs_ok m' gs ds cols u"
    using b dj [of _ 0 400] by (intro dirs_ok_frame [OF _ st]) (auto simp: block_ok_def)
  moreover have "data_clear gs ds cols u (cell_bytes m' ds r' c')" if "r' < length ds" "c' < cols" for r' c'
    using b clear that cell_bytes_store [OF b r c st len that] by (simp add: block_ok_def)
  ultimately show ?thesis
    using b hdrs length_store [OF st] by (simp add: block_ok_def hdr_def)
qed

lemma cell_view_cell_store:
  assumes b: "block_ok b gs ds cols u" and r: "unat row < length ds" and c: "unat col < cols"
    and st: "store (ds ! unat row + 12 * unat col) bs (sb_mem b) = Some m'" and len: "length bs = 12"
    and clear: "data_clear gs ds cols u bs"
  shows "cell_view (b\<lparr>sb_mem := m'\<rparr>) r' c' =
    (if (r', c') = (row, col) then Some (decode (sb_mem b) bs) else cell_view b r' c')"
proof -
  have dec: "decode m' cb = decode (sb_mem b) cb" if "data_clear gs ds cols u cb" for cb
    using that b
    by (intro decode_store [OF st]) (use data_clear_of_cell [OF that _ r c] len in \<open>auto simp: data_clear_def block_ok_def\<close>)
  have "unat r' = unat row \<longleftrightarrow> r' = row" "unat c' = unat col \<longleftrightarrow> c' = col"
    by (simp_all add: word_unat_eq_iff)
  moreover have "data_clear gs ds cols u (cell_bytes (sb_mem b) ds (unat r') (unat c'))"
    if "unat r' < length ds" "unat c' < cols" using b that by (simp add: block_ok_def)
  ultimately show ?thesis
    using r c dec clear cell_bytes_store [OF b r c st len, of "unat r'" "unat c'"]
    by (auto simp: cell_view_block [OF b] cell_view_block [OF block_ok_cell_store [OF b r c st len clear]])
qed

text \<open>Every fixed-size put, in range and out of range.\<close>

lemma put_cell_block:
  assumes b: "block_ok b gs ds cols u" and ro: "\<not> sb_read_only b" and len: "length v = 8"
    and kind: "kind \<noteq> 3" "kind \<noteq> 4"
  shows "if unat row < length ds \<and> unat col < cols
    then \<exists>b'. put_cell row col kind v b = Some (SHARED_BLOCK_OK, b') \<and> block_ok b' gs ds cols u \<and> sb_read_only b' = sb_read_only b
      \<and> (\<forall>r c. cell_view b' r c = (if (r, c) = (row, col) then Some (decode [] (le_bytes 4 kind @ v)) else cell_view b r c))
    else put_cell row col kind v b = Some (SHARED_BLOCK_BAD_VALUE, b)"
proof (cases "unat row < length ds \<and> unat col < cols")
  case False
  then have "get_cell_unit b row col = Some None" by (simp only: get_cell_unit_block [OF b] if_False)
  then have "put_cell row col kind v b = Some (SHARED_BLOCK_BAD_VALUE, b)" using ro by (simp add: put_cell_def)
  then show ?thesis by (simp only: False if_False)
next
  case True
  let ?bs = "le_bytes 4 kind @ v"
  have k: "cell_kind ?bs = kind" by (simp add: cell_kind_def le_word_le_bytes)
  have "data_clear gs ds cols u ?bs" using k kind by (simp add: data_clear_def)
  moreover obtain m' where st: "store (ds ! unat row + 12 * unat col) ?bs (sb_mem b) = Some m'"
    using store_ex [of "ds ! unat row + 12 * unat col" ?bs "sb_mem b"] True block_dir_bounds [OF b, of "unat row" "unat col"] b len
    by (auto simp: block_ok_def)
  moreover have "get_cell_unit b row col = Some (Some (ds ! unat row + 12 * unat col))"
    by (simp only: get_cell_unit_block [OF b] if_P [OF True])
  then have "put_cell row col kind v b = Some (SHARED_BLOCK_OK, b\<lparr>sb_mem := m'\<rparr>)"
    using ro st by (simp add: put_cell_def poke_def)
  moreover have "decode (sb_mem b) ?bs = decode [] ?bs" using k kind by (simp add: decode_def)
  ultimately show ?thesis
    using True len block_ok_cell_store [OF b _ _ st] cell_view_cell_store [OF b _ _ st] by auto
qed

section \<open>Strings and blobs\<close>

lemma nth_store:
  "store a x m = Some m' \<Longrightarrow> i < length m \<Longrightarrow> m' ! i = (if a \<le> i \<and> i < a + length x then x ! (i - a) else m ! i)"
  by (auto simp: store_Some nth_append)

lemma store_commute:
  assumes a: "store a x m = Some m1" and b: "store c y m1 = Some m2" and d: "rdisj (a, length x) (c, length y)"
  shows "\<exists>m1'. store c y m = Some m1' \<and> store a x m1' = Some m2"
proof -
  have lens: "a + length x \<le> length m" "c + length y \<le> length m" "length m1 = length m" "length m2 = length m"
    using a b length_store [OF a] length_store [OF b] by (simp_all add: store_Some)
  obtain m1' where 1: "store c y m = Some m1'" using store_ex lens(2) by blast
  then have "length m1' = length m" by (rule length_store)
  then obtain m2' where 2: "store a x m1' = Some m2'" using store_ex [of a x m1'] lens(1) by auto
  have "m2' = m2"
  proof (rule nth_equalityI)
    show "length m2' = length m2" using length_store [OF 2] lens \<open>length m1' = length m\<close> by simp
    fix i assume "i < length m2'"
    then have "i < length m" using length_store [OF 2] \<open>length m1' = length m\<close> by simp
    then show "m2' ! i = m2 ! i"
      using nth_store [OF a, of i] nth_store [OF b, of i] nth_store [OF 1, of i] nth_store [OF 2, of i] lens d
        \<open>length m1' = length m\<close>
      by (auto simp: rdisj_def)
  qed
  with 1 2 show ?thesis by blast
qed

lemma block_ok_fresh_store:
  assumes b: "block_ok b gs ds cols u" and st: "store off bs (sb_mem b) = Some m'" and fresh: "u \<le> off"
  shows "block_ok (b\<lparr>sb_mem := m'\<rparr>) gs ds cols u" and "same_view b (b\<lparr>sb_mem := m'\<rparr>)"
proof -
  have g: "\<forall>g \<in> set gs. g + 404 \<le> off" using b fresh by (fastforce simp: block_ok_def groups_ok_def)
  have "groups_ok m' gs u"
    using b g by (intro groups_ok_frame [OF _ st]) (auto simp: block_ok_def rdisj_def)
  moreover have "dirs_ok m' gs ds cols u"
    using b g by (intro dirs_ok_frame [OF _ st]) (auto simp: block_ok_def rdisj_def)
  moreover have ben: "benign gs u off (length bs)" using fresh by (simp add: benign_def)
  then have "data_clear gs ds cols u (cell_bytes m' ds r c)" if "r < length ds" "c < cols" for r c
    using cell_bytes_benign [OF b st _ that] b that by (fastforce simp: block_ok_def)
  moreover have "load32 a m' = load32 a (sb_mem b)" if "a + 4 \<le> 28" for a
    using that fresh b by (intro load32_store_other [OF st]) (auto simp: rdisj_def block_ok_def)
  ultimately show ok: "block_ok (b\<lparr>sb_mem := m'\<rparr>) gs ds cols u"
    using b length_store [OF st] by (simp add: block_ok_def hdr_def)
  show "same_view b (b\<lparr>sb_mem := m'\<rparr>)" by (rule same_view_benign [OF b ok st ben])
qed

text \<open>Filling what was just allocated.\<close>

lemma alloc_fill:
  assumes b: "block_ok b gs ds cols u" and off: "u \<le> off" "off + n < sb_size b"
    and h: "store 0 (le_bytes 4 (of_nat (off + n) :: u32)) (sb_mem b) = Some m1"
    and d: "store a bs m1 = Some m2" "off \<le> a" "a + length bs \<le> off + n"
  shows "block_ok (b\<lparr>sb_mem := m2\<rparr>) gs ds cols (off + n)" and "same_view b (b\<lparr>sb_mem := m2\<rparr>)"
proof -
  have "432 \<le> u" using b by (simp add: block_ok_def)
  then have "rdisj (0, length (le_bytes 4 (of_nat (off + n) :: u32))) (a, length bs)" using off d by (simp add: rdisj_def)
  then obtain m' where m': "store a bs (sb_mem b) = Some m'" "store 0 (le_bytes 4 (of_nat (off + n) :: u32)) m' = Some m2"
    using store_commute [OF h d(1)] by blast
  let ?b = "b\<lparr>sb_mem := m'\<rparr>"
  have ok: "block_ok ?b gs ds cols u" and v: "same_view b ?b"
    using block_ok_fresh_store [OF b m'(1)] off d by auto
  have st: "store 0 (le_bytes 4 (of_nat (off + n) :: u32)) (sb_mem ?b) = Some m2" using m'(2) by simp
  have ok2: "block_ok (?b\<lparr>sb_mem := m2\<rparr>) gs ds cols (off + n)"
  proof (rule block_ok_header_store [OF ok st])
    show "load32 0 m2 = Some (of_nat (off + n))" by (rule load32_store_same [OF m'(2)])
  qed (use ok off in \<open>auto simp: block_ok_def hdr_def load32_store_other [OF m'(2)] rdisj_def\<close>)
  then show "block_ok (b\<lparr>sb_mem := m2\<rparr>) gs ds cols (off + n)" by simp
  have "same_view ?b (?b\<lparr>sb_mem := m2\<rparr>)"
    by (rule same_view_benign [OF ok ok2 st]) (simp add: benign_def)
  with v show "same_view b (b\<lparr>sb_mem := m2\<rparr>)" using same_view_trans by fastforce
qed

lemma cell_fields:
  fixes kind :: i32 and off len :: u32
  shows "cell_kind (le_bytes 4 kind @ le_bytes 4 off @ le_bytes 4 len) = kind"
    "cell_off (le_bytes 4 kind @ le_bytes 4 off @ le_bytes 4 len) = unat off"
    "cell_len (le_bytes 4 kind @ le_bytes 4 off @ le_bytes 4 len) = unat len"
  by (simp_all add: cell_kind_def cell_off_def cell_len_def le_word_le_bytes)

lemma fresh_data_clear:
  assumes b: "block_ok b gs ds cols u" and "u \<le> off" "off + n < sb_size b" and "0 < cols"
  shows "data_clear gs ds cols (off + n) (le_bytes 4 (kind :: i32) @ le_bytes 4 (of_nat off :: u32) @ le_bytes 4 (of_nat n :: u32))"
proof -
  have "unat (of_nat off :: u32) = off" "unat (of_nat n :: u32) = n"
    using assms by (simp_all add: block_ok_def unat_small)
  moreover have "g + 404 \<le> off" if "g \<in> set gs" for g
    using b that assms(2) by (fastforce simp: block_ok_def groups_ok_def)
  moreover have "d + 12 * cols \<le> off" if "d \<in> set ds" for d
    using b that assms(2,4) by (fastforce simp: block_ok_def dirs_ok_def)
  moreover have "432 \<le> off" using b assms(2) by (simp add: block_ok_def)
  ultimately show ?thesis by (simp add: data_clear_def cell_fields rdisj_def)
qed

lemma put_data_block:
  assumes b: "block_ok b gs ds cols u" and ro: "\<not> sb_read_only b" and kind: "kind = 3 \<or> kind = 4"
    and rc: "unat row < length ds" "unat col < cols"
  shows "put_blob_or_string row col (Some d) (length d) kind b = Some (SHARED_BLOCK_NO_MEMORY, b) \<and> sb_size b \<le> u + 3 + length d
    \<or> (\<exists>b' u'. put_blob_or_string row col (Some d) (length d) kind b = Some (SHARED_BLOCK_OK, b')
        \<and> block_ok b' gs ds cols u' \<and> sb_read_only b' = sb_read_only b
        \<and> (\<forall>r c. cell_view b' r c =
              (if (r, c) = (row, col) then Some (if kind = 3 then CString d else CBlob d) else cell_view b r c)))"
proof -
  let ?p = "ds ! unat row + 12 * unat col"
  have p: "get_cell_unit b row col = Some (Some ?p)"
    using rc by (simp add: get_cell_unit_block [OF b])
  show ?thesis
  proof (rule alloc_basic [OF block_basic [OF b], of "length d" False])
    assume "alloc (length d) False b = Some (0, b)" "sb_size b \<le> u + 3 + length d"
    then have "put_blob_or_string row col (Some d) (length d) kind b = Some (SHARED_BLOCK_NO_MEMORY, b) \<and> sb_size b \<le> u + 3 + length d"
      using p ro by (simp add: put_blob_or_string_def)
    then show ?thesis ..
  next
    fix off m1
    assume off: "u \<le> off" "off + length d < sb_size b"
      and al: "alloc (length d) False b = Some (of_nat off, b\<lparr>sb_mem := m1\<rparr>)"
      and h: "store 0 (le_bytes 4 (of_nat (off + length d) :: u32)) (sb_mem b) = Some m1"
    let ?u = "off + length d"
    have sz: "sb_mapped b" "sb_size b < 2 ^ 31" "length m1 = sb_size b" "432 \<le> u"
      using b length_store [OF h] by (auto simp: block_ok_def)
    obtain m2 where m2: "store off d m1 = Some m2" using store_ex [of off d m1] off sz by auto
    let ?b2 = "b\<lparr>sb_mem := m2\<rparr>"
    have ok2: "block_ok ?b2 gs ds cols ?u" and v2: "same_view b ?b2"
      using alloc_fill [OF b off h m2] by auto
    let ?bs = "le_bytes 4 kind @ le_bytes 4 (of_nat off :: u32) @ le_bytes 4 (of_nat (length d) :: u32)"
    have cl: "data_clear gs ds cols ?u ?bs" using fresh_data_clear [OF b off] rc by simp
    have pb: "?p + 12 \<le> ?u" "?u < length m2"
      using block_dir_bounds [OF ok2 rc] ok2 by (auto simp: block_ok_def)
    then obtain m3 where m3: "store ?p ?bs m2 = Some m3" using store_ex [of ?p ?bs m2] by auto
    have m3': "store ?p ?bs (sb_mem ?b2) = Some m3" using m3 by simp
    have un: "unat (of_nat off :: u32) = off" "unat (of_nat (length d) :: u32) = length d" "(of_nat off :: u32) \<noteq> 0"
      using off sz by (auto simp: unat_small word_unat_eq_iff)
    have fill: "(if length d \<noteq> 0 then poke off (take (length d) d) (b\<lparr>sb_mem := m1\<rparr>) else Some (b\<lparr>sb_mem := m1\<rparr>)) = Some ?b2"
      using m2 by (auto simp: poke_def store_Some)
    have "offset_to_ptr (b\<lparr>sb_mem := m1\<rparr>) (of_nat off) (of_nat (length d)) = Some off"
      using offset_to_ptr_in [of "b\<lparr>sb_mem := m1\<rparr>" off "length d"] off sz by simp
    then have put: "put_blob_or_string row col (Some d) (length d) kind b = Some (SHARED_BLOCK_OK, b\<lparr>sb_mem := m3\<rparr>)"
      using p ro al un fill m3 by (simp add: put_blob_or_string_def poke_def)
    have dec: "decode m2 ?bs = (if kind = 3 then CString d else CBlob d)"
      using kind load_store_same [OF m2] un by (auto simp: decode_def cell_fields load_def split: if_splits)
    have "cell_view (?b2\<lparr>sb_mem := m3\<rparr>) r c =
        (if (r, c) = (row, col) then Some (decode (sb_mem ?b2) ?bs) else cell_view ?b2 r c)" for r c
      by (rule cell_view_cell_store [OF ok2 rc m3' _ cl]) simp
    then have "\<forall>r c. cell_view (b\<lparr>sb_mem := m3\<rparr>) r c =
        (if (r, c) = (row, col) then Some (if kind = 3 then CString d else CBlob d) else cell_view b r c)"
      unfolding dec [symmetric] using v2 by (simp add: same_view_def)
    moreover have "block_ok (b\<lparr>sb_mem := m3\<rparr>) gs ds cols ?u"
      using block_ok_cell_store [OF ok2 rc m3' _ cl] by simp
    ultimately show ?thesis using put by auto
  qed
qed

section \<open>Row bookkeeping\<close>

lemma groups_disjoint:
  assumes "groups_ok m gs u" and "i < length gs" and "j < length gs" and "i \<noteq> j"
  shows "rdisj (gs ! i, 404) (gs ! j, 404)"
proof -
  have less: "rdisj (gs ! x, 404) (gs ! y, 404)" if "x < y" "y < length gs" for x y
    using assms(1) that by (auto simp: groups_ok_def sorted_wrt_iff_nth_less)
  show ?thesis
  proof (cases "i < j")
    case True
    with less assms show ?thesis by blast
  next
    case False
    with less [of j i] assms show ?thesis by (simp add: rdisj_sym)
  qed
qed

lemma slots_disjoint:
  assumes "groups_ok m gs u" and "i < 100 * length gs" "j < 100 * length gs" "i \<noteq> j"
  shows "rdisj (slot gs i, 4) (slot gs j, 4)"
proof (cases "i div 100 = j div 100")
  case True
  then have "i mod 100 \<noteq> j mod 100" using assms(4) by (metis div_mult_mod_eq)
  then show ?thesis using True by (auto simp: slot_def rdisj_def)
next
  case False
  then have "rdisj (gs ! (i div 100), 404) (gs ! (j div 100), 404)"
    using assms by (intro groups_disjoint) auto
  moreover have "i mod 100 < 100" "j mod 100 < 100" by simp_all
  ultimately show ?thesis unfolding slot_def rdisj_def fst_conv snd_conv by linarith
qed

lemma slot_clear_of_next:
  assumes "groups_ok m gs u" and "i < 100 * length gs" and "g \<in> set gs"
  shows "rdisj (slot gs i, 4) (g + 400, 4)"
proof -
  obtain k where k: "k < length gs" "g = gs ! k" using assms(3) by (auto simp: in_set_conv_nth)
  show ?thesis
  proof (cases "i div 100 = k")
    case True
    then show ?thesis using k by (auto simp: slot_def rdisj_def)
  next
    case False
    then have "rdisj (gs ! (i div 100), 404) (gs ! k, 404)"
      using assms k by (intro groups_disjoint) auto
    moreover have "i mod 100 < 100" by simp
    ultimately show ?thesis unfolding k(2) slot_def rdisj_def fst_conv snd_conv by linarith
  qed
qed

lemma dirs_ok_take: "dirs_ok m gs ds cols u \<Longrightarrow> dirs_ok m gs (take k ds) cols u"
  using set_take_subset [of k ds] by (auto simp: dirs_ok_def take_map [symmetric] sorted_wrt_take)

lemma data_clear_subset:
  "data_clear gs ds cols u bs \<Longrightarrow> set gs' \<subseteq> set gs \<Longrightarrow> set ds' \<subseteq> set ds \<Longrightarrow> data_clear gs' ds' cols u bs"
  by (fastforce simp: data_clear_def)

lemma block_ok_drop_rows:
  assumes b: "block_ok b gs ds cols u" and st: "store 8 (le_bytes 4 (of_nat k :: u32)) (sb_mem b) = Some m'" and k: "k \<le> length ds"
  shows "block_ok (b\<lparr>sb_mem := m'\<rparr>) gs (take k ds) cols u"
    and "cell_view (b\<lparr>sb_mem := m'\<rparr>) r c = (if unat r < k then cell_view b r c else None)"
proof -
  have g28: "\<forall>g \<in> set gs. 28 \<le> g" using b by (auto simp: block_ok_def groups_ok_def)
  have ben: "benign gs u 8 (length (le_bytes 4 (of_nat k :: u32)))" by (simp add: benign_def)
  have "groups_ok m' gs u"
    using b g28 by (intro groups_ok_frame [OF _ st]) (auto simp: block_ok_def rdisj_def)
  moreover have "dirs_ok m' gs ds cols u"
    using b g28 by (intro dirs_ok_frame [OF _ st]) (auto simp: block_ok_def rdisj_def)
  moreover have cb: "cell_bytes m' (take k ds) r c = cell_bytes (sb_mem b) ds r c" if "r < k" "c < cols" for r c
    using cell_bytes_benign [OF b st ben, of r c] that k by (simp add: cell_bytes_def)
  moreover have "data_clear gs (take k ds) cols u (cell_bytes (sb_mem b) ds r c)" if "r < k" "c < cols" for r c
    using b that k data_clear_subset [of gs ds cols u _ gs "take k ds"] set_take_subset [of k ds] by (simp add: block_ok_def)
  ultimately show ok: "block_ok (b\<lparr>sb_mem := m'\<rparr>) gs (take k ds) cols u"
    using b k length_store [OF st] load32_store_same [OF st] dirs_ok_take
    by (simp add: block_ok_def hdr_def load32_store_other [OF st] rdisj_def min.absorb2)
  show "cell_view (b\<lparr>sb_mem := m'\<rparr>) r c = (if unat r < k then cell_view b r c else None)"
    using k decode_benign [OF b st ben, of "unat r" "unat c"] cb [of "unat r" "unat c"] cell_bytes_benign [OF b st ben, of "unat r" "unat c"]
    by (auto simp: cell_view_block [OF b] cell_view_block [OF ok])
qed

lemma free_last_row_block:
  assumes b: "block_ok b gs ds cols u" and ro: "\<not> sb_read_only b"
  shows "\<exists>b'. free_last_row b = Some (SHARED_BLOCK_OK, b') \<and> block_ok b' gs (butlast ds) cols u \<and> sb_read_only b' = sb_read_only b
    \<and> (\<forall>r c. cell_view b' r c = (if unat r < length ds - 1 then cell_view b r c else None))"
proof (cases "ds = []")
  case True
  then show ?thesis
    using b ro by (auto simp: free_last_row_def drop_last_row_def block_layout block_ok_def cell_view_block [OF b])
next
  case False
  then have n: "0 < length ds" "length ds < 2 ^ 31" using block_rows_small [OF b] by auto
  obtain m' where st: "store 8 (le_bytes 4 (of_nat (length ds - 1) :: u32)) (sb_mem b) = Some m'"
    using store_ex [of 8 "le_bytes 4 (of_nat (length ds - 1) :: u32)" "sb_mem b"] b by (auto simp: block_ok_def)
  have "(of_nat (length ds) :: u32) > 0" using n by (simp add: word_less_nat_alt unat_small)
  moreover have "(of_nat (length ds) :: u32) - 1 = of_nat (length ds - 1)" using n by (cases "length ds") simp_all
  ultimately have "free_last_row b = Some (SHARED_BLOCK_OK, b\<lparr>sb_mem := m'\<rparr>)"
    using b ro st by (simp add: free_last_row_def drop_last_row_def block_layout block_ok_def poke32_def poke_def)
  then show ?thesis
    using block_ok_drop_rows [OF b st] by (auto simp: butlast_conv_take)
qed

end
