(* ===== verification/Block_Rows.thy ===== *)
theory Block_Rows
  imports Block_Layout
begin

text \<open>
  Rows of the shared block: entering a new row group, allocating a row, creating and clearing a
  block. Together with \<open>Block_Layout\<close> this gives the refinement of the abstract table by the byte
  layout, stated at the end for every mutator.
\<close>

section \<open>The allocation walk\<close>

lemma pred_mod_div:
  fixes n k :: nat
  shows "n mod k \<noteq> 0 \<Longrightarrow> (n - 1) mod k + 1 = n mod k \<and> (n - 1) div k = n div k"
  by (cases n) (auto simp: mod_Suc div_Suc split: if_splits)

lemma alloc_row_walk_groups:
  assumes "block_ok b gs ds cols u"
  shows "k < length gs \<Longrightarrow> row_pos \<le> 100 * (length gs - k) \<Longrightarrow>
    alloc_row_walk b row_pos (gs ! k) =
      Some (Some (if row_pos = 0 then (0, gs ! k)
                  else ((row_pos - 1) mod 100 + 1, gs ! (k + (row_pos - 1) div 100))))"
proof (induction row_pos arbitrary: k rule: less_induct)
  case (less row_pos)
  show ?case
  proof (cases "100 < row_pos")
    case False
    then show ?thesis by (cases "row_pos = 0") (simp_all add: alloc_row_walk.simps)
  next
    case True
    then have k: "Suc k < length gs" using less.prems by (cases "Suc k < length gs") (auto simp: not_less)
    moreover have "row_pos - 100 \<le> 100 * (length gs - Suc k)" using less.prems True by simp
    ultimately have "alloc_row_walk b (row_pos - 100) (gs ! Suc k) =
        Some (Some ((row_pos - 100 - 1) mod 100 + 1, gs ! (Suc k + (row_pos - 100 - 1) div 100)))"
      using less.IH [of "row_pos - 100" "Suc k"] True by simp
    moreover have "Suc k + (row_pos - 100 - 1) div 100 = k + (row_pos - 1) div 100"
      "(row_pos - 100 - 1) mod 100 = (row_pos - 1) mod 100"
    proof -
      have e: "row_pos - 100 - 1 = (row_pos - 1) - 100" and ge: "100 \<le> row_pos - 1" using True by simp_all
      show "Suc k + (row_pos - 100 - 1) div 100 = k + (row_pos - 1) div 100"
        unfolding e using ge by (subst le_div_geq [of 100 "row_pos - 1"]) simp_all
      show "(row_pos - 100 - 1) mod 100 = (row_pos - 1) mod 100"
        unfolding e using ge by (subst le_mod_geq [of 100 "row_pos - 1"]) simp_all
    qed
    ultimately have "alloc_row_walk b (row_pos - 100) (gs ! Suc k) =
        Some (Some ((row_pos - 1) mod 100 + 1, gs ! (k + (row_pos - 1) div 100)))"
      by (simp only:)
    then show ?thesis
      using True block_next_group [OF assms k] by (subst alloc_row_walk.simps) simp
  qed
qed

section \<open>Entering a group\<close>

lemma block_ok_cut_groups:
  assumes b: "block_ok b gs ds cols u" and k: "k < length gs" and rows: "length ds \<le> 100 * Suc k"
    and st: "store (gs ! k + 400) (le_bytes 4 (0 :: u32)) (sb_mem b) = Some m'"
  shows "block_ok (b\<lparr>sb_mem := m'\<rparr>) (take (Suc k) gs) ds cols u"
proof -
  have g: "groups_ok (sb_mem b) gs u" and d: "dirs_ok (sb_mem b) gs ds cols u" using b by (auto simp: block_ok_def)
  have dj: "rdisj (gs ! k + 400, 4) (gs ! i + a, n)" if "i < length gs" "i \<noteq> k \<or> a + n \<le> 400" "a + n \<le> 404" for i a n
  proof (cases "i = k")
    case True
    then show ?thesis using that by (auto simp: rdisj_def)
  next
    case False
    then have "rdisj (gs ! k, 404) (gs ! i, 404)" using groups_disjoint [OF g k that(1)] by simp
    then show ?thesis using that by (auto simp: rdisj_def)
  qed
  have "load32 (gs ! i + 400) m' = Some (of_nat (gs ! Suc i))" if "Suc i < length gs" "i < k" for i
    using g that dj [of i 400 4] load32_store_other [OF st] by (simp add: groups_ok_def)
  moreover have "last (take (Suc k) gs) = gs ! k" using k by (simp add: take_Suc_conv_app_nth)
  ultimately have "groups_ok m' (take (Suc k) gs) u"
    using g k load32_store_same [OF st] set_take_subset [of "Suc k" gs]
    by (auto simp: groups_ok_def take_map [symmetric] sorted_wrt_take)
  moreover have "dirs_ok m' (take (Suc k) gs) ds cols u"
  proof -
    have "load32 (slot (take (Suc k) gs) i) m' = load32 (slot gs i) (sb_mem b)" if "i < length ds" for i
    proof -
      have i: "i div 100 < Suc k" "i div 100 < length gs" "i mod 100 < 100" using that rows d k by (auto simp: dirs_ok_def)
      then have "rdisj (gs ! k + 400, 4) (gs ! (i div 100) + 4 * (i mod 100), 4)" by (intro dj) auto
      then show ?thesis using i load32_store_other [OF st] by (simp add: slot_def)
    qed
    then show ?thesis
      using d rows k set_take_subset [of "Suc k" gs] by (auto simp: dirs_ok_def)
  qed
  moreover have ben: "benign gs u (gs ! k + 400) (length (le_bytes 4 (0 :: u32)))"
    by (rule benign_group [OF nth_mem [OF k]]) simp_all
  then have "data_clear (take (Suc k) gs) ds cols u (cell_bytes m' ds r c)" if "r < length ds" "c < cols" for r c
    using cell_bytes_benign [OF b st ben that] b that data_clear_subset [of gs ds cols u _ "take (Suc k) gs" ds]
      set_take_subset [of "Suc k" gs] by (simp add: block_ok_def)
  moreover have "28 \<le> gs ! k" using g k by (simp add: groups_ok_def)
  ultimately show ?thesis
    using b length_store [OF st] by (simp add: block_ok_def hdr_def load32_store_other [OF st] rdisj_def)
qed

lemma block_ok_add_group:
  assumes b: "block_ok b gs ds cols u" and off: "u \<le> off" "off + 404 < sb_size b"
    and z: "load32 (off + 400) (sb_mem b) = Some 0"
    and h: "store 0 (le_bytes 4 (of_nat (off + 404) :: u32)) (sb_mem b) = Some m1"
    and l: "store (last gs + 400) (le_bytes 4 (of_nat off :: u32)) m1 = Some m2"
  shows "block_ok (b\<lparr>sb_mem := m2\<rparr>) (gs @ [off]) ds cols (off + 404)" and "same_view b (b\<lparr>sb_mem := m2\<rparr>)"
proof -
  let ?b1 = "b\<lparr>sb_mem := m1\<rparr>" and ?u = "off + 404"
  have g: "groups_ok (sb_mem b) gs u" and d: "dirs_ok (sb_mem b) gs ds cols u" and u: "432 \<le> u"
    using b by (auto simp: block_ok_def)
  have ok1: "block_ok ?b1 gs ds cols ?u"
  proof (rule block_ok_header_store [OF b h])
    show "load32 0 m1 = Some (of_nat ?u)" by (rule load32_store_same [OF h])
  qed (use b off in \<open>auto simp: block_ok_def hdr_def load32_store_other [OF h] rdisj_def\<close>)
  then have g1: "groups_ok m1 gs ?u" and d1: "dirs_ok m1 gs ds cols ?u" by (auto simp: block_ok_def)
  have gb: "28 \<le> x \<and> x + 404 \<le> off" if "x \<in> set gs" for x using g that off by (fastforce simp: groups_ok_def)
  have lst: "last gs \<in> set gs" "gs \<noteq> []" using g by (auto simp: groups_ok_def)
  have lk: "last gs = gs ! (length gs - 1)" using lst by (simp add: last_conv_nth)
  have st1: "store (last gs + 400) (le_bytes 4 (of_nat off :: u32)) (sb_mem ?b1) = Some m2" using l by simp
  have dj: "rdisj (last gs + 400, 4) (gs ! i + a, n)" if "i < length gs" "i \<noteq> length gs - 1 \<or> a + n \<le> 400" "a + n \<le> 404" for i a n
  proof (cases "i = length gs - 1")
    case True
    then show ?thesis using that by (auto simp: rdisj_def lk)
  next
    case False
    then have "rdisj (gs ! (length gs - 1), 404) (gs ! i, 404)" using groups_disjoint [OF g _ that(1)] lst by auto
    then show ?thesis using that by (auto simp: rdisj_def lk)
  qed
  have next_old: "load32 (gs ! i + 400) m2 = Some (of_nat (gs ! Suc i))" if "Suc i < length gs" for i
    using g1 that dj [of i 400 4] load32_store_other [OF l] by (simp add: groups_ok_def)
  have next_all: "load32 ((gs @ [off]) ! i + 400) m2 = Some (of_nat ((gs @ [off]) ! Suc i))" if "Suc i < length (gs @ [off])" for i
  proof (cases "Suc i < length gs")
    case True
    with next_old show ?thesis by (simp add: nth_append)
  next
    case False
    with that have "i = length gs - 1" "Suc i = length gs" by auto
    with load32_store_same [OF l] lk show ?thesis by (simp add: nth_append)
  qed
  have last0: "load32 (off + 400) m2 = Some 0"
    using z load32_store_other [OF h, of "off + 400"] load32_store_other [OF l, of "off + 400"] gb [OF lst(1)] off
    by (simp add: rdisj_def)
  have "groups_ok m2 (gs @ [off]) ?u"
    using g gb off u next_all last0 unfolding groups_ok_def
    by (auto simp: sorted_wrt_append rdisj_def)
  moreover have "dirs_ok m2 (gs @ [off]) ds cols ?u"
  proof -
    have "load32 (slot (gs @ [off]) i) m2 = load32 (slot gs i) m1" if "i < length ds" for i
    proof -
      have i: "i div 100 < length gs" "i mod 100 < 100" using that d by (auto simp: dirs_ok_def)
      then have "rdisj (last gs + 400, 4) (gs ! (i div 100) + 4 * (i mod 100), 4)" by (intro dj) auto
      then show ?thesis using i load32_store_other [OF l] by (simp add: slot_def nth_append)
    qed
    moreover have "rdisj (off, 404) (x, 12 * cols)" if "x \<in> set ds" "0 < cols" for x
      using d that off by (fastforce simp: dirs_ok_def rdisj_def)
    ultimately show ?thesis using d1 by (auto simp: dirs_ok_def)
  qed
  moreover have ben: "benign gs ?u (last gs + 400) (length (le_bytes 4 (of_nat off :: u32)))"
    by (rule benign_group [OF lst(1)]) simp_all
  moreover have "data_clear (gs @ [off]) ds cols ?u (cell_bytes m2 ds r c)" if rc: "r < length ds" "c < cols" for r c
  proof -
    have "cell_bytes m2 ds r c = cell_bytes (sb_mem b) ds r c"
      using cell_bytes_benign [OF ok1 st1 ben rc] cell_bytes_benign [OF b h _ rc] by (simp add: benign_def)
    moreover have "data_clear gs ds cols u (cell_bytes (sb_mem b) ds r c)" using b rc by (simp add: block_ok_def)
    ultimately show ?thesis using off by (auto simp: data_clear_def rdisj_def)
  qed
  moreover have "28 \<le> last gs" using gb lst by blast
  ultimately show ok2: "block_ok (b\<lparr>sb_mem := m2\<rparr>) (gs @ [off]) ds cols ?u"
    using ok1 length_store [OF l] by (simp add: block_ok_def hdr_def load32_store_other [OF l] rdisj_def)
  have "same_view b ?b1" by (rule same_view_benign [OF b ok1 h]) (simp add: benign_def)
  moreover have "same_view ?b1 (?b1\<lparr>sb_mem := m2\<rparr>)"
    using same_view_benign [OF ok1 _ st1 ben] ok2 by simp
  ultimately show "same_view b (b\<lparr>sb_mem := m2\<rparr>)" using same_view_trans by fastforce
qed

lemma group_room:
  assumes "block_ok b gs ds cols u" and "g \<in> set gs"
  shows "28 \<le> g" "g + 404 \<le> u" "u < length (sb_mem b)"
  using assms by (auto simp: block_ok_def groups_ok_def)

text \<open>Entering the group after the last full one: an existing one is cut off behind it, a new one is
  allocated and linked.\<close>

lemma enter_next_group_block:
  assumes b: "block_ok b gs ds cols u" and k: "k < length gs" and rows: "length ds = 100 * Suc k"
  shows "enter_next_group (gs ! k) b = Some (None, b) \<and> sb_size b \<le> u + 407
    \<or> (\<exists>b' gs' u'. enter_next_group (gs ! k) b = Some (Some (gs' ! Suc k), b') \<and> block_ok b' gs' ds cols u'
        \<and> u' \<le> u + 407 \<and> sb_size b' = sb_size b \<and> Suc k < length gs' \<and> same_view b b' \<and> sb_read_only b' = sb_read_only b)"
proof (cases "Suc k < length gs")
  case True
  let ?g = "gs ! Suc k"
  have gin: "?g \<in> set gs" using True by simp
  obtain m' where st: "store (?g + 400) (le_bytes 4 (0 :: u32)) (sb_mem b) = Some m'"
    using store_ex [of "?g + 400" "le_bytes 4 (0 :: u32)" "sb_mem b"] group_room [OF b gin] by auto
  have "(of_nat ?g :: u32) \<noteq> 0"
    using group_room [OF b gin] b by (auto simp: word_unat_eq_iff unat_small block_ok_def)
  then have e: "enter_next_group (gs ! k) b = Some (Some ?g, b\<lparr>sb_mem := m'\<rparr>)"
    using block_next_group [OF b True] st by (simp add: enter_next_group_def poke32_def poke_def)
  have ok: "block_ok (b\<lparr>sb_mem := m'\<rparr>) (take (Suc (Suc k)) gs) ds cols u"
    by (rule block_ok_cut_groups [OF b True _ st]) (use rows in simp)
  moreover have "same_view b (b\<lparr>sb_mem := m'\<rparr>)"
    by (rule same_view_benign [OF b ok st]) (rule benign_group [OF gin], simp_all)
  moreover have "take (Suc (Suc k)) gs ! Suc k = ?g" "Suc k < length (take (Suc (Suc k)) gs)" using True by simp_all
  ultimately have "enter_next_group (gs ! k) b = Some (Some (take (Suc (Suc k)) gs ! Suc k), b\<lparr>sb_mem := m'\<rparr>)
      \<and> block_ok (b\<lparr>sb_mem := m'\<rparr>) (take (Suc (Suc k)) gs) ds cols u \<and> u \<le> u + 407
      \<and> sb_size (b\<lparr>sb_mem := m'\<rparr>) = sb_size b \<and> Suc k < length (take (Suc (Suc k)) gs)
      \<and> same_view b (b\<lparr>sb_mem := m'\<rparr>) \<and> sb_read_only (b\<lparr>sb_mem := m'\<rparr>) = sb_read_only b"
    using e by simp
  then show ?thesis by blast
next
  case False
  then have len: "Suc k = length gs" "gs \<noteq> []" using k by auto
  then have "k = length gs - 1" by simp
  with len have last: "gs ! k = last gs" "Suc k = length gs" "gs \<noteq> []" by (simp_all add: last_conv_nth)
  have l0: "load32 (gs ! k + 400) (sb_mem b) = Some 0" using b last by (simp add: block_ok_def groups_ok_def)
  have lin: "last gs \<in> set gs" using last by simp
  show ?thesis
  proof (rule alloc_basic [OF block_basic [OF b], of 404 True])
    assume "alloc 404 True b = Some (0, b)" "sb_size b \<le> u + 3 + 404"
    then have "enter_next_group (gs ! k) b = Some (None, b) \<and> sb_size b \<le> u + 407"
      using l0 by (simp add: enter_next_group_def block_layout)
    then show ?thesis ..
  next
    fix off m1
    assume off: "u \<le> off" "off + 404 < sb_size b" and near: "off \<le> u + 3"
      and al: "alloc 404 True b = Some (of_nat off, b\<lparr>sb_mem := m1\<rparr>)"
      and h: "store 0 (le_bytes 4 (of_nat (off + 404) :: u32)) (sb_mem b) = Some m1"
    have sz: "432 \<le> u" "sb_size b < 2 ^ 31" "sb_size b = length (sb_mem b)" "sb_mapped b" using b by (auto simp: block_ok_def)
    have un: "(of_nat off :: u32) \<noteq> 0" using off sz by (auto simp: word_unat_eq_iff unat_small)
    have len1: "length m1 = sb_size b" using length_store [OF h] sz by simp
    obtain m2 where l: "store (last gs + 400) (le_bytes 4 (of_nat off :: u32)) m1 = Some m2"
      using store_ex [of "last gs + 400" "le_bytes 4 (of_nat off :: u32)" m1] group_room [OF b lin] len1 sz by auto
    obtain m3 where z: "store (off + 400) (le_bytes 4 (0 :: u32)) m2 = Some m3"
      using store_ex [of "off + 400" "le_bytes 4 (0 :: u32)" m2] length_store [OF l] len1 off by auto
    have "offset_to_ptr (b\<lparr>sb_mem := m2\<rparr>) (of_nat off) 404 = Some off"
      using offset_to_ptr_in [of "b\<lparr>sb_mem := m2\<rparr>" off 404] off sz by simp
    then have e: "enter_next_group (gs ! k) b = Some (Some off, b\<lparr>sb_mem := m3\<rparr>)"
      using l0 al un l z load32_store_same [OF l]
      by (simp add: enter_next_group_def block_layout poke32_def poke_def last)
    obtain m1' where c1: "store (off + 400) (le_bytes 4 (0 :: u32)) m1 = Some m1'"
        "store (last gs + 400) (le_bytes 4 (of_nat off :: u32)) m1' = Some m3"
      using store_commute [OF l z] group_room [OF b lin] off by (auto simp: rdisj_def)
    obtain m0' where c2: "store (off + 400) (le_bytes 4 (0 :: u32)) (sb_mem b) = Some m0'"
        "store 0 (le_bytes 4 (of_nat (off + 404) :: u32)) m0' = Some m1'"
      using store_commute [OF h c1(1)] off by (auto simp: rdisj_def)
    let ?b0 = "b\<lparr>sb_mem := m0'\<rparr>"
    have ok0: "block_ok ?b0 gs ds cols u" and v0: "same_view b ?b0"
      using block_ok_fresh_store [OF b c2(1)] off by auto
    have "block_ok (?b0\<lparr>sb_mem := m3\<rparr>) (gs @ [off]) ds cols (off + 404)" "same_view ?b0 (?b0\<lparr>sb_mem := m3\<rparr>)"
      using block_ok_add_group [OF ok0 off(1) _ _ _ c1(2)] c2(2) off(2) load32_store_same [OF c2(1)] by simp_all
    then have "enter_next_group (gs ! k) b = Some (Some ((gs @ [off]) ! Suc k), b\<lparr>sb_mem := m3\<rparr>)
        \<and> block_ok (b\<lparr>sb_mem := m3\<rparr>) (gs @ [off]) ds cols (off + 404) \<and> off + 404 \<le> u + 407
        \<and> sb_size (b\<lparr>sb_mem := m3\<rparr>) = sb_size b \<and> Suc k < length (gs @ [off])
        \<and> same_view b (b\<lparr>sb_mem := m3\<rparr>) \<and> sb_read_only (b\<lparr>sb_mem := m3\<rparr>) = sb_read_only b"
      using e v0 last near same_view_trans by (fastforce simp: nth_append)
    then show ?thesis by blast
  qed
qed

section \<open>Allocating a row\<close>

text \<open>The row counter is the last thing \<open>alloc_row_offset\<close> writes.\<close>

lemma alloc_row_offset_block:
  assumes b: "block_ok b gs ds cols u"
  shows "alloc_row_offset b = Some (None, b) \<and> sb_size b \<le> u + 407
    \<or> (\<exists>b' gs' u' m'. block_ok b' gs' ds cols u' \<and> u' \<le> u + 407 \<and> sb_size b' = sb_size b \<and> same_view b b' \<and> sb_read_only b' = sb_read_only b
        \<and> length ds < 100 * length gs'
        \<and> store 8 (le_bytes 4 (of_nat (Suc (length ds)) :: u32)) (sb_mem b') = Some m'
        \<and> alloc_row_offset b = Some (Some (slot gs' (length ds)), b'\<lparr>sb_mem := m'\<rparr>))"
proof -
  let ?r = "length ds"
  have r: "?r < 2 ^ 31" "?r \<le> 100 * length gs" "0 < length gs" and h: "hdr 8 b = Some (of_nat ?r)" "hdr 4 b = Some 28"
    using b block_rows_small [OF b] by (auto simp: block_ok_def dirs_ok_def groups_ok_def)
  have fin: "\<exists>m'. store 8 (le_bytes 4 (of_nat (Suc ?r) :: u32)) (sb_mem b') = Some m'
      \<and> finish_row_offset p g b' = Some (Some (g + 4 * p), b'\<lparr>sb_mem := m'\<rparr>)"
    if "block_ok b' gs' ds cols u'" for b' gs' u' p g
    using store_ex [of 8 "le_bytes 4 (of_nat (Suc ?r) :: u32)" "sb_mem b'"] that
    by (auto simp: finish_row_offset_def block_layout block_ok_def poke32_def poke_def add.commute)
  have walk: "alloc_row_walk b ?r (gs ! 0) = Some (Some (if ?r = 0 then (0, gs ! 0)
      else ((?r - 1) mod 100 + 1, gs ! ((?r - 1) div 100))))"
    using alloc_row_walk_groups [OF b, of 0 ?r] r by simp
  have start: "alloc_row_offset b = do {
      w \<leftarrow> alloc_row_walk b ?r (gs ! 0);
      case w of
        None \<Rightarrow> Some (None, b)
      | Some (row_pos, grp) \<Rightarrow>
          if row_pos = 100 then do {
            (g, b) \<leftarrow> enter_next_group grp b;
            case g of None \<Rightarrow> Some (None, b) | Some grp \<Rightarrow> finish_row_offset 0 grp b
          }
          else finish_row_offset row_pos grp b
    }"
    using h r block_first_group [OF b] by (simp add: alloc_row_offset_def block_layout unat_small)
  show ?thesis
  proof (cases "?r mod 100 = 0 \<and> ?r \<noteq> 0")
    case True
    then obtain k where k: "?r = 100 * Suc k" by (metis dvd_eq_mod_eq_0 dvdE not0_implies_Suc mult_0_right)
    then have "(?r - 1) mod 100 + 1 = 100" "(?r - 1) div 100 = k" by (simp_all add: k)
    with walk True have w: "alloc_row_walk b ?r (gs ! 0) = Some (Some (100, gs ! k))" by simp
    from enter_next_group_block [OF b _ k] r(2) k consider
      "enter_next_group (gs ! k) b = Some (None, b)" "sb_size b \<le> u + 407"
      | b' gs' u' where "enter_next_group (gs ! k) b = Some (Some (gs' ! Suc k), b')" "block_ok b' gs' ds cols u'"
        "Suc k < length gs'" "same_view b b'" "sb_read_only b' = sb_read_only b" "u' \<le> u + 407" "sb_size b' = sb_size b"
      by auto
    then show ?thesis
    proof cases
      case 1
      then show ?thesis by (simp add: start w)
    next
      case 2
      obtain m' where m': "store 8 (le_bytes 4 (of_nat (Suc ?r) :: u32)) (sb_mem b') = Some m'"
          "finish_row_offset 0 (gs' ! Suc k) b' = Some (Some (gs' ! Suc k), b'\<lparr>sb_mem := m'\<rparr>)"
        using fin [OF 2(2), of 0 "gs' ! Suc k"] by auto
      have "slot gs' ?r = gs' ! Suc k" "?r < 100 * length gs'" using 2(3) by (simp_all add: slot_def k)
      then have "alloc_row_offset b = Some (Some (slot gs' ?r), b'\<lparr>sb_mem := m'\<rparr>)" "?r < 100 * length gs'"
        using 2(1) m' by (simp_all add: start w)
      with 2 m'(1) show ?thesis by blast
    qed
  next
    case False
    then have s: "?r < 100 * length gs" using r by (cases "?r = 0") (auto simp: le_less)
    have "alloc_row_walk b ?r (gs ! 0) = Some (Some (?r mod 100, gs ! (?r div 100)))"
    proof (cases "?r = 0")
      case True
      with walk show ?thesis by simp
    next
      case nz: False
      then have "(?r - 1) mod 100 + 1 = ?r mod 100" "(?r - 1) div 100 = ?r div 100"
        using False pred_mod_div [of ?r 100] by auto
      with nz walk show ?thesis by (simp only: if_False)
    qed
    moreover obtain m' where m': "store 8 (le_bytes 4 (of_nat (Suc ?r) :: u32)) (sb_mem b) = Some m'"
        "finish_row_offset (?r mod 100) (gs ! (?r div 100)) b = Some (Some (slot gs ?r), b\<lparr>sb_mem := m'\<rparr>)"
      using fin [OF b, of "?r mod 100" "gs ! (?r div 100)"] by (auto simp: slot_def)
    moreover have "?r mod 100 \<noteq> 100" using mod_less_divisor [of 100 ?r] by linarith
    ultimately have "alloc_row_offset b = Some (Some (slot gs ?r), b\<lparr>sb_mem := m'\<rparr>)"
      by (simp add: start)
    with b s m'(1) same_view_refl le_add1 [of u 407] show ?thesis by blast
  qed
qed

text \<open>Linking a zeroed directory behind the last row: slot, row counter, unused offset.\<close>

lemma block_ok_add_row:
  assumes b: "block_ok b gs ds cols u" and room: "length ds < 100 * length gs"
    and d: "u \<le> d" "d + 12 * cols < sb_size b" and zero: "load d (12 * cols) (sb_mem b) = Some (replicate (12 * cols) 0)"
    and s1: "store (slot gs (length ds)) (le_bytes 4 (of_nat d :: u32)) (sb_mem b) = Some m1"
    and s2: "store 8 (le_bytes 4 (of_nat (Suc (length ds)) :: u32)) m1 = Some m2"
    and s3: "store 0 (le_bytes 4 (of_nat (d + 12 * cols) :: u32)) m2 = Some m3"
  shows "block_ok (b\<lparr>sb_mem := m3\<rparr>) gs (ds @ [d]) cols (d + 12 * cols)"
    and "cell_view (b\<lparr>sb_mem := m3\<rparr>) r c =
      (if unat r = length ds \<and> unat c < cols then Some CNull else cell_view b r c)"
proof -
  let ?r = "length ds" and ?u = "d + 12 * cols"
  have g: "groups_ok (sb_mem b) gs u" and dk: "dirs_ok (sb_mem b) gs ds cols u" and u: "432 \<le> u"
    and sz: "sb_size b = length (sb_mem b)"
    using b by (auto simp: block_ok_def)
  have gb: "28 \<le> x \<and> x + 404 \<le> d" if "x \<in> set gs" for x using g that d by (fastforce simp: groups_ok_def)
  have sl: "28 \<le> slot gs ?r" "slot gs ?r + 4 \<le> d"
    using slot_in_group [OF room] gb by fastforce+
  have ld: "load a n m3 = load a n (sb_mem b)" if "rdisj (slot gs ?r, 4) (a, n)" "12 \<le> a" for a n
    using that load_store_other [OF s1] load_store_other [OF s2] load_store_other [OF s3] by (simp add: rdisj_def)
  then have ld32: "load32 a m3 = load32 a (sb_mem b)" if "rdisj (slot gs ?r, 4) (a, 4)" "12 \<le> a" for a
    using that by (simp add: load32_def)
  have h0: "load32 0 m3 = Some (of_nat ?u)" by (rule load32_store_same [OF s3])
  have h8: "load32 8 m3 = Some (of_nat (Suc ?r))"
    using load32_store_same [OF s2] load32_store_other [OF s3, of 8] by (simp add: rdisj_def)
  have h4: "load32 4 m3 = load32 4 (sb_mem b)"
    using load32_store_other [OF s1, of 4] load32_store_other [OF s2, of 4] load32_store_other [OF s3, of 4] sl
    by (simp add: rdisj_def)
  have h12: "load32 12 m3 = load32 12 (sb_mem b)" using sl by (intro ld32) (auto simp: rdisj_def)
  have hs: "load32 (slot gs ?r) m3 = Some (of_nat d)"
    using load32_store_same [OF s1] load32_store_other [OF s2, of "slot gs ?r"] load32_store_other [OF s3, of "slot gs ?r"] sl
    by (simp add: rdisj_def)
  have len: "length m3 = length (sb_mem b)"
    using length_store [OF s1] length_store [OF s2] length_store [OF s3] by simp
  have "load32 (x + 400) m3 = load32 (x + 400) (sb_mem b)" if "x \<in> set gs" for x
    using slot_clear_of_next [OF g room that] gb [OF that] by (intro ld32) auto
  then have "groups_ok m3 gs ?u" using g d by (fastforce simp: groups_ok_def)
  moreover have "load32 (slot gs i) m3 = Some (of_nat ((ds @ [d]) ! i))" if "i < length (ds @ [d])" "0 < cols" for i
  proof (cases "i < ?r")
    case True
    then have "rdisj (slot gs ?r, 4) (slot gs i, 4)" "12 \<le> slot gs i"
      using slots_disjoint [OF g room] slot_in_group [of i gs] gb room by fastforce+
    with True that dk show ?thesis by (simp add: ld32 dirs_ok_def nth_append)
  next
    case False
    with that hs show ?thesis by (simp add: less_Suc_eq)
  qed
  then have "dirs_ok m3 gs (ds @ [d]) cols ?u"
    using dk room gb d u by (fastforce simp: dirs_ok_def sorted_wrt_append rdisj_def)
  moreover have old: "load (ds ! r + 12 * c) 12 m3 = load (ds ! r + 12 * c) 12 (sb_mem b)" if "r < ?r" "c < cols" for r c
  proof (rule ld)
    obtain x where x: "x \<in> set gs" "x \<le> slot gs ?r" "slot gs ?r + 4 \<le> x + 400" using slot_in_group [OF room] by blast
    show "rdisj (slot gs ?r, 4) (ds ! r + 12 * c, 12)"
      using cell_clear_of_group [OF b that x(1)] x(2,3) by (auto simp: rdisj_def)
    show "12 \<le> ds ! r + 12 * c" using block_dir_bounds(1) [OF b that] by simp
  qed
  have cb: "cell_bytes m3 (ds @ [d]) r c = cell_bytes (sb_mem b) ds r c" if "r < ?r" "c < cols" for r c
    using that old [OF that] block_dir_bounds(2,4) [OF b that] len sz
    by (simp add: cell_bytes_def load_def nth_append)
  moreover have z: "cell_bytes m3 (ds @ [d]) ?r c = replicate 12 0" if "c < cols" for c
  proof -
    have "load d (12 * cols) m3 = Some (replicate (12 * cols) 0)"
      using zero sl d u by (subst ld) (auto simp: rdisj_def)
    then have "take (12 * cols) (drop d m3) = replicate (12 * cols) 0" by (auto simp: load_def split: if_splits)
    then have "take 12 (drop (12 * c) (take (12 * cols) (drop d m3))) = replicate 12 0"
      using that by (simp add: min_def)
    moreover have "min 12 (12 * cols - 12 * c) = 12" using that by simp
    ultimately show ?thesis by (simp add: cell_bytes_def drop_take add.commute)
  qed
  have k0: "cell_kind (replicate 12 0) = 0" by (simp add: cell_kind_def le_word_def numeral_eq_Suc)
  have "data_clear gs (ds @ [d]) cols ?u (cell_bytes m3 (ds @ [d]) r c)" if "r < length (ds @ [d])" "c < cols" for r c
  proof (cases "r < ?r")
    case True
    then have "data_clear gs ds cols u (cell_bytes (sb_mem b) ds r c)" using b that by (simp add: block_ok_def)
    then show ?thesis using True that d by (auto simp: cb data_clear_def rdisj_def)
  next
    case False
    then have "r = ?r" using that by simp
    then show ?thesis using z [OF that(2)] k0 by (simp add: data_clear_def)
  qed
  ultimately show ok: "block_ok (b\<lparr>sb_mem := m3\<rparr>) gs (ds @ [d]) cols ?u"
    using b d len h0 h4 h8 h12 by (simp add: block_ok_def hdr_def)
  have "decode m3 (cell_bytes (sb_mem b) ds r c) = decode (sb_mem b) (cell_bytes (sb_mem b) ds r c)"
    if "r < ?r" "c < cols" for r c
  proof -
    let ?cb = "cell_bytes (sb_mem b) ds r c"
    have cl: "data_clear gs ds cols u ?cb" using b that by (simp add: block_ok_def)
    obtain x where x: "x \<in> set gs" "x \<le> slot gs ?r" "slot gs ?r + 4 \<le> x + 400" using slot_in_group [OF room] by blast
    have "load (cell_off ?cb) (cell_len ?cb) m3 = load (cell_off ?cb) (cell_len ?cb) (sb_mem b)"
      if "cell_kind ?cb = 3 \<or> cell_kind ?cb = 4"
      using cl that x by (intro ld) (auto simp: data_clear_def rdisj_def)
    then show ?thesis
      using cl d len sz by (auto simp: decode_def load_def data_clear_def split: if_splits)
  qed
  then show "cell_view (b\<lparr>sb_mem := m3\<rparr>) r c =
      (if unat r = length ds \<and> unat c < cols then Some CNull else cell_view b r c)"
    using cb [of "unat r" "unat c"] z [of "unat c"] k0
    by (auto simp: cell_view_block [OF b] cell_view_block [OF ok] decode_def less_Suc_eq)
qed

text \<open>Without columns a row is only counted.\<close>

lemma block_ok_row_no_cols:
  assumes b: "block_ok b gs ds 0 u" and room: "length ds < 100 * length gs" and d: "u \<le> d" "d < sb_size b"
    and s2: "store 8 (le_bytes 4 (of_nat (Suc (length ds)) :: u32)) (sb_mem b) = Some m2"
    and s3: "store 0 (le_bytes 4 (of_nat d :: u32)) m2 = Some m3"
  shows "block_ok (b\<lparr>sb_mem := m3\<rparr>) gs (ds @ [d]) 0 d"
proof -
  have g28: "\<forall>g \<in> set gs. 28 \<le> g" using b by (auto simp: block_ok_def groups_ok_def)
  have "groups_ok m2 gs u"
    using b g28 by (intro groups_ok_frame [OF _ s2]) (auto simp: block_ok_def rdisj_def)
  then have "groups_ok m3 gs d"
    using g28 d by (intro groups_ok_frame [OF _ s3]) (auto simp: rdisj_def)
  then show ?thesis
    using b d room length_store [OF s2] length_store [OF s3] load32_store_same [OF s2] load32_store_same [OF s3]
    by (simp add: block_ok_def hdr_def dirs_ok_def load32_store_other [OF s2] load32_store_other [OF s3] rdisj_def)
qed

lemma store_store:
  "store a x m = Some m1 \<Longrightarrow> store a y m1 = Some m2 \<Longrightarrow> length x = length y \<Longrightarrow> store a y m = Some m2"
  by (auto simp: store_Some)

lemma alloc_row_block:
  assumes b: "block_ok b gs ds cols u" and ro: "\<not> sb_read_only b"
  shows "\<exists>code b' gs' ds' u'. alloc_row b = Some (code, b') \<and> block_ok b' gs' ds' cols u' \<and> \<not> sb_read_only b'
    \<and> (code = SHARED_BLOCK_OK \<or> code = SHARED_BLOCK_NO_MEMORY \<or> code = SHARED_BLOCK_BAD_VALUE \<and> cols = 0)
    \<and> length ds' \<le> Suc (length ds)
    \<and> (if code = SHARED_BLOCK_OK
        then length ds' = Suc (length ds)
          \<and> (\<forall>r c. cell_view b' r c = (if unat r = length ds \<and> unat c < cols then Some CNull else cell_view b r c))
        else same_view b b' \<and> (0 < cols \<longrightarrow> ds' = ds) \<and> sb_size b \<le> u + 422 + 12 * cols)"
proof -
  let ?r = "length ds" and ?n = "12 * cols"
  consider "alloc_row_offset b = Some (None, b)" "sb_size b \<le> u + 407"
    | b' gs' u' m' where "block_ok b' gs' ds cols u'" "same_view b b'" "sb_read_only b' = sb_read_only b" "?r < 100 * length gs'"
      "store 8 (le_bytes 4 (of_nat (Suc ?r) :: u32)) (sb_mem b') = Some m'"
      "alloc_row_offset b = Some (Some (slot gs' ?r), b'\<lparr>sb_mem := m'\<rparr>)" "u' \<le> u + 407" "sb_size b' = sb_size b"
    using alloc_row_offset_block [OF b] by blast
  then show ?thesis
  proof cases
    case 1
    then have "alloc_row b = Some (SHARED_BLOCK_NO_MEMORY, b)" "sb_size b \<le> u + 422 + 12 * cols"
      using ro by (simp_all add: alloc_row_def)
    then show ?thesis using b ro by (fastforce simp: block_codes)
  next
    case 2
    note ok = 2(1) and s1 = 2(5)
    let ?b1 = "b'\<lparr>sb_mem := m'\<rparr>"
    have sz: "sb_mapped b'" "sb_size b' < 2 ^ 31" "sb_size b' = length (sb_mem b')" "432 \<le> u'" "u' < sb_size b'" "cols \<le> 32767"
      and h: "hdr 0 b' = Some (of_nat u')" "hdr 12 b' = Some (of_nat cols)"
      using ok by (auto simp: block_ok_def)
    have len1: "length m' = length (sb_mem b')" by (rule length_store [OF s1])
    have h1: "hdr 0 ?b1 = Some (of_nat u')" "hdr 12 ?b1 = Some (of_nat cols)" "hdr 8 ?b1 = Some (of_nat (Suc ?r))"
      using h load32_store_same [OF s1] by (simp_all add: hdr_def load32_store_other [OF s1] rdisj_def)
    have n: "unat (of_nat cols :: u32) * 12 = ?n" using sz by (simp add: unat_small)
    have bas: "432 \<le> u'" "u' < sb_size ?b1" "sb_size ?b1 < 2 ^ 31" "sb_size ?b1 = length (sb_mem ?b1)"
      using sz len1 by simp_all
    show ?thesis
    proof (rule alloc_basic [OF h1(1) bas, of ?n True])
      assume al: "alloc ?n True ?b1 = Some (0, ?b1)" and full: "sb_size ?b1 \<le> u' + 3 + ?n"
      obtain m2 where s2: "store 8 (le_bytes 4 (of_nat ?r :: u32)) m' = Some m2"
        using store_ex [of 8 "le_bytes 4 (of_nat ?r :: u32)" m'] sz len1 by auto
      have pos: "(of_nat (Suc ?r) :: u32) > 0" using block_rows_small [OF ok] by (simp add: word_less_nat_alt unat_of_nat del: of_nat_Suc)
      have row: "alloc_row b = Some (SHARED_BLOCK_NO_MEMORY, b'\<lparr>sb_mem := m2\<rparr>)"
        using 2(6) ro h1 al n s2 pos
        by (simp add: alloc_row_def block_layout drop_last_row_def poke32_def poke_def mult.commute [of cols 12])
      have st: "store 8 (le_bytes 4 (of_nat ?r :: u32)) (sb_mem b') = Some m2" by (rule store_store [OF s1 s2]) simp
      have ok2: "block_ok (b'\<lparr>sb_mem := m2\<rparr>) gs' ds cols u'"
        using block_ok_drop_rows(1) [OF ok st] by simp
      have "same_view b' (b'\<lparr>sb_mem := m2\<rparr>)" by (rule same_view_benign [OF ok ok2 st]) (simp add: benign_def)
      then have "same_view b (b'\<lparr>sb_mem := m2\<rparr>)" using 2(2) same_view_trans by blast
      moreover have "sb_size b \<le> u + 422 + ?n" using full 2(7,8) by simp
      ultimately show ?thesis using row ok2 ro 2(3) by (fastforce simp: block_codes)
    next
      fix off ma
      assume off: "u' \<le> off" "off + ?n < sb_size ?b1" and near: "off \<le> u' + 3"
        and al: "alloc ?n True ?b1 = Some (of_nat off, ?b1\<lparr>sb_mem := ma\<rparr>)"
        and s2': "store 0 (le_bytes 4 (of_nat (off + ?n) :: u32)) (sb_mem ?b1) = Some ma"
      have s2: "store 0 (le_bytes 4 (of_nat (off + ?n) :: u32)) m' = Some ma" using s2' by simp
      have lena: "length ma = sb_size b'" using length_store [OF s2] len1 sz by simp
      have un: "(of_nat off :: u32) \<noteq> 0" using off sz by (auto simp: word_unat_eq_iff unat_small)
      let ?ba = "b'\<lparr>sb_mem := ma\<rparr>"
      have start: "alloc_row b = (case offset_to_ptr ?ba (of_nat off) (of_nat 12) of
            None \<Rightarrow> Some (SHARED_BLOCK_BAD_VALUE, ?ba)
          | Some dir_ptr \<Rightarrow> do {
              b \<leftarrow> poke dir_ptr (replicate ?n 0) ?ba;
              b \<leftarrow> poke32 (slot gs' ?r) (of_nat off) b;
              Some (SHARED_BLOCK_OK, b)
            })"
        using 2(6) ro h1 al n un by (simp add: alloc_row_def block_layout mult.commute [of cols 12])
      show ?thesis
      proof (cases "offset_to_ptr ?ba (of_nat off) (of_nat 12)")
        case None
        then have c0: "cols = 0"
          using offset_to_ptr_in [of ?ba off 12] off sz by (cases "cols = 0") auto
        have "alloc_row b = Some (SHARED_BLOCK_BAD_VALUE, ?ba)" using start None by simp
        moreover have "block_ok ?ba gs' (ds @ [off]) 0 off"
          using block_ok_row_no_cols [OF _ 2(4) off(1) _ s1] ok s2 off c0 by simp
        moreover from this have "same_view b ?ba"
          using 2(2) ok c0 by (auto simp: same_view_def cell_view_block)
        moreover have "sb_size b \<le> u + 422 + ?n"
          using None offset_to_ptr_in [of ?ba off 12] sz near 2(7,8) by (cases "off + 12 < sb_size b'") auto
        ultimately show ?thesis using c0 ro 2(3) by (fastforce simp: block_codes)
      next
        case (Some p)
        then have p: "p = off" using off sz by (auto simp: offset_to_ptr_def unat_small split: if_splits)
        obtain mb where s3: "store off (replicate ?n 0) ma = Some mb"
          using store_ex [of off "replicate ?n 0" ma] lena off by auto
        have sl: "28 \<le> slot gs' ?r" "slot gs' ?r + 4 \<le> u'"
          using slot_in_group [OF 2(4)] group_room [OF ok] by fastforce+
        obtain mc where s4: "store (slot gs' ?r) (le_bytes 4 (of_nat off :: u32)) mb = Some mc"
          using store_ex [of "slot gs' ?r" "le_bytes 4 (of_nat off :: u32)" mb] length_store [OF s3] lena sl sz by auto
        have row: "alloc_row b = Some (SHARED_BLOCK_OK, b'\<lparr>sb_mem := mc\<rparr>)"
          using start Some p s3 s4 by (simp add: poke32_def poke_def)
        obtain mp where c1: "store off (replicate ?n 0) m' = Some mp" "store 0 (le_bytes 4 (of_nat (off + ?n) :: u32)) mp = Some mb"
          using store_commute [OF s2 s3] off sz by (auto simp: rdisj_def)
        obtain mq where c2: "store off (replicate ?n 0) (sb_mem b') = Some mq" "store 8 (le_bytes 4 (of_nat (Suc ?r) :: u32)) mq = Some mp"
          using store_commute [OF s1 c1(1)] off sz by (auto simp: rdisj_def)
        obtain mr where c3: "store (slot gs' ?r) (le_bytes 4 (of_nat off :: u32)) mp = Some mr"
            "store 0 (le_bytes 4 (of_nat (off + ?n) :: u32)) mr = Some mc"
          using store_commute [OF c1(2) s4] sl by (auto simp: rdisj_def)
        obtain ms where c4: "store (slot gs' ?r) (le_bytes 4 (of_nat off :: u32)) mq = Some ms"
            "store 8 (le_bytes 4 (of_nat (Suc ?r) :: u32)) ms = Some mr"
          using store_commute [OF c2(2) c3(1)] sl by (auto simp: rdisj_def)
        let ?bq = "b'\<lparr>sb_mem := mq\<rparr>"
        have okq: "block_ok ?bq gs' ds cols u'" and vq: "same_view b' ?bq"
          using block_ok_fresh_store [OF ok c2(1)] off by auto
        have zero: "load off ?n (sb_mem ?bq) = Some (replicate ?n 0)" using load_store_same [OF c2(1)] by simp
        have sq: "store (slot gs' ?r) (le_bytes 4 (of_nat off :: u32)) (sb_mem ?bq) = Some ms" using c4(1) by simp
        have offq: "off + ?n < sb_size ?bq" using off by simp
        have ok': "block_ok (b'\<lparr>sb_mem := mc\<rparr>) gs' (ds @ [off]) cols (off + ?n)"
          using block_ok_add_row(1) [OF okq 2(4) off(1) offq zero sq c4(2) c3(2)] by simp
        have "cell_view (b'\<lparr>sb_mem := mc\<rparr>) r c =
            (if unat r = ?r \<and> unat c < cols then Some CNull else cell_view b r c)" for r c
          using block_ok_add_row(2) [OF okq 2(4) off(1) offq zero sq c4(2) c3(2), of r c] vq 2(2)
          by (simp add: same_view_def)
        then show ?thesis using row ok' ro 2(3) by (fastforce simp: block_codes)
      qed
    qed
  qed
qed

section \<open>Columns, clearing and creating\<close>

lemma set_column_num_block:
  assumes b: "block_ok b gs ds cols u" and ro: "\<not> sb_read_only b"
  shows "if (0 < cols \<or> ds \<noteq> []) \<and> cols \<noteq> unat n \<or> 32767 < unat n
    then set_column_num n b = Some (SHARED_BLOCK_INVALID_OPERATION, b)
    else \<exists>b'. set_column_num n b = Some (SHARED_BLOCK_OK, b') \<and> block_ok b' gs ds (unat n) u
      \<and> sb_read_only b' = sb_read_only b \<and> sb_size b' = sb_size b \<and> same_view b b'"
proof -
  have h: "hdr 12 b = Some (of_nat cols)" "hdr 8 b = Some (of_nat (length ds))" and c: "cols \<le> 32767"
    and r: "length ds < 2 ^ 31"
    using b block_rows_small [OF b] by (auto simp: block_ok_def)
  have t1: "(of_nat cols :: u32) > 0 \<longleftrightarrow> 0 < cols" "(of_nat (length ds) :: u32) > 0 \<longleftrightarrow> ds \<noteq> []"
    "(of_nat cols :: u32) \<noteq> n \<longleftrightarrow> cols \<noteq> unat n" "n > COL_MAX_NUM \<longleftrightarrow> 32767 < unat n"
    using c r by (auto simp: word_less_nat_alt unat_small COL_MAX_NUM_def)
  show ?thesis
  proof (cases "(0 < cols \<or> ds \<noteq> []) \<and> cols \<noteq> unat n \<or> 32767 < unat n")
    case True
    then have "set_column_num n b = Some (SHARED_BLOCK_INVALID_OPERATION, b)"
      using h ro t1 by (auto simp: set_column_num_def block_layout)
    then show ?thesis by (simp only: True if_True)
  next
    case False
    obtain m' where st: "store 12 (le_bytes 4 n) (sb_mem b) = Some m'"
      using store_ex [of 12 "le_bytes 4 n" "sb_mem b"] b by (auto simp: block_ok_def)
    have set: "set_column_num n b = Some (SHARED_BLOCK_OK, b\<lparr>sb_mem := m'\<rparr>)"
      using h ro t1 False st by (auto simp: set_column_num_def block_layout poke32_def poke_def)
    have g28: "\<forall>g \<in> set gs. 28 \<le> g" using b by (auto simp: block_ok_def groups_ok_def)
    have "groups_ok m' gs u"
      using b g28 by (intro groups_ok_frame [OF _ st]) (auto simp: block_ok_def rdisj_def)
    moreover have "dirs_ok m' gs ds cols u"
      using b g28 by (intro dirs_ok_frame [OF _ st]) (auto simp: block_ok_def rdisj_def)
    then have "dirs_ok m' gs ds (unat n) u" using False by (auto simp: dirs_ok_def)
    moreover have ben: "benign gs u 12 (length (le_bytes 4 n))" by (simp add: benign_def)
    then have "data_clear gs ds (unat n) u (cell_bytes m' ds r c)" if "r < length ds" "c < unat n" for r c
      using cell_bytes_benign [OF b st _ that(1), of c] b that False by (auto simp: block_ok_def)
    ultimately have ok: "block_ok (b\<lparr>sb_mem := m'\<rparr>) gs ds (unat n) u"
      using b False length_store [OF st] load32_store_same [OF st]
      by (simp add: block_ok_def hdr_def load32_store_other [OF st] rdisj_def)
    have "same_view b (b\<lparr>sb_mem := m'\<rparr>)"
      using decode_benign [OF b st ben] False
      by (auto simp: same_view_def cell_view_block [OF b] cell_view_block [OF ok])
    with set ok False show ?thesis by auto
  qed
qed

lemma reset_header_spec:
  assumes "28 \<le> length (sb_mem b)"
  obtains m' where "reset_header b = Some (b\<lparr>sb_mem := m'\<rparr>)" "length m' = length (sb_mem b)"
    "load32 0 m' = Some 432" "load32 4 m' = Some 28" "load32 8 m' = Some 0" "load32 12 m' = Some 0"
proof -
  let ?s = "\<lambda>off v m. store off (le_bytes 4 (v :: u32)) m"
  have ex: "\<exists>m'. ?s off v m = Some m'" if "length m = length (sb_mem b)" "off + 4 \<le> 28" for off v m
    using store_ex [of off "le_bytes 4 v" m] that assms by auto
  obtain m1 where 1: "?s 0 432 (sb_mem b) = Some m1" using ex [of "sb_mem b" 0] by auto
  note l1 = length_store [OF 1]
  obtain m2 where 2: "?s 4 28 m1 = Some m2" using ex [of m1 4] l1 by auto
  note l2 = length_store [OF 2]
  obtain m3 where 3: "?s 8 0 m2 = Some m3" using ex [of m2 8] l1 l2 by auto
  note l3 = length_store [OF 3]
  obtain m4 where 4: "?s 12 0 m3 = Some m4" using ex [of m3 12] l1 l2 l3 by auto
  note l4 = length_store [OF 4]
  obtain m5 where 5: "?s 16 0 m4 = Some m5" using ex [of m4 16] l1 l2 l3 l4 by auto
  note l5 = length_store [OF 5]
  obtain m6 where 6: "?s 20 0 m5 = Some m6" using ex [of m5 20] l1 l2 l3 l4 l5 by auto
  note l6 = length_store [OF 6]
  obtain m7 where 7: "?s 24 0 m6 = Some m7" using ex [of m6 24] l1 l2 l3 l4 l5 l6 by auto
  note l7 = length_store [OF 7]
  have reset: "reset_header b = Some (b\<lparr>sb_mem := m7\<rparr>)"
    by (simp add: reset_header_def block_layout poke32_def poke_def 1 2 3 4 5 6 7)
  have "load32 a m7 = load32 a m4" if "a + 4 \<le> 16" for a
    using that load32_store_other [OF 5, of a] load32_store_other [OF 6, of a] load32_store_other [OF 7, of a]
    by (simp add: rdisj_def)
  then have "load32 0 m7 = Some 432" "load32 4 m7 = Some 28" "load32 8 m7 = Some 0" "load32 12 m7 = Some 0"
    using load32_store_same [OF 1] load32_store_same [OF 2] load32_store_same [OF 3] load32_store_same [OF 4]
    by (simp_all add: load32_store_other [OF 2] load32_store_other [OF 3] load32_store_other [OF 4] rdisj_def)
  then show thesis using that [of m7] reset l1 l2 l3 l4 l5 l6 l7 by simp
qed

lemma fresh_block_ok:
  assumes "sb_mapped b" "sb_size b = length (sb_mem b)" "432 < sb_size b" "sb_size b < 2 ^ 31"
    and "load32 0 (sb_mem b) = Some 432" "load32 4 (sb_mem b) = Some 28" "load32 8 (sb_mem b) = Some 0"
    "load32 12 (sb_mem b) = Some 0" "load32 428 (sb_mem b) = Some 0"
  shows "block_ok b [28] [] 0 432"
  using assms by (simp add: block_ok_def hdr_def groups_ok_def dirs_ok_def)

lemma clear_block:
  assumes "sb_mapped b" "sb_size b = length (sb_mem b)" "432 < sb_size b" "sb_size b < 2 ^ 31" "\<not> sb_read_only b"
  shows "\<exists>b'. clear b = Some (SHARED_BLOCK_OK, b') \<and> block_ok b' [28] [] 0 432 \<and> sb_read_only b' = sb_read_only b"
proof -
  have "28 \<le> length (sb_mem b)" using assms by simp
  then obtain m1 where m1: "reset_header b = Some (b\<lparr>sb_mem := m1\<rparr>)" "length m1 = length (sb_mem b)"
      "load32 0 m1 = Some 432" "load32 4 m1 = Some 28" "load32 8 m1 = Some 0" "load32 12 m1 = Some 0"
    by (rule reset_header_spec)
  obtain m2 where m2: "store 428 (le_bytes 4 (0 :: u32)) m1 = Some m2"
    using store_ex [of 428 "le_bytes 4 (0 :: u32)" m1] m1(2) assms by auto
  have "offset_to_ptr (b\<lparr>sb_mem := m1\<rparr>) 28 404 = Some 28"
    using offset_to_ptr_in [of "b\<lparr>sb_mem := m1\<rparr>" 28 404] assms by simp
  then have "clear b = Some (SHARED_BLOCK_OK, b\<lparr>sb_mem := m2\<rparr>)"
    using assms m1 m2 by (simp add: clear_def hdr_def block_layout poke32_def poke_def)
  moreover have "block_ok (b\<lparr>sb_mem := m2\<rparr>) [28] [] 0 432"
    using assms m1 length_store [OF m2] load32_store_same [OF m2]
    by (intro fresh_block_ok) (simp_all add: load32_store_other [OF m2] rdisj_def)
  ultimately show ?thesis by auto
qed

lemma create_block:
  assumes "length region = n" "432 < n" "n < 2 ^ 31"
  shows "\<exists>b. create (Some region) True True name n = Some (Inr b) \<and> block_ok b [28] [] 0 432 \<and> \<not> sb_read_only b \<and> sb_size b = n"
proof -
  let ?b = "\<lparr>sb_name = name, sb_size = n, sb_read_only = False, sb_mapped = True, sb_mem = region\<rparr>"
  have "28 \<le> length (sb_mem ?b)" using assms by simp
  then obtain m1 where m1: "reset_header ?b = Some (?b\<lparr>sb_mem := m1\<rparr>)" "length m1 = length (sb_mem ?b)"
      "load32 0 m1 = Some 432" "load32 4 m1 = Some 28" "load32 8 m1 = Some 0" "load32 12 m1 = Some 0"
    by (rule reset_header_spec)
  obtain m2 where m2: "store 28 (replicate 404 0) m1 = Some m2"
    using store_ex [of 28 "replicate 404 0" m1] m1(2) assms by auto
  obtain m3 where m3: "store 428 (le_bytes 4 (0 :: u32)) m2 = Some m3"
    using store_ex [of 428 "le_bytes 4 (0 :: u32)" m2] length_store [OF m2] m1(2) assms by auto
  have "offset_to_ptr (?b\<lparr>sb_mem := m1\<rparr>) 28 404 = Some 28"
    using offset_to_ptr_in [of "?b\<lparr>sb_mem := m1\<rparr>" 28 404] assms by simp
  then have "create (Some region) True True name n = Some (Inr (?b\<lparr>sb_mem := m3\<rparr>))"
    using m1 m2 m3 by (simp add: create_def init_def shared_block_new_def hdr_def block_layout poke32_def poke_def)
  moreover have "block_ok (?b\<lparr>sb_mem := m3\<rparr>) [28] [] 0 432"
    using assms m1 length_store [OF m2] length_store [OF m3] load32_store_same [OF m3]
    by (intro fresh_block_ok) (simp_all add: load32_store_other [OF m2] load32_store_other [OF m3] rdisj_def)
  ultimately show ?thesis by auto
qed

section \<open>The size of a block never changes\<close>

lemma poke_size: "poke p v b = Some b' \<Longrightarrow> sb_size b' = sb_size b"
  by (auto simp: poke_def split: option.splits bind_splits)

lemma poke32_size: "poke32 p v b = Some b' \<Longrightarrow> sb_size b' = sb_size b"
  by (auto simp: poke32_def dest: poke_size)

lemma alloc_size: "alloc n al b = Some (off, b') \<Longrightarrow> sb_size b' = sb_size b"
  by (auto simp: alloc_def Let_def split: option.splits bind_splits if_splits dest: poke32_size)

lemma alloc_row_offset_size: "alloc_row_offset b = Some (off, b') \<Longrightarrow> sb_size b' = sb_size b"
  by (auto simp: alloc_row_offset_def enter_next_group_def finish_row_offset_def Let_def
      split: option.splits bind_splits if_splits dest!: poke32_size poke_size alloc_size)

lemma alloc_row_size: "alloc_row b = Some (code, b') \<Longrightarrow> sb_size b' = sb_size b"
  by (auto simp: alloc_row_def drop_last_row_def Let_def
      split: option.splits bind_splits if_splits dest!: poke32_size poke_size alloc_size alloc_row_offset_size)

lemma put_cell_size: "put_cell r c k v b = Some (code, b') \<Longrightarrow> sb_size b' = sb_size b"
  by (auto simp: put_cell_def split: option.splits bind_splits if_splits dest!: poke_size)

lemma clear_size: "clear b = Some (code, b') \<Longrightarrow> sb_size b' = sb_size b"
  by (auto simp: clear_def reset_header_def split: option.splits bind_splits if_splits dest!: poke32_size)

end
