(* ===== verification/Block_Table.thy ===== *)
theory Block_Table
  imports Block_Rows
begin

text \<open>
  The shared block as a table of cells. \<open>valid_block\<close> hides the ghost layout of \<open>block_ok\<close>; the
  theorems state, for each mutator of \<open>shared_block.rs\<close>, the table it leaves, and for any sequence of
  mutators that no access leaves the mapping.
\<close>

definition valid_block :: "shared_block \<Rightarrow> bool" where
  "valid_block b \<longleftrightarrow> (\<exists>gs ds cols u. block_ok b gs ds cols u)"

definition view_updated :: "shared_block \<Rightarrow> u32 \<Rightarrow> u32 \<Rightarrow> cell \<Rightarrow> shared_block \<Rightarrow> bool" where
  "view_updated b row col x b' \<longleftrightarrow>
     (\<forall>r c. cell_view b' r c = (if (r, c) = (row, col) then Some x else cell_view b r c))"

text \<open>The bytes a block has handed out.\<close>

definition used :: "shared_block \<Rightarrow> nat" where
  "used b = (case used_bytes b of Some w \<Rightarrow> unat w | None \<Rightarrow> 0)"

text \<open>The mutators, as one type of operations.\<close>

datatype block_op =
    OpClear
  | OpSetColumns u32
  | OpAllocRow
  | OpFreeRow
  | OpPutLong u32 u32 i64
  | OpPutDouble u32 u32 f64
  | OpPutNull u32 u32
  | OpPutBlob u32 u32 bytes
  | OpPutString u32 u32 bytes

primrec exec_op :: "block_op \<Rightarrow> shared_block \<Rightarrow> (i32 \<times> shared_block) option" where
  "exec_op OpClear b = clear b"
| "exec_op (OpSetColumns n) b = set_column_num n b"
| "exec_op OpAllocRow b = alloc_row b"
| "exec_op OpFreeRow b = free_last_row b"
| "exec_op (OpPutLong r c v) b = put_long r c v b"
| "exec_op (OpPutDouble r c v) b = put_double r c v b"
| "exec_op (OpPutNull r c) b = put_null r c b"
| "exec_op (OpPutBlob r c d) b = block_put_blob r c d b"
| "exec_op (OpPutString r c d) b = block_put_string r c (Some d) (length d) b"

primrec exec_ops :: "block_op list \<Rightarrow> shared_block \<Rightarrow> shared_block option" where
  "exec_ops [] b = Some b"
| "exec_ops (x # xs) b = (case exec_op x b of None \<Rightarrow> None | Some (_, b') \<Rightarrow> exec_ops xs b')"

lemma valid_blockI: "block_ok b gs ds cols u \<Longrightarrow> valid_block b"
  by (auto simp: valid_block_def)

lemma block_used: "block_ok b gs ds cols u \<Longrightarrow> used b = u"
  by (simp add: used_def used_bytes_def block_layout block_ok_def unat_small)

section \<open>Puts\<close>

lemma in_range:
  assumes "block_ok b gs ds cols u"
  shows "cell_view b row col \<noteq> None \<longleftrightarrow> unat row < length ds \<and> unat col < cols"
  by (simp add: cell_view_block [OF assms])

lemma put_cell_valid:
  assumes "valid_block b" and "\<not> sb_read_only b" and "length v = 8" and "kind \<noteq> 3" "kind \<noteq> 4"
  shows "if cell_view b row col \<noteq> None
    then \<exists>b'. put_cell row col kind v b = Some (SHARED_BLOCK_OK, b') \<and> valid_block b' \<and> \<not> sb_read_only b'
      \<and> view_updated b row col (decode [] (le_bytes 4 kind @ v)) b'
    else put_cell row col kind v b = Some (SHARED_BLOCK_BAD_VALUE, b)"
proof -
  obtain gs ds cols u where b: "block_ok b gs ds cols u" using assms(1) by (auto simp: valid_block_def)
  show ?thesis
  proof (cases "unat row < length ds \<and> unat col < cols")
    case True
    then show ?thesis
      using put_cell_block [OF b assms(2-), of row col] assms(2)
      unfolding in_range [OF b] view_updated_def by (auto intro: valid_blockI)
  next
    case False
    then show ?thesis
      using put_cell_block [OF b assms(2-), of row col] unfolding in_range [OF b] by (simp only: if_False)
  qed
qed

lemma decode_words:
  "decode [] (le_bytes 4 (1 :: i32) @ le_bytes 8 v) = CLong v"
  "decode [] (le_bytes 4 (2 :: i32) @ le_bytes 8 v) = CDouble v"
  "decode [] (le_bytes 4 (0 :: i32) @ w) = CNull"
  by (simp_all add: decode_def cell_kind_def le_word_le_bytes)

lemma put_data_valid:
  assumes "valid_block b" and ro: "\<not> sb_read_only b" and kind: "kind = 3 \<or> kind = 4"
  shows "if cell_view b row col \<noteq> None
    then put_blob_or_string row col (Some d) (length d) kind b = Some (SHARED_BLOCK_NO_MEMORY, b)
        \<and> sb_size b \<le> used b + 3 + length d
      \<or> (\<exists>b'. put_blob_or_string row col (Some d) (length d) kind b = Some (SHARED_BLOCK_OK, b') \<and> valid_block b'
          \<and> \<not> sb_read_only b' \<and> view_updated b row col (if kind = 3 then CString d else CBlob d) b')
    else put_blob_or_string row col (Some d) (length d) kind b = Some (SHARED_BLOCK_BAD_VALUE, b)"
proof -
  obtain gs ds cols u where b: "block_ok b gs ds cols u" using assms(1) by (auto simp: valid_block_def)
  show ?thesis
  proof (cases "unat row < length ds \<and> unat col < cols")
    case True
    then have "cell_view b row col \<noteq> None" by (simp only: in_range [OF b])
    moreover have "put_blob_or_string row col (Some d) (length d) kind b = Some (SHARED_BLOCK_NO_MEMORY, b)
        \<and> sb_size b \<le> used b + 3 + length d
      \<or> (\<exists>b'. put_blob_or_string row col (Some d) (length d) kind b = Some (SHARED_BLOCK_OK, b') \<and> valid_block b'
          \<and> \<not> sb_read_only b' \<and> view_updated b row col (if kind = 3 then CString d else CBlob d) b')"
      using put_data_block [OF b ro kind, of row col d] True ro
      unfolding view_updated_def block_used [OF b] by (auto intro: valid_blockI)
    ultimately show ?thesis by (simp only: if_True simp_thms)
  next
    case False
    then have "get_cell_unit b row col = Some None" by (simp only: get_cell_unit_block [OF b] if_False)
    then have "put_blob_or_string row col (Some d) (length d) kind b = Some (SHARED_BLOCK_BAD_VALUE, b)"
      using ro by (simp add: put_blob_or_string_def)
    moreover have "\<not> cell_view b row col \<noteq> None" using False by (simp only: in_range [OF b] not_False_eq_True)
    ultimately show ?thesis by (simp only: if_False)
  qed
qed

text \<open>C9: writing a fixed-size cell of a valid block refines an update of the table. In range the put
  succeeds, the cell afterwards reads as the value written, and no other cell, string or blob
  changes; out of range the put is refused and the block is untouched.\<close>

theorem put_fixed_refines_update:
  assumes "valid_block b" and "\<not> sb_read_only b"
  shows "if cell_view b row col \<noteq> None
    then (\<exists>b'. put_long row col v b = Some (SHARED_BLOCK_OK, b') \<and> valid_block b' \<and> view_updated b row col (CLong v) b')
      \<and> (\<exists>b'. put_double row col w b = Some (SHARED_BLOCK_OK, b') \<and> valid_block b' \<and> view_updated b row col (CDouble w) b')
      \<and> (\<exists>b'. put_null row col b = Some (SHARED_BLOCK_OK, b') \<and> valid_block b' \<and> view_updated b row col CNull b')
    else put_long row col v b = Some (SHARED_BLOCK_BAD_VALUE, b)
      \<and> put_double row col w b = Some (SHARED_BLOCK_BAD_VALUE, b) \<and> put_null row col b = Some (SHARED_BLOCK_BAD_VALUE, b)"
  using put_cell_valid [OF assms, of "le_bytes 8 v" 1 row col] put_cell_valid [OF assms, of "le_bytes 8 w" 2 row col]
    put_cell_valid [OF assms, of "le_bytes 4 (0 :: u32) @ le_bytes 4 (0 :: u32)" 0 row col]
  by (auto simp: put_long_def put_double_def put_null_def cell_types decode_words split: if_splits)

lemma sample_table: "\<exists>b. valid_block b \<and> \<not> sb_read_only b \<and> cell_view b 0 0 = Some CNull \<and> cell_view b 0 1 = Some CNull"
proof -
  obtain b0 where b0: "block_ok b0 [28] [] 0 432" "\<not> sb_read_only b0" "sb_size b0 = 4096"
    using create_block [of "replicate 4096 0" 4096 "''t''"] by auto
  obtain b1 where b1: "block_ok b1 [28] [] 2 432" "\<not> sb_read_only b1" "sb_size b1 = 4096"
    using set_column_num_block [OF b0(1,2), of 2] b0 by auto
  obtain code b2 gs ds u where b2: "block_ok b2 gs ds 2 u" "\<not> sb_read_only b2"
      "if code = SHARED_BLOCK_OK
       then length ds = Suc (length ([] :: nat list))
         \<and> (\<forall>r c. cell_view b2 r c = (if unat r = length ([] :: nat list) \<and> unat c < 2 then Some CNull else cell_view b1 r c))
       else same_view b1 b2 \<and> (0 < (2 :: nat) \<longrightarrow> ds = []) \<and> sb_size b1 \<le> 432 + 422 + 12 * 2"
    using alloc_row_block [OF b1(1,2)] by blast
  then have "\<forall>r c. cell_view b2 r c = (if unat r = 0 \<and> unat c < 2 then Some CNull else cell_view b1 r c)"
    using b1 by (simp split: if_splits)
  with b2 show ?thesis by (auto intro: valid_blockI)
qed

theorem put_fixed_refines_update_witness:
  "\<exists>b b'. valid_block b \<and> put_long 0 0 7 b = Some (SHARED_BLOCK_OK, b')
    \<and> cell_view b' 0 0 = Some (CLong 7) \<and> cell_view b' 0 1 = Some CNull"
proof -
  obtain b where b: "valid_block b" "\<not> sb_read_only b" "cell_view b 0 0 = Some CNull" "cell_view b 0 1 = Some CNull"
    using sample_table by blast
  with put_fixed_refines_update [OF b(1,2), of 0 0 7 0] show ?thesis by (auto simp: view_updated_def)
qed

text \<open>C10: writing a blob or a string of a valid block refines an update of the table: in range it either
  stores the bytes given, changing no other cell, or reports exhausted memory and leaves the block
  as it was, which happens only when less than the data and three bytes are left.\<close>

theorem put_data_refines_update:
  assumes "valid_block b" and "\<not> sb_read_only b"
  shows "if cell_view b row col \<noteq> None
    then (block_put_blob row col d b = Some (SHARED_BLOCK_NO_MEMORY, b) \<and> sb_size b \<le> used b + 3 + length d
        \<or> (\<exists>b'. block_put_blob row col d b = Some (SHARED_BLOCK_OK, b') \<and> valid_block b' \<and> view_updated b row col (CBlob d) b'))
      \<and> (block_put_string row col (Some d) (length d) b = Some (SHARED_BLOCK_NO_MEMORY, b) \<and> sb_size b \<le> used b + 3 + length d
        \<or> (\<exists>b'. block_put_string row col (Some d) (length d) b = Some (SHARED_BLOCK_OK, b') \<and> valid_block b'
            \<and> view_updated b row col (CString d) b'))
    else block_put_blob row col d b = Some (SHARED_BLOCK_BAD_VALUE, b)
      \<and> block_put_string row col (Some d) (length d) b = Some (SHARED_BLOCK_BAD_VALUE, b)"
  using put_data_valid [OF assms, of 4 row col d] put_data_valid [OF assms, of 3 row col d]
  by (auto simp: block_put_blob_def block_put_string_def cell_types split: if_splits)

theorem put_data_refines_update_witness:
  "\<exists>b. valid_block b \<and> (block_put_blob 0 1 [1, 2] b = Some (SHARED_BLOCK_NO_MEMORY, b)
    \<or> (\<exists>b'. block_put_blob 0 1 [1, 2] b = Some (SHARED_BLOCK_OK, b') \<and> cell_view b' 0 1 = Some (CBlob [1, 2])))"
proof -
  obtain b where b: "valid_block b" "\<not> sb_read_only b" "cell_view b 0 1 = Some CNull"
    using sample_table by blast
  with put_data_refines_update [OF b(1,2), of 0 1 "[1, 2]"] show ?thesis by (auto simp: view_updated_def)
qed

text \<open>What the typed readers return for a string cell.\<close>

lemma cell_view_string:
  assumes "cell_view b r c = Some (CString d)"
  shows "\<exists>cv. get_cell_value b r c = Some (Inr (CELL_UNIT_TYPE_STRING, cv)) \<and> cv_cell_type cv = CELL_UNIT_TYPE_STRING
    \<and> get_cell_unit_str b cv =
      Some (let s = of_bytes (takeWhile (\<lambda>x. x \<noteq> 0) d) in if utf8_valid s then Inr s else Inl ErrInvalidOperation)"
proof -
  obtain cv where cv: "get_cell_value b r c = Some (Inr (CELL_UNIT_TYPE_STRING, cv))"
      "get_string_data b (cv_offset cv) (cv_size cv) = Some (Inr d)"
    using assms
    by (auto simp: cell_view_def cell_types split: option.splits sum.splits prod.splits if_splits)
  then have "cv_cell_type cv = CELL_UNIT_TYPE_STRING"
    by (auto simp: get_cell_value_def Let_def cell_types split: option.splits bind_splits)
  moreover obtain p where "offset_to_ptr b (cv_offset cv) (cv_size cv) = Some p" "load p (unat (cv_size cv)) (sb_mem b) = Some d"
    using cv(2) by (auto simp: get_string_data_def split: option.splits bind_splits)
  ultimately show ?thesis
    using cv(1) by (auto simp: get_cell_unit_str_def Let_def)
qed

lemma char_of_0: "char_of (0 :: nat) = CHR 0x00"
  by code_simp

text \<open>A string written through the string interface is the string read back through it: for every
  text without NUL bytes, a successful put makes the cell read as that text, through the terminating
  NUL the code appends.\<close>

theorem put_string_str_roundtrip:
  assumes "valid_block b" and "\<not> sb_read_only b" and "cell_view b row col \<noteq> None"
    and "utf8_valid s" and "CHR 0x00 \<notin> set s"
  shows "put_string_str row col s b = Some (Inl ErrOutOfMemory, b) \<and> sb_size b \<le> used b + 4 + length s
    \<or> (\<exists>b' cv. put_string_str row col s b = Some (Inr (), b') \<and> valid_block b'
        \<and> get_cell_value b' row col = Some (Inr (CELL_UNIT_TYPE_STRING, cv)) \<and> get_cell_unit_str b' cv = Some (Inr s))"
proof -
  let ?buf = "as_bytes s @ [0]"
  have "byte_of c \<noteq> 0" if "c \<in> set s" for c
    using that assms(5) char_of_byte_of [of c] char_of_0 by (auto simp: char_of_byte_def)
  then have tw: "takeWhile (\<lambda>x. x \<noteq> 0) ?buf = as_bytes s"
    by (subst takeWhile_append2) (auto simp: as_bytes_def)
  from put_data_valid [OF assms(1,2), of 3 row col ?buf] assms(3) consider
    "block_put_string row col (Some ?buf) (length ?buf) b = Some (SHARED_BLOCK_NO_MEMORY, b)" "sb_size b \<le> used b + 3 + length ?buf"
    | b' where "block_put_string row col (Some ?buf) (length ?buf) b = Some (SHARED_BLOCK_OK, b')" "valid_block b'"
      "view_updated b row col (CString ?buf) b'"
    by (auto simp: block_put_string_def cell_types)
  then show ?thesis
  proof cases
    case 1
    then show ?thesis by (simp add: put_string_str_def result_from_code_def block_codes)
  next
    case 2
    then have "cell_view b' row col = Some (CString ?buf)" by (simp add: view_updated_def)
    from cell_view_string [OF this] 2 tw assms(4) show ?thesis
      by (auto simp: put_string_str_def result_from_code_def block_codes)
  qed
qed

theorem put_string_str_roundtrip_witness:
  "\<exists>b. valid_block b \<and> (put_string_str 0 1 ''hi'' b = Some (Inl ErrOutOfMemory, b)
    \<or> (\<exists>b' cv. put_string_str 0 1 ''hi'' b = Some (Inr (), b') \<and> get_cell_unit_str b' cv = Some (Inr ''hi'')))"
proof -
  obtain b where b: "valid_block b" "\<not> sb_read_only b" "cell_view b 0 1 \<noteq> None"
    using sample_table by blast
  have "utf8_valid ''hi''" by (simp add: utf8_valid_def)
  with put_string_str_roundtrip [OF b, of "''hi''"] b(1) show ?thesis by auto
qed

section \<open>Rows\<close>

text \<open>C11: allocating a row of a valid block appends a row of null cells and changes no other cell, or
  reports failure and changes no cell; the block stays valid either way. Only a block without
  columns can fail with anything but exhausted memory, and never while a full row group, the row and
  a few bytes of slack still fit.\<close>

theorem alloc_row_refines_append:
  assumes "valid_block b" and "\<not> sb_read_only b"
  shows "\<exists>code b' rows cols. alloc_row b = Some (code, b') \<and> valid_block b' \<and> \<not> sb_read_only b'
    \<and> row_num b = Some (of_nat rows) \<and> column_num b = Some (of_nat cols) \<and> rows < 2 ^ 31 \<and> cols \<le> 32767
    \<and> (if code = SHARED_BLOCK_OK
       then row_num b' = Some (of_nat (Suc rows))
         \<and> (\<forall>r c. cell_view b' r c = (if unat r = rows \<and> unat c < cols then Some CNull else cell_view b r c))
       else same_view b b' \<and> (code = SHARED_BLOCK_NO_MEMORY \<or> code = SHARED_BLOCK_BAD_VALUE \<and> cols = 0)
         \<and> sb_size b \<le> used b + 422 + 12 * cols)"
proof -
  obtain gs ds cols u where b: "block_ok b gs ds cols u" using assms(1) by (auto simp: valid_block_def)
  obtain code b' gs' ds' u' where *: "alloc_row b = Some (code, b')" "block_ok b' gs' ds' cols u'" "\<not> sb_read_only b'"
    "code = SHARED_BLOCK_OK \<or> code = SHARED_BLOCK_NO_MEMORY \<or> code = SHARED_BLOCK_BAD_VALUE \<and> cols = 0"
    "if code = SHARED_BLOCK_OK
       then length ds' = Suc (length ds)
          \<and> (\<forall>r c. cell_view b' r c = (if unat r = length ds \<and> unat c < cols then Some CNull else cell_view b r c))
       else same_view b b' \<and> (0 < cols \<longrightarrow> ds' = ds) \<and> sb_size b \<le> used b + 422 + 12 * cols"
    using alloc_row_block [OF b assms(2)] unfolding block_used [OF b] by blast
  have "row_num b = Some (of_nat (length ds))" "column_num b = Some (of_nat cols)" "length ds < 2 ^ 31" "cols \<le> 32767"
    using b block_rows_small [OF b] by (auto simp: row_num_def column_num_def block_layout block_ok_def)
  moreover have "row_num b' = Some (of_nat (length ds'))" using *(2) by (auto simp: row_num_def block_layout block_ok_def)
  moreover have "valid_block b'" using *(2) by (auto simp: valid_block_def)
  ultimately show ?thesis
    using * by (intro exI [of _ code] exI [of _ b'] exI [of _ "length ds"] exI [of _ cols]) auto
qed

theorem alloc_row_refines_append_witness:
  "\<exists>b code b'. valid_block b \<and> alloc_row b = Some (code, b') \<and> valid_block b'"
proof -
  obtain b where b: "valid_block b" "\<not> sb_read_only b" using sample_table by blast
  from alloc_row_refines_append [OF b] b(1) show ?thesis by blast
qed

section \<open>Any sequence of mutators\<close>

lemma valid_basic: "valid_block b \<Longrightarrow> sb_mapped b \<and> sb_size b = length (sb_mem b) \<and> 432 < sb_size b \<and> sb_size b < 2 ^ 31"
  by (auto simp: valid_block_def block_ok_def)

lemma exec_op_valid:
  assumes v: "valid_block b"
  shows "\<exists>code b'. exec_op x b = Some (code, b') \<and> valid_block b'"
proof (cases "sb_read_only b")
  case True
  then have "exec_op x b = Some (SHARED_BLOCK_INVALID_OPERATION, b)"
    by (cases x) (simp_all add: clear_def set_column_num_def alloc_row_def free_last_row_def put_long_def put_double_def
        put_null_def put_cell_def block_put_blob_def block_put_string_def put_blob_or_string_def)
  with v show ?thesis by blast
next
  case ro: False
  obtain gs ds cols u where b: "block_ok b gs ds cols u" using v by (auto simp: valid_block_def)
  show ?thesis
  proof (cases x)
    case OpClear
    then show ?thesis using clear_block [of b] valid_basic [OF v] ro by (auto intro: valid_blockI)
  next
    case (OpSetColumns n)
    then show ?thesis using set_column_num_block [OF b ro, of n] v by (auto intro: valid_blockI split: if_splits)
  next
    case OpAllocRow
    then show ?thesis using alloc_row_block [OF b ro] by (auto intro: valid_blockI)
  next
    case OpFreeRow
    then show ?thesis using free_last_row_block [OF b ro] by (auto intro: valid_blockI)
  next
    case (OpPutLong r c w)
    then show ?thesis
      using put_cell_valid [OF v ro, of "le_bytes 8 w" 1 r c] v by (auto simp: put_long_def cell_types split: if_splits)
  next
    case (OpPutDouble r c w)
    then show ?thesis
      using put_cell_valid [OF v ro, of "le_bytes 8 w" 2 r c] v by (auto simp: put_double_def cell_types split: if_splits)
  next
    case (OpPutNull r c)
    then show ?thesis
      using put_cell_valid [OF v ro, of "le_bytes 4 (0 :: u32) @ le_bytes 4 (0 :: u32)" 0 r c] v
      by (auto simp: put_null_def cell_types split: if_splits)
  next
    case (OpPutBlob r c d)
    then show ?thesis
      using put_data_valid [OF v ro, of 4 r c d] v by (auto simp: block_put_blob_def cell_types split: if_splits)
  next
    case (OpPutString r c d)
    then show ?thesis
      using put_data_valid [OF v ro, of 3 r c d] v by (auto simp: block_put_string_def cell_types split: if_splits)
  qed
qed

lemma exec_ops_valid: "valid_block b \<Longrightarrow> \<exists>b'. exec_ops xs b = Some b' \<and> valid_block b'"
proof (induction xs arbitrary: b)
  case (Cons x xs)
  then show ?case using exec_op_valid [of b x] by fastforce
qed simp

text \<open>C3: memory safety of the writer side. A block created on a region of its own size is valid and
  empty, and whatever sequence of mutators runs on it, with any arguments, no access leaves the
  mapping and the block stays valid.\<close>

theorem created_block_memory_safe:
  assumes "length region = n" and "432 < n" and "n < 2 ^ 31"
  shows "\<exists>b. create (Some region) True True name n = Some (Inr b) \<and> valid_block b
    \<and> row_num b = Some 0 \<and> (\<forall>r c. cell_view b r c = None)
    \<and> (\<forall>ops. \<exists>b'. exec_ops ops b = Some b' \<and> valid_block b')"
proof -
  obtain b where b: "create (Some region) True True name n = Some (Inr b)" "block_ok b [28] [] 0 432"
    using create_block [OF assms] by blast
  then have "valid_block b" by (auto simp: valid_block_def)
  moreover have "row_num b = Some 0" using b(2) by (simp add: row_num_def block_layout block_ok_def)
  moreover have "cell_view b r c = None" for r c by (simp add: cell_view_block [OF b(2)])
  ultimately show ?thesis using b exec_ops_valid by blast
qed

theorem created_block_memory_safe_witness:
  "\<exists>b b'. create (Some (replicate 8192 0)) True True ''x'' 8192 = Some (Inr b)
    \<and> exec_ops [OpSetColumns 2, OpAllocRow, OpPutLong 0 0 42, OpPutString 0 1 [104, 0], OpPutLong 9 9 1] b = Some b'"
proof -
  have "\<exists>b. create (Some (replicate 8192 0)) True True ''x'' 8192 = Some (Inr b) \<and> valid_block b
    \<and> row_num b = Some 0 \<and> (\<forall>r c. cell_view b r c = None) \<and> (\<forall>ops. \<exists>b'. exec_ops ops b = Some b' \<and> valid_block b')"
    by (rule created_block_memory_safe) simp_all
  then show ?thesis by blast
qed

section \<open>Blocks from another process\<close>

definition hostile_block :: shared_block where
  "hostile_block = \<lparr>sb_name = ''h'', sb_size = 2000, sb_read_only = True, sb_mapped = True,
     sb_mem = le_bytes 4 (432 :: u32) @ le_bytes 4 (28 :: u32) @ le_bytes 4 (1 :: u32) @ le_bytes 4 (300 :: u32)
       @ replicate 12 0 @ le_bytes 4 (1900 :: u32) @ replicate 1968 0\<rparr>"

text \<open>The reader side trusts the row directory of a received block. Only the first cell of a row is
  checked against the mapping, so a block of 2000 bytes whose header claims 300 columns makes the
  code read a cell outside it.\<close>

theorem received_block_unchecked_cell:
  "get_cell_unit hostile_block 0 299 = Some (Some 5488) \<and> length (sb_mem hostile_block) = 2000
   \<and> get_cell_value hostile_block 0 299 = None"
proof -
  let ?a = "le_bytes 4 (432 :: u32)" and ?b = "le_bytes 4 (28 :: u32)" and ?c = "le_bytes 4 (1 :: u32)"
    and ?d = "le_bytes 4 (300 :: u32)" and ?e = "le_bytes 4 (1900 :: u32)"
  have len: "length (sb_mem hostile_block) = 2000" by (simp add: hostile_block_def)
  have h: "load32 4 (sb_mem hostile_block) = Some 28" "load32 8 (sb_mem hostile_block) = Some 1"
      "load32 12 (sb_mem hostile_block) = Some 300" "load32 28 (sb_mem hostile_block) = Some 1900"
    by (simp_all add: hostile_block_def load32_def load_def le_word_le_bytes)
  have p: "offset_to_ptr hostile_block 28 404 = Some 28" "offset_to_ptr hostile_block 1900 12 = Some 1900"
    using offset_to_ptr_in [of hostile_block 28 404] offset_to_ptr_in [of hostile_block 1900 12]
    by (simp_all add: hostile_block_def)
  have c: "get_cell_unit hostile_block 0 299 = Some (Some 5488)"
    using h p by (simp add: get_cell_unit_def get_row_offset_def get_row_walk.simps hdr_def block_layout)
  with len show ?thesis by (simp add: get_cell_value_def load_def block_layout)
qed

end
