(* ===== verification/Block_Writer.thy ===== *)
theory Block_Writer
  imports Block_Table
begin

text \<open>
  \<open>block_writer.rs\<close> and the \<open>Writer\<close> trait of \<open>result_set_bridge.rs\<close>: row-by-row population of a shared
  block. The locale \<open>call_machine\<close> is what a bridge may rely on: every call returns and keeps the
  invariant, so every script of calls does; the block writer is its interpretation \<open>bw\<close>.
\<close>

section \<open>The writer\<close>

record block_writer =
  bw_block :: "shared_block option"

definition E_OK :: i32 where "E_OK = 0"
definition E_ERROR :: i32 where "E_ERROR = - 1"

definition convert_error_code :: "i32 \<Rightarrow> i32" where
  "convert_error_code code = (if code = SHARED_BLOCK_OK then E_OK else E_ERROR)"

definition writer_new :: block_writer where
  "writer_new = \<lparr>bw_block = None\<rparr>"

definition from_block :: "shared_block \<Rightarrow> block_writer" where
  "from_block b = \<lparr>bw_block = Some b\<rparr>"

text \<open>\<open>created\<close> is the outcome of \<open>SharedBlock::create\<close>.\<close>

definition new_with_block :: "(i32 + shared_block) \<Rightarrow> block_writer" where
  "new_with_block created = \<lparr>bw_block = (case created of Inl _ \<Rightarrow> None | Inr b \<Rightarrow> Some b)\<rparr>"

definition writer_create :: "(i32 + shared_block) \<Rightarrow> block_writer ds_result" where
  "writer_create created = (case created of Inl _ \<Rightarrow> Inl ErrOutOfMemory | Inr b \<Rightarrow> Inr \<lparr>bw_block = Some b\<rparr>)"

text \<open>The two shapes of the methods: \<open>match self.block.as_mut()\<close> with \<open>E_ERROR\<close>, and \<open>ok_or\<close> with
  \<open>InvalidOperation\<close>.\<close>

definition with_code :: "(shared_block \<Rightarrow> (i32 \<times> shared_block) option) \<Rightarrow> block_writer \<Rightarrow> (i32 \<times> block_writer) option" where
  "with_code f w =
     (case bw_block w of
        None \<Rightarrow> Some (E_ERROR, w)
      | Some b \<Rightarrow> do { (code, b) \<leftarrow> f b; Some (convert_error_code code, w\<lparr>bw_block := Some b\<rparr>) })"

definition with_result ::
  "(shared_block \<Rightarrow> (i32 \<times> shared_block) option) \<Rightarrow> block_writer \<Rightarrow> (unit ds_result \<times> block_writer) option" where
  "with_result f w =
     (case bw_block w of
        None \<Rightarrow> Some (Inl ErrInvalidOperation, w)
      | Some b \<Rightarrow> do { (code, b) \<leftarrow> f b; Some (result_from_code code, w\<lparr>bw_block := Some b\<rparr>) })"

definition writer_clear :: "block_writer \<Rightarrow> (unit ds_result \<times> block_writer) option" where
  "writer_clear w = with_result clear w"

definition writer_alloc_row :: "block_writer \<Rightarrow> (i32 \<times> block_writer) option" where
  "writer_alloc_row w = with_code alloc_row w"

definition writer_free_last_row :: "block_writer \<Rightarrow> (i32 \<times> block_writer) option" where
  "writer_free_last_row w = with_code free_last_row w"

definition current_row_index :: "block_writer \<Rightarrow> u32 option option" where
  "current_row_index w =
     (case bw_block w of
        None \<Rightarrow> Some None
      | Some b \<Rightarrow> do { n \<leftarrow> row_num b; Some (if n > 0 then Some (n - 1) else None) })"

definition at_current_row ::
  "(u32 \<Rightarrow> shared_block \<Rightarrow> (i32 \<times> shared_block) option) \<Rightarrow> block_writer \<Rightarrow> (i32 \<times> block_writer) option" where
  "at_current_row f w = do {
     row \<leftarrow> current_row_index w;
     case row of None \<Rightarrow> Some (E_ERROR, w) | Some r \<Rightarrow> with_code (f r) w
   }"

definition writer_write_null :: "u32 \<Rightarrow> block_writer \<Rightarrow> (i32 \<times> block_writer) option" where
  "writer_write_null col w = at_current_row (\<lambda>row. put_null row col) w"

definition writer_write_long :: "u32 \<Rightarrow> i64 \<Rightarrow> block_writer \<Rightarrow> (i32 \<times> block_writer) option" where
  "writer_write_long col v w = at_current_row (\<lambda>row. put_long row col v) w"

definition writer_write_double :: "u32 \<Rightarrow> f64 \<Rightarrow> block_writer \<Rightarrow> (i32 \<times> block_writer) option" where
  "writer_write_double col v w = at_current_row (\<lambda>row. put_double row col v) w"

definition writer_write_blob :: "u32 \<Rightarrow> bytes \<Rightarrow> block_writer \<Rightarrow> (i32 \<times> block_writer) option" where
  "writer_write_blob col data w = at_current_row (\<lambda>row. block_put_blob row col data) w"

definition writer_write_string :: "u32 \<Rightarrow> bytes option \<Rightarrow> nat \<Rightarrow> block_writer \<Rightarrow> (i32 \<times> block_writer) option" where
  "writer_write_string col data size_inc_null w = at_current_row (\<lambda>row. block_put_string row col data size_inc_null) w"

definition writer_set_column_num :: "u32 \<Rightarrow> block_writer \<Rightarrow> (unit ds_result \<times> block_writer) option" where
  "writer_set_column_num n w = with_result (set_column_num n) w"

definition alloc_row_legacy :: "block_writer \<Rightarrow> (unit ds_result \<times> block_writer) option" where
  "alloc_row_legacy w = with_result alloc_row w"

text \<open>The legacy writers take the row from the block and refuse an empty one.\<close>

definition at_last_row ::
  "(u32 \<Rightarrow> shared_block \<Rightarrow> (i32 \<times> shared_block) option) \<Rightarrow> block_writer \<Rightarrow> (unit ds_result \<times> block_writer) option" where
  "at_last_row f w =
     (case bw_block w of
        None \<Rightarrow> Some (Inl ErrInvalidOperation, w)
      | Some b \<Rightarrow> do {
          row \<leftarrow> row_num b;
          if row = 0 then Some (Inl ErrInvalidOperation, w) else with_result (f (row - 1)) w
        })"

definition write_string_str :: "u32 \<Rightarrow> string \<Rightarrow> block_writer \<Rightarrow> (unit ds_result \<times> block_writer) option" where
  "write_string_str col value w =
     (let buf = as_bytes value @ [0] in at_last_row (\<lambda>row. block_put_string row col (Some buf) (length buf)) w)"

definition write_blob_slice :: "u32 \<Rightarrow> bytes \<Rightarrow> block_writer \<Rightarrow> (unit ds_result \<times> block_writer) option" where
  "write_blob_slice col data w = at_last_row (\<lambda>row. block_put_blob row col data) w"

definition write_null_legacy :: "u32 \<Rightarrow> block_writer \<Rightarrow> (unit ds_result \<times> block_writer) option" where
  "write_null_legacy col w = at_last_row (\<lambda>row. put_null row col) w"

definition write_long_legacy :: "u32 \<Rightarrow> i64 \<Rightarrow> block_writer \<Rightarrow> (unit ds_result \<times> block_writer) option" where
  "write_long_legacy col v w = at_last_row (\<lambda>row. put_long row col v) w"

definition write_double_legacy :: "u32 \<Rightarrow> f64 \<Rightarrow> block_writer \<Rightarrow> (unit ds_result \<times> block_writer) option" where
  "write_double_legacy col v w = at_last_row (\<lambda>row. put_double row col v) w"

definition take_block :: "block_writer \<Rightarrow> shared_block option \<times> block_writer" where
  "take_block w = (bw_block w, w\<lparr>bw_block := None\<rparr>)"

section \<open>Scripts of writer calls\<close>

text \<open>\<open>impl Writer for BlockWriter\<close>.\<close>

datatype writer_call = WAllocRow | WNull u32 | WLong u32 i64 | WDouble u32 f64 | WBlob u32 bytes | WString u32 string

primrec writer_step :: "writer_call \<Rightarrow> block_writer \<Rightarrow> (unit ds_result \<times> block_writer) option" where
  "writer_step WAllocRow w = alloc_row_legacy w"
| "writer_step (WNull c) w = write_null_legacy c w"
| "writer_step (WLong c v) w = write_long_legacy c v w"
| "writer_step (WDouble c v) w = write_double_legacy c v w"
| "writer_step (WBlob c v) w = write_blob_slice c v w"
| "writer_step (WString c v) w = write_string_str c v w"

text \<open>A script stops at its first error, as calls chained with \<open>?\<close> do.\<close>

primrec run_script :: "('c \<Rightarrow> 's \<Rightarrow> (unit ds_result \<times> 's) option) \<Rightarrow> 'c list \<Rightarrow> 's \<Rightarrow> (unit ds_result \<times> 's) option" where
  "run_script step [] s = Some (Inr (), s)"
| "run_script step (c # cs) s =
     (case step c s of
        None \<Rightarrow> None
      | Some (Inl e, s') \<Rightarrow> Some (Inl e, s')
      | Some (Inr _, s') \<Rightarrow> run_script step cs s')"

text \<open>A caller may also go on after an error: all the calls run, whatever they return.\<close>

primrec run_all :: "('c \<Rightarrow> 's \<Rightarrow> (unit ds_result \<times> 's) option) \<Rightarrow> 'c list \<Rightarrow> 's \<Rightarrow> 's option" where
  "run_all step [] s = Some s"
| "run_all step (c # cs) s = (case step c s of None \<Rightarrow> None | Some (_, s') \<Rightarrow> run_all step cs s')"

locale call_machine =
  fixes step :: "'c \<Rightarrow> 's \<Rightarrow> (unit ds_result \<times> 's) option" and ok :: "'s \<Rightarrow> bool"
  assumes step_total: "ok s \<Longrightarrow> \<exists>r s'. step c s = Some (r, s') \<and> ok s'"
begin

lemma script_total: "ok s \<Longrightarrow> \<exists>r s'. run_script step cs s = Some (r, s') \<and> ok s'"
proof (induction cs arbitrary: s)
  case (Cons c cs)
  obtain r s' where "step c s = Some (r, s')" "ok s'" using step_total [OF Cons.prems, of c] by blast
  with Cons.IH [of s'] show ?case by (cases r) auto
qed simp

lemma run_all_total: "ok s \<Longrightarrow> \<exists>s'. run_all step cs s = Some s' \<and> ok s'"
proof (induction cs arbitrary: s)
  case (Cons c cs)
  then show ?case using step_total [OF Cons.prems, of c] by fastforce
qed simp

lemma script_append:
  "run_script step (xs @ ys) s =
     (case run_script step xs s of
        None \<Rightarrow> None | Some (Inl e, s') \<Rightarrow> Some (Inl e, s') | Some (Inr _, s') \<Rightarrow> run_script step ys s')"
  by (induction xs arbitrary: s) (auto split: option.splits prod.splits sum.splits)

end

definition writer_ok :: "block_writer \<Rightarrow> bool" where
  "writer_ok w \<longleftrightarrow> (case bw_block w of None \<Rightarrow> True | Some b \<Rightarrow> valid_block b)"

lemma with_result_ok:
  assumes "writer_ok w" and "\<And>b. valid_block b \<Longrightarrow> \<exists>code b'. f b = Some (code, b') \<and> valid_block b'"
  shows "\<exists>r w'. with_result f w = Some (r, w') \<and> writer_ok w'"
proof (cases "bw_block w")
  case None
  with assms(1) show ?thesis by (simp add: with_result_def)
next
  case (Some b)
  with assms(1) have "valid_block b" by (simp add: writer_ok_def)
  then obtain code b' where "f b = Some (code, b')" "valid_block b'" using assms(2) by blast
  with Some show ?thesis by (simp add: with_result_def writer_ok_def)
qed

lemma at_last_row_ok:
  assumes "writer_ok w" and "\<And>row b. valid_block b \<Longrightarrow> \<exists>code b'. f row b = Some (code, b') \<and> valid_block b'"
  shows "\<exists>r w'. at_last_row f w = Some (r, w') \<and> writer_ok w'"
proof (cases "bw_block w")
  case None
  with assms(1) show ?thesis by (simp add: at_last_row_def)
next
  case (Some b)
  with assms(1) have "valid_block b" by (simp add: writer_ok_def)
  then obtain n where n: "row_num b = Some n" by (auto simp: valid_block_def block_ok_def row_num_def block_layout)
  show ?thesis
    using n Some assms(1) with_result_ok [OF assms(1), of "f (n - 1)"] assms(2) by (auto simp: at_last_row_def)
qed

interpretation bw: call_machine writer_step writer_ok
proof
  fix w c assume w: "writer_ok w"
  have ops: "\<exists>code b'. exec_op x b = Some (code, b') \<and> valid_block b'" if "valid_block b" for x b
    using exec_op_valid [OF that] .
  show "\<exists>r w'. writer_step c w = Some (r, w') \<and> writer_ok w'"
  proof (cases c)
    case WAllocRow
    then show ?thesis using with_result_ok [OF w, of alloc_row] ops [of _ OpAllocRow] by (simp add: alloc_row_legacy_def)
  next
    case (WNull x)
    then show ?thesis
      using at_last_row_ok [OF w, of "\<lambda>row. put_null row x"] ops [of _ "OpPutNull _ x"] by (simp add: write_null_legacy_def)
  next
    case (WLong x v)
    then show ?thesis
      using at_last_row_ok [OF w, of "\<lambda>row. put_long row x v"] ops [of _ "OpPutLong _ x v"] by (simp add: write_long_legacy_def)
  next
    case (WDouble x v)
    then show ?thesis
      using at_last_row_ok [OF w, of "\<lambda>row. put_double row x v"] ops [of _ "OpPutDouble _ x v"] by (simp add: write_double_legacy_def)
  next
    case (WBlob x v)
    then show ?thesis
      using at_last_row_ok [OF w, of "\<lambda>row. block_put_blob row x v"] ops [of _ "OpPutBlob _ x v"] by (simp add: write_blob_slice_def)
  next
    case (WString x v)
    then show ?thesis
      using at_last_row_ok [OF w, of "\<lambda>row. block_put_string row x (Some (as_bytes v @ [0])) (length (as_bytes v @ [0]))"]
        ops [of _ "OpPutString _ x (as_bytes v @ [0])"] by (simp add: write_string_str_def Let_def)
  qed
qed

text \<open>No call takes the block out of the writer or puts one in, so the same contract holds with a block present.\<close>

definition holding :: "block_writer \<Rightarrow> bool" where
  "holding w \<longleftrightarrow> (\<exists>b. bw_block w = Some b \<and> valid_block b)"

lemma with_result_holds: "with_result f w = Some (r, w') \<Longrightarrow> bw_block w' = None \<longleftrightarrow> bw_block w = None"
  by (auto simp: with_result_def split: option.splits bind_splits)

lemma writer_step_holds: "writer_step c w = Some (r, w') \<Longrightarrow> bw_block w' = None \<longleftrightarrow> bw_block w = None"
  by (cases c)
    (auto simp: alloc_row_legacy_def write_null_legacy_def write_long_legacy_def write_double_legacy_def write_blob_slice_def
      write_string_str_def at_last_row_def Let_def split: option.splits bind_splits if_splits dest: with_result_holds)

interpretation held: call_machine writer_step holding
proof
  fix w c assume "holding w"
  then have "writer_ok w" "bw_block w \<noteq> None" by (auto simp: holding_def writer_ok_def)
  with bw.step_total [of w c] writer_step_holds [of c w] show "\<exists>r w'. writer_step c w = Some (r, w') \<and> holding w'"
    by (fastforce simp: holding_def writer_ok_def)
qed

text \<open>Whatever calls a bridge makes on the writer, and wherever its script stops, every call returns
  without touching memory outside the block, and the block it leaves is valid.\<close>

theorem writer_script_safe:
  assumes "writer_ok w"
  shows "\<exists>r w'. run_script writer_step calls w = Some (r, w') \<and> writer_ok w'"
  by (rule bw.script_total [OF assms])

theorem writer_script_safe_witness:
  "\<exists>r w'. run_script writer_step [WAllocRow, WLong 0 1] writer_new = Some (r, w') \<and> writer_ok w'"
  by (rule writer_script_safe) (simp add: writer_ok_def writer_new_def)

end
