(* ===== verification/F64.thy ===== *)
theory F64
  imports Prelude
begin

text \<open>
  What the sources use of \<open>f64\<close>, on the IEEE 754 bit pattern: the casts from and to integers, and the
  comparisons of the JSON writer. Printing and parsing of floating-point text come from the standard
  library's algorithms and are parameters of the definitions that use them.
\<close>

section \<open>Casts between f64 and integers\<close>

definition f64_exponent :: "f64 \<Rightarrow> nat" where
  "f64_exponent x = (unat x div 2 ^ 52) mod 2 ^ 11"

definition f64_mantissa :: "f64 \<Rightarrow> nat" where
  "f64_mantissa x = unat x mod 2 ^ 52"

definition f64_negative :: "f64 \<Rightarrow> bool" where
  "f64_negative x \<longleftrightarrow> 2 ^ 63 \<le> unat x"

text \<open>\<open>x as i64\<close>: truncation towards zero, saturating, NaN to 0.\<close>

definition f64_to_i64 :: "f64 \<Rightarrow> i64" where
  "f64_to_i64 x =
     (let e = f64_exponent x; m = f64_mantissa x;
          magnitude = (if e = 2047 then (if m = 0 then 2 ^ 63 else 0)
                       else (let full = (if e = 0 then m else m + 2 ^ 52); e' = (if e = 0 then 1 else e)
                             in if 1075 \<le> e' then full * 2 ^ min (e' - 1075) 64 else full div 2 ^ (1075 - e')))
      in if f64_negative x then - of_nat (min magnitude (2 ^ 63)) else of_nat (min magnitude (2 ^ 63 - 1)))"

fun ilog2 :: "nat \<Rightarrow> nat" where
  "ilog2 n = (if n < 2 then 0 else Suc (ilog2 (n div 2)))"

declare ilog2.simps [simp del]

text \<open>\<open>v as f64\<close>: nearest, ties to even.\<close>

definition i64_to_f64 :: "i64 \<Rightarrow> f64" where
  "i64_to_f64 v =
     (let a = nat \<bar>sint v\<bar>; k = ilog2 a;
          mant = (if k \<le> 52 then a * 2 ^ (52 - k)
                  else (let s = k - 52; q = a div 2 ^ s; r = a mod 2 ^ s; half = 2 ^ (s - 1)
                        in if half < r \<or> r = half \<and> odd q then q + 1 else q));
          bits = (if a = 0 then 0 else (k + 1023) * 2 ^ 52 + (mant - 2 ^ 52))
      in of_nat (bits + (if sint v < 0 then 2 ^ 63 else 0)))"

text \<open>\<open>v as f64\<close> of an unsigned number.\<close>

definition u64_to_f64 :: "u64 \<Rightarrow> f64" where
  "u64_to_f64 v =
     (let a = unat v; k = ilog2 a;
          mant = (if k \<le> 52 then a * 2 ^ (52 - k)
                  else (let s = k - 52; q = a div 2 ^ s; r = a mod 2 ^ s; half = 2 ^ (s - 1)
                        in if half < r \<or> r = half \<and> odd q then q + 1 else q))
      in of_nat (if a = 0 then 0 else (k + 1023) * 2 ^ 52 + (mant - 2 ^ 52)))"

section \<open>Comparisons\<close>

definition f64_is_nan :: "f64 \<Rightarrow> bool" where
  "f64_is_nan x \<longleftrightarrow> f64_exponent x = 2047 \<and> f64_mantissa x \<noteq> 0"

definition f64_is_infinite :: "f64 \<Rightarrow> bool" where
  "f64_is_infinite x \<longleftrightarrow> f64_exponent x = 2047 \<and> f64_mantissa x = 0"

text \<open>The magnitude without the sign bit; finite magnitudes are ordered as their bit patterns.\<close>

definition f64_magnitude :: "f64 \<Rightarrow> nat" where
  "f64_magnitude x = unat x mod 2 ^ 63"

definition f64_eq :: "f64 \<Rightarrow> f64 \<Rightarrow> bool" where
  "f64_eq x y \<longleftrightarrow> \<not> f64_is_nan x \<and> \<not> f64_is_nan y \<and> (x = y \<or> f64_magnitude x = 0 \<and> f64_magnitude y = 0)"

text \<open>\<open>x.abs() < 1e15\<close>; \<open>0x430C6BF526340000\<close> is the bit pattern of \<open>1e15\<close>.\<close>

definition f64_below_1e15 :: "f64 \<Rightarrow> bool" where
  "f64_below_1e15 x \<longleftrightarrow> \<not> f64_is_nan x \<and> f64_magnitude x < 0x430C6BF526340000"

end
