(* ===== verification/Result_Set.thy ===== *)
theory Result_Set
  imports Block_Writer F64
begin

text \<open>
  \<open>result_set.rs\<close>: the cursor over a shared block, its paging through a bridge and the typed getters
  with their coercions. The bridge is code of the data provider: what its three methods deliver is
  part of the model's state as functions, and what the result set relies on (it only writes through
  the \<open>Writer\<close> interface) is the predicate \<open>bridge_ok\<close>. Lower-casing, printing and parsing of \<open>f64\<close>
  come from the standard library's tables and are parameters; the casts between \<open>f64\<close> and \<open>i64\<close> are
  computed on the bits.
\<close>

section \<open>The result set\<close>

definition INIT_POS :: i32 where
  "INIT_POS = - 1"

datatype data_type = TypeNull | TypeInteger | TypeFloat | TypeString | TypeBlob

primrec data_type_code :: "data_type \<Rightarrow> i32" where
  "data_type_code TypeNull = 0"
| "data_type_code TypeInteger = 1"
| "data_type_code TypeFloat = 2"
| "data_type_code TypeString = 3"
| "data_type_code TypeBlob = 4"

definition data_type_from :: "i32 \<Rightarrow> data_type" where
  "data_type_from val =
     (if val = 0 then TypeNull else if val = 1 then TypeInteger else if val = 2 then TypeFloat
      else if val = 3 then TypeString else if val = 4 then TypeBlob else TypeNull)"

interpretation cell_type: enum_code_default data_type_code data_type_from TypeNull
proof unfold_locales
  show "data_type_from (data_type_code e) = e" for e by (cases e) (simp_all add: data_type_from_def)
  have "data_type_code TypeNull \<in> range data_type_code" "data_type_code TypeInteger \<in> range data_type_code"
    "data_type_code TypeFloat \<in> range data_type_code" "data_type_code TypeString \<in> range data_type_code"
    "data_type_code TypeBlob \<in> range data_type_code" by blast+
  then show "data_type_from c = TypeNull" if "c \<notin> range data_type_code" for c
    using that by (auto simp: data_type_from_def simp del: rangeI)
qed

text \<open>
  A bridge: its own state, its column names and row count in that state, and how it fills a writer
  from a start to a target row, which may change its state.
\<close>

record 's bridge =
  br_state :: 's
  br_names :: "'s \<Rightarrow> string list ds_result"
  br_count :: "'s \<Rightarrow> i32 ds_result"
  br_on_go :: "'s \<Rightarrow> i32 \<Rightarrow> i32 \<Rightarrow> block_writer \<Rightarrow> (unit ds_result \<times> 's \<times> block_writer) option"

record 's result_set =
  rs_block :: "shared_block option"
  rs_column_names :: "string list"
  rs_row_pos :: i32
  rs_count :: i32
  rs_is_closed :: bool
  rs_index_cache :: "string \<Rightarrow> i32 option"
  rs_bridge :: "'s bridge option"
  rs_start_row_pos :: i32
  rs_end_row_pos :: i32

definition result_set_new :: "'s result_set" where
  "result_set_new = \<lparr>rs_block = None, rs_column_names = [], rs_row_pos = INIT_POS, rs_count = 0,
     rs_is_closed = False, rs_index_cache = Map.empty, rs_bridge = None, rs_start_row_pos = - 1, rs_end_row_pos = - 1\<rparr>"

primrec cache_names :: "(string \<Rightarrow> string) \<Rightarrow> nat \<Rightarrow> string list \<Rightarrow> (string \<Rightarrow> i32 option) \<Rightarrow> (string \<Rightarrow> i32 option)" where
  "cache_names lower i [] m = m"
| "cache_names lower i (n # ns) m = cache_names lower (Suc i) ns (m(lower n \<mapsto> of_nat i))"

definition set_column_names :: "(string \<Rightarrow> string) \<Rightarrow> string list \<Rightarrow> 's result_set \<Rightarrow> 's result_set" where
  "set_column_names lower names rs =
     rs\<lparr>rs_column_names := names, rs_index_cache := cache_names lower 0 names Map.empty\<rparr>"

definition with_bridge :: "(string \<Rightarrow> string) \<Rightarrow> 's bridge \<Rightarrow> 's result_set \<Rightarrow> 's result_set" where
  "with_bridge lower br rs =
     (let rs = (case br_names br (br_state br) of Inr names \<Rightarrow> set_column_names lower names rs | Inl _ \<Rightarrow> rs);
          rs = (case br_count br (br_state br) of Inr count \<Rightarrow> rs\<lparr>rs_count := count\<rparr> | Inl _ \<Rightarrow> rs)
      in rs\<lparr>rs_bridge := Some br\<rparr>)"

definition set_block :: "shared_block \<Rightarrow> 's result_set \<Rightarrow> 's result_set option" where
  "set_block b rs = do {
     row_count \<leftarrow> row_num b;
     Some (rs\<lparr>rs_block := Some b, rs_count := row_count, rs_start_row_pos := 0, rs_end_row_pos := row_count - 1\<rparr>)
   }"

definition take_block_owned :: "'s result_set \<Rightarrow> shared_block option \<times> 's result_set" where
  "take_block_owned rs = (rs_block rs, rs\<lparr>rs_block := None\<rparr>)"

definition attach_shared_block :: "shared_block \<Rightarrow> 's result_set \<Rightarrow> 's result_set" where
  "attach_shared_block b rs = rs\<lparr>rs_block := Some b\<rparr>"

definition col_count :: "'s result_set \<Rightarrow> i32 option" where
  "col_count rs =
     (if rs_column_names rs \<noteq> [] then Some (of_nat (length (rs_column_names rs)))
      else (case rs_block rs of Some b \<Rightarrow> column_num b | None \<Rightarrow> Some 0))"

definition check_state :: "'s result_set \<Rightarrow> i32 \<Rightarrow> unit ds_result option" where
  "check_state rs column_index =
     (if rs_is_closed rs then Some (Inl ErrInvalidOperation)
      else do {
        n \<leftarrow> col_count rs;
        if sint n > 0 \<and> (sint column_index < 0 \<or> sint column_index \<ge> sint n) then Some (Inl ErrInvalidColumnIndex)
        else if rs_row_pos rs = INIT_POS then Some (Inl ErrInvalidRowIndex)
        else Some (Inr ())
      })"

text \<open>\<open>created\<close> is the outcome of \<open>SharedBlock::create\<close> when the result set has no block yet.\<close>

definition fill_block ::
  "'s result_set \<Rightarrow> 's bridge \<Rightarrow> i32 \<Rightarrow> i32 \<Rightarrow> block_writer \<Rightarrow> (unit ds_result \<times> 's \<times> block_writer) option" where
  "fill_block rs br start_row_index target_row_index writer = do {
     (r1, writer) \<leftarrow> writer_clear writer;
     case r1 of
       Inl e \<Rightarrow> Some (Inl e, br_state br, writer)
     | Inr _ \<Rightarrow> do {
         (r2, writer) \<leftarrow> writer_set_column_num (of_nat (length (rs_column_names rs))) writer;
         case r2 of
           Inl e \<Rightarrow> Some (Inl e, br_state br, writer)
         | Inr _ \<Rightarrow> br_on_go br (br_state br) start_row_index target_row_index writer
       }
   }"

definition on_go :: "(i32 + shared_block) \<Rightarrow> i32 \<Rightarrow> i32 \<Rightarrow> 's result_set \<Rightarrow> (i32 ds_result \<times> 's result_set) option" where
  "on_go created start_row_index target_row_index rs =
     (case rs_bridge rs of
        None \<Rightarrow> Some (Inr (- 1), rs)
      | Some br \<Rightarrow>
          (case (case rs_block rs of Some b \<Rightarrow> Inr b | None \<Rightarrow> (case created of Inl _ \<Rightarrow> Inl ErrOutOfMemory | Inr b \<Rightarrow> Inr b)) of
             Inl e \<Rightarrow> Some (Inl e, rs\<lparr>rs_block := None\<rparr>)
           | Inr block \<Rightarrow> do {
               (fill_result, s, writer) \<leftarrow> fill_block rs br start_row_index target_row_index (from_block block);
               let rs = rs\<lparr>rs_bridge := Some (br\<lparr>br_state := s\<rparr>)\<rparr>;
               rs \<leftarrow> (case fst (take_block writer) of
                   None \<Rightarrow> Some (rs\<lparr>rs_block := None\<rparr>)
                 | Some filled_block \<Rightarrow> do {
                     row_count \<leftarrow> row_num filled_block;
                     Some (if isl fill_result \<or> \<not> sint row_count > 0
                           then rs\<lparr>rs_block := Some filled_block, rs_start_row_pos := - 1, rs_end_row_pos := - 1\<rparr>
                           else rs\<lparr>rs_block := Some filled_block, rs_start_row_pos := start_row_index,
                                  rs_end_row_pos := start_row_index + row_count - 1\<rparr>)
                   });
               Some (case fill_result of Inl e \<Rightarrow> Inl e | Inr _ \<Rightarrow> Inr (rs_end_row_pos rs), rs)
             }))"

definition block_row_index :: "'s result_set \<Rightarrow> i32" where
  "block_row_index rs = (if sint (rs_start_row_pos rs) \<ge> 0 then rs_row_pos rs - rs_start_row_pos rs else rs_row_pos rs)"

section \<open>Navigation\<close>

definition unless_closed :: "'s result_set \<Rightarrow> 'a \<Rightarrow> 'a ds_result" where
  "unless_closed rs x = (if rs_is_closed rs then Inl ErrInvalidOperation else Inr x)"

definition rs_get_row_count :: "'s result_set \<Rightarrow> i32 ds_result" where
  "rs_get_row_count rs = unless_closed rs (rs_count rs)"

definition get_all_column_names :: "'s result_set \<Rightarrow> string list ds_result" where
  "get_all_column_names rs = unless_closed rs (rs_column_names rs)"

definition get_column_count :: "'s result_set \<Rightarrow> i32 ds_result option" where
  "get_column_count rs =
     (if rs_is_closed rs then Some (Inl ErrInvalidOperation) else map_option Inr (col_count rs))"

definition get_column_index :: "(string \<Rightarrow> string) \<Rightarrow> 's result_set \<Rightarrow> string \<Rightarrow> i32 ds_result" where
  "get_column_index lower rs name =
     (if rs_is_closed rs then Inl ErrInvalidOperation
      else (case rs_index_cache rs (lower name) of Some index \<Rightarrow> Inr index | None \<Rightarrow> Inl ErrInvalidColumnName))"

definition get_column_name :: "'s result_set \<Rightarrow> i32 \<Rightarrow> string ds_result" where
  "get_column_name rs index =
     (if rs_is_closed rs then Inl ErrInvalidOperation
      else if sint index \<ge> 0 \<and> sint index < sint (of_nat (length (rs_column_names rs)) :: i32)
        then Inr (rs_column_names rs ! nat (sint index))
        else Inl ErrInvalidColumnIndex)"

definition go_to_row :: "(i32 + shared_block) \<Rightarrow> i32 \<Rightarrow> 's result_set \<Rightarrow> (bool ds_result \<times> 's result_set) option" where
  "go_to_row created position rs =
     (if rs_is_closed rs then Some (Inl ErrInvalidOperation, rs)
      else if sint position < 0 \<or> sint position \<ge> sint (rs_count rs) then Some (Inr False, rs)
      else if rs_bridge rs \<noteq> None
          \<and> (sint position < sint (rs_start_row_pos rs) \<or> sint position > sint (rs_end_row_pos rs))
        then do {
          (r, rs) \<leftarrow> on_go created position (rs_count rs - 1) rs;
          case r of
            Inl e \<Rightarrow> Some (Inl e, rs)
          | Inr _ \<Rightarrow> Some (Inr True, rs\<lparr>rs_row_pos := position\<rparr>)
        }
        else Some (Inr True, rs\<lparr>rs_row_pos := position\<rparr>))"

definition go_to :: "(i32 + shared_block) \<Rightarrow> i32 \<Rightarrow> 's result_set \<Rightarrow> (bool ds_result \<times> 's result_set) option" where
  "go_to created offset rs =
     (if rs_is_closed rs then Some (Inl ErrInvalidOperation, rs)
      else (let new_pos = rs_row_pos rs + offset in go_to_row created new_pos rs))"

definition go_to_first_row :: "(i32 + shared_block) \<Rightarrow> 's result_set \<Rightarrow> (bool ds_result \<times> 's result_set) option" where
  "go_to_first_row created rs = go_to_row created 0 rs"

definition go_to_last_row :: "(i32 + shared_block) \<Rightarrow> 's result_set \<Rightarrow> (bool ds_result \<times> 's result_set) option" where
  "go_to_last_row created rs =
     (if sint (rs_count rs) \<le> 0 then Some (Inr False, rs) else go_to_row created (rs_count rs - 1) rs)"

definition go_to_next_row :: "(i32 + shared_block) \<Rightarrow> 's result_set \<Rightarrow> (bool ds_result \<times> 's result_set) option" where
  "go_to_next_row created rs = go_to created 1 rs"

definition go_to_previous_row :: "(i32 + shared_block) \<Rightarrow> 's result_set \<Rightarrow> (bool ds_result \<times> 's result_set) option" where
  "go_to_previous_row created rs = go_to created (- 1) rs"

definition get_row_index :: "'s result_set \<Rightarrow> i32 ds_result" where
  "get_row_index rs = unless_closed rs (rs_row_pos rs)"

definition is_started :: "'s result_set \<Rightarrow> bool ds_result" where
  "is_started rs = unless_closed rs (rs_row_pos rs = INIT_POS)"

definition is_ended :: "'s result_set \<Rightarrow> bool ds_result" where
  "is_ended rs = unless_closed rs (sint (rs_count rs) > 0 \<and> sint (rs_row_pos rs) \<ge> sint (rs_count rs))"

definition is_at_first_row :: "'s result_set \<Rightarrow> bool ds_result" where
  "is_at_first_row rs = unless_closed rs (rs_row_pos rs = 0)"

definition is_at_last_row :: "'s result_set \<Rightarrow> bool ds_result" where
  "is_at_last_row rs = unless_closed rs (if sint (rs_count rs) \<le> 0 then False else rs_row_pos rs = rs_count rs - 1)"

definition rs_close :: "'s result_set \<Rightarrow> unit ds_result \<times> 's result_set" where
  "rs_close rs =
     (if rs_is_closed rs then (Inl ErrInvalidOperation, rs)
      else (Inr (), rs\<lparr>rs_is_closed := True, rs_block := None, rs_bridge := None\<rparr>))"

section \<open>Getters\<close>

text \<open>The common prefix of the getters: state check, block, cell; \<open>k\<close> gets the block, the type and the cell.\<close>

definition with_cell ::
  "'s result_set \<Rightarrow> i32 \<Rightarrow> (shared_block \<Rightarrow> i32 \<Rightarrow> cell_value_legacy \<Rightarrow> 'a ds_result option) \<Rightarrow> 'a ds_result option" where
  "with_cell rs column k = do {
     st \<leftarrow> check_state rs column;
     case st of
       Inl e \<Rightarrow> Some (Inl e)
     | Inr _ \<Rightarrow>
         (case rs_block rs of
            None \<Rightarrow> Some (Inl ErrInvalidOperation)
          | Some b \<Rightarrow> do {
              c \<leftarrow> get_cell_value b (block_row_index rs) column;
              case c of Inl e \<Rightarrow> Some (Inl e) | Inr (cell_type, cell) \<Rightarrow> k b cell_type cell
            })
   }"

definition get_column_type :: "'s result_set \<Rightarrow> i32 \<Rightarrow> data_type ds_result option" where
  "get_column_type rs index = do {
     st \<leftarrow> check_state rs index;
     case st of
       Inl e \<Rightarrow> Some (Inl e)
     | Inr _ \<Rightarrow>
         (case rs_block rs of
            None \<Rightarrow> Some (Inr TypeNull)
          | Some b \<Rightarrow> do {
              c \<leftarrow> get_cell_value b (block_row_index rs) index;
              case c of Inl e \<Rightarrow> Some (Inl e) | Inr (cell_type, _) \<Rightarrow> Some (Inr (data_type_from cell_type))
            })
   }"

definition rs_get_blob :: "'s result_set \<Rightarrow> i32 \<Rightarrow> bytes ds_result option" where
  "rs_get_blob rs column = with_cell rs column (\<lambda>b cell_type cell.
     if cell_type = 3 \<or> cell_type = 4 then get_string_data b (cv_offset cell) (cv_size cell)
     else Some (Inl ErrInvalidOperation))"

definition rs_get_string :: "(f64 \<Rightarrow> string) \<Rightarrow> 's result_set \<Rightarrow> i32 \<Rightarrow> string ds_result option" where
  "rs_get_string show_f64 rs column = with_cell rs column (\<lambda>b cell_type cell.
     if cell_type = 0 then Some (Inr [])
     else if cell_type = 1 then Some (Inr (i64_to_string (cv_long_value cell)))
     else if cell_type = 2 then Some (Inr (show_f64 (cv_double_value cell)))
     else if cell_type = 3 then get_cell_unit_str b cell
     else if cell_type = 4 then do {
       data \<leftarrow> get_string_data b (cv_offset cell) (cv_size cell);
       Some (case data of
               Inl e \<Rightarrow> Inl e
             | Inr d \<Rightarrow> if utf8_valid (of_bytes d) then Inr (of_bytes d) else Inl ErrInvalidOperation)
     }
     else Some (Inr []))"

definition cell_text :: "shared_block \<Rightarrow> cell_value_legacy \<Rightarrow> string option" where
  "cell_text b cell = map_option (\<lambda>r. case r of Inl _ \<Rightarrow> [] | Inr s \<Rightarrow> s) (get_cell_unit_str b cell)"

definition rs_get_long :: "'s result_set \<Rightarrow> i32 \<Rightarrow> i64 ds_result option" where
  "rs_get_long rs column = with_cell rs column (\<lambda>b cell_type cell.
     if cell_type = 0 then Some (Inr 0)
     else if cell_type = 1 then Some (Inr (cv_long_value cell))
     else if cell_type = 2 then Some (Inr (f64_to_i64 (cv_double_value cell)))
     else if cell_type = 3 then do {
       s \<leftarrow> cell_text b cell;
       Some (Inr (case parse_i64 s of Some v \<Rightarrow> v | None \<Rightarrow> 0))
     }
     else Some (Inr 0))"

definition rs_get_int :: "'s result_set \<Rightarrow> i32 \<Rightarrow> i32 ds_result option" where
  "rs_get_int rs column = map_option (\<lambda>r. case r of Inl e \<Rightarrow> Inl e | Inr v \<Rightarrow> Inr (ucast v)) (rs_get_long rs column)"

definition rs_get_double :: "(string \<Rightarrow> f64 option) \<Rightarrow> 's result_set \<Rightarrow> i32 \<Rightarrow> f64 ds_result option" where
  "rs_get_double parse_f64 rs column = with_cell rs column (\<lambda>b cell_type cell.
     if cell_type = 0 then Some (Inr 0)
     else if cell_type = 1 then Some (Inr (i64_to_f64 (cv_long_value cell)))
     else if cell_type = 2 then Some (Inr (cv_double_value cell))
     else if cell_type = 3 then do {
       s \<leftarrow> cell_text b cell;
       Some (Inr (case parse_f64 s of Some v \<Rightarrow> v | None \<Rightarrow> 0))
     }
     else Some (Inr 0))"

definition is_column_null :: "'s result_set \<Rightarrow> i32 \<Rightarrow> bool ds_result option" where
  "is_column_null rs column = with_cell rs column (\<lambda>b cell_type cell. Some (Inr (cell_type = 0)))"

end
