(* ===== verification/Cursor.thy ===== *)
theory Cursor
  imports Result_Set
begin

text \<open>
  What the result set promises. The typed getters are functions of the cell of the table that the
  cursor stands on (\<open>cell_long\<close>, \<open>cell_string\<close>, ...); the paging window, when there is one, covers the
  cursor with a row of the block; and navigation keeps the cursor inside the row count. A bridge is
  only assumed to reach the block through the \<open>Writer\<close> calls.
\<close>

section \<open>What a getter returns for a cell\<close>

definition text_of :: "bytes \<Rightarrow> string ds_result" where
  "text_of d = (let s = of_bytes (takeWhile (\<lambda>x. x \<noteq> 0) d) in if utf8_valid s then Inr s else Inl ErrInvalidOperation)"

definition text_or_empty :: "bytes \<Rightarrow> string" where
  "text_or_empty d = (case text_of d of Inl _ \<Rightarrow> [] | Inr s \<Rightarrow> s)"

primrec cell_long :: "cell \<Rightarrow> i64" where
  "cell_long CNull = 0"
| "cell_long (CLong v) = v"
| "cell_long (CDouble x) = f64_to_i64 x"
| "cell_long (CString d) = (case parse_i64 (text_or_empty d) of Some v \<Rightarrow> v | None \<Rightarrow> 0)"
| "cell_long (CBlob d) = 0"

primrec cell_double :: "(string \<Rightarrow> f64 option) \<Rightarrow> cell \<Rightarrow> f64" where
  "cell_double parse_f64 CNull = 0"
| "cell_double parse_f64 (CLong v) = i64_to_f64 v"
| "cell_double parse_f64 (CDouble x) = x"
| "cell_double parse_f64 (CString d) = (case parse_f64 (text_or_empty d) of Some v \<Rightarrow> v | None \<Rightarrow> 0)"
| "cell_double parse_f64 (CBlob d) = 0"

primrec cell_string :: "(f64 \<Rightarrow> string) \<Rightarrow> cell \<Rightarrow> string ds_result" where
  "cell_string show_f64 CNull = Inr []"
| "cell_string show_f64 (CLong v) = Inr (i64_to_string v)"
| "cell_string show_f64 (CDouble x) = Inr (show_f64 x)"
| "cell_string show_f64 (CString d) = text_of d"
| "cell_string show_f64 (CBlob d) = (if utf8_valid (of_bytes d) then Inr (of_bytes d) else Inl ErrInvalidOperation)"

primrec cell_blob :: "cell \<Rightarrow> bytes ds_result" where
  "cell_blob CNull = Inl ErrInvalidOperation"
| "cell_blob (CLong v) = Inl ErrInvalidOperation"
| "cell_blob (CDouble x) = Inl ErrInvalidOperation"
| "cell_blob (CString d) = Inr d"
| "cell_blob (CBlob d) = Inr d"

primrec cell_data_type :: "cell \<Rightarrow> data_type" where
  "cell_data_type CNull = TypeNull"
| "cell_data_type (CLong v) = TypeInteger"
| "cell_data_type (CDouble x) = TypeFloat"
| "cell_data_type (CString d) = TypeString"
| "cell_data_type (CBlob d) = TypeBlob"

text \<open>An open result set whose cursor stands on a row, with a column that its names allow.\<close>

definition readable :: "'s result_set \<Rightarrow> shared_block \<Rightarrow> u32 \<Rightarrow> bool" where
  "readable rs b c \<longleftrightarrow> \<not> rs_is_closed rs \<and> rs_block rs = Some b \<and> valid_block b \<and> rs_row_pos rs \<noteq> INIT_POS
     \<and> (rs_column_names rs = [] \<or> unat c < length (rs_column_names rs) \<and> length (rs_column_names rs) < 2 ^ 31)"

lemma cell_value_cases:
  assumes "cell_view b r c = Some x"
  shows "\<exists>ty cv. get_cell_value b r c = Some (Inr (ty, cv))
    \<and> (case x of CNull \<Rightarrow> ty \<notin> {1, 2, 3, 4}
       | CLong v \<Rightarrow> ty = 1 \<and> cv_long_value cv = v
       | CDouble v \<Rightarrow> ty = 2 \<and> cv_double_value cv = v
       | CString d \<Rightarrow> ty = 3 \<and> get_string_data b (cv_offset cv) (cv_size cv) = Some (Inr d) \<and> get_cell_unit_str b cv = Some (text_of d)
       | CBlob d \<Rightarrow> ty = 4 \<and> get_string_data b (cv_offset cv) (cv_size cv) = Some (Inr d))"
proof (cases x)
  case (CString d)
  with assms obtain cv where cv: "get_cell_value b r c = Some (Inr (3, cv))"
      "get_string_data b (cv_offset cv) (cv_size cv) = Some (Inr d)"
    by (auto simp: cell_view_def cell_types split: option.splits sum.splits prod.splits if_splits)
  moreover have "get_cell_unit_str b cv = Some (text_of d)"
    using cell_view_string [of b r c d] assms CString cv(1) by (auto simp: text_of_def)
  ultimately show ?thesis using CString by auto
qed (use assms in \<open>auto simp: cell_view_def cell_types split: option.splits sum.splits prod.splits if_splits\<close>)

lemma check_state_ok:
  assumes r: "readable rs b c" and x: "cell_view b (block_row_index rs) c = Some x"
  shows "check_state rs c = Some (Inr ())"
proof -
  obtain gs ds cols u where b: "block_ok b gs ds cols u" using r by (auto simp: readable_def valid_block_def)
  then have cols: "unat c < cols" "cols \<le> 32767" "column_num b = Some (of_nat cols)"
    using x cell_view_block [OF b, of "block_row_index rs" c] by (auto simp: column_num_def block_layout block_ok_def split: if_splits)
  obtain n where n: "col_count rs = Some (of_nat n)" "unat c < n" "n < 2 ^ 31"
    using r cols by (cases "rs_column_names rs = []") (auto simp: col_count_def readable_def)
  then have "sint c = int (unat c)" by (intro sint_small) linarith
  then have "sint c \<ge> 0" "sint c < int n" using n(2) by linarith+
  then show ?thesis
    using r n(1) sint_of_nat32 [OF n(3)] by (simp add: check_state_def readable_def)
qed

lemma with_cell_eq:
  assumes "readable rs b c" and "cell_view b (block_row_index rs) c = Some x"
    and "get_cell_value b (block_row_index rs) c = Some (Inr (ty, cv))"
  shows "with_cell rs c k = k b ty cv"
  using assms check_state_ok [OF assms(1,2)] by (simp add: with_cell_def readable_def)

lemma parse_i64_empty [simp]: "parse_i64 [] = None"
  by (simp add: parse_i64_def)

lemma getters_spec:
  assumes r: "readable rs b c" and x: "cell_view b (block_row_index rs) c = Some x"
  shows "rs_get_long rs c = Some (Inr (cell_long x))
    \<and> rs_get_int rs c = Some (Inr (ucast (cell_long x)))
    \<and> rs_get_double parse_f64 rs c = Some (Inr (cell_double parse_f64 x))
    \<and> rs_get_string show_f64 rs c = Some (cell_string show_f64 x)
    \<and> rs_get_blob rs c = Some (cell_blob x)
    \<and> get_column_type rs c = Some (Inr (cell_data_type x))
    \<and> (\<exists>ty cv. get_cell_value b (block_row_index rs) c = Some (Inr (ty, cv)) \<and> (x = CNull \<longleftrightarrow> ty \<notin> {1, 2, 3, 4})
         \<and> is_column_null rs c = Some (Inr (ty = CELL_UNIT_TYPE_NULL)))"
proof -
  obtain ty cv where cv: "get_cell_value b (block_row_index rs) c = Some (Inr (ty, cv))"
    and kind: "case x of CNull \<Rightarrow> ty \<notin> {1, 2, 3, 4}
       | CLong v \<Rightarrow> ty = 1 \<and> cv_long_value cv = v
       | CDouble v \<Rightarrow> ty = 2 \<and> cv_double_value cv = v
       | CString d \<Rightarrow> ty = 3 \<and> get_string_data b (cv_offset cv) (cv_size cv) = Some (Inr d) \<and> get_cell_unit_str b cv = Some (text_of d)
       | CBlob d \<Rightarrow> ty = 4 \<and> get_string_data b (cv_offset cv) (cv_size cv) = Some (Inr d)"
    using cell_value_cases [OF x] by blast
  note w = with_cell_eq [OF r x cv]
  have "rs_get_long rs c = Some (Inr (cell_long x))"
    using kind by (cases x) (simp_all add: rs_get_long_def w cell_text_def text_or_empty_def)
  moreover from this have "rs_get_int rs c = Some (Inr (ucast (cell_long x)))"
    by (simp add: rs_get_int_def)
  moreover have "rs_get_double parse_f64 rs c = Some (Inr (cell_double parse_f64 x))"
    using kind by (cases x) (simp_all add: rs_get_double_def w cell_text_def text_or_empty_def)
  moreover have "rs_get_string show_f64 rs c = Some (cell_string show_f64 x)"
    using kind by (cases x) (simp_all add: rs_get_string_def w)
  moreover have "rs_get_blob rs c = Some (cell_blob x)"
    using kind by (cases x) (simp_all add: rs_get_blob_def w)
  moreover have "get_column_type rs c = Some (Inr (cell_data_type x))"
    using kind check_state_ok [OF r x] r cv
    by (cases x) (simp_all add: get_column_type_def readable_def data_type_from_def)
  moreover have "(x = CNull \<longleftrightarrow> ty \<notin> {1, 2, 3, 4}) \<and> is_column_null rs c = Some (Inr (ty = CELL_UNIT_TYPE_NULL))"
    using kind by (cases x) (simp_all add: is_column_null_def w CELL_UNIT_TYPE_NULL_def)
  then have "\<exists>ty cv. get_cell_value b (block_row_index rs) c = Some (Inr (ty, cv)) \<and> (x = CNull \<longleftrightarrow> ty \<notin> {1, 2, 3, 4})
      \<and> is_column_null rs c = Some (Inr (ty = CELL_UNIT_TYPE_NULL))"
    using cv by blast
  ultimately show ?thesis by blast
qed

text \<open>C13: the typed getters are functions of the cell under the cursor. An integer is read as itself, as a float and as decimal digits; a float
  is truncated, read as itself and printed; a string is parsed as a number, zero when it is none, and read up to its NUL; a blob
  is zero as a number and its bytes as text (the comment on \<open>get_string\<close> says empty); text that is not UTF-8 is an error; null
  is zero and empty. Bytes are delivered for a string or a blob only. \<open>is_column_null\<close> tells exactly whether the type in the cell is
  that of null; a cell of an unknown type reads as null and is not reported as null.\<close>

theorem getters_read_cell:
  assumes r: "readable rs b c" and x: "cell_view b (block_row_index rs) c = Some x"
  shows "rs_get_long rs c = Some (Inr (cell_long x))
    \<and> rs_get_int rs c = Some (Inr (ucast (cell_long x)))
    \<and> rs_get_double parse_f64 rs c = Some (Inr (cell_double parse_f64 x))
    \<and> rs_get_string show_f64 rs c = Some (cell_string show_f64 x)
    \<and> rs_get_blob rs c = Some (cell_blob x)
    \<and> get_column_type rs c = Some (Inr (cell_data_type x))
    \<and> (\<exists>ty cv. get_cell_value b (block_row_index rs) c = Some (Inr (ty, cv)) \<and> (x = CNull \<longleftrightarrow> ty \<notin> {1, 2, 3, 4})
         \<and> is_column_null rs c = Some (Inr (ty = CELL_UNIT_TYPE_NULL)))"
  by (rule getters_spec [OF r x])

section \<open>Casts\<close>

lemma ilog2_bounds: "0 < n \<Longrightarrow> 2 ^ ilog2 n \<le> n \<and> n < 2 ^ Suc (ilog2 n)"
proof (induction n rule: ilog2.induct)
  case (1 n)
  show ?case
  proof (cases "n < 2")
    case True
    with 1 show ?thesis by (simp add: ilog2.simps [of n])
  next
    case False
    with 1 have "2 ^ ilog2 (n div 2) \<le> n div 2 \<and> n div 2 < 2 ^ Suc (ilog2 (n div 2))" by simp
    with False show ?thesis by (subst (1 2) ilog2.simps) (simp, linarith)
  qed
qed

text \<open>A magnitude below \<open>2 ^ 53\<close> has an exact \<open>f64\<close>: its leading bit gives the exponent, the rest is shifted to 52 bits.\<close>

definition exact_bits :: "nat \<Rightarrow> nat" where
  "exact_bits a = (if a = 0 then 0 else (ilog2 a + 1023) * 2 ^ 52 + (a * 2 ^ (52 - ilog2 a) - 2 ^ 52))"

lemma ilog2_le: "a < 2 ^ Suc n \<Longrightarrow> 0 < a \<Longrightarrow> ilog2 a \<le> n"
  using ilog2_bounds [of a] by (metis less_Suc_eq_le order_le_less_trans power_less_imp_less_exp one_less_numeral_iff semiring_norm(76))

lemma exact_mantissa:
  assumes "0 < a" and "a < 2 ^ 53"
  shows "2 ^ 52 \<le> a * 2 ^ (52 - ilog2 a)" and "a * 2 ^ (52 - ilog2 a) < 2 ^ 53" and "ilog2 a \<le> 52"
proof -
  show k: "ilog2 a \<le> 52" using ilog2_le [of a 52] assms by simp
  then have e: "(2 :: nat) ^ 52 = 2 ^ ilog2 a * 2 ^ (52 - ilog2 a)" "(2 :: nat) ^ 53 = 2 ^ Suc (ilog2 a) * 2 ^ (52 - ilog2 a)"
    by (simp_all flip: power_add add: Suc_diff_le)
  show "2 ^ 52 \<le> a * 2 ^ (52 - ilog2 a)" "a * 2 ^ (52 - ilog2 a) < 2 ^ 53"
    unfolding e using ilog2_bounds [OF assms(1)] by (intro mult_right_mono mult_strict_right_mono; simp)+
qed

lemma exact_bits_fields:
  assumes "0 < a" and "a < 2 ^ 53"
  shows "exact_bits a div 2 ^ 52 = ilog2 a + 1023" and "exact_bits a mod 2 ^ 52 = a * 2 ^ (52 - ilog2 a) - 2 ^ 52"
    and "exact_bits a < 2 ^ 63"
proof -
  let ?m = "a * 2 ^ (52 - ilog2 a) - 2 ^ 52"
  have m: "?m < 2 ^ 52" and k: "ilog2 a \<le> 52" using exact_mantissa [OF assms] by auto
  have eb: "exact_bits a = ?m + (ilog2 a + 1023) * 2 ^ 52" using assms by (simp add: exact_bits_def)
  show "exact_bits a div 2 ^ 52 = ilog2 a + 1023" unfolding eb using m div_mult_self1 [of "2 ^ 52 :: nat" ?m "ilog2 a + 1023"] by simp
  show "exact_bits a mod 2 ^ 52 = ?m" unfolding eb using m by (simp only: mod_mult_self1 mod_less)
  have "(ilog2 a + 1023) * 2 ^ 52 \<le> 1075 * 2 ^ 52" using k by (intro mult_right_mono) auto
  then show "exact_bits a < 2 ^ 63" unfolding eb using m by simp
qed

lemma i64_to_f64_exact:
  assumes "\<bar>sint v\<bar> < 2 ^ 53"
  shows "i64_to_f64 v = of_nat (exact_bits (nat \<bar>sint v\<bar>) + (if sint v < 0 then 2 ^ 63 else 0))"
proof -
  have "ilog2 (nat \<bar>sint v\<bar>) \<le> 52" if "nat \<bar>sint v\<bar> \<noteq> 0"
    using that assms by (intro ilog2_le) (auto simp: nat_less_iff)
  then show ?thesis by (simp add: i64_to_f64_def exact_bits_def Let_def)
qed

lemma f64_to_i64_exact:
  assumes "a < 2 ^ 53"
  shows "f64_to_i64 (of_nat (exact_bits a + (if neg then 2 ^ 63 else 0))) = (if neg then - of_nat a else of_nat a)"
proof (cases "a = 0")
  case True
  then show ?thesis by (cases neg) (simp_all add: exact_bits_def f64_to_i64_def f64_exponent_def f64_mantissa_def f64_negative_def)
next
  case False
  let ?x = "of_nat (exact_bits a + (if neg then 2 ^ 63 else 0)) :: f64"
  note fields = exact_bits_fields [of a, OF _ assms] and mant = exact_mantissa [of a, OF _ assms]
  have x: "unat ?x = exact_bits a + (if neg then 2 ^ 63 else 0)"
    using fields(3) False unfolding unat_of_nat by simp
  have "(exact_bits a + 2 ^ 63) div 2 ^ 52 = exact_bits a div 2 ^ 52 + 2 ^ 11"
    "(exact_bits a + 2 ^ 63) mod 2 ^ 52 = exact_bits a mod 2 ^ 52"
    using div_mult_self1 [of "2 ^ 52 :: nat" "exact_bits a" "2 ^ 11"] mod_mult_self1 [of "exact_bits a" "2 ^ 11 :: nat" "2 ^ 52"]
    by simp_all
  moreover have "(3071 + ilog2 a) mod 2048 = ilog2 a + 1023" using mant(3) False by (simp add: mod_if)
  ultimately have f: "f64_exponent ?x = ilog2 a + 1023" "f64_mantissa ?x = a * 2 ^ (52 - ilog2 a) - 2 ^ 52" "f64_negative ?x = neg"
    using fields mant(3) False x by (simp_all add: f64_exponent_def f64_mantissa_def f64_negative_def)
  have shift: "(if 1075 \<le> ilog2 a + 1023 then a * 2 ^ (52 - ilog2 a) * 2 ^ min (ilog2 a + 1023 - 1075) 64
      else a * 2 ^ (52 - ilog2 a) div 2 ^ (1075 - (ilog2 a + 1023))) = a"
    using mant(3) False by (auto simp: not_le)
  have e: "(ilog2 a + 1023 = 2047) = False" "(ilog2 a + 1023 = 0) = False"
    "a * 2 ^ (52 - ilog2 a) - 2 ^ 52 + 2 ^ 52 = a * 2 ^ (52 - ilog2 a)"
    using mant False by auto
  have "f64_to_i64 ?x = (if neg then - of_nat (min a (2 ^ 63)) else of_nat (min a (2 ^ 63 - 1)))"
    by (simp only: f64_to_i64_def f Let_def e if_False shift)
  then show ?thesis using assms by (simp add: min_def)
qed

lemma cast_roundtrip:
  assumes "\<bar>sint v\<bar> < 2 ^ 53"
  shows "f64_to_i64 (i64_to_f64 v) = v"
proof -
  have a: "nat \<bar>sint v\<bar> < 2 ^ 53" using assms by (simp add: nat_less_iff)
  have "f64_to_i64 (i64_to_f64 v) = (if sint v < 0 then - of_nat (nat \<bar>sint v\<bar>) else of_nat (nat \<bar>sint v\<bar>))"
    unfolding i64_to_f64_exact [OF assms] by (rule f64_to_i64_exact [OF a])
  also have "\<dots> = word_of_int (sint v)"
    by (auto simp: of_nat_nat abs_if)
  finally show ?thesis by simp
qed

text \<open>An integer column read through the double getter and stored back as a double is the same
  integer, for every integer of at most 53 bits.\<close>

theorem long_double_long:
  assumes "readable rs b c" and "cell_view b (block_row_index rs) c = Some (CLong v)" and "\<bar>sint v\<bar> < 2 ^ 53"
    and "rs_get_double parse_f64 rs c = Some (Inr x)"
    and "readable rs' b' c'" and "cell_view b' (block_row_index rs') c' = Some (CDouble x)"
  shows "rs_get_long rs' c' = Some (Inr v)"
  using getters_spec [OF assms(1,2), of parse_f64] getters_spec [OF assms(5,6)] assms(4) cast_roundtrip [OF assms(3)] by simp

section \<open>Column names\<close>

lemma cache_names_hit:
  "cache_names lower i ns m k =
     (case filter (\<lambda>j. lower (ns ! j) = k) [0..<length ns] of [] \<Rightarrow> m k | js \<Rightarrow> Some (of_nat (i + last js)))"
proof (induction ns arbitrary: i m)
  case (Cons n ns)
  have *: "filter (\<lambda>j. lower ((n # ns) ! j) = k) [0..<length (n # ns)] =
      (if lower n = k then [0] else []) @ map Suc (filter (\<lambda>j. lower (ns ! j) = k) [0..<length ns])"
    by (simp add: upt_conv_Cons map_Suc_upt [symmetric] filter_map o_def del: upt_Suc)
  show ?case
    unfolding * by (cases "filter (\<lambda>j. lower (ns ! j) = k) [0..<length ns]") (auto simp: Cons.IH last_map split: list.splits)
qed simp

text \<open>A column name is looked up without regard to case: the index returned is the last column whose
  lower-cased name is the lower-cased request, and the request is refused exactly when there is none.\<close>

theorem get_column_index_last:
  assumes "length names < 2 ^ 31" and "\<not> rs_is_closed rs"
  shows "case filter (\<lambda>j. lower (names ! j) = lower name) [0..<length names] of
       [] \<Rightarrow> get_column_index lower (set_column_names lower names rs) name = Inl ErrInvalidColumnName
     | js \<Rightarrow> get_column_index lower (set_column_names lower names rs) name = Inr (of_nat (last js))
         \<and> get_column_name (set_column_names lower names rs) (of_nat (last js)) = Inr (names ! last js)
         \<and> lower (names ! last js) = lower name"
proof (cases "filter (\<lambda>j. lower (names ! j) = lower name) [0..<length names]")
  case Nil
  then show ?thesis using assms by (simp add: get_column_index_def set_column_names_def cache_names_hit)
next
  case (Cons j js)
  then have "last (j # js) \<in> set (filter (\<lambda>j. lower (names ! j) = lower name) [0..<length names])"
    by (metis last_in_set list.distinct(1))
  then have l: "last (j # js) < length names" "lower (names ! last (j # js)) = lower name" by auto
  then have "sint (of_nat (last (j # js)) :: i32) = int (last (j # js))" using assms(1) by (intro sint_of_nat32) linarith
  with Cons l assms show ?thesis
    by (simp add: get_column_index_def get_column_name_def set_column_names_def cache_names_hit sint_of_nat32)
qed

section \<open>Paging\<close>

definition block_rows :: "shared_block \<Rightarrow> nat" where
  "block_rows b = (case row_num b of Some n \<Rightarrow> unat n | None \<Rightarrow> 0)"

lemma valid_rows: "valid_block b \<Longrightarrow> row_num b = Some (of_nat (block_rows b)) \<and> block_rows b < 2 ^ 31"
proof -
  assume "valid_block b"
  then obtain gs ds cols u where b: "block_ok b gs ds cols u" by (auto simp: valid_block_def)
  then have "row_num b = Some (of_nat (length ds))" "length ds < 2 ^ 31"
    using block_rows_small [OF b] by (simp_all add: row_num_def block_layout block_ok_def)
  then show ?thesis by (simp add: block_rows_def unat_of_nat)
qed

text \<open>
  What the code may rely on from a bridge, given a writer on an empty block: it reaches the block only
  through calls of the \<open>Writer\<close> trait and returns, and it writes no more rows than it was asked for.
\<close>

definition bridge_ok :: "'s bridge \<Rightarrow> bool" where
  "bridge_ok br \<longleftrightarrow> (\<forall>s i j w b. bw_block w = Some b \<and> valid_block b \<and> block_rows b = 0 \<longrightarrow>
     (\<exists>r s' w' calls. br_on_go br s i j w = Some (r, s', w') \<and> run_all writer_step calls w = Some w'
        \<and> (\<forall>b. bw_block w' = Some b \<longrightarrow> int (block_rows b) \<le> max 0 (sint j - sint i + 1))))"

definition window_ok :: "'s result_set \<Rightarrow> shared_block \<Rightarrow> bool" where
  "window_ok rs b \<longleftrightarrow> rs_start_row_pos rs = - 1 \<and> rs_end_row_pos rs = - 1
     \<or> 0 \<le> sint (rs_start_row_pos rs) \<and> sint (rs_end_row_pos rs) = sint (rs_start_row_pos rs) + int (block_rows b) - 1"

definition rs_ok :: "'s result_set \<Rightarrow> bool" where
  "rs_ok rs \<longleftrightarrow> (case rs_block rs of None \<Rightarrow> True | Some b \<Rightarrow> valid_block b \<and> window_ok rs b)
     \<and> (case rs_bridge rs of None \<Rightarrow> True | Some br \<Rightarrow> bridge_ok br)"

definition created_ok :: "i32 + shared_block \<Rightarrow> bool" where
  "created_ok created \<longleftrightarrow> (case created of Inl _ \<Rightarrow> True | Inr b \<Rightarrow> valid_block b)"

lemma with_result_holding:
  assumes "holding w" and "\<And>b. valid_block b \<Longrightarrow> \<exists>code b'. f b = Some (code, b') \<and> valid_block b'"
  shows "\<exists>r w'. with_result f w = Some (r, w') \<and> holding w'"
  using assms by (fastforce simp: holding_def with_result_def)

lemma emptied:
  assumes "holding w" and "writer_clear w = Some (r1, w1)" and "writer_set_column_num n w1 = Some (r2, w2)" and "\<not> isl r1"
  shows "\<exists>b. bw_block w2 = Some b \<and> valid_block b \<and> block_rows b = 0"
proof -
  obtain b where b: "bw_block w = Some b" "valid_block b" using assms(1) by (auto simp: holding_def)
  then obtain code b1 where b1: "clear b = Some (code, b1)" "bw_block w1 = Some b1" "code = SHARED_BLOCK_OK"
    using assms(2,4) by (auto simp: writer_clear_def with_result_def result_from_code_def split: bind_splits if_splits)
  then have ro: "\<not> sb_read_only b" by (auto simp: clear_def block_codes)
  then have ok: "block_ok b1 [28] [] 0 432" "\<not> sb_read_only b1" using clear_block [of b] valid_basic [OF b(2)] b1(1) by auto
  obtain code2 b2 where b2: "set_column_num n b1 = Some (code2, b2)" "bw_block w2 = Some b2"
    using assms(3) b1(2) by (auto simp: writer_set_column_num_def with_result_def split: bind_splits)
  have "\<exists>cols. block_ok b2 [28] [] cols 432"
    using set_column_num_block [OF ok, of n] b2(1) ok(1) by (auto split: if_splits)
  then obtain cols where "block_ok b2 [28] [] cols 432" ..
  moreover from this have "row_num b2 = Some 0" by (simp add: row_num_def block_layout block_ok_def)
  ultimately have "row_num b2 = Some 0" "valid_block b2" by (auto intro: valid_blockI)
  with b2(2) show ?thesis by (simp add: block_rows_def)
qed

lemma fill_block_holding:
  assumes "holding w" and "bridge_ok br"
  shows "\<exists>r s w'. fill_block rs br i j w = Some (r, s, w') \<and> holding w'
    \<and> (\<not> isl r \<longrightarrow> (\<forall>b. bw_block w' = Some b \<longrightarrow> int (block_rows b) \<le> max 0 (sint j - sint i + 1)))"
proof -
  obtain r1 w1 where w1: "writer_clear w = Some (r1, w1)" "holding w1"
    using with_result_holding [OF assms(1), of clear] exec_op_valid [of _ OpClear] by (auto simp: writer_clear_def)
  let ?n = "of_nat (length (rs_column_names rs)) :: u32"
  obtain r2 w2 where w2: "writer_set_column_num ?n w1 = Some (r2, w2)" "holding w2"
    using with_result_holding [OF w1(2), of "set_column_num ?n"] exec_op_valid [of _ "OpSetColumns ?n"]
    by (auto simp: writer_set_column_num_def)
  show ?thesis
  proof (cases "isl r1 \<or> isl r2")
    case True
    then show ?thesis using w1 w2 by (cases r1; cases r2) (simp_all add: fill_block_def)
  next
    case False
    then obtain r s w3 calls where w3: "br_on_go br (br_state br) i j w2 = Some (r, s, w3)" "run_all writer_step calls w2 = Some w3"
        "\<forall>b. bw_block w3 = Some b \<longrightarrow> int (block_rows b) \<le> max 0 (sint j - sint i + 1)"
      using assms(2) emptied [OF assms(1) w1(1) w2(1)] unfolding bridge_ok_def by blast
    moreover have "holding w3" using held.run_all_total [OF w2(2), of calls] w3(2) by simp
    ultimately show ?thesis
      using w1 w2 False by (cases r1; cases r2) (simp_all add: fill_block_def)
  qed
qed

text \<open>What stays as it was in every step of the cursor.\<close>

definition same_frame :: "'s result_set \<Rightarrow> 's result_set \<Rightarrow> bool" where
  "same_frame rs rs' \<longleftrightarrow> rs_count rs' = rs_count rs \<and> rs_is_closed rs' = rs_is_closed rs
     \<and> rs_column_names rs' = rs_column_names rs \<and> rs_index_cache rs' = rs_index_cache rs
     \<and> (rs_bridge rs' = None \<longleftrightarrow> rs_bridge rs = None)"

lemma on_go_spec:
  assumes rs: "rs_ok rs" "rs_bridge rs = Some br" and cr: "created_ok created"
    and i: "0 \<le> sint i" "sint i \<le> sint j"
  shows "\<exists>r rs'. on_go created i j rs = Some (r, rs') \<and> rs_ok rs' \<and> same_frame rs rs' \<and> rs_row_pos rs' = rs_row_pos rs
    \<and> (\<not> isl r \<longrightarrow> r = Inr (rs_end_row_pos rs') \<and> (\<exists>b. rs_block rs' = Some b
        \<and> (if block_rows b = 0 then rs_start_row_pos rs' = - 1 \<and> rs_end_row_pos rs' = - 1
           else rs_start_row_pos rs' = i \<and> sint (rs_end_row_pos rs') = sint i + int (block_rows b) - 1)))"
proof -
  have br: "bridge_ok br" using rs by (simp add: rs_ok_def)
  let ?take = "case rs_block rs of Some b \<Rightarrow> Inr b | None \<Rightarrow> (case created of Inl _ \<Rightarrow> Inl ErrOutOfMemory | Inr b \<Rightarrow> Inr b)"
  show ?thesis
  proof (cases ?take)
    case (Inl e)
    then show ?thesis using rs br by (simp add: on_go_def rs_ok_def same_frame_def)
  next
    case (Inr block)
    then have "holding (from_block block)"
      using rs cr by (auto simp: holding_def from_block_def rs_ok_def created_ok_def split: option.splits sum.splits)
    then obtain r s w where w: "fill_block rs br i j (from_block block) = Some (r, s, w)" "holding w"
        "\<not> isl r \<longrightarrow> (\<forall>b. bw_block w = Some b \<longrightarrow> int (block_rows b) \<le> max 0 (sint j - sint i + 1))"
      using fill_block_holding [OF _ br] by blast
    then obtain b where b: "bw_block w = Some b" "valid_block b" by (auto simp: holding_def)
    have n: "row_num b = Some (of_nat (block_rows b))" "sint (of_nat (block_rows b) :: i32) = int (block_rows b)"
      using valid_rows [OF b(2)] by (auto simp: sint_of_nat32)
    have br': "bridge_ok (br\<lparr>br_state := s\<rparr>)" using br by (simp add: bridge_ok_def)
    have e: "sint (i + of_nat (block_rows b) - 1) = sint i + int (block_rows b) - 1" if "\<not> isl r"
    proof -
      have "sint (i + word_of_int (int (block_rows b) - 1)) = sint i + (int (block_rows b) - 1)"
        using that w(3) b(1) i word_range32 [of i] word_range32 [of j] by (intro sint_arith32) auto
      then show ?thesis by (simp add: wi_hom_sub [symmetric] algebra_simps)
    qed
    show ?thesis
      using Inr rs w(1) b n br' e i
      by (cases r; cases "block_rows b = 0") (auto simp: on_go_def rs_ok_def window_ok_def same_frame_def take_block_def Let_def)
  qed
qed

section \<open>Navigation\<close>

lemma go_to_row_spec:
  assumes rs: "rs_ok rs" "\<not> rs_is_closed rs" and cr: "created_ok created"
  shows "\<exists>r rs'. go_to_row created p rs = Some (r, rs') \<and> rs_ok rs' \<and> same_frame rs rs'
    \<and> (case r of
         Inl _ \<Rightarrow> rs_row_pos rs' = rs_row_pos rs
       | Inr False \<Rightarrow> rs' = rs \<and> \<not> (0 \<le> sint p \<and> sint p < sint (rs_count rs))
       | Inr True \<Rightarrow> 0 \<le> sint p \<and> sint p < sint (rs_count rs) \<and> rs_row_pos rs' = p
           \<and> (\<forall>b. rs_bridge rs \<noteq> None \<and> rs_block rs' = Some b \<longrightarrow>
                (if block_rows b = 0 then rs_start_row_pos rs' = - 1
                 else 0 \<le> sint (rs_start_row_pos rs') \<and> sint (rs_start_row_pos rs') \<le> sint p \<and> sint p \<le> sint (rs_end_row_pos rs')
                   \<and> sint p - sint (rs_start_row_pos rs') < int (block_rows b))))"
proof -
  let ?outside = "sint p < 0 \<or> sint p \<ge> sint (rs_count rs)"
  let ?page = "rs_bridge rs \<noteq> None \<and> (sint p < sint (rs_start_row_pos rs) \<or> sint p > sint (rs_end_row_pos rs))"
  consider "?outside" | "\<not> ?outside" "\<not> ?page" | "\<not> ?outside" "?page" by blast
  then show ?thesis
  proof cases
    case 1
    then show ?thesis using rs by (auto simp: go_to_row_def same_frame_def)
  next
    case 2
    then have "go_to_row created p rs = Some (Inr True, rs\<lparr>rs_row_pos := p\<rparr>)" using rs by (auto simp: go_to_row_def)
    moreover have "rs_ok (rs\<lparr>rs_row_pos := p\<rparr>)" using rs(1) by (simp add: rs_ok_def window_ok_def split: option.splits)
    moreover have "window_ok rs b" if "rs_block rs = Some b" for b using rs(1) that by (simp add: rs_ok_def)
    ultimately show ?thesis using 2 by (auto simp: window_ok_def same_frame_def)
  next
    case 3
    then obtain br where br: "rs_bridge rs = Some br" by blast
    have "sint (rs_count rs - 1) = sint (rs_count rs) - 1"
      using sint_arith32 [of "rs_count rs" _ "- 1"] 3(1) word_range32 [of "rs_count rs"] by simp
    then obtain r rs1 where go: "on_go created p (rs_count rs - 1) rs = Some (r, rs1)" "rs_ok rs1" "same_frame rs rs1"
        "rs_row_pos rs1 = rs_row_pos rs"
        "\<not> isl r \<longrightarrow> r = Inr (rs_end_row_pos rs1) \<and> (\<exists>b. rs_block rs1 = Some b
        \<and> (if block_rows b = 0 then rs_start_row_pos rs1 = - 1 \<and> rs_end_row_pos rs1 = - 1
           else rs_start_row_pos rs1 = p \<and> sint (rs_end_row_pos rs1) = sint p + int (block_rows b) - 1))"
      using on_go_spec [OF rs(1) br cr, of p "rs_count rs - 1"] 3(1) by auto
    have ok: "rs_ok (rs1\<lparr>rs_row_pos := p\<rparr>)" using go(2) by (simp add: rs_ok_def window_ok_def split: option.splits)
    show ?thesis
      using 3 rs go ok by (cases r) (auto simp: go_to_row_def same_frame_def)
  qed
qed


text \<open>The cursor lies before the first row or on a row.\<close>

definition cursor_ok :: "'s result_set \<Rightarrow> bool" where
  "cursor_ok rs \<longleftrightarrow> rs_ok rs \<and> \<not> rs_is_closed rs \<and> - 1 \<le> sint (rs_row_pos rs)
     \<and> (rs_row_pos rs = - 1 \<or> sint (rs_row_pos rs) < sint (rs_count rs))"

text \<open>The addition of a relative move may wrap around, but then it lands outside the rows as the exact sum does.\<close>

lemma wrapped_sum:
  fixes x d n :: i32
  assumes "- 1 \<le> sint x"
  shows "0 \<le> sint (x + d) \<and> sint (x + d) < sint n \<longleftrightarrow> 0 \<le> sint x + sint d \<and> sint x + sint d < sint n"
    and "0 \<le> sint x + sint d \<Longrightarrow> sint x + sint d < sint n \<Longrightarrow> sint (x + d) = sint x + sint d"
proof -
  note r = word_range32 [of x] word_range32 [of d] word_range32 [of "n :: i32"]
  have id: "sint (x + d) = sint x + sint d" if "- (2 ^ 31) \<le> sint x + sint d" "sint x + sint d < 2 ^ 31"
    using sint_arith32 [OF refl that] by simp
  then show "0 \<le> sint x + sint d \<Longrightarrow> sint x + sint d < sint n \<Longrightarrow> sint (x + d) = sint x + sint d" using r by simp
  have shift: "sint (x + d) = sint x + sint d + k" if "- (2 ^ 31) \<le> sint x + sint d + k" "sint x + sint d + k < 2 ^ 31" "word_of_int k = (0 :: i32)" for k
    using sint_arith32 [OF refl, of x "sint d + k"] that by (simp add: add.assoc)
  have z: "word_of_int (- 4294967296) = (0 :: i32)" "word_of_int 4294967296 = (0 :: i32)" by simp_all
  consider "sint x + sint d \<ge> 2 ^ 31" | "sint x + sint d < - (2 ^ 31)"
    | "- (2 ^ 31) \<le> sint x + sint d" "sint x + sint d < 2 ^ 31" by linarith
  then show "0 \<le> sint (x + d) \<and> sint (x + d) < sint n \<longleftrightarrow> 0 \<le> sint x + sint d \<and> sint x + sint d < sint n"
  proof cases
    case 1
    then show ?thesis using shift [OF _ _ z(1)] r assms by auto
  next
    case 2
    then show ?thesis using shift [OF _ _ z(2)] r assms by auto
  next
    case 3
    then show ?thesis by (simp add: id)
  qed
qed

text \<open>The navigation operations.\<close>

datatype nav = GoToRow i32 | GoTo i32 | First | Last | Next | Previous

primrec nav_step :: "(i32 + shared_block) \<Rightarrow> nav \<Rightarrow> 's result_set \<Rightarrow> (bool ds_result \<times> 's result_set) option" where
  "nav_step created (GoToRow p) rs = go_to_row created p rs"
| "nav_step created (GoTo d) rs = go_to created d rs"
| "nav_step created First rs = go_to_first_row created rs"
| "nav_step created Last rs = go_to_last_row created rs"
| "nav_step created Next rs = go_to_next_row created rs"
| "nav_step created Previous rs = go_to_previous_row created rs"

text \<open>The row a navigation aims at, over the integers.\<close>

primrec nav_target :: "nav \<Rightarrow> 's result_set \<Rightarrow> int" where
  "nav_target (GoToRow p) rs = sint p"
| "nav_target (GoTo d) rs = sint (rs_row_pos rs) + sint d"
| "nav_target First rs = 0"
| "nav_target Last rs = sint (rs_count rs) - 1"
| "nav_target Next rs = sint (rs_row_pos rs) + 1"
| "nav_target Previous rs = sint (rs_row_pos rs) - 1"

text \<open>
  An exact move to the row \<open>p\<close>: it returns and keeps the invariant; it answers true exactly when
  \<open>p\<close> is a row and then the cursor is there; otherwise the cursor is where it was.
\<close>

definition moves_to :: "'s result_set \<Rightarrow> int \<Rightarrow> (bool ds_result \<times> 's result_set) option \<Rightarrow> bool" where
  "moves_to rs p res \<longleftrightarrow> (\<exists>r rs'. res = Some (r, rs') \<and> cursor_ok rs' \<and> same_frame rs rs'
     \<and> (\<forall>ok. r = Inr ok \<longrightarrow> (ok \<longleftrightarrow> 0 \<le> p \<and> p < sint (rs_count rs)))
     \<and> sint (rs_row_pos rs') = (if r = Inr True then p else sint (rs_row_pos rs)))"

lemma go_to_row_moves:
  assumes rs: "cursor_ok rs" and cr: "created_ok created"
  shows "moves_to rs (sint p) (go_to_row created p rs)"
proof -
  have ok: "rs_ok rs" "\<not> rs_is_closed rs" using rs by (simp_all add: cursor_ok_def)
  from go_to_row_spec [OF ok cr, of p] obtain r rs' where *: "go_to_row created p rs = Some (r, rs')" "rs_ok rs'" "same_frame rs rs'"
      "case r of Inl _ \<Rightarrow> rs_row_pos rs' = rs_row_pos rs
       | Inr False \<Rightarrow> rs' = rs \<and> \<not> (0 \<le> sint p \<and> sint p < sint (rs_count rs))
       | Inr True \<Rightarrow> 0 \<le> sint p \<and> sint p < sint (rs_count rs) \<and> rs_row_pos rs' = p"
    by (fastforce split: sum.splits bool.splits)
  then show ?thesis
    using rs by (auto simp: cursor_ok_def moves_to_def same_frame_def split: sum.splits bool.splits)
qed

lemma go_to_moves:
  assumes rs: "cursor_ok rs" and cr: "created_ok created"
  shows "moves_to rs (sint (rs_row_pos rs) + sint d) (go_to created d rs)"
proof -
  have pos: "- 1 \<le> sint (rs_row_pos rs)" "\<not> rs_is_closed rs" using rs by (auto simp: cursor_ok_def)
  have "moves_to rs (sint (rs_row_pos rs + d)) (go_to created d rs)"
    using go_to_row_moves [OF assms, of "rs_row_pos rs + d"] pos(2) by (simp add: go_to_def Let_def)
  then obtain r rs' where *: "go_to created d rs = Some (r, rs')" "cursor_ok rs'" "same_frame rs rs'"
      "\<forall>ok. r = Inr ok \<longrightarrow> (ok \<longleftrightarrow> 0 \<le> sint (rs_row_pos rs + d) \<and> sint (rs_row_pos rs + d) < sint (rs_count rs))"
      "sint (rs_row_pos rs') = (if r = Inr True then sint (rs_row_pos rs + d) else sint (rs_row_pos rs))"
    by (auto simp: moves_to_def)
  note exact = wrapped_sum [OF pos(1), of d "rs_count rs"]
  have "sint (rs_row_pos rs + d) = sint (rs_row_pos rs) + sint d" if "r = Inr True"
    using *(4) that exact by blast
  then show ?thesis using * unfolding exact(1) by (auto simp: moves_to_def)
qed

text \<open>C5: navigation is exact. Every move of an open cursor returns; it succeeds exactly when its target,
  computed over the integers, is a row, and then the cursor is there; otherwise, or when paging
  fails, the cursor has not moved. No 32-bit overflow can carry it elsewhere, and it never leaves the
  range from -1 to the last row.\<close>

theorem navigation_exact:
  assumes rs: "cursor_ok rs" and cr: "created_ok created"
  shows "moves_to rs (nav_target m rs) (nav_step created m rs)"
proof -
  note row = go_to_row_moves [OF assms] and rel = go_to_moves [OF assms]
  show ?thesis
  proof (cases m)
    case Last
    show ?thesis
    proof (cases "0 < sint (rs_count rs)")
      case True
      then have "sint (rs_count rs - 1) = sint (rs_count rs) - 1"
        using sint_arith32 [of "rs_count rs" _ "- 1"] word_range32 [of "rs_count rs"] by simp
      then show ?thesis using row [of "rs_count rs - 1"] True Last by (simp add: go_to_last_row_def)
    next
      case False
      then show ?thesis using rs Last by (simp add: go_to_last_row_def same_frame_def moves_to_def)
    qed
  qed (use row [of 0] row rel [of 1] rel [of "- 1"] rel in
      \<open>simp_all add: go_to_first_row_def go_to_next_row_def go_to_previous_row_def\<close>)
qed

section \<open>Reading a whole column\<close>

text \<open>The loop of a client: \<open>while rs.go_to_next_row()? { rs.get_long(c)? }\<close>, on a block without a bridge.\<close>

primrec scan_long :: "nat \<Rightarrow> i32 \<Rightarrow> 's result_set \<Rightarrow> i64 list option" where
  "scan_long 0 c rs = None"
| "scan_long (Suc fuel) c rs =
     (case go_to_next_row (Inl 0) rs of
        Some (Inr True, rs') \<Rightarrow>
          (case rs_get_long rs' c of
             Some (Inr v) \<Rightarrow> map_option (\<lambda>vs. v # vs) (scan_long fuel c rs')
           | _ \<Rightarrow> None)
      | Some (Inr False, _) \<Rightarrow> Some []
      | _ \<Rightarrow> None)"

lemma next_of_block:
  assumes "\<not> rs_is_closed rs" "rs_bridge rs = None" "rs_count rs = of_nat n" "n < 2 ^ 31" "rs_row_pos rs = of_nat k - 1" "k \<le> n"
  shows "go_to_next_row created rs = Some (Inr (k < n), if k < n then rs\<lparr>rs_row_pos := of_nat k\<rparr> else rs)"
  using assms sint_of_nat32 [of n] sint_of_nat32 [of k]
  by (simp add: go_to_next_row_def go_to_def go_to_row_def Let_def)

lemma scan_from:
  assumes b: "valid_block b" "column_num b = Some (of_nat cols)" "unat c < cols" "cols \<le> 32767"
    and rs: "\<not> rs_is_closed rs" "rs_bridge rs = None" "rs_block rs = Some b" "rs_column_names rs = []"
      "rs_start_row_pos rs = 0" "rs_count rs = of_nat (block_rows b)" "rs_row_pos rs = of_nat k - 1" "k \<le> block_rows b"
  shows "scan_long (Suc (block_rows b - k)) c rs =
    Some (map (\<lambda>r. cell_long (the (cell_view b (of_nat r) c))) [k..<block_rows b])"
  using rs
proof (induction "block_rows b - k" arbitrary: k rs)
  case 0
  then show ?case using next_of_block [of rs "block_rows b" k "Inl 0"] valid_rows [OF b(1)] by simp
next
  case (Suc d)
  let ?rs = "rs\<lparr>rs_row_pos := of_nat k\<rparr>"
  have k: "k < block_rows b" "block_rows b < 2 ^ 31" using Suc.hyps(2) valid_rows [OF b(1)] by auto
  obtain gs ds cols' u where ok: "block_ok b gs ds cols' u" using b(1) by (auto simp: valid_block_def)
  have "row_num b = Some (of_nat (length ds))" "column_num b = Some (of_nat cols')" "length ds < 2 ^ 31" "cols' \<le> 32767"
    using ok block_rows_small [OF ok] by (auto simp: row_num_def column_num_def block_layout block_ok_def)
  then have "block_rows b = length ds" "unat (of_nat cols' :: u32) = unat (of_nat cols :: u32)" "cols' \<le> 32767"
    using b(2) by (simp_all add: block_rows_def unat_of_nat)
  then have "block_rows b = length ds" "cols' = cols" using b(4) by (simp_all add: unat_of_nat)
  then obtain x where x: "cell_view b (of_nat k) c = Some x"
    using cell_view_block [OF ok, of "of_nat k" c] k b(3) by (simp add: unat_of_nat)
  have "(of_nat k :: i32) \<noteq> - 1" using sint_of_nat32 [of k] k by auto
  then have "rs_get_long ?rs c = Some (Inr (cell_long x))"
    using getters_spec [of ?rs b c x] Suc.prems x b(1) by (simp add: readable_def block_row_index_def INIT_POS_def)
  moreover have "scan_long (Suc (block_rows b - Suc k)) c ?rs =
      Some (map (\<lambda>r. cell_long (the (cell_view b (of_nat r) c))) [Suc k..<block_rows b])"
    using Suc.prems Suc.hyps(2) k by (intro Suc.hyps(1)) auto
  moreover have "Suc (block_rows b - k) = Suc (Suc (block_rows b - Suc k))" using k by simp
  ultimately show ?case
    using next_of_block [of rs "block_rows b" k "Inl 0"] Suc.prems k x by (simp add: upt_conv_Cons)
qed

text \<open>C14: a result set over a block alone delivers the block: the loop that steps to the next row and reads a
  column ends after the last row, without an error, and has read every row of the column in order.\<close>

theorem scan_reads_column:
  assumes "valid_block b" and "column_num b = Some (of_nat cols)" and "unat c < cols" and "cols \<le> 32767"
    and "set_block b result_set_new = Some rs"
  shows "scan_long (Suc (block_rows b)) c rs = Some (map (\<lambda>r. cell_long (the (cell_view b (of_nat r) c))) [0..<block_rows b])"
  using scan_from [OF assms(1-4), of rs 0] assms(5) valid_rows [OF assms(1)]
  by (auto simp: set_block_def result_set_new_def INIT_POS_def)

section \<open>Closing\<close>

text \<open>A closed result set is closed for good: closing releases the block and the bridge, and afterwards every
  question, move, getter and second close is refused as an invalid operation and changes nothing.\<close>

theorem closed_refuses:
  assumes "rs_close rs = (Inr (), rs')"
  shows "rs_block rs' = None \<and> rs_bridge rs' = None
    \<and> rs_close rs' = (Inl ErrInvalidOperation, rs')
    \<and> nav_step created (GoToRow p) rs' = Some (Inl ErrInvalidOperation, rs')
    \<and> nav_step created (GoTo p) rs' = Some (Inl ErrInvalidOperation, rs')
    \<and> rs_get_row_count rs' = Inl ErrInvalidOperation \<and> get_all_column_names rs' = Inl ErrInvalidOperation
    \<and> get_column_count rs' = Some (Inl ErrInvalidOperation) \<and> get_column_index lower rs' name = Inl ErrInvalidOperation
    \<and> get_column_name rs' c = Inl ErrInvalidOperation \<and> get_row_index rs' = Inl ErrInvalidOperation
    \<and> is_started rs' = Inl ErrInvalidOperation \<and> is_ended rs' = Inl ErrInvalidOperation
    \<and> is_at_first_row rs' = Inl ErrInvalidOperation \<and> is_at_last_row rs' = Inl ErrInvalidOperation
    \<and> rs_get_long rs' c = Some (Inl ErrInvalidOperation) \<and> rs_get_double parse_f64 rs' c = Some (Inl ErrInvalidOperation)
    \<and> rs_get_string show_f64 rs' c = Some (Inl ErrInvalidOperation) \<and> rs_get_blob rs' c = Some (Inl ErrInvalidOperation)
    \<and> get_column_type rs' c = Some (Inl ErrInvalidOperation) \<and> is_column_null rs' c = Some (Inl ErrInvalidOperation)"
proof -
  have "rs_is_closed rs'" "rs_block rs' = None" "rs_bridge rs' = None"
    using assms by (auto simp: rs_close_def split: if_splits)
  moreover from this have "check_state rs' c = Some (Inl ErrInvalidOperation)" by (simp add: check_state_def)
  ultimately show ?thesis
    by (simp add: rs_close_def go_to_row_def go_to_def rs_get_row_count_def get_all_column_names_def get_column_count_def
        get_column_index_def get_column_name_def get_row_index_def is_started_def is_ended_def is_at_first_row_def
        is_at_last_row_def unless_closed_def rs_get_long_def rs_get_double_def rs_get_string_def rs_get_blob_def
        get_column_type_def is_column_null_def with_cell_def)
qed

section \<open>A page that fails half way\<close>

lemma one_row_block:
  assumes b: "block_ok b [28] [] 1 432" "\<not> sb_read_only b" "1024 \<le> sb_size b"
  shows "\<exists>b1 b2. alloc_row b = Some (SHARED_BLOCK_OK, b1) \<and> row_num b1 = Some 1 \<and> put_long 0 0 v b1 = Some (SHARED_BLOCK_OK, b2)
    \<and> valid_block b2 \<and> \<not> sb_read_only b2 \<and> sb_size b2 = sb_size b \<and> block_rows b2 = 1 \<and> cell_view b2 0 0 = Some (CLong v)"
proof -
  obtain code b1 gs ds u where a: "alloc_row b = Some (code, b1)" "block_ok b1 gs ds 1 u" "\<not> sb_read_only b1"
      "if code = SHARED_BLOCK_OK
        then length ds = Suc (length ([] :: nat list))
          \<and> (\<forall>r c. cell_view b1 r c = (if unat r = length ([] :: nat list) \<and> unat c < 1 then Some CNull else cell_view b r c))
        else same_view b b1 \<and> (0 < (1 :: nat) \<longrightarrow> ds = []) \<and> sb_size b \<le> 432 + 422 + 12 * 1"
    using alloc_row_block [OF b(1,2)] by blast
  have code: "code = SHARED_BLOCK_OK" using a(4) b(3) by (auto split: if_splits)
  have v1: "valid_block b1" "row_num b1 = Some 1" "cell_view b1 0 0 = Some CNull" "cell_view b1 1 0 = None"
    using valid_blockI [OF a(2)] a(2,4) code in_range [OF b(1), of 1 0] by (auto simp: row_num_def block_layout block_ok_def)
  obtain b2 where b2: "put_long 0 0 v b1 = Some (SHARED_BLOCK_OK, b2)" "valid_block b2" "\<not> sb_read_only b2"
      "view_updated b1 0 0 (CLong v) b2"
    using put_cell_valid [OF v1(1) a(3), of "le_bytes 8 v" 1 0 0] v1(3) by (auto simp: put_long_def cell_types decode_words)
  have c2: "cell_view b2 0 0 = Some (CLong v)" "cell_view b2 1 0 = None" using b2(4) v1(4) by (simp_all add: view_updated_def)
  obtain gs' ds' cols' u' where ok2: "block_ok b2 gs' ds' cols' u'" using b2(2) by (auto simp: valid_block_def)
  have "0 < length ds'" "\<not> 1 < length ds'" using in_range [OF ok2, of 0 0] in_range [OF ok2, of 1 0] c2 by simp_all
  then have "length ds' = 1" by linarith
  then have "block_rows b2 = 1" using ok2 by (simp add: block_rows_def row_num_def block_layout block_ok_def)
  then show ?thesis
    using a(1) code v1 b2 c2 alloc_row_size [OF a(1)] put_cell_size [OF b2(1) [unfolded put_long_def]]
    by (intro exI [of _ b1] exI [of _ b2]) simp
qed

lemma sample_row:
  "\<exists>b. valid_block b \<and> \<not> sb_read_only b \<and> 1024 \<le> sb_size b \<and> block_rows b = 1 \<and> cell_view b 0 0 = Some (CLong v)"
proof -
  obtain b0 where b0: "block_ok b0 [28] [] 0 432" "\<not> sb_read_only b0" "sb_size b0 = 4096"
    using create_block [of "replicate 4096 0" 4096 "''t''"] by auto
  obtain b1 where b1: "block_ok b1 [28] [] 1 432" "\<not> sb_read_only b1" "sb_size b1 = 4096"
    using set_column_num_block [OF b0(1,2), of 1] b0 by auto
  then show ?thesis using one_row_block [OF b1(1,2), of v] by auto
qed

text \<open>A bridge whose query delivers one row and then breaks.\<close>

definition breaking_bridge :: "i64 bridge" where
  "breaking_bridge = \<lparr>br_state = 99, br_names = \<lambda>_. Inr [''id''], br_count = \<lambda>_. Inr 10,
     br_on_go = \<lambda>v i j w. map_option (\<lambda>w'. (Inl ErrGeneralError, v, w')) (run_all writer_step [WAllocRow, WLong 0 v] w)\<rparr>"

text \<open>The writer calls of that bridge on a cleared block.\<close>

lemma cleared_then_one_row:
  assumes b: "valid_block b" "\<not> sb_read_only b" "1024 \<le> sb_size b"
  shows "\<exists>w b'. do { (r1, w) \<leftarrow> writer_clear (from_block b);
       (r2, w) \<leftarrow> writer_set_column_num 1 w; w \<leftarrow> run_all writer_step [WAllocRow, WLong 0 v] w; Some (r1, r2, w) } = Some (Inr (), Inr (), w)
    \<and> bw_block w = Some b' \<and> valid_block b' \<and> \<not> sb_read_only b' \<and> block_rows b' = 1 \<and> cell_view b' 0 0 = Some (CLong v)"
proof -
  obtain b1 where b1: "clear b = Some (SHARED_BLOCK_OK, b1)" "block_ok b1 [28] [] 0 432" "\<not> sb_read_only b1"
    using clear_block [of b] valid_basic [OF b(1)] b(2) by auto
  obtain b2 where b2: "set_column_num 1 b1 = Some (SHARED_BLOCK_OK, b2)" "block_ok b2 [28] [] 1 432" "\<not> sb_read_only b2" "sb_size b2 = sb_size b1"
    using set_column_num_block [OF b1(2,3), of 1] b1(3) by auto
  obtain b3 b4 where "alloc_row b2 = Some (SHARED_BLOCK_OK, b3)" "row_num b3 = Some 1" "put_long 0 0 v b3 = Some (SHARED_BLOCK_OK, b4)"
      "valid_block b4" "\<not> sb_read_only b4" "block_rows b4 = 1" "cell_view b4 0 0 = Some (CLong v)"
    using one_row_block [OF b2(2,3), of v] b2(4) clear_size [OF b1(1)] b(3) by auto
  with b1(1) b2(1) show ?thesis
    by (simp add: writer_clear_def writer_set_column_num_def alloc_row_legacy_def write_long_legacy_def at_last_row_def
        with_result_def from_block_def result_from_code_def block_codes)
qed

lemma breaking_page:
  assumes b: "valid_block b" "\<not> sb_read_only b" "1024 \<le> sb_size b"
    and rs: "rs_bridge rs = Some breaking_bridge" "rs_block rs = Some b" "rs_column_names rs = [''id'']"
  shows "\<exists>b'. on_go created i j rs =
      Some (Inl ErrGeneralError, rs\<lparr>rs_block := Some b', rs_start_row_pos := - 1, rs_end_row_pos := - 1\<rparr>)
    \<and> valid_block b' \<and> cell_view b' 0 0 = Some (CLong 99)"
proof -
  obtain w b' where w: "do { (r1, w) \<leftarrow> writer_clear (from_block b);
       (r2, w) \<leftarrow> writer_set_column_num 1 w; w \<leftarrow> run_all writer_step [WAllocRow, WLong 0 99] w; Some (r1, r2, w) } = Some (Inr (), Inr (), w)"
    and b': "bw_block w = Some b'" "valid_block b'" "cell_view b' 0 0 = Some (CLong 99)"
    using cleared_then_one_row [OF b, of 99] by blast
  have "fill_block rs breaking_bridge i j (from_block b) = Some (Inl ErrGeneralError, 99, w)"
    using w rs(3) by (auto simp: fill_block_def breaking_bridge_def simp del: run_all.simps split: bind_splits sum.splits)
  moreover have "breaking_bridge\<lparr>br_state := 99\<rparr> = breaking_bridge" by (simp add: breaking_bridge_def)
  ultimately show ?thesis
    using rs b' valid_rows [OF b'(2)] by (intro exI [of _ b']) (simp add: on_go_def take_block_def)
qed

text \<open>After a page that fails half way, the getters return the data of another row. The failed move
  leaves the cursor on its row but the block now holds the rows of the new page, and with the window
  marked empty the row position itself indexes the block: a cursor on row 0 that read 10 reads, after
  a failed move to row 5, the value 99 of row 5.\<close>

theorem failed_page_misreads:
  "\<exists>rs rs'. rs_row_pos rs = 0 \<and> rs_count rs = 10 \<and> rs_start_row_pos rs = 0 \<and> rs_end_row_pos rs = 0
    \<and> rs_bridge rs = Some breaking_bridge \<and> rs_get_long rs 0 = Some (Inr 10)
    \<and> go_to_row created 5 rs = Some (Inl ErrGeneralError, rs')
    \<and> get_row_index rs' = Inr 0 \<and> rs_get_long rs' 0 = Some (Inr 99)"
proof -
  obtain b where b: "valid_block b" "\<not> sb_read_only b" "1024 \<le> sb_size b" "cell_view b 0 0 = Some (CLong 10)"
    using sample_row [of 10] by blast
  let ?rs = "\<lparr>rs_block = Some b, rs_column_names = [''id''], rs_row_pos = 0, rs_count = 10, rs_is_closed = False,
     rs_index_cache = Map.empty, rs_bridge = Some breaking_bridge, rs_start_row_pos = 0, rs_end_row_pos = 0\<rparr>"
  obtain b' where b': "on_go created 5 9 ?rs = Some (Inl ErrGeneralError, ?rs\<lparr>rs_block := Some b', rs_start_row_pos := - 1, rs_end_row_pos := - 1\<rparr>)"
      "valid_block b'" "cell_view b' 0 0 = Some (CLong 99)"
    using breaking_page [OF b(1-3), of ?rs created 5 9] by auto
  let ?rs' = "?rs\<lparr>rs_block := Some b', rs_start_row_pos := - 1, rs_end_row_pos := - 1\<rparr>"
  have "rs_get_long ?rs 0 = Some (Inr 10)" "rs_get_long ?rs' 0 = Some (Inr 99)"
    using getters_spec [of ?rs b 0 "CLong 10"] getters_spec [of ?rs' b' 0 "CLong 99"] b b'
    by (simp_all add: readable_def block_row_index_def INIT_POS_def)
  moreover have "go_to_row created 5 ?rs = Some (Inl ErrGeneralError, ?rs')"
    using b'(1) by (simp add: go_to_row_def)
  ultimately show ?thesis
    by (intro exI [of _ ?rs] exI [of _ ?rs']) (simp add: get_row_index_def unless_closed_def)
qed

section \<open>Concrete result sets\<close>

text \<open>A result set standing on its first row, and a bridge that delivers one row per request.\<close>

definition on_first_row :: "'s bridge option \<Rightarrow> shared_block \<Rightarrow> 's result_set" where
  "on_first_row br b = \<lparr>rs_block = Some b, rs_column_names = [''id''], rs_row_pos = 0, rs_count = 10, rs_is_closed = False,
     rs_index_cache = Map.empty, rs_bridge = br, rs_start_row_pos = 0, rs_end_row_pos = 0\<rparr>"

definition row_bridge :: "unit bridge" where
  "row_bridge = \<lparr>br_state = (), br_names = \<lambda>_. Inr [''id''], br_count = \<lambda>_. Inr 10,
     br_on_go = \<lambda>s i j w.
       map_option (\<lambda>w'. (Inr (), s, w')) (run_all writer_step (if sint i \<le> sint j then [WAllocRow] else []) w)\<rparr>"

lemma alloc_row_rows:
  assumes v: "valid_block b"
  shows "\<exists>code b'. alloc_row b = Some (code, b') \<and> block_rows b' \<le> Suc (block_rows b)"
proof (cases "sb_read_only b")
  case True
  then show ?thesis by (simp add: alloc_row_def)
next
  case False
  obtain gs ds cols u where b: "block_ok b gs ds cols u" using v by (auto simp: valid_block_def)
  obtain code b' gs' ds' u' where a: "alloc_row b = Some (code, b')" "block_ok b' gs' ds' cols u'" "length ds' \<le> Suc (length ds)"
    using alloc_row_block [OF b False] by blast
  have "block_rows b = length ds" "block_rows b' = length ds'"
    using b a(2) block_rows_small [OF b] block_rows_small [OF a(2)]
    by (simp_all add: block_rows_def row_num_def block_layout block_ok_def unat_of_nat)
  with a show ?thesis by auto
qed

lemma row_bridge_ok: "bridge_ok row_bridge"
  unfolding bridge_ok_def
proof (intro allI impI)
  fix s :: unit and i j :: i32 and w :: block_writer and b
  assume w: "bw_block w = Some b \<and> valid_block b \<and> block_rows b = 0"
  obtain code b' where a: "alloc_row b = Some (code, b')" "block_rows b' \<le> 1" using alloc_row_rows [of b] w by auto
  show "\<exists>r s' w' calls. br_on_go row_bridge s i j w = Some (r, s', w') \<and> run_all writer_step calls w = Some w'
        \<and> (\<forall>b. bw_block w' = Some b \<longrightarrow> int (block_rows b) \<le> max 0 (sint j - sint i + 1))"
  proof (cases "sint i \<le> sint j")
    case True
    then show ?thesis
      using w a
      by (intro exI [of _ "Inr ()"] exI [of _ s] exI [of _ "w\<lparr>bw_block := Some b'\<rparr>"] exI [of _ "[WAllocRow]"])
        (simp add: row_bridge_def alloc_row_legacy_def with_result_def)
  next
    case False
    then show ?thesis
      using w by (intro exI [of _ "Inr ()"] exI [of _ s] exI [of _ w] exI [of _ "[]"]) (simp add: row_bridge_def)
  qed
qed

lemma first_row_cursor:
  assumes "valid_block b" and "block_rows b = 1" and "\<forall>x. br = Some x \<longrightarrow> bridge_ok x"
  shows "cursor_ok (on_first_row br b)"
  using assms by (simp add: cursor_ok_def rs_ok_def window_ok_def on_first_row_def split: option.splits)

lemma first_row_readable: "valid_block b \<Longrightarrow> readable (on_first_row br b) b 0"
  and first_row_index: "block_row_index (on_first_row br b) = 0"
  by (simp_all add: readable_def on_first_row_def INIT_POS_def block_row_index_def)

theorem getters_read_cell_witness:
  "\<exists>b. rs_get_long (on_first_row (None :: unit bridge option) b) 0 = Some (Inr 7)
    \<and> rs_get_string (\<lambda>_. []) (on_first_row (None :: unit bridge option) b) 0 = Some (Inr ''7'')"
proof -
  obtain b where b: "valid_block b" "cell_view b 0 0 = Some (CLong 7)" using sample_row [of 7] by blast
  have "i64_to_string 7 = ''7''" by code_simp
  then show ?thesis
    using getters_read_cell [OF first_row_readable [OF b(1)], of "None :: unit bridge option" "CLong 7" "\<lambda>_. None" "\<lambda>_. []"] b(2)
    by (auto simp: first_row_index)
qed

theorem long_double_long_witness:
  "\<exists>b b' x. rs_get_double (\<lambda>_. None) (on_first_row (None :: unit bridge option) b) 0 = Some (Inr x)
    \<and> rs_get_long (on_first_row (None :: unit bridge option) b') 0 = Some (Inr 7)"
proof -
  obtain b where b: "valid_block b" "\<not> sb_read_only b" "cell_view b 0 0 = Some (CLong 7)" using sample_row [of 7] by blast
  let ?rs = "on_first_row (None :: unit bridge option) b" and ?x = "i64_to_f64 7"
  have get: "rs_get_double (\<lambda>_. None) ?rs 0 = Some (Inr ?x)"
    using getters_spec [OF first_row_readable [OF b(1)], of "None :: unit bridge option" "CLong 7" "\<lambda>_. None" "\<lambda>_. []"] b(3) by (simp add: first_row_index)
  obtain b' where b': "valid_block b'" "view_updated b 0 0 (CDouble ?x) b'"
    using put_cell_valid [OF b(1,2), of "le_bytes 8 ?x" 2 0 0] b(3) by (auto simp: decode_words)
  have "rs_get_long (on_first_row (None :: unit bridge option) b') 0 = Some (Inr 7)"
    by (rule long_double_long [OF first_row_readable [OF b(1)] _ _ get first_row_readable [OF b'(1)]])
      (use b b' in \<open>simp_all add: first_row_index view_updated_def\<close>)
  with get show ?thesis by blast
qed

theorem get_column_index_last_witness:
  "get_column_index (\<lambda>s. if s = ''ID'' then ''id'' else s)
     (set_column_names (\<lambda>s. if s = ''ID'' then ''id'' else s) [''ID'', ''name'', ''id''] (result_set_new :: unit result_set)) ''ID'' = Inr 2"
  using get_column_index_last [of "[''ID'', ''name'', ''id'']" "result_set_new :: unit result_set" "\<lambda>s. if s = ''ID'' then ''id'' else s" "''ID''"]
  by (simp add: result_set_new_def upt_rec)


theorem navigation_exact_witness:
  "\<exists>b. moves_to (on_first_row (Some row_bridge) b) 9 (nav_step (Inl 0) Last (on_first_row (Some row_bridge) b))"
proof -
  obtain b where b: "valid_block b" "block_rows b = 1" using sample_row [of 7] by blast
  have "cursor_ok (on_first_row (Some row_bridge) b)" using first_row_cursor [OF b, of "Some row_bridge"] row_bridge_ok by simp
  then have "moves_to (on_first_row (Some row_bridge) b) (nav_target Last (on_first_row (Some row_bridge) b))
      (nav_step (Inl 0) Last (on_first_row (Some row_bridge) b))"
    by (rule navigation_exact) (simp add: created_ok_def)
  then show ?thesis by (intro exI [of _ b]) (simp add: on_first_row_def)
qed

theorem scan_reads_column_witness:
  "\<exists>b rs. set_block b (result_set_new :: unit result_set) = Some rs \<and> scan_long 2 0 rs = Some [7]"
proof -
  obtain b where b: "valid_block b" "block_rows b = 1" "cell_view b 0 0 = Some (CLong 7)" using sample_row [of 7] by blast
  obtain gs ds cols u where ok: "block_ok b gs ds cols u" using b(1) by (auto simp: valid_block_def)
  have cols: "column_num b = Some (of_nat cols)" "unat (0 :: i32) < cols" "cols \<le> 32767"
    using ok in_range [OF ok, of 0 0] b(3) by (auto simp: column_num_def block_layout block_ok_def)
  obtain rs :: "unit result_set" where rs: "set_block b result_set_new = Some rs" using valid_rows [OF b(1)] by (simp add: set_block_def)
  with scan_reads_column [OF b(1) cols rs] b(2,3) show ?thesis by (auto simp: numeral_2_eq_2)
qed

theorem closed_refuses_witness:
  "rs_get_long (snd (rs_close (result_set_new :: unit result_set))) 0 = Some (Inl ErrInvalidOperation)"
  using closed_refuses [of "result_set_new :: unit result_set" "snd (rs_close result_set_new)" "Inl 0" 0 id "''x''" 0 "\<lambda>_. None" "\<lambda>_. []"]
  by (simp add: rs_close_def result_set_new_def)

end
