(* ===== verification/Json_Value.thy ===== *)
theory Json_Value
  imports Ordered_Map Rust_Str F64
begin

text \<open>
  The JSON value of \<open>serializable.rs\<close>: the enumeration, its accessors, the typed getters and setters of
  object members, and the writer. Text is a string of UTF-8 bytes; the writer walks over characters and
  copies every non-ASCII one, which is copying its bytes. The two printers of \<open>f64\<close>, \<open>format!("{:.1}")\<close>
  and \<open>format!("{}")\<close>, and the parser \<open>str::parse::<f64>\<close> are the parameter \<open>f64_text\<close>.
\<close>

section \<open>Values\<close>

datatype json =
    JNull
  | JBool bool
  | JInt i64
  | JUint u64
  | JFloat f64
  | JString string
  | JArray "json list"
  | JObject "(string, json) btree"

record f64_text =
  show_f64 :: "f64 \<Rightarrow> string"
  show_f64_1 :: "f64 \<Rightarrow> string"
  parse_f64 :: "string \<Rightarrow> f64 option"

fun json_is_null :: "json \<Rightarrow> bool" where
  "json_is_null JNull = True"
| "json_is_null _ = False"

fun json_is_object :: "json \<Rightarrow> bool" where
  "json_is_object (JObject _) = True"
| "json_is_object _ = False"

fun is_number :: "json \<Rightarrow> bool" where
  "is_number (JInt _) = True"
| "is_number (JUint _) = True"
| "is_number (JFloat _) = True"
| "is_number _ = False"

fun is_number_integer :: "json \<Rightarrow> bool" where
  "is_number_integer (JInt _) = True"
| "is_number_integer (JUint _) = True"
| "is_number_integer _ = False"

fun is_number_unsigned :: "json \<Rightarrow> bool" where
  "is_number_unsigned (JUint _) = True"
| "is_number_unsigned (JInt v) = (0 \<le> sint v)"
| "is_number_unsigned _ = False"

fun json_as_bool :: "json \<Rightarrow> bool option" where
  "json_as_bool (JBool b) = Some b"
| "json_as_bool _ = None"

fun json_as_i64 :: "json \<Rightarrow> i64 option" where
  "json_as_i64 (JInt v) = Some v"
| "json_as_i64 (JUint v) = (if unat v < 2 ^ 63 then Some v else None)"
| "json_as_i64 _ = None"

fun json_as_u64 :: "json \<Rightarrow> u64 option" where
  "json_as_u64 (JUint v) = Some v"
| "json_as_u64 (JInt v) = (if 0 \<le> sint v then Some v else None)"
| "json_as_u64 _ = None"

fun json_as_f64 :: "json \<Rightarrow> f64 option" where
  "json_as_f64 (JFloat v) = Some v"
| "json_as_f64 (JInt v) = Some (i64_to_f64 v)"
| "json_as_f64 (JUint v) = Some (u64_to_f64 v)"
| "json_as_f64 _ = None"

fun json_as_str :: "json \<Rightarrow> string option" where
  "json_as_str (JString s) = Some s"
| "json_as_str _ = None"

fun json_as_array :: "json \<Rightarrow> json list option" where
  "json_as_array (JArray a) = Some a"
| "json_as_array _ = None"

fun json_as_object :: "json \<Rightarrow> (string, json) btree option" where
  "json_as_object (JObject m) = Some m"
| "json_as_object _ = None"

definition json_member :: "json \<Rightarrow> string \<Rightarrow> json" where
  "json_member v name = (case v of JObject m \<Rightarrow> (case bt_get m name of Some x \<Rightarrow> x | None \<Rightarrow> JNull) | _ \<Rightarrow> JNull)"

definition json_get :: "json \<Rightarrow> string \<Rightarrow> json" where
  "json_get v name = (if name = [] then v else json_member v name)"

definition json_set :: "json \<Rightarrow> string \<Rightarrow> json \<Rightarrow> json" where
  "json_set v key x = (case v of JObject m \<Rightarrow> JObject (bt_insert key x m) | _ \<Rightarrow> JObject (bt_insert key x []))"

section \<open>Members by type\<close>

definition get_sub_node :: "json \<Rightarrow> string \<Rightarrow> json" where
  "get_sub_node v name = (if json_is_null v then JNull else if name = [] then v else json_member v name)"

definition json_get_string :: "json \<Rightarrow> string \<Rightarrow> string option" where
  "json_get_string v name = json_as_str (get_sub_node v name)"

definition json_get_i32 :: "json \<Rightarrow> string \<Rightarrow> i32 option" where
  "json_get_i32 v name =
     (let sub = get_sub_node v name in
      if \<not> is_number_integer sub then None
      else case json_as_i64 sub of
             Some n \<Rightarrow> if - (2 ^ 31) \<le> sint n \<and> sint n < 2 ^ 31 then Some (word_of_int (sint n)) else None
           | None \<Rightarrow> None)"

text \<open>The unsigned getters: \<open>u64::try_into\<close> a type of \<open>b\<close> bits.\<close>

definition json_get_unsigned :: "nat \<Rightarrow> json \<Rightarrow> string \<Rightarrow> 'a::len word option" where
  "json_get_unsigned b v name =
     (let sub = get_sub_node v name in
      if \<not> is_number_unsigned sub then None
      else case json_as_u64 sub of Some n \<Rightarrow> if unat n < 2 ^ b then Some (of_nat (unat n)) else None | None \<Rightarrow> None)"

definition json_get_u32 :: "json \<Rightarrow> string \<Rightarrow> u32 option" where
  "json_get_u32 = json_get_unsigned 32"

definition json_get_i64 :: "json \<Rightarrow> string \<Rightarrow> i64 option" where
  "json_get_i64 v name = (let sub = get_sub_node v name in if \<not> is_number_integer sub then None else json_as_i64 sub)"

definition json_get_u64 :: "json \<Rightarrow> string \<Rightarrow> u64 option" where
  "json_get_u64 v name = (let sub = get_sub_node v name in if \<not> is_number_unsigned sub then None else json_as_u64 sub)"

definition json_get_u16 :: "json \<Rightarrow> string \<Rightarrow> u16 option" where
  "json_get_u16 = json_get_unsigned 16"

definition json_get_bool :: "json \<Rightarrow> string \<Rightarrow> bool option" where
  "json_get_bool v name =
     (let sub = get_sub_node v name in
      case json_as_bool sub of
        Some b \<Rightarrow> Some b
      | None \<Rightarrow> if is_number_unsigned sub then map_option (\<lambda>n. n \<noteq> 0) (json_as_u64 sub) else None)"

text \<open>\<open>get_vec\<close> with its element reader, and \<open>get_blob\<close>, both leaving at the first bad element.\<close>

primrec read_elements :: "(json \<Rightarrow> 'a option) \<Rightarrow> json list \<Rightarrow> 'a list option" where
  "read_elements f [] = Some []"
| "read_elements f (v # vs) = (case f v of None \<Rightarrow> None | Some x \<Rightarrow> map_option ((#) x) (read_elements f vs))"

definition json_get_vec :: "(json \<Rightarrow> string \<Rightarrow> 'a option) \<Rightarrow> json \<Rightarrow> string \<Rightarrow> 'a list option" where
  "json_get_vec parse_elem v name =
     (case json_as_array (get_sub_node v name) of None \<Rightarrow> None | Some a \<Rightarrow> read_elements (\<lambda>x. parse_elem x []) a)"

definition json_get_blob :: "json \<Rightarrow> string \<Rightarrow> bytes option" where
  "json_get_blob v name =
     (case json_as_array (get_sub_node v name) of
        None \<Rightarrow> None
      | Some a \<Rightarrow> read_elements (\<lambda>x. case json_as_u64 x of
                      Some n \<Rightarrow> if unat n < 2 ^ 8 then Some (of_nat (unat n)) else None | None \<Rightarrow> None) a)"

definition json_set_string :: "json \<Rightarrow> string \<Rightarrow> string \<Rightarrow> json" where
  "json_set_string v key s = json_set v key (JString s)"

definition json_set_i32 :: "json \<Rightarrow> string \<Rightarrow> i32 \<Rightarrow> json" where
  "json_set_i32 v key n = json_set v key (JInt (word_of_int (sint n)))"

definition json_set_u32 :: "json \<Rightarrow> string \<Rightarrow> u32 \<Rightarrow> json" where
  "json_set_u32 v key n = json_set v key (JUint (of_nat (unat n)))"

definition json_set_i64 :: "json \<Rightarrow> string \<Rightarrow> i64 \<Rightarrow> json" where
  "json_set_i64 v key n = json_set v key (JInt n)"

definition json_set_u64 :: "json \<Rightarrow> string \<Rightarrow> u64 \<Rightarrow> json" where
  "json_set_u64 v key n = json_set v key (JUint n)"

definition json_set_u16 :: "json \<Rightarrow> string \<Rightarrow> u16 \<Rightarrow> json" where
  "json_set_u16 v key n = json_set v key (JUint (of_nat (unat n)))"

definition json_set_bool :: "json \<Rightarrow> string \<Rightarrow> bool \<Rightarrow> json" where
  "json_set_bool v key b = json_set v key (JBool b)"

definition json_set_f64 :: "json \<Rightarrow> string \<Rightarrow> f64 \<Rightarrow> json" where
  "json_set_f64 v key x = json_set v key (JFloat x)"

definition json_set_blob :: "json \<Rightarrow> string \<Rightarrow> bytes \<Rightarrow> json" where
  "json_set_blob v key bs = json_set v key (JArray (map (\<lambda>b. JUint (of_nat (unat b))) bs))"

section \<open>Writing\<close>

definition hex_digit :: "nat \<Rightarrow> char" where
  "hex_digit d = char_of (if d < 10 then 48 + d else 87 + d)"

text \<open>\<open>format_args!("{:04x}")\<close>.\<close>

definition hex4 :: "nat \<Rightarrow> string" where
  "hex4 n = map hex_digit [n div 4096 mod 16, n div 256 mod 16, n div 16 mod 16, n mod 16]"

text \<open>\<open>CHR 0x22\<close> is the quotation mark, \<open>CHR 0x5C\<close> the backslash.\<close>

definition json_escape :: "char \<Rightarrow> string" where
  "json_escape c =
     (if c = CHR 0x22 then [CHR 0x5C, CHR 0x22]
      else if c = CHR 0x5C then [CHR 0x5C, CHR 0x5C]
      else if c = CHR 0x0A then [CHR 0x5C, CHR ''n'']
      else if c = CHR 0x0D then [CHR 0x5C, CHR ''r'']
      else if c = CHR 0x09 then [CHR 0x5C, CHR ''t'']
      else if of_char c < (0x20 :: nat) then [CHR 0x5C, CHR ''u''] @ hex4 (of_char c)
      else [c])"

definition write_json_string :: "string \<Rightarrow> string" where
  "write_json_string s = [CHR 0x22] @ concat (map json_escape s) @ [CHR 0x22]"

fun commas :: "string list \<Rightarrow> string" where
  "commas [] = []"
| "commas [x] = x"
| "commas (x # y # xs) = x @ '','' @ commas (y # xs)"

definition write_float :: "f64_text \<Rightarrow> f64 \<Rightarrow> string" where
  "write_float ft f =
     (if f64_is_infinite f \<or> f64_is_nan f then ''null''
      else if f64_eq f (i64_to_f64 (f64_to_i64 f)) \<and> f64_below_1e15 f then show_f64_1 ft f
      else show_f64 ft f)"

function write_to :: "f64_text \<Rightarrow> json \<Rightarrow> string" where
  "write_to ft JNull = ''null''"
| "write_to ft (JBool b) = (if b then ''true'' else ''false'')"
| "write_to ft (JInt n) = i64_to_string n"
| "write_to ft (JUint n) = decimal (unat n)"
| "write_to ft (JFloat f) = write_float ft f"
| "write_to ft (JString s) = write_json_string s"
| "write_to ft (JArray vs) = ''['' @ commas (map (write_to ft) vs) @ '']''"
| "write_to ft (JObject m) =
     ''{'' @ commas (map (\<lambda>(k, v). write_json_string k @ '':'' @ write_to ft v) m) @ ''}''"
  by pat_completeness auto

lemma json_member_size: "(k, v) \<in> set m \<Longrightarrow> size v < Suc (size_list (size_prod (\<lambda>_. 0) size) m)"
  by (induction m) auto

termination write_to
  by (relation "measure (\<lambda>(ft, v). size v)") (auto simp: json_member_size less_Suc_eq_le size_list_estimation')

definition dump :: "f64_text \<Rightarrow> json \<Rightarrow> string" where
  "dump ft v = write_to ft v"

end
