(* ===== verification/Json_Parser.thy ===== *)
theory Json_Parser
  imports Json_Value
begin

text \<open>
  The JSON parser of \<open>serializable.rs\<close>. A position in the byte slice is the rest of the text from
  there. Besides refusing and accepting, the parser can panic: \<open>parse_string\<close> indexes the slice before
  it looks at its length. The recursion of arrays and objects terminates because every step consumes
  text; the stack it needs is not modelled.
\<close>

section \<open>Outcomes\<close>

datatype 'a parsed = Panics | Refused | Parsed 'a string

fun and_then :: "'a parsed \<Rightarrow> ('a \<Rightarrow> string \<Rightarrow> 'b parsed) \<Rightarrow> 'b parsed" where
  "and_then Panics f = Panics"
| "and_then Refused f = Refused"
| "and_then (Parsed x r) f = f x r"

lemma and_then_cong [fundef_cong]:
  "p = q \<Longrightarrow> (\<And>x r. q = Parsed x r \<Longrightarrow> f x r = g x r) \<Longrightarrow> and_then p f = and_then q g"
  by (cases q) auto

lemma and_then_Parsed [simp]:
  "and_then p f = Parsed y r' \<longleftrightarrow> (\<exists>x r. p = Parsed x r \<and> f x r = Parsed y r')"
  by (cases p) auto

lemma case_Parsed:
  "(case xs of [] \<Rightarrow> Refused | c # q \<Rightarrow> f c q) = Parsed v r \<longleftrightarrow> (\<exists>c q. xs = c # q \<and> f c q = Parsed v r)"
  by (cases xs) auto

definition is_json_ws :: "char \<Rightarrow> bool" where
  "is_json_ws c \<longleftrightarrow> c = CHR '' '' \<or> c = CHR 0x09 \<or> c = CHR 0x0A \<or> c = CHR 0x0D"

definition skip_whitespace :: "string \<Rightarrow> string" where
  "skip_whitespace s = dropWhile is_json_ws s"

section \<open>Strings\<close>

definition hex_value :: "char \<Rightarrow> nat option" where
  "hex_value c =
     (let n = of_char c in
      if 48 \<le> n \<and> n \<le> 57 then Some (n - 48)
      else if 97 \<le> n \<and> n \<le> 102 then Some (n - 87)
      else if 65 \<le> n \<and> n \<le> 70 then Some (n - 55) else None)"

primrec hex_number :: "nat \<Rightarrow> string \<Rightarrow> nat option" where
  "hex_number n [] = Some n"
| "hex_number n (c # s) = (case hex_value c of Some d \<Rightarrow> hex_number (16 * n + d) s | None \<Rightarrow> None)"

text \<open>\<open>from_utf8\<close> and \<open>u16::from_str_radix(hex, 16)\<close> of four bytes; a leading plus sign is accepted.\<close>

definition hex_escape :: "string \<Rightarrow> nat option" where
  "hex_escape s =
     (if \<not> utf8_valid s then None
      else case s of
             c # d # r \<Rightarrow> hex_number 0 (if c = CHR ''+'' then d # r else s)
           | _ \<Rightarrow> None)"

text \<open>\<open>char::from_u32\<close> and \<open>String::push\<close>: the UTF-8 form of a scalar value.\<close>

definition encode_utf8 :: "nat \<Rightarrow> string option" where
  "encode_utf8 n =
     (if n < 0x80 then Some [char_of n]
      else if n < 0x800 then Some [char_of (0xC0 + n div 64), char_of (0x80 + n mod 64)]
      else if 0xD800 \<le> n \<and> n \<le> 0xDFFF then None
      else if n < 0x10000 then
        Some [char_of (0xE0 + n div 4096), char_of (0x80 + n div 64 mod 64), char_of (0x80 + n mod 64)]
      else if n < 0x110000 then
        Some [char_of (0xF0 + n div 262144), char_of (0x80 + n div 4096 mod 64),
              char_of (0x80 + n div 64 mod 64), char_of (0x80 + n mod 64)]
      else None)"

definition REPLACEMENT_CHARACTER :: string where
  "REPLACEMENT_CHARACTER = [CHR 0xEF, CHR 0xBF, CHR 0xBD]"

text \<open>What follows \<open>\u\<close>: the text pushed and the rest. The \<open>u32\<close> arithmetic of surrogate pairs wraps.\<close>

definition unicode_escape :: "string \<Rightarrow> (string \<times> string) option" where
  "unicode_escape t =
     (if length t < 4 then None
      else case hex_escape (take 4 t) of
             None \<Rightarrow> None
           | Some cp \<Rightarrow>
               if 0xD800 \<le> cp \<and> cp \<le> 0xDBFF then
                 if 10 \<le> length t \<and> t ! 4 = CHR 0x5C \<and> t ! 5 = CHR ''u'' then
                   (case hex_escape (take 4 (drop 6 t)) of
                      None \<Rightarrow> None
                    | Some cp2 \<Rightarrow>
                        map_option (\<lambda>s. (s, drop 10 t))
                          (encode_utf8 (unat (0x10000 + push_bit 10 (of_nat cp - 0xD800) + (of_nat cp2 - 0xDC00) :: u32))))
                 else Some (REPLACEMENT_CHARACTER, drop 4 t)
               else map_option (\<lambda>s. (s, drop 4 t)) (encode_utf8 cp))"

text \<open>The first character of the rest, which is checked to be UTF-8 as a whole.\<close>

definition first_char :: "string \<Rightarrow> (string \<times> string) option" where
  "first_char s =
     (if s = [] \<or> \<not> utf8_valid s then None
      else let b = of_char (hd s); n = (if b < (0x80 :: nat) then 1 else if b < 0xE0 then 2 else if b < 0xF0 then 3 else 4)
           in Some (take n s, drop n s))"

definition simple_escape :: "char \<Rightarrow> char option" where
  "simple_escape c =
     (if c = CHR 0x22 then Some (CHR 0x22)
      else if c = CHR 0x5C then Some (CHR 0x5C)
      else if c = CHR ''/'' then Some (CHR ''/'')
      else if c = CHR ''n'' then Some (CHR 0x0A)
      else if c = CHR ''r'' then Some (CHR 0x0D)
      else if c = CHR ''t'' then Some (CHR 0x09)
      else if c = CHR ''b'' then Some (CHR 0x08)
      else if c = CHR ''f'' then Some (CHR 0x0C) else None)"

lemma unicode_escape_shrinks: "unicode_escape t = Some (x, r) \<Longrightarrow> length r < length t"
  by (auto simp: unicode_escape_def split: if_splits option.splits)

lemma first_char_shrinks: "first_char s = Some (x, r) \<Longrightarrow> length r < length s"
  by (cases s) (auto simp: first_char_def Let_def split: if_splits)

text \<open>The loop after the opening quote, with the text collected so far.\<close>

function string_loop :: "string \<Rightarrow> string \<Rightarrow> string parsed" where
  "string_loop acc [] = Refused"
| "string_loop acc (c # s) =
     (if c = CHR 0x22 then Parsed acc s
      else if c = CHR 0x5C then
        (case s of
           [] \<Rightarrow> Refused
         | e # t \<Rightarrow>
             if e = CHR ''u'' then
               (case unicode_escape t of None \<Rightarrow> Refused | Some (x, r) \<Rightarrow> string_loop (acc @ x) r)
             else (case simple_escape e of None \<Rightarrow> Refused | Some d \<Rightarrow> string_loop (acc @ [d]) t))
      else (case first_char (c # s) of None \<Rightarrow> Refused | Some (x, r) \<Rightarrow> string_loop (acc @ x) r))"
  by pat_completeness auto
termination
  by (relation "measure (\<lambda>(acc, s). length s)") (auto dest!: unicode_escape_shrinks first_char_shrinks)

declare string_loop.simps(2) [simp del]

definition parse_string :: "string \<Rightarrow> string parsed" where
  "parse_string s = (case s of [] \<Rightarrow> Panics | c # r \<Rightarrow> if c \<noteq> CHR 0x22 then Refused else string_loop [] r)"

section \<open>Numbers and literals\<close>

definition parse_u64 :: "string \<Rightarrow> u64 option" where
  "parse_u64 s =
     (let d = (case s of c # r \<Rightarrow> if c = CHR ''+'' then r else s | [] \<Rightarrow> [])
      in case parse_digits d of Some n \<Rightarrow> if n < 2 ^ 64 then Some (of_nat n) else None | None \<Rightarrow> None)"

definition digits_after :: "string \<Rightarrow> string option" where
  "digits_after s = (case s of c # r \<Rightarrow> if is_digit c then Some (dropWhile is_digit r) else None | [] \<Rightarrow> None)"

definition integer_part :: "string \<Rightarrow> string option" where
  "integer_part s = (case s of c # r \<Rightarrow> if c = CHR ''0'' then Some r else digits_after s | [] \<Rightarrow> None)"

definition fraction_part :: "string \<Rightarrow> (bool \<times> string) option" where
  "fraction_part s =
     (case s of
        c # r \<Rightarrow> if c = CHR ''.'' then map_option (Pair True) (digits_after r) else Some (False, s)
      | [] \<Rightarrow> Some (False, s))"

definition exponent_part :: "string \<Rightarrow> (bool \<times> string) option" where
  "exponent_part s =
     (case s of
        c # r \<Rightarrow>
          if c = CHR ''e'' \<or> c = CHR ''E'' then
            map_option (Pair True)
              (digits_after (case r of d # q \<Rightarrow> if d = CHR ''+'' \<or> d = CHR ''-'' then q else r | [] \<Rightarrow> r))
          else Some (False, s)
      | [] \<Rightarrow> Some (False, s))"

definition number_of :: "f64_text \<Rightarrow> bool \<Rightarrow> bool \<Rightarrow> string \<Rightarrow> json option" where
  "number_of ft is_float negative text =
     (if is_float then map_option JFloat (parse_f64 ft text)
      else if negative then map_option JInt (parse_i64 text)
      else map_option JUint (parse_u64 text))"

definition parse_number :: "f64_text \<Rightarrow> string \<Rightarrow> json parsed" where
  "parse_number ft s =
     (let negative = (case s of c # r \<Rightarrow> c = CHR ''-'' | [] \<Rightarrow> False)
      in case integer_part (if negative then tl s else s) of
           None \<Rightarrow> Refused
         | Some s2 \<Rightarrow>
             (case fraction_part s2 of
                None \<Rightarrow> Refused
              | Some (fr, s3) \<Rightarrow>
                  (case exponent_part s3 of
                     None \<Rightarrow> Refused
                   | Some (ex, s4) \<Rightarrow>
                       (case number_of ft (fr \<or> ex) negative (take (length s - length s4) s) of
                          None \<Rightarrow> Refused | Some v \<Rightarrow> Parsed v s4))))"

definition parse_literal :: "(string \<times> json) list \<Rightarrow> string \<Rightarrow> json parsed" where
  "parse_literal words s =
     (case find (\<lambda>(w, v). starts_with s w) words of
        Some (w, v) \<Rightarrow> Parsed v (drop (length w) s) | None \<Rightarrow> Refused)"

definition parse_bool :: "string \<Rightarrow> json parsed" where
  "parse_bool = parse_literal [(''true'', JBool True), (''false'', JBool False)]"

definition parse_null :: "string \<Rightarrow> json parsed" where
  "parse_null = parse_literal [(''null'', JNull)]"

section \<open>Values, arrays and objects\<close>

text \<open>\<open>parse_elements\<close> and \<open>parse_members\<close> are the loops of \<open>parse_array\<close> and \<open>parse_object\<close>.\<close>

function (domintros) parse_value :: "f64_text \<Rightarrow> string \<Rightarrow> json parsed"
  and parse_elements :: "f64_text \<Rightarrow> json list \<Rightarrow> string \<Rightarrow> json parsed"
  and parse_members :: "f64_text \<Rightarrow> (string, json) btree \<Rightarrow> string \<Rightarrow> json parsed" where
  "parse_value ft s =
     (case skip_whitespace s of
        [] \<Rightarrow> Refused
      | c # r \<Rightarrow>
          if c = CHR 0x22 then and_then (parse_string (c # r)) (\<lambda>x. Parsed (JString x))
          else if c = CHR ''{'' then
            (let q = skip_whitespace r in if q \<noteq> [] \<and> hd q = CHR ''}'' then Parsed (JObject []) (tl q) else parse_members ft [] q)
          else if c = CHR ''['' then
            (let q = skip_whitespace r in if q \<noteq> [] \<and> hd q = CHR '']'' then Parsed (JArray []) (tl q) else parse_elements ft [] q)
          else if c = CHR ''t'' \<or> c = CHR ''f'' then parse_bool (c # r)
          else if c = CHR ''n'' then parse_null (c # r)
          else if c = CHR ''-'' \<or> is_digit c then parse_number ft (c # r)
          else Refused)"
| "parse_elements ft vs s =
     and_then (parse_value ft s) (\<lambda>v r.
       case skip_whitespace r of
         [] \<Rightarrow> Refused
       | c # q \<Rightarrow>
           if c = CHR '']'' then Parsed (JArray (vs @ [v])) q
           else if c = CHR '','' then parse_elements ft (vs @ [v]) q else Refused)"
| "parse_members ft m s =
     and_then (parse_string (skip_whitespace s)) (\<lambda>key r.
       case skip_whitespace r of
         [] \<Rightarrow> Refused
       | c # q \<Rightarrow>
           if c \<noteq> CHR '':'' then Refused
           else and_then (parse_value ft q) (\<lambda>v r2.
             case skip_whitespace r2 of
               [] \<Rightarrow> Refused
             | d # p \<Rightarrow>
                 if d = CHR ''}'' then Parsed (JObject (bt_insert key v m)) p
                 else if d = CHR '','' then parse_members ft (bt_insert key v m) p else Refused))"
  by pat_completeness auto

section \<open>Every parser consumes text\<close>

lemma skip_whitespace_length: "length (skip_whitespace s) \<le> length s"
  by (simp add: skip_whitespace_def length_dropWhile_le)

lemma skip_whitespace_Cons: "skip_whitespace s = c # r \<Longrightarrow> length r < length s"
  using skip_whitespace_length [of s] by simp

lemma string_loop_shrinks: "string_loop acc s = Parsed x r \<Longrightarrow> length r < length s"
proof (induction acc s rule: string_loop.induct)
  case (2 acc c s)
  then show ?case
    by (force simp: string_loop.simps(2) split: if_splits list.splits option.splits
        dest!: unicode_escape_shrinks first_char_shrinks)
qed simp

lemma parse_string_shrinks: "parse_string s = Parsed x r \<Longrightarrow> length r < length s"
  by (fastforce simp: parse_string_def split: list.splits if_splits dest: string_loop_shrinks)

lemma digits_after_shrinks: "digits_after s = Some r \<Longrightarrow> length r < length s"
  by (auto simp: digits_after_def less_Suc_eq_le length_dropWhile_le split: list.splits if_splits)

lemma number_parts_shrink:
  "integer_part s = Some r \<Longrightarrow> length r < length s"
  "fraction_part s = Some (b, r) \<Longrightarrow> length r \<le> length s"
  "exponent_part s = Some (b, r) \<Longrightarrow> length r \<le> length s"
  by (auto simp: integer_part_def fraction_part_def exponent_part_def split: list.splits if_splits dest!: digits_after_shrinks)

lemma parse_number_shrinks: "parse_number ft s = Parsed v r \<Longrightarrow> length r < length s"
proof (cases s)
  case (Cons c t)
  assume "parse_number ft s = Parsed v r"
  with Cons show ?thesis
    by (fastforce simp: parse_number_def Let_def split: if_splits option.splits dest!: number_parts_shrink)
qed (simp add: parse_number_def integer_part_def)

lemma parse_literal_Parsed:
  assumes "parse_literal words s = Parsed v r"
  shows "\<exists>w. (w, v) \<in> set words \<and> s = w @ r"
proof -
  obtain w where w: "find (\<lambda>(w, v). starts_with s w) words = Some (w, v)" "r = drop (length w) s"
    using assms by (auto simp: parse_literal_def split: option.splits)
  have "(w, v) \<in> set words" "starts_with s w" using w(1) by (induction words) (auto split: if_splits)
  then show ?thesis using w(2) by (auto simp: starts_with_iff)
qed

lemma parse_literal_shrinks:
  "parse_literal words s = Parsed v r \<Longrightarrow> \<forall>(w, v) \<in> set words. w \<noteq> [] \<Longrightarrow> length r < length s"
  by (drule parse_literal_Parsed) auto

lemma parse_word_shrinks:
  "parse_bool s = Parsed v r \<Longrightarrow> length r < length s"
  "parse_null s = Parsed v r \<Longrightarrow> length r < length s"
  by (auto simp: parse_bool_def parse_null_def dest: parse_literal_shrinks)

lemmas shrinks = parse_string_shrinks parse_number_shrinks parse_word_shrinks

lemma parse_shrinks_dom:
  shows "parse_value_parse_elements_parse_members_dom (Inl (ft, s)) \<Longrightarrow> parse_value ft s = Parsed v r \<Longrightarrow> length r < length s"
    and "parse_value_parse_elements_parse_members_dom (Inr (Inl (ft, vs, s))) \<Longrightarrow> parse_elements ft vs s = Parsed v r \<Longrightarrow> length r < length s"
    and "parse_value_parse_elements_parse_members_dom (Inr (Inr (ft, m, s))) \<Longrightarrow> parse_members ft m s = Parsed v r \<Longrightarrow> length r < length s"
proof (induction arbitrary: v r and v r and v r rule: parse_value_parse_elements_parse_members.pinduct)
  case (1 ft s)
  obtain c t where t: "skip_whitespace s = c # t" "length (c # t) \<le> length s" "length (skip_whitespace t) \<le> length t"
    using "1.prems" skip_whitespace_length [of s] skip_whitespace_length [of t]
    by (cases "skip_whitespace s") (auto simp: parse_value.psimps [OF "1.hyps"] skip_whitespace_length)
  have IH: "c = CHR ''{'' \<Longrightarrow> parse_members ft [] (skip_whitespace t) = Parsed v r \<Longrightarrow> \<not> (skip_whitespace t \<noteq> [] \<and> hd (skip_whitespace t) = CHR ''}'')
       \<Longrightarrow> length r < length (skip_whitespace t)"
    "c = CHR ''['' \<Longrightarrow> parse_elements ft [] (skip_whitespace t) = Parsed v r \<Longrightarrow> \<not> (skip_whitespace t \<noteq> [] \<and> hd (skip_whitespace t) = CHR '']'')
       \<Longrightarrow> length r < length (skip_whitespace t)"
    using "1.IH"(1) [OF t(1) _ _ refl] "1.IH"(2) [OF t(1) _ _ _ refl] by auto
  note eq = "1.prems" [unfolded parse_value.psimps [OF "1.hyps"] t(1) list.case Let_def]
  have "length r < length (c # t)"
  proof (cases "c = CHR ''{'' \<or> c = CHR ''[''")
    case True
    then have "length r < length (skip_whitespace t)"
    proof
      assume "c = CHR ''{''"
      then show ?thesis using eq IH(1) by (cases "skip_whitespace t") (auto split: if_split_asm)
    next
      assume "c = CHR ''[''"
      then show ?thesis using eq IH(2) by (cases "skip_whitespace t") (auto split: if_split_asm)
    qed
    then show ?thesis using t(3) by simp
  next
    case False
    then consider x where "parse_string (c # t) = Parsed x r" | "parse_bool (c # t) = Parsed v r" | "parse_null (c # t) = Parsed v r"
      | "parse_number ft (c # t) = Parsed v r"
      using eq by (simp split: if_split_asm) auto
    then show ?thesis by cases (drule shrinks, assumption)+
  qed
  then show ?case using t by simp
next
  case (2 ft vs s)
  note eq = "2.prems" [unfolded parse_elements.psimps [OF "2.hyps"] and_then_Parsed]
  then obtain x r1 c q where p: "parse_value ft s = Parsed x r1" "skip_whitespace r1 = c # q"
    "(if c = CHR '']'' then Parsed (JArray (vs @ [x])) q else if c = CHR '','' then parse_elements ft (vs @ [x]) q else Refused) = Parsed v r"
    unfolding case_Parsed by blast
  have "length q < length s" using "2.IH"(1) [OF p(1)] skip_whitespace_Cons [OF p(2)] by simp
  moreover have "length r \<le> length q"
    using p(3) "2.IH"(2) [OF p(1,2)] by (auto split: if_split_asm intro: less_imp_le)
  ultimately show ?case by simp
next
  case (3 ft m s)
  note eq = "3.prems" [unfolded parse_members.psimps [OF "3.hyps"] and_then_Parsed]
  then obtain key r1 q where p: "parse_string (skip_whitespace s) = Parsed key r1" "skip_whitespace r1 = CHR '':'' # q"
    "and_then (parse_value ft q) (\<lambda>v r2. case skip_whitespace r2 of [] \<Rightarrow> Refused
       | d # p \<Rightarrow> if d = CHR ''}'' then Parsed (JObject (bt_insert key v m)) p
          else if d = CHR '','' then parse_members ft (bt_insert key v m) p else Refused) = Parsed v r"
    by (auto simp: case_Parsed split: if_split_asm)
  obtain x r2 d p' where p2: "parse_value ft q = Parsed x r2" "skip_whitespace r2 = d # p'"
    "(if d = CHR ''}'' then Parsed (JObject (bt_insert key x m)) p' else if d = CHR '','' then parse_members ft (bt_insert key x m) p' else Refused) = Parsed v r"
    using p(3) unfolding and_then_Parsed case_Parsed by blast
  have "length q < length s"
    using parse_string_shrinks [OF p(1)] skip_whitespace_Cons [OF p(2)] skip_whitespace_length [of s] by simp
  moreover have "length p' < length q" using "3.IH"(1) [OF p(1,2) _ p2(1)] skip_whitespace_Cons [OF p2(2)] by simp
  moreover have "length r \<le> length p'"
    using p2(3) "3.IH"(2) [OF p(1,2) _ p2(1,2)] by (auto split: if_split_asm intro: less_imp_le)
  ultimately show ?case by simp
qed

lemma parse_dom:
  "parse_value_parse_elements_parse_members_dom (Inl (ft, s))
   \<and> (\<forall>vs. parse_value_parse_elements_parse_members_dom (Inr (Inl (ft, vs, s))))
   \<and> (\<forall>m. parse_value_parse_elements_parse_members_dom (Inr (Inr (ft, m, s))))"
proof (induction s rule: length_induct)
  case (1 s)
  note domintros = parse_value_parse_elements_parse_members.domintros
  have short: "length (skip_whitespace r) < length s" if "skip_whitespace s = c # r" for c r
    using that skip_whitespace_Cons [of s c r] skip_whitespace_length [of r] by simp
  have v: "parse_value_parse_elements_parse_members_dom (Inl (ft, s))"
    using 1 by (intro domintros(1)) (auto dest!: short)
  moreover have "parse_value_parse_elements_parse_members_dom (Inr (Inl (ft, vs, s)))" for vs
  proof (rule domintros(2) [OF v])
    fix x r q assume "parse_value ft s = Parsed x r" "skip_whitespace r = CHR '','' # q"
    then have "length q < length s" using parse_shrinks_dom(1) [OF v] skip_whitespace_Cons less_trans by blast
    then show "parse_value_parse_elements_parse_members_dom (Inr (Inl (ft, vs @ [x], q)))" using 1 by blast
  qed
  moreover have "parse_value_parse_elements_parse_members_dom (Inr (Inr (ft, m, s)))" for m
  proof (rule domintros(3))
    fix x r q assume p: "parse_string (skip_whitespace s) = Parsed x r" "skip_whitespace r = CHR '':'' # q"
    have q: "length q < length s"
      using p skip_whitespace_length [of s] by (auto dest!: parse_string_shrinks skip_whitespace_Cons)
    then show "parse_value_parse_elements_parse_members_dom (Inl (ft, q))" using 1 by blast
  next
    fix x r q v r2 p assume p: "parse_string (skip_whitespace s) = Parsed x r" "skip_whitespace r = CHR '':'' # q"
      and p2: "parse_value ft q = Parsed v r2" "skip_whitespace r2 = CHR '','' # p"
    have q: "length q < length s"
      using p skip_whitespace_length [of s] by (auto dest!: parse_string_shrinks skip_whitespace_Cons)
    then have dq: "parse_value_parse_elements_parse_members_dom (Inl (ft, q))" using 1 by blast
    have "length p < length s"
      using q p2 parse_shrinks_dom(1) [OF dq p2(1)] skip_whitespace_Cons [OF p2(2)] by simp
    then show "parse_value_parse_elements_parse_members_dom (Inr (Inr (ft, bt_insert x v m, p)))" using 1 by blast
  qed
  ultimately show ?case using v by blast
qed

termination parse_value
proof (rule allI)
  fix x
  show "parse_value_parse_elements_parse_members_dom x"
    using parse_dom by (cases x) (auto, metis obj_sumE prod_cases3)
qed

declare parse_value.simps [simp del] parse_elements.simps [simp del] parse_members.simps [simp del]

section \<open>Documents\<close>

text \<open>\<open>None\<close> is a panic, \<open>Some None\<close> a text that is refused.\<close>

definition json_parse :: "f64_text \<Rightarrow> string \<Rightarrow> json option option" where
  "json_parse ft input =
     (let t = trim input in
      if t = [] then Some None
      else case parse_value ft t of
             Panics \<Rightarrow> None
           | Refused \<Rightarrow> Some None
           | Parsed v r \<Rightarrow> Some (if skip_whitespace r = [] then Some v else None))"

definition json_accept :: "f64_text \<Rightarrow> string \<Rightarrow> bool option" where
  "json_accept ft input = map_option (\<lambda>res. res \<noteq> None) (json_parse ft input)"

text \<open>\<open>to_json\<close> and \<open>Serializable::unmarshall\<close>: a refused text is tried again from its second byte.\<close>

definition parse_or_drop_first :: "f64_text \<Rightarrow> string \<Rightarrow> json option option" where
  "parse_or_drop_first ft s =
     (case json_parse ft s of
        None \<Rightarrow> None
      | Some (Some v) \<Rightarrow> Some (Some v)
      | Some None \<Rightarrow>
          if s = [] then Some None
          else case slice_from s 1 of None \<Rightarrow> None | Some t \<Rightarrow> json_parse ft t)"

definition to_json :: "f64_text \<Rightarrow> string \<Rightarrow> json option" where
  "to_json ft s = map_option (\<lambda>res. case res of Some v \<Rightarrow> v | None \<Rightarrow> JNull) (parse_or_drop_first ft s)"

definition serializable_unmarshall :: "f64_text \<Rightarrow> (json \<Rightarrow> 'a \<Rightarrow> bool \<times> 'a) \<Rightarrow> string \<Rightarrow> 'a \<Rightarrow> (bool \<times> 'a) option" where
  "serializable_unmarshall ft unmarshal s x =
     map_option (\<lambda>res. case res of Some v \<Rightarrow> unmarshal v x | None \<Rightarrow> (False, x)) (parse_or_drop_first ft s)"

definition is_json :: "f64_text \<Rightarrow> string \<Rightarrow> bool option" where
  "is_json ft s =
     (case json_accept ft s of
        None \<Rightarrow> None
      | Some True \<Rightarrow> Some True
      | Some False \<Rightarrow>
          if 1 < length s then (case slice_from s 1 of None \<Rightarrow> None | Some t \<Rightarrow> json_accept ft t) else Some False)"

text \<open>\<open>get_serializable\<close> and \<open>set_serializable\<close>, with the implementation's own \<open>marshal\<close> and \<open>unmarshal\<close>.\<close>

definition get_serializable :: "(json \<Rightarrow> 'a \<Rightarrow> bool \<times> 'a) \<Rightarrow> json \<Rightarrow> string \<Rightarrow> 'a \<Rightarrow> bool \<times> 'a" where
  "get_serializable unmarshal v name x =
     (let sub = get_sub_node v name in if json_is_null sub \<or> \<not> json_is_object sub then (False, x) else unmarshal sub x)"

definition set_serializable :: "('a \<Rightarrow> json \<Rightarrow> bool \<times> json) \<Rightarrow> json \<Rightarrow> string \<Rightarrow> 'a \<Rightarrow> json" where
  "set_serializable marshal v key x = json_set v key (snd (marshal x JNull))"

end
