(* ===== verification/Json_Text.thy ===== *)
theory Json_Text
  imports Json_Parser
begin

text \<open>
  What the JSON writer and parser promise: text written is read back as the same value, up to the two
  things the format cannot say (a non-negative signed number reads as unsigned, a number that is not
  finite as null), the values the parser builds are well formed, members set by type are read back, and
  the texts on which the parser panics.
\<close>

section \<open>The structure of UTF-8 text\<close>

definition utf8_multi :: "string \<Rightarrow> bool" where
  "utf8_multi ch \<longleftrightarrow> utf8_valid ch \<and> (\<forall>c \<in> set ch. 128 \<le> (of_char c :: nat)) \<and> ch \<noteq> [] \<and>
     length ch = (if of_char (hd ch) < (0xE0 :: nat) then 2 else if of_char (hd ch) < (0xF0 :: nat) then 3 else 4)"

lemma utf8_valid_ascii [simp]: "of_char c < (128 :: nat) \<Longrightarrow> utf8_valid (c # s) \<longleftrightarrow> utf8_valid s"
  by (simp add: utf8_valid_def)

lemma utf8_cases:
  assumes "utf8_valid s"
  shows "s = [] \<or> (\<exists>c t. s = c # t \<and> of_char c < (128 :: nat) \<and> utf8_valid t) \<or> (\<exists>ch t. s = ch @ t \<and> utf8_multi ch \<and> utf8_valid t)"
proof (cases s)
  case (Cons b t)
  show ?thesis
  proof (cases "of_char b < (128 :: nat)")
    case False
    let ?b = "of_char b :: nat"
    have v: "utf8_codes (?b # map of_char t)" using assms Cons by (simp add: utf8_valid_def)
    consider "0xC2 \<le> ?b" "?b \<le> 0xDF" | "0xE0 \<le> ?b" "?b \<le> 0xEF" | "0xF0 \<le> ?b" "?b \<le> 0xF4"
      using v False by (auto split: if_splits)
    then have "\<exists>ch t. s = ch @ t \<and> utf8_multi ch \<and> utf8_valid t"
    proof cases
      case 1
      then obtain c r where t: "t = c # r" "utf8_cont (of_char c)" "utf8_valid r"
        using v False by (cases t) (auto simp: utf8_valid_def)
      then have "utf8_multi [b, c]" using 1 by (auto simp: utf8_multi_def utf8_valid_def utf8_cont_def)
      then show ?thesis using Cons t by (intro exI [of _ "[b, c]"] exI [of _ r]) simp
    next
      case 2
      then obtain c d r where t: "t = c # d # r" "utf8_valid r"
        using v False by (cases t; cases "tl t") (auto simp: utf8_valid_def)
      then have "utf8_multi [b, c, d]" using 2 v
        by (auto simp: utf8_multi_def utf8_valid_def utf8_cont_def split: if_splits)
      then show ?thesis using Cons t by (intro exI [of _ "[b, c, d]"] exI [of _ r]) simp
    next
      case 3
      then obtain c d e r where t: "t = c # d # e # r" "utf8_valid r"
        using v False by (cases t; cases "tl t"; cases "tl (tl t)") (auto simp: utf8_valid_def)
      then have "utf8_multi [b, c, d, e]" using 3 v
        by (auto simp: utf8_multi_def utf8_valid_def utf8_cont_def split: if_splits)
      then show ?thesis using Cons t by (intro exI [of _ "[b, c, d, e]"] exI [of _ r]) simp
    qed
    then show ?thesis by blast
  qed (use assms Cons in simp)
qed simp

lemma utf8_induct [consumes 1, case_names Nil ascii multi]:
  assumes "utf8_valid s" "P []"
    and "\<And>c s. of_char c < (128 :: nat) \<Longrightarrow> utf8_valid s \<Longrightarrow> P s \<Longrightarrow> P (c # s)"
    and "\<And>ch s. utf8_multi ch \<Longrightarrow> utf8_valid s \<Longrightarrow> P s \<Longrightarrow> P (ch @ s)"
  shows "P s"
  using assms(1)
proof (induction s rule: length_induct)
  case (1 s)
  from utf8_cases [OF 1(2)] show ?case
  proof (elim disjE exE conjE)
    fix ch t assume s: "s = ch @ t" "utf8_multi ch" "utf8_valid t"
    then have "length t < length s" by (simp add: utf8_multi_def)
    then show ?thesis using 1(1) s assms(4) by blast
  qed (use 1(1) assms(2,3) in auto)
qed

lemma utf8_codes_multi:
  "utf8_codes [b, c] \<Longrightarrow> 128 \<le> b \<Longrightarrow> utf8_codes (b # c # s) = utf8_codes s"
  "utf8_codes [b, c, d] \<Longrightarrow> 224 \<le> b \<Longrightarrow> utf8_codes (b # c # d # s) = utf8_codes s"
  "utf8_codes [b, c, d, e] \<Longrightarrow> 240 \<le> b \<Longrightarrow> utf8_codes (b # c # d # e # s) = utf8_codes s"
  by (simp_all split: if_splits)

lemma utf8_multi_append: "utf8_multi ch \<Longrightarrow> utf8_valid (ch @ s) \<longleftrightarrow> utf8_valid s"
proof -
  assume m: "utf8_multi ch"
  then consider b c where "ch = [b, c]" "128 \<le> (of_char b :: nat)" | b c d where "ch = [b, c, d]" "224 \<le> (of_char b :: nat)"
    | b c d e where "ch = [b, c, d, e]" "240 \<le> (of_char b :: nat)"
    by (auto simp: utf8_multi_def length_Suc_conv numeral_eq_Suc split: if_splits)
  moreover have v: "utf8_valid ch" using m by (simp add: utf8_multi_def)
  ultimately show ?thesis
    by cases (simp_all add: utf8_valid_def utf8_codes_multi del: utf8_codes.simps)
qed

lemma utf8_append: "utf8_valid s \<Longrightarrow> utf8_valid (s @ t) \<longleftrightarrow> utf8_valid t"
  by (induction s rule: utf8_induct) (simp_all add: utf8_multi_append)

lemma first_char_multi: "utf8_multi ch \<Longrightarrow> utf8_valid s \<Longrightarrow> first_char (ch @ s) = Some (ch, s)"
  using utf8_multi_append [of ch s] by (cases ch) (auto simp: first_char_def Let_def utf8_multi_def split: if_splits)

lemma first_char_ascii: "of_char c < (128 :: nat) \<Longrightarrow> utf8_valid s \<Longrightarrow> first_char (c # s) = Some ([c], s)"
  by (simp add: first_char_def)

section \<open>Strings\<close>

lemma hex_digit_value: "d < 16 \<Longrightarrow> hex_value (hex_digit d) = Some d"
  by (auto simp: hex_value_def hex_digit_def Let_def)

lemma hex_digit_ascii: "d < 16 \<Longrightarrow> of_char (hex_digit d) < (128 :: nat) \<and> hex_digit d \<noteq> CHR ''+''"
proof -
  assume "d < 16"
  then have "of_char (hex_digit d) = (if d < 10 then 48 + d else 87 + d)" by (simp add: hex_digit_def)
  then show ?thesis using \<open>d < 16\<close> by (auto split: if_splits)
qed

lemma hex_split: "4096 * (n div 4096) + 256 * (n div 256 mod 16) + 16 * (n div 16 mod 16) + n mod 16 = (n :: nat)"
proof -
  have "16 * (n div 16) + n mod 16 = n" by simp
  moreover have "16 * (n div 256) + n div 16 mod 16 = n div 16" "16 * (n div 4096) + n div 256 mod 16 = n div 256"
    using mult_div_mod_eq [of 16 "n div 16"] mult_div_mod_eq [of 16 "n div 256"] by (simp_all add: div_mult2_eq [symmetric])
  ultimately show ?thesis by linarith
qed

lemma hex_escape_hex4: "n < 0x10000 \<Longrightarrow> hex_escape (hex4 n) = Some n"
  using hex_digit_ascii [of "n div 4096 mod 16"] hex_digit_ascii [of "n div 256 mod 16"]
    hex_digit_ascii [of "n div 16 mod 16"] hex_digit_ascii [of "n mod 16"] hex_split [of n]
  by (simp add: hex_escape_def hex4_def hex_digit_value)

lemma unicode_escape_hex4: "n < 0x80 \<Longrightarrow> unicode_escape (hex4 n @ r) = Some ([char_of n], r)"
  using hex_escape_hex4 [of n] by (simp add: unicode_escape_def hex4_def encode_utf8_def)

lemma json_escape_ascii: "of_char c < (128 :: nat) \<Longrightarrow> utf8_valid (json_escape c)"
  by (auto simp: json_escape_def hex4_def hex_digit_ascii)

lemma json_escape_high: "128 \<le> (of_char c :: nat) \<Longrightarrow> json_escape c = [c]"
  by (auto simp: json_escape_def)

lemma json_escape_multi: "utf8_multi ch \<Longrightarrow> concat (map json_escape ch) = ch"
proof -
  have "\<forall>c \<in> set ch. 128 \<le> (of_char c :: nat) \<Longrightarrow> concat (map json_escape ch) = ch"
    by (induction ch) (auto simp: json_escape_high)
  then show "utf8_multi ch \<Longrightarrow> ?thesis" by (simp add: utf8_multi_def)
qed

lemma utf8_escaped: "utf8_valid s \<Longrightarrow> utf8_valid (concat (map json_escape s))"
  by (induction s rule: utf8_induct) (simp_all add: json_escape_multi utf8_multi_append utf8_append json_escape_ascii)

lemma string_loop_escape:
  assumes "of_char c < (128 :: nat)" "utf8_valid r"
  shows "string_loop acc (json_escape c @ r) = string_loop (acc @ [c]) r"
proof -
  have simple: "string_loop acc ([CHR 0x5C, e] @ r) = string_loop (acc @ [d]) r" if "simple_escape e = Some d" for e d
    using that by (auto simp: string_loop.simps(2) simple_escape_def split: if_splits)
  consider "c \<in> {CHR 0x22, CHR 0x5C, CHR 0x0A, CHR 0x0D, CHR 0x09}"
    | "c \<notin> {CHR 0x22, CHR 0x5C, CHR 0x0A, CHR 0x0D, CHR 0x09}" "of_char c < (0x20 :: nat)"
    | "c \<notin> {CHR 0x22, CHR 0x5C, CHR 0x0A, CHR 0x0D, CHR 0x09}" "\<not> of_char c < (0x20 :: nat)" by blast
  then show ?thesis
  proof cases
    case 1
    then show ?thesis using simple by (auto simp: json_escape_def simple_escape_def)
  next
    case 2
    then have "json_escape c = [CHR 0x5C, CHR ''u''] @ hex4 (of_char c)" by (simp add: json_escape_def)
    then show ?thesis using unicode_escape_hex4 [of "of_char c" r] 2 by (simp add: string_loop.simps(2))
  next
    case 3
    then have "json_escape c = [c]" by (simp add: json_escape_def)
    then show ?thesis using 3 assms by (simp add: string_loop.simps(2) first_char_ascii)
  qed
qed

lemma string_loop_multi:
  assumes "utf8_multi ch" "utf8_valid r"
  shows "string_loop acc (ch @ r) = string_loop (acc @ ch) r"
proof -
  obtain c t where ch: "ch = c # t" "128 \<le> (of_char c :: nat)" using assms(1) by (cases ch) (auto simp: utf8_multi_def)
  then have "c \<noteq> CHR 0x22" "c \<noteq> CHR 0x5C" by auto
  then show ?thesis using first_char_multi [OF assms] ch(1) by (simp add: string_loop.simps(2))
qed

lemma string_loop_text:
  "utf8_valid s \<Longrightarrow> utf8_valid r \<Longrightarrow> string_loop acc (concat (map json_escape s) @ CHR 0x22 # r) = Parsed (acc @ s) r"
proof (induction s arbitrary: acc rule: utf8_induct)
  case Nil
  then show ?case by (simp add: string_loop.simps(2))
next
  case (ascii c s)
  then show ?case
    using string_loop_escape [of c "concat (map json_escape s) @ CHR 0x22 # r" acc] by (simp add: utf8_append utf8_escaped)
next
  case (multi ch s)
  then show ?case
    using string_loop_multi [of ch "concat (map json_escape s) @ CHR 0x22 # r" acc]
    by (simp add: utf8_append utf8_escaped json_escape_multi)
qed

lemma parse_string_text:
  "utf8_valid s \<Longrightarrow> utf8_valid r \<Longrightarrow> parse_string (write_json_string s @ r) = Parsed s r"
  by (simp add: parse_string_def write_json_string_def string_loop_text)

lemma utf8_written_string: "utf8_valid s \<Longrightarrow> utf8_valid (write_json_string s)"
  by (simp add: write_json_string_def utf8_append utf8_escaped)

section \<open>Numbers\<close>

text \<open>What may follow a value in written text.\<close>

definition follow :: "string \<Rightarrow> bool" where
  "follow r \<longleftrightarrow> (case r of [] \<Rightarrow> True | c # _ \<Rightarrow> c = CHR '','' \<or> c = CHR '']'' \<or> c = CHR ''}'')"

definition whole_digits :: "string \<Rightarrow> bool" where
  "whole_digits d \<longleftrightarrow> d \<noteq> [] \<and> list_all is_digit d \<and> (hd d \<noteq> CHR ''0'' \<or> length d = 1)"

lemma follow_parts:
  assumes "follow r"
  shows "fraction_part r = Some (False, r)" "exponent_part r = Some (False, r)" "r = [] \<or> \<not> is_digit (hd r)"
  using assms by (auto simp: follow_def fraction_part_def exponent_part_def is_digit_def split: list.splits)

lemma drop_digits: "list_all is_digit d \<Longrightarrow> r = [] \<or> \<not> is_digit (hd r) \<Longrightarrow> dropWhile is_digit (d @ r) = r"
  by (induction d) (auto simp: dropWhile_eq_self_iff)

lemma digits_after_text: "d \<noteq> [] \<Longrightarrow> list_all is_digit d \<Longrightarrow> r = [] \<or> \<not> is_digit (hd r) \<Longrightarrow> digits_after (d @ r) = Some r"
  by (cases d) (auto simp: digits_after_def drop_digits)

lemma integer_part_text: "whole_digits d \<Longrightarrow> r = [] \<or> \<not> is_digit (hd r) \<Longrightarrow> integer_part (d @ r) = Some r"
  using digits_after_text [of d r] by (cases d) (auto simp: whole_digits_def integer_part_def)

lemma decimal_whole: "whole_digits (decimal n)"
proof -
  have "hd (decimal n) \<noteq> CHR ''0'' \<or> length (decimal n) = 1"
  proof (induction n rule: decimal.induct)
    case (1 n)
    have zero: "m = 0" if l: "length (decimal m) = 1" "hd (decimal m) = CHR ''0''" for m
    proof -
      have "decimal m = [CHR ''0'']" using l by (cases "decimal m") auto
      then have "parse_digits (decimal m) = Some 0" by (simp add: parse_digits_def is_digit_def digit_value_def)
      then show "m = 0" by (simp add: parse_digits_decimal)
    qed
    show ?case
    proof (cases "n < 10")
      case False
      then have "hd (decimal (n div 10)) \<noteq> CHR ''0''" using 1 zero [of "n div 10"] by auto
      then show ?thesis using False by (simp add: decimal.simps [of n] decimal_not_Nil)
    qed (simp add: decimal.simps [of n])
  qed
  then show ?thesis by (auto simp: whole_digits_def decimal_not_Nil list_all_iff decimal_digits)
qed

lemma parse_number_text:
  assumes d: "whole_digits d" and f: "f = [] \<or> (\<exists>e. f = CHR ''.'' # e \<and> e \<noteq> [] \<and> list_all is_digit e)" and r: "follow r"
    and sign: "sign = (if neg then ''-'' else [])"
  shows "parse_number ft (sign @ d @ f @ r) =
    (case number_of ft (f \<noteq> []) neg (sign @ d @ f) of None \<Rightarrow> Refused | Some v \<Rightarrow> Parsed v r)"
proof -
  have nd: "f @ r = [] \<or> \<not> is_digit (hd (f @ r))" using f follow_parts(3) [OF r] by (auto simp: is_digit_def)
  obtain c t where c: "d = c # t" "is_digit c" using d by (cases d) (auto simp: whole_digits_def)
  then have "c \<noteq> CHR ''-''" by (auto simp: is_digit_def)
  then have neg: "(case sign @ d @ f @ r of c # _ \<Rightarrow> c = CHR ''-'' | [] \<Rightarrow> False) = neg"
    "(if neg then tl (sign @ d @ f @ r) else sign @ d @ f @ r) = d @ f @ r"
    using c sign by auto
  have fr: "fraction_part (f @ r) = Some (f \<noteq> [], r)"
    using f
  proof
    assume "\<exists>e. f = CHR ''.'' # e \<and> e \<noteq> [] \<and> list_all is_digit e"
    then obtain e where e: "f = CHR ''.'' # e" "e \<noteq> []" "list_all is_digit e" by blast
    show ?thesis using digits_after_text [OF e(2,3) follow_parts(3) [OF r]] by (simp add: e(1) fraction_part_def)
  qed (simp add: follow_parts(1) [OF r])
  have tk: "take (length (sign @ d @ f @ r) - length r) (sign @ d @ f @ r) = sign @ d @ f" by simp
  show ?thesis
    unfolding parse_number_def Let_def neg integer_part_text [OF d nd] option.case fr prod.case follow_parts(2) [OF r] tk by simp
qed

lemma digits_no_sign: "whole_digits d \<Longrightarrow> (case d of c # r \<Rightarrow> if c = CHR ''+'' then r else d | [] \<Rightarrow> []) = d"
  by (cases d) (auto simp: whole_digits_def is_digit_def)

lemma parse_u64_decimal: "parse_u64 (decimal (unat n)) = Some n"
  using unsigned_less [of n] by (simp add: parse_u64_def digits_no_sign [OF decimal_whole] parse_digits_decimal Let_def)

lemma parse_number_uint: "follow r \<Longrightarrow> parse_number ft (decimal (unat n) @ r) = Parsed (JUint n) r"
  using parse_number_text [OF decimal_whole, of "[]" r "[]" False ft] by (simp add: number_of_def parse_u64_decimal)

lemma parse_number_int:
  assumes "follow r" "sint n < 0"
  shows "parse_number ft (i64_to_string n @ r) = Parsed (JInt n) r"
  using parse_number_text [OF decimal_whole [of "nat (- sint n)"], of "[]" r "''-''" True ft] assms parse_i64_to_string [of n]
  by (simp add: number_of_def i64_to_string_def)

text \<open>The form in which the standard library prints a number that is finite and has a decimal point.\<close>

definition decimal_point_form :: "string \<Rightarrow> bool" where
  "decimal_point_form t =
     (let u = (if t \<noteq> [] \<and> hd t = CHR ''-'' then tl t else t); d = takeWhile is_digit u; f = dropWhile is_digit u
      in whole_digits d \<and> 2 \<le> length f \<and> hd f = CHR ''.'' \<and> list_all is_digit (tl f))"

lemma decimal_point_parts:
  assumes "decimal_point_form t"
  obtains neg d e where "t = (if neg then ''-'' else []) @ d @ CHR ''.'' # e" "whole_digits d" "e \<noteq> []" "list_all is_digit e"
proof -
  define u where "u = (if t \<noteq> [] \<and> hd t = CHR ''-'' then tl t else t)"
  let ?d = "takeWhile is_digit u" and ?f = "dropWhile is_digit u"
  have f: "whole_digits ?d" "2 \<le> length ?f" "hd ?f = CHR ''.''" "list_all is_digit (tl ?f)"
    using assms by (simp_all add: decimal_point_form_def Let_def u_def)
  obtain e where e: "?f = CHR ''.'' # e" "e \<noteq> []" using f(2,3) by (cases ?f) (auto, cases "tl ?f", auto)
  have "u = ?d @ CHR ''.'' # e" using e(1) takeWhile_dropWhile_id [of is_digit u] by simp
  moreover have "t = (if t \<noteq> [] \<and> hd t = CHR ''-'' then ''-'' else []) @ u" by (cases t) (auto simp: u_def)
  ultimately show ?thesis using that [of "t \<noteq> [] \<and> hd t = CHR ''-''" ?d e] f e by auto
qed

lemma parse_number_float:
  assumes "decimal_point_form t" "parse_f64 ft t = Some x" "follow r"
  shows "parse_number ft (t @ r) = Parsed (JFloat x) r"
proof -
  obtain neg d e where t: "t = (if neg then ''-'' else []) @ d @ CHR ''.'' # e" "whole_digits d" "e \<noteq> []" "list_all is_digit e"
    by (rule decimal_point_parts [OF assms(1)])
  have "parse_number ft (((if neg then ''-'' else []) @ d @ CHR ''.'' # e) @ r) = Parsed (JFloat x) r"
    using parse_number_text [OF t(2), of "CHR ''.'' # e" r _ neg ft] t(3,4) assms(2,3) t(1)
    by (simp add: number_of_def)
  then show ?thesis using t(1) by simp
qed

section \<open>Values\<close>

definition f64_finite :: "f64 \<Rightarrow> bool" where
  "f64_finite f \<longleftrightarrow> \<not> f64_is_infinite f \<and> \<not> f64_is_nan f"

text \<open>\<open>json_wf\<close>: strings and keys are UTF-8, objects are ordered maps, numbers satisfy a given test.
  \<open>float_printed\<close>: the standard library prints the number with a decimal point and reads it back.\<close>

definition float_printed :: "f64_text \<Rightarrow> f64 \<Rightarrow> bool" where
  "float_printed ft f \<longleftrightarrow> decimal_point_form (write_float ft f) \<and> parse_f64 ft (write_float ft f) = Some f"

function json_wf :: "(f64 \<Rightarrow> bool) \<Rightarrow> json \<Rightarrow> bool" where
  "json_wf P JNull = True"
| "json_wf P (JBool b) = True"
| "json_wf P (JInt n) = True"
| "json_wf P (JUint n) = True"
| "json_wf P (JFloat f) = P f"
| "json_wf P (JString s) = utf8_valid s"
| "json_wf P (JArray vs) = list_all (json_wf P) vs"
| "json_wf P (JObject m) = (bt_ok m \<and> list_all (\<lambda>(k, v). utf8_valid k \<and> json_wf P v) m)"
  by pat_completeness auto
termination
  by (relation "measure (\<lambda>(P, v). size v)") (auto simp: json_member_size less_Suc_eq_le size_list_estimation')

abbreviation json_ok :: "f64_text \<Rightarrow> json \<Rightarrow> bool" where
  "json_ok ft \<equiv> json_wf (\<lambda>f. f64_finite f \<longrightarrow> float_printed ft f)"

text \<open>What a value is after it was written and read: non-negative signed numbers become unsigned, numbers that
  are not finite become null.\<close>

function json_norm :: "json \<Rightarrow> json" where
  "json_norm JNull = JNull"
| "json_norm (JBool b) = JBool b"
| "json_norm (JInt n) = (if sint n < 0 then JInt n else JUint n)"
| "json_norm (JUint n) = JUint n"
| "json_norm (JFloat f) = (if f64_finite f then JFloat f else JNull)"
| "json_norm (JString s) = JString s"
| "json_norm (JArray vs) = JArray (map json_norm vs)"
| "json_norm (JObject m) = JObject (map (\<lambda>(k, v). (k, json_norm v)) m)"
  by pat_completeness auto
termination
  by (relation "measure size") (auto simp: json_member_size less_Suc_eq_le size_list_estimation')

lemma utf8_ascii: "list_all (\<lambda>c. of_char c < (128 :: nat)) s \<Longrightarrow> utf8_valid s"
  by (induction s) auto

lemma digits_utf8: "list_all is_digit s \<Longrightarrow> utf8_valid s"
  by (rule utf8_ascii) (auto simp: list_all_iff is_digit_def)

lemma decimal_utf8: "utf8_valid (decimal n)"
  by (rule digits_utf8) (auto simp: list_all_iff decimal_digits)

lemma decimal_point_utf8: "decimal_point_form t \<Longrightarrow> utf8_valid t"
proof -
  assume "decimal_point_form t"
  then obtain neg d e where t: "t = (if neg then ''-'' else []) @ d @ CHR ''.'' # e" "whole_digits d" "e \<noteq> []" "list_all is_digit e"
    by (rule decimal_point_parts)
  then have "utf8_valid d" "utf8_valid e" using digits_utf8 by (auto simp: whole_digits_def)
  then show ?thesis using t(1) by (simp add: utf8_append)
qed

lemma commas_utf8: "\<forall>x \<in> set xs. utf8_valid x \<Longrightarrow> utf8_valid (commas xs)"
  by (induction xs rule: commas.induct) (auto simp: utf8_append)

lemma write_float_infinite: "\<not> f64_finite f \<Longrightarrow> write_float ft f = ''null''"
  by (auto simp: write_float_def f64_finite_def)

lemma write_utf8: "json_ok ft v \<Longrightarrow> utf8_valid (write_to ft v)"
proof (induction ft v rule: write_to.induct)
  case (5 ft f)
  then show ?case
    using decimal_point_utf8 by (cases "f64_finite f") (auto simp: float_printed_def write_float_infinite)
next
  case (7 ft vs)
  then have "utf8_valid (commas (map (write_to ft) vs))" by (intro commas_utf8) (auto simp: list_all_iff)
  then show ?case by (simp add: utf8_append)
next
  case (8 ft m)
  then have "utf8_valid (commas (map (\<lambda>(k, v). write_json_string k @ '':'' @ write_to ft v) m))"
    by (intro commas_utf8) (auto simp: list_all_iff utf8_append utf8_written_string)
  then show ?case by (simp add: utf8_append)
qed (auto simp: i64_to_string_def decimal_utf8 utf8_written_string)

text \<open>The first character of written text decides the parser; it is no white space.\<close>

definition opens_value :: "char \<Rightarrow> bool" where
  "opens_value c \<longleftrightarrow> c \<in> set ''{[tfn-'' \<or> c = CHR 0x22 \<or> is_digit c"

lemma opens_not_ws: "opens_value c \<Longrightarrow> \<not> is_json_ws c"
  by (auto simp: opens_value_def is_json_ws_def is_digit_def)

lemma skip_opened: "opens_value c \<Longrightarrow> skip_whitespace (c # r) = c # r"
  by (simp add: skip_whitespace_def opens_not_ws)

lemma digit_opens:
  assumes "is_digit c"
  shows "parse_value ft (c # r) = parse_number ft (c # r)"
proof -
  have "c \<noteq> CHR 0x22" "c \<noteq> CHR ''{''" "c \<noteq> CHR ''[''" "c \<noteq> CHR ''t''" "c \<noteq> CHR ''f''" "c \<noteq> CHR ''n''"
    using assms by (auto simp: is_digit_def)
  moreover have "skip_whitespace (c # r) = c # r" using assms by (intro skip_opened) (simp add: opens_value_def)
  ultimately show ?thesis using assms by (subst parse_value.simps) simp
qed

lemma minus_opens: "parse_value ft (CHR ''-'' # r) = parse_number ft (CHR ''-'' # r)"
  by (subst parse_value.simps) (auto simp: skip_opened opens_value_def)

lemma whole_digits_Cons: "whole_digits d \<Longrightarrow> \<exists>c t. d = c # t \<and> is_digit c"
  by (cases d) (auto simp: whole_digits_def)

lemma parse_value_number:
  assumes "whole_digits d" "sign = [] \<or> sign = ''-''"
  shows "parse_value ft (sign @ d @ r) = parse_number ft (sign @ d @ r)"
  using whole_digits_Cons [OF assms(1)] assms(2) digit_opens minus_opens by auto

lemma parse_value_null: "parse_value ft (''null'' @ r) = Parsed JNull r"
  by (subst parse_value.simps)
    (simp add: skip_whitespace_def is_json_ws_def parse_null_def parse_literal_def starts_with_def)

lemma parse_value_bool: "parse_value ft ((if b then ''true'' else ''false'') @ r) = Parsed (JBool b) r"
  by (subst parse_value.simps)
    (simp add: skip_whitespace_def is_json_ws_def parse_bool_def parse_literal_def starts_with_def)

lemma skip_structural [simp]:
  "skip_whitespace (CHR '','' # r) = CHR '','' # r" "skip_whitespace (CHR '']'' # r) = CHR '']'' # r"
  "skip_whitespace (CHR ''}'' # r) = CHR ''}'' # r" "skip_whitespace (CHR '':'' # r) = CHR '':'' # r"
  "skip_whitespace (CHR 0x22 # r) = CHR 0x22 # r"
  by (simp_all add: skip_whitespace_def is_json_ws_def)

definition read_back :: "f64_text \<Rightarrow> json \<Rightarrow> bool" where
  "read_back ft v \<longleftrightarrow> (\<forall>r. utf8_valid r \<longrightarrow> follow r \<longrightarrow> parse_value ft (write_to ft v @ r) = Parsed (json_norm v) r)"

lemma parse_elements_text:
  assumes "vs \<noteq> []" "\<forall>v \<in> set vs. read_back ft v \<and> json_ok ft v" "utf8_valid r"
  shows "parse_elements ft acc (commas (map (write_to ft) vs) @ CHR '']'' # r) = Parsed (JArray (acc @ map json_norm vs)) r"
  using assms
proof (induction vs arbitrary: acc rule: induct_list012)
  case (2 v)
  then show ?case by (subst parse_elements.simps) (simp add: read_back_def follow_def)
next
  case (3 v w vs)
  let ?rest = "commas (map (write_to ft) (w # vs)) @ CHR '']'' # r"
  have "utf8_valid ?rest" using 3 by (subst utf8_append) (auto intro!: commas_utf8 simp: write_utf8)
  then have "parse_value ft (write_to ft v @ CHR '','' # ?rest) = Parsed (json_norm v) (CHR '','' # ?rest)"
    using 3 by (simp add: read_back_def follow_def)
  moreover have "parse_elements ft (acc @ [json_norm v]) ?rest = Parsed (JArray ((acc @ [json_norm v]) @ map json_norm (w # vs))) r"
    using 3 by (intro "3.IH"(2)) simp_all
  ultimately show ?case by (subst parse_elements.simps) simp
qed simp

definition write_member :: "f64_text \<Rightarrow> string \<times> json \<Rightarrow> string" where
  "write_member ft p = write_json_string (fst p) @ '':'' @ write_to ft (snd p)"

lemma parse_members_text:
  assumes "kvs \<noteq> []" "\<forall>(k, v) \<in> set kvs. read_back ft v \<and> json_ok ft v \<and> utf8_valid k" "utf8_valid r"
    "sorted_wrt (<) (map fst (m @ kvs))"
  shows "parse_members ft m (commas (map (write_member ft) kvs) @ CHR ''}'' # r)
    = Parsed (JObject (m @ map (\<lambda>(k, v). (k, json_norm v)) kvs)) r"
  using assms
proof (induction kvs arbitrary: m rule: induct_list012)
  case (2 p)
  obtain k v where p: "p = (k, v)" by force
  have "parse_string (write_json_string k @ CHR '':'' # write_to ft v @ CHR ''}'' # r) = Parsed k (CHR '':'' # write_to ft v @ CHR ''}'' # r)"
    using 2 p by (intro parse_string_text) (simp_all add: utf8_append write_utf8)
  moreover have "bt_insert k (json_norm v) m = m @ [(k, json_norm v)]"
    using 2 p by (intro bt_insert_snoc) (auto simp: bt_ok_def sorted_wrt_append)
  moreover have "parse_value ft (write_to ft v @ CHR ''}'' # r) = Parsed (json_norm v) (CHR ''}'' # r)"
    using 2 p by (simp add: read_back_def follow_def)
  ultimately show ?case
    using p by (subst parse_members.simps) (simp add: write_member_def write_json_string_def)
next
  case (3 p q kvs)
  obtain k v where p: "p = (k, v)" by force
  let ?rest = "commas (map (write_member ft) (q # kvs)) @ CHR ''}'' # r"
  have "\<forall>p \<in> set (q # kvs). utf8_valid (write_member ft p)"
    using "3.prems"(2) by (auto simp: write_member_def write_utf8 utf8_append utf8_written_string)
  then have rest: "utf8_valid ?rest"
    using "3.prems"(3) by (subst utf8_append) (auto intro!: commas_utf8)
  then have "parse_string (write_json_string k @ CHR '':'' # write_to ft v @ CHR '','' # ?rest)
      = Parsed k (CHR '':'' # write_to ft v @ CHR '','' # ?rest)"
    using 3 p by (intro parse_string_text) (simp_all add: utf8_append write_utf8)
  moreover have "bt_insert k (json_norm v) m = m @ [(k, json_norm v)]"
    using 3 p by (intro bt_insert_snoc) (auto simp: bt_ok_def sorted_wrt_append)
  moreover have "parse_value ft (write_to ft v @ CHR '','' # ?rest) = Parsed (json_norm v) (CHR '','' # ?rest)"
    using 3 p rest by (simp add: read_back_def follow_def)
  moreover have "parse_members ft (m @ [(k, json_norm v)]) ?rest
      = Parsed (JObject ((m @ [(k, json_norm v)]) @ map (\<lambda>(k, v). (k, json_norm v)) (q # kvs))) r"
    using 3 p by (intro "3.IH"(2)) (auto simp: sorted_wrt_append)
  ultimately show ?case
    using p by (subst parse_members.simps) (simp add: write_member_def write_json_string_def)
qed simp

lemma write_object: "write_to ft (JObject m) = ''{'' @ commas (map (write_member ft) m) @ ''}''"
proof -
  have "write_member ft = (\<lambda>(k, v). write_json_string k @ '':'' @ write_to ft v)"
    by (simp add: fun_eq_iff write_member_def)
  then show ?thesis by simp
qed

lemma write_opens:
  assumes "json_ok ft v"
  shows "\<exists>c t. write_to ft v = c # t \<and> opens_value c"
proof (cases v)
  case (JFloat f)
  show ?thesis
  proof (cases "f64_finite f")
    case True
    then have "decimal_point_form (write_float ft f)" using assms JFloat by (simp add: float_printed_def)
    then show ?thesis using JFloat
      by (elim decimal_point_parts) (auto simp: opens_value_def dest!: whole_digits_Cons split: if_splits)
  qed (simp add: JFloat write_float_infinite opens_value_def)
next
  case (JInt n)
  then show ?thesis using decimal_hd_digit [of "nat (sint n)"] by (auto simp: i64_to_string_def opens_value_def)
next
  case (JUint n)
  then show ?thesis using decimal_hd_digit [of "unat n"] by (auto simp: opens_value_def)
qed (auto simp: write_json_string_def opens_value_def)

lemma commas_opens: "xs \<noteq> [] \<Longrightarrow> hd xs \<noteq> [] \<Longrightarrow> \<exists>t. commas xs = hd (hd xs) # t"
  by (cases xs rule: commas.cases) (auto simp: neq_Nil_conv)


lemma opens_not_closing: "opens_value c \<Longrightarrow> c \<noteq> CHR '']'' \<and> c \<noteq> CHR ''}''"
  by (auto simp: opens_value_def is_digit_def)

lemma sint_nonneg_unat:
  assumes "0 \<le> sint (n :: i64)"
  shows "sint n = int (unat n)"
proof -
  have "uint (word_of_int k :: i64) = k" if "0 \<le> k" "k < 2 ^ 63" for k
    using that by (simp add: unsigned_of_int take_bit_int_eq_self)
  from this [of "sint n"] have "uint n = sint n" using assms sint_range_size [of n] by (simp add: word_size)
  then show ?thesis by simp
qed

lemma read_back_ok: "json_ok ft v \<Longrightarrow> read_back ft v"
proof (induction ft v rule: write_to.induct)
  case (1 ft)
  show ?case by (simp add: read_back_def parse_value_null [simplified])
next
  case (2 ft b)
  show ?case using parse_value_bool [of ft b] by (simp add: read_back_def)
next
  case (3 ft n)
  have "parse_value ft (i64_to_string n @ r) = Parsed (json_norm (JInt n)) r" if "follow r" for r
  proof (cases "sint n < 0")
    case True
    then show ?thesis
      using parse_value_number [OF decimal_whole [of "nat (- sint n)"], of "''-''" ft r] parse_number_int [OF that True, of ft]
      by (simp add: i64_to_string_def)
  next
    case False
    then have "nat (sint n) = unat n" using sint_nonneg_unat [of n] by simp
    then show ?thesis
      using False parse_value_number [OF decimal_whole [of "unat n"], of "[]" ft r] parse_number_uint [OF that, of ft n]
      by (simp add: i64_to_string_def)
  qed
  then show ?case by (simp add: read_back_def)
next
  case (4 ft n)
  then show ?case
    using parse_value_number [OF decimal_whole [of "unat n"], of "[]" ft] by (simp add: read_back_def parse_number_uint)
next
  case (5 ft f)
  show ?case
  proof (cases "f64_finite f")
    case True
    then have f: "decimal_point_form (write_float ft f)" "parse_f64 ft (write_float ft f) = Some f"
      using 5 by (auto simp: float_printed_def)
    obtain neg d e where t: "write_float ft f = (if neg then ''-'' else []) @ d @ CHR ''.'' # e" "whole_digits d"
      by (rule decimal_point_parts [OF f(1)])
    have "parse_value ft (write_float ft f @ r) = Parsed (JFloat f) r" if "follow r" for r
      using parse_value_number [OF t(2), of "if neg then ''-'' else []" ft "CHR ''.'' # e @ r"] parse_number_float [OF f that] t(1)
      by simp
    then show ?thesis using True by (simp add: read_back_def)
  qed (simp add: read_back_def write_float_infinite parse_value_null [simplified])
next
  case (6 ft s)
  have "parse_value ft (write_json_string s @ r) = Parsed (JString s) r" if "utf8_valid r" for r
    using 6 parse_string_text [of s r] that by (subst parse_value.simps) (simp add: write_json_string_def)
  then show ?case by (simp add: read_back_def)
next
  case (7 ft vs)
  have "parse_value ft (CHR ''['' # commas (map (write_to ft) vs) @ CHR '']'' # r) = Parsed (JArray (map json_norm vs)) r"
    if "utf8_valid r" for r
  proof (cases vs)
    case Nil
    then show ?thesis by (subst parse_value.simps) (simp add: skip_opened opens_value_def)
  next
    case (Cons v ws)
    then obtain c t where c: "commas (map (write_to ft) vs) = c # t" "opens_value c"
      using 7 write_opens [of ft v] commas_opens [of "map (write_to ft) vs"] by auto
    have "parse_elements ft [] (commas (map (write_to ft) vs) @ CHR '']'' # r) = Parsed (JArray (map json_norm vs)) r"
      using 7 Cons that parse_elements_text [of vs ft r "[]"] by (auto simp: list_all_iff)
    then show ?thesis
      using c opens_not_closing [OF c(2)] by (subst parse_value.simps) (simp add: skip_opened opens_value_def [of "CHR ''[''"])
  qed
  then show ?case by (simp add: read_back_def)
next
  case (8 ft m)
  have "parse_value ft (CHR ''{'' # commas (map (write_member ft) m) @ CHR ''}'' # r)
      = Parsed (JObject (map (\<lambda>(k, v). (k, json_norm v)) m)) r" if "utf8_valid r" for r
  proof (cases m)
    case Nil
    then show ?thesis by (subst parse_value.simps) (simp add: skip_opened opens_value_def)
  next
    case (Cons p ps)
    then obtain t where c: "commas (map (write_member ft) m) = CHR 0x22 # t"
      using commas_opens [of "map (write_member ft) m"] by (auto simp: write_member_def write_json_string_def)
    have "parse_members ft [] (commas (map (write_member ft) m) @ CHR ''}'' # r) = Parsed (JObject (map (\<lambda>(k, v). (k, json_norm v)) m)) r"
    proof -
      have "\<forall>(k, v) \<in> set m. read_back ft v \<and> json_ok ft v \<and> utf8_valid k"
        using 8 by (fastforce simp: list_all_iff)
      then show ?thesis using 8(2) Cons that parse_members_text [of m ft r "[]"] by (simp add: bt_ok_def)
    qed
    then show ?thesis using c by (subst parse_value.simps) (simp add: skip_opened opens_value_def)
  qed
  then show ?case by (simp add: read_back_def write_object del: write_to.simps)
qed

section \<open>Whole documents\<close>

definition edge :: "char \<Rightarrow> bool" where
  "edge c \<longleftrightarrow> 33 \<le> (of_char c :: nat) \<and> of_char c < (128 :: nat)"

lemma trim_by_same: "\<forall>w \<in> set ws. w \<noteq> [] \<longrightarrow> hd w \<noteq> c \<Longrightarrow> trim_by ws (c # s) = c # s"
proof -
  assume ws: "\<forall>w \<in> set ws. w \<noteq> [] \<longrightarrow> hd w \<noteq> c"
  have "find (\<lambda>w. w \<noteq> [] \<and> starts_with (c # s) w) ws = None"
    unfolding find_None_iff
  proof (rule notI, elim exE conjE)
    fix w assume "w \<in> set ws" "w \<noteq> []" "starts_with (c # s) w"
    then have "hd w = c" by (metis append_is_Nil_conv hd_append2 list.sel(1) starts_with_iff)
    then show False using ws \<open>w \<in> set ws\<close> \<open>w \<noteq> []\<close> by blast
  qed
  then show ?thesis by (simp add: trim_by.simps [of ws "c # s"])
qed

lemma trim_same:
  assumes "s \<noteq> []" "edge (hd s)" "edge (last s)"
  shows "trim s = s"
proof -
  have not_ws: "\<forall>w \<in> set ws_strings. w \<noteq> [] \<longrightarrow> hd w \<noteq> c \<and> last w \<noteq> c" if "edge c" for c
    using that by (auto simp: ws_strings_def ws_codes_def edge_def)
  obtain c t where c: "s = c # t" using assms(1) by (cases s) auto
  then have "trim_start s = s" using not_ws [OF assms(2)] by (auto simp: trim_start_def intro!: trim_by_same)
  moreover obtain d u where d: "rev s = d # u" "last s = d" using assms(1) by (cases "rev s") (auto simp: last_rev [symmetric] hd_rev)
  have "trim_by (map rev ws_strings) (rev s) = rev s"
    unfolding d(1) using not_ws [OF assms(3)] d(2) by (intro trim_by_same) (auto simp: hd_rev)
  ultimately show ?thesis by (simp add: trim_def trim_end_def)
qed

lemma opens_edge: "opens_value c \<Longrightarrow> edge c"
  by (auto simp: opens_value_def edge_def is_digit_def)

lemma digits_last: "d \<noteq> [] \<Longrightarrow> list_all is_digit d \<Longrightarrow> edge (last d)"
proof -
  assume "d \<noteq> []" "list_all is_digit d"
  then have "is_digit (last d)" using last_in_set [of d] by (simp add: list_all_iff)
  then show ?thesis by (auto simp: is_digit_def edge_def)
qed

lemma decimal_last: "edge (last (decimal n))"
  using decimal_whole [of n] by (auto simp: whole_digits_def digits_last)

lemma write_last: "json_ok ft v \<Longrightarrow> edge (last (write_to ft v))"
proof (cases v)
  case (JFloat f)
  assume "json_ok ft v"
  show ?thesis
  proof (cases "f64_finite f")
    case True
    then have "decimal_point_form (write_float ft f)" using \<open>json_ok ft v\<close> JFloat by (simp add: float_printed_def)
    then obtain neg d e where "write_float ft f = (if neg then ''-'' else []) @ d @ CHR ''.'' # e" "e \<noteq> []" "list_all is_digit e"
      by (rule decimal_point_parts)
    then show ?thesis using JFloat digits_last [of e] by simp
  qed (simp add: JFloat write_float_infinite edge_def)
next
  case (JInt n)
  then show ?thesis by (simp add: i64_to_string_def decimal_last decimal_not_Nil)
next
  case (JUint n)
  then show ?thesis by (simp add: decimal_last)
qed (auto simp: write_json_string_def edge_def)

lemma write_norm: "write_to ft (json_norm v) = write_to ft v"
proof (induction v rule: json_norm.induct)
  case (3 n)
  then show ?case by (simp add: i64_to_string_def sint_nonneg_unat)
next
  case (5 f)
  then show ?case by (simp add: write_float_infinite)
next
  case (7 vs)
  then have "map (write_to ft \<circ> json_norm) vs = map (write_to ft) vs" by simp
  then show ?case by (simp only: json_norm.simps write_to.simps map_map)
next
  case (8 m)
  then have "map ((\<lambda>(k, v). write_json_string k @ '':'' @ write_to ft v) \<circ> (\<lambda>(k, v). (k, json_norm v))) m
    = map (\<lambda>(k, v). write_json_string k @ '':'' @ write_to ft v) m" by (intro map_cong refl) auto
  then show ?case by (simp only: json_norm.simps write_to.simps map_map)
qed simp_all

lemma json_roundtrip_value: "json_ok ft v \<Longrightarrow> json_parse ft (dump ft v) = Some (Some (json_norm v))"
proof -
  assume ok: "json_ok ft v"
  obtain c t where c: "write_to ft v = c # t" "opens_value c" using write_opens [OF ok] by blast
  then have "trim (write_to ft v) = write_to ft v"
    using write_last [OF ok] opens_edge by (intro trim_same) auto
  moreover have "parse_value ft (write_to ft v) = Parsed (json_norm v) []"
    using read_back_ok [OF ok] unfolding read_back_def
    by (metis append_Nil2 follow_def list.simps(4) utf8_valid_Nil)
  ultimately show ?thesis using c by (simp add: json_parse_def dump_def skip_whitespace_def)
qed

text \<open>
  What the code relies on of the formatting of floating-point numbers by the standard library: a finite number of magnitude below
  $2^{63}$ (bit pattern \<open>0x43E0000000000000\<close>) is printed with a decimal point, by \<open>{:.1}\<close> when it is whole and by \<open>{}\<close> when it
  is not, and what is printed parses back to the number. Nothing is asked of \<open>{}\<close> on whole numbers, which it prints without a point.
\<close>

definition f64_whole :: "f64 \<Rightarrow> bool" where
  "f64_whole x \<longleftrightarrow> f64_eq x (i64_to_f64 (f64_to_i64 x))"

definition std_float_text :: "f64_text \<Rightarrow> bool" where
  "std_float_text ft \<longleftrightarrow> (\<forall>x. f64_finite x \<and> f64_magnitude x < 0x43E0000000000000 \<longrightarrow>
     (let t = (if f64_whole x then show_f64_1 ft x else show_f64 ft x) in decimal_point_form t \<and> parse_f64 ft t = Some x))"

text \<open>
  The numbers the text format of this code keeps: below \<open>1e15\<close> all of them, from there to $2^{63}$ those with a fraction. Whole
  numbers from \<open>1e15\<close> on are lost, as \<open>large_float_lost\<close> below shows. What is not finite is written as null.
\<close>

definition float_kept :: "f64 \<Rightarrow> bool" where
  "float_kept x \<longleftrightarrow> (f64_finite x \<longrightarrow> f64_below_1e15 x \<or> \<not> f64_whole x \<and> f64_magnitude x < 0x43E0000000000000)"

lemma float_kept_printed: "std_float_text ft \<Longrightarrow> float_kept x \<Longrightarrow> f64_finite x \<Longrightarrow> float_printed ft x"
  by (auto simp: std_float_text_def float_kept_def float_printed_def write_float_def f64_whole_def f64_finite_def f64_below_1e15_def Let_def
      split: if_splits dest!: spec [of _ x])

lemma json_wf_mono: "json_wf P v \<Longrightarrow> (\<And>f. P f \<Longrightarrow> Q f) \<Longrightarrow> json_wf Q v"
  by (induction P v rule: json_wf.induct) (auto simp: list_all_iff)

lemma json_ok_kept: "std_float_text ft \<Longrightarrow> json_wf float_kept v \<Longrightarrow> json_ok ft v"
  by (erule json_wf_mono) (use float_kept_printed in blast)

text \<open>
  C19: values through text. A JSON value with UTF-8 strings and keys, objects that are ordered maps, and floating-point numbers of
  those the format keeps, written as text, is read back as the same value, up to what the format cannot say: a non-negative signed
  number reads as unsigned and a number that is not finite as null. Writing what was read gives the same text again.
\<close>

theorem json_roundtrip:
  assumes "std_float_text ft" and "json_wf float_kept v"
  shows "json_parse ft (dump ft v) = Some (Some (json_norm v)) \<and> dump ft (json_norm v) = dump ft v"
  using json_roundtrip_value [OF json_ok_kept [OF assms]] by (simp add: dump_def write_norm)

text \<open>A concrete formatting with the laws: the bit pattern in decimal before the point.\<close>

definition bits_text :: f64_text where
  "bits_text = \<lparr>show_f64 = \<lambda>x. decimal (unat x) @ ''.0'', show_f64_1 = \<lambda>x. decimal (unat x) @ ''.0'',
     parse_f64 = \<lambda>t. parse_u64 (take (length t - 2) t)\<rparr>"

lemma bits_text_ok: "std_float_text bits_text"
proof -
  have "decimal_point_form (decimal n @ ''.0'')" for n
  proof -
    have "whole_digits (decimal n)" by (rule decimal_whole)
    then obtain c d where cd: "decimal n = c # d" "is_digit c" "list_all is_digit (c # d)"
      using whole_digits_Cons [of "decimal n"] by (auto simp: whole_digits_def)
    have "c \<noteq> CHR ''-''" using cd(2) by (auto simp: is_digit_def)
    moreover have "takeWhile is_digit (decimal n @ ''.0'') = decimal n" "dropWhile is_digit (decimal n @ ''.0'') = ''.0''"
      using cd by (auto simp: list_all_iff is_digit_def)
    ultimately show ?thesis using cd decimal_whole [of n] by (simp add: decimal_point_form_def Let_def is_digit_def)
  qed
  then show ?thesis by (simp add: std_float_text_def bits_text_def parse_u64_decimal Let_def)
qed

theorem json_roundtrip_witness:
  "let v = JObject [(''k'', JArray [JInt (- 7), JInt 5, JFloat 0x4000000000000000, JString [CHR 0xC3, CHR 0xA9, CHR 0x0A]]), (''n'', JNull)]
   in json_parse bits_text (dump bits_text v)
      = Some (Some (JObject [(''k'', JArray [JInt (- 7), JUint 5, JFloat 0x4000000000000000, JString [CHR 0xC3, CHR 0xA9, CHR 0x0A]]), (''n'', JNull)]))"
proof -
  let ?v = "JObject [(''k'', JArray [JInt (- 7), JInt 5, JFloat 0x4000000000000000, JString [CHR 0xC3, CHR 0xA9, CHR 0x0A]]), (''n'', JNull)]"
  have fin: "f64_finite 0x4000000000000000" "float_kept 0x4000000000000000"
    by (simp_all add: f64_finite_def f64_is_infinite_def f64_is_nan_def f64_exponent_def float_kept_def f64_below_1e15_def f64_magnitude_def)
  then have "json_wf float_kept ?v" by (simp add: utf8_valid_def utf8_cont_def bt_ok_def)
  then show ?thesis using json_roundtrip [OF bits_text_ok, of ?v] fin by (simp add: Let_def)
qed

section \<open>Members\<close>

lemma json_ok_set:
  assumes "json_ok ft v" "json_ok ft x" "utf8_valid key"
  shows "json_ok ft (json_set v key x)"
proof (cases v)
  case (JObject m)
  then show ?thesis using assms set_bt_insert [of key x m] by (auto simp: json_set_def list_all_iff)
qed (use assms in \<open>auto simp: json_set_def\<close>)

lemma get_norm_set:
  assumes "key \<noteq> []"
  shows "get_sub_node (json_norm (json_set v key x)) key = json_norm x"
  using assms
  by (cases v) (auto simp: json_set_def get_sub_node_def json_member_def bt_get_insert bt_get_map_values [of "\<lambda>k. json_norm"])

text \<open>What a reader of the written text has in its hands.\<close>

definition reread :: "f64_text \<Rightarrow> json \<Rightarrow> json" where
  "reread ft v = (case json_parse ft (dump ft v) of Some (Some u) \<Rightarrow> u | _ \<Rightarrow> JNull)"

lemma reread_set:
  "json_ok ft v \<Longrightarrow> json_ok ft x \<Longrightarrow> utf8_valid key \<Longrightarrow> key \<noteq> [] \<Longrightarrow> get_sub_node (reread ft (json_set v key x)) key = json_norm x"
  using json_roundtrip_value [OF json_ok_set] by (simp add: reread_def get_norm_set)

lemma read_elements_map: "(\<And>x. x \<in> set xs \<Longrightarrow> f (g x) = Some x) \<Longrightarrow> read_elements f (map g xs) = Some xs"
  by (induction xs) auto

lemma widened [simp]:
  "unat (ucast (u :: u32) :: u64) = unat u" "ucast (ucast u :: u64) = u"
  "unat (ucast (h :: u16) :: u64) = unat h" "ucast (ucast h :: u64) = h"
  "unat (ucast (b :: u8) :: u64) = unat b" "ucast (ucast b :: u64) = b"
  by (transfer; simp)+

text \<open>A member set by any of the typed setters, in any well-formed value, is what the getter of that type
  returns after the value was written as text and parsed again, over the whole range of the type.\<close>

theorem members_survive_text:
  assumes "std_float_text ft" "json_wf float_kept v" "utf8_valid key" "key \<noteq> []" "utf8_valid s"
  shows "json_get_i32 (reread ft (json_set_i32 v key i)) key = Some i
    \<and> json_get_u32 (reread ft (json_set_u32 v key u)) key = Some u
    \<and> json_get_i64 (reread ft (json_set_i64 v key l)) key = Some l
    \<and> json_get_u64 (reread ft (json_set_u64 v key w)) key = Some w
    \<and> json_get_u16 (reread ft (json_set_u16 v key h)) key = Some h
    \<and> json_get_bool (reread ft (json_set_bool v key b)) key = Some b
    \<and> json_get_string (reread ft (json_set_string v key s)) key = Some s
    \<and> json_get_blob (reread ft (json_set_blob v key bs)) key = Some bs"
proof (intro conjI)
  note sub = reread_set [OF json_ok_kept [OF assms(1,2)] _ assms(3,4)]
  have l: "json_as_i64 (json_norm (JInt n)) = Some n" "is_number_integer (json_norm (JInt n))" for n
  proof -
    have "unat n < 2 ^ 63" if "\<not> sint n < 0"
      using sint_nonneg_unat [of n] sint_range_size [of n] that
      by (simp only: of_nat_less_iff [where 'a = int, symmetric]) (simp add: word_size)
    then show "json_as_i64 (json_norm (JInt n)) = Some n" "is_number_integer (json_norm (JInt n))" by auto
  qed
  show "json_get_i64 (reread ft (json_set_i64 v key l)) key = Some l"
    using l by (simp add: json_get_i64_def json_set_i64_def sub del: json_norm.simps)
  have "sint (word_of_int k :: i64) = k" if "- (2 ^ 31) \<le> k" "k < 2 ^ 31" for k
    using that by (simp add: signed_take_bit_int_eq_self signed_of_int)
  from this [OF word_range32] have i: "sint (scast i :: i64) = sint i" for i :: i32 by simp
  show "json_get_i32 (reread ft (json_set_i32 v key i)) key = Some i"
    using l word_range32 [of i] by (simp add: json_get_i32_def json_set_i32_def sub i del: json_norm.simps)
  show "json_get_u32 (reread ft (json_set_u32 v key u)) key = Some u"
    using unsigned_less [of u] by (simp add: json_get_u32_def json_get_unsigned_def json_set_u32_def sub unat_of_nat)
  show "json_get_u64 (reread ft (json_set_u64 v key w)) key = Some w"
    by (simp add: json_get_u64_def json_set_u64_def sub)
  show "json_get_u16 (reread ft (json_set_u16 v key h)) key = Some h"
    using unsigned_less [of h] by (simp add: json_get_u16_def json_get_unsigned_def json_set_u16_def sub unat_of_nat)
  show "json_get_bool (reread ft (json_set_bool v key b)) key = Some b"
    by (simp add: json_get_bool_def json_set_bool_def sub)
  show "json_get_string (reread ft (json_set_string v key s)) key = Some s"
    using assms(5) by (simp add: json_get_string_def json_set_string_def sub)
  show "json_get_blob (reread ft (json_set_blob v key bs)) key = Some bs"
  proof -
    have "unat b < 2 ^ 8" for b :: u8 using unsigned_less [of b] by simp
    then have "read_elements (\<lambda>x. case json_as_u64 x of None \<Rightarrow> None | Some n \<Rightarrow> if unat n < 2 ^ 8 then Some (of_nat (unat n)) else None)
      (map (\<lambda>x. JUint (ucast x)) bs) = Some bs" by (intro read_elements_map) simp
    then show ?thesis by (simp add: json_get_blob_def json_set_blob_def sub list_all_iff o_def)
  qed
qed

theorem members_survive_text_witness:
  "let v = JObject [(''a'', JBool True)]
   in json_get_i32 (reread bits_text (json_set_i32 v ''b'' (- 3))) ''b'' = Some (- 3)
    \<and> json_get_blob (reread bits_text (json_set_blob v ''a'' [255, 0])) ''a'' = Some [255, 0]"
  using members_survive_text [OF bits_text_ok, of "JObject [(''a'', JBool True)]" "''b''" "''''" "- 3"]
    members_survive_text [OF bits_text_ok, of "JObject [(''a'', JBool True)]" "''a''" "''''" _ _ _ _ _ _ "[255, 0]"]
  by (simp add: utf8_valid_def bt_ok_def)

section \<open>Values the parser builds\<close>

lemma utf8_drop: "utf8_valid s \<Longrightarrow> utf8_valid (take n s) \<Longrightarrow> utf8_valid (drop n s)"
  using utf8_append [of "take n s" "drop n s"] by simp

lemma hex_escape_utf8: "hex_escape s = Some n \<Longrightarrow> utf8_valid s"
  by (auto simp: hex_escape_def split: if_splits)

lemma utf8_three:
  "a < 16 \<Longrightarrow> b < 64 \<Longrightarrow> c < 64 \<Longrightarrow> (a = 0 \<longrightarrow> 32 \<le> b) \<Longrightarrow> (a = 13 \<longrightarrow> b < 32) \<Longrightarrow>
   utf8_valid [char_of (0xE0 + a :: nat), char_of (0x80 + b :: nat), char_of (0x80 + c :: nat)]"
  by (cases "a = 0"; cases "a = 13") (simp_all add: utf8_valid_def utf8_cont_def)

lemma utf8_four:
  "a \<le> 4 \<Longrightarrow> b < 64 \<Longrightarrow> c < 64 \<Longrightarrow> d < 64 \<Longrightarrow> (a = 0 \<longrightarrow> 16 \<le> b) \<Longrightarrow> (a = 4 \<longrightarrow> b < 16) \<Longrightarrow>
   utf8_valid [char_of (0xF0 + a :: nat), char_of (0x80 + b :: nat), char_of (0x80 + c :: nat), char_of (0x80 + d :: nat)]"
  by (cases "a = 0"; cases "a = 4") (simp_all add: utf8_valid_def utf8_cont_def)

lemma split_bounds:
  "m = 64 * a + b \<Longrightarrow> b < 64 \<Longrightarrow> 32 \<le> m \<Longrightarrow> m < 0x360 \<or> 0x380 \<le> m \<Longrightarrow> (a = 0 \<longrightarrow> 32 \<le> b) \<and> (a = 13 \<longrightarrow> b < (32 :: nat))"
  "m = 64 * a + b \<Longrightarrow> b < 64 \<Longrightarrow> 16 \<le> m \<Longrightarrow> m < 0x110 \<Longrightarrow> (a = 0 \<longrightarrow> 16 \<le> b) \<and> (a = 4 \<longrightarrow> b < (16 :: nat))"
  by auto

lemma encode_utf8_valid:
  assumes "encode_utf8 n = Some s"
  shows "utf8_valid s"
proof -
  have q: "n div 64 mod 64 < 64" "n mod 64 < 64" "n div 4096 mod 64 < 64" by simp_all
  consider "n < 0x80" "s = [char_of n]"
    | "0x80 \<le> n" "n < 0x800" "s = [char_of (0xC0 + n div 64), char_of (0x80 + n mod 64)]"
    | "0x800 \<le> n" "n < 0x10000" "\<not> (0xD800 \<le> n \<and> n \<le> 0xDFFF)"
      "s = [char_of (0xE0 + n div 4096), char_of (0x80 + n div 64 mod 64), char_of (0x80 + n mod 64)]"
    | "0x10000 \<le> n" "n < 0x110000"
      "s = [char_of (0xF0 + n div 262144), char_of (0x80 + n div 4096 mod 64), char_of (0x80 + n div 64 mod 64), char_of (0x80 + n mod 64)]"
    using assms by (auto simp: encode_utf8_def split: if_splits)
  then show ?thesis
  proof cases
    case 2
    then have "2 \<le> n div 64" "n div 64 < 32" by simp_all
    then show ?thesis using 2(3) q by (simp add: utf8_valid_def utf8_cont_def)
  next
    case 3
    have e: "n div 64 = 64 * (n div 4096) + n div 64 mod 64"
      using mult_div_mod_eq [of 64 "n div 64"] by (simp add: div_mult2_eq [symmetric])
    have "n div 4096 < 16" "32 \<le> n div 64" "n div 64 < 0x360 \<or> 0x380 \<le> n div 64" using 3(1-3) by auto
    then show ?thesis unfolding 3(4) using split_bounds(1) [OF e] q by (intro utf8_three) blast+
  next
    case 4
    have e: "n div 4096 = 64 * (n div 262144) + n div 4096 mod 64"
      using mult_div_mod_eq [of 64 "n div 4096"] by (simp add: div_mult2_eq [symmetric])
    have "n div 262144 \<le> 4" "16 \<le> n div 4096" "n div 4096 < 0x110" using 4(1,2) by auto
    then show ?thesis unfolding 4(3) using split_bounds(2) [OF e] q by (intro utf8_four) blast+
  qed simp
qed

lemma unicode_escape_utf8:
  assumes "unicode_escape t = Some (x, r)" "utf8_valid t"
  shows "utf8_valid x \<and> utf8_valid r"
proof -
  obtain cp where cp: "hex_escape (take 4 t) = Some cp"
    using assms(1) by (auto simp: unicode_escape_def split: if_splits option.splits)
  have d4: "utf8_valid (drop 4 t)" using utf8_drop [OF assms(2) hex_escape_utf8 [OF cp]] .
  have d10: "utf8_valid (drop 10 t)" if p: "10 \<le> length t" "t ! 4 = CHR 0x5C" "t ! 5 = CHR ''u''" "hex_escape (take 4 (drop 6 t)) = Some cp2" for cp2
  proof -
    have "drop 4 t = t ! 4 # t ! 5 # drop 6 t"
      using p(1) by (simp add: Cons_nth_drop_Suc flip: Cons_nth_drop_Suc [of 5 t] Cons_nth_drop_Suc [of 4 t])
    then have "utf8_valid (drop 6 t)" using d4 p(2,3) by simp
    then have "utf8_valid (drop 4 (drop 6 t))" using utf8_drop hex_escape_utf8 [OF p(4)] by blast
    then show ?thesis by simp
  qed
  have "utf8_valid REPLACEMENT_CHARACTER" by (simp add: REPLACEMENT_CHARACTER_def utf8_valid_def utf8_cont_def)
  then show ?thesis
    using assms(1) cp d4 d10 encode_utf8_valid by (auto simp: unicode_escape_def split: if_splits option.splits)
qed

lemma first_char_utf8: "first_char s = Some (x, r) \<Longrightarrow> utf8_valid x \<and> utf8_valid r"
proof -
  assume f: "first_char s = Some (x, r)"
  then have "utf8_valid s" "s \<noteq> []" by (auto simp: first_char_def split: if_splits)
  then consider c t where "s = c # t" "of_char c < (128 :: nat)" "utf8_valid t" | ch t where "s = ch @ t" "utf8_multi ch" "utf8_valid t"
    using utf8_cases [of s] by blast
  then show ?thesis
    using f by cases (auto simp: first_char_ascii first_char_multi utf8_multi_def)
qed

lemma utf8_snoc_ascii: "utf8_valid s \<Longrightarrow> of_char c < (128 :: nat) \<Longrightarrow> utf8_valid (s @ [c])"
  by (simp add: utf8_append)

lemma simple_escape_ascii: "simple_escape e = Some d \<Longrightarrow> of_char e < (128 :: nat) \<and> of_char d < (128 :: nat)"
  by (auto simp: simple_escape_def split: if_splits)

lemma string_loop_utf8:
  "string_loop acc s = Parsed x r \<Longrightarrow> utf8_valid acc \<Longrightarrow> utf8_valid s \<Longrightarrow> utf8_valid x \<and> utf8_valid r"
proof (induction acc s rule: string_loop.induct)
  case (2 acc c s)
  consider "c = CHR 0x22" | "c = CHR 0x5C" | "c \<noteq> CHR 0x22" "c \<noteq> CHR 0x5C" by blast
  then show ?case
  proof cases
    case 1
    then show ?thesis using 2 by (simp add: string_loop.simps(2))
  next
    case esc: 2
    then obtain e t where s: "s = e # t" using "2.prems"(1) by (cases s) (auto simp: string_loop.simps(2))
    show ?thesis
    proof (cases "e = CHR ''u''")
      case True
      then obtain y q where y: "unicode_escape t = Some (y, q)" "string_loop (acc @ y) q = Parsed x r"
        using "2.prems"(1) esc s by (auto simp: string_loop.simps(2) split: option.splits)
      have "utf8_valid y \<and> utf8_valid q" using unicode_escape_utf8 [OF y(1)] "2.prems"(3) esc s True by simp
      then show ?thesis using "2.IH"(1) [OF _ esc s True y(1) refl y(2)] "2.prems"(2) esc by (simp add: utf8_append)
    next
      case False
      then obtain d where d: "simple_escape e = Some d" "string_loop (acc @ [d]) t = Parsed x r"
        using "2.prems"(1) esc s by (auto simp: string_loop.simps(2) split: option.splits)
      then have "utf8_valid t" "utf8_valid (acc @ [d])"
        using "2.prems"(2,3) esc s simple_escape_ascii [OF d(1)] by (simp_all add: utf8_append)
      then show ?thesis using "2.IH"(2) [OF _ esc s False d] esc by simp
    qed
  next
    case 3
    then obtain y q where y: "first_char (c # s) = Some (y, q)" "string_loop (acc @ y) q = Parsed x r"
      using "2.prems"(1) by (auto simp: string_loop.simps(2) split: option.splits)
    then show ?thesis using "2.IH"(3) [OF 3 y(1) refl y(2)] first_char_utf8 [OF y(1)] "2.prems"(2) by (simp add: utf8_append)
  qed
qed simp

lemma parse_string_utf8: "parse_string s = Parsed x r \<Longrightarrow> utf8_valid s \<Longrightarrow> utf8_valid x \<and> utf8_valid r"
  by (auto simp: parse_string_def split: list.splits if_splits dest!: string_loop_utf8)

lemma utf8_dropWhile:
  "(\<And>c. P c \<Longrightarrow> of_char c < (128 :: nat)) \<Longrightarrow> utf8_valid s \<Longrightarrow> utf8_valid (dropWhile P s)"
  by (induction s) auto

lemma utf8_skip: "utf8_valid s \<Longrightarrow> utf8_valid (skip_whitespace s)"
  unfolding skip_whitespace_def by (rule utf8_dropWhile) (auto simp: is_json_ws_def)

lemma digit_ascii: "is_digit c \<Longrightarrow> of_char c < (128 :: nat)"
  by (simp add: is_digit_def)

lemma utf8_digits_after: "digits_after s = Some r \<Longrightarrow> utf8_valid s \<Longrightarrow> utf8_valid r"
  by (auto simp: digits_after_def digit_ascii intro!: utf8_dropWhile split: list.splits if_splits)

lemma utf8_number_parts:
  "integer_part s = Some r \<Longrightarrow> utf8_valid s \<Longrightarrow> utf8_valid r"
  "fraction_part s = Some (b, r) \<Longrightarrow> utf8_valid s \<Longrightarrow> utf8_valid r"
  "exponent_part s = Some (b, r) \<Longrightarrow> utf8_valid s \<Longrightarrow> utf8_valid r"
  by (auto simp: integer_part_def fraction_part_def exponent_part_def split: list.splits if_splits dest!: utf8_digits_after)

lemma parse_number_wf:
  assumes "parse_number ft s = Parsed v r" "utf8_valid s"
  shows "json_wf (\<lambda>_. True) v \<and> utf8_valid r"
proof -
  define neg where "neg = (case s of c # r \<Rightarrow> c = CHR ''-'' | [] \<Rightarrow> False)"
  obtain s2 fr s3 ex s4 where p: "integer_part (if neg then tl s else s) = Some s2"
    "fraction_part s2 = Some (fr, s3)" "exponent_part s3 = Some (ex, s4)"
    "number_of ft (fr \<or> ex) neg (take (length s - length s4) s) = Some v" "r = s4"
    using assms(1) unfolding parse_number_def neg_def [symmetric] Let_def by (auto split: option.splits)
  have "utf8_valid (if neg then tl s else s)" using assms(2) by (cases s) (auto simp: neg_def)
  then have "utf8_valid r" using p utf8_number_parts by blast
  moreover have "json_wf (\<lambda>_. True) v" using p(4) by (auto simp: number_of_def split: if_splits)
  ultimately show ?thesis by blast
qed

lemma parse_word_wf:
  assumes "parse_bool s = Parsed v r \<or> parse_null s = Parsed v r" "utf8_valid s"
  shows "json_wf (\<lambda>_. True) v \<and> utf8_valid r"
proof -
  have "set [(''true'', JBool True), (''false'', JBool False)] \<union> set [(''null'', JNull)]
      = {(''true'', JBool True), (''false'', JBool False), (''null'', JNull)}" by auto
  then obtain w where w: "(w, v) \<in> {(''true'', JBool True), (''false'', JBool False), (''null'', JNull)}" "s = w @ r"
    using assms(1) parse_literal_Parsed unfolding parse_bool_def parse_null_def by (metis UnCI)
  then have "utf8_valid w \<and> json_wf (\<lambda>_. True) v" by (auto simp: utf8_valid_def)
  then show ?thesis using assms(2) w(2) by (simp add: utf8_append)
qed

lemma parse_elements_inv:
  assumes "parse_elements ft vs s = Parsed v r"
  obtains x r1 q where "parse_value ft s = Parsed x r1" "skip_whitespace r1 = CHR '']'' # q" "v = JArray (vs @ [x])" "r = q"
  | x r1 q where "parse_value ft s = Parsed x r1" "skip_whitespace r1 = CHR '','' # q" "parse_elements ft (vs @ [x]) q = Parsed v r"
proof -
  obtain x r1 c q where p: "parse_value ft s = Parsed x r1" "skip_whitespace r1 = c # q"
    "(if c = CHR '']'' then Parsed (JArray (vs @ [x])) q else if c = CHR '','' then parse_elements ft (vs @ [x]) q else Refused) = Parsed v r"
    using assms unfolding parse_elements.simps [of ft vs s] and_then_Parsed case_Parsed by blast
  then show ?thesis using that by (auto split: if_splits)
qed

lemma parse_members_inv:
  assumes "parse_members ft m s = Parsed v r"
  obtains key r1 q x r2 p where "parse_string (skip_whitespace s) = Parsed key r1" "skip_whitespace r1 = CHR '':'' # q"
      "parse_value ft q = Parsed x r2" "skip_whitespace r2 = CHR ''}'' # p" "v = JObject (bt_insert key x m)" "r = p"
  | key r1 q x r2 p where "parse_string (skip_whitespace s) = Parsed key r1" "skip_whitespace r1 = CHR '':'' # q"
      "parse_value ft q = Parsed x r2" "skip_whitespace r2 = CHR '','' # p" "parse_members ft (bt_insert key x m) p = Parsed v r"
proof -
  obtain key r1 q x r2 d p where p: "parse_string (skip_whitespace s) = Parsed key r1" "skip_whitespace r1 = CHR '':'' # q"
    "parse_value ft q = Parsed x r2" "skip_whitespace r2 = d # p"
    "(if d = CHR ''}'' then Parsed (JObject (bt_insert key x m)) p
      else if d = CHR '','' then parse_members ft (bt_insert key x m) p else Refused) = Parsed v r"
    using assms unfolding parse_members.simps [of ft m s] by (auto simp: case_Parsed split: if_split_asm)
  then show ?thesis using that by (auto split: if_splits)
qed

lemma parse_value_inv:
  assumes "parse_value ft s = Parsed v r"
  obtains x where "parse_string (skip_whitespace s) = Parsed x r" "v = JString x"
  | q where "skip_whitespace s = CHR ''{'' # q" "skip_whitespace q = CHR ''}'' # r" "v = JObject []"
  | q where "skip_whitespace s = CHR ''{'' # q" "parse_members ft [] (skip_whitespace q) = Parsed v r"
      "\<not> (skip_whitespace q \<noteq> [] \<and> hd (skip_whitespace q) = CHR ''}'')"
  | q where "skip_whitespace s = CHR ''['' # q" "skip_whitespace q = CHR '']'' # r" "v = JArray []"
  | q where "skip_whitespace s = CHR ''['' # q" "parse_elements ft [] (skip_whitespace q) = Parsed v r"
      "\<not> (skip_whitespace q \<noteq> [] \<and> hd (skip_whitespace q) = CHR '']'')"
  | "parse_bool (skip_whitespace s) = Parsed v r \<or> parse_null (skip_whitespace s) = Parsed v r"
  | "parse_number ft (skip_whitespace s) = Parsed v r"
proof -
  obtain c q where c: "skip_whitespace s = c # q"
    using assms by (cases "skip_whitespace s") (auto simp: parse_value.simps)
  note eq = assms [unfolded parse_value.simps [of ft s] c list.case Let_def]
  consider "c = CHR 0x22" | "c = CHR ''{''" | "c = CHR ''[''" | "c \<noteq> CHR 0x22" "c \<noteq> CHR ''{''" "c \<noteq> CHR ''[''" by blast
  then show ?thesis
  proof cases
    case 1
    then show ?thesis using eq that(1) c by auto
  next
    case 2
    then show ?thesis using eq that(2,3) c by (cases "skip_whitespace q") (auto split: if_split_asm)
  next
    case 3
    then show ?thesis using eq that(4,5) c by (cases "skip_whitespace q") (auto split: if_split_asm)
  next
    case 4
    then show ?thesis using eq that(6,7) c by (simp split: if_split_asm)
  qed
qed

lemma parse_wf:
  shows "parse_value ft s = Parsed v r \<Longrightarrow> utf8_valid s \<Longrightarrow> json_wf (\<lambda>_. True) v \<and> utf8_valid r"
    and "parse_elements ft vs s = Parsed v r \<Longrightarrow> utf8_valid s \<Longrightarrow> json_wf (\<lambda>_. True) (JArray vs) \<Longrightarrow> json_wf (\<lambda>_. True) v \<and> utf8_valid r"
    and "parse_members ft m s = Parsed v r \<Longrightarrow> utf8_valid s \<Longrightarrow> json_wf (\<lambda>_. True) (JObject m) \<Longrightarrow> json_wf (\<lambda>_. True) v \<and> utf8_valid r"
proof (induction ft s and ft vs s and ft m s arbitrary: v r and v r and v r rule: parse_value_parse_elements_parse_members.induct)
  case (1 ft s)
  have s: "utf8_valid (skip_whitespace s)" using "1.prems"(2) by (rule utf8_skip)
  from "1.prems"(1) show ?case
  proof (cases rule: parse_value_inv)
    case (1 x)
    then show ?thesis using parse_string_utf8 s by auto
  next
    case (2 q)
    then show ?thesis using s utf8_skip [of q] by auto
  next
    case (3 q)
    then have "utf8_valid (skip_whitespace q)" using s utf8_skip [of q] by auto
    then show ?thesis using "1.IH"(1) [OF 3(1) _ _ refl 3(3,2)] by simp
  next
    case (4 q)
    then show ?thesis using s utf8_skip [of q] by auto
  next
    case (5 q)
    then have "utf8_valid (skip_whitespace q)" using s utf8_skip [of q] by auto
    then show ?thesis using "1.IH"(2) [OF 5(1) _ _ _ refl 5(3,2)] by simp
  next
    case 6
    then show ?thesis using parse_word_wf s by blast
  next
    case 7
    then show ?thesis using parse_number_wf s by blast
  qed
next
  case (2 ft vs s)
  from "2.prems"(1) show ?case
  proof (cases rule: parse_elements_inv)
    case (1 x r1 q)
    then show ?thesis using "2.IH"(1) [OF 1(1)] "2.prems"(2,3) utf8_skip [of r1] by auto
  next
    case (2 x r1 q)
    then have "json_wf (\<lambda>_. True) x \<and> utf8_valid q" using "2.IH"(1) [OF 2(1)] "2.prems"(2) utf8_skip [of r1] by auto
    then show ?thesis using "2.IH"(2) [OF 2(1,2) _ _ 2(3)] "2.prems"(3) by simp
  qed
next
  case (3 ft m s)
  have s: "utf8_valid (skip_whitespace s)" using "3.prems"(2) by (rule utf8_skip)
  have ins: "json_wf (\<lambda>_. True) (JObject (bt_insert key x m))" if "utf8_valid key" "json_wf (\<lambda>_. True) x" for key x
    using "3.prems"(3) that set_bt_insert [of key x m] by (auto simp: list_all_iff)
  from "3.prems"(1) show ?case
  proof (cases rule: parse_members_inv)
    case (1 key r1 q x r2 p)
    then have "utf8_valid key \<and> utf8_valid q" using parse_string_utf8 [OF 1(1) s] utf8_skip [of r1] by auto
    moreover from this have "json_wf (\<lambda>_. True) x \<and> utf8_valid p"
      using "3.IH"(1) [OF 1(1,2) _ 1(3)] utf8_skip [of r2] 1(4) by auto
    ultimately show ?thesis using 1(5,6) ins by blast
  next
    case (2 key r1 q x r2 p)
    then have "utf8_valid key \<and> utf8_valid q" using parse_string_utf8 [OF 2(1) s] utf8_skip [of r1] by auto
    moreover from this have "json_wf (\<lambda>_. True) x \<and> utf8_valid p"
      using "3.IH"(1) [OF 2(1,2) _ 2(3)] utf8_skip [of r2] 2(4) by auto
    ultimately show ?thesis using "3.IH"(2) [OF 2(1,2) _ 2(3,4) _ _ 2(5)] ins by simp
  qed
qed

lemma utf8_multi_tail: "utf8_multi ch \<Longrightarrow> c \<in> set (tl ch) \<Longrightarrow> utf8_cont (of_char c)"
proof -
  assume m: "utf8_multi ch" and c: "c \<in> set (tl ch)"
  from m consider b d where "ch = [b, d]" "128 \<le> (of_char b :: nat)" | b d e where "ch = [b, d, e]" "224 \<le> (of_char b :: nat)"
    | b d e f where "ch = [b, d, e, f]" "240 \<le> (of_char b :: nat)"
    by (auto simp: utf8_multi_def length_Suc_conv numeral_eq_Suc split: if_splits)
  moreover have "utf8_valid ch" using m by (simp add: utf8_multi_def)
  ultimately show ?thesis
    using c by cases (auto simp: utf8_valid_def utf8_cont_def split: if_splits)
qed

lemma utf8_prefix:
  "utf8_valid (a @ w) \<Longrightarrow> w \<noteq> [] \<Longrightarrow> \<not> utf8_cont (of_char (hd w)) \<Longrightarrow> utf8_valid a"
proof (induction a rule: length_induct)
  case (1 a)
  show ?case
  proof (cases "a = []")
    case False
    from utf8_cases [OF 1(2)] show ?thesis
    proof (elim disjE exE conjE)
      fix c t assume "a @ w = c # t" "of_char c < (128 :: nat)" "utf8_valid t"
      then show ?thesis using False 1 by (cases a) auto
    next
      fix ch t assume m: "a @ w = ch @ t" "utf8_multi ch" "utf8_valid t"
      from m(1) obtain us where "a = ch @ us \<and> us @ w = t \<or> a @ us = ch \<and> w = us @ t"
        unfolding append_eq_append_conv2 by blast
      then show ?thesis
      proof
        assume us: "a = ch @ us \<and> us @ w = t"
        then have "utf8_valid us" using 1 m by (auto simp: utf8_multi_def)
        then show ?thesis using us m(2) by (simp add: utf8_multi_append)
      next
        assume us: "a @ us = ch \<and> w = us @ t"
        show ?thesis
        proof (cases us)
          case Nil
          then show ?thesis using us m(2) by (simp add: utf8_multi_def)
        next
          case (Cons x xs)
          then have "hd w \<in> set (tl ch)" using us False by (cases a) auto
          then show ?thesis using utf8_multi_tail [OF m(2)] 1(4) by blast
        qed
      qed
    qed (use False in simp)
  qed simp
qed

lemma ws_strings_utf8: "\<forall>w \<in> set ws_strings. utf8_valid w \<and> w \<noteq> [] \<and> \<not> utf8_cont (of_char (hd w))"
  by (simp add: ws_strings_def ws_codes_def utf8_valid_def utf8_cont_def)

lemma trim_start_utf8:
  assumes "\<forall>w \<in> set ws. utf8_valid w" "utf8_valid s"
  shows "utf8_valid (trim_by ws s)"
  using assms
proof (induction ws s rule: trim_by.induct)
  case (1 ws s)
  show ?case
  proof (cases "find (\<lambda>w. w \<noteq> [] \<and> starts_with s w) ws")
    case (Some w)
    then have "w \<in> set ws" "starts_with s w" by (auto simp: find_Some_iff in_set_conv_nth)
    then have "utf8_valid (drop (length w) s)" using 1 utf8_append by (auto simp: starts_with_iff)
    then show ?thesis using 1 Some by (simp add: trim_by.simps [of ws s])
  qed (use 1 in \<open>simp add: trim_by.simps [of ws s]\<close>)
qed

lemma trim_end_utf8:
  assumes "\<forall>w \<in> set ws. w \<noteq> [] \<and> \<not> utf8_cont (of_char (hd w))" "utf8_valid (rev s)"
  shows "utf8_valid (rev (trim_by (map rev ws) s))"
  using assms(2)
proof (induction "map rev ws" s rule: trim_by.induct)
  case (1 s)
  show ?case
  proof (cases "find (\<lambda>w. w \<noteq> [] \<and> starts_with s w) (map rev ws)")
    case (Some w)
    then have w: "rev w \<in> set ws" "starts_with s w" by (auto simp: find_Some_iff in_set_conv_nth)
    then obtain r where r: "s = w @ r" by (auto simp: starts_with_iff)
    then have v: "utf8_valid (rev r)" using 1(2) assms(1) w(1) by (auto intro: utf8_prefix)
    have "trim_by (map rev ws) s = trim_by (map rev ws) r" using Some r by (subst trim_by.simps) simp
    then show ?thesis using 1(1) [OF Some] v r by simp
  qed (use 1 in \<open>simp add: trim_by.simps [of _ s]\<close>)
qed

lemma trim_utf8: "utf8_valid s \<Longrightarrow> utf8_valid (trim s)"
  using ws_strings_utf8 trim_start_utf8 [of ws_strings s] trim_end_utf8 [of ws_strings "rev (trim_start s)"]
  by (simp add: trim_def trim_end_def trim_start_def)

text \<open>Every value the parser accepts from a UTF-8 text is well formed, which makes it one that can be written.\<close>

lemma parse_well_formed:
  assumes "json_parse ft s = Some (Some v)" "utf8_valid s"
  shows "json_wf (\<lambda>_. True) v"
proof -
  obtain r where "parse_value ft (trim s) = Parsed v r"
    using assms(1) by (auto simp: json_parse_def Let_def split: if_splits parsed.splits)
  then show ?thesis using parse_wf(1) trim_utf8 [OF assms(2)] by blast
qed

function json_floats :: "json \<Rightarrow> f64 list" where
  "json_floats (JFloat f) = [f]"
| "json_floats (JArray vs) = concat (map json_floats vs)"
| "json_floats (JObject m) = concat (map (\<lambda>(k, v). json_floats v) m)"
| "json_floats JNull = []"
| "json_floats (JBool b) = []"
| "json_floats (JInt n) = []"
| "json_floats (JUint n) = []"
| "json_floats (JString s) = []"
  by pat_completeness auto
termination
  by (relation "measure size") (auto simp: json_member_size less_Suc_eq_le size_list_estimation')

lemma json_wf_floats: "json_wf Q v \<Longrightarrow> (\<And>f. f \<in> set (json_floats v) \<Longrightarrow> P f) \<Longrightarrow> json_wf P v"
proof (induction Q v rule: json_wf.induct)
  case (7 Q vs)
  have "json_wf P x" if "x \<in> set vs" for x
    by (rule "7.IH" [OF that]) (use "7.prems" that in \<open>auto simp: list_all_iff\<close>)
  then show ?case by (simp add: list_all_iff)
next
  case (8 Q m)
  have "utf8_valid k \<and> json_wf P x" if "(k, x) \<in> set m" for k x
  proof
    show "utf8_valid k" using "8.prems"(1) that by (auto simp: list_all_iff)
    show "json_wf P x"
      by (rule "8.IH" [OF that refl]) (use "8.prems" that in \<open>auto simp: list_all_iff\<close>)
  qed
  then show ?case using "8.prems"(1) by (auto simp: list_all_iff)
qed simp_all

section \<open>Texts that go wrong\<close>

lemma json_parse_digits:
  assumes "whole_digits d"
  shows "json_parse ft d = Some (map_option JUint (parse_u64 d))"
proof -
  obtain c t where "d = c # t" "is_digit c" using whole_digits_Cons [OF assms] by blast
  then have "trim d = d"
    using assms digits_last [of d] by (intro trim_same) (auto simp: whole_digits_def is_digit_def edge_def)
  moreover have "parse_value ft d = (case map_option JUint (parse_u64 d) of None \<Rightarrow> Refused | Some v \<Rightarrow> Parsed v [])"
    using parse_value_number [OF assms, of "[]" ft "[]"] parse_number_text [OF assms, of "[]" "[]" "[]" False ft]
    by (simp add: follow_def number_of_def)
  ultimately show ?thesis
    using assms by (auto simp: json_parse_def Let_def skip_whitespace_def whole_digits_def split: option.splits)
qed



lemma parse_members_end: "parse_members ft m [] = Panics"
  by (subst parse_members.simps) (simp add: skip_whitespace_def parse_string_def)

lemma parse_cut_object: "parse_value ft ([CHR ''{''] @ [CHR 0x22] @ ''a'' @ [CHR 0x22] @ '':null,'') = Panics"
proof -
  have "parse_string ([CHR 0x22] @ ''a'' @ [CHR 0x22] @ '':null,'') = Parsed ''a'' '':null,''"
    by (simp add: parse_string_def string_loop.simps(2) first_char_def utf8_valid_def)
  moreover have "parse_value ft ''null,'' = Parsed JNull '',''" using parse_value_null [of ft "'',''"] by simp
  ultimately have "parse_members ft [] ([CHR 0x22] @ ''a'' @ [CHR 0x22] @ '':null,'') = Panics"
    by (subst parse_members.simps) (simp add: skip_whitespace_def is_json_ws_def parse_members_end)
  then show ?thesis by (subst parse_value.simps) (simp add: skip_whitespace_def is_json_ws_def)
qed

text \<open>The parser panics on a text that ends where a member name should start: right after an opening brace
  or after a comma in an object. It takes a surrogate pair whose second half is no low surrogate for another
  character, and a plus sign for a hexadecimal digit.\<close>

theorem json_parser_flaws:
  "json_parse ft ''{'' = None \<and> to_json ft ''{'' = None
   \<and> parse_value ft ([CHR ''{''] @ [CHR 0x22] @ ''a'' @ [CHR 0x22] @ '':null,'') = Panics
   \<and> parse_string ([CHR 0x22, CHR 0x5C] @ ''ud800'' @ [CHR 0x5C] @ ''u0041'' @ [CHR 0x22]) = Parsed [CHR 0xE2, CHR 0x91, CHR 0x81] []
   \<and> parse_string ([CHR 0x22, CHR 0x5C] @ ''u+041'' @ [CHR 0x22]) = Parsed ''A'' []"
proof (intro conjI)
  have "parse_value ft ''{'' = Panics"
    by (subst parse_value.simps) (simp add: skip_whitespace_def is_json_ws_def parse_members_end)
  then show p: "json_parse ft ''{'' = None"
    using trim_same [of "''{''"] by (simp add: json_parse_def edge_def)
  then show "to_json ft ''{'' = None" by (simp add: to_json_def parse_or_drop_first_def)
  show "parse_value ft ([CHR ''{''] @ [CHR 0x22] @ ''a'' @ [CHR 0x22] @ '':null,'') = Panics" by (rule parse_cut_object)
  have "hex_escape ''d800'' = Some 0xD800" "hex_escape ''0041'' = Some 0x41" "hex_escape ''+041'' = Some 0x41"
    by (simp_all add: hex_escape_def utf8_valid_def hex_value_def)
  moreover have "encode_utf8 0x2441 = Some [CHR 0xE2, CHR 0x91, CHR 0x81]" "encode_utf8 0x41 = Some ''A''"
    by (simp_all add: encode_utf8_def char_of_eq_iff)
  moreover have "unat (0x10000 + push_bit 10 (of_nat 0xD800 - 0xD800) + (of_nat 0x41 - 0xDC00) :: u32) = 0x2441" by simp
  ultimately have e: "unicode_escape (''d800'' @ [CHR 0x5C] @ ''u0041'' @ [CHR 0x22]) = Some ([CHR 0xE2, CHR 0x91, CHR 0x81], [CHR 0x22])"
    "unicode_escape (''+041'' @ [CHR 0x22]) = Some (''A'', [CHR 0x22])"
    by (simp_all add: unicode_escape_def)
  show "parse_string ([CHR 0x22, CHR 0x5C] @ ''ud800'' @ [CHR 0x5C] @ ''u0041'' @ [CHR 0x22]) = Parsed [CHR 0xE2, CHR 0x91, CHR 0x81] []"
    "parse_string ([CHR 0x22, CHR 0x5C] @ ''u+041'' @ [CHR 0x22]) = Parsed ''A'' []"
    using e by (simp_all add: parse_string_def string_loop.simps(2))
qed

text \<open>Numbers the writer prints that the parser does not read back: from \<open>1e15\<close> on, the writer prints a
  floating-point number as its digits without a point, so the parser takes it for an integer and refuses the
  document when the integer does not fit 64 bits.\<close>

theorem large_float_lost:
  assumes "show_f64 ft 0x430C6BF526340000 = ''1000000000000000''" "show_f64 ft 0x4415AF1D78B58C40 = ''100000000000000000000''"
  shows "json_parse ft (dump ft (JFloat 0x430C6BF526340000)) = Some (Some (JUint 1000000000000000))
    \<and> json_parse ft (dump ft (JFloat 0x4415AF1D78B58C40)) = Some None"
proof -
  have "dump ft (JFloat 0x430C6BF526340000) = ''1000000000000000''" "dump ft (JFloat 0x4415AF1D78B58C40) = ''100000000000000000000''"
    using assms by (simp_all add: dump_def write_float_def f64_below_1e15_def f64_magnitude_def f64_is_infinite_def f64_is_nan_def f64_exponent_def)
  then show ?thesis
    using json_parse_digits [of "''1000000000000000''" ft] json_parse_digits [of "''100000000000000000000''" ft]
    by (simp add: whole_digits_def is_digit_def parse_u64_def parse_digits_def digit_value_def)
qed

theorem large_float_lost_witness:
  "let ft = \<lparr>show_f64 = \<lambda>f. if f = 0x430C6BF526340000 then ''1000000000000000'' else ''100000000000000000000'',
             show_f64_1 = \<lambda>f. [], parse_f64 = \<lambda>t. None\<rparr>
   in json_parse ft (dump ft (JFloat 0x4415AF1D78B58C40)) = Some None"
  using large_float_lost [of "\<lparr>show_f64 = \<lambda>f. if f = 0x430C6BF526340000 then ''1000000000000000'' else ''100000000000000000000'',
             show_f64_1 = \<lambda>f. [], parse_f64 = \<lambda>t. None\<rparr>"]
  by (simp add: Let_def)

end
