(* ===== verification/Permission.thy ===== *)
theory Permission
  imports Rust_Str
begin

text \<open>
  \<open>permission.rs\<close> and \<open>called_config.rs\<close>: the permission checks with their two caches, and the provider that a
  URI names. Where the code is a stub (its TODO comments name the services it will ask), the stub is modelled
  as it is.
\<close>

section \<open>permission.rs\<close>

definition SCHEMA_DATASHARE_PROXY :: string where "SCHEMA_DATASHARE_PROXY = ''datashareproxy://''"

record extension_info =
  ei_uri :: string
  ei_read_permission :: string
  ei_write_permission :: string

record silent_info =
  si_uri :: string
  si_permission :: string

record data_share_permission =
  dp_extension_cache :: "string \<Rightarrow> extension_info option"
  dp_silent_cache :: "string \<Rightarrow> silent_info option"

definition permission_new :: data_share_permission where
  "permission_new = \<lparr>dp_extension_cache = (\<lambda>_. None), dp_silent_cache = (\<lambda>_. None)\<rparr>"

definition verify_permission :: "data_share_permission \<Rightarrow> u32 \<Rightarrow> string \<Rightarrow> string \<Rightarrow> bool" where
  "verify_permission dp token_id uri permission = True"

definition verify_permission_with_pid :: "data_share_permission \<Rightarrow> i32 \<Rightarrow> i32 \<Rightarrow> string \<Rightarrow> string \<Rightarrow> bool" where
  "verify_permission_with_pid dp pid uid uri permission = True"

definition verify_permission_with_token :: "data_share_permission \<Rightarrow> u32 \<Rightarrow> string \<Rightarrow> string \<Rightarrow> bool" where
  "verify_permission_with_token dp token_id uri permission = verify_permission dp token_id uri permission"

definition uri_is_trust :: "data_share_permission \<Rightarrow> string \<Rightarrow> bool" where
  "uri_is_trust dp uri = False"

definition get_uri_permission :: "data_share_permission \<Rightarrow> string \<Rightarrow> string \<Rightarrow> bool" where
  "get_uri_permission dp uri permission = False"

definition get_extension_uri_permission :: "data_share_permission \<Rightarrow> string \<Rightarrow> string \<Rightarrow> bool" where
  "get_extension_uri_permission dp uri permission =
     (case dp_extension_cache dp uri of
        Some info \<Rightarrow>
          (if permission = ''read'' then ei_read_permission info \<noteq> []
           else if permission = ''write'' then ei_write_permission info \<noteq> []
           else False)
      | None \<Rightarrow> False)"

definition get_silent_uri_permission :: "data_share_permission \<Rightarrow> string \<Rightarrow> string \<Rightarrow> bool" where
  "get_silent_uri_permission dp uri permission =
     (case dp_silent_cache dp uri of Some info \<Rightarrow> si_permission info = permission | None \<Rightarrow> False)"

definition check_extension_trusts :: "data_share_permission \<Rightarrow> u32 \<Rightarrow> u32 \<Rightarrow> bool" where
  "check_extension_trusts dp consumer_token provider_token = False"

definition is_extension_valid :: "data_share_permission \<Rightarrow> string \<Rightarrow> bool" where
  "is_extension_valid dp uri = True"

definition delete_cache :: "data_share_permission \<Rightarrow> data_share_permission" where
  "delete_cache dp = dp\<lparr>dp_extension_cache := (\<lambda>_. None), dp_silent_cache := (\<lambda>_. None)\<rparr>"

definition delete_cache_for_bundle :: "string \<Rightarrow> data_share_permission \<Rightarrow> data_share_permission" where
  "delete_cache_for_bundle bundle_name dp = dp"

definition is_in_uri_trusts :: "string \<Rightarrow> string list \<Rightarrow> bool" where
  "is_in_uri_trusts uri trusts \<longleftrightarrow> (\<exists>trust \<in> set trusts. starts_with uri trust)"

definition check_app_identifier :: "u32 \<Rightarrow> string \<Rightarrow> bool" where
  "check_app_identifier token_id bundle_name = True"

definition is_in_extension_trusts :: "u32 \<Rightarrow> u32 \<Rightarrow> (u32 \<times> u32) list \<Rightarrow> bool" where
  "is_in_extension_trusts consumer_token provider_token trusts = False"

section \<open>called_config.rs\<close>

definition DEFAULT_USER_ID :: i32 where "DEFAULT_USER_ID = -1"

record provider_info =
  pi_uri :: string
  pi_schema :: string
  pi_bundle_name :: string
  pi_read_permission :: string
  pi_write_permission :: string
  pi_module_name :: string
  pi_current_user_id :: i32

definition provider_info_default :: provider_info where
  "provider_info_default = \<lparr>pi_uri = [], pi_schema = [], pi_bundle_name = [], pi_read_permission = [], pi_write_permission = [],
     pi_module_name = [], pi_current_user_id = DEFAULT_USER_ID\<rparr>"

record bundle_info =
  bi_name :: string
  bi_is_system_app :: bool
  bi_app_identifier :: string

record extension_ability_info =
  ea_bundle_name :: string
  ea_module_name :: string
  ea_read_permission :: string
  ea_write_permission :: string
  ea_uri :: string

record called_config =
  cc_uri :: string
  cc_bundle_name :: string
  cc_is_proxy :: bool
  cc_token_id :: u32

definition extract_bundle_name :: "string \<Rightarrow> bool \<Rightarrow> string" where
  "extract_bundle_name uri is_proxy =
     (if is_proxy
      then (case strip_prefix SCHEMA_DATASHARE_PROXY uri of
              Some rest \<Rightarrow> (case find_char (CHR ''/'') rest of Some slash_pos \<Rightarrow> take slash_pos rest | None \<Rightarrow> rest)
            | None \<Rightarrow> [])
      else (let parts = split_char (CHR ''/'') uri in if 4 \<le> length parts then parts ! 3 else []))"

definition called_config_new :: "string \<Rightarrow> u32 \<Rightarrow> called_config" where
  "called_config_new uri token_id =
     (let is_proxy = starts_with uri SCHEMA_DATASHARE_PROXY
      in \<lparr>cc_uri = uri, cc_bundle_name = extract_bundle_name uri is_proxy, cc_is_proxy = is_proxy, cc_token_id = token_id\<rparr>)"

definition get_user_by_token :: "u32 \<Rightarrow> i32" where
  "get_user_by_token token_id = DEFAULT_USER_ID"

definition get_from_proxy_data :: "called_config \<Rightarrow> provider_info option" where
  "get_from_proxy_data cc = None"

definition get_provider_info :: "called_config \<Rightarrow> i32 \<Rightarrow> i32 \<times> provider_info" where
  "get_provider_info cc user_id =
     (0, provider_info_default\<lparr>pi_uri := cc_uri cc, pi_schema := (if cc_is_proxy cc then ''datashareproxy'' else ''datashare''),
           pi_bundle_name := cc_bundle_name cc, pi_current_user_id := user_id\<rparr>)"

definition get_provider_info_by_token :: "called_config \<Rightarrow> i32 \<times> provider_info" where
  "get_provider_info_by_token cc = get_provider_info cc (get_user_by_token (cc_token_id cc))"

definition get_bundle_info_from_bms :: "string \<Rightarrow> i32 \<Rightarrow> bundle_info option" where
  "get_bundle_info_from_bms bundle_name user_id = Some \<lparr>bi_name = bundle_name, bi_is_system_app = False, bi_app_identifier = []\<rparr>"

definition get_extension_info_from_bms :: "string \<Rightarrow> i32 \<Rightarrow> extension_ability_info option" where
  "get_extension_info_from_bms uri user_id =
     Some \<lparr>ea_bundle_name = [], ea_module_name = [], ea_read_permission = [], ea_write_permission = [], ea_uri = uri\<rparr>"

section \<open>Properties\<close>

lemma proxy_prefix [simp]: "starts_with (SCHEMA_DATASHARE_PROXY @ r) SCHEMA_DATASHARE_PROXY"
  by simp

lemma datashare_not_proxy [simp]: "\<not> starts_with (''datashare:///'' @ r) SCHEMA_DATASHARE_PROXY"
  by (simp add: starts_with_iff SCHEMA_DATASHARE_PROXY_def)

lemma split_datashare: "split_char (CHR ''/'') (''datashare:///'' @ r) = ''datashare:'' # [] # [] # split_char (CHR ''/'') r"
  by simp

definition path_rest :: "string \<Rightarrow> bool" where
  "path_rest r \<longleftrightarrow> (r = [] \<or> hd r = CHR ''/'')"

lemma hd_split_rest: "CHR ''/'' \<notin> set b \<Longrightarrow> path_rest r \<Longrightarrow> hd (split_char (CHR ''/'') (b @ r)) = b"
  by (cases r) (auto simp: path_rest_def split_char_none split_char_append)

text \<open>A provider is found by the bundle that its URI names. Whatever follows the bundle name in the path, a silent
  URI and a proxy URI give that bundle, their own schema and the user asked for; and the bundle name of any URI
  whatever contains no slash.\<close>

theorem provider_of_uri:
  assumes b: "CHR ''/'' \<notin> set b" and r: "path_rest r"
  shows "(let (err, info) = get_provider_info (called_config_new (''datashare:///'' @ b @ r) token) user
          in err = 0 \<and> pi_bundle_name info = b \<and> pi_schema info = ''datashare'' \<and> pi_current_user_id info = user)
   \<and> (let (err, info) = get_provider_info (called_config_new (SCHEMA_DATASHARE_PROXY @ b @ r) token) user
          in err = 0 \<and> pi_bundle_name info = b \<and> pi_schema info = ''datashareproxy'' \<and> pi_current_user_id info = user)
   \<and> CHR ''/'' \<notin> set (cc_bundle_name (called_config_new uri token))"
proof -
  have "split_char (CHR ''/'') (b @ r) ! 0 = b" using hd_split_rest [OF b r] by (simp flip: hd_conv_nth)
  moreover have "split_char (CHR ''/'') (b @ r) \<noteq> []" by simp
  ultimately have 1: "extract_bundle_name (''datashare:///'' @ b @ r) False = b"
    unfolding extract_bundle_name_def Let_def split_datashare by (cases "split_char (CHR ''/'') (b @ r)") auto
  have 2: "extract_bundle_name (SCHEMA_DATASHARE_PROXY @ b @ r) True = b"
    using b r find_char_append [of "CHR ''/''" b] find_char_eq_None [of "CHR ''/''" b]
    by (cases r) (auto simp: extract_bundle_name_def path_rest_def)
  have 3: "CHR ''/'' \<notin> set (extract_bundle_name uri p)" for p
    using split_char_parts [of "split_char (CHR ''/'') uri ! 3" "CHR ''/''" uri]
    by (auto simp: extract_bundle_name_def Let_def find_char_eq_None find_char_eq_Some split: option.splits)
  show ?thesis using 1 2 3 datashare_not_proxy [of "b @ r"] proxy_prefix [of "b @ r"]
    unfolding called_config_new_def get_provider_info_def Let_def by simp
qed

theorem provider_of_uri_witness:
  "pi_bundle_name (snd (get_provider_info (called_config_new ''datashare:///com.app/table?x=1'' 7) 100)) = ''com.app''"
  using provider_of_uri [of "''com.app''" "''/table?x=1''" 7 100] by (simp add: path_rest_def Let_def split_def)

text \<open>The trust list is a list of plain prefixes. A URI is trusted exactly when it continues a trusted one, so a
  trusted provider without a closing slash also trusts every provider whose name continues its own, and an
  empty entry trusts every URI.\<close>

theorem uri_trust_prefixes:
  "(is_in_uri_trusts uri trusts \<longleftrightarrow> (\<exists>trust \<in> set trusts. \<exists>rest. uri = trust @ rest))
   \<and> is_in_uri_trusts (trust @ rest) (trust # trusts) \<and> is_in_uri_trusts uri ([] # trusts)"
  by (auto simp: is_in_uri_trusts_def starts_with_iff)

lemma permission_checks_vacuous:
  "verify_permission dp token uri permission" "verify_permission_with_pid dp pid uid uri permission"
  "verify_permission_with_token dp token uri permission"
  by (simp_all add: verify_permission_def verify_permission_with_pid_def verify_permission_with_token_def)

text \<open>The two caches are never filled: they are empty after any sequence of the operations that change them.\<close>

datatype cache_op = DeleteCache | DeleteCacheFor string

fun cache_do :: "cache_op \<Rightarrow> data_share_permission \<Rightarrow> data_share_permission" where
  "cache_do DeleteCache dp = delete_cache dp"
| "cache_do (DeleteCacheFor b) dp = delete_cache_for_bundle b dp"

lemma caches_empty: "fold cache_do ops permission_new = permission_new"
proof (induction ops rule: rev_induct)
  case (snoc op ops)
  then show ?case by (cases op) (simp_all add: permission_new_def delete_cache_def delete_cache_for_bundle_def)
qed simp

text \<open>No permission is ever refused by \<open>verify_permission\<close>, and none is ever granted by a cache: after any sequence of
  the operations on the caches, every token has every permission on every URI, while the cached checks of extensions
  and of silent access answer no to everything.\<close>

theorem permission_vacuous:
  "let dp = fold cache_do ops permission_new in
     verify_permission dp token uri permission \<and> verify_permission_with_pid dp pid uid uri permission
     \<and> \<not> get_extension_uri_permission dp uri permission \<and> \<not> get_silent_uri_permission dp uri permission"
  unfolding caches_empty
  by (simp add: permission_checks_vacuous get_extension_uri_permission_def get_silent_uri_permission_def permission_new_def)

end
