(* ===== verification/Step_Runs.thy ===== *)
theory Step_Runs
  imports Prelude
begin

text \<open>
  Runs of a labelled step relation, shared by the components that are state machines, and the argument by
  which a counter that bounds its own increments bounds what happens in a run.
\<close>

inductive step_runs :: "('s \<Rightarrow> 'l \<Rightarrow> 's \<Rightarrow> bool) \<Rightarrow> 's \<Rightarrow> 'l list \<Rightarrow> 's \<Rightarrow> bool" for step where
  runs_nil: "step_runs step s [] s"
| runs_snoc: "step_runs step s ls s' \<Longrightarrow> step s' l s'' \<Longrightarrow> step_runs step s (ls @ [l]) s''"

lemma step_runs_invariant:
  assumes "step_runs step s ls s'" "P s" "\<And>s l s'. P s \<Longrightarrow> step s l s' \<Longrightarrow> P s'"
  shows "P s'"
  using assms by (induction rule: step_runs.induct) auto

lemma step_runs_mono:
  assumes "step_runs step s ls s'" "P s" "\<And>s l s'. P s \<Longrightarrow> step s l s' \<Longrightarrow> P s' \<and> step' s l s'"
  shows "P s' \<and> step_runs step' s ls s'"
  using assms by (induction rule: step_runs.induct) (auto intro: step_runs.intros)

lemma step_runs_single: "step s l s' \<Longrightarrow> step_runs step s [l] s'"
  using runs_snoc [OF runs_nil] by simp

lemma step_runs_two: "step s l s' \<Longrightarrow> step s' l' s'' \<Longrightarrow> step_runs step s [l, l'] s''"
  using runs_snoc [OF step_runs_single, of step s l s' l' s''] by simp

lemma step_runs_append:
  "step_runs step s' ls' s'' \<Longrightarrow> step_runs step s ls s' \<Longrightarrow> step_runs step s (ls @ ls') s''"
proof (induction rule: step_runs.induct)
  case (runs_snoc s' ls' s'' l s3)
  then show ?case using step_runs.runs_snoc [of step s "ls @ ls'" s'' l s3] by simp
qed simp

text \<open>A counter kept by the steps: a step that does not reset it adds what it does, and it never passes its bound.\<close>

locale attempt_counter =
  fixes step :: "'s \<Rightarrow> 'l \<Rightarrow> 's \<Rightarrow> bool" and ok :: "'s \<Rightarrow> bool" and tally :: "'s \<Rightarrow> int" and bound :: int
    and attempts :: "'l \<Rightarrow> nat" and resets :: "'s \<Rightarrow> 'l \<Rightarrow> bool"
  assumes ok_step: "ok s \<Longrightarrow> step s l s' \<Longrightarrow> ok s'"
    and tally_bound: "ok s \<Longrightarrow> 0 \<le> tally s \<and> tally s \<le> bound"
    and tally_step: "ok s \<Longrightarrow> step s l s' \<Longrightarrow> \<not> resets s l \<Longrightarrow> tally s' = tally s + int (attempts l)"
begin

definition quiet :: "'s \<Rightarrow> 'l \<Rightarrow> 's \<Rightarrow> bool" where
  "quiet s l s' \<longleftrightarrow> step s l s' \<and> \<not> resets s l"

lemma quiet_tally:
  "step_runs quiet s ls s' \<Longrightarrow> ok s \<Longrightarrow> ok s' \<and> tally s' = tally s + int (sum_list (map attempts ls))"
proof (induction rule: step_runs.induct)
  case (runs_snoc s ls s' l s'')
  then show ?case using ok_step tally_step by (auto simp: quiet_def)
qed simp

lemma quiet_bounded: "step_runs quiet s ls s' \<Longrightarrow> ok s \<Longrightarrow> int (sum_list (map attempts ls)) \<le> bound - tally s"
  using quiet_tally tally_bound by fastforce

end

end
