(* ===== verification/Connection.thy ===== *)
theory Connection
  imports Step_Runs "HOL-Library.AList"
begin

text \<open>
  \<open>connection/datashare_connection.rs\<close>: the life of a connection to an extension. The callbacks of the
  ability manager, the calls of the client and the delayed reconnection threads are events that may come in any
  order; each handler runs as one step, and getting the proxy is two steps, before and after the wait. What
  the handlers ask of the outside (connect, disconnect, a thread, a registration) is returned in the order they ask
  it; the handle that a connect request returns and the answers of the observer manager are inputs. The hash map
  of the observers is an association list: no theorem depends on its order.
\<close>

section \<open>State\<close>

definition MAX_RECONNECT :: i32 where "MAX_RECONNECT = 6"

record connection_info =
  rc_count :: i32
  rc_first_time :: i64
  rc_prev_time :: i64

definition connection_info_default :: connection_info where
  "connection_info_default = \<lparr>rc_count = 0, rc_first_time = 0, rc_prev_time = 0\<rparr>"

record observer_param =
  op_uri :: string
  op_is_descendants :: bool

type_synonym ext_observers = "(u64 \<times> observer_param list) list"

text \<open>\<open>'r\<close> is the type of the remote objects; \<open>cn_tasks\<close> counts the threads that sleep before they reconnect,
  \<open>cn_freed\<close> is the end of \<open>drop\<close>, and \<open>cn_dangling\<close> that the memory was read after it.\<close>

record 'r connection =
  cn_uri :: string
  cn_token_raw :: u64
  cn_wait_time :: i32
  cn_proxy :: "'r option"
  cn_is_invalid :: bool
  cn_is_reconnect :: bool
  cn_callback_active :: bool
  cn_reconnects :: connection_info
  cn_observers :: ext_observers
  cn_handle :: u64
  cn_remote_raw :: u64
  cn_tasks :: nat
  cn_freed :: bool
  cn_dangling :: bool

datatype ext_call =
    ConnectExt string u64
  | DisconnectExt u64
  | SpawnReconnect
  | RegisterExt string u64 bool

definition connection_new_with_token_raw :: "string \<Rightarrow> u64 \<Rightarrow> i32 \<Rightarrow> 'r connection" where
  "connection_new_with_token_raw uri token_raw wait_time =
     \<lparr>cn_uri = uri, cn_token_raw = token_raw, cn_wait_time = wait_time, cn_proxy = None, cn_is_invalid = False,
      cn_is_reconnect = False, cn_callback_active = True, cn_reconnects = connection_info_default, cn_observers = [],
      cn_handle = 0, cn_remote_raw = 0, cn_tasks = 0, cn_freed = False, cn_dangling = False\<rparr>"

definition connection_new :: "string \<Rightarrow> i32 \<Rightarrow> 'r connection" where
  "connection_new uri wait_time = connection_new_with_token_raw uri 0 wait_time"

definition with_default_wait :: "string \<Rightarrow> 'r connection" where
  "with_default_wait uri = connection_new uri 2"

section \<open>The observers of a connection\<close>

definition params_of :: "ext_observers \<Rightarrow> u64 \<Rightarrow> observer_param list" where
  "params_of obs observer_id = (case map_of obs observer_id of Some params \<Rightarrow> params | None \<Rightarrow> [])"

definition update_observers :: "string \<Rightarrow> u64 \<Rightarrow> bool \<Rightarrow> ext_observers \<Rightarrow> ext_observers" where
  "update_observers uri observer_id is_descendants obs =
     AList.update observer_id (params_of obs observer_id @ [\<lparr>op_uri = uri, op_is_descendants = is_descendants\<rparr>]) obs"

definition delete_observers :: "string \<Rightarrow> u64 \<Rightarrow> ext_observers \<Rightarrow> ext_observers" where
  "delete_observers uri observer_id obs =
     (case map_of obs observer_id of
        None \<Rightarrow> obs
      | Some params \<Rightarrow>
          (let params' = filter (\<lambda>p. op_uri p \<noteq> uri) params
           in if params' = [] then AList.delete observer_id obs else AList.update observer_id params' obs))"

definition update_observer_exts_provider_map :: "string \<Rightarrow> u64 \<Rightarrow> bool \<Rightarrow> 'r connection \<Rightarrow> 'r connection" where
  "update_observer_exts_provider_map uri observer_id is_descendants cn =
     cn\<lparr>cn_observers := update_observers uri observer_id is_descendants (cn_observers cn)\<rparr>"

definition delete_observer_exts_provider_map :: "string \<Rightarrow> u64 \<Rightarrow> 'r connection \<Rightarrow> 'r connection" where
  "delete_observer_exts_provider_map uri observer_id cn =
     cn\<lparr>cn_observers := delete_observers uri observer_id (cn_observers cn)\<rparr>"

text \<open>Re-registration: \<open>register\<close> is the answer of the observer manager, 0 for success.\<close>

type_synonym register_answer = "string \<Rightarrow> u64 \<Rightarrow> bool \<Rightarrow> i32"

definition re_register_param :: "register_answer \<Rightarrow> u64 \<Rightarrow> observer_param \<Rightarrow> ext_observers \<Rightarrow> ext_observers" where
  "re_register_param register observer_id p obs =
     (if register (op_uri p) observer_id (op_is_descendants p) = 0
      then update_observers (op_uri p) observer_id (op_is_descendants p) obs else obs)"

definition re_register_params :: "register_answer \<Rightarrow> u64 \<times> observer_param list \<Rightarrow> ext_observers \<Rightarrow> ext_observers" where
  "re_register_params register e obs = fold (re_register_param register (fst e)) (snd e) obs"

definition re_register_observer_ext_provider :: "register_answer \<Rightarrow> 'r connection \<Rightarrow> ext_call list \<times> 'r connection" where
  "re_register_observer_ext_provider register cn =
     (concat (map (\<lambda>(oid, params). map (\<lambda>p. RegisterExt (op_uri p) oid (op_is_descendants p)) params) (cn_observers cn)),
      cn\<lparr>cn_observers := fold (re_register_params register) (cn_observers cn) []\<rparr>)"

section \<open>Handlers\<close>

definition get_proxy :: "'r connection \<Rightarrow> 'r option" where
  "get_proxy cn = cn_proxy cn"

definition set_proxy_from_remote :: "'r \<Rightarrow> 'r connection \<Rightarrow> 'r connection" where
  "set_proxy_from_remote remote cn = cn\<lparr>cn_proxy := Some remote\<rparr>"

definition set_connect_invalid :: "'r connection \<Rightarrow> 'r connection" where
  "set_connect_invalid cn = cn\<lparr>cn_is_invalid := True\<rparr>"

definition disconnect :: "'r connection \<Rightarrow> ext_call list \<times> 'r connection" where
  "disconnect cn =
     (if cn_proxy cn = None then ([], cn)
      else let cn' = cn\<lparr>cn_remote_raw := 0\<rparr>
           in if cn_handle cn \<noteq> 0 then ([DisconnectExt (cn_handle cn)], cn'\<lparr>cn_handle := 0\<rparr>) else ([], cn'))"

text \<open>A connect request, and the handle it returned (0 is null).\<close>

definition store_handle :: "u64 \<Rightarrow> 'r connection \<Rightarrow> 'r connection" where
  "store_handle handle cn = (if handle \<noteq> 0 then cn\<lparr>cn_handle := handle\<rparr> else cn)"

definition connect_ext :: "u64 \<Rightarrow> 'r connection \<Rightarrow> ext_call list \<times> 'r connection" where
  "connect_ext handle cn = ([ConnectExt (cn_uri cn) (cn_token_raw cn)], store_handle handle cn)"

text \<open>\<open>get_data_share_proxy\<close> up to the wait on the condition variable: \<open>Inl\<close> is a proxy that was there.\<close>

definition get_data_share_proxy_start :: "u64 \<Rightarrow> 'r connection \<Rightarrow> 'r option \<times> ext_call list \<times> 'r connection" where
  "get_data_share_proxy_start handle cn =
     (case get_proxy cn of
        Some proxy \<Rightarrow> (Some proxy, [], cn)
      | None \<Rightarrow> (None, connect_ext handle cn))"

text \<open>How long it waits, in seconds, and what it returns when the wait is over, whatever ended it.\<close>

definition wait_timeout_secs :: "'r connection \<Rightarrow> u64" where
  "wait_timeout_secs cn = scast (cn_wait_time cn)"

definition get_data_share_proxy_end :: "'r connection \<Rightarrow> 'r option" where
  "get_data_share_proxy_end cn = cn_proxy cn"

definition on_ability_connect_done :: "register_answer \<Rightarrow> 'r \<Rightarrow> 'r connection \<Rightarrow> ext_call list \<times> 'r connection" where
  "on_ability_connect_done register remote cn =
     (let cn1 = cn\<lparr>cn_proxy := Some remote\<rparr>
      in if cn_is_invalid cn1 then disconnect cn1
         else if cn_is_reconnect cn1
         then let (calls, cn2) = re_register_observer_ext_provider register cn1
              in (calls, cn2\<lparr>cn_is_reconnect := False, cn_reconnects := connection_info_default\<rparr>)
         else ([], cn1))"

definition delay_connect_ext_ability :: "'r connection \<Rightarrow> ext_call list \<times> 'r connection" where
  "delay_connect_ext_ability cn =
     (if MAX_RECONNECT \<le>s rc_count (cn_reconnects cn) then ([], cn)
      else ([SpawnReconnect],
            cn\<lparr>cn_reconnects := (cn_reconnects cn)\<lparr>rc_count := rc_count (cn_reconnects cn) + 1\<rparr>,
               cn_is_reconnect := True, cn_tasks := cn_tasks cn + 1\<rparr>))"

definition reconnect_ext_ability :: "u64 \<Rightarrow> 'r connection \<Rightarrow> ext_call list \<times> 'r connection" where
  "reconnect_ext_ability handle cn =
     (if rc_count (cn_reconnects cn) = 0
      then connect_ext handle (cn\<lparr>cn_reconnects := (cn_reconnects cn)\<lparr>rc_count := 1\<rparr>, cn_is_reconnect := True\<rparr>)
      else delay_connect_ext_ability cn)"

definition on_ability_disconnect_done :: "u64 \<Rightarrow> 'r connection \<Rightarrow> ext_call list \<times> 'r connection" where
  "on_ability_disconnect_done handle cn = reconnect_ext_ability handle (cn\<lparr>cn_proxy := None, cn_remote_raw := 0\<rparr>)"

text \<open>The callbacks. \<open>from_ciremote\<close> makes a remote object of a raw pointer.\<close>

definition on_connect_ffi :: "(u64 \<Rightarrow> 'r option) \<Rightarrow> register_answer \<Rightarrow> u64 \<Rightarrow> 'r connection \<Rightarrow> ext_call list \<times> 'r connection" where
  "on_connect_ffi from_ciremote register remote_object cn =
     (if \<not> cn_callback_active cn then ([], cn)
      else let cn1 = cn\<lparr>cn_remote_raw := remote_object\<rparr>
           in case from_ciremote remote_object of
                Some remote \<Rightarrow> on_ability_connect_done register remote cn1
              | None \<Rightarrow> ([], cn1))"

definition on_disconnect_ffi :: "u64 \<Rightarrow> 'r connection \<Rightarrow> ext_call list \<times> 'r connection" where
  "on_disconnect_ffi handle cn = (if \<not> cn_callback_active cn then ([], cn) else on_ability_disconnect_done handle cn)"

text \<open>A sleeping thread wakes up: it connects with what it copied, and then reads the connection, which may be gone.\<close>

definition delayed_task :: "u64 \<Rightarrow> 'r connection \<Rightarrow> ext_call list \<times> 'r connection" where
  "delayed_task handle cn =
     (let cn1 = cn\<lparr>cn_tasks := cn_tasks cn - 1\<rparr>
      in ([ConnectExt (cn_uri cn) (cn_token_raw cn)],
          if handle = 0 then cn1
          else if cn_freed cn1 then cn1\<lparr>cn_dangling := True\<rparr>
          else if cn_callback_active cn1 then cn1\<lparr>cn_handle := handle\<rparr> else cn1))"

definition drop_connection :: "'r connection \<Rightarrow> ext_call list \<times> 'r connection" where
  "drop_connection cn =
     (if cn_handle cn \<noteq> 0 then [DisconnectExt (cn_handle cn)] else [], cn\<lparr>cn_callback_active := False, cn_freed := True\<rparr>)"


section \<open>Events\<close>

datatype 'r conn_event =
    GetProxyStart u64
  | ConnectCallback u64
  | DisconnectCallback u64
  | TaskWakes u64
  | Disconnect
  | SetInvalid
  | SetProxy 'r
  | UpdateObserver string u64 bool
  | DeleteObserver string u64
  | DropConnection

text \<open>The connection with its environment: every event but the waking of a thread needs it alive.\<close>

fun conn_do :: "(u64 \<Rightarrow> 'r option) \<Rightarrow> register_answer \<Rightarrow> 'r conn_event \<Rightarrow> 'r connection \<Rightarrow> ext_call list \<times> 'r connection" where
  "conn_do fc reg (GetProxyStart handle) cn = snd (get_data_share_proxy_start handle cn)"
| "conn_do fc reg (ConnectCallback raw) cn = on_connect_ffi fc reg raw cn"
| "conn_do fc reg (DisconnectCallback handle) cn = on_disconnect_ffi handle cn"
| "conn_do fc reg (TaskWakes handle) cn = delayed_task handle cn"
| "conn_do fc reg Disconnect cn = disconnect cn"
| "conn_do fc reg SetInvalid cn = ([], set_connect_invalid cn)"
| "conn_do fc reg (SetProxy r) cn = ([], set_proxy_from_remote r cn)"
| "conn_do fc reg (UpdateObserver uri oid desc) cn = ([], update_observer_exts_provider_map uri oid desc cn)"
| "conn_do fc reg (DeleteObserver uri oid) cn = ([], delete_observer_exts_provider_map uri oid cn)"
| "conn_do fc reg DropConnection cn = drop_connection cn"

definition conn_enabled :: "'r conn_event \<Rightarrow> 'r connection \<Rightarrow> bool" where
  "conn_enabled ev cn = (case ev of TaskWakes _ \<Rightarrow> 0 < cn_tasks cn | _ \<Rightarrow> \<not> cn_freed cn)"

inductive conn_step :: "(u64 \<Rightarrow> 'r option) \<Rightarrow> register_answer \<Rightarrow> 'r connection \<Rightarrow> 'r conn_event \<times> ext_call list \<Rightarrow> 'r connection \<Rightarrow> bool"
  for fc reg where
  conn_event: "conn_enabled ev cn \<Longrightarrow> conn_do fc reg ev cn = (calls, cn') \<Longrightarrow> conn_step fc reg cn (ev, calls) cn'"

inductive_simps conn_step_iff: "conn_step fc reg cn (ev, calls) cn'"

text \<open>The reconnections that an event asks for, and the events that set the count back.\<close>

fun reconnect_attempts :: "'r conn_event \<times> ext_call list \<Rightarrow> nat" where
  "reconnect_attempts (DisconnectCallback _, calls) = length calls"
| "reconnect_attempts _ = 0"

fun reconnected :: "(u64 \<Rightarrow> 'r option) \<Rightarrow> 'r connection \<Rightarrow> 'r conn_event \<times> ext_call list \<Rightarrow> bool" where
  "reconnected fc cn (ConnectCallback raw, _) \<longleftrightarrow>
     cn_callback_active cn \<and> fc raw \<noteq> None \<and> \<not> cn_is_invalid cn \<and> cn_is_reconnect cn"
| "reconnected fc cn _ \<longleftrightarrow> False"

definition observers_ok :: "ext_observers \<Rightarrow> bool" where
  "observers_ok obs \<longleftrightarrow> distinct (map fst obs) \<and> (\<forall>(oid, params) \<in> set obs. params \<noteq> [])"

definition conn_ok :: "'r connection \<Rightarrow> bool" where
  "conn_ok cn \<longleftrightarrow> 0 \<le> sint (rc_count (cn_reconnects cn)) \<and> sint (rc_count (cn_reconnects cn)) \<le> 6
     \<and> (cn_is_reconnect cn \<longleftrightarrow> rc_count (cn_reconnects cn) \<noteq> 0)
     \<and> (cn_freed cn \<longrightarrow> \<not> cn_callback_active cn) \<and> (cn_dangling cn \<longrightarrow> cn_freed cn)
     \<and> observers_ok (cn_observers cn)"

lemmas conn_defs = connection_new_def connection_new_with_token_raw_def connection_info_default_def

section \<open>Observers\<close>

lemma observers_ok_params: "observers_ok obs \<Longrightarrow> map_of obs oid = Some params \<Longrightarrow> params \<noteq> []"
  by (auto simp: observers_ok_def dest: map_of_SomeD)

lemma params_of_update [simp]:
  "params_of (update_observers uri oid d obs) oid' =
     (if oid' = oid then params_of obs oid @ [\<lparr>op_uri = uri, op_is_descendants = d\<rparr>] else params_of obs oid')"
  by (auto simp: params_of_def update_observers_def update_conv')

lemma set_alist_update: "distinct (map fst al) \<Longrightarrow> e \<in> set (AList.update k v al) \<Longrightarrow> e = (k, v) \<or> e \<in> set al \<and> fst e \<noteq> k"
  by (induction al) (auto split: if_splits)

lemma observers_ok_alist_update: "observers_ok obs \<Longrightarrow> params \<noteq> [] \<Longrightarrow> observers_ok (AList.update oid params obs)"
  by (auto simp: observers_ok_def distinct_update dest!: set_alist_update)

lemma observers_ok_update [simp]: "observers_ok obs \<Longrightarrow> observers_ok (update_observers uri oid d obs)"
  by (simp add: update_observers_def observers_ok_alist_update)

lemma observers_ok_alist_delete: "observers_ok obs \<Longrightarrow> observers_ok (AList.delete oid obs)"
  unfolding observers_ok_def using distinct_delete by (fastforce simp: AList.delete_eq)

lemma observers_ok_delete [simp]: "observers_ok obs \<Longrightarrow> observers_ok (delete_observers uri oid obs)"
  by (auto simp: delete_observers_def Let_def observers_ok_alist_update observers_ok_alist_delete split: option.splits)

lemma params_of_delete:
  "params_of (delete_observers uri oid obs) oid' =
     (if oid' = oid then filter (\<lambda>p. op_uri p \<noteq> uri) (params_of obs oid) else params_of obs oid')"
  by (auto simp: params_of_def delete_observers_def Let_def update_conv' delete_conv' split: option.splits)

lemma map_of_params: "observers_ok obs \<Longrightarrow> map_of obs oid = (if params_of obs oid = [] then None else Some (params_of obs oid))"
  using observers_ok_params by (auto simp: params_of_def split: option.splits)

lemma re_register_params_inv:
  "observers_ok obs \<Longrightarrow> observers_ok (re_register_params register e obs)"
proof -
  have "observers_ok obs \<Longrightarrow> observers_ok (fold (re_register_param register (fst e)) ps obs)" for ps
    by (induction ps arbitrary: obs) (simp_all add: re_register_param_def)
  then show "observers_ok obs \<Longrightarrow> ?thesis" by (simp add: re_register_params_def)
qed

lemma re_register_inv: "observers_ok obs \<Longrightarrow> observers_ok (fold (re_register_params register) es obs)"
  by (induction es arbitrary: obs) (simp_all add: re_register_params_inv)

lemma observers_ok_Nil [simp]: "observers_ok []"
  by (simp add: observers_ok_def)

lemma re_register_params_of:
  "params_of (re_register_params register e obs) oid =
     params_of obs oid @ (if oid = fst e then filter (\<lambda>p. register (op_uri p) oid (op_is_descendants p) = 0) (snd e) else [])"
proof -
  have "params_of (fold (re_register_param register k) ps obs) oid =
     params_of obs oid @ (if oid = k then filter (\<lambda>p. register (op_uri p) oid (op_is_descendants p) = 0) ps else [])" for k ps
  proof (induction ps arbitrary: obs)
    case (Cons p ps)
    then show ?case by (simp add: re_register_param_def)
  qed simp
  then show ?thesis by (simp add: re_register_params_def)
qed

lemma re_register_fold:
  "distinct (map fst es) \<Longrightarrow> params_of (fold (re_register_params register) es obs) oid =
     params_of obs oid @ (filter (\<lambda>p. register (op_uri p) oid (op_is_descendants p) = 0) (params_of es oid))"
proof (induction es arbitrary: obs)
  case Nil
  then show ?case by (simp add: params_of_def)
next
  case (Cons e es)
  have "params_of (e # es) oid = (if oid = fst e then snd e else params_of es oid)"
    by (cases e) (simp add: params_of_def)
  moreover have "oid = fst e \<Longrightarrow> params_of es oid = []" using Cons.prems
    by (simp add: params_of_def map_of_eq_None_iff [THEN iffD2])
  ultimately show ?case using Cons by (simp add: re_register_params_of)
qed


section \<open>The count of reconnections\<close>

lemma count_succ: "0 \<le> sint (c :: i32) \<Longrightarrow> \<not> MAX_RECONNECT \<le>s c \<Longrightarrow> sint (c + 1) = sint c + 1"
  using sint_arith32 [of c "sint c" 1] by (simp add: MAX_RECONNECT_def word_sle_eq)

lemma max_reconnect: "MAX_RECONNECT \<le>s c \<longleftrightarrow> 6 \<le> sint c"
  by (simp add: MAX_RECONNECT_def word_sle_eq)

lemma conn_ok_new [simp]: "conn_ok (connection_new_with_token_raw uri token w)"
  by (simp add: conn_ok_def conn_defs)

lemma disconnect_simps [simp]:
  "cn_reconnects (snd (disconnect cn)) = cn_reconnects cn" "cn_is_reconnect (snd (disconnect cn)) = cn_is_reconnect cn"
  "cn_freed (snd (disconnect cn)) = cn_freed cn" "cn_callback_active (snd (disconnect cn)) = cn_callback_active cn"
  "cn_dangling (snd (disconnect cn)) = cn_dangling cn" "cn_observers (snd (disconnect cn)) = cn_observers cn"
  "cn_is_invalid (snd (disconnect cn)) = cn_is_invalid cn" "cn_proxy (snd (disconnect cn)) = cn_proxy cn"
  by (simp_all add: disconnect_def Let_def)

lemma connect_done_observers:
  "observers_ok (cn_observers cn) \<Longrightarrow> observers_ok (cn_observers (snd (on_ability_connect_done register remote cn)))"
  by (simp add: on_ability_connect_done_def re_register_observer_ext_provider_def Let_def re_register_inv)

lemma connect_done_count:
  "rc_count (cn_reconnects (snd (on_ability_connect_done register remote cn))) =
     (if \<not> cn_is_invalid cn \<and> cn_is_reconnect cn then 0 else rc_count (cn_reconnects cn))
   \<and> cn_is_reconnect (snd (on_ability_connect_done register remote cn)) = (cn_is_reconnect cn \<and> cn_is_invalid cn)
   \<and> cn_freed (snd (on_ability_connect_done register remote cn)) = cn_freed cn
   \<and> cn_dangling (snd (on_ability_connect_done register remote cn)) = cn_dangling cn
   \<and> cn_is_invalid (snd (on_ability_connect_done register remote cn)) = cn_is_invalid cn
   \<and> cn_callback_active (snd (on_ability_connect_done register remote cn)) = cn_callback_active cn"
  by (simp add: on_ability_connect_done_def re_register_observer_ext_provider_def Let_def connection_info_default_def)

lemma conn_ok_connect_done: "conn_ok cn \<Longrightarrow> conn_ok (snd (on_ability_connect_done register remote cn))"
  using connect_done_count [of register remote cn] connect_done_observers [of cn register remote] by (auto simp: conn_ok_def)

lemma conn_ok_reconnect: "conn_ok cn \<Longrightarrow> conn_ok (snd (reconnect_ext_ability handle cn))"
  using count_succ [of "rc_count (cn_reconnects cn)"]
  by (auto simp: conn_ok_def reconnect_ext_ability_def delay_connect_ext_ability_def connect_ext_def store_handle_def max_reconnect
      simp flip: signed_eq_0_iff)

lemma reconnect_count:
  "conn_ok cn \<Longrightarrow> sint (rc_count (cn_reconnects (snd (reconnect_ext_ability handle cn)))) =
     sint (rc_count (cn_reconnects cn)) + int (length (fst (reconnect_ext_ability handle cn)))"
  using count_succ [of "rc_count (cn_reconnects cn)"]
  by (auto simp: conn_ok_def reconnect_ext_ability_def delay_connect_ext_ability_def connect_ext_def store_handle_def)

lemma conn_ok_updates:
  "conn_ok (cn\<lparr>cn_proxy := p\<rparr>) = conn_ok cn" "conn_ok (cn\<lparr>cn_remote_raw := raw\<rparr>) = conn_ok cn"
  "conn_ok (cn\<lparr>cn_handle := handle\<rparr>) = conn_ok cn" "conn_ok (cn\<lparr>cn_is_invalid := b\<rparr>) = conn_ok cn"
  "conn_ok (cn\<lparr>cn_tasks := n\<rparr>) = conn_ok cn"
  by (simp_all add: conn_ok_def)

lemma conn_ok_simple:
  assumes "conn_ok cn"
  shows "conn_ok (snd (disconnect cn))" "conn_ok (snd (connect_ext handle cn))" "conn_ok (snd (delayed_task handle cn))"
    "conn_ok (snd (drop_connection cn))"
  using assms
  by (simp_all add: disconnect_def connect_ext_def store_handle_def delayed_task_def drop_connection_def Let_def conn_ok_updates)
    (simp_all add: conn_ok_def)

lemma conn_do_ok: "conn_ok cn \<Longrightarrow> conn_ok (snd (conn_do fc reg ev cn))"
proof (induction fc reg ev cn rule: conn_do.induct)
  case (1 fc reg handle cn)
  then show ?case using conn_ok_simple(2) by (auto simp: get_data_share_proxy_start_def split: option.splits)
next
  case (2 fc reg raw cn)
  then show ?case by (auto simp: on_connect_ffi_def Let_def conn_ok_updates conn_ok_connect_done split: option.splits)
next
  case (3 fc reg handle cn)
  then show ?case by (auto simp: on_disconnect_ffi_def on_ability_disconnect_done_def conn_ok_updates conn_ok_reconnect)
qed (simp_all add: conn_ok_simple conn_ok_updates set_connect_invalid_def set_proxy_from_remote_def
    update_observer_exts_provider_map_def delete_observer_exts_provider_map_def, simp_all add: conn_ok_def)

lemma conn_do_count:
  assumes "conn_ok cn" "\<not> reconnected fc cn (ev, fst (conn_do fc reg ev cn))"
  shows "sint (rc_count (cn_reconnects (snd (conn_do fc reg ev cn)))) =
    sint (rc_count (cn_reconnects cn)) + int (reconnect_attempts (ev, fst (conn_do fc reg ev cn)))"
  using assms
proof (induction fc reg ev cn rule: conn_do.induct)
  case (2 fc reg raw cn)
  then show ?case by (auto simp: on_connect_ffi_def Let_def connect_done_count split: option.splits)
next
  case (3 fc reg handle cn)
  then show ?case
    using reconnect_count [of "cn\<lparr>cn_proxy := None, cn_remote_raw := 0\<rparr>" handle]
    by (auto simp: on_disconnect_ffi_def on_ability_disconnect_done_def conn_ok_updates)
qed (auto simp: get_data_share_proxy_start_def connect_ext_def store_handle_def delayed_task_def drop_connection_def Let_def
    set_connect_invalid_def set_proxy_from_remote_def update_observer_exts_provider_map_def
    delete_observer_exts_provider_map_def split: option.splits)

interpretation conn: attempt_counter "conn_step fc reg" conn_ok "\<lambda>cn. sint (rc_count (cn_reconnects cn))" 6
  reconnect_attempts "\<lambda>cn l. reconnected fc cn l" for fc reg
proof
  show "conn_ok cn'" if "conn_ok cn" "conn_step fc reg cn l cn'" for cn l cn'
    using that conn_do_ok [of cn fc reg "fst l"] by (cases l) (auto simp: conn_step_iff)
  show "0 \<le> sint (rc_count (cn_reconnects cn)) \<and> sint (rc_count (cn_reconnects cn)) \<le> 6" if "conn_ok cn" for cn :: "'a connection"
    using that by (simp add: conn_ok_def)
  show "sint (rc_count (cn_reconnects cn')) = sint (rc_count (cn_reconnects cn)) + int (reconnect_attempts l)"
    if "conn_ok cn" "conn_step fc reg cn l cn'" "\<not> reconnected fc cn l" for cn l cn'
    using that conn_do_count [of cn fc "fst l" reg] by (cases l) (auto simp: conn_step_iff)
qed


section \<open>Properties\<close>

lemma reachable_ok:
  "step_runs (conn_step fc reg) (connection_new_with_token_raw uri token w) ls cn \<Longrightarrow> conn_ok cn"
  by (rule step_runs_invariant [where P = conn_ok, OF _ conn_ok_new conn.ok_step])

lemma invalid_step:
  "cn_is_invalid cn \<Longrightarrow> conn_step fc reg cn l cn' \<Longrightarrow> cn_is_invalid cn' \<and> conn.quiet fc reg cn l cn'"
proof (cases l)
  case (Pair ev calls)
  assume inv: "cn_is_invalid cn" and st: "conn_step fc reg cn l cn'"
  then have "conn_do fc reg ev cn = (calls, cn')" by (simp add: Pair conn_step_iff)
  moreover have "cn_is_invalid (snd (conn_do fc reg ev cn))" using inv
    by (induction fc reg ev cn rule: conn_do.induct)
      (auto simp: get_data_share_proxy_start_def connect_ext_def store_handle_def delayed_task_def drop_connection_def Let_def
        set_connect_invalid_def set_proxy_from_remote_def update_observer_exts_provider_map_def
        delete_observer_exts_provider_map_def on_connect_ffi_def on_disconnect_ffi_def on_ability_disconnect_done_def
        reconnect_ext_ability_def delay_connect_ext_ability_def connect_done_count split: option.splits)
  ultimately show ?thesis using inv st by (cases ev) (auto simp: Pair conn.quiet_def)
qed

text \<open>C22: Reconnection is bounded. In whatever order the callbacks, the client's calls and the delayed threads come,
  between two connections that were established at most six reconnections are asked for, and the
  count the connection keeps is exactly how many.\<close>

theorem reconnects_bounded:
  assumes "step_runs (conn_step fc reg) (connection_new_with_token_raw uri token w) ls cn"
    and quiet: "step_runs (\<lambda>cn l cn'. conn_step fc reg cn l cn' \<and> \<not> reconnected fc cn l) cn ls' cn'"
  shows "int (sum_list (map reconnect_attempts ls')) \<le> 6 - sint (rc_count (cn_reconnects cn))
    \<and> sint (rc_count (cn_reconnects cn')) = sint (rc_count (cn_reconnects cn)) + int (sum_list (map reconnect_attempts ls'))"
proof -
  have q: "step_runs (conn.quiet fc reg) cn ls' cn'" using quiet by (simp add: conn.quiet_def [abs_def])
  show ?thesis
    using conn.quiet_bounded [OF q] conn.quiet_tally [OF q] reachable_ok [OF assms(1)] by simp
qed

text \<open>Runs as a function, for the examples.\<close>

fun conn_run :: "(u64 \<Rightarrow> 'r option) \<Rightarrow> register_answer \<Rightarrow> 'r conn_event list \<Rightarrow> 'r connection \<Rightarrow> (('r conn_event \<times> ext_call list) list \<times> 'r connection) option" where
  "conn_run fc reg [] cn = Some ([], cn)"
| "conn_run fc reg (ev # evs) cn =
     (if conn_enabled ev cn
      then let (calls, cn') = conn_do fc reg ev cn
           in map_option (\<lambda>(ls, cn''). ((ev, calls) # ls, cn'')) (conn_run fc reg evs cn')
      else None)"

lemma conn_run_runs: "conn_run fc reg evs cn = Some (ls, cn') \<Longrightarrow> step_runs (conn_step fc reg) cn ls cn'"
proof (induction evs arbitrary: cn ls)
  case (Cons ev evs)
  obtain calls cn1 where c: "conn_do fc reg ev cn = (calls, cn1)" by (cases "conn_do fc reg ev cn")
  then obtain ls1 where ls1: "conn_enabled ev cn" "conn_run fc reg evs cn1 = Some (ls1, cn')" "ls = (ev, calls) # ls1"
    using Cons.prems by (auto split: if_splits)
  have "conn_step fc reg cn (ev, calls) cn1" using c ls1(1) by (simp add: conn_step_iff)
  then show ?case using step_runs_append [OF Cons.IH [OF ls1(2)] step_runs_single] ls1(3) by simp
qed (auto intro: step_runs.intros)

definition example_remote :: "u64 \<Rightarrow> u64 option" where
  "example_remote raw = (if raw = 0 then None else Some raw)"

definition example_register :: register_answer where
  "example_register uri oid desc = (if uri = ''gone'' then 1 else 0)"

lemmas conn_eval = conn_enabled_def conn_defs on_connect_ffi_def on_disconnect_ffi_def on_ability_disconnect_done_def
  reconnect_ext_ability_def delay_connect_ext_ability_def connect_ext_def store_handle_def delayed_task_def drop_connection_def
  on_ability_connect_done_def disconnect_def set_connect_invalid_def get_data_share_proxy_start_def get_proxy_def
  example_remote_def max_reconnect

text \<open>An extension that is lost three times in a row.\<close>

definition lost :: "u64 connection" where
  "lost = snd (the (conn_run example_remote example_register [DisconnectCallback 8, DisconnectCallback 0, DisconnectCallback 0]
                     (connection_new ''datashare:///x'' 2)))"

lemma lost_eq:
  "lost = \<lparr>cn_uri = ''datashare:///x'', cn_token_raw = 0, cn_wait_time = 2, cn_proxy = None, cn_is_invalid = False, cn_is_reconnect = True,
     cn_callback_active = True, cn_reconnects = \<lparr>rc_count = 3, rc_first_time = 0, rc_prev_time = 0\<rparr>, cn_observers = [],
     cn_handle = 8, cn_remote_raw = 0, cn_tasks = 2, cn_freed = False, cn_dangling = False\<rparr>"
  by (simp add: lost_def conn_eval)

lemma lost_run:
  "\<exists>ls. step_runs (conn_step example_remote example_register) (connection_new_with_token_raw ''datashare:///x'' 0 2) ls lost"
  by (rule exI, rule conn_run_runs [where evs = "[DisconnectCallback 8, DisconnectCallback 0, DisconnectCallback 0]"])
    (simp add: lost_def conn_eval)

theorem reconnects_bounded_witness:
  "int (sum_list (map reconnect_attempts [(DisconnectCallback 0 :: u64 conn_event, [SpawnReconnect])])) \<le> 6 - sint (rc_count (cn_reconnects lost))"
proof -
  have "conn_step example_remote example_register lost (DisconnectCallback 0, [SpawnReconnect])
      (snd (on_disconnect_ffi 0 lost)) \<and> \<not> reconnected example_remote lost (DisconnectCallback 0, [SpawnReconnect])"
    by (simp add: conn_step_iff lost_eq conn_eval)
  then have q: "step_runs (\<lambda>cn l cn'. conn_step example_remote example_register cn l cn' \<and> \<not> reconnected example_remote cn l)
      lost [(DisconnectCallback 0, [SpawnReconnect])] (snd (on_disconnect_ffi 0 lost))"
    by (rule step_runs_single)
  obtain ls where run: "step_runs (conn_step example_remote example_register) (connection_new_with_token_raw ''datashare:///x'' 0 2) ls lost"
    using lost_run by blast
  show ?thesis using reconnects_bounded [OF run q] by (rule conjunct1)
qed


text \<open>C23: An invalid connection gives up. Once the client has marked a connection invalid, at most six reconnections are
  asked for in all the rest of its life, even if the extension answers; an answer is disconnected again.\<close>

theorem invalid_gives_up:
  assumes "step_runs (conn_step fc reg) (connection_new_with_token_raw uri token w) ls cn" and inv: "cn_is_invalid cn"
    and run: "step_runs (conn_step fc reg) cn ls' cn'"
  shows "sum_list (map reconnect_attempts ls') \<le> 6 \<and> cn_is_invalid cn'
    \<and> (cn_callback_active cn' \<and> fc raw \<noteq> None \<and> cn_handle cn' \<noteq> 0 \<longrightarrow>
         fst (on_connect_ffi fc reg raw cn') = [DisconnectExt (cn_handle cn')])"
proof -
  have ok: "conn_ok cn" using assms(1) reachable_ok by blast
  have q: "cn_is_invalid cn' \<and> step_runs (conn.quiet fc reg) cn ls' cn'"
    by (rule step_runs_mono [where P = cn_is_invalid, OF run inv]) (rule invalid_step)
  have "int (sum_list (map reconnect_attempts ls')) \<le> 6"
    using conn.quiet_bounded [OF conjunct2 [OF q] ok] conn.tally_bound [OF ok] by linarith
  then show ?thesis using q by (auto simp: on_connect_ffi_def on_ability_connect_done_def disconnect_def Let_def)
qed

theorem invalid_gives_up_witness:
  "fst (on_connect_ffi example_remote example_register 5 (lost\<lparr>cn_is_invalid := True\<rparr>)) = [DisconnectExt 8]"
proof -
  obtain ls where run: "step_runs (conn_step example_remote example_register) (connection_new_with_token_raw ''datashare:///x'' 0 2) ls lost"
    using lost_run by blast
  have "conn_step example_remote example_register lost (SetInvalid, []) (lost\<lparr>cn_is_invalid := True\<rparr>)"
    by (simp add: conn_step_iff lost_eq conn_eval)
  note run' = step_runs.runs_snoc [OF run this]
  have inv: "cn_is_invalid (lost\<lparr>cn_is_invalid := True\<rparr>)" by simp
  have "example_remote 5 \<noteq> None" by (simp add: example_remote_def)
  with invalid_gives_up [OF run' inv runs_nil, of 5] show ?thesis by (simp add: lost_eq)
qed

lemma loss_core:
  assumes "conn_ok cn" and "cn_callback_active cn"
  shows "let (calls, cn') = on_disconnect_ffi handle cn; n = sint (rc_count (cn_reconnects cn)) in
    0 \<le> n \<and> n \<le> 6 \<and> cn_proxy cn' = None \<and> cn_remote_raw cn' = 0 \<and> cn_observers cn' = cn_observers cn \<and> cn_is_reconnect cn'
    \<and> calls = (if n = 0 then [ConnectExt (cn_uri cn) (cn_token_raw cn)] else if n < 6 then [SpawnReconnect] else [])"
  using assms
  by (auto simp: conn_ok_def on_disconnect_ffi_def on_ability_disconnect_done_def reconnect_ext_ability_def max_reconnect
      delay_connect_ext_ability_def connect_ext_def store_handle_def Let_def signed_eq_0_iff split: prod.splits)

text \<open>What a lost connection does, for every connection that can be reached: the proxy is gone at once, the first loss
  asks for a connection immediately, the next five each start one delayed thread, and from then on nothing is asked
  for; the observers are kept.\<close>

theorem loss_handled:
  assumes "step_runs (conn_step fc reg) (connection_new_with_token_raw uri token w) ls cn" and "cn_callback_active cn"
  shows "let (calls, cn') = on_disconnect_ffi handle cn; n = sint (rc_count (cn_reconnects cn)) in
    0 \<le> n \<and> n \<le> 6 \<and> cn_proxy cn' = None \<and> cn_remote_raw cn' = 0 \<and> cn_observers cn' = cn_observers cn \<and> cn_is_reconnect cn'
    \<and> calls = (if n = 0 then [ConnectExt (cn_uri cn) (cn_token_raw cn)] else if n < 6 then [SpawnReconnect] else [])"
  by (rule loss_core [OF reachable_ok [OF assms(1)] assms(2)])

theorem loss_handled_witness:
  "fst (on_disconnect_ffi 0 lost) = [SpawnReconnect]"
proof -
  obtain ls where run: "step_runs (conn_step example_remote example_register) (connection_new_with_token_raw ''datashare:///x'' 0 2) ls lost"
    using lost_run by blast
  have "cn_callback_active lost" by (simp add: lost_eq)
  from loss_handled [OF run this, of 0] show ?thesis by (simp add: lost_eq Let_def split: prod.splits)
qed

text \<open>The calls that concern an observer; a call that registers nothing concerns them all.\<close>

primrec concerns :: "u64 \<Rightarrow> ext_call \<Rightarrow> bool" where
  "concerns oid (RegisterExt uri i d) \<longleftrightarrow> i = oid"
| "concerns oid (ConnectExt uri h) \<longleftrightarrow> True"
| "concerns oid (DisconnectExt h) \<longleftrightarrow> True"
| "concerns oid SpawnReconnect \<longleftrightarrow> True"

lemma concerns_calls:
  assumes "distinct (map fst es)"
  shows "filter (concerns oid) (concat (map (\<lambda>(i, ps). map (\<lambda>p. RegisterExt (op_uri p) i (op_is_descendants p)) ps) es)) =
    map (\<lambda>p. RegisterExt (op_uri p) oid (op_is_descendants p)) (params_of es oid)"
  using assms
proof (induction es)
  case (Cons e es)
  obtain i ps where e: "e = (i, ps)" by force
  have f: "filter (concerns oid) (map (\<lambda>p. RegisterExt (op_uri p) i (op_is_descendants p)) ps) =
      (if i = oid then map (\<lambda>p. RegisterExt (op_uri p) i (op_is_descendants p)) ps else [])"
    by (induction ps) auto
  have "i = oid \<Longrightarrow> params_of es oid = []"
    using Cons.prems e by (auto simp: params_of_def split: option.splits dest: map_of_SomeD intro: rev_image_eqI)
  then show ?case using Cons f e by (auto simp: params_of_def)
qed (simp add: params_of_def)

lemma reregisters_core:
  assumes ok: "conn_ok cn"
    and rec: "reconnected fc cn (ConnectCallback raw, calls)" and step: "conn_step fc reg cn (ConnectCallback raw, calls) cn'"
  shows "cn_proxy cn' = fc raw \<and> cn_reconnects cn' = connection_info_default \<and> \<not> cn_is_reconnect cn'
    \<and> (\<forall>oid. filter (concerns oid) calls =
           map (\<lambda>p. RegisterExt (op_uri p) oid (op_is_descendants p)) (params_of (cn_observers cn) oid))
    \<and> (\<forall>oid. params_of (cn_observers cn') oid =
           filter (\<lambda>p. reg (op_uri p) oid (op_is_descendants p) = 0) (params_of (cn_observers cn) oid))"
proof -
  have d: "distinct (map fst (cn_observers cn))" using ok by (simp add: conn_ok_def observers_ok_def)
  obtain r where r: "fc raw = Some r" using rec by auto
  have c: "on_connect_ffi fc reg raw cn = (calls, cn')" using step by (simp add: conn_step_iff)
  then have calls: "calls = fst (re_register_observer_ext_provider reg cn)"
    and cn': "cn_proxy cn' = fc raw" "cn_reconnects cn' = connection_info_default" "\<not> cn_is_reconnect cn'"
      "cn_observers cn' = fold (re_register_params reg) (cn_observers cn) []"
    using rec r by (auto simp: on_connect_ffi_def on_ability_connect_done_def re_register_observer_ext_provider_def Let_def)
  have "filter (concerns oid) calls = map (\<lambda>p. RegisterExt (op_uri p) oid (op_is_descendants p)) (params_of (cn_observers cn) oid)" for oid
    using concerns_calls [OF d, of oid] by (simp add: calls re_register_observer_ext_provider_def)
  moreover have "params_of [] oid = []" for oid by (simp add: params_of_def)
  ultimately show ?thesis using cn' re_register_fold [OF d] by simp
qed

text \<open>C24: A reconnection registers again exactly what was registered. For every observer the system is asked exactly once for each
  registration the connection recorded, in their order, and for nothing else; those whose registration succeeds are
  kept, with their order, and the count starts again. (The order of the observers among themselves is that of a hash map.)\<close>

theorem reconnection_reregisters:
  assumes "step_runs (conn_step fc reg) (connection_new_with_token_raw uri token w) ls cn"
    and rec: "reconnected fc cn (ConnectCallback raw, calls)" and step: "conn_step fc reg cn (ConnectCallback raw, calls) cn'"
  shows "cn_proxy cn' = fc raw \<and> cn_reconnects cn' = connection_info_default \<and> \<not> cn_is_reconnect cn'
    \<and> (\<forall>oid. filter (concerns oid) calls =
           map (\<lambda>p. RegisterExt (op_uri p) oid (op_is_descendants p)) (params_of (cn_observers cn) oid))
    \<and> (\<forall>oid. params_of (cn_observers cn') oid =
           filter (\<lambda>p. reg (op_uri p) oid (op_is_descendants p) = 0) (params_of (cn_observers cn) oid))"
  by (rule reregisters_core [OF reachable_ok [OF assms(1)] rec step])

definition example_conn :: "u64 connection" where
  "example_conn = snd (the (conn_run example_remote example_register
     [ConnectCallback 4, UpdateObserver ''a'' 1 True, UpdateObserver ''gone'' 1 False, UpdateObserver ''gone'' 2 False, DisconnectCallback 8]
     (connection_new ''datashare:///x'' 2)))"

lemmas observers_eval = update_observer_exts_provider_map_def update_observers_def params_of_def re_register_observer_ext_provider_def
  re_register_params_def re_register_param_def example_register_def

lemma example_conn_run:
  "\<exists>ls. step_runs (conn_step example_remote example_register) (connection_new_with_token_raw ''datashare:///x'' 0 2) ls example_conn"
  by (rule exI, rule conn_run_runs [where evs = "[ConnectCallback 4, UpdateObserver ''a'' 1 True, UpdateObserver ''gone'' 1 False,
        UpdateObserver ''gone'' 2 False, DisconnectCallback 8]"])
    (simp add: example_conn_def conn_eval observers_eval)

lemma example_conn_params:
  "params_of (cn_observers example_conn) 1 = [\<lparr>op_uri = ''a'', op_is_descendants = True\<rparr>, \<lparr>op_uri = ''gone'', op_is_descendants = False\<rparr>]"
  "params_of (cn_observers example_conn) 2 = [\<lparr>op_uri = ''gone'', op_is_descendants = False\<rparr>]"
  by (simp_all add: example_conn_def conn_eval observers_eval)

theorem reconnection_reregisters_witness:
  "\<exists>calls cn'. conn_step example_remote example_register example_conn (ConnectCallback 5, calls) cn'
     \<and> params_of (cn_observers cn') 1 = [\<lparr>op_uri = ''a'', op_is_descendants = True\<rparr>] \<and> params_of (cn_observers cn') 2 = []"
proof -
  obtain ls where run: "step_runs (conn_step example_remote example_register) (connection_new_with_token_raw ''datashare:///x'' 0 2) ls example_conn"
    using example_conn_run by blast
  obtain calls cn' where c: "on_connect_ffi example_remote example_register 5 example_conn = (calls, cn')"
    by (cases "on_connect_ffi example_remote example_register 5 example_conn")
  then have step: "conn_step example_remote example_register example_conn (ConnectCallback 5, calls) cn'"
    by (simp add: conn_step_iff) (simp add: example_conn_def conn_eval observers_eval)
  have rec: "reconnected example_remote example_conn (ConnectCallback 5, calls)"
    by (simp add: example_conn_def conn_eval observers_eval)
  have "params_of (cn_observers cn') 1 = [\<lparr>op_uri = ''a'', op_is_descendants = True\<rparr>] \<and> params_of (cn_observers cn') 2 = []"
    using reconnection_reregisters [OF run rec step] by (simp add: example_conn_params example_register_def)
  then show ?thesis using step by blast
qed


text \<open>What a delayed thread can do to a connection that is gone. A connection that is lost twice and dropped within the ten seconds
  is read after it was freed; a connection with no thread pending when it is dropped never is.\<close>

theorem delayed_thread_outlives:
  "(\<exists>ls cn. step_runs (conn_step fc reg) (connection_new_with_token_raw uri token w) ls (cn :: 'r connection) \<and> cn_dangling cn)
   \<and> (\<forall>ls cn ls' (cn' :: 'r connection). step_runs (conn_step fc reg) (connection_new_with_token_raw uri token w) ls cn
        \<longrightarrow> cn_tasks cn = 0 \<longrightarrow> step_runs (conn_step fc reg) (snd (drop_connection cn)) ls' cn' \<longrightarrow> \<not> cn_freed cn \<longrightarrow> \<not> cn_dangling cn')"
proof (intro conjI allI impI)
  let ?evs = "[DisconnectCallback 0, DisconnectCallback 0, DropConnection, TaskWakes 7 :: 'r conn_event]"
  have "conn_run fc reg ?evs (connection_new_with_token_raw uri token w) \<noteq> None
     \<and> cn_dangling (snd (the (conn_run fc reg ?evs (connection_new_with_token_raw uri token w))))"
    by (simp add: conn_eval)
  then show "\<exists>ls cn. step_runs (conn_step fc reg) (connection_new_with_token_raw uri token w) ls (cn :: 'r connection) \<and> cn_dangling cn"
    using conn_run_runs by fastforce
next
  fix ls and cn cn' :: "'r connection" and ls'
  assume r: "step_runs (conn_step fc reg) (connection_new_with_token_raw uri token w) ls cn" "cn_tasks cn = 0" "\<not> cn_freed cn"
    and r': "step_runs (conn_step fc reg) (snd (drop_connection cn)) ls' cn'"
  have "\<not> cn_dangling cn" using reachable_ok [OF r(1)] r(3) by (simp add: conn_ok_def)
  then have i: "cn_freed (snd (drop_connection cn)) \<and> cn_tasks (snd (drop_connection cn)) = 0 \<and> \<not> cn_dangling (snd (drop_connection cn))"
    using r(2) by (simp add: drop_connection_def)
  have "cn_freed cn' \<and> cn_tasks cn' = 0 \<and> \<not> cn_dangling cn'"
  proof (rule step_runs_invariant [where P = "\<lambda>cn. cn_freed cn \<and> cn_tasks cn = 0 \<and> \<not> cn_dangling cn", OF r' i])
    show "cn_freed s' \<and> cn_tasks s' = 0 \<and> \<not> cn_dangling s'"
      if "cn_freed s \<and> cn_tasks s = 0 \<and> \<not> cn_dangling s" "conn_step fc reg s l s'" for s l and s' :: "'r connection"
      using that by (cases l) (auto simp: conn_step_iff conn_enabled_def split: conn_event.splits)
  qed
  then show "\<not> cn_dangling cn'" by simp
qed

theorem delayed_thread_outlives_witness:
  "\<not> cn_dangling (snd (drop_connection (connection_new_with_token_raw ''u'' 0 2 :: u64 connection)))"
proof -
  let ?cn = "connection_new_with_token_raw ''u'' 0 2 :: u64 connection"
  have "cn_tasks ?cn = 0" "\<not> cn_freed ?cn" by (simp_all add: conn_defs)
  then show ?thesis
    using delayed_thread_outlives [of example_remote example_register "''u''" 0 2]
      runs_nil [of "conn_step example_remote example_register"] by blast
qed

text \<open>An explicit disconnect does not last. A connected, valid connection that the client disconnects asks for the
  disconnection once; but it keeps serving the proxy of the connection it gave up, and when the ability manager reports
  the disconnection it connects again, or starts a thread that will.\<close>

theorem disconnect_undone:
  assumes "step_runs (conn_step fc reg) (connection_new_with_token_raw uri token w) ls cn"
    and "cn_proxy cn = Some r" "cn_handle cn \<noteq> 0" "cn_callback_active cn"
  shows "let (calls, cn1) = disconnect cn in
    calls = [DisconnectExt (cn_handle cn)] \<and> fst (disconnect cn1) = []
    \<and> fst (get_data_share_proxy_start handle cn1) = Some r
    \<and> (rc_count (cn_reconnects cn) = 0 \<longrightarrow> fst (on_disconnect_ffi handle cn1) = [ConnectExt (cn_uri cn) (cn_token_raw cn)])
    \<and> (rc_count (cn_reconnects cn) \<noteq> 0 \<and> rc_count (cn_reconnects cn) \<noteq> 6 \<longrightarrow> fst (on_disconnect_ffi handle cn1) = [SpawnReconnect])"
proof -
  have "rc_count (cn_reconnects cn) \<noteq> 6 \<Longrightarrow> sint (rc_count (cn_reconnects cn)) \<noteq> 6"
    using signed_word_eqI [of "rc_count (cn_reconnects cn)" 6] by auto
  then show ?thesis using assms(2-4) reachable_ok [OF assms(1)]
    by (auto simp: conn_ok_def disconnect_def get_data_share_proxy_start_def get_proxy_def on_disconnect_ffi_def on_ability_disconnect_done_def
        reconnect_ext_ability_def delay_connect_ext_ability_def connect_ext_def max_reconnect Let_def)
qed

text \<open>The wait for a connection lasts the seconds it was given, when they are not negative; a negative number waits for
  more than 500 billion years.\<close>

theorem wait_time_bounds:
  "(0 \<le> sint w \<longrightarrow> uint (wait_timeout_secs (connection_new_with_token_raw uri token w)) = sint w)
   \<and> (sint w < 0 \<longrightarrow> 2 ^ 64 - 2 ^ 31 \<le> uint (wait_timeout_secs (connection_new_with_token_raw uri token w)))"
proof -
  have r: "- (2 ^ 31) \<le> sint w" "sint w < 2 ^ 31" using sint_range_size [of w] by (simp_all add: word_size)
  have len: "LENGTH(64) = 64" by simp
  have u: "uint (scast w :: u64) = sint w mod 2 ^ 64" by (simp only: scast_eq uint_word_of_int len)
  have "0 \<le> sint w \<Longrightarrow> sint w mod 2 ^ 64 = sint w" using r by (intro mod_pos_pos_trivial) auto
  moreover have "sint w mod 2 ^ 64 = sint w + 2 ^ 64" if "sint w < 0"
  proof -
    have "sint w mod 2 ^ 64 = (sint w + 2 ^ 64) mod 2 ^ 64" by simp
    also have "\<dots> = sint w + 2 ^ 64" using r that by (intro mod_pos_pos_trivial) auto
    finally show ?thesis .
  qed
  ultimately show ?thesis using r(1) unfolding wait_timeout_secs_def conn_defs connection.simps u by auto
qed


theorem wait_time_bounds_witness:
  "uint (wait_timeout_secs (connection_new_with_token_raw ''u'' 0 2)) = 2
   \<and> 2 ^ 64 - 2 ^ 31 \<le> uint (wait_timeout_secs (connection_new_with_token_raw ''u'' 0 (-1)))"
  using wait_time_bounds [of 2 "''u''" 0] wait_time_bounds [of "-1" "''u''" 0] by simp

definition connected :: "u64 connection" where
  "connected = snd (the (conn_run example_remote example_register [GetProxyStart 8, ConnectCallback 4]
                          (connection_new_with_token_raw ''datashare:///x'' 3 2)))"

lemma connected_run:
  "\<exists>ls. step_runs (conn_step example_remote example_register) (connection_new_with_token_raw ''datashare:///x'' 3 2) ls connected"
  by (rule exI, rule conn_run_runs [where evs = "[GetProxyStart 8, ConnectCallback 4]"]) (simp add: connected_def conn_eval)

theorem disconnect_undone_witness:
  "let cn1 = snd (disconnect connected) in
     fst (get_data_share_proxy_start 0 cn1) = Some 4 \<and> fst (on_disconnect_ffi 0 cn1) = [ConnectExt ''datashare:///x'' 3]"
proof -
  obtain ls where run: "step_runs (conn_step example_remote example_register) (connection_new_with_token_raw ''datashare:///x'' 3 2) ls connected"
    using connected_run by blast
  have c: "cn_proxy connected = Some 4" "cn_handle connected \<noteq> 0" "cn_callback_active connected" "cn_uri connected = ''datashare:///x''"
    "cn_token_raw connected = 3" "rc_count (cn_reconnects connected) = 0"
    by (simp_all add: connected_def conn_eval)
  show ?thesis using disconnect_undone [OF run c(1-3), of 0] c(4-6) by (simp add: Let_def split_def)
qed

end
