(* ===== verification/Call_Reporter.thy ===== *)
theory Call_Reporter
  imports Uri_Utils
begin

text \<open>
  \<open>call_reporter.rs\<close>: how often each function was called, and whether it is called too often. The
  boot clock is an input (a negative reading stands for its failure); every call reads it at the start
  and, after the lock is released, once more. \<open>StringUtils::anonymous\<close> can panic, and a panic while the
  mutex is held poisons it, so that every later call panics.
\<close>

section \<open>State\<close>

definition RESET_COUNT_THRESHOLD :: int where "RESET_COUNT_THRESHOLD = 100"
definition ACCESS_COUNT_THRESHOLD :: int where "ACCESS_COUNT_THRESHOLD = 3000"
definition TIME_THRESHOLD :: int where "TIME_THRESHOLD = 30000"

lemmas thresholds = RESET_COUNT_THRESHOLD_def ACCESS_COUNT_THRESHOLD_def TIME_THRESHOLD_def

record call_info =
  ci_count :: i32
  ci_total_count :: i32
  ci_first_time :: i64
  ci_start_time :: i64
  ci_log_print_flag :: bool

definition call_info_default :: call_info where
  "call_info_default = \<lparr>ci_count = 0, ci_total_count = 0, ci_first_time = 0, ci_start_time = 0, ci_log_print_flag = False\<rparr>"

type_synonym call_counts = "string \<Rightarrow> call_info option"

record call_reporter =
  cr_counts :: call_counts
  cr_poisoned :: bool

definition call_reporter_new :: call_reporter where
  "call_reporter_new = \<lparr>cr_counts = (\<lambda>_. None), cr_poisoned = False\<rparr>"

datatype call_log =
    LogOverThreshold string i64 string
  | LogCallThreshold string i64 i64 string
  | LogTooFrequent string i64 i64 string

section \<open>Counting\<close>

text \<open>The number of thresholds passed, the first time of the window of 100 calls, whether the access
  threshold is reached, and the new counts.\<close>

definition update_call_counts_locked :: "i64 \<Rightarrow> call_counts \<Rightarrow> string \<Rightarrow> (i32 \<times> i64 \<times> bool) \<times> call_counts" where
  "update_call_counts_locked curr_time counts f =
     (if sint curr_time < 0 then ((0, 0, False), counts(f := None))
      else
        let ci = (case counts f of Some ci \<Rightarrow> ci | None \<Rightarrow> call_info_default);
            first = (if ci_count ci = 0 then curr_time else ci_first_time ci);
            call_count = ci_count ci + 1;
            window = (sint call_count mod RESET_COUNT_THRESHOLD = 0);
            over_count = (if \<not> window then 0 else if sint (curr_time - first) \<le> TIME_THRESHOLD then 2 else 1);
            start = (if ci_total_count ci = 0 then curr_time else ci_start_time ci);
            expired = (TIME_THRESHOLD \<le> sint (curr_time - start) \<or> sint curr_time < sint start);
            total = (if expired then 0 else ci_total_count ci) + 1
        in ((over_count, if window then first else 0, ACCESS_COUNT_THRESHOLD \<le> sint total),
            counts(f \<mapsto> \<lparr>ci_count = (if window then 0 else call_count), ci_total_count = total, ci_first_time = first,
                        ci_start_time = (if expired then curr_time else start),
                        ci_log_print_flag = (if expired then False else ci_log_print_flag ci)\<rparr>)))"

text \<open>\<open>count\<close>: the answer (\<open>None\<close> is a panic), what is logged, and the reporter. \<open>curr_time\<close> and \<open>now\<close> are the
  two readings of the clock.\<close>

definition count_logs :: "i64 \<Rightarrow> string \<Rightarrow> i32 \<Rightarrow> i64 \<Rightarrow> string \<Rightarrow> call_log list" where
  "count_logs now f over_count first anonymous_uri =
     (if 0 < sint over_count then [LogCallThreshold f first now anonymous_uri] else [])
     @ (if 1 < sint over_count then [LogTooFrequent f first now anonymous_uri] else [])"

definition count_call :: "i64 \<Rightarrow> i64 \<Rightarrow> string \<Rightarrow> string \<Rightarrow> call_reporter \<Rightarrow> bool option \<times> call_log list \<times> call_reporter" where
  "count_call curr_time now f uri cr =
     (if cr_poisoned cr then (None, [], cr)
      else
        let ((over_count, first, over), counts) = update_call_counts_locked curr_time (cr_counts cr) f;
            unlogged = (case counts f of Some ci \<Rightarrow> over \<and> \<not> ci_log_print_flag ci | None \<Rightarrow> False);
            counts' = (case counts f of
                         Some ci \<Rightarrow> if unlogged then counts(f \<mapsto> ci\<lparr>ci_log_print_flag := True\<rparr>) else counts
                       | None \<Rightarrow> counts);
            start = (case counts f of Some ci \<Rightarrow> ci_start_time ci | None \<Rightarrow> 0)
        in if unlogged \<and> anonymous uri = None then (None, [], \<lparr>cr_counts = counts', cr_poisoned = True\<rparr>)
           else
             let logs = (if unlogged then [LogOverThreshold f start (the (anonymous uri))] else []);
                 cr' = cr\<lparr>cr_counts := counts'\<rparr>
             in if sint now < 0 then (Some over, logs, cr')
                else case anonymous uri of
                       None \<Rightarrow> (None, logs, cr')
                     | Some a \<Rightarrow> (Some over, logs @ count_logs now f over_count first a, cr'))"

section \<open>Runs\<close>

text \<open>A run of calls, each with its two readings of the clock, its function and its URI.\<close>

type_synonym call = "i64 \<times> i64 \<times> string \<times> string"

definition run_calls :: "call list \<Rightarrow> call_reporter \<Rightarrow> call_reporter" where
  "run_calls cs cr = fold (\<lambda>(t, now, f, uri) cr. snd (snd (count_call t now f uri cr))) cs cr"

text \<open>The times at which a function was counted, oldest first.\<close>

definition times_of :: "string \<Rightarrow> call list \<Rightarrow> i64 list" where
  "times_of f cs = map fst (filter (\<lambda>(t, now, g, uri). g = f) cs)"

definition within_window :: "i64 list \<Rightarrow> bool" where
  "within_window ts \<longleftrightarrow> (\<forall>a \<in> set ts. \<forall>b \<in> set ts. sint a - sint b < TIME_THRESHOLD)"

text \<open>What the reporter knows of a function: its count is that of the latest calls, which lie in one window.\<close>

definition counted :: "i64 list \<Rightarrow> call_info \<Rightarrow> bool" where
  "counted ts ci \<longleftrightarrow>
     (\<exists>n. sint (ci_total_count ci) = int n \<and> 0 < n \<and> n \<le> length ts \<and> 0 \<le> sint (ci_start_time ci)
        \<and> (\<forall>t \<in> set (drop (length ts - n) ts). sint (ci_start_time ci) \<le> sint t \<and> sint t - sint (ci_start_time ci) < TIME_THRESHOLD))"

definition reporter_ok :: "call list \<Rightarrow> call_reporter \<Rightarrow> bool" where
  "reporter_ok cs cr \<longleftrightarrow> cr_poisoned cr \<or> (\<forall>f ci. cr_counts cr f = Some ci \<longrightarrow> counted (times_of f cs) ci)"

lemma sint_diff64:
  assumes "0 \<le> sint (a :: i64)" "0 \<le> sint (b :: i64)"
  shows "sint (a - b) = sint a - sint b"
proof -
  have r: "sint a < 2 ^ 63" "sint b < 2 ^ 63" using sint_range_size [of a] sint_range_size [of b] by (simp_all add: word_size)
  have "a - b = word_of_int (sint a - sint b)" by (simp flip: wi_hom_sub)
  then have "sint (a - b) = signed_take_bit 63 (sint a - sint b)" by (simp only: sint_sbintrunc') simp
  then show ?thesis using r assms by (simp add: signed_take_bit_int_eq_self_iff)
qed

lemma sint_Suc32: "sint (x :: i32) = int n \<Longrightarrow> n < 2 ^ 31 - 1 \<Longrightarrow> sint (x + 1) = int (Suc n)"
  using sint_arith32 [of x "int n" 1] by simp

lemma update_counted:
  assumes old: "\<And>ci. counts f = Some ci \<Longrightarrow> counted ts ci" and small: "length ts < 2 ^ 31 - 1" and t: "0 \<le> sint t"
    and up: "update_call_counts_locked t counts f = ((oc, first, over), counts')"
  obtains ci where "counts' f = Some ci" "counted (ts @ [t]) ci" "over \<longleftrightarrow> 3000 \<le> sint (ci_total_count ci)"
proof -
  define ci0 where "ci0 = (case counts f of Some ci \<Rightarrow> ci | None \<Rightarrow> call_info_default)"
  define start where "start = (if ci_total_count ci0 = 0 then t else ci_start_time ci0)"
  define expired where "expired = (TIME_THRESHOLD \<le> sint (t - start) \<or> sint t < sint start)"
  obtain ci where ci: "counts' f = Some ci" "ci_total_count ci = (if expired then 0 else ci_total_count ci0) + 1"
    "ci_start_time ci = (if expired then t else start)" "over \<longleftrightarrow> 3000 \<le> sint (ci_total_count ci)"
    using up t unfolding update_call_counts_locked_def Let_def ci0_def [symmetric] start_def [symmetric] expired_def [symmetric]
    by (auto simp: ACCESS_COUNT_THRESHOLD_def)
  have "counted (ts @ [t]) ci"
  proof (cases "expired \<or> ci_total_count ci0 = 0")
    case True
    then have "ci_total_count ci = 1" "ci_start_time ci = t" using ci by (auto simp: start_def)
    then show ?thesis using t unfolding counted_def by (intro exI [of _ 1]) (simp add: thresholds)
  next
    case False
    then obtain c where c: "counts f = Some c" "ci0 = c" by (cases "counts f") (auto simp: ci0_def call_info_default_def)
    from old [OF c(1)] obtain n where n: "sint (ci_total_count c) = int n" "0 < n" "n \<le> length ts" "0 \<le> sint (ci_start_time c)"
      "\<forall>t \<in> set (drop (length ts - n) ts). sint (ci_start_time c) \<le> sint t \<and> sint t - sint (ci_start_time c) < TIME_THRESHOLD"
      unfolding counted_def by blast
    have st: "start = ci_start_time c" using False c by (simp add: start_def)
    then have "sint (ci_start_time c) \<le> sint t" "sint t - sint (ci_start_time c) < TIME_THRESHOLD"
      using False n(4) t sint_diff64 [of t start] by (auto simp: expired_def)
    moreover have "sint (ci_total_count ci) = int (Suc n)" using ci(2) False c(2) n(1,3) small sint_Suc32 by simp
    ultimately show ?thesis
      using n(2-5) ci(3) False st unfolding counted_def by (intro exI [of _ "Suc n"]) auto
  qed
  then show ?thesis using that ci by blast
qed

lemma update_other: "g \<noteq> f \<Longrightarrow> update_call_counts_locked t counts f = (r, counts') \<Longrightarrow> counts' g = counts g"
  by (auto simp: update_call_counts_locked_def Let_def split: if_splits)

lemma counted_log [simp]: "counted ts (ci\<lparr>ci_log_print_flag := b\<rparr>) = counted ts ci"
  by (simp add: counted_def)

lemma count_call_counts:
  assumes "\<not> cr_poisoned cr" "update_call_counts_locked t (cr_counts cr) f = (r, counts)" "count_call t now f uri cr = (res, logs, cr')"
  shows "cr_counts cr' g = counts g \<or> (\<exists>ci. counts g = Some ci \<and> cr_counts cr' g = Some (ci\<lparr>ci_log_print_flag := True\<rparr>))"
  using assms by (cases r) (auto simp: count_call_def Let_def split: option.splits if_splits)

lemma times_of_snoc: "times_of g (cs @ [(t, now, f, uri)]) = (if g = f then times_of g cs @ [t] else times_of g cs)"
  by (simp add: times_of_def)

lemma count_call_poisoned:
  "cr_poisoned cr \<Longrightarrow> count_call t now f uri cr = (None, [], cr)"
  by (simp add: count_call_def)

lemma length_times_of: "length (times_of f cs) \<le> length cs"
  by (simp add: times_of_def)

lemma count_call_ok:
  assumes ok: "reporter_ok cs cr" and small: "length cs < 2 ^ 31 - 1" and c: "count_call t now f uri cr = (res, logs, cr')"
  shows "reporter_ok (cs @ [(t, now, f, uri)]) cr'"
proof (cases "cr_poisoned cr")
  case True
  then show ?thesis using c count_call_poisoned by (auto simp: reporter_ok_def)
next
  case False
  obtain oc first over counts where up: "update_call_counts_locked t (cr_counts cr) f = ((oc, first, over), counts)"
    by (metis prod_cases3 surj_pair)
  have counts: "counted (times_of g (cs @ [(t, now, f, uri)])) ci" if g: "counts g = Some ci" for g ci
  proof (cases "g = f")
    case True
    have "0 \<le> sint t" using g up True by (auto simp: update_call_counts_locked_def split: if_splits)
    then obtain ci' where "counts f = Some ci'" "counted (times_of f cs @ [t]) ci'"
      using update_counted [OF _ _ _ up, of "times_of f cs"] ok False small length_times_of [of f cs] by (auto simp: reporter_ok_def)
    then show ?thesis using g True by (simp add: times_of_snoc)
  next
    case other: False
    then show ?thesis using g ok False update_other [OF other up] by (simp add: reporter_ok_def times_of_snoc)
  qed
  have "counted (times_of g (cs @ [(t, now, f, uri)])) ci" if "cr_counts cr' g = Some ci" for g ci
    using count_call_counts [OF False up c, of g] that counts by auto
  then show ?thesis by (simp add: reporter_ok_def)
qed

lemma run_calls_snoc: "run_calls (cs @ [(t, now, f, uri)]) cr = snd (snd (count_call t now f uri (run_calls cs cr)))"
  by (simp add: run_calls_def)

lemma run_calls_ok: "length cs < 2 ^ 31 \<Longrightarrow> reporter_ok cs (run_calls cs call_reporter_new)"
proof (induction cs rule: rev_induct)
  case (snoc c cs)
  obtain t now f uri where c: "c = (t, now, f, uri)" by (metis prod_cases4)
  obtain res logs cr' where "count_call t now f uri (run_calls cs call_reporter_new) = (res, logs, cr')" by (metis prod_cases3)
  then show ?case using snoc c count_call_ok [of cs "run_calls cs call_reporter_new"] by (simp add: run_calls_snoc)
qed (simp add: run_calls_def reporter_ok_def call_reporter_new_def)

text \<open>C21: The rate limit is sound. Whenever a call is reported as one too many, whatever calls of whatever functions
  came before and however the clock jumped, its function was called at least 3000 times, and the latest 3000
  calls of it all lie within less than 30 seconds.\<close>

theorem rate_limit_sound:
  assumes len: "length cs < 2 ^ 31 - 1"
    and c: "count_call t now f uri (run_calls cs call_reporter_new) = (Some True, logs, cr)"
  shows "let ts = times_of f cs @ [t] in 3000 \<le> length ts \<and> within_window (drop (length ts - 3000) ts)"
proof -
  let ?cr = "run_calls cs call_reporter_new" and ?ts = "times_of f cs @ [t]"
  obtain oc first over counts where up: "update_call_counts_locked t (cr_counts ?cr) f = ((oc, first, over), counts)"
    by (metis prod_cases3 surj_pair)
  have np: "\<not> cr_poisoned ?cr" using c by (auto simp: count_call_def)
  have over: "over" using c up np by (auto simp: count_call_def Let_def split: option.splits if_splits)
  then have "0 \<le> sint t" using up by (auto simp: update_call_counts_locked_def split: if_splits)
  then obtain ci where ci: "counts f = Some ci" "counted ?ts ci" "3000 \<le> sint (ci_total_count ci)"
    using update_counted [OF _ _ _ up, of "times_of f cs"] run_calls_ok [of cs] np len length_times_of [of f cs] over
    by (auto simp: reporter_ok_def)
  then obtain n where n: "3000 \<le> n" "n \<le> length ?ts"
    "\<forall>t \<in> set (drop (length ?ts - n) ?ts). sint (ci_start_time ci) \<le> sint t \<and> sint t - sint (ci_start_time ci) < TIME_THRESHOLD"
    unfolding counted_def by auto
  have "set (drop (length ?ts - 3000) ?ts) \<subseteq> set (drop (length ?ts - n) ?ts)"
    by (rule set_drop_subset_set_drop) (use n(1) in simp)
  then have "within_window (drop (length ?ts - 3000) ?ts)"
    using n(3) unfolding within_window_def by (smt (verit) subset_iff)
  then show ?thesis using n(1,2) by (simp add: Let_def)
qed


text \<open>The other direction: a function whose calls all lie in the 30 seconds after its first one.\<close>

definition burst :: "i64 list \<Rightarrow> bool" where
  "burst ts \<longleftrightarrow> (\<forall>t \<in> set ts. 0 \<le> sint (hd ts) \<and> sint (hd ts) \<le> sint t \<and> sint t - sint (hd ts) < TIME_THRESHOLD)"

definition counts_exactly :: "string \<Rightarrow> i64 list \<Rightarrow> call_counts \<Rightarrow> bool" where
  "counts_exactly f ts counts \<longleftrightarrow>
     (case counts f of
        None \<Rightarrow> ts = []
      | Some ci \<Rightarrow> ts \<noteq> [] \<and> sint (ci_total_count ci) = int (length ts) \<and> ci_start_time ci = hd ts)"

lemma burst_snocD: "burst (ts @ [t]) \<Longrightarrow> burst ts"
  by (cases ts) (auto simp: burst_def)

lemma update_burst:
  assumes ex: "counts_exactly f ts counts" and b: "burst (ts @ [t])" and small: "length ts < 2 ^ 31 - 1"
    and up: "update_call_counts_locked t counts f = ((oc, first, over), counts')"
  shows "counts_exactly f (ts @ [t]) counts' \<and> (over \<longleftrightarrow> 2999 \<le> length ts)"
proof (cases "counts f")
  case None
  have "0 \<le> sint t" "ts = []" using ex None b by (auto simp: counts_exactly_def burst_def)
  then show ?thesis using up None
    by (auto simp: update_call_counts_locked_def Let_def counts_exactly_def thresholds call_info_default_def)
next
  case (Some ci)
  have ci: "ts \<noteq> []" "sint (ci_total_count ci) = int (length ts)" "ci_start_time ci = hd ts"
    using ex Some by (simp_all add: counts_exactly_def)
  have t: "0 \<le> sint (hd ts)" "sint (hd ts) \<le> sint t" "sint t - sint (hd ts) < TIME_THRESHOLD"
    using b ci(1) by (auto simp: burst_def)
  have nz: "ci_total_count ci \<noteq> 0" using ci(1,2) by auto
  have "sint (ci_total_count ci + 1) = int (Suc (length ts))" using ci(2) small sint_Suc32 by simp
  then show ?thesis using up Some ci t nz sint_diff64 [of t "hd ts"]
    by (auto simp: update_call_counts_locked_def Let_def counts_exactly_def ACCESS_COUNT_THRESHOLD_def)
qed

lemma count_call_result:
  assumes "\<not> cr_poisoned cr" "anonymous uri \<noteq> None" "update_call_counts_locked t (cr_counts cr) f = ((oc, first, over), counts)"
  shows "fst (count_call t now f uri cr) = Some over \<and> \<not> cr_poisoned (snd (snd (count_call t now f uri cr)))"
  using assms by (auto simp: count_call_def Let_def split: option.splits)

lemma count_call_exactly:
  assumes np: "\<not> cr_poisoned cr" and up: "update_call_counts_locked t (cr_counts cr) f = (r, counts)" and ex: "counts_exactly g ts counts"
  shows "counts_exactly g ts (cr_counts (snd (snd (count_call t now f uri cr))))"
proof -
  obtain res logs cr' where c: "count_call t now f uri cr = (res, logs, cr')" by (metis prod_cases3)
  show ?thesis using count_call_counts [OF np up c, of g] ex c by (auto simp: counts_exactly_def split: option.splits)
qed

lemma counts_exactly_other: "g \<noteq> f \<Longrightarrow> update_call_counts_locked t counts f = (r, counts') \<Longrightarrow> counts_exactly g ts counts' = counts_exactly g ts counts"
  by (simp add: counts_exactly_def update_other)

lemma run_calls_exactly:
  assumes "\<forall>(t, now, g, uri) \<in> set cs. anonymous uri \<noteq> None" "burst (times_of f cs)" "length cs < 2 ^ 31"
  shows "\<not> cr_poisoned (run_calls cs call_reporter_new) \<and> counts_exactly f (times_of f cs) (cr_counts (run_calls cs call_reporter_new))"
  using assms
proof (induction cs rule: rev_induct)
  case (snoc c cs)
  obtain t now g uri where c: "c = (t, now, g, uri)" by (metis prod_cases4)
  let ?cr = "run_calls cs call_reporter_new"
  have b: "burst (times_of f cs)" using snoc.prems(2) burst_snocD by (auto simp: c times_of_snoc split: if_splits)
  have IH: "\<not> cr_poisoned ?cr" "counts_exactly f (times_of f cs) (cr_counts ?cr)" using snoc b by auto
  obtain oc first over counts where up: "update_call_counts_locked t (cr_counts ?cr) g = ((oc, first, over), counts)"
    by (metis prod_cases3 surj_pair)
  have "counts_exactly f (times_of f (cs @ [c])) counts"
  proof (cases "g = f")
    case True
    then show ?thesis using update_burst [OF IH(2) _ _ up [unfolded True]] snoc.prems(2,3) length_times_of [of f cs]
      by (auto simp: c times_of_snoc)
  next
    case False
    then show ?thesis using IH(2) counts_exactly_other [OF _ up, of f] by (simp add: c times_of_snoc)
  qed
  then show ?case
    using count_call_result [OF IH(1) _ up, of uri now] count_call_exactly [OF IH(1) up] snoc.prems(1) by (simp add: c run_calls_snoc)
qed (simp add: run_calls_def counts_exactly_def call_reporter_new_def times_of_def)

lemma run_burst_count:
  assumes "\<forall>(t, now, g, uri) \<in> set cs. anonymous uri \<noteq> None" and "anonymous uri \<noteq> None"
    and b: "burst (times_of f cs @ [t])" and len: "length cs < 2 ^ 31 - 1"
  shows "fst (count_call t now f uri (run_calls cs call_reporter_new)) = Some (2999 \<le> length (times_of f cs))"
proof -
  let ?cr = "run_calls cs call_reporter_new"
  obtain oc first over counts where up: "update_call_counts_locked t (cr_counts ?cr) f = ((oc, first, over), counts)"
    by (metis prod_cases3 surj_pair)
  have r: "\<not> cr_poisoned ?cr \<and> counts_exactly f (times_of f cs) (cr_counts ?cr)"
    using assms(1) burst_snocD [OF b] len by (intro run_calls_exactly) auto
  then have "over \<longleftrightarrow> 2999 \<le> length (times_of f cs)"
    using update_burst [OF _ b _ up] len length_times_of [of f cs] by simp
  then show ?thesis using count_call_result [OF _ assms(2) up] r by simp
qed

text \<open>The rate limit is exact on a burst. Whatever other functions are called in between, when the calls of a
  function all lie within the 30 seconds after its first one, a call is answered, and it is reported as one
  too many exactly from the 3000th on.\<close>

theorem rate_limit_burst:
  assumes "\<forall>(t, now, g, uri) \<in> set cs. anonymous uri \<noteq> None" and "anonymous uri \<noteq> None"
    and "burst (times_of f cs @ [t])" and "length cs < 2 ^ 31 - 1"
  shows "fst (count_call t now f uri (run_calls cs call_reporter_new)) = Some (2999 \<le> length (times_of f cs))"
  using assms by (rule run_burst_count)

text \<open>2999 calls at boot time 0, as an example.\<close>

definition example_burst :: "call list" where
  "example_burst = replicate 2999 (0, 0, ''query'', ''uri'')"

lemma example_burst:
  "times_of ''query'' example_burst = replicate 2999 0" "length example_burst = 2999"
  "\<forall>(t, now, g, uri) \<in> set example_burst. anonymous uri \<noteq> None" "burst (replicate 2999 0 @ [29999])"
  by (auto simp: example_burst_def times_of_def filter_replicate burst_def TIME_THRESHOLD_def hd_append anonymous_def)

theorem rate_limit_burst_witness:
  "fst (count_call 29999 29999 ''query'' ''uri'' (run_calls example_burst call_reporter_new)) = Some True"
  using rate_limit_burst [of example_burst "''uri''" "''query''" 29999 29999] example_burst by (simp add: anonymous_def)

lemma example_burst_refused:
  "fst (count_call 29999 29999 ''query'' ''uri'' (run_calls example_burst call_reporter_new)) = Some True"
  using run_burst_count [of example_burst "''uri''" "''query''" 29999 29999] example_burst by (simp add: anonymous_def)

theorem rate_limit_sound_witness:
  "\<exists>logs cr. count_call 29999 29999 ''query'' ''uri'' (run_calls example_burst call_reporter_new) = (Some True, logs, cr)
     \<and> within_window (drop 0 (replicate 2999 0 @ [29999]))"
proof -
  obtain res logs cr where c: "count_call 29999 29999 ''query'' ''uri'' (run_calls example_burst call_reporter_new) = (res, logs, cr)"
    by (metis prod_cases3)
  then have c': "count_call 29999 29999 ''query'' ''uri'' (run_calls example_burst call_reporter_new) = (Some True, logs, cr)"
    using example_burst_refused by simp
  then show ?thesis using rate_limit_sound [OF _ c'] example_burst(1,2) by (auto simp: Let_def)
qed

text \<open>One call can end the reporter. When a call is the first of its window to be one too many and its URI
  cannot be anonymized (a multi-byte character is cut), the panic happens under the lock: every later call,
  of any function with any URI, panics.\<close>

theorem reporter_poisoned:
  assumes np: "\<not> cr_poisoned cr" and bad: "anonymous uri = None"
    and up: "update_call_counts_locked t (cr_counts cr) f = ((oc, first, True), counts)"
    and ci: "counts f = Some ci" "\<not> ci_log_print_flag ci"
    and c: "count_call t now f uri cr = (res, logs, cr')"
  shows "res = None \<and> fst (count_call t2 now2 f2 uri2 (run_calls cs cr')) = None"
proof -
  have r: "res = None" "cr_poisoned cr'" using assms by (auto simp: count_call_def)
  have "cr_poisoned (run_calls cs cr')" for cs
    by (induction cs rule: rev_induct) (use r in \<open>auto simp: run_calls_def count_call_poisoned\<close>)
  then show ?thesis using r by (simp add: count_call_poisoned)
qed

theorem reporter_poisoned_witness:
  "let cr = \<lparr>cr_counts = [''query'' \<mapsto> \<lparr>ci_count = 99, ci_total_count = 2999, ci_first_time = 5, ci_start_time = 5, ci_log_print_flag = False\<rparr>],
             cr_poisoned = False\<rparr>;
       cr' = snd (snd (count_call 7 8 ''query'' (CHR 0xC3 # CHR 0xA9 # ''abcdefghi'') cr))
   in fst (count_call 9 9 ''insert'' ''uri'' cr') = None"
  using reporter_poisoned [of "\<lparr>cr_counts = [''query'' \<mapsto> \<lparr>ci_count = 99, ci_total_count = 2999, ci_first_time = 5, ci_start_time = 5, ci_log_print_flag = False\<rparr>],
             cr_poisoned = False\<rparr>" "CHR 0xC3 # CHR 0xA9 # ''abcdefghi''" 7 "''query''" _ _ _ _ 8 _ _ _ 9 9 "''insert''" "''uri''" "[]"]
  by (simp add: update_call_counts_locked_def Let_def thresholds anonymous_eq utf8_cont_def run_calls_def call_info_default_def
      prod_eq_iff split: prod.splits)

end
