(* ===== verification/Proxy_Source.thy ===== *)
theory Proxy_Source
  imports Step_Runs
begin

text \<open>
  What the controllers expect of a connection, and what the connections that cache a proxy have in common: the
  contract of a source of proxies, and the small machine of a cached remote object whose death clears the cache.
\<close>

section \<open>Sources of proxies\<close>

text \<open>A source obtains a proxy, from its cache or by connecting; the cache is what it obtained last.\<close>

locale proxy_source =
  fixes obtain_proxy :: "'s \<Rightarrow> 'r option \<times> 's" and cached :: "'s \<Rightarrow> 'r option"
  assumes obtain_cached: "cached s = Some r \<Longrightarrow> obtain_proxy s = (Some r, s)"
    and obtain_stored: "obtain_proxy s = (x, s') \<Longrightarrow> cached s' = x"
begin

text \<open>How a client uses it: the answer of the proxy, or a default when there is none.\<close>

definition serve :: "'a \<Rightarrow> ('r \<Rightarrow> 'a) \<Rightarrow> 's \<Rightarrow> 'a \<times> 's" where
  "serve dflt f s = (case obtain_proxy s of (Some r, s') \<Rightarrow> (f r, s') | (None, s') \<Rightarrow> (dflt, s'))"

lemma serve_cached: "cached s = Some r \<Longrightarrow> serve dflt f s = (f r, s)"
  by (simp add: serve_def obtain_cached)

lemma serve_result: "serve dflt f s = (a, s') \<Longrightarrow> a = (case cached s' of Some r \<Rightarrow> f r | None \<Rightarrow> dflt)"
  by (auto simp: serve_def split: prod.splits option.splits dest: obtain_stored)

text \<open>Once a request was served by a proxy, all that follow are served by the same one, and the source does not change.\<close>

lemma serve_again: "serve dflt f s = (a, s') \<Longrightarrow> cached s' = Some r \<Longrightarrow> a = f r \<and> serve dflt' g s' = (g r, s')"
  using serve_result serve_cached by fastforce

end

section \<open>A cache that the death of its remote object clears\<close>

text \<open>
  The remote objects that were connected but not yet stored, those with a death recipient, those handed in from
  outside, and those that died. Only the death of an object with a recipient clears the cache.
\<close>

record 'r cache_slot =
  cs_cached :: "'r option"
  cs_pending :: "'r set"
  cs_watched :: "'r set"
  cs_given :: "'r set"
  cs_dead :: "'r set"

datatype 'r slot_event = Connected 'r bool | Stored 'r | Injected 'r | Died 'r | Cleared

inductive slot_step :: "'r cache_slot \<Rightarrow> 'r slot_event \<Rightarrow> 'r cache_slot \<Rightarrow> bool" where
  slot_connected:
    "slot_step s (Connected r watched)
       (s\<lparr>cs_pending := insert r (cs_pending s), cs_watched := (if watched then {r} else {}) \<union> cs_watched s\<rparr>)"
| slot_stored: "r \<in> cs_pending s \<Longrightarrow> slot_step s (Stored r) (s\<lparr>cs_cached := Some r, cs_pending := cs_pending s - {r}\<rparr>)"
| slot_died:
    "slot_step s (Died r)
       (s\<lparr>cs_cached := (if r \<in> cs_watched s then None else cs_cached s), cs_dead := insert r (cs_dead s)\<rparr>)"
| slot_cleared: "slot_step s Cleared (s\<lparr>cs_cached := None\<rparr>)"
| slot_injected: "slot_step s (Injected r) (s\<lparr>cs_cached := Some r, cs_given := insert r (cs_given s)\<rparr>)"

inductive_cases slot_stepE: "slot_step s l s'"

definition slot_empty :: "'r cache_slot" where
  "slot_empty = \<lparr>cs_cached = None, cs_pending = {}, cs_watched = {}, cs_given = {}, cs_dead = {}\<rparr>"

text \<open>Every connection registers a recipient on an object that is not dead, and none dies between its connection and its storing.\<close>

definition slot_timely :: "'r cache_slot \<Rightarrow> 'r slot_event \<Rightarrow> bool" where
  "slot_timely s l \<longleftrightarrow>
     (case l of Died r \<Rightarrow> r \<notin> cs_pending s | Connected r watched \<Rightarrow> watched \<and> r \<notin> cs_dead s | _ \<Rightarrow> True)"

definition slot_ok :: "'r cache_slot \<Rightarrow> bool" where
  "slot_ok s \<longleftrightarrow>
     cs_pending s \<inter> cs_dead s = {} \<and> cs_pending s \<subseteq> cs_watched s
     \<and> (\<forall>r. cs_cached s = Some r \<longrightarrow> r \<in> cs_given s \<or> r \<in> cs_watched s \<and> r \<notin> cs_dead s)"

lemma slot_ok_empty [simp]: "slot_ok slot_empty"
  by (simp add: slot_ok_def slot_empty_def)

lemma slot_ok_step: "slot_ok s \<Longrightarrow> slot_step s l s' \<Longrightarrow> slot_timely s l \<Longrightarrow> slot_ok s'"
  by (erule slot_stepE) (auto simp: slot_ok_def slot_timely_def split: if_splits)

text \<open>A machine whose steps are steps of the slot, or leave it alone, keeps no dead remote object in its cache but one that was handed in.\<close>

locale slot_refinement =
  fixes step :: "'s \<Rightarrow> 'l \<Rightarrow> 's \<Rightarrow> bool" and slot :: "'s \<Rightarrow> 'r cache_slot" and event :: "'l \<Rightarrow> 'r slot_event option"
  assumes simulates: "step s l s' \<Longrightarrow> (case event l of Some e \<Rightarrow> slot_step (slot s) e (slot s') | None \<Rightarrow> slot s' = slot s)"
begin

definition timely :: "'s \<Rightarrow> 'l \<Rightarrow> 's \<Rightarrow> bool" where
  "timely s l s' \<longleftrightarrow> step s l s' \<and> (case event l of Some e \<Rightarrow> slot_timely (slot s) e | None \<Rightarrow> True)"

lemma timely_ok: "slot_ok (slot s) \<Longrightarrow> timely s l s' \<Longrightarrow> slot_ok (slot s')"
  using simulates [of s l s'] slot_ok_step by (auto simp: timely_def split: option.splits)

lemma timely_run_ok: "step_runs timely s ls s' \<Longrightarrow> slot_ok (slot s) \<Longrightarrow> slot_ok (slot s')"
  by (erule step_runs_invariant [where P = "\<lambda>s. slot_ok (slot s)"]) (use timely_ok in auto)

end

end
