(* ===== verification/Service_Manager.thy ===== *)
theory Service_Manager
  imports Call_Reporter Proxy_Source "HOL-Library.AList"
begin

text \<open>
  \<open>connection/manager_impl.rs\<close>: the one manager of the silent path. The system ability manager and the KV
  service are the answers of \<open>service_answers\<close>; what is asked of them is returned in order. \<open>get_proxy\<close> releases
  its lock while it connects, so a connection and the storing of its proxy are two steps of the machine of
  the second half, between which a death may be reported.
\<close>

section \<open>State and operations\<close>

definition DISTRIBUTED_KV_DATA_SERVICE_ABILITY_ID :: i32 where "DISTRIBUTED_KV_DATA_SERVICE_ABILITY_ID = 1301"

record ('r, 'c) manager =
  mg_service_proxy :: "'r option"
  mg_kv_service :: "'r option"
  mg_bundle_name :: string
  mg_death_callback :: "'c option"
  mg_observers :: "(u64 \<times> 'c) list"
  mg_call_reporter :: call_reporter

definition manager_new :: "('r, 'c) manager" where
  "manager_new = \<lparr>mg_service_proxy = None, mg_kv_service = None, mg_bundle_name = [], mg_death_callback = None, mg_observers = [],
     mg_call_reporter = call_reporter_new\<rparr>"

record 'r service_answers =
  sv_check_system_ability :: "'r option"
  sv_load_system_ability :: "'r option"
  sv_feature_interface :: "'r \<Rightarrow> string \<Rightarrow> 'r option"
  sv_from_stub :: bool

datatype 'r system_call =
    CheckSystemAbility i32
  | LoadSystemAbility i32 i32
  | GetFeatureInterface 'r string
  | RegisterClientDeathObserver 'r string
  | AddDeathRecipient 'r

definition register_client_death_observer_via_kv :: "'r service_answers \<Rightarrow> 'r \<Rightarrow> ('r, 'c) manager \<Rightarrow> 'r system_call list" where
  "register_client_death_observer_via_kv ans kv_remote mg =
     (if mg_bundle_name mg = [] then []
      else if sv_from_stub ans then [RegisterClientDeathObserver kv_remote (mg_bundle_name mg)] else [])"

definition kv_remote_of :: "'r service_answers \<Rightarrow> 'r system_call list \<times> 'r option" where
  "kv_remote_of ans =
     (case sv_check_system_ability ans of
        Some r \<Rightarrow> ([CheckSystemAbility DISTRIBUTED_KV_DATA_SERVICE_ABILITY_ID], Some r)
      | None \<Rightarrow> ([CheckSystemAbility DISTRIBUTED_KV_DATA_SERVICE_ABILITY_ID,
                   LoadSystemAbility DISTRIBUTED_KV_DATA_SERVICE_ABILITY_ID 10], sv_load_system_ability ans))"

definition acquire_data_share_remote :: "'r service_answers \<Rightarrow> ('r, 'c) manager \<Rightarrow> 'r system_call list \<times> 'r option \<times> ('r, 'c) manager" where
  "acquire_data_share_remote ans mg =
     (let (calls, kv) = kv_remote_of ans
      in case kv of
           None \<Rightarrow> (calls, None, mg)
         | Some kv_remote \<Rightarrow>
             (case sv_feature_interface ans kv_remote ''data_share'' of
                None \<Rightarrow> (calls @ [GetFeatureInterface kv_remote ''data_share''], None, mg)
              | Some ds_remote \<Rightarrow>
                  (calls @ [GetFeatureInterface kv_remote ''data_share'']
                     @ register_client_death_observer_via_kv ans kv_remote mg @ [AddDeathRecipient ds_remote],
                   Some ds_remote, mg\<lparr>mg_kv_service := Some kv_remote\<rparr>)))"

definition store_proxy :: "'r \<Rightarrow> ('r, 'c) manager \<Rightarrow> ('r, 'c) manager" where
  "store_proxy remote mg = mg\<lparr>mg_service_proxy := Some remote\<rparr>"

text \<open>\<open>get_proxy\<close> without interference.\<close>

definition manager_get_proxy :: "'r service_answers \<Rightarrow> ('r, 'c) manager \<Rightarrow> 'r system_call list \<times> 'r option \<times> ('r, 'c) manager" where
  "manager_get_proxy ans mg =
     (case mg_service_proxy mg of
        Some r \<Rightarrow> ([], Some r, mg)
      | None \<Rightarrow>
          (case acquire_data_share_remote ans mg of
             (calls, None, mg') \<Rightarrow> (calls, None, mg')
           | (calls, Some r, mg') \<Rightarrow> (calls, Some r, store_proxy r mg')))"

definition set_service_proxy :: "'r \<Rightarrow> ('r, 'c) manager \<Rightarrow> ('r, 'c) manager" where
  "set_service_proxy remote mg = mg\<lparr>mg_service_proxy := Some remote\<rparr>"

definition reset_service_handle :: "('r, 'c) manager \<Rightarrow> ('r, 'c) manager" where
  "reset_service_handle mg = mg\<lparr>mg_service_proxy := None, mg_kv_service := None\<rparr>"

definition on_remote_died :: "('r, 'c) manager \<Rightarrow> ('r, 'c) manager" where
  "on_remote_died mg = reset_service_handle mg"

definition set_death_callback :: "'c \<Rightarrow> ('r, 'c) manager \<Rightarrow> ('r, 'c) manager" where
  "set_death_callback callback mg = mg\<lparr>mg_death_callback := Some callback\<rparr>"

definition set_bundle_name :: "string \<Rightarrow> ('r, 'c) manager \<Rightarrow> ('r, 'c) manager" where
  "set_bundle_name bundle_name mg = mg\<lparr>mg_bundle_name := bundle_name\<rparr>"

definition set_register_callback :: "u64 \<Rightarrow> 'c \<Rightarrow> ('r, 'c) manager \<Rightarrow> ('r, 'c) manager" where
  "set_register_callback controller_id callback mg = mg\<lparr>mg_observers := AList.update controller_id callback (mg_observers mg)\<rparr>"

definition remove_register_callback :: "u64 \<Rightarrow> ('r, 'c) manager \<Rightarrow> ('r, 'c) manager" where
  "remove_register_callback controller_id mg = mg\<lparr>mg_observers := AList.delete controller_id (mg_observers mg)\<rparr>"

text \<open>The callbacks that run when a system ability appears.\<close>

definition on_add_system_ability :: "('r, 'c) manager \<Rightarrow> 'c list" where
  "on_add_system_ability mg = map snd (mg_observers mg)"

definition sa_on_add :: "i32 \<Rightarrow> ('r, 'c) manager \<Rightarrow> 'c list" where
  "sa_on_add sa_id mg = (if sa_id \<noteq> DISTRIBUTED_KV_DATA_SERVICE_ABILITY_ID then [] else on_add_system_ability mg)"

definition set_call_count :: "i64 \<Rightarrow> i64 \<Rightarrow> string \<Rightarrow> string \<Rightarrow> ('r, 'c) manager \<Rightarrow> bool option \<times> call_log list \<times> ('r, 'c) manager" where
  "set_call_count t now func_name uri mg =
     (let (res, logs, cr) = count_call t now func_name uri (mg_call_reporter mg) in (res, logs, mg\<lparr>mg_call_reporter := cr\<rparr>))"

definition acquire_kv_service_remote :: "'r service_answers \<Rightarrow> 'r system_call list \<times> 'r option" where
  "acquire_kv_service_remote ans = (let (calls, _) = kv_remote_of ans in (calls, sv_check_system_ability ans))"

section \<open>The manager as a source of proxies\<close>

interpretation manager_source: proxy_source "\<lambda>mg. snd (manager_get_proxy ans mg)" mg_service_proxy for ans :: "'r service_answers"
  by unfold_locales
    (auto simp: manager_get_proxy_def acquire_data_share_remote_def store_proxy_def Let_def split: option.splits prod.splits)


section \<open>Deaths\<close>

text \<open>
  The manager with the remote objects that were connected to and not yet stored, those a death recipient was added
  to, those handed in by \<open>set_service_proxy\<close>, and those that died. A recipient runs \<open>on_remote_died\<close> when its
  object dies (once); an object without one dies unseen.
\<close>

record ('r, 'c) manager_world =
  mw_manager :: "('r, 'c) manager"
  mw_pending :: "'r set"
  mw_watched :: "'r set"
  mw_given :: "'r set"
  mw_dead :: "'r set"

definition world_new :: "('r, 'c) manager_world" where
  "world_new = \<lparr>mw_manager = manager_new, mw_pending = {}, mw_watched = {}, mw_given = {}, mw_dead = {}\<rparr>"

datatype 'r manager_event =
    CachedReturned 'r
  | ConnectFailed
  | ConnectedTo 'r
  | ProxyStored 'r
  | ProxySet 'r
  | RemoteDied 'r
  | HandleReset

inductive manager_step :: "('r, 'c) manager_world \<Rightarrow> 'r manager_event \<Rightarrow> ('r, 'c) manager_world \<Rightarrow> bool" where
  get_cached: "mg_service_proxy (mw_manager w) = Some r \<Longrightarrow> manager_step w (CachedReturned r) w"
| get_failed:
    "mg_service_proxy (mw_manager w) = None \<Longrightarrow> acquire_data_share_remote ans (mw_manager w) = (calls, None, mg)
     \<Longrightarrow> manager_step w ConnectFailed (w\<lparr>mw_manager := mg\<rparr>)"
| get_connected:
    "mg_service_proxy (mw_manager w) = None \<Longrightarrow> acquire_data_share_remote ans (mw_manager w) = (calls, Some r, mg)
     \<Longrightarrow> manager_step w (ConnectedTo r)
           (w\<lparr>mw_manager := mg, mw_pending := insert r (mw_pending w), mw_watched := {x. AddDeathRecipient x \<in> set calls} \<union> mw_watched w\<rparr>)"
| get_stored:
    "r \<in> mw_pending w
     \<Longrightarrow> manager_step w (ProxyStored r) (w\<lparr>mw_manager := store_proxy r (mw_manager w), mw_pending := mw_pending w - {r}\<rparr>)"
| proxy_set: "manager_step w (ProxySet r) (w\<lparr>mw_manager := set_service_proxy r (mw_manager w), mw_given := insert r (mw_given w)\<rparr>)"
| remote_died:
    "r \<notin> mw_dead w
     \<Longrightarrow> manager_step w (RemoteDied r)
           (w\<lparr>mw_manager := (if r \<in> mw_watched w then on_remote_died (mw_manager w) else mw_manager w), mw_dead := insert r (mw_dead w)\<rparr>)"
| handle_reset: "manager_step w HandleReset (w\<lparr>mw_manager := reset_service_handle (mw_manager w)\<rparr>)"

inductive_cases manager_stepE: "manager_step w l w'"

definition manager_slot :: "('r, 'c) manager_world \<Rightarrow> 'r cache_slot" where
  "manager_slot w = \<lparr>cs_cached = mg_service_proxy (mw_manager w), cs_pending = mw_pending w, cs_watched = mw_watched w,
     cs_given = mw_given w, cs_dead = mw_dead w\<rparr>"

fun manager_slot_event :: "'r manager_event \<Rightarrow> 'r slot_event option" where
  "manager_slot_event (CachedReturned r) = None"
| "manager_slot_event ConnectFailed = None"
| "manager_slot_event (ConnectedTo r) = Some (Connected r True)"
| "manager_slot_event (ProxyStored r) = Some (Stored r)"
| "manager_slot_event (ProxySet r) = Some (Injected r)"
| "manager_slot_event (RemoteDied r) = Some (Died r)"
| "manager_slot_event HandleReset = Some Cleared"

lemma acquire_keeps_proxy: "acquire_data_share_remote ans mg = (calls, r, mg') \<Longrightarrow> mg_service_proxy mg' = mg_service_proxy mg"
  by (auto simp: acquire_data_share_remote_def split: prod.splits option.splits)

text \<open>Connecting adds a death recipient to exactly the object it returns.\<close>

lemma acquire_watches: "acquire_data_share_remote ans mg = (calls, Some r, mg') \<Longrightarrow> {x. AddDeathRecipient x \<in> set calls} = {r}"
  by (auto simp: acquire_data_share_remote_def kv_remote_of_def register_client_death_observer_via_kv_def
      split: prod.splits option.splits if_splits)

lemma manager_step_slot:
  "manager_step w l w' \<Longrightarrow> case manager_slot_event l of Some e \<Rightarrow> slot_step (manager_slot w) e (manager_slot w') | None \<Rightarrow> manager_slot w' = manager_slot w"
proof (erule manager_stepE)
  fix ans calls mg
  assume "mg_service_proxy (mw_manager w) = None" "acquire_data_share_remote ans (mw_manager w) = (calls, None, mg)"
    "l = ConnectFailed" "w' = w\<lparr>mw_manager := mg\<rparr>"
  then show ?thesis using acquire_keeps_proxy by (fastforce simp: manager_slot_def)
next
  fix ans calls mg r
  assume a: "mg_service_proxy (mw_manager w) = None" "acquire_data_share_remote ans (mw_manager w) = (calls, Some r, mg)"
    "l = ConnectedTo r" "w' = w\<lparr>mw_manager := mg, mw_pending := insert r (mw_pending w), mw_watched := {x. AddDeathRecipient x \<in> set calls} \<union> mw_watched w\<rparr>"
  then have "manager_slot w' = (manager_slot w)\<lparr>cs_pending := insert r (cs_pending (manager_slot w)), cs_watched := {r} \<union> cs_watched (manager_slot w)\<rparr>"
    using acquire_keeps_proxy [OF a(2)] acquire_watches [OF a(2)] by (simp add: manager_slot_def)
  then show ?thesis using a(3) slot_connected [of "manager_slot w" r True] by simp
next
  fix r
  assume a: "r \<in> mw_pending w" "l = ProxyStored r"
    "w' = w\<lparr>mw_manager := store_proxy r (mw_manager w), mw_pending := mw_pending w - {r}\<rparr>"
  then show ?thesis using slot_stored [of r "manager_slot w"] by (simp add: manager_slot_def store_proxy_def)
next
  fix r
  assume a: "l = ProxySet r" "w' = w\<lparr>mw_manager := set_service_proxy r (mw_manager w), mw_given := insert r (mw_given w)\<rparr>"
  then show ?thesis using slot_injected [of "manager_slot w" r] by (simp add: manager_slot_def set_service_proxy_def)
next
  fix r
  assume a: "l = RemoteDied r" "w' = w\<lparr>mw_manager := (if r \<in> mw_watched w then on_remote_died (mw_manager w) else mw_manager w), mw_dead := insert r (mw_dead w)\<rparr>"
  then show ?thesis using slot_died [of "manager_slot w" r]
    by (simp add: manager_slot_def on_remote_died_def reset_service_handle_def split: if_splits)
next
  assume a: "l = HandleReset" "w' = w\<lparr>mw_manager := reset_service_handle (mw_manager w)\<rparr>"
  then show ?thesis using slot_cleared [of "manager_slot w"] by (simp add: manager_slot_def reset_service_handle_def)
qed simp

interpretation manager_cache: slot_refinement manager_step manager_slot manager_slot_event
  by unfold_locales (rule manager_step_slot)

definition death_seen_in_time :: "('r, 'c) manager_world \<Rightarrow> 'r manager_event \<Rightarrow> bool" where
  "death_seen_in_time w l \<longleftrightarrow>
     (case l of
        RemoteDied r \<Rightarrow> r \<notin> mw_pending w
      | ConnectedTo r \<Rightarrow> r \<notin> mw_dead w
      | _ \<Rightarrow> True)"

lemma timely_manager: "manager_cache.timely w l w' \<longleftrightarrow> manager_step w l w' \<and> death_seen_in_time w l"
  by (cases l) (simp_all add: manager_cache.timely_def death_seen_in_time_def slot_timely_def manager_slot_def)


definition example_answers :: "nat service_answers" where
  "example_answers = \<lparr>sv_check_system_ability = Some 1, sv_load_system_ability = None,
     sv_feature_interface = (\<lambda>kv name. if name = ''data_share'' then Some 7 else None), sv_from_stub = True\<rparr>"

lemma example_acquire:
  "acquire_data_share_remote example_answers manager_new =
     ([CheckSystemAbility DISTRIBUTED_KV_DATA_SERVICE_ABILITY_ID, GetFeatureInterface 1 ''data_share'', AddDeathRecipient 7], Some 7,
      manager_new\<lparr>mg_kv_service := Some 1\<rparr>)"
  by (simp add: acquire_data_share_remote_def kv_remote_of_def example_answers_def register_client_death_observer_via_kv_def manager_new_def)

definition world_connected :: "(nat, 'c) manager_world" where
  "world_connected = \<lparr>mw_manager = manager_new\<lparr>mg_kv_service := Some 1\<rparr>, mw_pending = {7}, mw_watched = {7}, mw_given = {}, mw_dead = {}\<rparr>"

lemma world_connected: "manager_step world_new (ConnectedTo 7) (world_connected :: (nat, 'c) manager_world)"
proof -
  let ?w = "world_new :: (nat, 'c) manager_world"
  have "mg_service_proxy (mw_manager ?w) = None" by (simp add: world_new_def manager_new_def)
  moreover have "acquire_data_share_remote example_answers (mw_manager ?w) =
      ([CheckSystemAbility DISTRIBUTED_KV_DATA_SERVICE_ABILITY_ID, GetFeatureInterface 1 ''data_share'', AddDeathRecipient 7], Some 7,
       manager_new\<lparr>mg_kv_service := Some 1\<rparr>)"
    unfolding world_new_def manager_world.simps by (rule example_acquire)
  ultimately have "manager_step ?w (ConnectedTo 7)
      (?w\<lparr>mw_manager := manager_new\<lparr>mg_kv_service := Some 1\<rparr>, mw_pending := insert 7 (mw_pending ?w), mw_watched := {7} \<union> mw_watched ?w\<rparr>)"
    using get_connected [of ?w] by fastforce
  then show ?thesis by (simp add: world_connected_def world_new_def)
qed

definition world_stored :: "(nat, 'c) manager_world" where
  "world_stored = \<lparr>mw_manager = store_proxy 7 (manager_new\<lparr>mg_kv_service := Some 1\<rparr>), mw_pending = {}, mw_watched = {7}, mw_given = {}, mw_dead = {}\<rparr>"

lemma world_stored: "manager_step world_connected (ProxyStored 7) (world_stored :: (nat, 'c) manager_world)"
  using get_stored [of 7 "world_connected :: (nat, 'c) manager_world"] by (simp add: world_connected_def world_stored_def)


text \<open>A death that is reported while the proxy is being obtained is lost. The lock is released while \<open>get_proxy\<close> connects, so
  the report clears a cache that is still empty and the dead proxy is stored after it: it is served from then on,
  nothing is asked of the system any more, and no further report of its death can come.\<close>

theorem dead_proxy_cached:
  "\<exists>ls (w :: (nat, 'c) manager_world). step_runs manager_step world_new ls w \<and> 7 \<in> mw_dead w
     \<and> (\<forall>ans. manager_get_proxy ans (mw_manager w) = ([], Some 7, mw_manager w)) \<and> (\<forall>w'. \<not> manager_step w (RemoteDied 7) w')"
proof -
  let ?w1 = "world_connected\<lparr>mw_manager := on_remote_died (mw_manager world_connected), mw_dead := {7}\<rparr> :: (nat, 'c) manager_world"
  let ?w2 = "?w1\<lparr>mw_manager := store_proxy 7 (mw_manager ?w1), mw_pending := {}\<rparr>"
  have "manager_step world_connected (RemoteDied 7) ?w1"
    using remote_died [of 7 "world_connected :: (nat, 'c) manager_world"] by (simp add: world_connected_def)
  moreover have "manager_step ?w1 (ProxyStored 7) ?w2"
    using get_stored [of 7 ?w1] by (simp add: world_connected_def)
  ultimately have "step_runs manager_step world_new ((([] @ [ConnectedTo 7]) @ [RemoteDied 7]) @ [ProxyStored 7]) ?w2"
    using world_connected by (blast intro: step_runs.intros)
  moreover have "manager_get_proxy ans (mw_manager ?w2) = ([], Some 7, mw_manager ?w2)" for ans
    by (simp add: manager_get_proxy_def store_proxy_def)
  moreover have "\<not> manager_step ?w2 (RemoteDied 7) w'" for w' by (auto elim: manager_stepE)
  ultimately show ?thesis by (intro exI [of _ ?w2] exI conjI allI) (assumption | simp)+
qed

text \<open>A proxy that was handed in is served after its death: nothing watches it.\<close>

theorem given_proxy_unwatched:
  "\<exists>ls (w :: (nat, 'c) manager_world). step_runs (\<lambda>w l w'. manager_step w l w' \<and> death_seen_in_time w l) world_new ls w
     \<and> 7 \<in> mw_dead w \<and> (\<forall>ans. manager_get_proxy ans (mw_manager w) = ([], Some 7, mw_manager w))"
proof -
  let ?step = "\<lambda>w l w'. manager_step w l w' \<and> death_seen_in_time w l"
  let ?w1 = "world_new\<lparr>mw_manager := set_service_proxy 7 manager_new, mw_given := {7}\<rparr> :: (nat, 'c) manager_world"
  let ?w2 = "?w1\<lparr>mw_dead := {7}\<rparr>"
  have "?step world_new (ProxySet 7) ?w1"
    using proxy_set [of "world_new :: (nat, 'c) manager_world" 7] by (simp add: world_new_def death_seen_in_time_def)
  moreover have "?step ?w1 (RemoteDied 7) ?w2"
    using remote_died [of 7 ?w1] by (simp add: world_new_def death_seen_in_time_def)
  ultimately have "step_runs ?step world_new [ProxySet 7, RemoteDied 7] ?w2" by (rule step_runs_two)
  moreover have "manager_get_proxy ans (mw_manager ?w2) = ([], Some 7, mw_manager ?w2)" for ans
    by (simp add: manager_get_proxy_def set_service_proxy_def)
  ultimately show ?thesis by (intro exI [of _ ?w2] exI conjI allI) (assumption | simp)+
qed

text \<open>Getting the proxy without interference. A cached proxy is served without asking anybody; otherwise the KV service is
  fetched or loaded, the data share feature is asked of it, its death is watched before the proxy is stored,
  and after a failure at any of these nothing is stored; a process with a bundle name also registers its own
  death observer.\<close>

theorem get_proxy_spec:
  "manager_get_proxy ans mg = (calls, r, mg') \<Longrightarrow>
     mg_service_proxy mg' = r
     \<and> (r = None \<longleftrightarrow> mg_service_proxy mg = None \<and>
          (case snd (kv_remote_of ans) of None \<Rightarrow> True | Some kv \<Rightarrow> sv_feature_interface ans kv ''data_share'' = None))
     \<and> (mg_service_proxy mg \<noteq> None \<longrightarrow> calls = [] \<and> mg' = mg)
     \<and> (r = None \<longrightarrow> mg' = mg \<and> (\<forall>x. AddDeathRecipient x \<notin> set calls))
     \<and> (mg_service_proxy mg = None \<and> r \<noteq> None \<longrightarrow> calls \<noteq> [] \<and> last calls = AddDeathRecipient (the r) \<and> mg_kv_service mg' = snd (kv_remote_of ans)
          \<and> ((\<exists>kv. RegisterClientDeathObserver kv (mg_bundle_name mg) \<in> set calls) \<longleftrightarrow> mg_bundle_name mg \<noteq> [] \<and> sv_from_stub ans))"
  by (auto simp: manager_get_proxy_def acquire_data_share_remote_def store_proxy_def kv_remote_of_def
      register_client_death_observer_via_kv_def split: option.splits prod.splits if_splits)

theorem get_proxy_spec_witness:
  "mg_service_proxy (snd (snd (manager_get_proxy example_answers (manager_new :: (nat, 'c) manager)))) = Some 7"
proof -
  have "manager_get_proxy example_answers (manager_new :: (nat, 'c) manager) =
     ([CheckSystemAbility DISTRIBUTED_KV_DATA_SERVICE_ABILITY_ID, GetFeatureInterface 1 ''data_share'', AddDeathRecipient 7], Some 7,
      store_proxy 7 (manager_new\<lparr>mg_kv_service := Some 1\<rparr>))"
    unfolding manager_get_proxy_def example_acquire by (simp add: manager_new_def)
  from get_proxy_spec [OF this] this show ?thesis by simp
qed

end
