(* ===== verification/Sa_Connection.thy ===== *)
theory Sa_Connection
  imports Service_Manager
begin

text \<open>
  \<open>connection/datashare_sa_connection.rs\<close>: a provider hosted by a system ability. The service, reached through the
  manager, tells the interface of the ability once; the ability is fetched or loaded and asked for the
  provider's remote object, which is cached until its death.
\<close>

section \<open>State and operations\<close>

definition INVALID_INTERFACE_CODE :: u32 where "INVALID_INTERFACE_CODE = -1"
definition DATA_SHARE_ERROR :: i32 where "DATA_SHARE_ERROR = -1"

record interface_info =
  if_code :: u32
  if_descriptor :: string

definition interface_info_new :: interface_info where
  "interface_info_new = \<lparr>if_code = INVALID_INTERFACE_CODE, if_descriptor = []\<rparr>"

record 'r sa_connection =
  sa_uri :: string
  sa_sa_id :: i32
  sa_wait_time :: i32
  sa_interface_info :: interface_info
  sa_proxy :: "'r option"
  sa_death_handle :: bool

definition sa_connection_new :: "string \<Rightarrow> i32 \<Rightarrow> i32 \<Rightarrow> 'r sa_connection" where
  "sa_connection_new uri sid wait_time =
     \<lparr>sa_uri = uri, sa_sa_id = sid, sa_wait_time = (if wait_time <s 0 then 0 else wait_time), sa_interface_info = interface_info_new,
      sa_proxy = None, sa_death_handle = False\<rparr>"

text \<open>The answers of the outside: the service's answer to \<open>get_connection_interface_info\<close>, the system ability manager, the
  reply of the ability (\<open>None\<close>: the request could not be written or sent, or its reply holds no code), and whether the death
  recipient was accepted.\<close>

record 'r provider_answers =
  pv_interface_info :: "'r \<Rightarrow> i32 \<Rightarrow> u32 \<Rightarrow> (i32 \<times> u32 \<times> string) option"
  pv_check_system_ability :: "i32 \<Rightarrow> 'r option"
  pv_load_system_ability :: "i32 \<Rightarrow> i32 \<Rightarrow> 'r option"
  pv_send_request :: "'r \<Rightarrow> u32 \<Rightarrow> string \<Rightarrow> string \<Rightarrow> (i32 \<times> 'r option) option"
  pv_death_handle :: bool

definition ensure_interface_info ::
    "'r service_answers \<Rightarrow> 'r provider_answers \<Rightarrow> ('r, 'c) manager \<times> 'r sa_connection \<Rightarrow> interface_info option \<times> ('r, 'c) manager \<times> 'r sa_connection" where
  "ensure_interface_info sv pv s =
     (let (mg, sa) = s
      in if if_code (sa_interface_info sa) \<noteq> INVALID_INTERFACE_CODE then (Some (sa_interface_info sa), mg, sa)
         else case manager_get_proxy sv mg of
                (_, None, mg') \<Rightarrow> (None, mg', sa)
              | (_, Some svc, mg') \<Rightarrow>
                  (case pv_interface_info pv svc (sa_sa_id sa) (sa_wait_time sa) of
                     None \<Rightarrow> (None, mg', sa)
                   | Some (err_code, code, descriptor) \<Rightarrow>
                       if err_code \<noteq> 0 \<or> code = INVALID_INTERFACE_CODE then (None, mg', sa)
                       else let info = \<lparr>if_code = code, if_descriptor = descriptor\<rparr>
                            in (Some info, mg', sa\<lparr>sa_interface_info := info\<rparr>)))"

text \<open>The remote object of the provider, up to the storing in the cache.\<close>

definition request_provider :: "'r provider_answers \<Rightarrow> interface_info \<Rightarrow> 'r sa_connection \<Rightarrow> 'r option" where
  "request_provider pv info sa =
     (case (case pv_check_system_ability pv (sa_sa_id sa) of
              Some r \<Rightarrow> Some r
            | None \<Rightarrow> pv_load_system_ability pv (sa_sa_id sa) (sa_wait_time sa)) of
        None \<Rightarrow> None
      | Some remote \<Rightarrow>
          (case pv_send_request pv remote (if_code info) (if_descriptor info) (sa_uri sa) of
             None \<Rightarrow> None
           | Some (err_code, proxy_remote) \<Rightarrow> if err_code \<noteq> 0 then None else proxy_remote))"

definition connect_to_provider ::
    "'r service_answers \<Rightarrow> 'r provider_answers \<Rightarrow> ('r, 'c) manager \<times> 'r sa_connection \<Rightarrow> 'r option \<times> ('r, 'c) manager \<times> 'r sa_connection" where
  "connect_to_provider sv pv s =
     (case ensure_interface_info sv pv s of
        (None, s') \<Rightarrow> (None, s')
      | (Some info, mg, sa) \<Rightarrow>
          (case request_provider pv info sa of
             None \<Rightarrow> (None, mg, sa)
           | Some proxy_remote \<Rightarrow>
               (Some proxy_remote, mg, sa\<lparr>sa_death_handle := pv_death_handle pv, sa_proxy := Some proxy_remote\<rparr>)))"

definition get_or_connect ::
    "'r service_answers \<Rightarrow> 'r provider_answers \<Rightarrow> ('r, 'c) manager \<times> 'r sa_connection \<Rightarrow> 'r option \<times> ('r, 'c) manager \<times> 'r sa_connection" where
  "get_or_connect sv pv s = (case sa_proxy (snd s) of Some p \<Rightarrow> (Some p, s) | None \<Rightarrow> connect_to_provider sv pv s)"

text \<open>\<open>write_remote\<close> tells whether the remote object could be written into the parcel.\<close>

definition write_proxy_remote ::
    "('r \<Rightarrow> bool) \<Rightarrow> 'r service_answers \<Rightarrow> 'r provider_answers \<Rightarrow> ('r, 'c) manager \<times> 'r sa_connection \<Rightarrow> i32 \<times> ('r, 'c) manager \<times> 'r sa_connection" where
  "write_proxy_remote write_remote sv pv s =
     (case get_or_connect sv pv s of
        (None, s') \<Rightarrow> (DATA_SHARE_ERROR, s')
      | (Some remote, s') \<Rightarrow> (if write_remote remote then 0 else DATA_SHARE_ERROR, s'))"

definition sa_on_remote_died :: "'r sa_connection \<Rightarrow> 'r sa_connection" where
  "sa_on_remote_died sa = sa\<lparr>sa_proxy := None, sa_death_handle := False\<rparr>"

definition sa_death_recipient :: "'r sa_connection \<Rightarrow> 'r sa_connection" where
  "sa_death_recipient sa = sa\<lparr>sa_proxy := None\<rparr>"

definition set_external_death_handle :: "bool \<Rightarrow> 'r sa_connection \<Rightarrow> 'r sa_connection" where
  "set_external_death_handle h sa = sa\<lparr>sa_death_handle := h\<rparr>"

section \<open>The connection as a source of proxies\<close>

lemma ensure_keeps_proxy: "ensure_interface_info sv pv s = (i, s') \<Longrightarrow> sa_proxy (snd s') = sa_proxy (snd s)"
  by (auto simp: ensure_interface_info_def Let_def split: prod.splits option.splits if_splits)

interpretation sa_source: proxy_source "get_or_connect sv pv" "\<lambda>s. sa_proxy (snd s)" for sv :: "'r service_answers" and pv
proof
  show "get_or_connect sv pv s = (Some r, s)" if "sa_proxy (snd s) = Some r" for s :: "('r, 'c) manager \<times> 'r sa_connection" and r
    using that by (simp add: get_or_connect_def)
  show "sa_proxy (snd s') = x" if "get_or_connect sv pv s = (x, s')" for s s' :: "('r, 'c) manager \<times> 'r sa_connection" and x
    using that ensure_keeps_proxy [of sv pv s]
    by (auto simp: get_or_connect_def connect_to_provider_def split: option.splits prod.splits)
qed

lemma write_proxy_remote_serve:
  "write_proxy_remote write_remote sv pv s = sa_source.serve sv pv DATA_SHARE_ERROR (\<lambda>r. if write_remote r then 0 else DATA_SHARE_ERROR) s"
  by (auto simp: write_proxy_remote_def sa_source.serve_def split: prod.splits option.splits)

section \<open>Properties\<close>

text \<open>The interface of the ability as the service tells it.\<close>

definition told :: "'r service_answers \<Rightarrow> 'r provider_answers \<Rightarrow> ('r, 'c) manager \<Rightarrow> 'r sa_connection \<Rightarrow> interface_info option" where
  "told sv pv mg sa =
     (if if_code (sa_interface_info sa) \<noteq> INVALID_INTERFACE_CODE then Some (sa_interface_info sa)
      else case fst (snd (manager_get_proxy sv mg)) of
             None \<Rightarrow> None
           | Some svc \<Rightarrow>
               (case pv_interface_info pv svc (sa_sa_id sa) (sa_wait_time sa) of
                  Some (err_code, code, descriptor) \<Rightarrow>
                    if err_code = 0 \<and> code \<noteq> INVALID_INTERFACE_CODE then Some \<lparr>if_code = code, if_descriptor = descriptor\<rparr> else None
                | None \<Rightarrow> None))"

lemma ensure_told: "fst (ensure_interface_info sv pv (mg, sa)) = told sv pv mg sa"
  by (auto simp: ensure_interface_info_def told_def Let_def split: prod.splits option.splits)

lemma ensure_same:
  "ensure_interface_info sv pv (mg, sa) = (i, mg', sa') \<Longrightarrow>
     sa_uri sa' = sa_uri sa \<and> sa_sa_id sa' = sa_sa_id sa \<and> sa_wait_time sa' = sa_wait_time sa \<and>
     (i = None \<longrightarrow> sa' = sa) \<and> (\<forall>info. i = Some info \<longrightarrow> sa_interface_info sa' = info \<and> if_code info \<noteq> INVALID_INTERFACE_CODE)"
  by (auto simp: ensure_interface_info_def Let_def split: prod.splits option.splits if_splits)

lemma request_provider_same:
  "sa_uri sa' = sa_uri sa \<Longrightarrow> sa_sa_id sa' = sa_sa_id sa \<Longrightarrow> sa_wait_time sa' = sa_wait_time sa \<Longrightarrow>
     request_provider pv info sa' = request_provider pv info sa"
  unfolding request_provider_def by (simp only:)

text \<open>Connecting to a system ability, for every answer of the outside. Not connected, a connection gets the remote object
  exactly when the service tells a valid interface, the ability is found or loaded and answers the request
  with no error and an object, which is then cached; the interface is cached once it was told, whatever came of the
  request, and is not asked for again.\<close>

theorem sa_connect_spec:
  assumes "sa_proxy sa = None" and "get_or_connect sv pv (mg, sa) = (r, mg', sa')"
  shows "r = Option.bind (told sv pv mg sa) (\<lambda>info. request_provider pv info sa) \<and> sa_proxy sa' = r
    \<and> sa_interface_info sa' = (case told sv pv mg sa of Some info \<Rightarrow> info | None \<Rightarrow> sa_interface_info sa)
    \<and> (told sv pv mg sa \<noteq> None \<longrightarrow> told sv' pv' mg'' sa' = told sv pv mg sa)
    \<and> get_or_connect sv' pv' (mg'', sa') = (if r = None then connect_to_provider sv' pv' (mg'', sa') else (r, mg'', sa'))"
proof -
  obtain i mg1 sa1 where e: "ensure_interface_info sv pv (mg, sa) = (i, mg1, sa1)" by (cases "ensure_interface_info sv pv (mg, sa)") auto
  then have i: "i = told sv pv mg sa" using ensure_told [of sv pv mg sa] by simp
  note same = ensure_same [OF e]
  have c: "connect_to_provider sv pv (mg, sa) = (r, mg', sa')" using assms by (simp add: get_or_connect_def)
  have p1: "sa_proxy sa1 = None" using ensure_keeps_proxy [OF e] assms(1) by simp
  show ?thesis
  proof (cases i)
    case None
    then have "r = None" "sa' = sa" using c e same by (auto simp: connect_to_provider_def)
    then show ?thesis using None assms(1) by (simp add: get_or_connect_def flip: i)
  next
    case (Some info)
    have t: "told sv' pv' mg'' sa2 = Some info" if "sa_interface_info sa2 = info" for sa2
      using that same Some by (simp add: told_def)
    have r: "request_provider pv info sa1 = request_provider pv info sa" using same request_provider_same [of sa1 sa] by simp
    show ?thesis
    proof (cases "request_provider pv info sa")
      case None
      then have "r = None" "sa' = sa1" using c e Some r by (auto simp: connect_to_provider_def)
      then show ?thesis using None Some same p1 t by (simp add: get_or_connect_def flip: i)
    next
      case (Some p)
      then have "r = Some p" "sa' = sa1\<lparr>sa_death_handle := pv_death_handle pv, sa_proxy := Some p\<rparr>"
        using c e \<open>i = Some info\<close> r by (auto simp: connect_to_provider_def)
      then show ?thesis using Some \<open>i = Some info\<close> same t by (simp add: get_or_connect_def flip: i)
    qed
  qed
qed

definition example_provider :: "nat provider_answers" where
  "example_provider = \<lparr>pv_interface_info = (\<lambda>svc sid wait. if svc = 7 then Some (0, 3, ''OHOS.Demo'') else None),
     pv_check_system_ability = (\<lambda>_. None), pv_load_system_ability = (\<lambda>sid wait. Some 20),
     pv_send_request = (\<lambda>r code desc uri. if r = 20 \<and> code = 3 then Some (0, Some 21) else None), pv_death_handle = True\<rparr>"

theorem sa_connect_spec_witness:
  "fst (get_or_connect example_answers example_provider (manager_new :: (nat, 'c) manager, sa_connection_new ''datashare:///x'' 1401 (-5))) = Some 21"
proof -
  let ?sa = "sa_connection_new ''datashare:///x'' 1401 (-5) :: nat sa_connection"
  have n: "sa_proxy ?sa = None" by (simp add: sa_connection_new_def)
  obtain r mg' sa' where c: "get_or_connect example_answers example_provider (manager_new :: (nat, 'c) manager, ?sa) = (r, mg', sa')"
    by (cases "get_or_connect example_answers example_provider (manager_new :: (nat, 'c) manager, ?sa)") auto
  have "fst (snd (manager_get_proxy example_answers (manager_new :: (nat, 'c) manager))) = Some 7"
    unfolding manager_get_proxy_def example_acquire by (simp add: manager_new_def)
  then have "told example_answers example_provider (manager_new :: (nat, 'c) manager) ?sa = Some \<lparr>if_code = 3, if_descriptor = ''OHOS.Demo''\<rparr>"
    by (simp add: told_def sa_connection_new_def interface_info_new_def example_provider_def INVALID_INTERFACE_CODE_def)
  moreover have "request_provider example_provider \<lparr>if_code = 3, if_descriptor = ''OHOS.Demo''\<rparr> ?sa = Some 21"
    by (simp add: request_provider_def example_provider_def)
  moreover have "r = Option.bind (told example_answers example_provider (manager_new :: (nat, 'c) manager) ?sa) (\<lambda>info. request_provider example_provider info ?sa)"
    using sa_connect_spec [OF n c] by (rule conjunct1)
  ultimately show ?thesis by (simp add: c)
qed


section \<open>Deaths\<close>

text \<open>The recipient is registered before the proxy is stored, so the two are two steps, as in the manager.\<close>

record ('r, 'c) sa_world =
  sw_manager :: "('r, 'c) manager"
  sw_connection :: "'r sa_connection"
  sw_pending :: "'r set"
  sw_watched :: "'r set"
  sw_dead :: "'r set"

datatype 'r sa_event = SaFailed | SaConnected 'r bool | SaStored 'r bool | SaDied 'r | SaCleared

inductive sa_step :: "('r, 'c) sa_world \<Rightarrow> 'r sa_event \<Rightarrow> ('r, 'c) sa_world \<Rightarrow> bool" where
  sa_failed:
    "sa_proxy (sw_connection w) = None \<Longrightarrow> connect_to_provider sv pv (sw_manager w, sw_connection w) = (None, mg, sa)
     \<Longrightarrow> sa_step w SaFailed (w\<lparr>sw_manager := mg, sw_connection := sa\<rparr>)"
| sa_connected:
    "sa_proxy (sw_connection w) = None \<Longrightarrow> ensure_interface_info sv pv (sw_manager w, sw_connection w) = (Some info, mg, sa)
     \<Longrightarrow> request_provider pv info sa = Some r
     \<Longrightarrow> sa_step w (SaConnected r (pv_death_handle pv))
           (w\<lparr>sw_manager := mg, sw_connection := sa, sw_pending := insert r (sw_pending w),
              sw_watched := (if pv_death_handle pv then {r} else {}) \<union> sw_watched w\<rparr>)"
| sa_stored:
    "r \<in> sw_pending w
     \<Longrightarrow> sa_step w (SaStored r h) (w\<lparr>sw_connection := (sw_connection w)\<lparr>sa_death_handle := h, sa_proxy := Some r\<rparr>,
           sw_pending := sw_pending w - {r}\<rparr>)"
| sa_died:
    "r \<notin> sw_dead w
     \<Longrightarrow> sa_step w (SaDied r)
           (w\<lparr>sw_connection := (if r \<in> sw_watched w then sa_death_recipient (sw_connection w) else sw_connection w), sw_dead := insert r (sw_dead w)\<rparr>)"
| sa_cleared: "sa_step w SaCleared (w\<lparr>sw_connection := sa_on_remote_died (sw_connection w)\<rparr>)"

inductive_cases sa_stepE: "sa_step w l w'"

definition sa_slot :: "('r, 'c) sa_world \<Rightarrow> 'r cache_slot" where
  "sa_slot w = \<lparr>cs_cached = sa_proxy (sw_connection w), cs_pending = sw_pending w, cs_watched = sw_watched w, cs_given = {}, cs_dead = sw_dead w\<rparr>"

fun sa_slot_event :: "'r sa_event \<Rightarrow> 'r slot_event option" where
  "sa_slot_event SaFailed = None"
| "sa_slot_event (SaConnected r h) = Some (Connected r h)"
| "sa_slot_event (SaStored r h) = Some (Stored r)"
| "sa_slot_event (SaDied r) = Some (Died r)"
| "sa_slot_event SaCleared = Some Cleared"

lemma connect_failed_proxy:
  "connect_to_provider sv pv s = (None, s') \<Longrightarrow> sa_proxy (snd s') = sa_proxy (snd s)"
  using ensure_keeps_proxy [of sv pv s] by (auto simp: connect_to_provider_def split: prod.splits option.splits)

lemma sa_step_slot:
  "sa_step w l w' \<Longrightarrow> case sa_slot_event l of Some e \<Rightarrow> slot_step (sa_slot w) e (sa_slot w') | None \<Rightarrow> sa_slot w' = sa_slot w"
proof (induction rule: sa_step.induct)
  case (sa_failed w sv pv mg sa)
  then show ?case using connect_failed_proxy [OF sa_failed(2)] by (simp add: sa_slot_def)
next
  case (sa_connected w sv pv info mg sa r)
  then show ?case using ensure_keeps_proxy [OF sa_connected(2)] slot_connected [of "sa_slot w" r "pv_death_handle pv"] by (simp add: sa_slot_def)
next
  case (sa_stored r w h)
  then show ?case using slot_stored [of r "sa_slot w"] by (simp add: sa_slot_def)
next
  case (sa_died r w)
  show ?case using slot_died [of "sa_slot w" r] by (simp add: sa_slot_def sa_death_recipient_def split: if_splits)
next
  case (sa_cleared w)
  show ?case using slot_cleared [of "sa_slot w"] by (simp add: sa_slot_def sa_on_remote_died_def)
qed

interpretation sa_cache: slot_refinement sa_step sa_slot sa_slot_event
  by unfold_locales (rule sa_step_slot)

definition sa_death_in_time :: "('r, 'c) sa_world \<Rightarrow> 'r sa_event \<Rightarrow> bool" where
  "sa_death_in_time w l \<longleftrightarrow> (case l of SaDied r \<Rightarrow> r \<notin> sw_pending w | SaConnected r watched \<Rightarrow> watched \<and> r \<notin> sw_dead w | _ \<Rightarrow> True)"

lemma timely_sa: "sa_cache.timely w l w' \<longleftrightarrow> sa_step w l w' \<and> sa_death_in_time w l"
  by (cases l) (simp_all add: sa_cache.timely_def sa_death_in_time_def slot_timely_def sa_slot_def)

text \<open>A connection to a system ability never serves a dead provider, as long as no death is reported between the
  registration of the death recipient and the storing of the proxy, and every registration returns its handle.\<close>

theorem sa_cached_alive:
  assumes run: "step_runs (\<lambda>w l w'. sa_step w l w' \<and> sa_death_in_time w l)
      \<lparr>sw_manager = mg0, sw_connection = sa_connection_new uri sid wait, sw_pending = {}, sw_watched = {}, sw_dead = {}\<rparr> ls w"
    and "sa_proxy (sw_connection w) = Some r"
  shows "r \<notin> sw_dead w \<and> get_or_connect sv pv (sw_manager w, sw_connection w) = (Some r, sw_manager w, sw_connection w)"
proof -
  let ?w = "\<lparr>sw_manager = mg0, sw_connection = sa_connection_new uri sid wait, sw_pending = {}, sw_watched = {}, sw_dead = {}\<rparr>"
  have "step_runs sa_cache.timely ?w ls w" using run by (simp add: timely_sa [abs_def])
  moreover have "slot_ok (sa_slot ?w)" by (simp add: slot_ok_def sa_slot_def sa_connection_new_def)
  ultimately have "slot_ok (sa_slot w)" by (rule sa_cache.timely_run_ok)
  then show ?thesis using assms(2) sa_source.obtain_cached [of "(sw_manager w, sw_connection w)"] by (simp add: slot_ok_def sa_slot_def)
qed

text \<open>A connection whose provider is there.\<close>

lemma example_sa_run:
  "\<exists>w. step_runs (\<lambda>w l w'. sa_step w l w' \<and> sa_death_in_time w l)
      \<lparr>sw_manager = manager_new :: (nat, 'c) manager, sw_connection = sa_connection_new ''datashare:///x'' 1401 2, sw_pending = {}, sw_watched = {}, sw_dead = {}\<rparr>
      [SaConnected 21 True, SaStored 21 True] w \<and> sa_proxy (sw_connection w) = Some 21"
proof -
  let ?w = "\<lparr>sw_manager = manager_new :: (nat, 'c) manager, sw_connection = sa_connection_new ''datashare:///x'' 1401 2, sw_pending = {}, sw_watched = {}, sw_dead = {}\<rparr>"
  let ?info = "\<lparr>if_code = 3, if_descriptor = ''OHOS.Demo''\<rparr>"
  have "manager_get_proxy example_answers (manager_new :: (nat, 'c) manager) =
     ([CheckSystemAbility DISTRIBUTED_KV_DATA_SERVICE_ABILITY_ID, GetFeatureInterface 1 ''data_share'', AddDeathRecipient 7], Some 7,
      store_proxy 7 (manager_new\<lparr>mg_kv_service := Some 1\<rparr>))"
    unfolding manager_get_proxy_def example_acquire by (simp add: manager_new_def)
  then have e: "ensure_interface_info example_answers example_provider (sw_manager ?w, sw_connection ?w) =
      (Some ?info, store_proxy 7 (manager_new\<lparr>mg_kv_service := Some 1\<rparr>), (sw_connection ?w)\<lparr>sa_interface_info := ?info\<rparr>)"
    by (simp add: ensure_interface_info_def sa_connection_new_def interface_info_new_def example_provider_def INVALID_INTERFACE_CODE_def Let_def)
  have q: "request_provider example_provider ?info ((sw_connection ?w)\<lparr>sa_interface_info := ?info\<rparr>) = Some 21"
    by (simp add: request_provider_def example_provider_def)
  have n: "sa_proxy (sw_connection ?w) = None" by (simp add: sa_connection_new_def)
  have d: "pv_death_handle example_provider = True" by (simp add: example_provider_def)
  obtain w1 where w1: "sa_step ?w (SaConnected 21 True) w1" "sw_pending w1 = {21}"
    using sa_connected [of ?w, OF n e q, unfolded d] by fastforce
  have t: "sa_death_in_time ?w (SaConnected 21 True)" "sa_death_in_time w1 (SaStored 21 True)" by (simp_all add: sa_death_in_time_def)
  obtain w2 where w2: "sa_step w1 (SaStored 21 True) w2" "sa_proxy (sw_connection w2) = Some 21"
    using sa_stored [of 21 w1 True] w1(2) by fastforce
  have "step_runs (\<lambda>w l w'. sa_step w l w' \<and> sa_death_in_time w l) ?w [SaConnected 21 True, SaStored 21 True] w2"
    by (rule step_runs_two [of _ ?w _ w1]) (use w1 w2 t in auto)
  then show ?thesis using w2(2) by blast
qed

theorem sa_cached_alive_witness:
  "\<exists>w :: (nat, 'c) sa_world. sa_proxy (sw_connection w) = Some 21 \<and> 21 \<notin> sw_dead w"
proof -
  from example_sa_run obtain w :: "(nat, 'c) sa_world" where
    w: "step_runs (\<lambda>w l w'. sa_step w l w' \<and> sa_death_in_time w l)
      \<lparr>sw_manager = manager_new :: (nat, 'c) manager, sw_connection = sa_connection_new ''datashare:///x'' 1401 2, sw_pending = {}, sw_watched = {}, sw_dead = {}\<rparr>
      [SaConnected 21 True, SaStored 21 True] w" "sa_proxy (sw_connection w) = Some 21" by blast
  from sa_cached_alive [OF w] w(2) show ?thesis by blast
qed

end
