(* ===== verification/Service_Controller.thy ===== *)
theory Service_Controller
  imports Sa_Connection Predicates Values "HOL-Library.Multiset"
begin

text \<open>
  \<open>controller/general_controller.rs\<close> and \<open>controller/service_impl.rs\<close>: the controller of the silent path. Every
  operation counts its call, gets the service proxy from the manager and asks it; the methods of the proxy are
  parameters. A result of \<open>None\<close> is a panic of the call reporter.
\<close>

section \<open>Errors\<close>

record business_error =
  be_code :: i32
  be_message :: string

definition business_error_new :: business_error where
  "business_error_new = \<lparr>be_code = 0, be_message = []\<rparr>"

definition set_code :: "i32 \<Rightarrow> business_error \<Rightarrow> business_error" where
  "set_code code be = be\<lparr>be_code := code\<rparr>"

definition set_message :: "string \<Rightarrow> business_error \<Rightarrow> business_error" where
  "set_message message be = be\<lparr>be_message := message\<rparr>"

definition parse_i32 :: "string \<Rightarrow> i32 option" where
  "parse_i32 s =
     (let (neg, rest) = (case s of [] \<Rightarrow> (False, s) | c # r \<Rightarrow> if c = CHR ''-'' then (True, r) else if c = CHR ''+'' then (False, r) else (False, s))
      in case parse_digits rest of
           None \<Rightarrow> None
         | Some n \<Rightarrow> let v = (if neg then - int n else int n) in if - (2 ^ 31) \<le> v \<and> v < 2 ^ 31 then Some (word_of_int v) else None)"

definition set_code_from_str :: "string \<Rightarrow> business_error \<Rightarrow> business_error" where
  "set_code_from_str code be = (if code \<noteq> [] then be\<lparr>be_code := (case parse_i32 code of Some c \<Rightarrow> c | None \<Rightarrow> 0)\<rparr> else be)"

section \<open>The controller\<close>

type_synonym silent_observers = "(u64 \<times> string list) list"

record service_controller =
  sc_ext_uri :: string
  sc_observers :: silent_observers
  sc_controller_id :: u64

definition service_controller_new :: "u64 \<Rightarrow> string \<Rightarrow> service_controller" where
  "service_controller_new next_id ext_uri = \<lparr>sc_ext_uri = ext_uri, sc_observers = [], sc_controller_id = next_id\<rparr>"

text \<open>One call: the two clock readings of the reporter and the answers of the system.\<close>

record 'r call_env =
  ce_clock :: i64
  ce_clock_after :: i64
  ce_answers :: "'r service_answers"

definition counted_call :: "string \<Rightarrow> 'a \<Rightarrow> 'r call_env \<Rightarrow> string \<Rightarrow> ('r \<Rightarrow> 'a) \<Rightarrow> ('r, 'c) manager \<Rightarrow> 'a option \<times> ('r, 'c) manager" where
  "counted_call func_name dflt env uri method mg =
     (case set_call_count (ce_clock env) (ce_clock_after env) func_name uri mg of
        (None, _, mg') \<Rightarrow> (None, mg')
      | (Some True, _, mg') \<Rightarrow> (Some dflt, mg')
      | (Some False, _, mg') \<Rightarrow>
          (case manager_get_proxy (ce_answers env) mg' of
             (_, None, mg'') \<Rightarrow> (Some dflt, mg'')
           | (_, Some proxy, mg'') \<Rightarrow> (Some (method proxy), mg'')))"

text \<open>The six counted operations. The method of the proxy gets the URI, the extension URI and the rest.\<close>

definition service_insert :: "'r call_env \<Rightarrow> string \<Rightarrow> data_share_values_bucket \<Rightarrow> ('r \<Rightarrow> string \<Rightarrow> string \<Rightarrow> data_share_values_bucket \<Rightarrow> i32) \<Rightarrow> service_controller
    \<Rightarrow> ('r, 'c) manager \<Rightarrow> i32 option \<times> ('r, 'c) manager" where
  "service_insert env uri value method sc mg =
     counted_call ''Insert'' DATA_SHARE_ERROR env uri (\<lambda>proxy. method proxy uri (sc_ext_uri sc) value) mg"

definition service_update :: "'r call_env \<Rightarrow> string \<Rightarrow> data_share_predicates \<Rightarrow> data_share_values_bucket \<Rightarrow> ('r \<Rightarrow> string \<Rightarrow> string \<Rightarrow> data_share_predicates \<Rightarrow> data_share_values_bucket \<Rightarrow> i32) \<Rightarrow> service_controller
    \<Rightarrow> ('r, 'c) manager \<Rightarrow> i32 option \<times> ('r, 'c) manager" where
  "service_update env uri predicates value method sc mg =
     counted_call ''Update'' DATA_SHARE_ERROR env uri (\<lambda>proxy. method proxy uri (sc_ext_uri sc) predicates value) mg"

definition service_delete :: "'r call_env \<Rightarrow> string \<Rightarrow> data_share_predicates \<Rightarrow> ('r \<Rightarrow> string \<Rightarrow> string \<Rightarrow> data_share_predicates \<Rightarrow> i32) \<Rightarrow> service_controller
    \<Rightarrow> ('r, 'c) manager \<Rightarrow> i32 option \<times> ('r, 'c) manager" where
  "service_delete env uri predicates method sc mg =
     counted_call ''Delete'' DATA_SHARE_ERROR env uri (\<lambda>proxy. method proxy uri (sc_ext_uri sc) predicates) mg"

definition service_insert_ex :: "'r call_env \<Rightarrow> string \<Rightarrow> data_share_values_bucket \<Rightarrow> ('r \<Rightarrow> string \<Rightarrow> string \<Rightarrow> data_share_values_bucket \<Rightarrow> i32 \<times> i32) \<Rightarrow> service_controller
    \<Rightarrow> ('r, 'c) manager \<Rightarrow> (i32 \<times> i32) option \<times> ('r, 'c) manager" where
  "service_insert_ex env uri value method sc mg =
     counted_call ''InsertEx'' (DATA_SHARE_ERROR, 0) env uri (\<lambda>proxy. method proxy uri (sc_ext_uri sc) value) mg"

definition service_update_ex :: "'r call_env \<Rightarrow> string \<Rightarrow> data_share_predicates \<Rightarrow> data_share_values_bucket \<Rightarrow> ('r \<Rightarrow> string \<Rightarrow> string \<Rightarrow> data_share_predicates \<Rightarrow> data_share_values_bucket \<Rightarrow> i32 \<times> i32) \<Rightarrow> service_controller
    \<Rightarrow> ('r, 'c) manager \<Rightarrow> (i32 \<times> i32) option \<times> ('r, 'c) manager" where
  "service_update_ex env uri predicates value method sc mg =
     counted_call ''UpdateEx'' (DATA_SHARE_ERROR, 0) env uri (\<lambda>proxy. method proxy uri (sc_ext_uri sc) predicates value) mg"

definition service_delete_ex :: "'r call_env \<Rightarrow> string \<Rightarrow> data_share_predicates \<Rightarrow> ('r \<Rightarrow> string \<Rightarrow> string \<Rightarrow> data_share_predicates \<Rightarrow> i32 \<times> i32) \<Rightarrow> service_controller
    \<Rightarrow> ('r, 'c) manager \<Rightarrow> (i32 \<times> i32) option \<times> ('r, 'c) manager" where
  "service_delete_ex env uri predicates method sc mg =
     counted_call ''DeleteEx'' (DATA_SHARE_ERROR, 0) env uri (\<lambda>proxy. method proxy uri (sc_ext_uri sc) predicates) mg"

section \<open>Queries\<close>

definition MAX_RETRY_COUNT :: nat where "MAX_RETRY_COUNT = 3"
definition RANDOM_MIN :: nat where "RANDOM_MIN = 50"
definition RANDOM_MAX :: nat where "RANDOM_MAX = 150"

lemmas retry_consts = MAX_RETRY_COUNT_def RANDOM_MIN_def RANDOM_MAX_def

text \<open>The thread of a timed query: \<open>sv\<close> and \<open>query\<close> are the answers at each attempt, \<open>read\<close> makes a result set of
  a reply; the delays it slept are the third result.\<close>

type_synonym ('r, 'p) query_method = "nat \<Rightarrow> 'r \<Rightarrow> business_error \<Rightarrow> 'p option \<times> business_error"

definition retry_delay :: "nat \<Rightarrow> nat" where
  "retry_delay attempt = RANDOM_MIN + attempt * (RANDOM_MAX - RANDOM_MIN) div MAX_RETRY_COUNT"

fun query_attempts :: "(nat \<Rightarrow> 'r service_answers) \<Rightarrow> ('r, 'p) query_method \<Rightarrow> ('p \<Rightarrow> 's option) \<Rightarrow> nat \<Rightarrow> nat \<Rightarrow> business_error
    \<Rightarrow> ('r, 'c) manager \<Rightarrow> 's option \<times> business_error \<times> nat list \<times> ('r, 'c) manager" where
  "query_attempts sv query read attempt 0 be mg = (None, be, [], mg)"
| "query_attempts sv query read attempt (Suc left) be mg =
     (case manager_get_proxy (sv attempt) mg of
        (_, None, mg') \<Rightarrow> (None, be, [], mg')
      | (_, Some proxy, mg') \<Rightarrow>
          (case query attempt proxy be of
             (Some reply, be') \<Rightarrow> (read reply, be', [], mg')
           | (None, be') \<Rightarrow>
               (let (rs, be'', ds, mg'') = query_attempts sv query read (Suc attempt) left be' mg'
                in (rs, be'', (if attempt < MAX_RETRY_COUNT - 1 then [retry_delay attempt] else []) @ ds, mg''))))"

definition timeout_error :: business_error where
  "timeout_error = set_message ''timed query timeout'' (set_code 1072 business_error_new)"

text \<open>\<open>in_time\<close> tells whether the thread has answered when the one wait of the channel ends.\<close>

definition timed_query :: "bool \<Rightarrow> (nat \<Rightarrow> 'r service_answers) \<Rightarrow> ('r, 'p) query_method \<Rightarrow> ('p \<Rightarrow> 's option) \<Rightarrow> ('r, 'c) manager
    \<Rightarrow> 's option \<times> business_error \<times> ('r, 'c) manager" where
  "timed_query in_time sv query read mg =
     (let (rs, be, ds, mg') = query_attempts sv query read 0 MAX_RETRY_COUNT business_error_new mg
      in if in_time then (rs, be, mg') else (None, timeout_error, mg'))"

definition timed_query_raw :: "bool \<Rightarrow> 'r service_answers \<Rightarrow> ('r, 'p) query_method \<Rightarrow> ('r, 'c) manager
    \<Rightarrow> 'p option \<times> business_error \<times> ('r, 'c) manager" where
  "timed_query_raw in_time sv query mg =
     (case manager_get_proxy sv mg of
        (_, None, mg') \<Rightarrow> if in_time then (None, set_code DATA_SHARE_ERROR business_error_new, mg') else (None, timeout_error, mg')
      | (_, Some proxy, mg') \<Rightarrow>
          (let (reply, be) = query 0 proxy business_error_new
           in if in_time then (reply, be, mg') else (None, timeout_error, mg')))"

text \<open>\<open>query\<close>: \<open>None\<close> is a panic, otherwise the result set and the business error; \<open>timeout\<close> is the option's.\<close>

definition service_query :: "'r call_env \<Rightarrow> string \<Rightarrow> i32 \<Rightarrow> bool \<Rightarrow> (nat \<Rightarrow> 'r service_answers) \<Rightarrow> ('r, 'p) query_method \<Rightarrow> ('p \<Rightarrow> 's option)
    \<Rightarrow> business_error \<Rightarrow> ('r, 'c) manager \<Rightarrow> ('s option \<times> business_error) option \<times> ('r, 'c) manager" where
  "service_query env uri timeout in_time sv query read be mg =
     (case set_call_count (ce_clock env) (ce_clock_after env) ''Query'' uri mg of
        (None, _, mg') \<Rightarrow> (None, mg')
      | (Some True, _, mg') \<Rightarrow> (Some (None, be), mg')
      | (Some False, _, mg') \<Rightarrow>
          if 0 <s timeout
          then let (rs, be', mg'') = timed_query in_time sv query read mg' in (Some (rs, be'), mg'')
          else case manager_get_proxy (ce_answers env) mg' of
                 (_, None, mg'') \<Rightarrow> (Some (None, set_code DATA_SHARE_ERROR be), mg'')
               | (_, Some proxy, mg'') \<Rightarrow>
                   (let (reply, be') = query 0 proxy be in (Some (Option.bind reply read, be'), mg'')))"

definition service_query_raw :: "'r call_env \<Rightarrow> string \<Rightarrow> i32 \<Rightarrow> bool \<Rightarrow> ('r, 'p) query_method
    \<Rightarrow> business_error \<Rightarrow> ('r, 'c) manager \<Rightarrow> ('p option \<times> business_error) option \<times> ('r, 'c) manager" where
  "service_query_raw env uri timeout in_time query be mg =
     (case set_call_count (ce_clock env) (ce_clock_after env) ''Query'' uri mg of
        (None, _, mg') \<Rightarrow> (None, mg')
      | (Some True, _, mg') \<Rightarrow> (Some (None, be), mg')
      | (Some False, _, mg') \<Rightarrow>
          if 0 <s timeout
          then let (reply, be', mg'') = timed_query_raw in_time (ce_answers env) query mg' in (Some (reply, be'), mg'')
          else case manager_get_proxy (ce_answers env) mg' of
                 (_, None, mg'') \<Rightarrow> (Some (None, set_code DATA_SHARE_ERROR be), mg'')
               | (_, Some proxy, mg'') \<Rightarrow> (Some (query 0 proxy be), mg''))"

section \<open>Observers\<close>

text \<open>The first entry of an observer gets the URI; a new observer comes last. The answer of the observer manager does
  not matter to the list, and is returned.\<close>

fun push_uri :: "string \<Rightarrow> u64 \<Rightarrow> silent_observers \<Rightarrow> silent_observers" where
  "push_uri uri oid [] = [(oid, [uri])]"
| "push_uri uri oid (e # es) = (if fst e = oid then (oid, snd e @ [uri]) # es else e # push_uri uri oid es)"

definition swap_remove :: "nat \<Rightarrow> 'a list \<Rightarrow> 'a list" where
  "swap_remove i xs = (if i = length xs - 1 then butlast xs else butlast (xs[i := last xs]))"

fun observer_position :: "u64 \<Rightarrow> silent_observers \<Rightarrow> nat option" where
  "observer_position oid [] = None"
| "observer_position oid (e # es) = (if fst e = oid then Some 0 else map_option Suc (observer_position oid es))"

definition service_register_observer :: "(string \<Rightarrow> u64 \<Rightarrow> i32) \<Rightarrow> string \<Rightarrow> u64 \<Rightarrow> service_controller \<Rightarrow> i32 \<times> service_controller" where
  "service_register_observer answer uri oid sc = (answer uri oid, sc\<lparr>sc_observers := push_uri uri oid (sc_observers sc)\<rparr>)"

definition drop_uri :: "string \<Rightarrow> u64 \<Rightarrow> silent_observers \<Rightarrow> silent_observers" where
  "drop_uri uri oid obs =
     (case observer_position oid obs of
        None \<Rightarrow> obs
      | Some pos \<Rightarrow>
          (let uris = filter (\<lambda>u. u \<noteq> uri) (snd (obs ! pos))
           in if uris = [] then swap_remove pos obs else obs[pos := (fst (obs ! pos), uris)]))"

definition service_unregister_observer :: "(string \<Rightarrow> u64 \<Rightarrow> i32) \<Rightarrow> string \<Rightarrow> u64 \<Rightarrow> service_controller \<Rightarrow> i32 \<times> service_controller" where
  "service_unregister_observer answer uri oid sc = (answer uri oid, sc\<lparr>sc_observers := drop_uri uri oid (sc_observers sc)\<rparr>)"

text \<open>After a restart of the service: the registrations it asks for, and the list it builds again.\<close>

definition re_register_observer :: "service_controller \<Rightarrow> (string \<times> u64) list \<times> service_controller" where
  "re_register_observer sc =
     (let asked = concat (map (\<lambda>(oid, uris). map (\<lambda>uri. (uri, oid)) uris) (sc_observers sc))
      in (asked, sc\<lparr>sc_observers := fold (\<lambda>(uri, oid). push_uri uri oid) asked []\<rparr>))"

section \<open>The extension URI\<close>

definition is_ext_uri :: "string \<Rightarrow> bool" where
  "is_ext_uri uri \<longleftrightarrow> CHR ''?'' \<notin> set uri \<and> starts_with uri ''datashare:///'' \<and> length ''datashare:///'' < length uri"

definition set_ext_uri :: "string \<Rightarrow> service_controller \<Rightarrow> i32 \<times> service_controller" where
  "set_ext_uri ext_uri sc = (if \<not> is_ext_uri ext_uri then (1078, sc) else (0, sc\<lparr>sc_ext_uri := ext_uri\<rparr>))"


section \<open>Calls\<close>

lemma set_call_count_eq:
  "set_call_count t now f uri mg =
     (fst (count_call t now f uri (mg_call_reporter mg)), fst (snd (count_call t now f uri (mg_call_reporter mg))),
      mg\<lparr>mg_call_reporter := snd (snd (count_call t now f uri (mg_call_reporter mg)))\<rparr>)"
  by (simp add: set_call_count_def Let_def split_def)

lemma counted_call_cases:
  assumes "fst (count_call (ce_clock env) (ce_clock_after env) f uri (mg_call_reporter mg)) = Some over"
  defines "mg' \<equiv> mg\<lparr>mg_call_reporter := snd (snd (count_call (ce_clock env) (ce_clock_after env) f uri (mg_call_reporter mg)))\<rparr>"
  shows "counted_call f dflt env uri method mg =
    (if over then (Some dflt, mg')
     else (Some (case fst (snd (manager_get_proxy (ce_answers env) mg')) of Some r \<Rightarrow> method r | None \<Rightarrow> dflt),
           snd (snd (manager_get_proxy (ce_answers env) mg'))))"
  using assms(1) unfolding mg'_def
  by (cases over) (simp_all add: counted_call_def set_call_count_eq split: option.splits prod.splits)

text \<open>The service is protected by the rate limit. Whatever calls the process made before, as long as its inserts all lie in
  the 30 seconds after the first one, an insert reaches the service proxy exactly when fewer than 2999 came before
  it; from then on it is refused with -1, and neither the system nor the proxy is asked.\<close>

theorem insert_rate_limited:
  assumes "mg_call_reporter mg = run_calls cs call_reporter_new" and "\<forall>(t, now, g, u) \<in> set cs. anonymous u \<noteq> None" and "anonymous uri \<noteq> None"
    and "burst (times_of ''Insert'' cs @ [ce_clock env])" and "length cs < 2 ^ 31 - 1" and cached: "mg_service_proxy mg = Some r"
  shows "\<exists>cr. service_insert env uri value method sc mg =
    (Some (if 2999 \<le> length (times_of ''Insert'' cs) then -1 else method r uri (sc_ext_uri sc) value), mg\<lparr>mg_call_reporter := cr\<rparr>)"
proof -
  have "fst (count_call (ce_clock env) (ce_clock_after env) ''Insert'' uri (mg_call_reporter mg)) = Some (2999 \<le> length (times_of ''Insert'' cs))"
    unfolding assms(1) by (rule run_burst_count) (use assms in auto)
  note c = counted_call_cases [where f = "''Insert''", OF this]
  have "manager_get_proxy sv (mg\<lparr>mg_call_reporter := cr\<rparr>) = ([], Some r, mg\<lparr>mg_call_reporter := cr\<rparr>)" for sv cr
    using cached by (simp add: manager_get_proxy_def)
  then show ?thesis unfolding service_insert_def c by (auto simp: DATA_SHARE_ERROR_def)
qed

theorem insert_rate_limited_witness:
  "fst (service_insert \<lparr>ce_clock = 29999, ce_clock_after = 29999, ce_answers = example_answers\<rparr> ''uri'' vb (\<lambda>_ _ _ _. 1)
     (service_controller_new 1 ''datashare:///x'')
     ((manager_new :: (nat, 'c) manager)\<lparr>mg_service_proxy := Some 7, mg_call_reporter := run_calls (map (\<lambda>(t, now, f, u). (t, now, ''Insert'', u)) example_burst) call_reporter_new\<rparr>)) = Some (-1)"
proof -
  let ?cs = "map (\<lambda>(t, now, f, u). (t, now, ''Insert'', u)) example_burst"
  have cs: "?cs = replicate 2999 (0, 0, ''Insert'', ''uri'')" by (simp add: example_burst_def map_replicate)
  have t: "times_of ''Insert'' ?cs = replicate 2999 0" unfolding cs by (simp add: times_of_def filter_replicate)
  have a: "\<forall>(t, now, g, u) \<in> set ?cs. anonymous u \<noteq> None" unfolding cs by (simp add: anonymous_def)
  have l: "length ?cs < 2 ^ 31 - 1" by (simp add: example_burst_def)
  let ?mg = "(manager_new :: (nat, 'c) manager)\<lparr>mg_service_proxy := Some 7, mg_call_reporter := run_calls ?cs call_reporter_new\<rparr>"
  let ?env = "\<lparr>ce_clock = 29999, ce_clock_after = 29999, ce_answers = example_answers\<rparr>"
  have "\<exists>cr. service_insert ?env ''uri'' vb (\<lambda>_ _ _ _. 1) (service_controller_new 1 ''datashare:///x'') ?mg =
      (Some (if 2999 \<le> length (times_of ''Insert'' ?cs) then -1 else 1), ?mg\<lparr>mg_call_reporter := cr\<rparr>)"
    by (rule insert_rate_limited [OF _ a _ _ l]) (use example_burst(4) in \<open>simp_all add: t anonymous_def\<close>)
  then show ?thesis unfolding t by auto
qed


section \<open>Properties of queries\<close>

text \<open>The first attempt that is answered with a reply.\<close>

fun first_reply :: "(nat \<Rightarrow> 'r service_answers) \<Rightarrow> ('r, 'p) query_method \<Rightarrow> nat \<Rightarrow> nat \<Rightarrow> business_error \<Rightarrow> ('r, 'c) manager \<Rightarrow> 'p option" where
  "first_reply sv query attempt 0 be mg = None"
| "first_reply sv query attempt (Suc left) be mg =
     (case fst (snd (manager_get_proxy (sv attempt) mg)) of
        None \<Rightarrow> None
      | Some proxy \<Rightarrow>
          (case query attempt proxy be of
             (Some reply, _) \<Rightarrow> Some reply
           | (None, be') \<Rightarrow> first_reply sv query (Suc attempt) left be' (snd (snd (manager_get_proxy (sv attempt) mg)))))"

lemma query_attempts_result:
  "fst (query_attempts sv query read attempt left be mg) = Option.bind (first_reply sv query attempt left be mg) read"
proof (induction sv query attempt left be mg rule: first_reply.induct)
  case (2 sv query attempt left be mg)
  obtain calls r mg' where g: "manager_get_proxy (sv attempt) mg = (calls, r, mg')" by (cases "manager_get_proxy (sv attempt) mg")
  show ?case
  proof (cases r)
    case (Some proxy)
    obtain reply be' where q: "query attempt proxy be = (reply, be')" by (cases "query attempt proxy be")
    show ?thesis using 2 [of proxy reply be'] g Some q by (cases reply) (auto simp: Let_def split_def)
  qed (use g in simp)
qed simp

lemma query_attempts_delays:
  "\<exists>k \<le> left. fst (snd (snd (query_attempts sv query read attempt left be mg))) = map retry_delay [attempt..<min (attempt + k) (MAX_RETRY_COUNT - 1)]"
proof (induction sv query read attempt left be mg rule: query_attempts.induct)
  case (1 sv query read attempt be mg)
  then show ?case by simp
next
  case (2 sv query read attempt left be mg)
  obtain calls r mg' where g: "manager_get_proxy (sv attempt) mg = (calls, r, mg')" by (cases "manager_get_proxy (sv attempt) mg")
  show ?case
  proof (cases r)
    case None
    then show ?thesis using g by (intro exI [of _ 0]) simp
  next
    case (Some proxy)
    obtain reply be' where q: "query attempt proxy be = (reply, be')" by (cases "query attempt proxy be")
    show ?thesis
    proof (cases reply)
      case None
      obtain k where k: "k \<le> left" "fst (snd (snd (query_attempts sv query read (Suc attempt) left be' mg'))) =
          map retry_delay [Suc attempt..<min (Suc attempt + k) (MAX_RETRY_COUNT - 1)]"
        using 2 [OF g [symmetric] refl Some q [symmetric] None] by blast
      have "[attempt..<min (attempt + Suc k) (MAX_RETRY_COUNT - 1)] =
          (if attempt < MAX_RETRY_COUNT - 1 then [attempt] else []) @ [Suc attempt..<min (Suc attempt + k) (MAX_RETRY_COUNT - 1)]"
        by (auto simp: upt_rec [of attempt] min_def)
      then show ?thesis using k g Some q None
        by (intro exI [of _ "Suc k"]) (auto simp: Let_def split_def)
    qed (use g Some q in \<open>auto intro: exI [of _ 0]\<close>)
  qed
qed

text \<open>C27: A timed query. It tries at most three times and sleeps at most 133 milliseconds in between, at most twice; when it ends in
  time it returns what the first reply reads as, and when it does not it returns error 1072 and nothing.\<close>

theorem timed_query_spec:
  "let ds = fst (snd (snd (query_attempts sv query read 0 MAX_RETRY_COUNT business_error_new mg)))
   in length ds \<le> 2 \<and> sum_list ds \<le> 133
      \<and> fst (timed_query True sv query read mg) = Option.bind (first_reply sv query 0 3 business_error_new mg) read
      \<and> fst (timed_query False sv query read mg) = None \<and> be_code (fst (snd (timed_query False sv query read mg))) = 1072"
proof -
  obtain k where k: "fst (snd (snd (query_attempts sv query read 0 MAX_RETRY_COUNT business_error_new mg))) = map retry_delay [0..<min k 2]"
    using query_attempts_delays [of MAX_RETRY_COUNT sv query read 0 business_error_new mg] by (auto simp: MAX_RETRY_COUNT_def)
  have "min k 2 = 0 \<or> min k 2 = 1 \<or> min k 2 = 2" by auto
  then have "length (map retry_delay [0..<min k 2]) \<le> 2 \<and> sum_list (map retry_delay [0..<min k 2]) \<le> 133"
    by (auto simp: retry_delay_def retry_consts numeral_2_eq_2)
  then show ?thesis using k query_attempts_result [of sv query read 0 MAX_RETRY_COUNT business_error_new mg]
    by (auto simp: timed_query_def timeout_error_def set_message_def set_code_def MAX_RETRY_COUNT_def split_def Let_def)
qed

text \<open>A query that finds no service fails in silence when it has a timeout. It returns no result set and error code 0, where the
  query without a timeout, and the raw query with one, return -1; and a query refused by the rate limit leaves
  the caller's error as it was.\<close>

theorem unavailable_query_codes:
  assumes up: "fst (count_call (ce_clock env) (ce_clock_after env) ''Query'' uri (mg_call_reporter mg)) = Some over"
    and none: "mg_service_proxy mg = None" "\<And>n. fst (snd (acquire_data_share_remote (sv n) mg)) = None" "ce_answers env = sv 0"
  shows "map_option (\<lambda>(rs, be). (rs, be_code be)) (fst (service_query env uri timeout True sv query read be mg)) =
      Some (None, if over then be_code be else if 0 <s timeout then 0 else -1)
    \<and> map_option (\<lambda>(rs, be). (rs, be_code be)) (fst (service_query_raw env uri timeout True query be mg)) =
      Some (None, if over then be_code be else -1)"
proof -
  let ?mg = "mg\<lparr>mg_call_reporter := snd (snd (count_call (ce_clock env) (ce_clock_after env) ''Query'' uri (mg_call_reporter mg)))\<rparr>"
  have same: "fst (snd (acquire_data_share_remote (sv n) ?mg)) = fst (snd (acquire_data_share_remote (sv n) mg))" for n
    by (auto simp: acquire_data_share_remote_def split: prod.splits option.splits)
  have "fst (snd (manager_get_proxy (sv n) ?mg)) = None" for n
    using none(1) none(2) [of n] same [of n] by (auto simp: manager_get_proxy_def split: prod.splits option.splits)
  then have g: "\<exists>calls mg'. manager_get_proxy (sv n) ?mg = (calls, None, mg')" for n by (metis prod.collapse)
  obtain c0 m0 where g0: "manager_get_proxy (sv 0) ?mg = (c0, None, m0)" using g by blast
  show ?thesis
    using up g0 none(3)
    by (auto simp: service_query_def service_query_raw_def set_call_count_eq timed_query_def timed_query_raw_def MAX_RETRY_COUNT_def
        numeral_3_eq_3 business_error_new_def set_code_def DATA_SHARE_ERROR_def split: bool.splits)
qed

definition no_services :: "nat service_answers" where
  "no_services = \<lparr>sv_check_system_ability = None, sv_load_system_ability = None, sv_feature_interface = (\<lambda>_ _. None), sv_from_stub = False\<rparr>"

theorem unavailable_query_codes_witness:
  "map_option (\<lambda>(rs, be). (rs, be_code be))
     (fst (service_query \<lparr>ce_clock = 5, ce_clock_after = 5, ce_answers = no_services\<rparr> ''uri'' 1000 True (\<lambda>_. no_services)
             (\<lambda>_ _ be. (Some (4 :: nat), be)) (\<lambda>p. Some p) business_error_new (manager_new :: (nat, 'c) manager))) = Some (None, 0)"
proof -
  let ?env = "\<lparr>ce_clock = 5, ce_clock_after = 5, ce_answers = no_services\<rparr>"
  have up: "fst (count_call (ce_clock ?env) (ce_clock_after ?env) ''Query'' ''uri'' (mg_call_reporter (manager_new :: (nat, 'c) manager))) = Some False"
    using run_burst_count [of "[]" "''uri''" "''Query''" 5 5]
    by (simp add: run_calls_def manager_new_def anonymous_def times_of_def burst_def TIME_THRESHOLD_def)
  have "fst (snd (acquire_data_share_remote no_services (manager_new :: (nat, 'c) manager))) = None"
    by (simp add: acquire_data_share_remote_def kv_remote_of_def no_services_def)
  from unavailable_query_codes [OF up, of "\<lambda>_. no_services" 1000 "\<lambda>_ _ be. (Some (4 :: nat), be)" "\<lambda>p. Some p" business_error_new] this
  show ?thesis by (simp add: manager_new_def word_sless_alt)
qed


section \<open>Properties of observers\<close>

definition silent_ok :: "silent_observers \<Rightarrow> bool" where
  "silent_ok obs \<longleftrightarrow> distinct (map fst obs) \<and> (\<forall>e \<in> set obs. snd e \<noteq> [])"

lemma set_push_uri: "fst ` set (push_uri uri oid obs) = insert oid (fst ` set obs)"
  by (induction obs) auto

lemma silent_ok_push: "silent_ok obs \<Longrightarrow> silent_ok (push_uri uri oid obs)"
proof (induction obs)
  case (Cons e obs)
  then show ?case using set_push_uri [of uri oid obs] by (auto simp: silent_ok_def)
qed (simp add: silent_ok_def)

lemma observer_position_Some:
  "observer_position oid obs = Some pos \<Longrightarrow> pos < length obs \<and> fst (obs ! pos) = oid"
  by (induction obs arbitrary: pos) (auto split: if_splits)

lemma observer_position_None: "observer_position oid obs = None \<longleftrightarrow> oid \<notin> fst ` set obs"
  by (induction obs) auto

lemma mset_swap_remove: "i < length xs \<Longrightarrow> mset (swap_remove i xs) = mset xs - {#xs ! i#}"
proof -
  assume i: "i < length xs"
  then obtain ys y where xs: "xs = ys @ [y]" by (cases xs rule: rev_cases) auto
  show ?thesis using i by (auto simp: swap_remove_def xs list_update_append nth_append mset_update)
qed

lemma silent_ok_mset: "mset xs \<subseteq># mset ys \<Longrightarrow> silent_ok ys \<Longrightarrow> silent_ok xs"
proof -
  assume a: "mset xs \<subseteq># mset ys" "silent_ok ys"
  obtain M where "mset ys = mset xs + M" using a(1) by (metis mset_subset_eq_exists_conv)
  moreover obtain zs where "mset zs = M" using ex_mset by blast
  ultimately have "mset (map fst ys) = mset (map fst (xs @ zs))" by simp
  then have "distinct (map fst xs)" using a(2) mset_eq_imp_distinct_iff by (fastforce simp: silent_ok_def)
  moreover have "set xs \<subseteq> set ys" using set_mset_mono [OF a(1)] by simp
  ultimately show ?thesis using a(2) by (auto simp: silent_ok_def)
qed


lemma silent_ok_drop: "silent_ok obs \<Longrightarrow> silent_ok (drop_uri uri oid obs)"
proof (cases "observer_position oid obs")
  case (Some pos)
  assume ok: "silent_ok obs"
  have pos: "pos < length obs" using observer_position_Some [OF Some] by simp
  let ?uris = "filter (\<lambda>u. u \<noteq> uri) (snd (obs ! pos))"
  show ?thesis
  proof (cases "?uris = []")
    case True
    have "mset (swap_remove pos obs) \<subseteq># mset obs" using mset_swap_remove [OF pos] by simp
    then show ?thesis using ok silent_ok_mset True Some by (simp add: drop_uri_def Let_def)
  next
    case False
    have "map fst (obs[pos := (fst (obs ! pos), ?uris)]) = map fst obs" using pos list_update_id [of "map fst obs" pos] by (simp add: map_update)
    then show ?thesis using ok False Some set_update_subset_insert [of obs pos]
      by (auto simp: drop_uri_def Let_def silent_ok_def dest!: subsetD [OF set_update_subset_insert])
  qed
qed (simp add: drop_uri_def)

lemma push_uri_new: "oid \<notin> fst ` set obs \<Longrightarrow> push_uri uri oid obs = obs @ [(oid, [uri])]"
  by (induction obs) auto

lemma push_uri_last: "oid \<notin> fst ` set obs \<Longrightarrow> push_uri uri oid (obs @ [(oid, uris)]) = obs @ [(oid, uris @ [uri])]"
  by (induction obs) auto

lemma fold_push_more:
  "oid \<notin> fst ` set obs \<Longrightarrow> fold (\<lambda>uri. push_uri uri oid) us (obs @ [(oid, uris)]) = obs @ [(oid, uris @ us)]"
  by (induction us arbitrary: uris) (simp_all add: push_uri_last)

lemma fold_push_entry:
  assumes "oid \<notin> fst ` set obs" "uris \<noteq> []"
  shows "fold (\<lambda>uri. push_uri uri oid) uris obs = obs @ [(oid, uris)]"
proof (cases uris)
  case (Cons u us)
  then show ?thesis using push_uri_new [OF assms(1)] fold_push_more [OF assms(1), of us "[u]"] by simp
qed (use assms in simp)

lemma fold_map_pairs: "fold (\<lambda>(uri, oid). push_uri uri oid) (map (\<lambda>uri. (uri, k)) uris) obs = fold (\<lambda>uri. push_uri uri k) uris obs"
  by (induction uris arbitrary: obs) simp_all

lemma re_register_rebuilds:
  "silent_ok (acc @ obs) \<Longrightarrow>
     fold (\<lambda>(uri, oid). push_uri uri oid) (concat (map (\<lambda>(oid, uris). map (\<lambda>uri. (uri, oid)) uris) obs)) acc = acc @ obs"
proof (induction obs arbitrary: acc)
  case (Cons e obs)
  obtain oid uris where e: "e = (oid, uris)" by (cases e)
  have "oid \<notin> fst ` set acc" "uris \<noteq> []" using Cons.prems by (auto simp: e silent_ok_def)
  then have "fold (\<lambda>uri. push_uri uri oid) uris acc = acc @ [e]" using fold_push_entry e by simp
  then show ?case using Cons.IH [of "acc @ [e]"] Cons.prems by (simp add: e fold_map_pairs)
qed simp

text \<open>The operations on the observers, in any order.\<close>

datatype silent_op = RegisterSilent string u64 | UnregisterSilent string u64 | ServiceRestarted

fun silent_do :: "silent_op \<Rightarrow> service_controller \<Rightarrow> service_controller" where
  "silent_do (RegisterSilent uri oid) sc = snd (service_register_observer (\<lambda>_ _. 0) uri oid sc)"
| "silent_do (UnregisterSilent uri oid) sc = snd (service_unregister_observer (\<lambda>_ _. 0) uri oid sc)"
| "silent_do ServiceRestarted sc = snd (re_register_observer sc)"

lemma re_register_same:
  "silent_ok (sc_observers sc) \<Longrightarrow> snd (re_register_observer sc) = sc"
  using re_register_rebuilds [of "[]" "sc_observers sc"] by (simp add: re_register_observer_def Let_def)

lemma silent_run_ok: "silent_ok (sc_observers (fold silent_do ops (service_controller_new next_id ext_uri)))"
proof (induction ops rule: rev_induct)
  case (snoc op ops)
  then show ?case
    by (cases op) (simp_all add: service_register_observer_def service_unregister_observer_def silent_ok_push silent_ok_drop re_register_same)
qed (simp add: service_controller_new_def silent_ok_def)

text \<open>A restart of the service loses no observer. After any sequence of registrations, removals and restarts, the callback asks
  for the registration of exactly the recorded pairs of a URI and an observer, each as often as it is recorded and
  in order, and leaves the controller as it was.\<close>

theorem restart_reregisters:
  "let sc = fold silent_do ops (service_controller_new next_id ext_uri); (asked, sc') = re_register_observer sc
   in sc' = sc \<and> asked = [(uri, oid). (oid, uris) \<leftarrow> sc_observers sc, uri \<leftarrow> uris]
      \<and> distinct (map fst (sc_observers sc)) \<and> (\<forall>(oid, uris) \<in> set (sc_observers sc). uris \<noteq> [])"
proof -
  let ?sc = "fold silent_do ops (service_controller_new next_id ext_uri)"
  have ok: "silent_ok (sc_observers ?sc)" by (rule silent_run_ok)
  show ?thesis using re_register_same [OF ok] ok
    by (auto simp: re_register_observer_def Let_def silent_ok_def)
qed

text \<open>What a registration and a removal do to the pairs.\<close>

definition silent_pairs :: "silent_observers \<Rightarrow> (string \<times> u64) multiset" where
  "silent_pairs obs = mset (concat (map (\<lambda>(oid, uris). map (\<lambda>uri. (uri, oid)) uris) obs))"

lemma silent_pairs_simps [simp]:
  "silent_pairs [] = {#}" "silent_pairs ((oid, uris) # obs) = mset (map (\<lambda>uri. (uri, oid)) uris) + silent_pairs obs"
  by (simp_all add: silent_pairs_def)

lemma silent_pairs_push: "silent_pairs (push_uri uri oid obs) = add_mset (uri, oid) (silent_pairs obs)"
  by (induction obs) auto


lemma silent_pairs_mset: "mset xs = mset ys \<Longrightarrow> silent_pairs xs = silent_pairs ys"
proof -
  have "silent_pairs zs = \<Sum>\<^sub># (image_mset (\<lambda>(oid, uris). mset (map (\<lambda>uri. (uri, oid)) uris)) (mset zs))" for zs
    by (induction zs) auto
  then show "mset xs = mset ys \<Longrightarrow> ?thesis" by simp
qed


lemma silent_pairs_other: "oid \<notin> fst ` set obs \<Longrightarrow> filter_mset (\<lambda>p. p \<noteq> (uri, oid)) (silent_pairs obs) = silent_pairs obs"
  by (induction obs) (auto simp: filter_mset_eq_conv)

lemma silent_pairs_append: "silent_pairs (xs @ ys) = silent_pairs xs + silent_pairs ys"
  by (simp add: silent_pairs_def)

lemma silent_pairs_drop:
  assumes ok: "silent_ok obs"
  shows "silent_pairs (drop_uri uri oid obs) = filter_mset (\<lambda>p. p \<noteq> (uri, oid)) (silent_pairs obs)"
proof (cases "observer_position oid obs")
  case None
  then have "oid \<notin> fst ` set obs" using observer_position_None by blast
  from silent_pairs_other [OF this, of uri] show ?thesis using None by (simp add: drop_uri_def)
next
  case (Some pos)
  have pos: "pos < length obs" "fst (obs ! pos) = oid" using observer_position_Some [OF Some] by simp_all
  obtain a b us where obs: "obs = a @ (oid, us) # b" "length a = pos"
    using id_take_nth_drop [OF pos(1)] pos by (metis length_take min.absorb4 prod.collapse)
  have other: "oid \<notin> fst ` set a" "oid \<notin> fst ` set b" using ok obs(1) by (auto simp: silent_ok_def)
  let ?us = "filter (\<lambda>u. u \<noteq> uri) us"
  have "filter_mset (\<lambda>p. p \<noteq> (uri, oid)) (mset (map (\<lambda>u. (u, oid)) us)) = mset (map (\<lambda>u. (u, oid)) ?us)"
    by (induction us) auto
  then have r: "filter_mset (\<lambda>p. p \<noteq> (uri, oid)) (silent_pairs obs) =
      silent_pairs a + (mset (map (\<lambda>u. (u, oid)) ?us) + silent_pairs b)"
    unfolding obs(1) silent_pairs_append by (simp add: silent_pairs_other [OF other(1)] silent_pairs_other [OF other(2)])
  have nth: "obs ! pos = (oid, us)" using obs by (metis nth_append_length)
  show ?thesis
  proof (cases "?us = []")
    case True
    have "mset (swap_remove pos obs) = mset (a @ b)" using mset_swap_remove [OF pos(1)] nth obs(1) by simp
    then have "silent_pairs (swap_remove pos obs) = silent_pairs a + silent_pairs b"
      using silent_pairs_mset silent_pairs_append by metis
    then show ?thesis using True r Some nth by (simp add: drop_uri_def Let_def)
  next
    case False
    have "obs[pos := (oid, ?us)] = a @ (oid, ?us) # b" using obs by (auto simp: list_update_append)
    then show ?thesis using False r Some nth by (simp add: drop_uri_def Let_def silent_pairs_append)
  qed
qed

lemma silent_pairs_ops:
  assumes ok: "silent_ok (sc_observers sc)"
  shows "silent_pairs (sc_observers (snd (service_register_observer answer uri oid sc))) = add_mset (uri, oid) (silent_pairs (sc_observers sc))
    \<and> silent_pairs (sc_observers (snd (service_unregister_observer answer uri oid sc))) =
        filter_mset (\<lambda>p. p \<noteq> (uri, oid)) (silent_pairs (sc_observers sc))
    \<and> silent_pairs (sc_observers (snd (re_register_observer sc))) = silent_pairs (sc_observers sc)"
  unfolding re_register_same [OF ok]
  by (simp add: service_register_observer_def service_unregister_observer_def silent_pairs_push silent_pairs_drop [OF ok])

text \<open>C26: The observer list implements a multiset of pairs of a URI and an observer. After any sequence of operations, a registration
  adds one pair, a removal takes away every copy of its pair and no other, and a restart changes nothing, whatever the
  order in which entries are moved inside the list.\<close>

theorem observers_refine_pairs:
  "let sc = fold silent_do ops (service_controller_new next_id ext_uri); pairs = (\<lambda>sc. silent_pairs (sc_observers sc))
   in pairs (snd (service_register_observer answer uri oid sc)) = add_mset (uri, oid) (pairs sc)
      \<and> pairs (snd (service_unregister_observer answer uri oid sc)) = filter_mset (\<lambda>p. p \<noteq> (uri, oid)) (pairs sc)
      \<and> pairs (snd (re_register_observer sc)) = pairs sc"
  unfolding Let_def by (rule silent_pairs_ops) (rule silent_run_ok)

text \<open>The extension URI is changed exactly by a URI that is accepted.\<close>

lemma set_ext_uri_spec:
  "set_ext_uri uri sc = (code, sc') \<Longrightarrow>
     (code = 0 \<longleftrightarrow> is_ext_uri uri) \<and> sc_observers sc' = sc_observers sc \<and> sc_ext_uri sc' = (if is_ext_uri uri then uri else sc_ext_uri sc)"
  by (auto simp: set_ext_uri_def)

end
