(* ===== verification/Provider_Controller.thy ===== *)
theory Provider_Controller
  imports Connection Service_Controller
begin

text \<open>
  \<open>controller/provider_impl.rs\<close> and \<open>controller/ext_special.rs\<close>: the controllers of the path to an extension. Every
  operation gets the proxy of the connection and asks it, or answers with a value of its own when there is none;
  the observer operations use the raw pointer of the connection instead. The methods of the proxy and of the
  C++ bridge are parameters.
\<close>

section \<open>Getting the proxy\<close>

text \<open>One call: what a connect request returns and what the ability manager calls back during the wait, if anything.\<close>

record 'r conn_env =
  en_from_ciremote :: "u64 \<Rightarrow> 'r option"
  en_register :: register_answer
  en_handle :: u64
  en_callback :: "u64 option"

definition get_data_share_proxy :: "'r conn_env \<Rightarrow> 'r connection \<Rightarrow> 'r option \<times> ext_call list \<times> 'r connection" where
  "get_data_share_proxy env cn =
     (case get_data_share_proxy_start (en_handle env) cn of
        (Some proxy, calls, cn') \<Rightarrow> (Some proxy, calls, cn')
      | (None, calls, cn') \<Rightarrow>
          (let (calls', cn'') = (case en_callback env of
                                   Some raw \<Rightarrow> on_connect_ffi (en_from_ciremote env) (en_register env) raw cn'
                                 | None \<Rightarrow> ([], cn'))
           in (get_data_share_proxy_end cn'', calls @ calls', cn'')))"

definition obtain_proxy :: "'r conn_env \<Rightarrow> 'r connection \<Rightarrow> 'r option \<times> 'r connection" where
  "obtain_proxy env cn = (fst (get_data_share_proxy env cn), snd (snd (get_data_share_proxy env cn)))"

interpretation conn_source: proxy_source "obtain_proxy env" cn_proxy for env :: "'r conn_env"
  by unfold_locales
    (auto simp: obtain_proxy_def get_data_share_proxy_def get_data_share_proxy_start_def get_proxy_def get_data_share_proxy_end_def
      Let_def split: option.splits prod.splits)

definition with_proxy :: "'a \<Rightarrow> 'r conn_env \<Rightarrow> ('r \<Rightarrow> 'a) \<Rightarrow> 'r connection \<Rightarrow> 'a \<times> 'r connection" where
  "with_proxy dflt env method cn =
     (case obtain_proxy env cn of (Some proxy, cn') \<Rightarrow> (method proxy, cn') | (None, cn') \<Rightarrow> (dflt, cn'))"

lemma with_proxy_serve: "with_proxy dflt env method cn = conn_source.serve env dflt method cn"
  by (simp add: with_proxy_def conn_source.serve_def)

section \<open>provider_impl.rs\<close>

definition provider_insert :: "'r conn_env \<Rightarrow> string \<Rightarrow> data_share_values_bucket \<Rightarrow> ('r \<Rightarrow> string \<Rightarrow> data_share_values_bucket \<Rightarrow> i32)
    \<Rightarrow> 'r connection \<Rightarrow> i32 \<times> 'r connection" where
  "provider_insert env uri value method cn = with_proxy DATA_SHARE_ERROR env (\<lambda>proxy. method proxy uri value) cn"

definition provider_update :: "'r conn_env \<Rightarrow> string \<Rightarrow> data_share_predicates \<Rightarrow> data_share_values_bucket
    \<Rightarrow> ('r \<Rightarrow> string \<Rightarrow> data_share_predicates \<Rightarrow> data_share_values_bucket \<Rightarrow> i32) \<Rightarrow> 'r connection \<Rightarrow> i32 \<times> 'r connection" where
  "provider_update env uri predicates value method cn = with_proxy DATA_SHARE_ERROR env (\<lambda>proxy. method proxy uri predicates value) cn"

definition provider_delete :: "'r conn_env \<Rightarrow> string \<Rightarrow> data_share_predicates \<Rightarrow> ('r \<Rightarrow> string \<Rightarrow> data_share_predicates \<Rightarrow> i32)
    \<Rightarrow> 'r connection \<Rightarrow> i32 \<times> 'r connection" where
  "provider_delete env uri predicates method cn = with_proxy DATA_SHARE_ERROR env (\<lambda>proxy. method proxy uri predicates) cn"

definition provider_insert_ex :: "'r conn_env \<Rightarrow> string \<Rightarrow> data_share_values_bucket \<Rightarrow> ('r \<Rightarrow> string \<Rightarrow> data_share_values_bucket \<Rightarrow> i32 \<times> i32)
    \<Rightarrow> 'r connection \<Rightarrow> (i32 \<times> i32) \<times> 'r connection" where
  "provider_insert_ex env uri value method cn = with_proxy (DATA_SHARE_ERROR, 0) env (\<lambda>proxy. method proxy uri value) cn"

definition provider_update_ex :: "'r conn_env \<Rightarrow> string \<Rightarrow> data_share_predicates \<Rightarrow> data_share_values_bucket
    \<Rightarrow> ('r \<Rightarrow> string \<Rightarrow> data_share_predicates \<Rightarrow> data_share_values_bucket \<Rightarrow> i32 \<times> i32) \<Rightarrow> 'r connection \<Rightarrow> (i32 \<times> i32) \<times> 'r connection" where
  "provider_update_ex env uri predicates value method cn =
     with_proxy (DATA_SHARE_ERROR, 0) env (\<lambda>proxy. method proxy uri predicates value) cn"

definition provider_delete_ex :: "'r conn_env \<Rightarrow> string \<Rightarrow> data_share_predicates \<Rightarrow> ('r \<Rightarrow> string \<Rightarrow> data_share_predicates \<Rightarrow> i32 \<times> i32)
    \<Rightarrow> 'r connection \<Rightarrow> (i32 \<times> i32) \<times> 'r connection" where
  "provider_delete_ex env uri predicates method cn = with_proxy (DATA_SHARE_ERROR, 0) env (\<lambda>proxy. method proxy uri predicates) cn"

text \<open>\<open>query\<close> of the proxy returns a reply and the business error; \<open>read\<close> makes a result set of a reply.\<close>

definition provider_query_raw :: "'r conn_env \<Rightarrow> ('r \<Rightarrow> business_error \<Rightarrow> 'p option \<times> business_error) \<Rightarrow> business_error
    \<Rightarrow> 'r connection \<Rightarrow> ('p option \<times> business_error) \<times> 'r connection" where
  "provider_query_raw env query be cn = with_proxy (None, set_code DATA_SHARE_ERROR be) env (\<lambda>proxy. query proxy be) cn"

definition provider_query :: "'r conn_env \<Rightarrow> ('r \<Rightarrow> business_error \<Rightarrow> 'p option \<times> business_error) \<Rightarrow> ('p \<Rightarrow> 's option) \<Rightarrow> business_error
    \<Rightarrow> 'r connection \<Rightarrow> ('s option \<times> business_error) \<times> 'r connection" where
  "provider_query env query read be cn =
     with_proxy (None, set_code DATA_SHARE_ERROR be) env (\<lambda>proxy. let (reply, be') = query proxy be in (Option.bind reply read, be')) cn"

text \<open>\<open>bridge\<close> is the answer of the C++ side to the raw pointer of the proxy, the URI and the observer.\<close>

definition provider_register_observer :: "(u64 \<Rightarrow> string \<Rightarrow> u64 \<Rightarrow> i32) \<Rightarrow> string \<Rightarrow> u64 \<Rightarrow> 'r connection \<Rightarrow> i32" where
  "provider_register_observer bridge uri oid cn =
     (if cn_remote_raw cn = 0 then 1066 else if bridge (cn_remote_raw cn) uri oid \<noteq> 0 then 0 else 1070)"

definition provider_unregister_observer :: "(u64 \<Rightarrow> string \<Rightarrow> u64 \<Rightarrow> i32) \<Rightarrow> string \<Rightarrow> u64 \<Rightarrow> 'r connection \<Rightarrow> i32" where
  "provider_unregister_observer bridge uri oid cn =
     (if cn_remote_raw cn = 0 then 1066 else if bridge (cn_remote_raw cn) uri oid \<noteq> 0 then 0 else 1070)"

definition DATASHARE_OBSERVER_FLAG_DESCENDANTS :: u32 where "DATASHARE_OBSERVER_FLAG_DESCENDANTS = 1"

definition register_observer_ext_provider :: "(u64 \<Rightarrow> string \<Rightarrow> u64 \<Rightarrow> u32 \<Rightarrow> i32) \<Rightarrow> string \<Rightarrow> u64 \<Rightarrow> bool \<Rightarrow> 'r connection \<Rightarrow> i32 \<times> 'r connection" where
  "register_observer_ext_provider bridge uri oid is_descendants cn =
     (if cn_remote_raw cn = 0 then (1066, cn)
      else let ret = bridge (cn_remote_raw cn) uri oid (if is_descendants then DATASHARE_OBSERVER_FLAG_DESCENDANTS else 0)
           in (ret, if ret = 0 then update_observer_exts_provider_map uri oid is_descendants cn else cn))"

definition unregister_observer_ext_provider :: "(u64 \<Rightarrow> string \<Rightarrow> u64 \<Rightarrow> i32) \<Rightarrow> string \<Rightarrow> u64 \<Rightarrow> 'r connection \<Rightarrow> i32 \<times> 'r connection" where
  "unregister_observer_ext_provider bridge uri oid cn =
     (if cn_remote_raw cn = 0 then (1066, cn)
      else let ret = bridge (cn_remote_raw cn) uri oid
           in (ret, if ret = 0 then delete_observer_exts_provider_map uri oid cn else cn))"

definition provider_notify_change :: "'r conn_env \<Rightarrow> string \<Rightarrow> 'r connection \<Rightarrow> ('r \<times> string) list \<times> 'r connection" where
  "provider_notify_change env uri cn = with_proxy [] env (\<lambda>proxy. [(proxy, uri)]) cn"

definition notify_change_ext_provider :: "'r conn_env \<Rightarrow> ('r \<Rightarrow> i32) \<Rightarrow> 'r connection \<Rightarrow> i32 \<times> 'r connection" where
  "notify_change_ext_provider env method cn = with_proxy 1066 env method cn"

section \<open>ext_special.rs\<close>

definition INVALID_VALUE :: i32 where "INVALID_VALUE = -1"

definition ext_open_file where
  "ext_open_file env uri mode method cn = with_proxy INVALID_VALUE env (\<lambda>proxy. method proxy (uri :: string) (mode :: string)) cn"

definition open_file_with_err_code where
  "open_file_with_err_code env uri mode method cn =
     with_proxy (INVALID_VALUE, 0 :: i32) env (\<lambda>proxy. method proxy (uri :: string) (mode :: string)) cn"

definition open_raw_file where
  "open_raw_file env uri mode method cn = with_proxy INVALID_VALUE env (\<lambda>proxy. method proxy (uri :: string) (mode :: string)) cn"

definition ext_get_type where
  "ext_get_type env uri method cn = with_proxy ([] :: string) env (\<lambda>proxy. method proxy (uri :: string)) cn"

definition ext_batch_insert where
  "ext_batch_insert env uri values method cn =
     with_proxy INVALID_VALUE env (\<lambda>proxy. method proxy (uri :: string) (values :: data_share_values_bucket list)) cn"

text \<open>The methods of the proxy return their code with the results they fill in.\<close>

definition ext_batch_update where
  "ext_batch_update env operations method cn = with_proxy INVALID_VALUE env (\<lambda>proxy. fst (method proxy operations [])) cn"

definition ext_batch_update_ex where
  "ext_batch_update_ex env operations results method cn = with_proxy (INVALID_VALUE, results) env (\<lambda>proxy. method proxy operations results) cn"

definition ext_insert_ext where
  "ext_insert_ext env uri value method cn =
     with_proxy (INVALID_VALUE, [] :: string) env (\<lambda>proxy. method proxy (uri :: string) (value :: data_share_values_bucket)) cn"

definition ext_execute_batch where
  "ext_execute_batch env statements empty_result method cn =
     with_proxy INVALID_VALUE env (\<lambda>proxy. fst (method proxy statements empty_result)) cn"

definition ext_execute_batch_ex where
  "ext_execute_batch_ex env statements result_set method cn =
     with_proxy (INVALID_VALUE, result_set) env (\<lambda>proxy. method proxy statements result_set) cn"

definition ext_execute_batch_blob where
  "ext_execute_batch_blob env blob empty_result method cn =
     with_proxy INVALID_VALUE env (\<lambda>proxy. fst (method proxy (blob :: bytes) empty_result)) cn"

definition ext_normalize_uri where
  "ext_normalize_uri env uri method cn = with_proxy ([] :: string) env (\<lambda>proxy. method proxy (uri :: string)) cn"

definition ext_denormalize_uri where
  "ext_denormalize_uri env uri method cn = with_proxy ([] :: string) env (\<lambda>proxy. method proxy (uri :: string)) cn"

definition ext_get_file_types where
  "ext_get_file_types env uri mime_type_filter method cn =
     with_proxy ([] :: string list) env (\<lambda>proxy. method proxy (uri :: string) (mime_type_filter :: string)) cn"

definition ext_user_define_func where
  "ext_user_define_func env data method cn = with_proxy None env (\<lambda>proxy. method proxy data) cn"


section \<open>Properties\<close>

text \<open>All operations between two callbacks use one proxy. When an operation was served by a proxy, every later one is served by
  the same proxy and asks for no new connection; when it was not, the answer is the operation's own value for
  no proxy.\<close>

theorem operations_share_proxy:
  assumes "with_proxy dflt env meth cn = (a, cn')"
  shows "(cn_proxy cn' = None \<longrightarrow> a = dflt)
    \<and> (\<forall>r. cn_proxy cn' = Some r \<longrightarrow> a = meth r
         \<and> with_proxy dflt' env' meth' cn' = (meth' r, cn') \<and> fst (snd (get_data_share_proxy env' cn')) = [])"
  using conn_source.serve_result [of env dflt meth cn a cn'] conn_source.serve_again [of env dflt meth cn a cn'] assms
  by (auto simp: with_proxy_serve conn_source.serve_cached get_data_share_proxy_def get_data_share_proxy_start_def get_proxy_def)

definition example_env :: "u64 conn_env" where
  "example_env = \<lparr>en_from_ciremote = example_remote, en_register = example_register, en_handle = 8, en_callback = Some 4\<rparr>"

theorem operations_share_proxy_witness:
  "fst (ext_get_type (example_env\<lparr>en_callback := None\<rparr>) ''datashare:///x'' (\<lambda>r uri. if r = 4 then ''text'' else ''none'')
          (snd (ext_open_file example_env ''datashare:///x'' ''r'' (\<lambda>r uri mode. 9) (connection_new ''datashare:///x'' 2)))) = ''text''"
proof -
  obtain a cn' where o: "with_proxy INVALID_VALUE example_env (\<lambda>proxy. 9) (connection_new ''datashare:///x'' 2) = (a, cn')"
    by (cases "with_proxy INVALID_VALUE example_env (\<lambda>proxy. 9) (connection_new ''datashare:///x'' 2)")
  then have "cn_proxy cn' = Some 4"
    by (auto simp: with_proxy_def obtain_proxy_def get_data_share_proxy_def get_data_share_proxy_end_def example_env_def conn_eval)
  then show ?thesis
    using operations_share_proxy [OF o, where dflt' = "[] :: string" and env' = "example_env\<lparr>en_callback := None\<rparr>"
        and meth' = "\<lambda>r. if r = 4 then ''text'' else ''none''"] o by (simp add: ext_get_type_def ext_open_file_def)
qed

text \<open>An observer of the extension survives the loss of the connection. An observer that the extension accepted is asked for again
  when the connection comes back, however often it was lost before, and it is kept if that registration succeeds;
  until then a registration is refused with 1066.\<close>

theorem observer_survives_loss:
  assumes run: "step_runs (conn_step fc reg) (connection_new_with_token_raw u token w) ls cn"
    and reg: "register_observer_ext_provider bridge uri oid d cn = (0, cn1)"
    and active: "cn_callback_active cn" "\<not> cn_is_invalid cn"
    and lost: "on_disconnect_ffi h cn1 = (calls2, cn2)" and answered: "on_connect_ffi fc reg raw cn2 = (calls3, cn3)" and r: "fc raw = Some r"
  shows "register_observer_ext_provider bridge' uri' oid' d' cn2 = (1066, cn2) \<and> cn_proxy cn3 = Some r
    \<and> RegisterExt uri oid d \<in> set calls3
    \<and> (reg uri oid d = 0 \<longrightarrow> \<lparr>op_uri = uri, op_is_descendants = d\<rparr> \<in> set (params_of (cn_observers cn3) oid))"
proof -
  have cn1: "cn1 = update_observer_exts_provider_map uri oid d cn"
    using reg by (auto simp: register_observer_ext_provider_def Let_def split: if_splits)
  have ok1: "conn_ok cn1" using reachable_ok [OF run] by (simp add: cn1 update_observer_exts_provider_map_def conn_ok_def)
  have act1: "cn_callback_active cn1" "\<not> cn_is_invalid cn1" using active by (simp_all add: cn1 update_observer_exts_provider_map_def)
  have "conn_ok (snd (on_disconnect_ffi h cn1))" using conn_do_ok [OF ok1, of fc reg "DisconnectCallback h"] by simp
  then have ok2: "conn_ok cn2" by (simp add: lost)
  have loss: "cn_remote_raw cn2 = 0 \<and> cn_observers cn2 = cn_observers cn1 \<and> cn_is_reconnect cn2"
    using loss_core [OF ok1 act1(1), of h] lost by (simp add: Let_def)
  have act2: "cn_callback_active cn2 \<and> \<not> cn_is_invalid cn2"
    using lost act1 by (auto simp: on_disconnect_ffi_def on_ability_disconnect_done_def reconnect_ext_ability_def
        delay_connect_ext_ability_def connect_ext_def store_handle_def split: if_splits)
  have step: "conn_step fc reg cn2 (ConnectCallback raw, calls3) cn3"
    using answered act2 ok2 by (auto simp: conn_step_iff conn_enabled_def conn_ok_def)
  have rec: "reconnected fc cn2 (ConnectCallback raw, calls3)" using r act2 loss by simp
  have mem: "\<lparr>op_uri = uri, op_is_descendants = d\<rparr> \<in> set (params_of (cn_observers cn2) oid)"
    using loss by (simp add: cn1 update_observer_exts_provider_map_def)
  have "RegisterExt uri oid d \<in> set (filter (concerns oid) calls3)"
    using reregisters_core [OF ok2 rec step] mem by (force simp del: set_filter)
  then have "RegisterExt uri oid d \<in> set calls3" by simp
  then show ?thesis using reregisters_core [OF ok2 rec step] mem r loss by (auto simp: register_observer_ext_provider_def)
qed

theorem observer_survives_loss_witness:
  "\<exists>calls2 cn2 calls3 cn3. on_disconnect_ffi 0 (snd (register_observer_ext_provider (\<lambda>_ _ _ _. 0) ''a'' 1 True connected)) = (calls2, cn2)
     \<and> on_connect_ffi example_remote example_register 5 cn2 = (calls3, cn3) \<and> RegisterExt ''a'' 1 True \<in> set calls3"
proof -
  obtain ls where run: "step_runs (conn_step example_remote example_register) (connection_new_with_token_raw ''datashare:///x'' 3 2) ls connected"
    using connected_run by blast
  have c: "cn_remote_raw connected = 4" "cn_callback_active connected" "\<not> cn_is_invalid connected"
    by (simp_all add: connected_def conn_eval)
  obtain cn1 where reg: "register_observer_ext_provider (\<lambda>_ _ _ _. 0) ''a'' 1 True connected = (0, cn1)"
    by (simp add: register_observer_ext_provider_def c)
  obtain calls2 cn2 where lost: "on_disconnect_ffi 0 cn1 = (calls2, cn2)" by (cases "on_disconnect_ffi 0 cn1")
  obtain calls3 cn3 where answered: "on_connect_ffi example_remote example_register 5 cn2 = (calls3, cn3)"
    by (cases "on_connect_ffi example_remote example_register 5 cn2")
  have "example_remote 5 = Some 5" by (simp add: example_remote_def)
  from observer_survives_loss [OF run reg c(2,3) lost answered this] show ?thesis using reg lost answered by auto
qed

text \<open>A proxy that was handed in cannot be observed. A new connection into which the client puts a remote object serves every
  operation through it, without connecting; but it has no raw pointer, so every registration and removal of an observer is
  refused with 1066, as on a connection that was never made.\<close>

theorem injected_proxy_cannot_observe:
  "let cn = connection_new_with_token_raw uri token w; injected = set_proxy_from_remote r cn in
     with_proxy dflt env meth injected = (meth r, injected)
     \<and> (\<forall>cn \<in> {cn, injected}.
          provider_register_observer bridge ouri oid cn = 1066 \<and> provider_unregister_observer bridge ouri oid cn = 1066
          \<and> register_observer_ext_provider bridge' ouri oid d cn = (1066, cn)
          \<and> unregister_observer_ext_provider bridge ouri oid cn = (1066, cn))"
  by (simp add: Let_def with_proxy_serve conn_source.serve_cached set_proxy_from_remote_def conn_defs provider_register_observer_def
      provider_unregister_observer_def register_observer_ext_provider_def unregister_observer_ext_provider_def)

theorem injected_proxy_cannot_observe_witness:
  "register_observer_ext_provider (\<lambda>_ _ _ _. 0) ''uri1'' 1 False (connection_new_with_token_raw ''datashare:///test'' 0 2 :: u64 connection) =
     (1066, connection_new_with_token_raw ''datashare:///test'' 0 2)"
  using injected_proxy_cannot_observe [where uri = "''datashare:///test''" and token = 0 and w = 2 and r = "7 :: u64"
      and dflt = "0 :: nat" and env = example_env and meth = "\<lambda>_. 1" and bridge = "\<lambda>_ _ _. 0"
      and bridge' = "\<lambda>_ _ _ _. 0" and ouri = "''uri1''" and oid = 1 and d = False]
  by (simp add: Let_def)

end
