(* ===== verification/Data_Types.thy ===== *)
theory Data_Types
  imports Values Predicates Statements
begin

text \<open>
  The remaining data of \<open>datashare_common_rust\<close>: \<open>types.rs\<close> (batch updates, exec results, published
  items, change nodes, data proxy types), \<open>template.rs\<close> and \<open>observer.rs\<close>. The numbered enumerations
  interpret the locales of \<open>Errors\<close>. A published blob lives in an ashmem region of the third-party
  crate \<open>utils_rust\<close>: the calls on it are the fields of the record \<open>ashmem_api\<close>, and what the code
  relies on is the predicate \<open>ashmem_ok\<close>.
\<close>

section \<open>Templates\<close>

record predicate_template_node =
  tn_key :: string
  tn_select_sql :: string

definition predicate_template_node_new :: "string \<Rightarrow> string \<Rightarrow> predicate_template_node" where
  "predicate_template_node_new key select_sql = \<lparr>tn_key = key, tn_select_sql = select_sql\<rparr>"

record template =
  tpl_update :: string
  tpl_predicates :: "predicate_template_node list"
  tpl_scheduler :: string

definition template_new :: template where
  "template_new = \<lparr>tpl_update = [], tpl_predicates = [], tpl_scheduler = []\<rparr>"

definition with_predicates :: "predicate_template_node list \<Rightarrow> string \<Rightarrow> template" where
  "with_predicates ps scheduler = \<lparr>tpl_update = [], tpl_predicates = ps, tpl_scheduler = scheduler\<rparr>"

definition template_full :: "string \<Rightarrow> predicate_template_node list \<Rightarrow> string \<Rightarrow> template" where
  "template_full upd ps scheduler = \<lparr>tpl_update = upd, tpl_predicates = ps, tpl_scheduler = scheduler\<rparr>"

definition add_predicate :: "predicate_template_node \<Rightarrow> template \<Rightarrow> template" where
  "add_predicate p t = t\<lparr>tpl_predicates := tpl_predicates t @ [p]\<rparr>"

definition set_update :: "string \<Rightarrow> template \<Rightarrow> template" where
  "set_update s t = t\<lparr>tpl_update := s\<rparr>"

definition set_scheduler :: "string \<Rightarrow> template \<Rightarrow> template" where
  "set_scheduler s t = t\<lparr>tpl_scheduler := s\<rparr>"

record template_id =
  ti_subscriber_id :: i64
  ti_bundle_name :: string

definition template_id_new :: "i64 \<Rightarrow> string \<Rightarrow> template_id" where
  "template_id_new i n = \<lparr>ti_subscriber_id = i, ti_bundle_name = n\<rparr>"

definition DEFAULT_WAITTIME :: i32 where
  "DEFAULT_WAITTIME = 2"

record create_options =
  co_is_proxy :: bool
  co_token :: "bytes option"
  co_enabled :: bool
  co_wait_time :: i32

definition create_options_new :: create_options where
  "create_options_new = \<lparr>co_is_proxy = False, co_token = None, co_enabled = True, co_wait_time = DEFAULT_WAITTIME\<rparr>"

definition create_options_proxy :: create_options where
  "create_options_proxy = \<lparr>co_is_proxy = True, co_token = None, co_enabled = True, co_wait_time = DEFAULT_WAITTIME\<rparr>"

section \<open>Observers\<close>

datatype change_type = ChInsert | ChDelete | ChUpdate | ChOther | ChInvalid

primrec change_type_code :: "change_type \<Rightarrow> u32" where
  "change_type_code ChInsert = 0"
| "change_type_code ChDelete = 1"
| "change_type_code ChUpdate = 2"
| "change_type_code ChOther = 3"
| "change_type_code ChInvalid = 4"

definition change_type_from_u32 :: "u32 \<Rightarrow> change_type" where
  "change_type_from_u32 v =
     (if v = 0 then ChInsert else if v = 1 then ChDelete else if v = 2 then ChUpdate else if v = 3 then ChOther else ChInvalid)"

record change_info =
  ci_change_type :: change_type
  ci_uris :: "string list"
  ci_data :: bytes
  ci_value_buckets :: "vbucket list"

definition change_info_new :: "change_type \<Rightarrow> change_info" where
  "change_info_new t = \<lparr>ci_change_type = t, ci_uris = [], ci_data = [], ci_value_buckets = []\<rparr>"

definition add_uri :: "string \<Rightarrow> change_info \<Rightarrow> change_info" where
  "add_uri u c = c\<lparr>ci_uris := ci_uris c @ [u]\<rparr>"

definition add_uris :: "string list \<Rightarrow> change_info \<Rightarrow> change_info" where
  "add_uris us c = c\<lparr>ci_uris := ci_uris c @ us\<rparr>"

definition set_data :: "bytes \<Rightarrow> change_info \<Rightarrow> change_info" where
  "set_data d c = c\<lparr>ci_data := d\<rparr>"

definition add_value_bucket :: "vbucket \<Rightarrow> change_info \<Rightarrow> change_info" where
  "add_value_bucket b c = c\<lparr>ci_value_buckets := ci_value_buckets c @ [b]\<rparr>"

definition add_value_buckets :: "vbucket list \<Rightarrow> change_info \<Rightarrow> change_info" where
  "add_value_buckets bs c = c\<lparr>ci_value_buckets := ci_value_buckets c @ bs\<rparr>"

section \<open>Batch updates and exec results\<close>

record update_operation =
  uo_values_bucket :: data_share_values_bucket
  uo_predicates :: data_share_predicates

type_synonym update_operations = "(string, update_operation list) btree"

definition update_operations_insert ::
  "string \<Rightarrow> update_operation list \<Rightarrow> update_operations \<Rightarrow> update_operation list option \<times> update_operations" where
  "update_operations_insert k v m = (bt_get m k, bt_insert k v m)"

record batch_update_result =
  bu_uri :: string
  bu_codes :: "i32 list"

datatype exec_error_code = ExecSuccess | ExecFailed | ExecPartialSuccess

primrec exec_error_code_code :: "exec_error_code \<Rightarrow> i32" where
  "exec_error_code_code ExecSuccess = 0"
| "exec_error_code_code ExecFailed = 1"
| "exec_error_code_code ExecPartialSuccess = 2"

definition exec_error_code_from_i32 :: "i32 \<Rightarrow> exec_error_code" where
  "exec_error_code_from_i32 v =
     (if v = 0 then ExecSuccess else if v = 1 then ExecFailed else if v = 2 then ExecPartialSuccess else ExecFailed)"

record exec_result =
  er_operation_type :: operation
  er_code :: i32
  er_message :: string

record exec_result_set =
  ers_error_code :: exec_error_code
  ers_results :: "exec_result list"

record operation_result =
  or_key :: string
  or_err_code :: i32

definition operation_result_new :: "string \<Rightarrow> i32 \<Rightarrow> operation_result" where
  "operation_result_new k e = \<lparr>or_key = k, or_err_code = e\<rparr>"

section \<open>Data proxy\<close>

datatype data_proxy_error_code = ProxySuccess | UriNotExist | NoPermission | OverLimit | InnerError

primrec data_proxy_error_code_code :: "data_proxy_error_code \<Rightarrow> i32" where
  "data_proxy_error_code_code ProxySuccess = 0"
| "data_proxy_error_code_code UriNotExist = 1"
| "data_proxy_error_code_code NoPermission = 2"
| "data_proxy_error_code_code OverLimit = 3"
| "data_proxy_error_code_code InnerError = 4"

definition data_proxy_error_code_from_i32 :: "i32 \<Rightarrow> data_proxy_error_code" where
  "data_proxy_error_code_from_i32 v =
     (if v = 0 then ProxySuccess else if v = 1 then UriNotExist else if v = 2 then NoPermission
      else if v = 3 then OverLimit else InnerError)"

datatype data_proxy_value_type = ProxyTypeInt | ProxyTypeDouble | ProxyTypeString | ProxyTypeBool

datatype data_proxy_value = ProxyInt i64 | ProxyDouble f64 | ProxyString string | ProxyBool bool

definition data_proxy_value_default :: data_proxy_value where
  "data_proxy_value_default = ProxyString []"

primrec proxy_value_type :: "data_proxy_value \<Rightarrow> data_proxy_value_type" where
  "proxy_value_type (ProxyInt v) = ProxyTypeInt"
| "proxy_value_type (ProxyDouble v) = ProxyTypeDouble"
| "proxy_value_type (ProxyString v) = ProxyTypeString"
| "proxy_value_type (ProxyBool v) = ProxyTypeBool"

primrec proxy_type_index :: "data_proxy_value \<Rightarrow> u32" where
  "proxy_type_index (ProxyInt v) = 0"
| "proxy_type_index (ProxyDouble v) = 1"
| "proxy_type_index (ProxyString v) = 2"
| "proxy_type_index (ProxyBool v) = 3"

datatype data_proxy_type = SharedConfig

datatype data_proxy_max_value_length = MaxLength4K | MaxLength100K

primrec max_value_length_code :: "data_proxy_max_value_length \<Rightarrow> i32" where
  "max_value_length_code MaxLength4K = 4096"
| "max_value_length_code MaxLength100K = 102400"

definition max_value_length_from_i32 :: "i32 \<Rightarrow> data_proxy_max_value_length option" where
  "max_value_length_from_i32 v = (if v = 4096 then Some MaxLength4K else if v = 102400 then Some MaxLength100K else None)"

record data_proxy_config =
  pc_proxy_type :: data_proxy_type
  pc_max_value_length :: data_proxy_max_value_length

definition data_proxy_config_default :: data_proxy_config where
  "data_proxy_config_default = \<lparr>pc_proxy_type = SharedConfig, pc_max_value_length = MaxLength4K\<rparr>"

record data_share_proxy_data =
  pd_uri :: string
  pd_value :: data_proxy_value
  pd_allow_list :: "string list"
  pd_is_value_undefined :: bool
  pd_is_allow_list_undefined :: bool

definition data_share_proxy_data_new :: "string \<Rightarrow> data_proxy_value \<Rightarrow> string list \<Rightarrow> data_share_proxy_data" where
  "data_share_proxy_data_new u v al = \<lparr>pd_uri = u, pd_value = v, pd_allow_list = al,
     pd_is_value_undefined = False, pd_is_allow_list_undefined = False\<rparr>"

record data_proxy_result =
  pr_uri :: string
  pr_result :: data_proxy_error_code

definition data_proxy_result_new :: "string \<Rightarrow> data_proxy_error_code \<Rightarrow> data_proxy_result" where
  "data_proxy_result_new u r = \<lparr>pr_uri = u, pr_result = r\<rparr>"

record data_proxy_get_result =
  pg_uri :: string
  pg_result :: data_proxy_error_code
  pg_value :: data_proxy_value
  pg_allow_list :: "string list"

definition data_proxy_get_result_default :: data_proxy_get_result where
  "data_proxy_get_result_default = \<lparr>pg_uri = [], pg_result = ProxySuccess, pg_value = data_proxy_value_default, pg_allow_list = []\<rparr>"

record data_proxy_change_info =
  pi_change_type :: change_type
  pi_uri :: string
  pi_value :: data_proxy_value

definition data_proxy_change_info_default :: data_proxy_change_info where
  "data_proxy_change_info_default = \<lparr>pi_change_type = ChInvalid, pi_uri = [], pi_value = data_proxy_value_default\<rparr>"

lemmas enum_decoders = change_type_from_u32_def exec_error_code_from_i32_def data_proxy_error_code_from_i32_def
  max_value_length_from_i32_def

interpretation change_kind: enum_code_default change_type_code change_type_from_u32 ChInvalid
proof unfold_locales
  show "change_type_from_u32 (change_type_code e) = e" for e by (cases e) (simp_all add: enum_decoders)
  have "c \<in> range change_type_code" if "c \<in> {0, 1, 2, 3}" for c
    using that by (auto intro: range_eqI [where x = ChInsert] range_eqI [where x = ChDelete] range_eqI [where x = ChUpdate]
        range_eqI [where x = ChOther])
  then show "change_type_from_u32 c = ChInvalid" if "c \<notin> range change_type_code" for c
    using that by (auto simp: enum_decoders)
qed

interpretation exec_code: enum_code_default exec_error_code_code exec_error_code_from_i32 ExecFailed
proof unfold_locales
  show "exec_error_code_from_i32 (exec_error_code_code e) = e" for e by (cases e) (simp_all add: enum_decoders)
  have "c \<in> range exec_error_code_code" if "c \<in> {0, 2}" for c
    using that by (auto intro: range_eqI [where x = ExecSuccess] range_eqI [where x = ExecPartialSuccess])
  then show "exec_error_code_from_i32 c = ExecFailed" if "c \<notin> range exec_error_code_code" for c
    using that by (auto simp: enum_decoders)
qed

interpretation proxy_code: enum_code_default data_proxy_error_code_code data_proxy_error_code_from_i32 InnerError
proof unfold_locales
  show "data_proxy_error_code_from_i32 (data_proxy_error_code_code e) = e" for e by (cases e) (simp_all add: enum_decoders)
  have "c \<in> range data_proxy_error_code_code" if "c \<in> {0, 1, 2, 3}" for c
    using that by (auto intro: range_eqI [where x = ProxySuccess] range_eqI [where x = UriNotExist]
        range_eqI [where x = NoPermission] range_eqI [where x = OverLimit])
  then show "data_proxy_error_code_from_i32 c = InnerError" if "c \<notin> range data_proxy_error_code_code" for c
    using that by (auto simp: enum_decoders)
qed

interpretation max_length: enum_code max_value_length_code max_value_length_from_i32
proof unfold_locales
  show "max_value_length_from_i32 (max_value_length_code e) = Some e" for e by (cases e) (simp_all add: enum_decoders)
  show "max_value_length_from_i32 c = Some e \<Longrightarrow> max_value_length_code e = c" for c e
    by (auto simp: enum_decoders split: if_splits)
qed

section \<open>Published items\<close>

text \<open>
  The calls of \<open>utils_rust::ashmem\<close>. A call that changes the region returns the changed handle; a pointer into
  the region is the bytes it points to, \<open>None\<close> for null.
\<close>

record 'a ashmem_api =
  ash_create :: "i32 \<Rightarrow> 'a option"
  ash_map_read_write :: "'a \<Rightarrow> bool \<times> 'a"
  ash_map_read_only :: "'a \<Rightarrow> 'a"
  ash_write :: "bytes \<Rightarrow> i32 \<Rightarrow> i32 \<Rightarrow> 'a \<Rightarrow> bool \<times> 'a"
  ash_read :: "i32 \<Rightarrow> i32 \<Rightarrow> 'a \<Rightarrow> bytes option"
  ash_unmap :: "'a \<Rightarrow> 'a"
  ash_close :: "'a \<Rightarrow> 'a"
  ash_fd :: "'a \<Rightarrow> i32"
  ash_size :: "'a \<Rightarrow> i32"
  ash_readable :: "'a \<Rightarrow> bool"

record 'a ashmem_node =
  an_ashmem :: "'a option"
  an_is_managed :: bool

definition ashmem_node_default :: "'a ashmem_node" where
  "ashmem_node_default = \<lparr>an_ashmem = None, an_is_managed = False\<rparr>"

definition ashmem_node_fd :: "'a ashmem_api \<Rightarrow> 'a ashmem_node \<Rightarrow> i32" where
  "ashmem_node_fd api n = (case an_ashmem n of Some a \<Rightarrow> ash_fd api a | None \<Rightarrow> - 1)"

definition ashmem_node_size :: "'a ashmem_api \<Rightarrow> 'a ashmem_node \<Rightarrow> i32" where
  "ashmem_node_size api n = (case an_ashmem n of Some a \<Rightarrow> ash_size api a | None \<Rightarrow> 0)"

datatype 'a published_data_value = PublishedAshmem "'a ashmem_node" | PublishedString string

datatype published_data_type = PublishedBlobData bytes | PublishedStringData string

record 'a published_data_item =
  it_key :: string
  it_subscriber_id :: i64
  it_value :: "'a published_data_value"

definition create_managed_ashmem_from_blob :: "'a ashmem_api \<Rightarrow> bytes \<Rightarrow> 'a ashmem_node option" where
  "create_managed_ashmem_from_blob api blob =
     (let sz = length blob in
      case ash_create api (of_nat sz) of
        None \<Rightarrow> None
      | Some a \<Rightarrow>
          (case ash_map_read_write api a of
             (False, a) \<Rightarrow> None
           | (True, a) \<Rightarrow>
               (case ash_write api blob (of_nat sz) 0 a of
                  (False, a) \<Rightarrow> None
                | (True, a) \<Rightarrow> Some \<lparr>an_ashmem = Some a, an_is_managed = True\<rparr>)))"

definition read_ashmem_blob :: "'a ashmem_api \<Rightarrow> 'a \<Rightarrow> bytes option \<times> 'a" where
  "read_ashmem_blob api a =
     (let sz = ash_size api a in
      if sint sz \<le> 0 then (Some [], a)
      else (let a = (if \<not> ash_readable api a then ash_map_read_only api a else a)
            in (ash_read api sz 0 a, a)))"

definition item_clear :: "'a published_data_item \<Rightarrow> 'a published_data_item" where
  "item_clear it = it\<lparr>it_value := PublishedString []\<rparr>"

text \<open>What \<open>clear\<close> does to the region it drops.\<close>

definition released_by_clear :: "'a ashmem_api \<Rightarrow> 'a published_data_item \<Rightarrow> 'a option" where
  "released_by_clear api it =
     (case it_value it of
        PublishedAshmem n \<Rightarrow> (if an_is_managed n then map_option (\<lambda>a. ash_close api (ash_unmap api a)) (an_ashmem n) else None)
      | PublishedString s \<Rightarrow> None)"

definition item_set :: "'a ashmem_api \<Rightarrow> published_data_type \<Rightarrow> 'a published_data_item \<Rightarrow> 'a published_data_item" where
  "item_set api data it =
     (let it = item_clear it in
      case data of
        PublishedBlobData blob \<Rightarrow>
          it\<lparr>it_value := PublishedAshmem (case create_managed_ashmem_from_blob api blob of Some n \<Rightarrow> n | None \<Rightarrow> ashmem_node_default)\<rparr>
      | PublishedStringData s \<Rightarrow> it\<lparr>it_value := PublishedString s\<rparr>)"

definition item_new :: "'a ashmem_api \<Rightarrow> string \<Rightarrow> i64 \<Rightarrow> published_data_type \<Rightarrow> 'a published_data_item" where
  "item_new api key subscriber_id data =
     item_set api data \<lparr>it_key = key, it_subscriber_id = subscriber_id, it_value = PublishedString []\<rparr>"

definition item_get_data :: "'a ashmem_api \<Rightarrow> 'a published_data_item \<Rightarrow> published_data_type" where
  "item_get_data api it =
     (case it_value it of
        PublishedAshmem n \<Rightarrow>
          PublishedBlobData (case an_ashmem n of
            Some a \<Rightarrow> (case fst (read_ashmem_blob api a) of Some d \<Rightarrow> d | None \<Rightarrow> [])
          | None \<Rightarrow> [])
      | PublishedString s \<Rightarrow> PublishedStringData s)"

definition is_ashmem :: "'a published_data_item \<Rightarrow> bool" where
  "is_ashmem it = (case it_value it of PublishedAshmem _ \<Rightarrow> True | PublishedString _ \<Rightarrow> False)"

definition set_ashmem_node :: "'a ashmem_node \<Rightarrow> 'a published_data_item \<Rightarrow> 'a published_data_item" where
  "set_ashmem_node n it = it\<lparr>it_value := PublishedAshmem n\<rparr>"

definition move_out_ashmem :: "'a published_data_item \<Rightarrow> 'a ashmem_node option \<times> 'a published_data_item" where
  "move_out_ashmem it =
     (case it_value it of
        PublishedAshmem n \<Rightarrow>
          if \<not> an_is_managed n then (None, it)
          else (Some \<lparr>an_ashmem = an_ashmem n, an_is_managed = True\<rparr>,
                it\<lparr>it_value := PublishedAshmem (n\<lparr>an_is_managed := False, an_ashmem := None\<rparr>)\<rparr>)
      | PublishedString s \<Rightarrow> (None, it))"

record 'a published_data_change_node =
  cn_owner_bundle_name :: string
  cn_datas :: "'a published_data_item list"

definition change_node_default :: "'a published_data_change_node" where
  "change_node_default = \<lparr>cn_owner_bundle_name = [], cn_datas = []\<rparr>"

record 'a rdb_change_node =
  rn_uri :: string
  rn_template_id :: template_id
  rn_data :: "string list"
  rn_is_shared_memory :: bool
  rn_memory :: "'a option"
  rn_size :: i32

definition rdb_change_node_default :: "'a rdb_change_node" where
  "rdb_change_node_default = \<lparr>rn_uri = [], rn_template_id = template_id_new 0 [], rn_data = [],
     rn_is_shared_memory = False, rn_memory = None, rn_size = 0\<rparr>"

text \<open>
  What the code relies on: creating and mapping a region of a positive size and writing exactly its
  bytes succeed, leave it readable and of that size, and reading it returns them.
\<close>

definition ashmem_ok :: "'a ashmem_api \<Rightarrow> bool" where
  "ashmem_ok api \<longleftrightarrow> (\<forall>d. length d < 2 ^ 31 \<longrightarrow>
     (\<exists>a b c. ash_create api (of_nat (length d)) = Some a \<and> ash_map_read_write api a = (True, b)
        \<and> ash_write api d (of_nat (length d)) 0 b = (True, c)
        \<and> ash_size api c = of_nat (length d) \<and> ash_readable api c \<and> ash_read api (of_nat (length d)) 0 c = Some d))"

text \<open>A published item carries its data: what is put into a new item, text or blob, is what the item
  delivers, and the region of a blob has one owner: it can be moved out exactly once, and the item it
  was moved out of is left with an empty blob.\<close>

theorem published_item_roundtrip:
  assumes "ashmem_ok api" and "\<forall>d. data = PublishedBlobData d \<longrightarrow> length d < 2 ^ 31"
  shows "item_get_data api (item_new api key i data) = data
    \<and> it_key (item_new api key i data) = key \<and> it_subscriber_id (item_new api key i data) = i
    \<and> (\<forall>d. data = PublishedBlobData d \<longrightarrow>
         (\<exists>n it. move_out_ashmem (item_new api key i data) = (Some n, it) \<and> an_is_managed n
            \<and> item_get_data api (set_ashmem_node n it) = data
            \<and> item_get_data api it = PublishedBlobData [] \<and> move_out_ashmem it = (None, it)))"
proof (cases data)
  case (PublishedStringData s)
  then show ?thesis by (simp add: item_new_def item_set_def item_clear_def item_get_data_def Let_def)
next
  case (PublishedBlobData d)
  then have d: "length d < 2 ^ 31" using assms(2) by blast
  then obtain a b c where "ash_create api (of_nat (length d)) = Some a" "ash_map_read_write api a = (True, b)"
      "ash_write api d (of_nat (length d)) 0 b = (True, c)" "ash_size api c = of_nat (length d)" "ash_readable api c"
      "ash_read api (of_nat (length d)) 0 c = Some d"
    using assms(1) unfolding ashmem_ok_def by blast
  then have node: "create_managed_ashmem_from_blob api d = Some \<lparr>an_ashmem = Some c, an_is_managed = True\<rparr>"
    and read: "fst (read_ashmem_blob api c) = Some d"
    using d by (auto simp: create_managed_ashmem_from_blob_def read_ashmem_blob_def Let_def sint_of_nat32)
  then show ?thesis
    using PublishedBlobData
    by (simp add: item_new_def item_set_def item_clear_def item_get_data_def move_out_ashmem_def set_ashmem_node_def Let_def)
qed

text \<open>Regions as plain byte lists.\<close>

definition list_ashmem :: "bytes ashmem_api" where
  "list_ashmem = \<lparr>ash_create = \<lambda>n. Some (replicate (unat n) 0), ash_map_read_write = \<lambda>a. (True, a), ash_map_read_only = id,
     ash_write = \<lambda>d n off a. if unat off + length d \<le> length a then (True, take (unat off) a @ d @ drop (unat off + length d) a) else (False, a),
     ash_read = \<lambda>n off a. if unat off + unat n \<le> length a then Some (take (unat n) (drop (unat off) a)) else None,
     ash_unmap = id, ash_close = id, ash_fd = \<lambda>_. 3, ash_size = \<lambda>a. of_nat (length a), ash_readable = \<lambda>_. True\<rparr>"

lemma list_ashmem_ok: "ashmem_ok list_ashmem"
  by (simp add: ashmem_ok_def list_ashmem_def unat_of_nat)

theorem published_item_roundtrip_witness:
  "item_get_data list_ashmem (item_new list_ashmem ''k'' 1 (PublishedBlobData [1, 2, 3])) = PublishedBlobData [1, 2, 3]"
  using published_item_roundtrip [OF list_ashmem_ok, of "PublishedBlobData [1, 2, 3]" "''k''" 1] by simp

end
