(* ===== verification/Callbacks.thy ===== *)
theory Callbacks
  imports Data_Types Rust_Str "HOL-Library.Product_Lexorder"
begin

text \<open>
  What the three subscriber managers share: an ordered map from a key to the list of observers
  registered for it, with the two ways the code changes it (appending an entry, retaining the entries
  of other subscribers and dropping a key whose list is empty). The locale \<open>observer_registry\<close> is the
  contract the managers rely on; each manager interprets it on its own key type.
\<close>

type_synonym ('k, 'e) registry = "('k, 'e list) btree"

definition entries_at :: "('k::linorder, 'e) registry \<Rightarrow> 'k \<Rightarrow> 'e list" where
  "entries_at m k = (case bt_get m k of Some es \<Rightarrow> es | None \<Rightarrow> [])"

text \<open>\<open>entry(key).or_insert_with(Vec::new).push(entry)\<close>.\<close>

definition push_entry :: "'k::linorder \<Rightarrow> 'e \<Rightarrow> ('k, 'e) registry \<Rightarrow> ('k, 'e) registry" where
  "push_entry k e m = bt_insert k (entries_at m k @ [e]) m"

text \<open>\<open>get_mut(key)\<close>, \<open>retain\<close>, and \<open>remove\<close> when nothing is left; the flag tells whether the key went.\<close>

definition retain_at :: "('e \<Rightarrow> bool) \<Rightarrow> 'k::linorder \<Rightarrow> ('k, 'e) registry \<Rightarrow> bool \<times> ('k, 'e) registry" where
  "retain_at keep k m =
     (case bt_get m k of
        None \<Rightarrow> (False, m)
      | Some es \<Rightarrow> (let es' = filter keep es in if es' = [] then (True, bt_remove k m) else (False, bt_insert k es' m)))"

text \<open>\<open>callbacks.retain\<close> over the whole map: the keys dropped, in order, and the map.\<close>

definition retain_all :: "('e \<Rightarrow> bool) \<Rightarrow> ('k::linorder, 'e) registry \<Rightarrow> 'k list \<times> ('k, 'e) registry" where
  "retain_all keep m =
     (map fst (filter (\<lambda>(k, es). filter keep es = []) m),
      filter (\<lambda>(k, es). es \<noteq> []) (map (\<lambda>(k, es). (k, filter keep es)) m))"

text \<open>Changing the list of one key in place (\<open>get_mut\<close> and \<open>iter_mut\<close>).\<close>

definition update_at :: "('e list \<Rightarrow> 'e list) \<Rightarrow> 'k::linorder \<Rightarrow> ('k, 'e) registry \<Rightarrow> ('k, 'e) registry" where
  "update_at f k m = (case bt_get m k of None \<Rightarrow> m | Some es \<Rightarrow> bt_insert k (f es) m)"

text \<open>The invariant: sorted, and no key with an empty list.\<close>

definition registry_ok :: "('k::linorder, 'e) registry \<Rightarrow> bool" where
  "registry_ok m \<longleftrightarrow> bt_ok m \<and> (\<forall>k. bt_get m k \<noteq> Some [])"

lemma registry_ok_Nil [simp]: "registry_ok []"
  by (simp add: registry_ok_def)

lemma entries_at_Nil [simp]: "entries_at [] k = []"
  by (simp add: entries_at_def)

lemma entries_push [simp]: "entries_at (push_entry k e m) j = (if j = k then entries_at m k @ [e] else entries_at m j)"
  by (simp add: entries_at_def push_entry_def bt_get_insert)

lemma registry_ok_push [simp]: "registry_ok m \<Longrightarrow> registry_ok (push_entry k e m)"
  by (auto simp: registry_ok_def push_entry_def bt_get_insert)

lemma entries_retain:
  "registry_ok m \<Longrightarrow> entries_at (snd (retain_at keep k m)) j = (if j = k then filter keep (entries_at m k) else entries_at m j)"
  by (auto simp: entries_at_def retain_at_def registry_ok_def Let_def bt_get_insert bt_get_remove split: option.splits)

lemma registry_ok_retain: "registry_ok m \<Longrightarrow> registry_ok (snd (retain_at keep k m))"
  by (auto simp: retain_at_def registry_ok_def Let_def bt_get_insert bt_get_remove split: option.splits)

lemma retain_dropped_iff:
  "registry_ok m \<Longrightarrow> fst (retain_at keep k m) \<longleftrightarrow> entries_at m k \<noteq> [] \<and> filter keep (entries_at m k) = []"
  by (auto simp: retain_at_def entries_at_def registry_ok_def Let_def split: option.splits)

lemma entries_update:
  "f [] = [] \<Longrightarrow> entries_at (update_at f k m) j = (if j = k then f (entries_at m k) else entries_at m j)"
  by (auto simp: entries_at_def update_at_def bt_get_insert split: option.splits)

lemma registry_ok_update: "registry_ok m \<Longrightarrow> (\<And>es. f es = [] \<longleftrightarrow> es = []) \<Longrightarrow> registry_ok (update_at f k m)"
  by (auto simp: registry_ok_def update_at_def bt_get_insert split: option.splits)

text \<open>The keys of a map are those with entries.\<close>

lemma key_iff: "registry_ok m \<Longrightarrow> k \<in> fst ` set m \<longleftrightarrow> entries_at m k \<noteq> []"
  by (metis bt_get_None_iff entries_at_def option.case_eq_if option.collapse registry_ok_def)

lemma bt_get_filter_map:
  "bt_ok m \<Longrightarrow> bt_get (filter (\<lambda>(k, es). es \<noteq> []) (map (\<lambda>(k, es). (k, filter keep es)) m)) k =
     (case bt_get m k of None \<Rightarrow> None | Some es \<Rightarrow> if filter keep es = [] then None else Some (filter keep es))"
proof (induction m)
  case (Cons p m)
  obtain a es where p: "p = (a, es)" by force
  have "bt_get m a = None" using Cons.prems p by (force simp: bt_get_None_iff)
  then show ?case using Cons p by auto
qed simp

lemma bt_ok_filter_map: "bt_ok m \<Longrightarrow> bt_ok (filter (\<lambda>(k, es). es \<noteq> []) (map (\<lambda>(k, es). (k, filter keep es)) m))"
proof (induction m)
  case (Cons p m)
  then show ?case by (cases p) (auto simp: image_iff)
qed simp

lemma entries_retain_all: "registry_ok m \<Longrightarrow> entries_at (snd (retain_all keep m)) k = filter keep (entries_at m k)"
  by (auto simp: entries_at_def retain_all_def registry_ok_def bt_get_filter_map split: option.splits)

lemma registry_ok_retain_all: "registry_ok m \<Longrightarrow> registry_ok (snd (retain_all keep m))"
  by (auto simp: registry_ok_def retain_all_def bt_ok_filter_map bt_get_filter_map split: option.splits)

lemma retain_all_dropped:
  assumes "registry_ok m"
  shows "k \<in> set (fst (retain_all keep m)) \<longleftrightarrow> entries_at m k \<noteq> [] \<and> filter keep (entries_at m k) = []"
proof
  assume "k \<in> set (fst (retain_all keep m))"
  then obtain es where es: "(k, es) \<in> set m" "filter keep es = []" by (auto simp: retain_all_def)
  then have "bt_get m k = Some es" using assms bt_get_mem by (auto simp: registry_ok_def)
  with es assms show "entries_at m k \<noteq> [] \<and> filter keep (entries_at m k) = []"
    by (auto simp: entries_at_def registry_ok_def)
next
  assume *: "entries_at m k \<noteq> [] \<and> filter keep (entries_at m k) = []"
  then have "bt_get m k = Some (entries_at m k)" by (auto simp: entries_at_def split: option.splits)
  then have "(k, entries_at m k) \<in> set m" by (rule bt_get_SomeD)
  with * show "k \<in> set (fst (retain_all keep m))" by (force simp: retain_all_def)
qed

section \<open>The contract\<close>

locale observer_registry =
  fixes regs :: "'m \<Rightarrow> 'k \<Rightarrow> 'e list" and add :: "'k \<Rightarrow> 'e \<Rightarrow> 'm \<Rightarrow> 'm"
    and retain :: "('e \<Rightarrow> bool) \<Rightarrow> 'k \<Rightarrow> 'm \<Rightarrow> bool \<times> 'm" and inv :: "'m \<Rightarrow> bool"
  assumes regs_add: "inv m \<Longrightarrow> regs (add k e m) j = (if j = k then regs m k @ [e] else regs m j)"
    and regs_retain: "inv m \<Longrightarrow> regs (snd (retain keep k m)) j = (if j = k then filter keep (regs m k) else regs m j)"
    and retain_flag: "inv m \<Longrightarrow> fst (retain keep k m) \<longleftrightarrow> regs m k \<noteq> [] \<and> filter keep (regs m k) = []"
    and inv_add: "inv m \<Longrightarrow> inv (add k e m)"
    and inv_retain: "inv m \<Longrightarrow> inv (snd (retain keep k m))"
begin

lemma inv_retains: "inv m \<Longrightarrow> inv (fold (\<lambda>k m. snd (retain keep k m)) ks m)"
  by (induction ks arbitrary: m) (auto intro: inv_retain)

lemma regs_retains:
  "inv m \<Longrightarrow> regs (fold (\<lambda>k m. snd (retain keep k m)) ks m) j = (if j \<in> set ks then filter keep (regs m j) else regs m j)"
  by (induction ks arbitrary: m) (auto simp: inv_retain regs_retain)

lemma add_then_retain:
  "inv m \<Longrightarrow> \<not> keep e \<Longrightarrow> regs (snd (retain keep k (add k e m))) j = regs (snd (retain keep k m)) j"
  by (simp add: regs_add regs_retain inv_add)

end

text \<open>A URI without its query, \<open>uri.split('?').next().unwrap_or(uri)\<close>.\<close>

definition clear_uri_of :: "string \<Rightarrow> string" where
  "clear_uri_of u = (case split_char (CHR ''?'') u of [] \<Rightarrow> u | x # _ \<Rightarrow> x)"

lemma clear_uri_of_eq: "clear_uri_of u = takeWhile (\<lambda>c. c \<noteq> CHR ''?'') u"
  using hd_split_char [of "CHR ''?''" u] by (auto simp: clear_uri_of_def split: list.splits)

text \<open>An observer of the published and the relational data managers.\<close>

record 'c subscriber_entry =
  se_subscriber :: u64
  se_callback :: 'c
  se_enabled :: bool
  se_notify :: bool

definition entry_new :: "u64 \<Rightarrow> 'c \<Rightarrow> 'c subscriber_entry" where
  "entry_new s cb = \<lparr>se_subscriber = s, se_callback = cb, se_enabled = True, se_notify = False\<rparr>"

end
