(* ===== verification/Published_Manager.thy ===== *)
theory Published_Manager
  imports Callbacks
begin

text \<open>
  \<open>published_data_subscriber_manager.rs\<close>. The data share service is another process: what it answers
  to a call is a function argument of the operation, and every operation returns the calls it made
  with their answers. An observer callback is a value of type \<open>'c\<close>; an operation returns the list of
  callbacks it fired with the change node each was given. The code holds its lock on the registered observers in
  the local parts of an operation and gives it up for the call on the service: each of those parts is a definition
  of its own, atomic under the lock, and an operation is their composition, as it runs when no other operation of
  the manager comes in between. What happens when one does is the subject of the section on overlapping operations.
\<close>

section \<open>Keys\<close>

datatype published_key = PublishedKey (pk_uri: string) (pk_clear_uri: string) (pk_subscriber_id: i64)

text \<open>The derived order: field by field, the identifier as a signed number.\<close>

definition published_key_rank :: "published_key \<Rightarrow> string \<times> string \<times> int" where
  "published_key_rank k = (pk_uri k, pk_clear_uri k, sint (pk_subscriber_id k))"

lemma published_key_rank_inject: "published_key_rank k = published_key_rank l \<longleftrightarrow> k = l"
  by (cases k; cases l) (simp add: published_key_rank_def sint_inject)

instantiation published_key :: linorder
begin

definition less_eq_published_key :: "published_key \<Rightarrow> published_key \<Rightarrow> bool" where
  "less_eq_published_key k l \<longleftrightarrow> published_key_rank k \<le> published_key_rank l"

definition less_published_key :: "published_key \<Rightarrow> published_key \<Rightarrow> bool" where
  "less_published_key k l \<longleftrightarrow> published_key_rank k < published_key_rank l"

instance
proof
  fix k l n :: published_key
  show "k < l \<longleftrightarrow> k \<le> l \<and> \<not> l \<le> k" by (simp add: less_eq_published_key_def less_published_key_def less_le_not_le)
  show "k \<le> k" by (simp add: less_eq_published_key_def)
  show "k \<le> l \<Longrightarrow> l \<le> n \<Longrightarrow> k \<le> n" unfolding less_eq_published_key_def by (rule order_trans)
  show "k \<le> l \<Longrightarrow> l \<le> k \<Longrightarrow> k = l" unfolding less_eq_published_key_def by (simp flip: published_key_rank_inject)
  show "k \<le> l \<or> l \<le> k" unfolding less_eq_published_key_def by (rule linear)
qed

end

definition published_key_new :: "string \<Rightarrow> i64 \<Rightarrow> published_key" where
  "published_key_new uri i = PublishedKey uri (clear_uri_of uri) i"

lemma published_key_new_inject [simp]: "published_key_new u i = published_key_new v j \<longleftrightarrow> u = v \<and> i = j"
  by (auto simp: published_key_new_def)

interpretation pub: observer_registry
  "entries_at :: (published_key, 'e) registry \<Rightarrow> published_key \<Rightarrow> 'e list" push_entry retain_at registry_ok
  by unfold_locales (simp_all add: entries_retain retain_dropped_iff registry_ok_retain)

section \<open>The manager\<close>

record ('c, 'a) published_manager =
  pm_callbacks :: "(published_key, 'c subscriber_entry) registry"
  pm_last :: "(published_key, 'a published_data_change_node) btree"

definition published_manager_new :: "('c, 'a) published_manager" where
  "published_manager_new = \<lparr>pm_callbacks = [], pm_last = []\<rparr>"

text \<open>The calls on the service, with its answers.\<close>

datatype service_call =
    CallSubscribe "string list" i64 "operation_result list"
  | CallUnsubscribe "string list" i64 "operation_result list"
  | CallEnable "string list" i64 "operation_result list"
  | CallDisable "string list" i64 "operation_result list"

type_synonym service_answer = "string list \<Rightarrow> i64 \<Rightarrow> operation_result list"

definition failed_keys :: "i64 \<Rightarrow> operation_result list \<Rightarrow> published_key list" where
  "failed_keys i rs = map (\<lambda>r. published_key_new (or_key r) i) (filter (\<lambda>r. or_err_code r \<noteq> 0) rs)"

definition others :: "u64 \<Rightarrow> 'c subscriber_entry \<Rightarrow> bool" where
  "others s e \<longleftrightarrow> se_subscriber e \<noteq> s"

primrec add_loop :: "u64 \<Rightarrow> 'c \<Rightarrow> i64 \<Rightarrow> string list \<Rightarrow> (published_key, 'c subscriber_entry) registry
    \<Rightarrow> string list \<times> string list \<times> (published_key, 'c subscriber_entry) registry" where
  "add_loop s cb i [] m = ([], [], m)"
| "add_loop s cb i (u # us) m =
     (let k = published_key_new u i; first = (entries_at m k = []);
          (fs, xs, m') = add_loop s cb i us (push_entry k (entry_new s cb) m)
      in if first then (u # fs, xs, m') else (fs, u # xs, m'))"

text \<open>The first locked part of \<open>add_observers\<close>: the URIs to subscribe to, and those that had observers.\<close>

definition pub_add_register :: "u64 \<Rightarrow> string list \<Rightarrow> i64 \<Rightarrow> 'c \<Rightarrow> ('c, 'a) published_manager
    \<Rightarrow> string list \<times> string list \<times> ('c, 'a) published_manager" where
  "pub_add_register s uris i cb pm =
     (let (first_add_uris, existing_uris, m) = add_loop s cb i uris (pm_callbacks pm)
      in (first_add_uris, existing_uris, pm\<lparr>pm_callbacks := m\<rparr>))"

text \<open>The second locked part: the subscriber is withdrawn from the keys the service refused.\<close>

definition pub_add_withdraw :: "u64 \<Rightarrow> i64 \<Rightarrow> operation_result list \<Rightarrow> ('c, 'a) published_manager \<Rightarrow> ('c, 'a) published_manager" where
  "pub_add_withdraw s i sub_results pm =
     pm\<lparr>pm_callbacks := fold (\<lambda>k m. snd (retain_at (others s) k m)) (failed_keys i sub_results) (pm_callbacks pm)\<rparr>"

definition pub_add_observers :: "service_answer \<Rightarrow> u64 \<Rightarrow> string list \<Rightarrow> i64 \<Rightarrow> 'c \<Rightarrow> ('c, 'a) published_manager
    \<Rightarrow> operation_result list \<times> service_call list \<times> ('c, 'a) published_manager" where
  "pub_add_observers svc s uris i cb pm =
     (let (first_add_uris, existing_uris, pm) = pub_add_register s uris i cb pm;
          results = map (\<lambda>u. operation_result_new u 0) existing_uris
      in if first_add_uris = [] then (results, [], pm)
         else (let sub_results = svc first_add_uris i
               in (results @ sub_results, [CallSubscribe first_add_uris i sub_results], pub_add_withdraw s i sub_results pm)))"

primrec del_loop :: "u64 \<Rightarrow> i64 \<Rightarrow> string list \<Rightarrow> (published_key, 'c subscriber_entry) registry
    \<Rightarrow> string list \<times> (published_key, 'c subscriber_entry) registry" where
  "del_loop s i [] m = ([], m)"
| "del_loop s i (u # us) m =
     (let (gone, m) = retain_at (others s) (published_key_new u i) m; (ds, m) = del_loop s i us m
      in (if gone then u # ds else ds, m))"

text \<open>The locked part of \<open>del_observers\<close>: the URIs that lost their last observer.\<close>

definition pub_del_remove :: "u64 \<Rightarrow> string list \<Rightarrow> i64 \<Rightarrow> ('c, 'a) published_manager \<Rightarrow> string list \<times> ('c, 'a) published_manager" where
  "pub_del_remove s uris i pm =
     (let (last_del_uris, m) = del_loop s i uris (pm_callbacks pm) in (last_del_uris, pm\<lparr>pm_callbacks := m\<rparr>))"

definition pub_del_observers :: "service_answer \<Rightarrow> u64 \<Rightarrow> string list \<Rightarrow> i64 \<Rightarrow> ('c, 'a) published_manager
    \<Rightarrow> operation_result list \<times> service_call list \<times> ('c, 'a) published_manager" where
  "pub_del_observers svc s uris i pm =
     (let (last_del_uris, pm) = pub_del_remove s uris i pm
      in if last_del_uris = [] then ([], [], pm)
         else (let rs = svc last_del_uris i in (rs, [CallUnsubscribe last_del_uris i rs], pm)))"

text \<open>The dropped keys by subscriber, in the order of the signed identifiers.\<close>

definition group_keys :: "published_key list \<Rightarrow> (int, string list) btree" where
  "group_keys ks = fold (\<lambda>k g. push_entry (sint (pk_subscriber_id k)) (pk_uri k) g) ks []"

definition pub_del_all_observers :: "service_answer \<Rightarrow> u64 \<Rightarrow> ('c, 'a) published_manager
    \<Rightarrow> operation_result list \<times> service_call list \<times> ('c, 'a) published_manager" where
  "pub_del_all_observers svc s pm =
     (let (last_del_keys, m) = retain_all (others s) (pm_callbacks pm);
          calls = map (\<lambda>(i, us). (us, word_of_int i, svc us (word_of_int i))) (group_keys last_del_keys)
      in (concat (map (\<lambda>(us, i, rs). rs) calls), map (\<lambda>(us, i, rs). CallUnsubscribe us i rs) calls, pm\<lparr>pm_callbacks := m\<rparr>))"

text \<open>\<open>iter().position\<close>.\<close>

primrec position :: "('a \<Rightarrow> bool) \<Rightarrow> 'a list \<Rightarrow> nat option" where
  "position P [] = None"
| "position P (x # xs) = (if P x then Some 0 else map_option Suc (position P xs))"

type_synonym 'c refresh = "(published_key, 'c \<times> bool) registry"

definition enable_step :: "u64 \<Rightarrow> i64 \<Rightarrow> string
    \<Rightarrow> operation_result list \<times> string list \<times> 'c refresh \<times> (published_key, 'c subscriber_entry) registry
    \<Rightarrow> operation_result list \<times> string list \<times> 'c refresh \<times> (published_key, 'c subscriber_entry) registry" where
  "enable_step s i u = (\<lambda>(results, send, refresh, m).
     let k = published_key_new u i in
     case bt_get m k of
       None \<Rightarrow> (results @ [operation_result_new u (- 1)], send, refresh, m)
     | Some es \<Rightarrow>
         (case position (\<lambda>e. se_subscriber e = s) es of
            None \<Rightarrow> (results @ [operation_result_new u (- 1)], send, refresh, m)
          | Some j \<Rightarrow>
              if se_enabled (es ! j) then (results @ [operation_result_new u 0], send, refresh, m)
              else (results, if \<not> list_ex se_enabled es then send @ [u] else send,
                    push_entry k (se_callback (es ! j), se_notify (es ! j)) refresh,
                    bt_insert k (es[j := (es ! j)\<lparr>se_enabled := True\<rparr>]) m)))"

definition disable_subscriber :: "u64 \<Rightarrow> 'c subscriber_entry list \<Rightarrow> 'c subscriber_entry list" where
  "disable_subscriber s = map (\<lambda>e. if se_subscriber e = s then e\<lparr>se_enabled := False\<rparr> else e)"

definition emit_on_enable :: "(published_key, 'a published_data_change_node) btree \<Rightarrow> 'c refresh \<Rightarrow> ('c \<times> 'a published_data_change_node) list" where
  "emit_on_enable last_map refresh =
     concat (map (\<lambda>(k, os). case bt_get last_map k of
                              None \<Rightarrow> []
                            | Some node \<Rightarrow> map (\<lambda>(cb, _). (cb, node)) (filter snd os)) refresh)"

text \<open>The first locked part of \<open>enable_observers\<close>, and the second: what the service refused is disabled again.\<close>

definition pub_enable_mark :: "u64 \<Rightarrow> string list \<Rightarrow> i64 \<Rightarrow> ('c, 'a) published_manager
    \<Rightarrow> operation_result list \<times> string list \<times> 'c refresh \<times> ('c, 'a) published_manager" where
  "pub_enable_mark s uris i pm =
     (let (results, send, refresh, m) = fold (enable_step s i) uris ([], [], [], pm_callbacks pm)
      in (results, send, refresh, pm\<lparr>pm_callbacks := m\<rparr>))"

definition pub_enable_revert :: "u64 \<Rightarrow> i64 \<Rightarrow> operation_result list \<Rightarrow> ('c, 'a) published_manager \<Rightarrow> ('c, 'a) published_manager" where
  "pub_enable_revert s i rs pm =
     pm\<lparr>pm_callbacks := fold (update_at (disable_subscriber s)) (failed_keys i rs) (pm_callbacks pm)\<rparr>"

definition pub_enable_observers :: "service_answer \<Rightarrow> u64 \<Rightarrow> string list \<Rightarrow> i64 \<Rightarrow> ('c, 'a) published_manager
    \<Rightarrow> operation_result list \<times> service_call list \<times> ('c \<times> 'a published_data_change_node) list \<times> ('c, 'a) published_manager" where
  "pub_enable_observers svc s uris i pm =
     (let (results, send, refresh, pm) = pub_enable_mark s uris i pm;
          (results, calls, pm) =
            (if send = [] then (results, [], pm)
             else (let rs = svc send i in (results @ rs, [CallEnable send i rs], pub_enable_revert s i rs pm)))
      in (results, calls, emit_on_enable (pm_last pm) refresh, pm))"

definition disable_entries :: "u64 \<Rightarrow> 'c subscriber_entry list \<Rightarrow> 'c subscriber_entry list" where
  "disable_entries s =
     map (\<lambda>e. if se_subscriber e = s \<and> se_enabled e then e\<lparr>se_enabled := False, se_notify := False\<rparr> else e)"

definition disable_step :: "u64 \<Rightarrow> i64 \<Rightarrow> string
    \<Rightarrow> operation_result list \<times> string list \<times> (published_key, 'c subscriber_entry) registry
    \<Rightarrow> operation_result list \<times> string list \<times> (published_key, 'c subscriber_entry) registry" where
  "disable_step s i u = (\<lambda>(results, last, m).
     let k = published_key_new u i in
     case bt_get m k of
       None \<Rightarrow> (results @ [operation_result_new u (- 1)], last, m)
     | Some es \<Rightarrow>
         if \<not> list_ex se_enabled es then (results @ [operation_result_new u (- 1)], last, m)
         else (let es' = disable_entries s es; m = bt_insert k es' m in
               if \<not> list_ex (\<lambda>e. se_subscriber e = s) es then (results @ [operation_result_new u (- 1)], last, m)
               else if list_ex se_enabled es' then (results @ [operation_result_new u 0], last, m)
               else (results, last @ [u], m)))"

definition pub_disable_observers :: "service_answer \<Rightarrow> u64 \<Rightarrow> string list \<Rightarrow> i64 \<Rightarrow> ('c, 'a) published_manager
    \<Rightarrow> operation_result list \<times> service_call list \<times> ('c, 'a) published_manager" where
  "pub_disable_observers svc s uris i pm =
     (let (results, last_disabled, m) = fold (disable_step s i) uris ([], [], pm_callbacks pm); pm = pm\<lparr>pm_callbacks := m\<rparr>
      in if last_disabled = [] then (results, [], pm)
         else (let rs = svc last_disabled i in (results @ rs, [CallDisable last_disabled i rs], pm)))"

definition pub_recover_observers :: "service_answer \<Rightarrow> ('c, 'a) published_manager \<Rightarrow> service_call list" where
  "pub_recover_observers svc pm =
     map (\<lambda>(k, _). CallSubscribe [pk_uri k] (pk_subscriber_id k) (svc [pk_uri k] (pk_subscriber_id k))) (pm_callbacks pm)"

definition mark_disabled :: "'c subscriber_entry list \<Rightarrow> 'c subscriber_entry list" where
  "mark_disabled = map (\<lambda>e. if \<not> se_enabled e then e\<lparr>se_notify := True\<rparr> else e)"

definition item_key :: "'a published_data_item \<Rightarrow> published_key" where
  "item_key it = published_key_new (it_key it) (it_subscriber_id it)"

definition stored_node :: "'a ashmem_api \<Rightarrow> string \<Rightarrow> 'a published_data_item \<Rightarrow> 'a published_data_change_node" where
  "stored_node api owner it =
     \<lparr>cn_owner_bundle_name = owner, cn_datas = [item_new api (it_key it) (it_subscriber_id it) (item_get_data api it)]\<rparr>"

definition pub_emit :: "'a ashmem_api \<Rightarrow> 'a published_data_change_node \<Rightarrow> ('c, 'a) published_manager
    \<Rightarrow> ('c \<times> 'a published_data_change_node) list \<times> ('c, 'a) published_manager" where
  "pub_emit api node pm =
     (let m = fold (\<lambda>it. update_at mark_disabled (item_key it)) (cn_datas node) (pm_callbacks pm);
          l = fold (\<lambda>it. bt_insert (item_key it) (stored_node api (cn_owner_bundle_name node) it)) (cn_datas node) (pm_last pm)
      in (concat (map (\<lambda>it. map (\<lambda>e. (se_callback e, node)) (filter se_enabled (entries_at m (item_key it)))) (cn_datas node)),
          pm\<lparr>pm_callbacks := m, pm_last := l\<rparr>))"

section \<open>The service in step with the registrations\<close>

text \<open>
  What the service has confirmed: a subscription is confirmed by an answer without error, and is given
  up with the request to unsubscribe.
\<close>

definition confirmed :: "i64 \<Rightarrow> operation_result list \<Rightarrow> (string \<times> i64) set" where
  "confirmed i rs = set (map (\<lambda>r. (or_key r, i)) (filter (\<lambda>r. or_err_code r = 0) rs))"

primrec view_step :: "service_call \<Rightarrow> (string \<times> i64) set \<Rightarrow> (string \<times> i64) set" where
  "view_step (CallSubscribe us i rs) V = V \<union> confirmed i rs"
| "view_step (CallUnsubscribe us i rs) V = V - {(u, i) | u. u \<in> set us}"
| "view_step (CallEnable us i rs) V = V"
| "view_step (CallDisable us i rs) V = V"

text \<open>The keys with a registered observer are exactly the confirmed subscriptions.\<close>

definition registered_keys :: "('c, 'a) published_manager \<Rightarrow> published_key set" where
  "registered_keys pm = {k. entries_at (pm_callbacks pm) k \<noteq> []}"

definition subscribed_keys :: "(string \<times> i64) set \<Rightarrow> published_key set" where
  "subscribed_keys V = (\<lambda>(u, i). published_key_new u i) ` V"

definition in_step :: "('c, 'a) published_manager \<Rightarrow> (string \<times> i64) set \<Rightarrow> bool" where
  "in_step pm V \<longleftrightarrow> registry_ok (pm_callbacks pm) \<and> registered_keys pm = subscribed_keys V"

text \<open>The service answers a request with one result for each of its URIs, in order.\<close>

definition answers_each :: "service_answer \<Rightarrow> bool" where
  "answers_each svc \<longleftrightarrow> (\<forall>us i. map or_key (svc us i) = us)"

definition refuses_none :: "service_answer \<Rightarrow> bool" where
  "refuses_none svc \<longleftrightarrow> (\<forall>us i. \<forall>r \<in> set (svc us i). or_err_code r = 0)"

datatype ('c, 'a) pub_op =
    PubAdd u64 "string list" i64 'c
  | PubDel u64 "string list" i64
  | PubDelAll u64
  | PubEnable u64 "string list" i64
  | PubDisable u64 "string list" i64
  | PubEmit "'a published_data_change_node"
  | PubRecover

primrec pub_exec :: "'a ashmem_api \<Rightarrow> service_answer \<Rightarrow> ('c, 'a) pub_op \<Rightarrow> ('c, 'a) published_manager
    \<Rightarrow> service_call list \<times> ('c, 'a) published_manager" where
  "pub_exec api svc (PubAdd s us i cb) pm = snd (pub_add_observers svc s us i cb pm)"
| "pub_exec api svc (PubDel s us i) pm = snd (pub_del_observers svc s us i pm)"
| "pub_exec api svc (PubDelAll s) pm = snd (pub_del_all_observers svc s pm)"
| "pub_exec api svc (PubEnable s us i) pm = (let (_, calls, _, pm) = pub_enable_observers svc s us i pm in (calls, pm))"
| "pub_exec api svc (PubDisable s us i) pm = snd (pub_disable_observers svc s us i pm)"
| "pub_exec api svc (PubEmit node) pm = ([], snd (pub_emit api node pm))"
| "pub_exec api svc PubRecover pm = (pub_recover_observers svc pm, pm)"

text \<open>The manager recovers its observers when the service was started anew, with no subscription left.\<close>

definition service_view :: "('c, 'a) pub_op \<Rightarrow> service_call list \<Rightarrow> (string \<times> i64) set \<Rightarrow> (string \<times> i64) set" where
  "service_view op calls V = fold view_step calls (if op = PubRecover then {} else V)"

primrec pub_run :: "'a ashmem_api \<Rightarrow> (service_answer \<times> ('c, 'a) pub_op) list
    \<Rightarrow> ('c, 'a) published_manager \<times> (string \<times> i64) set \<Rightarrow> ('c, 'a) published_manager \<times> (string \<times> i64) set" where
  "pub_run api [] st = st"
| "pub_run api (x # xs) st =
     (let (calls, pm) = pub_exec api (fst x) (snd x) (fst st) in pub_run api xs (pm, service_view (snd x) calls (snd st)))"

lemma mem_subscribed [simp]: "published_key_new u i \<in> subscribed_keys V \<longleftrightarrow> (u, i) \<in> V"
  by (auto simp: subscribed_keys_def)

lemma subscribed_Un: "subscribed_keys (V \<union> W) = subscribed_keys V \<union> subscribed_keys W"
  by (simp add: subscribed_keys_def image_Un)

lemma subscribed_Diff: "subscribed_keys (V - W) = subscribed_keys V - subscribed_keys W"
  by (auto simp: subscribed_keys_def)

text \<open>The loops.\<close>

lemma add_loop_spec:
  assumes "add_loop s cb i us m = (fs, xs, m')" and "registry_ok m"
  shows "registry_ok m' \<and> (\<exists>n. entries_at m' k = entries_at m k @ replicate n (entry_new s cb))
    \<and> (entries_at m' k \<noteq> [] \<and> entries_at m k = [] \<longleftrightarrow> (\<exists>u \<in> set fs. k = published_key_new u i)) \<and> distinct fs"
  using assms
proof (induction us arbitrary: m fs xs m' k)
  case Nil
  then show ?case by (auto intro: exI [of _ 0])
next
  case (Cons u us)
  let ?k = "published_key_new u i" and ?e = "entry_new s cb"
  obtain fs1 xs1 m1 where rec: "add_loop s cb i us (push_entry ?k ?e m) = (fs1, xs1, m1)" by (metis prod_cases3)
  then have eq: "m' = m1" "fs = (if entries_at m ?k = [] then u # fs1 else fs1)"
    using Cons.prems(1) by (auto simp: Let_def split: if_splits)
  have ok: "registry_ok (push_entry ?k ?e m)" using Cons.prems(2) by simp
  note IH = Cons.IH [OF rec ok, of k]
  then obtain n where n: "entries_at m1 k = entries_at (push_entry ?k ?e m) k @ replicate n ?e" by blast
  have iff: "entries_at m1 j \<noteq> [] \<and> entries_at (push_entry ?k ?e m) j = [] \<longleftrightarrow> (\<exists>u \<in> set fs1. j = published_key_new u i)" for j
    using Cons.IH [OF rec ok, of j] by blast
  have fresh: "u \<notin> set fs1" using iff [of ?k] by auto
  show ?case
  proof (intro conjI)
    show "registry_ok m'" using IH eq by simp
    show "\<exists>n. entries_at m' k = entries_at m k @ replicate n ?e"
      using n eq by (auto intro: exI [of _ "if k = ?k then Suc n else n"])
    show "entries_at m' k \<noteq> [] \<and> entries_at m k = [] \<longleftrightarrow> (\<exists>u \<in> set fs. k = published_key_new u i)"
      using iff [of k] n eq by (auto split: if_splits)
    show "distinct fs" using IH eq fresh by auto
  qed
qed

lemma del_loop_spec:
  assumes "del_loop s i us m = (ds, m')" and "registry_ok m"
  shows "registry_ok m' \<and> (entries_at m' k \<noteq> [] \<longleftrightarrow> entries_at m k \<noteq> [] \<and> (\<forall>u \<in> set ds. k \<noteq> published_key_new u i))"
  using assms
proof (induction us arbitrary: m ds m')
  case (Cons u us)
  let ?k = "published_key_new u i"
  obtain gone m1 where r: "retain_at (others s) ?k m = (gone, m1)" by force
  obtain ds1 m2 where rec: "del_loop s i us m1 = (ds1, m2)" by force
  have eq: "m' = m2" "ds = (if gone then u # ds1 else ds1)" using Cons.prems(1) r rec by (auto simp: Let_def)
  have m1: "registry_ok m1" "entries_at m1 j = (if j = ?k then filter (others s) (entries_at m ?k) else entries_at m j)"
      "gone \<longleftrightarrow> entries_at m ?k \<noteq> [] \<and> filter (others s) (entries_at m ?k) = []" for j
    using r Cons.prems(2) registry_ok_retain [of m "others s" ?k] entries_retain [of m "others s" ?k] retain_dropped_iff [of m "others s" ?k]
    by auto
  show ?case using Cons.IH [OF rec m1(1)] eq m1(2,3) by (auto split: if_splits)
qed simp

lemma enable_step_ok:
  assumes "enable_step s i u (rs, send, rf, m) = (rs', send', rf', m')" and "registry_ok m"
  shows "registry_ok m' \<and> (entries_at m' k = [] \<longleftrightarrow> entries_at m k = [])"
  using assms
  by (auto simp: enable_step_def Let_def registry_ok_def entries_at_def bt_get_insert split: option.splits if_splits)

lemma enable_fold_ok:
  assumes "fold (enable_step s i) us (rs, send, rf, m) = (rs', send', rf', m')" and "registry_ok m"
  shows "registry_ok m' \<and> (\<forall>k. entries_at m' k = [] \<longleftrightarrow> entries_at m k = [])"
  using assms
proof (induction us arbitrary: rs send rf m)
  case (Cons u us)
  obtain rs1 send1 rf1 m1 where st: "enable_step s i u (rs, send, rf, m) = (rs1, send1, rf1, m1)" by (metis prod_cases4)
  then show ?case using Cons.IH [of rs1 send1 rf1 m1] Cons.prems enable_step_ok [OF st Cons.prems(2)] by auto
qed simp

lemma disable_step_ok:
  assumes "disable_step s i u (rs, l, m) = (rs', l', m')" and "registry_ok m"
  shows "registry_ok m' \<and> (entries_at m' k = [] \<longleftrightarrow> entries_at m k = [])"
  using assms
  by (auto simp: disable_step_def disable_entries_def Let_def registry_ok_def entries_at_def bt_get_insert split: option.splits if_splits)

lemma disable_fold_ok:
  assumes "fold (disable_step s i) us (rs, l, m) = (rs', l', m')" and "registry_ok m"
  shows "registry_ok m' \<and> (\<forall>k. entries_at m' k = [] \<longleftrightarrow> entries_at m k = [])"
  using assms
proof (induction us arbitrary: rs l m)
  case (Cons u us)
  obtain rs1 l1 m1 where st: "disable_step s i u (rs, l, m) = (rs1, l1, m1)" by (metis prod_cases3)
  then show ?case using Cons.IH [of rs1 l1 m1] Cons.prems disable_step_ok [OF st Cons.prems(2)] by auto
qed simp

lemma update_fold_ok:
  assumes "registry_ok m" and "\<And>es. f es = [] \<longleftrightarrow> es = []"
  shows "registry_ok (fold (\<lambda>x. update_at f (key x)) xs m) \<and>
    (\<forall>k. entries_at (fold (\<lambda>x. update_at f (key x)) xs m) k = [] \<longleftrightarrow> entries_at m k = [])"
  using assms(1)
proof (induction xs arbitrary: m)
  case (Cons x xs)
  have "f [] = []" using assms(2) by simp
  then show ?case
    using Cons.IH [of "update_at f (key x) m"] registry_ok_update [OF Cons.prems assms(2)] assms(2)
    by (simp add: entries_update)
qed simp

text \<open>Each operation keeps the two sides in step.\<close>

lemma in_stepI_keys:
  assumes "in_step pm V" and "registry_ok m" and "\<And>k. entries_at m k = [] \<longleftrightarrow> entries_at (pm_callbacks pm) k = []"
  shows "in_step (pm\<lparr>pm_callbacks := m\<rparr>) V"
  using assms by (simp add: in_step_def registered_keys_def)

lemma answered_once:
  assumes "answers_each svc" and "distinct us"
  shows "or_key ` set (svc us i) = set us"
    and "r \<in> set (svc us i) \<Longrightarrow> r' \<in> set (svc us i) \<Longrightarrow> or_key r = or_key r' \<Longrightarrow> r = r'"
proof -
  have m: "map or_key (svc us i) = us" using assms(1) by (simp add: answers_each_def)
  then show "or_key ` set (svc us i) = set us" by (metis set_map)
  have "inj_on or_key (set (svc us i))" using m assms(2) distinct_map by metis
  then show "r \<in> set (svc us i) \<Longrightarrow> r' \<in> set (svc us i) \<Longrightarrow> or_key r = or_key r' \<Longrightarrow> r = r'" by (simp add: inj_on_def)
qed

lemma subscribed_confirmed:
  "k \<in> subscribed_keys (confirmed i rs) \<longleftrightarrow> (\<exists>r \<in> set rs. or_err_code r = 0 \<and> k = published_key_new (or_key r) i)"
  by (auto simp: subscribed_keys_def confirmed_def)

lemma set_failed_keys:
  "k \<in> set (failed_keys i rs) \<longleftrightarrow> (\<exists>r \<in> set rs. or_err_code r \<noteq> 0 \<and> k = published_key_new (or_key r) i)"
  by (auto simp: failed_keys_def)

lemma add_in_step:
  assumes st: "in_step pm V" and svc: "answers_each svc"
    and add: "pub_add_observers svc s us i cb pm = (rs, calls, pm')"
  shows "in_step pm' (fold view_step calls V)"
proof -
  obtain fs xs m where loop: "add_loop s cb i us (pm_callbacks pm) = (fs, xs, m)" by (metis prod_cases3)
  have ok: "registry_ok (pm_callbacks pm)" using st by (simp add: in_step_def)
  note m = add_loop_spec [OF loop ok]
  show ?thesis
  proof (cases "fs = []")
    case True
    then have "pm' = pm\<lparr>pm_callbacks := m\<rparr>" "calls = []" using add loop by (auto simp: pub_add_observers_def pub_add_register_def)
    moreover have "entries_at m k = [] \<longleftrightarrow> entries_at (pm_callbacks pm) k = []" for k using m [of k] True by auto
    ultimately show ?thesis using in_stepI_keys [OF st] m by simp
  next
    case False
    let ?rs = "svc fs i" and ?n = "fold (\<lambda>k m. snd (retain_at (others s) k m)) (failed_keys i (svc fs i)) m"
    have eq: "pm' = pm\<lparr>pm_callbacks := ?n\<rparr>" "calls = [CallSubscribe fs i ?rs]"
      using add loop False by (auto simp: pub_add_observers_def pub_add_register_def pub_add_withdraw_def Let_def)
    have regs: "entries_at ?n k = (if k \<in> set (failed_keys i ?rs) then filter (others s) (entries_at m k) else entries_at m k)" for k
      using m pub.regs_retains by blast
    note once = answered_once [OF svc, where us = fs and i = i]
    have d: "distinct fs" using m by blast
    have keys: "entries_at ?n k \<noteq> [] \<longleftrightarrow> entries_at (pm_callbacks pm) k \<noteq> [] \<or> k \<in> subscribed_keys (confirmed i ?rs)" for k
    proof (cases "\<exists>u \<in> set fs. k = published_key_new u i")
      case True
      then obtain r where r: "r \<in> set ?rs" "k = published_key_new (or_key r) i" using once(1) [OF d] by force
      have e: "entries_at m k \<noteq> []" "entries_at (pm_callbacks pm) k = []" using m [of k] True by auto
      then obtain n where n: "entries_at m k = replicate n (entry_new s cb)" using m [of k] by auto
      have f: "filter (others s) (entries_at m k) = []" unfolding n by (simp add: others_def entry_new_def)
      have "k \<in> set (failed_keys i ?rs) \<longleftrightarrow> or_err_code r \<noteq> 0" "k \<in> subscribed_keys (confirmed i ?rs) \<longleftrightarrow> or_err_code r = 0"
        using r once(2) [OF d] unfolding set_failed_keys subscribed_confirmed by auto
      then show ?thesis using regs [of k] e f by auto
    next
      case False
      then have "k \<notin> set (failed_keys i ?rs)" "k \<notin> subscribed_keys (confirmed i ?rs)"
        using once(1) [OF d] unfolding set_failed_keys subscribed_confirmed by auto
      moreover have "entries_at m k = [] \<longleftrightarrow> entries_at (pm_callbacks pm) k = []" using m [of k] False by auto
      ultimately show ?thesis using regs [of k] by simp
    qed
    have "registry_ok ?n" using m pub.inv_retains by blast
    moreover have "{k. entries_at ?n k \<noteq> []} = registered_keys pm \<union> subscribed_keys (confirmed i ?rs)"
      unfolding keys registered_keys_def by auto
    ultimately show ?thesis using eq st by (simp add: in_step_def subscribed_Un registered_keys_def)
  qed
qed

lemma del_in_step:
  assumes st: "in_step pm V" and del: "pub_del_observers svc s us i pm = (rs, calls, pm')"
  shows "in_step pm' (fold view_step calls V)"
proof -
  obtain ds m where loop: "del_loop s i us (pm_callbacks pm) = (ds, m)" by force
  have ok: "registry_ok (pm_callbacks pm)" using st by (simp add: in_step_def)
  note m = del_loop_spec [OF loop ok]
  have eq: "pm' = pm\<lparr>pm_callbacks := m\<rparr>" "calls = (if ds = [] then [] else [CallUnsubscribe ds i (svc ds i)])"
    using del loop by (auto simp: pub_del_observers_def pub_del_remove_def Let_def split: if_splits)
  have "fold view_step calls V = V - {(u, i) | u. u \<in> set ds}" using eq(2) by auto
  moreover have "{k. entries_at m k \<noteq> []} = registered_keys pm - subscribed_keys {(u, i) | u. u \<in> set ds}"
    using m by (auto simp: registered_keys_def subscribed_keys_def)
  ultimately show ?thesis using m st eq(1) by (simp add: in_step_def subscribed_Diff registered_keys_def)
qed

lemma entries_group_keys:
  "entries_at (fold (\<lambda>k g. push_entry (sint (pk_subscriber_id k)) (pk_uri k) g) ks g) i =
     entries_at g i @ map pk_uri (filter (\<lambda>k. sint (pk_subscriber_id k) = i) ks)"
  by (induction ks arbitrary: g) auto

lemma group_keys_get:
  assumes "(i, us) \<in> set (group_keys ks)"
  shows "us = map pk_uri (filter (\<lambda>k. sint (pk_subscriber_id k) = i) ks)"
proof -
  have "registry_ok (fold (\<lambda>k g. push_entry (sint (pk_subscriber_id k)) (pk_uri k) g) ks g)" if "registry_ok g" for g
    using that by (induction ks arbitrary: g) auto
  then have "bt_ok (group_keys ks)" by (auto simp: group_keys_def registry_ok_def)
  then have "bt_get (group_keys ks) i = Some us" by (rule bt_get_mem [OF _ assms])
  then show ?thesis using entries_group_keys [of ks "[]" i] by (simp add: group_keys_def entries_at_def)
qed

lemma group_keys_cover: "k \<in> set ks \<Longrightarrow> \<exists>us. (sint (pk_subscriber_id k), us) \<in> set (group_keys ks) \<and> pk_uri k \<in> set us"
proof -
  assume k: "k \<in> set ks"
  let ?i = "sint (pk_subscriber_id k)"
  have e: "entries_at (group_keys ks) ?i = map pk_uri (filter (\<lambda>k. sint (pk_subscriber_id k) = ?i) ks)"
    using entries_group_keys [of ks "[]" ?i] by (simp add: group_keys_def)
  have "k \<in> set (filter (\<lambda>k. sint (pk_subscriber_id k) = ?i) ks)" using k by simp
  then have "pk_uri k \<in> set (entries_at (group_keys ks) ?i)" unfolding e set_map by (rule imageI)
  then obtain us where "bt_get (group_keys ks) ?i = Some us" "pk_uri k \<in> set us"
    by (cases "bt_get (group_keys ks) ?i") (simp_all add: entries_at_def)
  then show ?thesis using bt_get_SomeD by metis
qed

lemma view_unsubscribes:
  "fold view_step (map (\<lambda>(us, i, rs). CallUnsubscribe us i rs) cs) V = V - {(u, i) | u i us rs. (us, i, rs) \<in> set cs \<and> u \<in> set us}"
proof (induction cs arbitrary: V)
  case (Cons c cs)
  then show ?case by (cases c) auto
qed simp

lemma del_all_in_step:
  assumes st: "in_step pm V" and del: "pub_del_all_observers svc s pm = (rs, calls, pm')"
  shows "in_step pm' (fold view_step calls V)"
proof -
  obtain ks m where ret: "retain_all (others s) (pm_callbacks pm) = (ks, m)" by force
  have ok: "registry_ok (pm_callbacks pm)" using st by (simp add: in_step_def)
  have m: "registry_ok m" "entries_at m k = filter (others s) (entries_at (pm_callbacks pm) k)"
      "k \<in> set ks \<longleftrightarrow> entries_at (pm_callbacks pm) k \<noteq> [] \<and> filter (others s) (entries_at (pm_callbacks pm) k) = []" for k
    using ret registry_ok_retain_all [OF ok] entries_retain_all [OF ok] retain_all_dropped [OF ok] by (metis fst_conv snd_conv)+
  let ?cs = "map (\<lambda>(i, us). (us, word_of_int i, svc us (word_of_int i))) (group_keys ks)"
  have eq: "pm' = pm\<lparr>pm_callbacks := m\<rparr>" "calls = map (\<lambda>(us, i, rs). CallUnsubscribe us i rs) ?cs"
    using del ret by (auto simp: pub_del_all_observers_def Let_def)
  have key: "k = published_key_new (pk_uri k) (pk_subscriber_id k)" if "k \<in> set ks" for k
  proof -
    have "k \<in> subscribed_keys V" using that m(3) st by (auto simp: in_step_def registered_keys_def)
    then show ?thesis by (auto simp: subscribed_keys_def published_key_new_def)
  qed
  have gone: "{(u, i) | u i us rs. (us, i, rs) \<in> set ?cs \<and> u \<in> set us} = (\<lambda>k. (pk_uri k, pk_subscriber_id k)) ` set ks" (is "?L = ?R")
  proof
    show "?L \<subseteq> ?R"
    proof
      fix x assume "x \<in> ?L"
      then obtain u j us where j: "(j, us) \<in> set (group_keys ks)" "u \<in> set us" "x = (u, word_of_int j)" by auto
      then obtain k where "k \<in> set ks" "pk_uri k = u" "sint (pk_subscriber_id k) = j" using group_keys_get [OF j(1)] by auto
      then show "x \<in> ?R" using j(3) by (auto intro!: image_eqI [of _ _ k])
    qed
    show "?R \<subseteq> ?L"
    proof
      fix x assume "x \<in> ?R"
      then obtain k where k: "k \<in> set ks" "x = (pk_uri k, pk_subscriber_id k)" by auto
      obtain us where us: "(sint (pk_subscriber_id k), us) \<in> set (group_keys ks)" "pk_uri k \<in> set us" using group_keys_cover [OF k(1)] by blast
      have "(us, pk_subscriber_id k, svc us (pk_subscriber_id k)) \<in> set ?cs"
        using us(1) by (auto intro!: image_eqI [of _ _ "(sint (pk_subscriber_id k), us)"])
      then show "x \<in> ?L" using k(2) us(2) by blast
    qed
  qed
  have "subscribed_keys ((\<lambda>k. (pk_uri k, pk_subscriber_id k)) ` set ks) = set ks"
    using key unfolding subscribed_keys_def image_image by force
  moreover have "{k. entries_at m k \<noteq> []} = registered_keys pm - set ks" using m(2,3) by (auto simp: registered_keys_def)
  ultimately show ?thesis
    unfolding eq view_unsubscribes gone using m(1) st by (simp add: in_step_def subscribed_Diff registered_keys_def)
qed

text \<open>Recovering asks for every registered key and no other.\<close>

lemma recover_in_step:
  assumes st: "in_step pm V" and svc: "answers_each svc" "refuses_none svc"
  shows "in_step pm (fold view_step (pub_recover_observers svc pm) {})"
proof -
  have each: "confirmed (pk_subscriber_id k) (svc [pk_uri k] (pk_subscriber_id k)) = {(pk_uri k, pk_subscriber_id k)}" for k
  proof -
    have "map or_key (svc [pk_uri k] (pk_subscriber_id k)) = [pk_uri k]" using svc(1) by (simp add: answers_each_def)
    then obtain r where r: "svc [pk_uri k] (pk_subscriber_id k) = [r]" "or_key r = pk_uri k" by (auto simp: map_eq_Cons_conv)
    then have "or_err_code r = 0" using svc(2) by (metis list.set_intros(1) refuses_none_def)
    then show ?thesis using r by (simp add: confirmed_def)
  qed
  have fold_view: "fold view_step (map (\<lambda>(k, _). CallSubscribe [pk_uri k] (pk_subscriber_id k) (svc [pk_uri k] (pk_subscriber_id k))) xs) W
      = W \<union> (\<lambda>k. (pk_uri k, pk_subscriber_id k)) ` fst ` set xs" for xs :: "(published_key \<times> 'a subscriber_entry list) list" and W
    by (induction xs arbitrary: W) (auto simp: each)
  have keys: "fst ` set (pm_callbacks pm) = registered_keys pm"
    using st key_iff [of "pm_callbacks pm"] by (auto simp: in_step_def registered_keys_def)
  have "subscribed_keys ((\<lambda>k. (pk_uri k, pk_subscriber_id k)) ` subscribed_keys V) = subscribed_keys V"
    by (force simp: subscribed_keys_def published_key_new_def)
  then show ?thesis using st unfolding pub_recover_observers_def fold_view keys by (simp add: in_step_def)
qed

definition answers_ok :: "service_answer \<Rightarrow> ('c, 'a) pub_op \<Rightarrow> bool" where
  "answers_ok svc op \<longleftrightarrow> answers_each svc \<and> (op = PubRecover \<longrightarrow> refuses_none svc)"

lemma exec_in_step:
  assumes st: "in_step pm V" and ans: "answers_ok svc op" and ex: "pub_exec api svc op pm = (calls, pm')"
  shows "in_step pm' (service_view op calls V)"
proof (cases op)
  case (PubAdd s us i cb)
  then show ?thesis using add_in_step [OF st, of svc] ans ex
    by (cases "pub_add_observers svc s us i cb pm") (auto simp: service_view_def answers_ok_def)
next
  case (PubDel s us i)
  then show ?thesis using del_in_step [OF st] ex by (cases "pub_del_observers svc s us i pm") (auto simp: service_view_def)
next
  case (PubDelAll s)
  then show ?thesis using del_all_in_step [OF st] ex by (cases "pub_del_all_observers svc s pm") (auto simp: service_view_def)
next
  case (PubEnable s us i)
  obtain rs send rf m where f: "fold (enable_step s i) us ([], [], [], pm_callbacks pm) = (rs, send, rf, m)" by (metis prod_cases4)
  have m: "registry_ok m" "\<forall>k. entries_at m k = [] \<longleftrightarrow> entries_at (pm_callbacks pm) k = []"
    using enable_fold_ok [OF f] st by (auto simp: in_step_def)
  let ?m = "if send = [] then m else fold (update_at (disable_subscriber s)) (failed_keys i (svc send i)) m"
  have "registry_ok ?m \<and> (\<forall>k. entries_at ?m k = [] \<longleftrightarrow> entries_at m k = [])"
    using update_fold_ok [OF m(1), of "disable_subscriber s" "\<lambda>k. k"] m(1) by (auto simp: disable_subscriber_def)
  moreover have "pm' = pm\<lparr>pm_callbacks := ?m\<rparr>" "service_view op calls V = V"
    using ex PubEnable f
    by (auto simp: pub_enable_observers_def pub_enable_mark_def pub_enable_revert_def service_view_def Let_def split: if_splits)
  ultimately show ?thesis using in_stepI_keys [OF st] m(2) by metis
next
  case (PubDisable s us i)
  obtain rs l m where f: "fold (disable_step s i) us ([], [], pm_callbacks pm) = (rs, l, m)" by (metis prod_cases3)
  have "registry_ok m" "\<forall>k. entries_at m k = [] \<longleftrightarrow> entries_at (pm_callbacks pm) k = []"
    using disable_fold_ok [OF f] st by (auto simp: in_step_def)
  moreover have "pm' = pm\<lparr>pm_callbacks := m\<rparr>" "service_view op calls V = V"
    using ex PubDisable f by (auto simp: pub_disable_observers_def service_view_def Let_def split: if_splits)
  ultimately show ?thesis using in_stepI_keys [OF st] by metis
next
  case (PubEmit node)
  then show ?thesis
    using ex st update_fold_ok [of "pm_callbacks pm" mark_disabled item_key "cn_datas node"]
    by (auto simp: pub_emit_def in_step_def registered_keys_def mark_disabled_def service_view_def Let_def)
next
  case PubRecover
  then show ?thesis using recover_in_step [OF st] ans ex by (auto simp: service_view_def answers_ok_def)
qed

lemma run_in_step:
  assumes "in_step (fst st) (snd st)" and "\<forall>x \<in> set xs. answers_ok (fst x) (snd x)"
  shows "in_step (fst (pub_run api xs st)) (snd (pub_run api xs st))"
  using assms
proof (induction xs arbitrary: st)
  case (Cons x xs)
  obtain calls pm where ex: "pub_exec api (fst x) (snd x) (fst st) = (calls, pm)" by force
  have "in_step pm (service_view (snd x) calls (snd st))" using exec_in_step [OF Cons.prems(1) _ ex] Cons.prems(2) by simp
  then show ?case using Cons.IH [of "(pm, service_view (snd x) calls (snd st))"] Cons.prems(2) ex by simp
qed simp

text \<open>C17: the keys with a registered observer are exactly the subscriptions of the service. Through any sequence of
  operations of the manager that do not overlap, with a service that answers each request with one result for
  each of its URIs, the keys with a registered observer are exactly the keys whose subscription the service has
  confirmed and was not asked to give up since, however it answers (a service that was started anew has to accept
  what \<open>recover_observers\<close> asks for). So no observer waits in vain and no subscription outlives its observers.\<close>

theorem registered_is_subscribed:
  assumes "\<forall>x \<in> set xs. answers_ok (fst x) (snd x)"
    and "pub_run api xs (published_manager_new, {}) = (pm, V)"
  shows "{k. entries_at (pm_callbacks pm) k \<noteq> []} = (\<lambda>(u, i). published_key_new u i) ` V"
  using run_in_step [OF _ assms(1), of "(published_manager_new, {})" api] assms(2)
  by (simp add: in_step_def registered_keys_def subscribed_keys_def published_manager_new_def)

definition agreeing :: service_answer where
  "agreeing us i = map (\<lambda>u. operation_result_new u 0) us"

lemma agreeing_answers: "answers_each agreeing" "refuses_none agreeing"
  by (auto simp: answers_each_def refuses_none_def agreeing_def operation_result_new_def o_def)

theorem registered_is_subscribed_witness:
  "let xs = [(agreeing, PubAdd 1 [''a'', ''b''] 7 ()), (agreeing, PubDel 1 [''a''] 7), (agreeing, PubRecover)];
       st = pub_run list_ashmem xs (published_manager_new, {})
   in {k. entries_at (pm_callbacks (fst st)) k \<noteq> []} = {published_key_new ''b'' 7}"
proof -
  let ?xs = "[(agreeing, PubAdd 1 [''a'', ''b''] 7 ()), (agreeing, PubDel 1 [''a''] 7), (agreeing, PubRecover)]"
  obtain pm V where r: "pub_run list_ashmem ?xs (published_manager_new, {}) = (pm, V)" by force
  have "V = {(''b'', 7)}"
    using arg_cong [OF r, of snd]
    by (auto simp: Let_def pub_add_observers_def pub_add_register_def pub_add_withdraw_def pub_del_observers_def pub_del_remove_def
        pub_recover_observers_def published_manager_new_def agreeing_def failed_keys_def service_view_def
        push_entry_def entries_at_def retain_at_def others_def entry_new_def confirmed_def operation_result_new_def
        less_published_key_def published_key_rank_def published_key_new_def clear_uri_of_eq)
  then show ?thesis using registered_is_subscribed [OF _ r] agreeing_answers r by (simp add: answers_ok_def Let_def)
qed

text \<open>Without that assumption on the service. The proxy answers a failed transmission with an empty list, and
  the manager takes it for success: the observer stays registered with nothing subscribed, and the
  next observer of the same key is told success without another attempt.\<close>

theorem lost_reply_loses_subscription:
  "let (rs, calls, pm) = pub_add_observers (\<lambda>us i. []) 1 [''a''] 7 cb (published_manager_new :: (_, unit) published_manager);
       (rs', calls', pm') = pub_add_observers agreeing 2 [''a''] 7 cb pm
   in rs = [] \<and> fold view_step calls {} = {} \<and> length (entries_at (pm_callbacks pm) (published_key_new ''a'' 7)) = 1
    \<and> rs' = [operation_result_new ''a'' 0] \<and> calls' = [] \<and> length (entries_at (pm_callbacks pm') (published_key_new ''a'' 7)) = 2"
  by (simp add: pub_add_observers_def pub_add_register_def pub_add_withdraw_def published_manager_new_def failed_keys_def push_entry_def
      entries_at_def confirmed_def)

text \<open>Nor does recovering look at the answers: an observer whose subscription the restarted service refuses stays registered.\<close>

theorem recover_ignores_refusal:
  "let svc = (\<lambda>us i. map (\<lambda>u. operation_result_new u 1) us); pm = snd (snd (pub_add_observers agreeing 1 [''a''] 7 () published_manager_new))
   in answers_each svc \<and> service_view (PubRecover :: (unit, unit) pub_op) (fst (pub_exec list_ashmem svc PubRecover pm)) {(''a'', 7)} = {}
      \<and> entries_at (pm_callbacks (snd (pub_exec list_ashmem svc PubRecover pm))) (published_key_new ''a'' 7) \<noteq> []"
  by (simp add: pub_add_observers_def pub_add_register_def pub_add_withdraw_def published_manager_new_def failed_keys_def push_entry_def
      entries_at_def confirmed_def agreeing_def operation_result_new_def pub_recover_observers_def service_view_def answers_each_def
      published_key_new_def entry_new_def o_def Let_def)

section \<open>Overlapping operations\<close>

text \<open>The lock is not held across the call on the service, so another operation may come in between. When the last observer
  of a key is removed and, before the request to unsubscribe is sent, another thread registers an observer for the
  key and subscribes it, the late request gives up the subscription the new observer just got: its registration
  was reported as a success, it stays registered, and the service does not notify it.\<close>

theorem overlapping_del_unsubscribes:
  "let pm0 = snd (snd (pub_add_observers agreeing 1 [''a''] 7 () (published_manager_new :: (unit, unit) published_manager)));
       (del_uris, pm1) = pub_del_remove 1 [''a''] 7 pm0;
       (rs, add_calls, pm2) = pub_add_observers agreeing 2 [''a''] 7 () pm1;
       calls = add_calls @ [CallUnsubscribe del_uris 7 (agreeing del_uris 7)]
   in rs = [operation_result_new ''a'' 0] \<and> fold view_step calls {(''a'', 7)} = {}
      \<and> map se_subscriber (entries_at (pm_callbacks pm2) (published_key_new ''a'' 7)) = [2]"
  by (simp add: pub_add_observers_def pub_add_register_def pub_add_withdraw_def pub_del_remove_def published_manager_new_def failed_keys_def
      push_entry_def entries_at_def retain_at_def others_def confirmed_def agreeing_def operation_result_new_def entry_new_def Let_def)

section \<open>Changes while disabled\<close>

lemma position_map: "(\<And>x. P (f x) = P x) \<Longrightarrow> position P (map f xs) = position P xs"
  by (induction xs) auto

lemma position_SomeD: "position P xs = Some j \<Longrightarrow> j < length xs \<and> P (xs ! j)"
  by (induction xs arbitrary: j) (auto split: if_splits)

lemma mark_disabled_idem: "mark_disabled (mark_disabled es) = mark_disabled es"
  by (simp add: mark_disabled_def o_def)

lemma marked_entries:
  assumes "registry_ok m"
  shows "entries_at (fold (\<lambda>it. update_at mark_disabled (item_key it)) its m) k =
    (if k \<in> item_key ` set its then mark_disabled (entries_at m k) else entries_at m k)"
  using assms
proof (induction its arbitrary: m)
  case (Cons it its)
  have nil: "mark_disabled [] = []" by (simp add: mark_disabled_def)
  have "registry_ok (update_at mark_disabled (item_key it) m)"
    using Cons.prems by (intro registry_ok_update) (auto simp: mark_disabled_def)
  then show ?case using Cons.IH by (auto simp: entries_update nil mark_disabled_idem)
qed simp

lemma last_stored:
  assumes "\<forall>y \<in> set ys. item_key y \<noteq> item_key it"
  shows "bt_get (fold (\<lambda>it. bt_insert (item_key it) (f it)) (xs @ it # ys) l) (item_key it) = Some (f it)"
proof -
  have "bt_get (fold (\<lambda>it. bt_insert (item_key it) (f it)) ys l) (item_key it) = bt_get l (item_key it)" for l
    using assms by (induction ys arbitrary: l) (auto simp: bt_get_insert)
  then show ?thesis by (simp add: bt_get_insert)
qed

lemma get_entries: "registry_ok m \<Longrightarrow> entries_at m k \<noteq> [] \<Longrightarrow> bt_get m k = Some (entries_at m k)"
  by (auto simp: entries_at_def split: option.splits)

lemma disabled_state:
  assumes ok: "registry_ok (pm_callbacks pm)"
    and e: "position (\<lambda>e. se_subscriber e = s) (entries_at (pm_callbacks pm) (published_key_new u i)) = Some j"
      "se_enabled (entries_at (pm_callbacks pm) (published_key_new u i) ! j)"
    and d: "pub_disable_observers svc s [u] i pm = (rs, calls, pm')"
  shows "entries_at (pm_callbacks pm') (published_key_new u i) = disable_entries s (entries_at (pm_callbacks pm) (published_key_new u i))
    \<and> registry_ok (pm_callbacks pm') \<and> pm_last pm' = pm_last pm"
proof -
  let ?k = "published_key_new u i" and ?es = "entries_at (pm_callbacks pm) (published_key_new u i)"
  have j: "j < length ?es" "se_subscriber (?es ! j) = s" using position_SomeD [OF e(1)] by auto
  have "?es \<noteq> []" using j by auto
  then have get: "bt_get (pm_callbacks pm) ?k = Some ?es" by (rule get_entries [OF ok])
  have en: "list_ex se_enabled ?es" "list_ex (\<lambda>e. se_subscriber e = s) ?es" using j e(2) by (auto simp: list_ex_length)
  have "pm' = pm\<lparr>pm_callbacks := bt_insert ?k (disable_entries s ?es) (pm_callbacks pm)\<rparr>"
    using d get en by (auto simp: pub_disable_observers_def disable_step_def Let_def split: if_splits)
  moreover have "disable_entries s ?es \<noteq> []" using j by (auto simp: disable_entries_def)
  ultimately show ?thesis using ok by (auto simp: entries_at_def bt_get_insert registry_ok_def)
qed

text \<open>C18: a change missed while disabled is delivered when the observer is enabled again: for an observer that was
  enabled, is disabled, misses a change node with data for its key and is enabled, enabling fires its
  callback exactly once, with the last of those data, whatever the service answered.\<close>

theorem missed_change_replayed:
  fixes pm :: "('c, 'a) published_manager"
  assumes ok: "registry_ok (pm_callbacks pm)"
    and e: "position (\<lambda>e. se_subscriber e = s) (entries_at (pm_callbacks pm) (published_key_new u i)) = Some j"
      "se_enabled (entries_at (pm_callbacks pm) (published_key_new u i) ! j)"
    and d: "pub_disable_observers svc1 s [u] i pm = (rs1, calls1, pm1)"
    and node: "cn_datas node = xs @ it # ys" "item_key it = published_key_new u i" "\<forall>y \<in> set ys. item_key y \<noteq> item_key it"
    and em: "pub_emit api node pm1 = (fired2, pm2)"
    and en: "pub_enable_observers svc3 s [u] i pm2 = (rs3, calls3, fired3, pm3)"
  shows "fired3 = [(se_callback (entries_at (pm_callbacks pm) (published_key_new u i) ! j), stored_node api (cn_owner_bundle_name node) it)]"
proof -
  let ?k = "published_key_new u i" and ?es = "entries_at (pm_callbacks pm) (published_key_new u i)"
  have j: "j < length ?es" "se_subscriber (?es ! j) = s" using position_SomeD [OF e(1)] by auto
  have pm1: "entries_at (pm_callbacks pm1) ?k = disable_entries s ?es" "registry_ok (pm_callbacks pm1)"
    using disabled_state [OF ok e d] by auto
  let ?m2 = "fold (\<lambda>it. update_at mark_disabled (item_key it)) (cn_datas node) (pm_callbacks pm1)"
  have pm2: "pm_callbacks pm2 = ?m2" "bt_get (pm_last pm2) ?k = Some (stored_node api (cn_owner_bundle_name node) it)"
    using em last_stored [OF node(3), of "stored_node api (cn_owner_bundle_name node)" xs "pm_last pm1"] node(1,2)
    by (auto simp: pub_emit_def Let_def)
  let ?es2 = "mark_disabled (disable_entries s ?es)"
  have "?k \<in> item_key ` set (cn_datas node)" using node(1,2) by (auto simp: image_iff)
  then have ent: "entries_at ?m2 ?k = ?es2" using marked_entries [OF pm1(2), of "cn_datas node" ?k] pm1(1) by simp
  have "registry_ok ?m2" using update_fold_ok [OF pm1(2), of mark_disabled item_key] by (auto simp: mark_disabled_def)
  moreover have "?es2 \<noteq> []" using j by (auto simp: mark_disabled_def disable_entries_def)
  ultimately have get: "bt_get ?m2 ?k = Some ?es2" using get_entries [of ?m2 ?k] ent by simp
  have pos: "position (\<lambda>e. se_subscriber e = s) ?es2 = Some j"
    using e(1) by (simp add: mark_disabled_def disable_entries_def position_map)
  have at: "?es2 ! j = (?es ! j)\<lparr>se_enabled := False, se_notify := True\<rparr>"
    using j e(2) by (simp add: mark_disabled_def disable_entries_def)
  show ?thesis
    using en get pos at pm2
    by (auto simp: pub_enable_observers_def pub_enable_mark_def pub_enable_revert_def enable_step_def emit_on_enable_def push_entry_def entries_at_def Let_def split: if_splits)
qed

theorem missed_change_replayed_witness:
  "let k = published_key_new ''a'' 7;
       pm = \<lparr>pm_callbacks = push_entry k (entry_new 1 (5 :: nat)) [], pm_last = []\<rparr>;
       (_, _, pm1) = pub_disable_observers agreeing 1 [''a''] 7 pm;
       (_, pm2) = pub_emit list_ashmem \<lparr>cn_owner_bundle_name = ''o'', cn_datas = [item_new list_ashmem ''a'' 7 (PublishedStringData ''x'')]\<rparr> pm1;
       (_, _, fired, _) = pub_enable_observers agreeing 1 [''a''] 7 pm2
   in map fst fired = [5]"
proof -
  let ?k = "published_key_new ''a'' 7" and ?it = "item_new list_ashmem ''a'' 7 (PublishedStringData ''x'')"
  let ?node = "\<lparr>cn_owner_bundle_name = ''o'', cn_datas = [?it]\<rparr>"
  let ?pm = "\<lparr>pm_callbacks = push_entry ?k (entry_new 1 (5 :: nat)) [], pm_last = []\<rparr> :: (nat, bytes) published_manager"
  obtain rs1 calls1 pm1 where d: "pub_disable_observers agreeing 1 [''a''] 7 ?pm = (rs1, calls1, pm1)" by (metis prod_cases3)
  obtain f2 pm2 where em: "pub_emit list_ashmem ?node pm1 = (f2, pm2)" by force
  obtain rs3 calls3 f3 pm3 where en: "pub_enable_observers agreeing 1 [''a''] 7 pm2 = (rs3, calls3, f3, pm3)" by (metis prod_cases4)
  have "f3 = [(se_callback (entries_at (pm_callbacks ?pm) ?k ! 0), stored_node list_ashmem (cn_owner_bundle_name ?node) ?it)]"
    by (rule missed_change_replayed [OF _ _ _ d _ _ _ em en, of 0 "[]" _ "[]"])
      (simp_all add: entry_new_def item_key_def item_new_def item_set_def item_clear_def entries_at_def push_entry_def registry_ok_def)
  then have "map fst f3 = [5]" by (simp add: entry_new_def)
  then show ?thesis using d em en by (simp add: Let_def)
qed

text \<open>Two flaws of enabling. When the service refuses, the entry is disabled again but the missed change is
  delivered all the same; and of a subscriber's several entries for a key, which disabling disables
  together, enabling enables the first only and then reports success for ever.\<close>

theorem enable_flaws:
  "let k = published_key_new ''a'' 7;
       e = (entry_new 1 (5 :: nat))\<lparr>se_enabled := False, se_notify := True\<rparr>;
       pm = \<lparr>pm_callbacks = [(k, [e])], pm_last = [(k, change_node_default)]\<rparr> :: (nat, unit) published_manager;
       (rs, calls, fired, pm') = pub_enable_observers (\<lambda>us i. map (\<lambda>u. operation_result_new u 1) us) 1 [''a''] 7 pm
     in fired = [(5, change_node_default)] \<and> entries_at (pm_callbacks pm') k = [e]
      \<and> (let pm2 = snd (snd (pub_disable_observers agreeing 1 [''a''] 7
                   (\<lparr>pm_callbacks = [(k, [entry_new 1 5, entry_new 1 6])], pm_last = []\<rparr> :: (nat, unit) published_manager)));
             pm3 = snd (snd (snd (pub_enable_observers agreeing 1 [''a''] 7 pm2)));
             (rs4, calls4, fired4, pm4) = pub_enable_observers agreeing 1 [''a''] 7 pm3
         in map se_enabled (entries_at (pm_callbacks pm3) k) = [True, False] \<and> rs4 = [operation_result_new ''a'' 0] \<and> pm4 = pm3)"
  by (simp add: pub_enable_observers_def pub_enable_mark_def pub_enable_revert_def pub_disable_observers_def enable_step_def disable_step_def disable_entries_def
      disable_subscriber_def failed_keys_def update_at_def emit_on_enable_def push_entry_def entries_at_def entry_new_def
      operation_result_new_def agreeing_def Let_def)

end
