(* ===== verification/Rdb_Manager.thy ===== *)
theory Rdb_Manager
  imports Published_Manager "HOL-Library.Multiset"
begin

text \<open>
  \<open>rdb_subscriber_manager.rs\<close> and \<open>proxy_data_subscriber_manager.rs\<close>. The order of \<open>RdbObserverMapKey\<close>
  compares the URI without query, the subscriber identifier and the bundle name, and that order is
  the identity of a key in the map; the URI the key was made with is carried along and kept from the
  first registration, so it is stored with the list of observers here. The service is a function
  argument, as in the manager of published data.
\<close>

section \<open>Relational data: keys and state\<close>

datatype rdb_key = RdbKey (rk_clear_uri: string) (rk_subscriber_id: i64) (rk_bundle_name: string)

definition rdb_key_rank :: "rdb_key \<Rightarrow> string \<times> int \<times> string" where
  "rdb_key_rank k = (rk_clear_uri k, sint (rk_subscriber_id k), rk_bundle_name k)"

lemma rdb_key_rank_inject: "rdb_key_rank k = rdb_key_rank l \<longleftrightarrow> k = l"
  by (cases k; cases l) (auto simp: rdb_key_rank_def sint_inject)

instantiation rdb_key :: linorder
begin

definition less_eq_rdb_key :: "rdb_key \<Rightarrow> rdb_key \<Rightarrow> bool" where
  "less_eq_rdb_key k l \<longleftrightarrow> rdb_key_rank k \<le> rdb_key_rank l"

definition less_rdb_key :: "rdb_key \<Rightarrow> rdb_key \<Rightarrow> bool" where
  "less_rdb_key k l \<longleftrightarrow> rdb_key_rank k < rdb_key_rank l"

instance
proof
  fix k l n :: rdb_key
  show "k < l \<longleftrightarrow> k \<le> l \<and> \<not> l \<le> k" by (simp add: less_eq_rdb_key_def less_rdb_key_def less_le_not_le)
  show "k \<le> k" by (simp add: less_eq_rdb_key_def)
  show "k \<le> l \<Longrightarrow> l \<le> n \<Longrightarrow> k \<le> n" unfolding less_eq_rdb_key_def by (rule order_trans)
  show "k \<le> l \<Longrightarrow> l \<le> k \<Longrightarrow> k = l" unfolding less_eq_rdb_key_def by (simp flip: rdb_key_rank_inject)
  show "k \<le> l \<or> l \<le> k" unfolding less_eq_rdb_key_def by (rule linear)
qed

end

definition rdb_key_new :: "string \<Rightarrow> template_id \<Rightarrow> rdb_key" where
  "rdb_key_new uri tid = RdbKey (clear_uri_of uri) (ti_subscriber_id tid) (ti_bundle_name tid)"

interpretation rdb: observer_registry
  "entries_at :: (rdb_key, 'e) registry \<Rightarrow> rdb_key \<Rightarrow> 'e list" push_entry retain_at registry_ok
  by unfold_locales (simp_all add: entries_retain retain_dropped_iff registry_ok_retain)

text \<open>\<open>rm_uris\<close>: the URI of each key of the map.\<close>

record ('c, 'a) rdb_manager =
  rm_callbacks :: "(rdb_key, 'c subscriber_entry) registry"
  rm_uris :: "rdb_key \<Rightarrow> string"
  rm_last :: "(rdb_key, 'a rdb_change_node) btree"

definition rdb_manager_new :: "('c, 'a) rdb_manager" where
  "rdb_manager_new = \<lparr>rm_callbacks = [], rm_uris = \<lambda>k. [], rm_last = []\<rparr>"

type_synonym rdb_answer = "string list \<Rightarrow> i64 \<Rightarrow> string \<Rightarrow> operation_result list"

datatype rdb_call =
    RdbSubscribe "string list" i64 string
  | RdbUnsubscribe "string list" i64 string
  | RdbEnable "string list" i64 string
  | RdbDisable "string list" i64 string

section \<open>Relational data: operations\<close>

text \<open>One URI of \<open>add_observers\<close>: \<open>(results, first_add_uris, local_register_keys, manager)\<close>.\<close>

definition rdb_add_step :: "u64 \<Rightarrow> template_id \<Rightarrow> 'c \<Rightarrow> string
    \<Rightarrow> operation_result list \<times> string list \<times> rdb_key list \<times> ('c, 'a) rdb_manager
    \<Rightarrow> operation_result list \<times> string list \<times> rdb_key list \<times> ('c, 'a) rdb_manager" where
  "rdb_add_step s tid cb u = (\<lambda>(results, firsts, locals, rm).
     let k = rdb_key_new u tid; es = entries_at (rm_callbacks rm) k;
         rm' = rm\<lparr>rm_callbacks := push_entry k (entry_new s cb) (rm_callbacks rm),
                 rm_uris := (if bt_get (rm_callbacks rm) k = None then (rm_uris rm)(k := u) else rm_uris rm)\<rparr>
     in if list_ex se_enabled es then (results @ [operation_result_new u 0], firsts, locals @ [k], rm')
        else (results, firsts @ [u], locals, rm'))"

definition rdb_add_observers :: "rdb_answer \<Rightarrow> u64 \<Rightarrow> string list \<Rightarrow> template_id \<Rightarrow> 'c \<Rightarrow> ('c, 'a) rdb_manager
    \<Rightarrow> operation_result list \<times> rdb_call list \<times> ('c \<times> 'a rdb_change_node) list \<times> ('c, 'a) rdb_manager" where
  "rdb_add_observers svc s uris tid cb rm =
     (let (results, firsts, locals, rm) = fold (rdb_add_step s tid cb) uris ([], [], [], rm);
          fired = concat (map (\<lambda>k. case bt_get (rm_last rm) k of Some node \<Rightarrow> [(cb, node)] | None \<Rightarrow> []) locals)
      in if firsts = [] then (results, [], fired, rm)
         else (results @ svc firsts (ti_subscriber_id tid) (ti_bundle_name tid),
               [RdbSubscribe firsts (ti_subscriber_id tid) (ti_bundle_name tid)], fired, rm))"

definition rdb_del_step :: "u64 \<Rightarrow> template_id \<Rightarrow> string \<Rightarrow> string list \<times> rdb_key list \<times> (rdb_key, 'c subscriber_entry) registry
    \<Rightarrow> string list \<times> rdb_key list \<times> (rdb_key, 'c subscriber_entry) registry" where
  "rdb_del_step s tid u = (\<lambda>(unsub, erase, m).
     let k = rdb_key_new u tid; (gone, m) = retain_at (others s) k m
     in if gone then (unsub @ [u], erase @ [k], m) else (unsub, erase, m))"

definition rdb_del_observers :: "rdb_answer \<Rightarrow> u64 \<Rightarrow> string list \<Rightarrow> template_id \<Rightarrow> ('c, 'a) rdb_manager
    \<Rightarrow> operation_result list \<times> rdb_call list \<times> ('c, 'a) rdb_manager" where
  "rdb_del_observers svc s uris tid rm =
     (let (unsub, erase, m) = fold (rdb_del_step s tid) uris ([], [], rm_callbacks rm);
          rm = rm\<lparr>rm_callbacks := m, rm_last := fold bt_remove erase (rm_last rm)\<rparr>
      in if unsub = [] then ([], [], rm)
         else (svc unsub (ti_subscriber_id tid) (ti_bundle_name tid),
               [RdbUnsubscribe unsub (ti_subscriber_id tid) (ti_bundle_name tid)], rm))"

definition rdb_del_all_observers :: "u64 \<Rightarrow> ('c, 'a) rdb_manager \<Rightarrow> operation_result list \<times> ('c, 'a) rdb_manager" where
  "rdb_del_all_observers s rm = ([], rm\<lparr>rm_callbacks := snd (retain_all (others s) (rm_callbacks rm))\<rparr>)"

definition rdb_enable_entries :: "u64 \<Rightarrow> 'c subscriber_entry list \<Rightarrow> 'c subscriber_entry list" where
  "rdb_enable_entries s =
     map (\<lambda>e. if se_subscriber e = s \<and> \<not> se_enabled e then e\<lparr>se_enabled := True, se_notify := False\<rparr> else e)"

definition rdb_enable_step :: "u64 \<Rightarrow> template_id \<Rightarrow> (rdb_key, 'a rdb_change_node) btree \<Rightarrow> string
    \<Rightarrow> operation_result list \<times> string list \<times> ('c \<times> 'a rdb_change_node) list \<times> (rdb_key, 'c subscriber_entry) registry
    \<Rightarrow> operation_result list \<times> string list \<times> ('c \<times> 'a rdb_change_node) list \<times> (rdb_key, 'c subscriber_entry) registry" where
  "rdb_enable_step s tid last_map u = (\<lambda>(results, send, replay, m).
     let k = rdb_key_new u tid in
     case bt_get m k of
       None \<Rightarrow> (results @ [operation_result_new u 1047], send, replay, m)
     | Some es \<Rightarrow>
         if \<not> list_ex (\<lambda>e. se_subscriber e = s) es then (results @ [operation_result_new u 1047], send, replay, m)
         else if list_ex (\<lambda>e. se_subscriber e = s \<and> se_enabled e) es then (results @ [operation_result_new u 0], send, replay, m)
         else (results, if \<not> list_ex se_enabled es then send @ [u] else send,
               replay @ (case bt_get last_map k of
                           None \<Rightarrow> []
                         | Some node \<Rightarrow>
                             map (\<lambda>e. (se_callback e, node)) (filter (\<lambda>e. se_subscriber e = s \<and> \<not> se_enabled e \<and> se_notify e) es)),
               bt_insert k (rdb_enable_entries s es) m))"

definition rdb_enable_observers :: "rdb_answer \<Rightarrow> u64 \<Rightarrow> string list \<Rightarrow> template_id \<Rightarrow> ('c, 'a) rdb_manager
    \<Rightarrow> operation_result list \<times> rdb_call list \<times> ('c \<times> 'a rdb_change_node) list \<times> ('c, 'a) rdb_manager" where
  "rdb_enable_observers svc s uris tid rm =
     (let (results, send, replay, m) = fold (rdb_enable_step s tid (rm_last rm)) uris ([], [], [], rm_callbacks rm);
          rm = rm\<lparr>rm_callbacks := m\<rparr>
      in if send = [] then (results, [], replay, rm)
         else (results @ svc send (ti_subscriber_id tid) (ti_bundle_name tid),
               [RdbEnable send (ti_subscriber_id tid) (ti_bundle_name tid)], replay, rm))"

definition rdb_disable_step :: "u64 \<Rightarrow> template_id \<Rightarrow> string
    \<Rightarrow> operation_result list \<times> string list \<times> (rdb_key, 'c subscriber_entry) registry
    \<Rightarrow> operation_result list \<times> string list \<times> (rdb_key, 'c subscriber_entry) registry" where
  "rdb_disable_step s tid u = (\<lambda>(results, last, m).
     let k = rdb_key_new u tid in
     case bt_get m k of
       None \<Rightarrow> (results @ [operation_result_new u 1047], last, m)
     | Some es \<Rightarrow>
         if \<not> list_ex se_enabled es then (results @ [operation_result_new u 1047], last, m)
         else (let es' = disable_entries s es; m = bt_insert k es' m in
               if \<not> list_ex (\<lambda>e. se_subscriber e = s) es then (results @ [operation_result_new u 1047], last, m)
               else if list_ex se_enabled es' then (results @ [operation_result_new u 0], last, m)
               else (results, last @ [u], m)))"

definition rdb_disable_observers :: "rdb_answer \<Rightarrow> u64 \<Rightarrow> string list \<Rightarrow> template_id \<Rightarrow> ('c, 'a) rdb_manager
    \<Rightarrow> operation_result list \<times> rdb_call list \<times> ('c, 'a) rdb_manager" where
  "rdb_disable_observers svc s uris tid rm =
     (let (results, last_disabled, m) = fold (rdb_disable_step s tid) uris ([], [], rm_callbacks rm); rm = rm\<lparr>rm_callbacks := m\<rparr>
      in if last_disabled = [] then (results, [], rm)
         else (results @ svc last_disabled (ti_subscriber_id tid) (ti_bundle_name tid),
               [RdbDisable last_disabled (ti_subscriber_id tid) (ti_bundle_name tid)], rm))"

definition rdb_recover_observers :: "('c, 'a) rdb_manager \<Rightarrow> rdb_call list" where
  "rdb_recover_observers rm =
     map (\<lambda>(k, _). RdbSubscribe [rm_uris rm k] (rk_subscriber_id k) (rk_bundle_name k)) (rm_callbacks rm)"

text \<open>\<open>emit\<close>: every key with the URI of the node; enabled observers fire, disabled ones are marked.\<close>

definition rdb_mark :: "'c subscriber_entry list \<Rightarrow> 'c subscriber_entry list" where
  "rdb_mark = map (\<lambda>e. e\<lparr>se_notify := \<not> se_enabled e\<rparr>)"

definition rdb_emit :: "'a rdb_change_node \<Rightarrow> ('c, 'a) rdb_manager \<Rightarrow> ('c \<times> 'a rdb_change_node) list \<times> ('c, 'a) rdb_manager" where
  "rdb_emit node rm =
     (let change_uri = clear_uri_of (rn_uri node);
          matching = filter (\<lambda>(k, es). rk_clear_uri k = change_uri) (rm_callbacks rm)
      in (concat (map (\<lambda>(k, es). map (\<lambda>e. (se_callback e, node)) (filter se_enabled es)) matching),
          rm\<lparr>rm_callbacks := map (\<lambda>(k, es). (k, if rk_clear_uri k = change_uri then rdb_mark es else es)) (rm_callbacks rm),
             rm_last := fold (\<lambda>(k, es). bt_insert k node) matching (rm_last rm)\<rparr>))"

section \<open>Proxy data\<close>

record 'c proxy_entry =
  pe_subscriber :: u64
  pe_callback :: 'c

type_synonym 'c proxy_manager = "(string, 'c proxy_entry) registry"

interpretation prx: observer_registry
  "entries_at :: (string, 'e) registry \<Rightarrow> string \<Rightarrow> 'e list" push_entry retain_at registry_ok
  by unfold_locales (simp_all add: entries_retain retain_dropped_iff registry_ok_retain)

definition proxy_add_observers :: "(string list \<Rightarrow> data_proxy_result list) \<Rightarrow> u64 \<Rightarrow> string list \<Rightarrow> 'c \<Rightarrow> 'c proxy_manager
    \<Rightarrow> data_proxy_result list \<times> 'c proxy_manager" where
  "proxy_add_observers svc s uris cb m =
     (svc uris, fold (\<lambda>u. push_entry u \<lparr>pe_subscriber = s, pe_callback = cb\<rparr>) uris m)"

definition proxy_del_observers :: "u64 \<Rightarrow> string list \<Rightarrow> 'c proxy_manager \<Rightarrow> data_proxy_result list \<times> 'c proxy_manager" where
  "proxy_del_observers s uris m = ([], fold (\<lambda>u m. snd (retain_at (\<lambda>e. pe_subscriber e \<noteq> s) u m)) uris m)"

definition proxy_del_all_observers :: "u64 \<Rightarrow> 'c proxy_manager \<Rightarrow> data_proxy_result list \<times> 'c proxy_manager" where
  "proxy_del_all_observers s m = ([], snd (retain_all (\<lambda>e. pe_subscriber e \<noteq> s) m))"

definition proxy_recover_observers :: "'c proxy_manager \<Rightarrow> string list option" where
  "proxy_recover_observers m = (if m = [] then None else Some (map fst m))"

definition proxy_emit :: "data_proxy_change_info list \<Rightarrow> 'c proxy_manager \<Rightarrow> ('c \<times> data_proxy_change_info list) list" where
  "proxy_emit changes m = concat (map (\<lambda>(k, es). map (\<lambda>e. (pe_callback e, changes)) es) m)"

section \<open>What the managers promise\<close>

lemma rdb_disable_state:
  assumes ok: "registry_ok (rm_callbacks rm)"
    and e: "list_ex (\<lambda>e. se_subscriber e = s \<and> se_enabled e) (entries_at (rm_callbacks rm) (rdb_key_new u tid))"
    and d: "rdb_disable_observers svc s [u] tid rm = (rs, calls, rm')"
  shows "bt_get (rm_callbacks rm') (rdb_key_new u tid) = Some (disable_entries s (entries_at (rm_callbacks rm) (rdb_key_new u tid)))
    \<and> registry_ok (rm_callbacks rm') \<and> rm_last rm' = rm_last rm"
proof -
  let ?k = "rdb_key_new u tid" and ?es = "entries_at (rm_callbacks rm) (rdb_key_new u tid)"
  have ne: "?es \<noteq> []" using e by auto
  then have get: "bt_get (rm_callbacks rm) ?k = Some ?es" by (rule get_entries [OF ok])
  have "list_ex se_enabled ?es" "list_ex (\<lambda>e. se_subscriber e = s) ?es" using e by (auto simp: list_ex_iff)
  then have "rm' = rm\<lparr>rm_callbacks := bt_insert ?k (disable_entries s ?es) (rm_callbacks rm)\<rparr>"
    using d get by (auto simp: rdb_disable_observers_def rdb_disable_step_def Let_def split: if_splits)
  moreover have "disable_entries s ?es \<noteq> []" using ne by (simp add: disable_entries_def)
  ultimately show ?thesis using ok by (auto simp: bt_get_insert registry_ok_def)
qed

lemma rdb_enable_entries_enables:
  "list_ex (\<lambda>e. se_subscriber e = s) es \<Longrightarrow> list_ex (\<lambda>e. se_subscriber e = s \<and> se_enabled e) (rdb_enable_entries s es)"
  by (induction es) (auto simp: rdb_enable_entries_def)

lemma disable_entries_subscriber:
  "list_ex (\<lambda>e. se_subscriber e = s) (disable_entries s es) \<longleftrightarrow> list_ex (\<lambda>e. se_subscriber e = s) es"
  "\<not> list_ex (\<lambda>e. se_subscriber e = s \<and> se_enabled e) (disable_entries s es)"
  by (induction es) (auto simp: disable_entries_def)

lemma bt_get_fold_insert:
  "bt_get (fold (\<lambda>(k, es). bt_insert k node) xs l) k = (if k \<in> fst ` set xs then Some node else bt_get l k)"
  by (induction xs arbitrary: l) (auto simp: bt_get_insert)

lemma rdb_emit_state:
  assumes ok: "registry_ok (rm_callbacks rm)" and em: "rdb_emit node rm = (fired, rm')" and k: "rk_clear_uri k = clear_uri_of (rn_uri node)"
  shows "registry_ok (rm_callbacks rm') \<and> bt_get (rm_callbacks rm') k = map_option rdb_mark (bt_get (rm_callbacks rm) k)
    \<and> (bt_get (rm_callbacks rm) k \<noteq> None \<longrightarrow> bt_get (rm_last rm') k = Some node)"
proof -
  let ?u = "clear_uri_of (rn_uri node)" and ?m = "rm_callbacks rm"
  have eq: "rm_callbacks rm' = map (\<lambda>(k, es). (k, if rk_clear_uri k = ?u then rdb_mark es else es)) ?m"
      "rm_last rm' = fold (\<lambda>(k, es). bt_insert k node) (filter (\<lambda>(k, es). rk_clear_uri k = ?u) ?m) (rm_last rm)"
    using em by (auto simp: rdb_emit_def Let_def)
  have "registry_ok (rm_callbacks rm')"
    unfolding eq using ok by (auto simp: registry_ok_def bt_get_map_values rdb_mark_def split: if_splits)
  moreover have "bt_get (rm_callbacks rm') k = map_option rdb_mark (bt_get ?m k)"
    unfolding eq bt_get_map_values using k by simp
  moreover have "k \<in> fst ` set (filter (\<lambda>(k, es). rk_clear_uri k = ?u) ?m)" if "bt_get ?m k \<noteq> None"
    using that k by (force dest: bt_get_SomeD)
  ultimately show ?thesis unfolding eq(2) bt_get_fold_insert by auto
qed

lemma rdb_enable_state:
  assumes get: "bt_get (rm_callbacks rm) (rdb_key_new u tid) = Some es" and node: "bt_get (rm_last rm) (rdb_key_new u tid) = Some node"
    and e: "list_ex (\<lambda>e. se_subscriber e = s) es" "\<not> list_ex (\<lambda>e. se_subscriber e = s \<and> se_enabled e) es"
    and en: "rdb_enable_observers svc s [u] tid rm = (rs, calls, fired, rm')"
  shows "fired = map (\<lambda>e. (se_callback e, node)) (filter (\<lambda>e. se_subscriber e = s \<and> se_notify e) es)
    \<and> bt_get (rm_callbacks rm') (rdb_key_new u tid) = Some (rdb_enable_entries s es) \<and> rm_last rm' = rm_last rm"
proof -
  have "filter (\<lambda>e. se_subscriber e = s \<and> \<not> se_enabled e \<and> se_notify e) es = filter (\<lambda>e. se_subscriber e = s \<and> se_notify e) es"
    using e(2) by (auto simp: list_ex_iff intro: filter_cong)
  then show ?thesis
    using en get node e by (auto simp: rdb_enable_observers_def rdb_enable_step_def Let_def bt_get_insert split: if_splits)
qed

text \<open>The manager of relational data delivers a missed change exactly once. When a subscriber with an enabled
  observer of a key disables, a change of its URI is emitted and it enables again, enabling fires every
  callback the subscriber has for the key once, with that change; a second round of disabling and
  enabling without a change fires nothing.\<close>

theorem rdb_missed_change_once:
  fixes rm :: "('c, 'a) rdb_manager"
  assumes ok: "registry_ok (rm_callbacks rm)"
    and e: "list_ex (\<lambda>e. se_subscriber e = s \<and> se_enabled e) (entries_at (rm_callbacks rm) (rdb_key_new u tid))"
    and node: "clear_uri_of (rn_uri node) = clear_uri_of u"
    and d: "rdb_disable_observers svc1 s [u] tid rm = (rs1, calls1, rm1)"
    and em: "rdb_emit node rm1 = (fired2, rm2)"
    and en: "rdb_enable_observers svc3 s [u] tid rm2 = (rs3, calls3, fired3, rm3)"
    and d2: "rdb_disable_observers svc4 s [u] tid rm3 = (rs4, calls4, rm4)"
    and en2: "rdb_enable_observers svc5 s [u] tid rm4 = (rs5, calls5, fired5, rm5)"
  shows "fired3 = map (\<lambda>e. (se_callback e, node)) (filter (\<lambda>e. se_subscriber e = s) (entries_at (rm_callbacks rm) (rdb_key_new u tid)))
    \<and> fired5 = []"
proof -
  let ?k = "rdb_key_new u tid" and ?es = "entries_at (rm_callbacks rm) (rdb_key_new u tid)"
  let ?es2 = "rdb_mark (disable_entries s ?es)"
  let ?es3 = "rdb_enable_entries s ?es2"
  have sub: "list_ex (\<lambda>e. se_subscriber e = s) ?es" using e by (auto simp: list_ex_iff)
  have rm1: "bt_get (rm_callbacks rm1) ?k = Some (disable_entries s ?es)" "registry_ok (rm_callbacks rm1)"
    using rdb_disable_state [OF ok e d] by auto
  have rm2: "bt_get (rm_callbacks rm2) ?k = Some ?es2" "bt_get (rm_last rm2) ?k = Some node" "registry_ok (rm_callbacks rm2)"
    using rdb_emit_state [OF rm1(2) em, of ?k] rm1(1) node by (auto simp: rdb_key_new_def)
  have e2: "list_ex (\<lambda>e. se_subscriber e = s) ?es2" "\<not> list_ex (\<lambda>e. se_subscriber e = s \<and> se_enabled e) ?es2"
    using sub by (auto simp: list_ex_iff rdb_mark_def disable_entries_def)
  have rm3: "fired3 = map (\<lambda>e. (se_callback e, node)) (filter (\<lambda>e. se_subscriber e = s \<and> se_notify e) ?es2)"
      "bt_get (rm_callbacks rm3) ?k = Some ?es3" "rm_last rm3 = rm_last rm2"
    using rdb_enable_state [OF rm2(1,2) e2 en] by auto
  have "registry_ok (rm_callbacks rm3)"
    using en rm2(1,3) e2 by (auto simp: rdb_enable_observers_def rdb_enable_step_def rdb_enable_entries_def Let_def
        registry_ok_def bt_get_insert list_ex_iff split: if_splits)
  moreover have "entries_at (rm_callbacks rm3) ?k = ?es3" using rm3(2) by (simp add: entries_at_def)
  moreover have e3: "list_ex (\<lambda>e. se_subscriber e = s \<and> se_enabled e) ?es3"
    using e2(1) by (rule rdb_enable_entries_enables)
  ultimately have rm4: "bt_get (rm_callbacks rm4) ?k = Some (disable_entries s ?es3)" "rm_last rm4 = rm_last rm3"
    using rdb_disable_state [OF _ _ d2] by auto
  have e4: "list_ex (\<lambda>e. se_subscriber e = s) (disable_entries s ?es3)"
    "\<not> list_ex (\<lambda>e. se_subscriber e = s \<and> se_enabled e) (disable_entries s ?es3)"
    using disable_entries_subscriber [of s ?es3] e3 by (auto simp: list_ex_iff [of _ ?es3])
  have "fired5 = map (\<lambda>e. (se_callback e, node)) (filter (\<lambda>e. se_subscriber e = s \<and> se_notify e) (disable_entries s ?es3))"
    using rdb_enable_state [OF rm4(1) _ e4 en2] rm4(2) rm3(3) rm2(2) by simp
  moreover have "filter (\<lambda>e. se_subscriber e = s \<and> se_notify e) (disable_entries s (rdb_enable_entries s (rdb_mark es))) = []"
    for es :: "'c subscriber_entry list"
    by (induction es) (auto simp: disable_entries_def rdb_enable_entries_def rdb_mark_def)
  moreover have "map (\<lambda>e. (se_callback e, node)) (filter (\<lambda>e. se_subscriber e = s \<and> se_notify e) (rdb_mark (disable_entries s es)))
      = map (\<lambda>e. (se_callback e, node)) (filter (\<lambda>e. se_subscriber e = s) es)" for es :: "'c subscriber_entry list"
    by (induction es) (auto simp: rdb_mark_def disable_entries_def)
  ultimately show ?thesis using rm3(1) by simp
qed

theorem rdb_missed_change_once_witness:
  "let rm = snd (snd (snd (rdb_add_observers (\<lambda>us i b. map (\<lambda>u. operation_result_new u 0) us) 1 [''u''] (template_id_new 7 ''b'') (5 :: nat) rdb_manager_new)));
       node = (rdb_change_node_default :: nat rdb_change_node)\<lparr>rn_uri := ''u?x''\<rparr>; svc = (\<lambda>us i b. []);
       (_, _, rm1) = rdb_disable_observers svc 1 [''u''] (template_id_new 7 ''b'') rm;
       (_, rm2) = rdb_emit node rm1;
       (_, _, fired, _) = rdb_enable_observers svc 1 [''u''] (template_id_new 7 ''b'') rm2
   in fired = [(5, node)]"
proof -
  let ?tid = "template_id_new 7 ''b''" and ?svc = "(\<lambda>us i b. []) :: rdb_answer"
  let ?node = "(rdb_change_node_default :: nat rdb_change_node)\<lparr>rn_uri := ''u?x''\<rparr>"
  let ?rm = "snd (snd (snd (rdb_add_observers (\<lambda>us i b. map (\<lambda>u. operation_result_new u 0) us) 1 [''u''] ?tid (5 :: nat) rdb_manager_new)))
    :: (nat, nat) rdb_manager"
  have rm: "rm_callbacks ?rm = push_entry (rdb_key_new ''u'' ?tid) (entry_new 1 5) []"
    by (simp add: rdb_add_observers_def rdb_add_step_def rdb_manager_new_def Let_def)
  obtain rs1 calls1 rm1 where d: "rdb_disable_observers ?svc 1 [''u''] ?tid ?rm = (rs1, calls1, rm1)" by (metis prod_cases3)
  obtain f2 rm2 where em: "rdb_emit ?node rm1 = (f2, rm2)" by force
  obtain rs3 calls3 f3 rm3 where en: "rdb_enable_observers ?svc 1 [''u''] ?tid rm2 = (rs3, calls3, f3, rm3)" by (metis prod_cases4)
  obtain rs4 calls4 rm4 where d4: "rdb_disable_observers ?svc 1 [''u''] ?tid rm3 = (rs4, calls4, rm4)" by (metis prod_cases3)
  obtain rs5 calls5 f5 rm5 where en5: "rdb_enable_observers ?svc 1 [''u''] ?tid rm4 = (rs5, calls5, f5, rm5)" by (metis prod_cases4)
  have "f3 = map (\<lambda>e. (se_callback e, ?node)) (filter (\<lambda>e. se_subscriber e = 1) (entries_at (rm_callbacks ?rm) (rdb_key_new ''u'' ?tid))) \<and> f5 = []"
    by (rule rdb_missed_change_once [OF _ _ _ d em en d4 en5])
      (simp_all add: rm entry_new_def, code_simp)
  then have "f3 = [(5, ?node)]" by (simp add: rm entry_new_def)
  then show ?thesis using d em en by (simp add: Let_def)
qed

lemma proxy_emit_insert:
  "bt_ok m \<Longrightarrow> mset (proxy_emit ch (push_entry k e m)) = add_mset (pe_callback e, ch) (mset (proxy_emit ch m))"
proof (induction m)
  case (Cons p m)
  obtain a es where p: "p = (a, es)" by force
  have "bt_get m k = None" if "k < a" using Cons.prems p that by (force simp: bt_get_None_iff)
  then show ?case using Cons p by (auto simp: proxy_emit_def push_entry_def entries_at_def)
qed (simp add: proxy_emit_def push_entry_def)

text \<open>A change of proxy data is delivered to every observer whatever URI it registered for, once per
  registered URI: registering a callback for some URIs adds as many deliveries of it to every later
  notification, about any URI.\<close>

theorem proxy_emit_unfiltered:
  "registry_ok m \<Longrightarrow> mset (proxy_emit changes (snd (proxy_add_observers svc s uris cb m)))
     = mset (proxy_emit changes m) + replicate_mset (length uris) (cb, changes)"
proof (induction uris arbitrary: m)
  case (Cons u uris)
  show ?case using Cons.IH [of "push_entry u \<lparr>pe_subscriber = s, pe_callback = cb\<rparr> m"] Cons.prems
    by (simp add: proxy_add_observers_def proxy_emit_insert registry_ok_def [of m])
qed (simp add: proxy_add_observers_def)

theorem proxy_emit_unfiltered_witness:
  "mset (proxy_emit [data_proxy_change_info_default\<lparr>pi_uri := ''datashareproxy://b/other''\<rparr>]
       (snd (proxy_add_observers (\<lambda>us. []) 1 [''datashareproxy://b/mine''] (5 :: nat) [])))
     = {#(5, [data_proxy_change_info_default\<lparr>pi_uri := ''datashareproxy://b/other''\<rparr>])#}"
  by (subst proxy_emit_unfiltered) (simp_all add: proxy_emit_def)

end
