(* ===== verification/Helper.thy ===== *)
theory Helper
  imports Provider_Controller Rdb_Manager
begin

text \<open>
  \<open>controller/persistent_data.rs\<close>, \<open>controller/published_data.rs\<close>, \<open>helper/dataproxy_handle.rs\<close>,
  \<open>helper/datashare_helper.rs\<close> and \<open>helper/datashare_helper_impl.rs\<close>: the subscriptions of a helper, which the
  managers of the subscribers keep, and the helper itself, which sends every operation down the silent path or
  the path to an extension.
\<close>

section \<open>Subscriptions\<close>

definition with_service :: "'a \<Rightarrow> 'r service_answers \<Rightarrow> ('r \<Rightarrow> 'a) \<Rightarrow> ('r, 'c) manager \<Rightarrow> 'a \<times> ('r, 'c) manager" where
  "with_service dflt sv method mg =
     (case manager_get_proxy sv mg of
        (_, Some proxy, mg') \<Rightarrow> (method proxy, mg')
      | (_, None, mg') \<Rightarrow> (dflt, mg'))"

lemma with_service_serve: "with_service dflt sv method mg = manager_source.serve sv dflt method mg"
  by (auto simp: with_service_def manager_source.serve_def split: prod.splits option.splits)

definition add_query_template :: "'r service_answers \<Rightarrow> ('r \<Rightarrow> i32) \<Rightarrow> ('r, 'c) manager \<Rightarrow> i32 \<times> ('r, 'c) manager" where
  "add_query_template sv method mg = with_service INVALID_VALUE sv method mg"

definition del_query_template :: "'r service_answers \<Rightarrow> ('r \<Rightarrow> i32) \<Rightarrow> ('r, 'c) manager \<Rightarrow> i32 \<times> ('r, 'c) manager" where
  "del_query_template sv method mg = with_service INVALID_VALUE sv method mg"

text \<open>\<open>svc\<close> gives the answers of a service proxy. Each operation returns what the subscriber manager returns, or nothing
  and the manager as it was.\<close>

definition subscribe_rdb_data where
  "subscribe_rdb_data sv svc subscriber uris tid callback mg rm =
     with_service ([], [], [], rm) sv (\<lambda>proxy. rdb_add_observers (svc proxy) subscriber uris tid callback rm) mg"

definition unsubscribe_rdb_data where
  "unsubscribe_rdb_data sv svc subscriber uris tid mg rm =
     with_service ([], [], rm) sv
       (\<lambda>proxy. if uris = [] then let (res, rm') = rdb_del_all_observers subscriber rm in (res, [], rm')
                else rdb_del_observers (svc proxy) subscriber uris tid rm) mg"

definition enable_subscribe_rdb_data where
  "enable_subscribe_rdb_data sv svc subscriber uris tid mg rm =
     with_service ([], [], [], rm) sv (\<lambda>proxy. rdb_enable_observers (svc proxy) subscriber uris tid rm) mg"

definition disable_subscribe_rdb_data where
  "disable_subscribe_rdb_data sv svc subscriber uris tid mg rm =
     with_service ([], [], rm) sv (\<lambda>proxy. rdb_disable_observers (svc proxy) subscriber uris tid rm) mg"

definition subscribe_published_data where
  "subscribe_published_data sv svc subscriber uris sid callback mg pm =
     with_service ([], [], pm) sv (\<lambda>proxy. pub_add_observers (svc proxy) subscriber uris sid callback pm) mg"

definition unsubscribe_published_data where
  "unsubscribe_published_data sv svc subscriber uris sid mg pm =
     with_service ([], [], pm) sv
       (\<lambda>proxy. if uris = [] then pub_del_all_observers (svc proxy) subscriber pm
                else pub_del_observers (svc proxy) subscriber uris sid pm) mg"

definition enable_subscribe_published_data where
  "enable_subscribe_published_data sv svc subscriber uris sid mg pm =
     with_service ([], [], [], pm) sv (\<lambda>proxy. pub_enable_observers (svc proxy) subscriber uris sid pm) mg"

definition disable_subscribe_published_data where
  "disable_subscribe_published_data sv svc subscriber uris sid mg pm =
     with_service ([], [], pm) sv (\<lambda>proxy. pub_disable_observers (svc proxy) subscriber uris sid pm) mg"

definition publish :: "'r service_answers \<Rightarrow> ('r \<Rightarrow> operation_result list) \<Rightarrow> ('r, 'c) manager \<Rightarrow> operation_result list \<times> ('r, 'c) manager" where
  "publish sv method mg = with_service [] sv method mg"

definition get_published_data :: "'r service_answers \<Rightarrow> 'd \<Rightarrow> ('r \<Rightarrow> 'd \<times> i32) \<Rightarrow> ('r, 'c) manager \<Rightarrow> ('d \<times> i32) \<times> ('r, 'c) manager" where
  "get_published_data sv empty_data method mg = with_service (empty_data, -1) sv method mg"

text \<open>\<open>DataProxyHandle\<close>: every handle is the subscriber 0.\<close>

definition handle_subscribe where
  "handle_subscribe sv svc uris callback mg xm =
     with_service ([], xm) sv (\<lambda>proxy. proxy_add_observers (svc proxy) 0 uris callback xm) mg"

definition handle_unsubscribe where
  "handle_unsubscribe sv uris mg xm = with_service ([], xm) sv (\<lambda>proxy. proxy_del_observers 0 uris xm) mg"

definition handle_publish :: "'r service_answers \<Rightarrow> ('r \<Rightarrow> data_proxy_result list) \<Rightarrow> ('r, 'c) manager \<Rightarrow> data_proxy_result list \<times> ('r, 'c) manager" where
  "handle_publish sv method mg = with_service [] sv method mg"

definition handle_delete :: "'r service_answers \<Rightarrow> ('r \<Rightarrow> data_proxy_result list) \<Rightarrow> ('r, 'c) manager \<Rightarrow> data_proxy_result list \<times> ('r, 'c) manager" where
  "handle_delete sv method mg = with_service [] sv method mg"

definition handle_get :: "'r service_answers \<Rightarrow> ('r \<Rightarrow> data_proxy_get_result list) \<Rightarrow> ('r, 'c) manager \<Rightarrow> data_proxy_get_result list \<times> ('r, 'c) manager" where
  "handle_get sv method mg = with_service [] sv method mg"

section \<open>The helper\<close>

datatype 'r helper_path = ServicePath service_controller | ProviderPath "'r connection"

record 'r helper =
  hp_helper_id :: u64
  hp_path :: "'r helper_path"
  hp_is_system :: bool
  hp_helper_type :: i32
  hp_released :: bool

definition new_provider :: "u64 \<Rightarrow> string \<Rightarrow> u64 \<Rightarrow> bool \<Rightarrow> 'r helper" where
  "new_provider next_id uri token_raw is_system =
     \<lparr>hp_helper_id = next_id, hp_path = ProviderPath (connection_new_with_token_raw uri token_raw 2), hp_is_system = is_system,
      hp_helper_type = 1, hp_released = False\<rparr>"

definition new_service :: "u64 \<Rightarrow> u64 \<Rightarrow> string \<Rightarrow> bool \<Rightarrow> 'r helper" where
  "new_service next_id next_controller_id ext_uri is_system =
     \<lparr>hp_helper_id = next_id, hp_path = ServicePath (service_controller_new next_controller_id ext_uri), hp_is_system = is_system,
      hp_helper_type = 0, hp_released = False\<rparr>"

text \<open>\<open>create_helper\<close>: \<open>status\<close> is what a service proxy answers to \<open>get_silent_proxy_status\<close>.\<close>

definition create_helper :: "'r service_answers \<Rightarrow> ('r \<Rightarrow> string \<Rightarrow> i32) \<Rightarrow> u64 \<Rightarrow> u64 \<Rightarrow> bool \<Rightarrow> string \<Rightarrow> string \<Rightarrow> i32
    \<Rightarrow> ('r, 'c) manager \<Rightarrow> i32 \<times> 'r helper \<times> ('r, 'c) manager" where
  "create_helper sv status next_id next_controller_id is_system str_uri ext_uri wait_time mg =
     (case manager_get_proxy sv mg of
        (_, Some proxy, mg') \<Rightarrow>
          if status proxy str_uri = 0 then (0, new_service next_id next_controller_id ext_uri is_system, mg')
          else (0, new_provider next_id str_uri 0 is_system, mg')
      | (_, None, mg') \<Rightarrow> (0, new_provider next_id str_uri 0 is_system, mg'))"

definition release :: "'r helper \<Rightarrow> bool \<times> 'r helper" where
  "release hp = (True, hp\<lparr>hp_released := True\<rparr>)"

definition set_ext_proxy :: "'r \<Rightarrow> 'r helper \<Rightarrow> 'r helper" where
  "set_ext_proxy remote hp =
     (case hp_path hp of
        ProviderPath cn \<Rightarrow> hp\<lparr>hp_path := ProviderPath (set_proxy_from_remote remote cn)\<rparr>
      | ServicePath _ \<Rightarrow> hp)"

text \<open>An operation of the general controller goes to the controller of the path; \<open>None\<close> is a panic.\<close>

definition route :: "(service_controller \<Rightarrow> ('r, 'c) manager \<Rightarrow> 'a option \<times> ('r, 'c) manager) \<Rightarrow> ('r connection \<Rightarrow> 'a \<times> 'r connection)
    \<Rightarrow> 'r helper \<Rightarrow> ('r, 'c) manager \<Rightarrow> 'a option \<times> 'r helper \<times> ('r, 'c) manager" where
  "route service provider hp mg =
     (case hp_path hp of
        ServicePath sc \<Rightarrow> let (a, mg') = service sc mg in (a, hp, mg')
      | ProviderPath cn \<Rightarrow> let (a, cn') = provider cn in (Some a, hp\<lparr>hp_path := ProviderPath cn'\<rparr>, mg))"

definition helper_insert where
  "helper_insert senv penv uri value smethod pmethod =
     route (service_insert senv uri value smethod) (provider_insert penv uri value pmethod)"

definition helper_update where
  "helper_update senv penv uri predicates value smethod pmethod =
     route (service_update senv uri predicates value smethod) (provider_update penv uri predicates value pmethod)"

definition helper_delete where
  "helper_delete senv penv uri predicates smethod pmethod =
     route (service_delete senv uri predicates smethod) (provider_delete penv uri predicates pmethod)"

definition helper_insert_ex where
  "helper_insert_ex senv penv uri value smethod pmethod =
     route (service_insert_ex senv uri value smethod) (provider_insert_ex penv uri value pmethod)"

definition helper_update_ex where
  "helper_update_ex senv penv uri predicates value smethod pmethod =
     route (service_update_ex senv uri predicates value smethod) (provider_update_ex penv uri predicates value pmethod)"

definition helper_delete_ex where
  "helper_delete_ex senv penv uri predicates smethod pmethod =
     route (service_delete_ex senv uri predicates smethod) (provider_delete_ex penv uri predicates pmethod)"

definition query_with_option where
  "query_with_option senv penv uri timeout in_time sv squery pquery read be =
     route (\<lambda>sc. service_query senv uri timeout in_time sv squery read be) (provider_query penv pquery read be)"

definition helper_query where
  "helper_query senv penv uri in_time sv squery pquery read be = query_with_option senv penv uri 0 in_time sv squery pquery read be"

definition query_raw_for_ffi where
  "query_raw_for_ffi senv penv uri timeout in_time squery pquery be =
     route (\<lambda>sc. service_query_raw senv uri timeout in_time squery be) (provider_query_raw penv pquery be)"

text \<open>The observers of the general controller.\<close>

definition helper_register_observer :: "(string \<Rightarrow> u64 \<Rightarrow> i32) \<Rightarrow> (u64 \<Rightarrow> string \<Rightarrow> u64 \<Rightarrow> i32) \<Rightarrow> string \<Rightarrow> u64 \<Rightarrow> 'r helper \<Rightarrow> i32 \<times> 'r helper" where
  "helper_register_observer answer bridge uri oid hp =
     (case hp_path hp of
        ServicePath sc \<Rightarrow> let (ret, sc') = service_register_observer answer uri oid sc in (ret, hp\<lparr>hp_path := ServicePath sc'\<rparr>)
      | ProviderPath cn \<Rightarrow> (provider_register_observer bridge uri oid cn, hp))"

definition helper_unregister_observer :: "(string \<Rightarrow> u64 \<Rightarrow> i32) \<Rightarrow> (u64 \<Rightarrow> string \<Rightarrow> u64 \<Rightarrow> i32) \<Rightarrow> string \<Rightarrow> u64 \<Rightarrow> 'r helper \<Rightarrow> i32 \<times> 'r helper" where
  "helper_unregister_observer answer bridge uri oid hp =
     (case hp_path hp of
        ServicePath sc \<Rightarrow> let (ret, sc') = service_unregister_observer answer uri oid sc in (ret, hp\<lparr>hp_path := ServicePath sc'\<rparr>)
      | ProviderPath cn \<Rightarrow> (provider_unregister_observer bridge uri oid cn, hp))"

definition helper_register_observer_ext :: "(u64 \<Rightarrow> string \<Rightarrow> u64 \<Rightarrow> u32 \<Rightarrow> i32) \<Rightarrow> string \<Rightarrow> u64 \<Rightarrow> bool \<Rightarrow> 'r helper \<Rightarrow> i32 \<times> 'r helper" where
  "helper_register_observer_ext bridge uri oid d hp =
     (case hp_path hp of
        ServicePath sc \<Rightarrow> (DATA_SHARE_ERROR, hp)
      | ProviderPath cn \<Rightarrow>
          let (ret, cn') = register_observer_ext_provider bridge uri oid d cn in (ret, hp\<lparr>hp_path := ProviderPath cn'\<rparr>))"

definition helper_unregister_observer_ext :: "(u64 \<Rightarrow> string \<Rightarrow> u64 \<Rightarrow> i32) \<Rightarrow> string \<Rightarrow> u64 \<Rightarrow> 'r helper \<Rightarrow> i32 \<times> 'r helper" where
  "helper_unregister_observer_ext bridge uri oid hp =
     (case hp_path hp of
        ServicePath sc \<Rightarrow> (DATA_SHARE_ERROR, hp)
      | ProviderPath cn \<Rightarrow>
          let (ret, cn') = unregister_observer_ext_provider bridge uri oid cn in (ret, hp\<lparr>hp_path := ProviderPath cn'\<rparr>))"

definition helper_set_ext_uri :: "string \<Rightarrow> 'r helper \<Rightarrow> i32 \<times> 'r helper" where
  "helper_set_ext_uri ext_uri hp =
     (case hp_path hp of
        ServicePath sc \<Rightarrow> let (ret, sc') = set_ext_uri ext_uri sc in (ret, hp\<lparr>hp_path := ServicePath sc'\<rparr>)
      | ProviderPath cn \<Rightarrow> (1086, hp))"

text \<open>The operations of the extension controller, which the silent path does not have: files, types, batches, URIs and the user-defined
  function, each with its own value for a helper without one.\<close>

definition route_ext :: "'a \<Rightarrow> ('r connection \<Rightarrow> 'a \<times> 'r connection) \<Rightarrow> 'r helper \<Rightarrow> 'a \<times> 'r helper" where
  "route_ext dflt provider hp =
     (case hp_path hp of
        ServicePath _ \<Rightarrow> (dflt, hp)
      | ProviderPath cn \<Rightarrow> let (a, cn') = provider cn in (a, hp\<lparr>hp_path := ProviderPath cn'\<rparr>))"

definition helper_open_file where
  "helper_open_file env uri mode method = route_ext DATA_SHARE_ERROR (ext_open_file env uri mode method)"

definition helper_open_file_with_err_code where
  "helper_open_file_with_err_code env uri mode method = route_ext (DATA_SHARE_ERROR, 0) (open_file_with_err_code env uri mode method)"

definition helper_open_raw_file where
  "helper_open_raw_file env uri mode method = route_ext DATA_SHARE_ERROR (open_raw_file env uri mode method)"

definition helper_get_type where
  "helper_get_type env uri method = route_ext [] (ext_get_type env uri method)"

definition helper_get_file_types where
  "helper_get_file_types env uri mime_type_filter method = route_ext [] (ext_get_file_types env uri mime_type_filter method)"

definition helper_batch_insert where
  "helper_batch_insert env uri values method = route_ext DATA_SHARE_ERROR (ext_batch_insert env uri values method)"

definition helper_batch_update where
  "helper_batch_update env operations method = route_ext DATA_SHARE_ERROR (ext_batch_update env operations method)"

definition helper_normalize_uri where
  "helper_normalize_uri env uri method = route_ext [] (ext_normalize_uri env uri method)"

definition helper_denormalize_uri where
  "helper_denormalize_uri env uri method = route_ext [] (ext_denormalize_uri env uri method)"

definition insert_ext_str where
  "insert_ext_str env uri value method = route_ext (DATA_SHARE_ERROR, []) (ext_insert_ext env uri value method)"

definition helper_execute_batch where
  "helper_execute_batch env statements empty_result method =
     route_ext DATA_SHARE_ERROR (ext_execute_batch env statements empty_result method)"

definition helper_execute_batch_blob where
  "helper_execute_batch_blob env blob empty_result method =
     route_ext DATA_SHARE_ERROR (ext_execute_batch_blob env blob empty_result method)"

definition helper_user_define_func where
  "helper_user_define_func env data method = route_ext None (ext_user_define_func env data method)"


section \<open>Properties\<close>

text \<open>Which path a helper takes. A helper is silent exactly when a service proxy can be had and answers that the silent path is
  open for the URI, and then it never makes a connection; in every other case it is made for the extension, with a
  connection that is not yet made and waits two seconds whatever wait time was asked for. It is always a success.\<close>

theorem create_helper_spec:
  assumes "create_helper sv status nid cid sys str_uri ext_uri wait_time mg = (code, hp, mg')"
  defines "silent \<equiv> \<exists>r. fst (snd (manager_get_proxy sv mg)) = Some r \<and> status r str_uri = 0"
  shows "code = 0 \<and> hp_helper_type hp = (if silent then 0 else 1) \<and> mg' = snd (snd (manager_get_proxy sv mg))
    \<and> hp_path hp = (if silent then ServicePath (service_controller_new cid ext_uri)
                     else ProviderPath (connection_new_with_token_raw str_uri 0 2))
    \<and> (silent \<longrightarrow> fst (helper_get_type env uri method hp) = [] \<and> fst (helper_register_observer_ext bridge uri oid d hp) = -1
                    \<and> snd (helper_get_type env uri method hp) = hp)"
  using assms
  by (auto simp: create_helper_def new_provider_def new_service_def helper_get_type_def route_ext_def helper_register_observer_ext_def
      DATA_SHARE_ERROR_def split: prod.splits option.splits if_splits)

theorem create_helper_spec_witness:
  "hp_helper_type (fst (snd (create_helper no_services (\<lambda>_ _. 0) 1 1 False ''datashare:///x'' ''datashare:///e'' 9 (manager_new :: (nat, 'c) manager)))) = 1"
proof -
  obtain code hp mg' where c: "create_helper no_services (\<lambda>_ _. 0) 1 1 False ''datashare:///x'' ''datashare:///e'' 9 (manager_new :: (nat, 'c) manager) = (code, hp, mg')"
    by (cases "create_helper no_services (\<lambda>_ _. 0) 1 1 False ''datashare:///x'' ''datashare:///e'' 9 (manager_new :: (nat, 'c) manager)")
  have "fst (snd (manager_get_proxy no_services (manager_new :: (nat, 'c) manager))) = None"
    by (simp add: manager_get_proxy_def acquire_data_share_remote_def kv_remote_of_def no_services_def manager_new_def)
  then show ?thesis using create_helper_spec [OF c] by (simp add: c)
qed

text \<open>All handles of proxy data are one subscriber. Two handles that subscribe to the same URI each get its changes; but when one of
  them unsubscribes, the other is no longer called either.\<close>

theorem proxy_handles_share:
  assumes "registry_ok xm" and "mg_service_proxy mg = Some r"
  shows "let xm1 = snd (fst (handle_subscribe sv svc [uri] cb1 mg xm)); xm2 = snd (fst (handle_subscribe sv svc [uri] cb2 mg xm1));
             xm3 = snd (fst (handle_unsubscribe sv [uri] mg xm2))
         in entries_at xm2 uri = entries_at xm uri @ [\<lparr>pe_subscriber = 0, pe_callback = cb1\<rparr>, \<lparr>pe_subscriber = 0, pe_callback = cb2\<rparr>]
            \<and> (\<forall>e \<in> set (entries_at xm3 uri). pe_subscriber e \<noteq> 0)"
  using assms
  by (simp add: handle_subscribe_def handle_unsubscribe_def with_service_serve manager_source.serve_cached proxy_add_observers_def
      proxy_del_observers_def entries_retain Let_def)

theorem proxy_handles_share_witness:
  "entries_at (snd (fst (handle_unsubscribe example_answers [''datashareproxy://a/b'']
       ((manager_new :: (nat, 'c) manager)\<lparr>mg_service_proxy := Some 7\<rparr>)
       (snd (proxy_add_observers (\<lambda>_. []) 0 [''datashareproxy://a/b''] ''second''
         (snd (proxy_add_observers (\<lambda>_. []) 0 [''datashareproxy://a/b''] ''first'' []))))))) ''datashareproxy://a/b'' = []"
proof -
  let ?mg = "(manager_new :: (nat, 'c) manager)\<lparr>mg_service_proxy := Some 7\<rparr>" and ?u = "''datashareproxy://a/b''"
  have ok: "registry_ok ([] :: string proxy_manager)" by (simp add: registry_ok_def)
  have mg: "mg_service_proxy ?mg = Some 7" by simp
  show ?thesis
    using proxy_handles_share [OF ok mg, of example_answers "\<lambda>_ _. []" ?u "''first''" "''second''"]
    by (simp add: Let_def handle_subscribe_def handle_unsubscribe_def with_service_serve manager_source.serve_cached [OF mg]
        proxy_add_observers_def proxy_del_observers_def entries_retain ok)
qed

text \<open>A released helper works as before: \<open>release\<close> sets a flag that nothing reads.\<close>

lemma released_route:
  "route service provider (snd (release hp)) mg =
     (let (a, hp', mg') = route service provider hp mg in (a, hp'\<lparr>hp_released := True\<rparr>, mg'))"
  by (auto simp: route_def release_def Let_def split: helper_path.splits prod.splits)

end
