(* ===== verification/Proxy_Codec.thy ===== *)
theory Proxy_Codec
  imports Binary_Buffer Data_Types
begin

text \<open>
  The buffer mode of \<open>proxy/service_proxy.rs\<close>: proxy data on its way to the service and results on their way back,
  as byte streams of the shape of \<open>Binary_Buffer\<close>. The readers allocate what a length prefix asks for before they
  look at the bytes; \<open>avail\<close> is how many bytes the allocator can give, and the failure \<open>ReadUndefined\<close> is here the
  panic or abort of an allocation beyond it. A word has 64 bits; \<open>STRING_SIZE\<close> is the size of a \<open>String\<close> there.
\<close>

section \<open>Writers\<close>

definition buf_write_string :: "string \<Rightarrow> writer" where
  "buf_write_string s = wseq (write_basic (of_nat (length s) :: usize)) (write_all (as_bytes s))"

definition buf_write_string_vec :: "string list \<Rightarrow> writer" where
  "buf_write_string_vec vec = wseq (write_basic (of_nat (length vec) :: usize)) (write_each buf_write_string vec)"

definition buf_write_proxy_value :: "data_proxy_value \<Rightarrow> writer" where
  "buf_write_proxy_value val =
     (case val of
        ProxyInt v \<Rightarrow> wseq (write_basic (0 :: usize)) (write_basic v)
      | ProxyDouble v \<Rightarrow> wseq (write_basic (1 :: usize)) (write_basic v)
      | ProxyString v \<Rightarrow> wseq (write_basic (2 :: usize)) (buf_write_string v)
      | ProxyBool v \<Rightarrow> wseq (write_basic (3 :: usize)) (write_bool v))"

definition buf_write_proxy_data :: "data_share_proxy_data \<Rightarrow> writer" where
  "buf_write_proxy_data d =
     wseq (buf_write_string (pd_uri d)) (wseq (write_bool (pd_is_value_undefined d)) (wseq (write_bool (pd_is_allow_list_undefined d))
       (wseq (if \<not> pd_is_value_undefined d then buf_write_proxy_value (pd_value d) else wskip)
         (if \<not> pd_is_allow_list_undefined d then buf_write_string_vec (pd_allow_list d) else wskip))))"

text \<open>The blob of a vector of proxy data, and of a vector of URIs, with the length that is written before it.\<close>

definition write_proxy_data_vec_to_parcel :: "data_share_proxy_data list \<Rightarrow> (i32 \<times> bytes) option" where
  "write_proxy_data_vec_to_parcel items =
     map_option (\<lambda>blob. (of_nat (length blob), blob))
       (wseq (write_basic (of_nat (length items) :: usize)) (write_each buf_write_proxy_data items) [])"

definition write_string_vec_to_parcel :: "string list \<Rightarrow> (i32 \<times> bytes) option" where
  "write_string_vec_to_parcel uris =
     map_option (\<lambda>blob. (of_nat (length blob), blob))
       (wseq (write_basic (of_nat (length uris) :: usize)) (write_each buf_write_string uris) [])"

section \<open>Readers\<close>

definition STRING_SIZE :: nat where "STRING_SIZE = 24"

text \<open>The guard of an allocation.\<close>

definition alloc_guard :: "nat \<Rightarrow> nat \<Rightarrow> 'a reader \<Rightarrow> 'a reader" where
  "alloc_guard avail n r = (if n \<le> avail then r else rfail ReadUndefined)"

definition buf_read_bool :: "bool reader" where
  "buf_read_bool = rbind (read_basic :: u8 reader) (\<lambda>b. rret (b \<noteq> 0))"

definition buf_read_string :: "nat \<Rightarrow> string reader" where
  "buf_read_string avail =
     rbind (read_basic :: usize reader)
       (\<lambda>len. alloc_guard avail (unat len)
          (rbind (read_exact (unat len)) (\<lambda>bs. if utf8_valid (of_bytes bs) then rret (of_bytes bs) else rfail ReadNone)))"

definition buf_read_string_vec :: "nat \<Rightarrow> string list reader" where
  "buf_read_string_vec avail =
     rbind (read_basic :: usize reader)
       (\<lambda>count. alloc_guard avail (unat count * STRING_SIZE) (read_n (unat count) (buf_read_string avail)))"

definition buf_read_proxy_value :: "nat \<Rightarrow> data_proxy_value reader" where
  "buf_read_proxy_value avail =
     rbind (read_basic :: usize reader)
       (\<lambda>type_index.
          if type_index = 0 then rbind (read_basic :: i64 reader) (\<lambda>v. rret (ProxyInt v))
          else if type_index = 1 then rbind (read_basic :: f64 reader) (\<lambda>v. rret (ProxyDouble v))
          else if type_index = 2 then rbind (buf_read_string avail) (\<lambda>v. rret (ProxyString v))
          else if type_index = 3 then rbind buf_read_bool (\<lambda>v. rret (ProxyBool v))
          else rfail ReadNone)"

definition buf_read_proxy_get_result :: "nat \<Rightarrow> data_proxy_get_result reader" where
  "buf_read_proxy_get_result avail =
     rbind (buf_read_string avail) (\<lambda>uri. rbind (read_basic :: i32 reader) (\<lambda>code.
       rbind (buf_read_proxy_value avail) (\<lambda>value. rbind (buf_read_string_vec avail) (\<lambda>allow_list.
         rret \<lparr>pg_uri = uri, pg_result = data_proxy_error_code_from_i32 code, pg_value = value, pg_allow_list = allow_list\<rparr>))))"

text \<open>The loop of \<open>read_proxy_get_result_vec_from_parcel\<close> stops at the first result it cannot read; \<open>None\<close> is a panic.\<close>

fun read_results :: "nat \<Rightarrow> nat \<Rightarrow> bytes \<Rightarrow> data_proxy_get_result list option" where
  "read_results avail 0 bs = Some []"
| "read_results avail (Suc n) bs =
     (case buf_read_proxy_get_result avail bs of
        Inr (r, rest) \<Rightarrow> map_option ((#) r) (read_results avail n rest)
      | Inl ReadNone \<Rightarrow> Some []
      | Inl ReadUndefined \<Rightarrow> None)"

text \<open>The parcel gives the two lengths and the buffer; \<open>item_size\<close> is the size of a result in memory.\<close>

definition read_proxy_get_result_vec_from_parcel :: "nat \<Rightarrow> nat \<Rightarrow> i32 option \<Rightarrow> i32 option \<Rightarrow> (nat \<Rightarrow> bytes option) \<Rightarrow> data_proxy_get_result list option" where
  "read_proxy_get_result_vec_from_parcel avail item_size blob1 blob2 read_buffer =
     (case blob1 of
        None \<Rightarrow> Some []
      | Some blob_len \<Rightarrow>
          if blob_len \<le>s 0 then Some []
          else case blob2 of
                 None \<Rightarrow> Some []
               | Some _ \<Rightarrow>
                   (case read_buffer (unat (scast blob_len :: usize)) of
                      None \<Rightarrow> Some []
                    | Some raw \<Rightarrow>
                        (case (read_basic :: usize reader) raw of
                           Inl _ \<Rightarrow> Some []
                         | Inr (cnt, rest) \<Rightarrow> if unat cnt * item_size \<le> avail then read_results avail (unat cnt) rest else None)))"

section \<open>Codecs\<close>

lemma well_behaved_alloc [reader_intros]: "well_behaved k r \<Longrightarrow> well_behaved k (alloc_guard avail n r)"
  by (simp add: alloc_guard_def well_behaved_rfail)

lemma well_behaved_bool [reader_intros]: "well_behaved 1 buf_read_bool"
  unfolding buf_read_bool_def using well_behaved_rbind [OF well_behaved_read_basic [where ?'a = 8] well_behaved_rret] by simp

lemma well_behaved_word64: "(\<And>v. well_behaved 0 (k v)) \<Longrightarrow> well_behaved 8 (rbind (read_basic :: usize reader) k)"
  using well_behaved_rbind_0 [OF well_behaved_read_basic [where ?'a = 64], of k] by simp

lemma well_behaved_string [reader_intros]: "well_behaved 8 (buf_read_string avail)"
  unfolding buf_read_string_def
  by (rule well_behaved_word64, rule well_behaved_alloc, rule well_behaved_rbind_0 [OF well_behaved_0 [OF well_behaved_read_exact]])
    (simp add: well_behaved_rret well_behaved_rfail)

definition enc_string :: "string \<Rightarrow> bytes" where
  "enc_string s = le_bytes 8 (of_nat (length s) :: usize) @ as_bytes s"

definition string_ok :: "nat \<Rightarrow> string \<Rightarrow> bool" where
  "string_ok avail s \<longleftrightarrow> utf8_valid s \<and> length s \<le> avail \<and> avail < 2 ^ 64"

lemma buf_read_bool_write [simp]: "buf_read_bool (le_bytes (Suc 0) (if b then 1 else 0 :: u8) @ rest) = Inr (b, rest)"
  by (simp add: buf_read_bool_def)

interpretation str_codec: codec buf_write_string "buf_read_string avail" "\<lambda>s. s" "string_ok avail" enc_string 8 for avail
proof
  show "appends (buf_write_string x) (enc_string x)" for x
    using appends_wseq [OF appends_write_basic [of "of_nat (length x) :: usize"] appends_write_all [of "as_bytes x"]]
    by (simp add: buf_write_string_def enc_string_def)
  show "buf_read_string avail (enc_string x @ rest) = Inr (x, rest)" if "string_ok avail x" for x rest
    using that by (simp add: buf_read_string_def enc_string_def string_ok_def alloc_guard_def unat_of_nat)
qed (rule well_behaved_string)

definition strings_ok :: "nat \<Rightarrow> string list \<Rightarrow> bool" where
  "strings_ok avail xs \<longleftrightarrow> length xs * STRING_SIZE \<le> avail \<and> avail < 2 ^ 64 \<and> list_all (string_ok avail) xs"

interpretation strings_codec: codec buf_write_string_vec "buf_read_string_vec avail" "\<lambda>s. s" "strings_ok avail" "counted_enc enc_string" 8 for avail
proof
  show "appends (buf_write_string_vec xs) (counted_enc enc_string xs)" for xs
    using str_codec.appends_counted [of xs] by (simp add: buf_write_string_vec_def write_counted_def)
  show "buf_read_string_vec avail (counted_enc enc_string xs @ rest) = Inr (xs, rest)" if "strings_ok avail xs" for xs rest
  proof -
    have "length xs < 2 ^ 64" using that by (auto simp: strings_ok_def STRING_SIZE_def)
    then show ?thesis using that str_codec.read_n_enc [of avail xs]
      by (simp add: buf_read_string_vec_def counted_enc_def strings_ok_def alloc_guard_def unat_of_nat)
  qed
  have "well_behaved 0 (read_n n (buf_read_string avail))" for n
    by (rule well_behaved_0 [OF well_behaved_read_n [OF well_behaved_string]])
  then show "well_behaved 8 (buf_read_string_vec avail)"
    unfolding buf_read_string_vec_def by (intro well_behaved_word64 well_behaved_alloc)
qed

fun enc_value :: "data_proxy_value \<Rightarrow> bytes" where
  "enc_value (ProxyInt v) = le_bytes 8 (0 :: usize) @ le_bytes 8 v"
| "enc_value (ProxyDouble v) = le_bytes 8 (1 :: usize) @ le_bytes 8 v"
| "enc_value (ProxyString v) = le_bytes 8 (2 :: usize) @ enc_string v"
| "enc_value (ProxyBool v) = le_bytes 8 (3 :: usize) @ le_bytes (Suc 0) (if v then 1 else 0 :: u8)"

fun value_ok :: "nat \<Rightarrow> data_proxy_value \<Rightarrow> bool" where
  "value_ok avail (ProxyString v) \<longleftrightarrow> string_ok avail v"
| "value_ok avail _ \<longleftrightarrow> True"

interpretation value_codec: codec buf_write_proxy_value "buf_read_proxy_value avail" "\<lambda>v. v" "value_ok avail" enc_value 8 for avail
proof
  show "appends (buf_write_proxy_value x) (enc_value x)" for x
  proof (cases x)
    case (ProxyInt v)
    then show ?thesis using appends_wseq [OF appends_write_basic [of "0 :: usize"] appends_write_basic [of v]]
      by (simp add: buf_write_proxy_value_def)
  next
    case (ProxyDouble v)
    then show ?thesis using appends_wseq [OF appends_write_basic [of "1 :: usize"] appends_write_basic [of v]]
      by (simp add: buf_write_proxy_value_def)
  next
    case (ProxyString v)
    then show ?thesis using appends_wseq [OF appends_write_basic [of "2 :: usize"] str_codec.wr_enc [of v]]
      by (simp add: buf_write_proxy_value_def)
  next
    case (ProxyBool v)
    then show ?thesis using appends_wseq [OF appends_write_basic [of "3 :: usize"] appends_write_bool [of v]]
      by (simp add: buf_write_proxy_value_def)
  qed
  show "buf_read_proxy_value avail (enc_value x @ rest) = Inr (x, rest)" if "value_ok avail x" for x rest
    using that by (cases x) (simp_all add: buf_read_proxy_value_def str_codec.rd_enc)
  show "well_behaved 8 (buf_read_proxy_value avail)"
    unfolding buf_read_proxy_value_def
    by (rule well_behaved_word64)
      (auto intro!: well_behaved_rbind_0 well_behaved_rret well_behaved_rfail well_behaved_0 [OF well_behaved_bool]
        well_behaved_0 [OF well_behaved_string] well_behaved_0 [OF well_behaved_read_basic])
qed

text \<open>What the service reads of one proxy data: the fields in the order of the writer, absent fields at their defaults.\<close>

definition sent_proxy_data :: "data_share_proxy_data \<Rightarrow> data_share_proxy_data" where
  "sent_proxy_data d = d\<lparr>pd_value := if pd_is_value_undefined d then data_proxy_value_default else pd_value d,
     pd_allow_list := if pd_is_allow_list_undefined d then [] else pd_allow_list d\<rparr>"

definition service_read_proxy_data :: "nat \<Rightarrow> data_share_proxy_data reader" where
  "service_read_proxy_data avail =
     rbind (buf_read_string avail) (\<lambda>uri. rbind buf_read_bool (\<lambda>vu. rbind buf_read_bool (\<lambda>au.
       rbind (if vu then rret data_proxy_value_default else buf_read_proxy_value avail) (\<lambda>v.
         rbind (if au then rret [] else buf_read_string_vec avail) (\<lambda>al.
           rret \<lparr>pd_uri = uri, pd_value = v, pd_allow_list = al, pd_is_value_undefined = vu, pd_is_allow_list_undefined = au\<rparr>)))))"

definition enc_proxy_data :: "data_share_proxy_data \<Rightarrow> bytes" where
  "enc_proxy_data d =
     enc_string (pd_uri d) @ le_bytes (Suc 0) (if pd_is_value_undefined d then 1 else 0 :: u8) @
     le_bytes (Suc 0) (if pd_is_allow_list_undefined d then 1 else 0 :: u8) @
     (if pd_is_value_undefined d then [] else enc_value (pd_value d)) @
     (if pd_is_allow_list_undefined d then [] else counted_enc enc_string (pd_allow_list d))"

definition proxy_data_ok :: "nat \<Rightarrow> data_share_proxy_data \<Rightarrow> bool" where
  "proxy_data_ok avail d \<longleftrightarrow> string_ok avail (pd_uri d) \<and> (pd_is_value_undefined d \<or> value_ok avail (pd_value d)) \<and>
     (pd_is_allow_list_undefined d \<or> strings_ok avail (pd_allow_list d))"

lemma well_behaved_field:
  "well_behaved 8 r \<Longrightarrow> (\<And>v. well_behaved 0 (k v)) \<Longrightarrow> well_behaved 0 (rbind (if b then rret d else r) k)"
  by (auto intro!: well_behaved_rbind_0 intro: well_behaved_rret well_behaved_0)

interpretation data_codec: codec buf_write_proxy_data "service_read_proxy_data avail" sent_proxy_data "proxy_data_ok avail" enc_proxy_data 8 for avail
proof
  show "appends (buf_write_proxy_data d) (enc_proxy_data d)" for d
    unfolding buf_write_proxy_data_def enc_proxy_data_def
    by (intro appends_wseq str_codec.wr_enc appends_write_bool)
      (auto simp: enc_simps value_codec.wr_enc strings_codec.wr_enc)
  show "service_read_proxy_data avail (enc_proxy_data d @ rest) = Inr (sent_proxy_data d, rest)" if "proxy_data_ok avail d" for d rest
    using that by (cases d) (auto simp: proxy_data_ok_def service_read_proxy_data_def enc_proxy_data_def sent_proxy_data_def
        str_codec.rd_enc value_codec.rd_enc strings_codec.rd_enc)
  show "well_behaved 8 (service_read_proxy_data avail)"
    unfolding service_read_proxy_data_def
    by (intro well_behaved_rbind_0 [OF well_behaved_string] well_behaved_rbind_0 [OF well_behaved_0 [OF well_behaved_bool]]
        well_behaved_field value_codec.rd_wb strings_codec.rd_wb well_behaved_rret)
qed

text \<open>The image of a result as the service writes it.\<close>

definition enc_get_result :: "data_proxy_get_result \<Rightarrow> bytes" where
  "enc_get_result r = enc_string (pg_uri r) @ le_bytes 4 (data_proxy_error_code_code (pg_result r)) @
     enc_value (pg_value r) @ counted_enc enc_string (pg_allow_list r)"

definition get_result_ok :: "nat \<Rightarrow> data_proxy_get_result \<Rightarrow> bool" where
  "get_result_ok avail r \<longleftrightarrow> string_ok avail (pg_uri r) \<and> value_ok avail (pg_value r) \<and> strings_ok avail (pg_allow_list r)"

lemma read_get_result:
  "get_result_ok avail r \<Longrightarrow> buf_read_proxy_get_result avail (enc_get_result r @ rest) = Inr (r, rest)"
  by (cases r) (simp add: get_result_ok_def enc_get_result_def buf_read_proxy_get_result_def str_codec.rd_enc
      value_codec.rd_enc strings_codec.rd_enc proxy_code.of_code_total)

lemma well_behaved_get_result: "well_behaved 28 (buf_read_proxy_get_result avail)"
proof -
  have "well_behaved (8 + (4 + (8 + (8 + 0)))) (buf_read_proxy_get_result avail)"
    unfolding buf_read_proxy_get_result_def
    by (intro well_behaved_rbind [OF well_behaved_string] well_behaved_rbind [OF value_codec.rd_wb]
        well_behaved_rbind [OF strings_codec.rd_wb] well_behaved_rret
        well_behaved_rbind [OF well_behaved_read_basic [where ?'a = 32, simplified]])
  then show ?thesis by simp
qed

lemma read_results_enc:
  "list_all (get_result_ok avail) rs \<Longrightarrow> read_results avail (length rs) (concat (map enc_get_result rs) @ rest) = Some rs"
  by (induction rs arbitrary: rest) (simp_all add: read_get_result)

lemma read_results_bounded: "read_results avail n bs = Some rs \<Longrightarrow> length rs * 28 \<le> length bs \<and> length rs \<le> n"
proof (induction n arbitrary: bs rs)
  case (Suc n)
  show ?case
  proof (cases "buf_read_proxy_get_result avail bs")
    case (Inl e)
    with Suc.prems show ?thesis by (cases e) simp_all
  next
    case (Inr res)
    then obtain r rest where r: "buf_read_proxy_get_result avail bs = Inr (r, rest)" by (cases res) simp
    with Suc.prems obtain rs' where "rs = r # rs'" "read_results avail n rest = Some rs'" by auto
    moreover have "28 + length rest \<le> length bs" using well_behaved_Inr(3) [OF well_behaved_get_result r] by simp
    ultimately show ?thesis using Suc.IH [of rest rs'] by simp
  qed
qed simp

section \<open>Properties\<close>

text \<open>
  A vector of proxy data written for the service is announced with its length and is, read field by field with the
  readers of this file, the same vector, where a value or an allow list that is marked undefined was not sent; nothing
  is left unread.
\<close>

theorem proxy_data_blob_roundtrip:
  assumes "length items < 2 ^ 64" and "list_all (proxy_data_ok avail) items"
  shows "\<exists>blob. write_proxy_data_vec_to_parcel items = Some (of_nat (length blob), blob) \<and>
           rbind (read_basic :: usize reader) (\<lambda>n. read_n (unat n) (service_read_proxy_data avail)) blob
             = Inr (map sent_proxy_data items, [])"
proof -
  have blob: "write_counted buf_write_proxy_data items [] = Some (counted_enc enc_proxy_data items)"
    using appendsD [OF data_codec.appends_counted, of items "[]"] by simp
  moreover have "read_counted (service_read_proxy_data avail) (counted_enc enc_proxy_data items @ []) = Inr (map sent_proxy_data items, [])"
    by (rule data_codec.read_counted_enc) (use assms in \<open>simp add: counted_ok_def\<close>)
  ultimately show ?thesis by (simp add: write_proxy_data_vec_to_parcel_def write_counted_def read_counted_def)
qed

theorem proxy_data_blob_roundtrip_witness:
  "\<exists>blob. write_proxy_data_vec_to_parcel [data_share_proxy_data_new ''a'' (ProxyInt 7) [''b'']] = Some (of_nat (length blob), blob) \<and>
     rbind (read_basic :: usize reader) (\<lambda>n. read_n (unat n) (service_read_proxy_data 100)) blob
       = Inr (map sent_proxy_data [data_share_proxy_data_new ''a'' (ProxyInt 7) [''b'']], [])"
  by (rule proxy_data_blob_roundtrip)
    (simp_all add: data_share_proxy_data_new_def proxy_data_ok_def string_ok_def strings_ok_def STRING_SIZE_def utf8_valid_def)

text \<open>
  A reply that holds results in the format of the service is read back as these results, whatever the announced
  second length is, when the allocator can give what the results take; in general the list that is returned holds at
  most one result for every 28 bytes of the reply.
\<close>

theorem get_results_read_back:
  assumes "list_all (get_result_ok avail) rs" and "length rs < 2 ^ 64" "length rs * item_size \<le> avail"
    and blob: "blob = counted_enc enc_get_result rs" "length blob < 2 ^ 31"
  shows "read_proxy_get_result_vec_from_parcel avail item_size (Some (of_nat (length blob))) (Some l2)
           (\<lambda>n. if n = length blob then Some blob else None) = Some rs"
proof -
  have len: "sint (of_nat (length blob) :: i32) = int (length blob)" by (rule sint_of_nat32 [OF blob(2)])
  have pos: "\<not> (of_nat (length blob) :: i32) \<le>s 0"
    unfolding word_sle_eq len by (simp add: blob(1) counted_enc_def)
  have same: "unat (scast (of_nat (length blob) :: i32) :: usize) = length blob"
    using blob(2) len by (simp add: scast_eq unat_of_nat)
  show ?thesis using assms(1-3) pos same blob(1)
    by (simp add: read_proxy_get_result_vec_from_parcel_def counted_enc_def unat_of_nat read_results_enc [where rest = "[]", simplified])
qed


theorem get_results_read_back_witness:
  "let rs = [\<lparr>pg_uri = ''a'', pg_result = NoPermission, pg_value = ProxyBool True, pg_allow_list = [''b'']\<rparr>];
       blob = counted_enc enc_get_result rs
   in read_proxy_get_result_vec_from_parcel 1000 104 (Some (of_nat (length blob))) (Some 0)
        (\<lambda>n. if n = length blob then Some blob else None) = Some rs"
  unfolding Let_def
  by (rule get_results_read_back)
    (simp_all add: get_result_ok_def string_ok_def strings_ok_def STRING_SIZE_def utf8_valid_def counted_enc_def
      enc_get_result_def enc_string_def)

lemma reader_limits_core:
  assumes "avail < 2 ^ 63" and "0 < item_size" "item_size \<le> avail"
  shows "read_proxy_get_result_vec_from_parcel avail item_size (Some 8) (Some 8) (\<lambda>_. Some (le_bytes 8 (- 1 :: usize))) = None"
    and "read_proxy_get_result_vec_from_parcel avail item_size (Some 16) (Some 16)
           (\<lambda>_. Some (le_bytes 8 (1 :: usize) @ le_bytes 8 (- 1 :: usize))) = None"
    and "read_proxy_get_result_vec_from_parcel avail item_size (Some l1) l2 (\<lambda>_. Some raw) = Some rs
           \<Longrightarrow> rs = [] \<or> length rs * 28 + 8 \<le> length raw"
proof -
  have all: "read_basic (le_bytes 8 (- 1 :: usize)) = Inr (- 1 :: usize, [])"
    using read_basic_64 [of "- 1" "[]"] by simp
  have top: "unat (- 1 :: usize) = 2 ^ 64 - 1" by (simp add: unsigned_minus_1_eq_mask mask_eq_exp_minus_1)
  have big: "\<not> unat (- 1 :: usize) \<le> avail" using assms(1) by (simp add: top)
  moreover have "unat (- 1 :: usize) * 1 \<le> unat (- 1 :: usize) * item_size" using assms(2) by (intro mult_le_mono2) simp
  ultimately have big2: "\<not> unat (- 1 :: usize) * item_size \<le> avail" by linarith
  show "read_proxy_get_result_vec_from_parcel avail item_size (Some 8) (Some 8) (\<lambda>_. Some (le_bytes 8 (- 1 :: usize))) = None"
    using big2 by (simp add: read_proxy_get_result_vec_from_parcel_def all word_sle_eq)
  show "read_proxy_get_result_vec_from_parcel avail item_size (Some 16) (Some 16)
          (\<lambda>_. Some (le_bytes 8 (1 :: usize) @ le_bytes 8 (- 1 :: usize))) = None"
    using big assms(3) by (simp add: read_proxy_get_result_vec_from_parcel_def word_sle_eq all alloc_guard_def
        buf_read_proxy_get_result_def buf_read_string_def rbind_def rfail_def)
  show "rs = [] \<or> length rs * 28 + 8 \<le> length raw"
    if "read_proxy_get_result_vec_from_parcel avail item_size (Some l1) l2 (\<lambda>_. Some raw) = Some rs"
  proof (cases "(read_basic :: usize reader) raw")
    case (Inl e)
    with that show ?thesis by (auto simp: read_proxy_get_result_vec_from_parcel_def split: if_splits option.splits)
  next
    case (Inr res)
    then obtain cnt rest where r: "(read_basic :: usize reader) raw = Inr (cnt, rest)" by (cases res) simp
    then have "rs = [] \<or> read_results avail (unat cnt) rest = Some rs"
      using that by (auto simp: read_proxy_get_result_vec_from_parcel_def split: if_splits option.splits)
    then show ?thesis
      using read_results_bounded [of avail "unat cnt" rest rs] well_behaved_Inr(3) [OF well_behaved_read_basic r] by auto
  qed
qed


text \<open>
  The reader of a reply allocates before it looks: eight bytes that announce $2^{64}-1$ results, and sixteen bytes
  that announce one result whose URI has $2^{64}-1$ bytes, make it panic whatever memory there is. A reply of results
  that is accepted holds at least 28 bytes for each of them.
\<close>

theorem reply_reader_limits:
  assumes "avail < 2 ^ 63" and "0 < item_size" "item_size \<le> avail"
  shows "read_proxy_get_result_vec_from_parcel avail item_size (Some 8) (Some 8) (\<lambda>_. Some (le_bytes 8 (- 1 :: usize))) = None
    \<and> read_proxy_get_result_vec_from_parcel avail item_size (Some 16) (Some 16)
          (\<lambda>_. Some (le_bytes 8 (1 :: usize) @ le_bytes 8 (- 1 :: usize))) = None
    \<and> (read_proxy_get_result_vec_from_parcel avail item_size (Some l1) l2 (\<lambda>_. Some raw) = Some rs
         \<longrightarrow> rs = [] \<or> length rs * 28 + 8 \<le> length raw)"
  using reader_limits_core [OF assms] by blast

theorem reply_reader_limits_witness:
  "read_proxy_get_result_vec_from_parcel 4096 104 (Some 8) (Some 8) (\<lambda>_. Some (le_bytes 8 (- 1 :: usize))) = None \<and>
   read_proxy_get_result_vec_from_parcel 4096 104 (Some 16) (Some 16)
     (\<lambda>_. Some (le_bytes 8 (1 :: usize) @ le_bytes 8 (- 1 :: usize))) = None \<and>
   (read_proxy_get_result_vec_from_parcel 4096 104 (Some 0) None (\<lambda>_. Some []) = Some [] \<and>
    ([] = ([] :: data_proxy_get_result list) \<or> length ([] :: data_proxy_get_result list) * 28 + 8 \<le> length ([] :: bytes)))"
  using reply_reader_limits [of 4096 104 0 None "[]" "[]"]
  by (simp add: read_proxy_get_result_vec_from_parcel_def)

end
