(* ===== verification/Parcel.thy ===== *)
theory Parcel
  imports Binary_Buffer
begin

text \<open>
  The parcel of the IPC crate, and the contract between what is written to it and how it is read. The crate is not part
  of the sources: its typed writes and reads are the fields of the record \<open>parcel_api\<close>, an argument of every
  definition that uses them. A parcel is the bytes it holds; a write is refused (\<open>None\<close>) where the crate returns an
  error, for instance at the capacity of the parcel, and a read takes a prefix of the bytes that are left.

  What the code relies on is \<open>parcel_ok\<close>: what an accepted typed write put into the parcel is what the typed read of
  the same type returns, whatever follows it. The relation \<open>transfers\<close> is this contract for the writers and
  readers that are built from them, and the collection \<open>transfers_intros\<close> closes it under their combinators;
  \<open>accepts\<close> says that a writer is never refused.
\<close>

section \<open>The interface\<close>

text \<open>The typed write and the typed read of one type.\<close>

record 'x port =
  pt_write :: "'x \<Rightarrow> writer"
  pt_read :: "'x reader"

text \<open>\<open>'a\<close> is a shared memory region, \<open>'r\<close> a remote object. \<open>pc_text\<close> tells the texts a parcel carries.\<close>

record ('a, 'r) parcel_api =
  pc_i32 :: "i32 port"
  pc_u32 :: "u32 port"
  pc_i16 :: "i16 port"
  pc_i64 :: "i64 port"
  pc_f64 :: "f64 port"
  pc_bool :: "bool port"
  pc_string :: "string port"
  pc_string16 :: "string port"
  pc_strings :: "(string list) port"
  pc_ashmem :: "'a port"
  pc_remote :: "'r port"
  pc_token :: "string port"
  pc_write_buffer :: "bytes \<Rightarrow> writer"
  pc_read_buffer :: "usize \<Rightarrow> bytes reader"
  pc_text :: "string \<Rightarrow> bool"

abbreviation "pc_write_i32 P \<equiv> pt_write (pc_i32 P)"
abbreviation "pc_read_i32 P \<equiv> pt_read (pc_i32 P)"
abbreviation "pc_write_u32 P \<equiv> pt_write (pc_u32 P)"
abbreviation "pc_read_u32 P \<equiv> pt_read (pc_u32 P)"
abbreviation "pc_write_i16 P \<equiv> pt_write (pc_i16 P)"
abbreviation "pc_read_i16 P \<equiv> pt_read (pc_i16 P)"
abbreviation "pc_write_i64 P \<equiv> pt_write (pc_i64 P)"
abbreviation "pc_read_i64 P \<equiv> pt_read (pc_i64 P)"
abbreviation "pc_write_f64 P \<equiv> pt_write (pc_f64 P)"
abbreviation "pc_read_f64 P \<equiv> pt_read (pc_f64 P)"
abbreviation "pc_write_bool P \<equiv> pt_write (pc_bool P)"
abbreviation "pc_read_bool P \<equiv> pt_read (pc_bool P)"
abbreviation "pc_write_string P \<equiv> pt_write (pc_string P)"
abbreviation "pc_read_string P \<equiv> pt_read (pc_string P)"
abbreviation "pc_write_string16 P \<equiv> pt_write (pc_string16 P)"
abbreviation "pc_read_string16 P \<equiv> pt_read (pc_string16 P)"
abbreviation "pc_write_strings P \<equiv> pt_write (pc_strings P)"
abbreviation "pc_read_strings P \<equiv> pt_read (pc_strings P)"
abbreviation "pc_write_ashmem P \<equiv> pt_write (pc_ashmem P)"
abbreviation "pc_read_ashmem P \<equiv> pt_read (pc_ashmem P)"
abbreviation "pc_write_remote P \<equiv> pt_write (pc_remote P)"
abbreviation "pc_read_remote P \<equiv> pt_read (pc_remote P)"
abbreviation "pc_write_token P \<equiv> pt_write (pc_token P)"
abbreviation "pc_read_token P \<equiv> pt_read (pc_token P)"

section \<open>Transfer\<close>

definition transfers :: "writer \<Rightarrow> 'a reader \<Rightarrow> 'a \<Rightarrow> bool" where
  "transfers w r y \<longleftrightarrow> (\<forall>buf buf'. w buf = Some buf' \<longrightarrow> (\<exists>bs. buf' = buf @ bs \<and> (\<forall>rest. r (bs @ rest) = Inr (y, rest))))"

definition accepts :: "writer \<Rightarrow> bool" where
  "accepts w \<longleftrightarrow> (\<forall>buf. w buf \<noteq> None)"

named_theorems transfers_intros "what a writer puts into a parcel is what the reader returns"
named_theorems accepts_intros "writers that are never refused"

lemma transfersD:
  assumes "transfers w r y" and "w buf = Some buf'"
  obtains bs where "buf' = buf @ bs" and "\<And>rest. r (bs @ rest) = Inr (y, rest)"
  using assms unfolding transfers_def by blast

lemma transfers_skip: "transfers wskip (rret y) y"
  by (simp add: transfers_def wskip_def)

lemma transfers_seq:
  assumes "transfers v r a" and "transfers w (k a) y"
  shows "transfers (wseq v w) (rbind r k) y"
  unfolding transfers_def
proof (intro allI impI)
  fix buf buf'
  assume "wseq v w buf = Some buf'"
  then obtain mid where v: "v buf = Some mid" and w: "w mid = Some buf'" by (auto simp: wseq_def split: option.splits)
  obtain as where 1: "mid = buf @ as" "\<And>rest. r (as @ rest) = Inr (a, rest)" by (rule transfersD [OF assms(1) v]) blast
  obtain bs where 2: "buf' = mid @ bs" "\<And>rest. k a (bs @ rest) = Inr (y, rest)" by (rule transfersD [OF assms(2) w]) blast
  show "\<exists>bs. buf' = buf @ bs \<and> (\<forall>rest. rbind r k (bs @ rest) = Inr (y, rest))"
    by (rule exI [of _ "as @ bs"]) (simp add: 1 2)
qed

text \<open>The last field of a reader, whose result is built without reading more.\<close>

lemma transfers_last: "transfers w r a \<Longrightarrow> k a = rret y \<Longrightarrow> transfers w (rbind r k) y"
  unfolding transfers_def by (fastforce simp: rbind_Inr)

lemma transfers_ret: "transfers w r a \<Longrightarrow> transfers w (rbind r (\<lambda>a. rret (f a))) (f a)"
  by (erule transfers_last) (rule refl)

lemma transfers_same: "transfers w r y \<Longrightarrow> y = z \<Longrightarrow> transfers w r z"
  by simp

lemma transfers_each:
  assumes "\<And>x. x \<in> set xs \<Longrightarrow> transfers (w x) r (f x)"
  shows "transfers (write_each w xs) (read_n (length xs) r) (map f xs)"
  using assms
proof (induction xs)
  case (Cons x xs)
  have "transfers (wseq (w x) (write_each w xs)) (rbind r (\<lambda>x. rbind (read_n (length xs) r) (\<lambda>xs. rret (x # xs)))) (f x # map f xs)"
    by (rule transfers_seq [OF Cons.prems transfers_last [OF Cons.IH]]) (auto intro: Cons.prems simp del: rret_apply)
  then show ?case by simp
qed (simp add: transfers_skip)

lemma accepts_skip [accepts_intros]: "accepts wskip"
  by (simp add: accepts_def wskip_def)

lemma accepts_seq [accepts_intros]: "accepts v \<Longrightarrow> accepts w \<Longrightarrow> accepts (wseq v w)"
  by (simp add: accepts_def wseq_def split: option.splits)

lemma accepts_each [accepts_intros]: "(\<And>x. x \<in> set xs \<Longrightarrow> accepts (w x)) \<Longrightarrow> accepts (write_each w xs)"
  by (induction xs) (simp_all add: accepts_intros)

lemma accepts_if [accepts_intros]: "(b \<Longrightarrow> accepts v) \<Longrightarrow> (\<not> b \<Longrightarrow> accepts w) \<Longrightarrow> accepts (if b then v else w)"
  by simp

section \<open>What the code relies on\<close>

definition carries :: "('x \<Rightarrow> writer) \<Rightarrow> 'x reader \<Rightarrow> ('x \<Rightarrow> bool) \<Rightarrow> bool" where
  "carries w r ok \<longleftrightarrow> (\<forall>x. ok x \<longrightarrow> transfers (w x) r x)"

definition any :: "'x \<Rightarrow> bool" where "any x \<longleftrightarrow> True"

definition parcel_ok :: "('a, 'r) parcel_api \<Rightarrow> bool" where
  "parcel_ok P \<longleftrightarrow>
     carries (pc_write_i32 P) (pc_read_i32 P) any \<and> carries (pc_write_u32 P) (pc_read_u32 P) any
     \<and> carries (pc_write_i16 P) (pc_read_i16 P) any \<and> carries (pc_write_i64 P) (pc_read_i64 P) any
     \<and> carries (pc_write_f64 P) (pc_read_f64 P) any \<and> carries (pc_write_bool P) (pc_read_bool P) any
     \<and> carries (pc_write_string P) (pc_read_string P) (pc_text P) \<and> carries (pc_write_string16 P) (pc_read_string16 P) (pc_text P)
     \<and> carries (pc_write_strings P) (pc_read_strings P) (list_all (pc_text P))
     \<and> (\<forall>bs. 0 < length bs \<and> length bs < 2 ^ 31 \<longrightarrow> transfers (pc_write_buffer P bs) (pc_read_buffer P (of_nat (length bs))) bs)
     \<and> carries (pc_write_ashmem P) (pc_read_ashmem P) any \<and> carries (pc_write_remote P) (pc_read_remote P) any
     \<and> carries (pc_write_token P) (pc_read_token P) any"

text \<open>A parcel that never refuses a write.\<close>

definition parcel_accepts :: "('a, 'r) parcel_api \<Rightarrow> bool" where
  "parcel_accepts P \<longleftrightarrow>
     (\<forall>v. accepts (pc_write_i32 P v)) \<and> (\<forall>v. accepts (pc_write_u32 P v)) \<and> (\<forall>v. accepts (pc_write_i16 P v))
     \<and> (\<forall>v. accepts (pc_write_i64 P v)) \<and> (\<forall>v. accepts (pc_write_f64 P v)) \<and> (\<forall>v. accepts (pc_write_bool P v))
     \<and> (\<forall>v. accepts (pc_write_string P v)) \<and> (\<forall>v. accepts (pc_write_string16 P v)) \<and> (\<forall>v. accepts (pc_write_strings P v))
     \<and> (\<forall>v. accepts (pc_write_buffer P v)) \<and> (\<forall>v. accepts (pc_write_ashmem P v)) \<and> (\<forall>v. accepts (pc_write_remote P v))
     \<and> (\<forall>v. accepts (pc_write_token P v))"

text \<open>The laws, one by one, for the proofs of the clients.\<close>

locale parcel =
  fixes P :: "('a, 'r) parcel_api"
  assumes laws: "parcel_ok P"
begin

lemma prims [transfers_intros]:
  "transfers (pc_write_i32 P i) (pc_read_i32 P) i" "transfers (pc_write_u32 P u) (pc_read_u32 P) u"
  "transfers (pc_write_i16 P h) (pc_read_i16 P) h" "transfers (pc_write_i64 P l) (pc_read_i64 P) l"
  "transfers (pc_write_f64 P d) (pc_read_f64 P) d" "transfers (pc_write_bool P b) (pc_read_bool P) b"
  "transfers (pc_write_ashmem P a) (pc_read_ashmem P) a" "transfers (pc_write_remote P r) (pc_read_remote P) r"
  "transfers (pc_write_token P t) (pc_read_token P) t"
  using laws by (auto simp: parcel_ok_def carries_def any_def)

lemma texts [transfers_intros]:
  "pc_text P s \<Longrightarrow> transfers (pc_write_string P s) (pc_read_string P) s"
  "pc_text P s \<Longrightarrow> transfers (pc_write_string16 P s) (pc_read_string16 P) s"
  "list_all (pc_text P) ss \<Longrightarrow> transfers (pc_write_strings P ss) (pc_read_strings P) ss"
  using laws by (auto simp: parcel_ok_def carries_def)

lemma buffers: "bs \<noteq> [] \<Longrightarrow> length bs < 2 ^ 31 \<Longrightarrow> transfers (pc_write_buffer P bs) (pc_read_buffer P (of_nat (length bs))) bs"
  using laws by (simp add: parcel_ok_def)

end

locale open_parcel =
  fixes P :: "('a, 'r) parcel_api"
  assumes unlimited: "parcel_accepts P"
begin

lemma prims_accept [accepts_intros]:
  "accepts (pc_write_i32 P i)" "accepts (pc_write_u32 P u)" "accepts (pc_write_i16 P h)" "accepts (pc_write_i64 P l)"
  "accepts (pc_write_f64 P d)" "accepts (pc_write_bool P b)" "accepts (pc_write_string P s)" "accepts (pc_write_string16 P s)"
  "accepts (pc_write_strings P ss)" "accepts (pc_write_buffer P bs)" "accepts (pc_write_ashmem P a)"
  "accepts (pc_write_remote P r)" "accepts (pc_write_token P t)"
  using unlimited by (auto simp: parcel_accepts_def)

end

section \<open>Counted sequences\<close>

text \<open>
  The shape of every vector of \<open>parcel_impl.rs\<close>: \<open>len() as i32\<close>, then the elements. A reader that finds a negative
  count reads nothing.
\<close>

definition count_of :: "i32 \<Rightarrow> nat" where
  "count_of c = nat (sint c)"

definition write_vec :: "('a, 'r) parcel_api \<Rightarrow> ('x \<Rightarrow> writer) \<Rightarrow> 'x list \<Rightarrow> writer" where
  "write_vec P w xs = wseq (pc_write_i32 P (of_nat (length xs))) (write_each w xs)"

definition read_vec :: "('a, 'r) parcel_api \<Rightarrow> 'x reader \<Rightarrow> 'x list reader" where
  "read_vec P r = rbind (pc_read_i32 P) (\<lambda>c. read_n (count_of c) r)"

definition vec_ok :: "('x \<Rightarrow> bool) \<Rightarrow> 'x list \<Rightarrow> bool" where
  "vec_ok ok xs \<longleftrightarrow> length xs < 2 ^ 31 \<and> list_all ok xs"

lemma count_of_length [simp]: "n < 2 ^ 31 \<Longrightarrow> count_of (of_nat n) = n"
  by (simp add: count_of_def sint_of_nat32)

lemma accepts_vec [accepts_intros]:
  "(\<And>c. accepts (pc_write_i32 P c)) \<Longrightarrow> (\<And>x. x \<in> set xs \<Longrightarrow> accepts (w x)) \<Longrightarrow> accepts (write_vec P w xs)"
  unfolding write_vec_def by (intro accepts_seq accepts_each)

context parcel
begin

lemma vec [transfers_intros]:
  assumes "vec_ok ok xs" and "\<And>x. ok x \<Longrightarrow> transfers (w x) r (f x)"
  shows "transfers (write_vec P w xs) (read_vec P r) (map f xs)"
  unfolding write_vec_def read_vec_def
proof (rule transfers_seq [OF prims(1)])
  have "length xs < 2 ^ 31" using assms(1) by (simp add: vec_ok_def)
  then have n: "count_of (of_nat (length xs)) = length xs" by simp
  show "transfers (write_each w xs) (read_n (count_of (of_nat (length xs))) r) (map f xs)"
    unfolding n by (rule transfers_each) (use assms in \<open>auto simp: vec_ok_def list_all_iff\<close>)
qed

lemma vec_id: "vec_ok ok xs \<Longrightarrow> (\<And>x. ok x \<Longrightarrow> transfers (w x) r x) \<Longrightarrow> transfers (write_vec P w xs) (read_vec P r) xs"
  using vec [of ok xs w r "\<lambda>x. x"] by simp

end

section \<open>A parcel\<close>

text \<open>
  A concrete parcel, for the examples: words in little-endian order, texts and regions byte by byte, each byte behind a
  mark and the end marked too, so that nothing bounds their length; it never refuses a write.
\<close>

definition word_port :: "'w::len word port" where
  "word_port = \<lparr>pt_write = write_basic, pt_read = read_basic\<rparr>"

definition enc_marked :: "bytes \<Rightarrow> bytes" where
  "enc_marked bs = concat (map (\<lambda>b. [1, b]) bs) @ [0]"

fun read_marked :: "bytes reader" where
  "read_marked (m # b # bs) =
     (if m = 0 then Inr ([], b # bs)
      else case read_marked bs of Inl e \<Rightarrow> Inl e | Inr (x, rest) \<Rightarrow> Inr (b # x, rest))"
| "read_marked [m] = (if m = 0 then Inr ([], []) else Inl ReadNone)"
| "read_marked [] = Inl ReadNone"

definition marked_port :: "bytes port" where
  "marked_port = \<lparr>pt_write = \<lambda>bs. write_all (enc_marked bs), pt_read = read_marked\<rparr>"

definition text_port :: "string port" where
  "text_port = \<lparr>pt_write = \<lambda>s. write_all (enc_marked (as_bytes s)), pt_read = rbind read_marked (\<lambda>bs. rret (of_bytes bs))\<rparr>"

fun enc_texts :: "string list \<Rightarrow> bytes" where
  "enc_texts [] = [0]"
| "enc_texts (s # ss) = 1 # enc_marked (as_bytes s) @ enc_texts ss"

fun read_texts :: "nat \<Rightarrow> string list reader" where
  "read_texts 0 bs = Inl ReadNone"
| "read_texts (Suc n) [] = Inl ReadNone"
| "read_texts (Suc n) (m # bs) =
     (if m = 0 then Inr ([], bs)
      else rbind read_marked (\<lambda>s. rbind (read_texts n) (\<lambda>ss. rret (of_bytes s # ss))) bs)"

definition texts_port :: "string list port" where
  "texts_port = \<lparr>pt_write = \<lambda>ss. write_all (enc_texts ss), pt_read = \<lambda>bs. read_texts (length bs) bs\<rparr>"

definition plain_parcel :: "(bytes, u64) parcel_api" where
  "plain_parcel = \<lparr>pc_i32 = word_port, pc_u32 = word_port, pc_i16 = word_port, pc_i64 = word_port, pc_f64 = word_port,
     pc_bool = \<lparr>pt_write = write_bool, pt_read = read_bool\<rparr>, pc_string = text_port, pc_string16 = text_port,
     pc_strings = texts_port, pc_ashmem = marked_port, pc_remote = word_port, pc_token = text_port,
     pc_write_buffer = write_all, pc_read_buffer = (\<lambda>n. read_exact (unat n)), pc_text = (\<lambda>_. True)\<rparr>"

lemma transfers_write_all: "(\<And>rest. r (bs @ rest) = Inr (y, rest)) \<Longrightarrow> transfers (write_all bs) r y"
  by (auto simp: transfers_def write_all_def)

lemma transfers_word: "8 dvd LENGTH('w::len) \<Longrightarrow> transfers (pt_write word_port (v :: 'w word)) (pt_read word_port) v"
  by (simp add: word_port_def write_basic_def transfers_write_all read_basic_le_bytes)

lemma read_marked_enc [simp]: "read_marked (enc_marked bs @ rest) = Inr (bs, rest)"
proof (induction bs)
  case Nil
  show ?case by (cases rest) (simp_all add: enc_marked_def)
qed (simp add: enc_marked_def)

lemma read_texts_enc: "length ss < n \<Longrightarrow> read_texts n (enc_texts ss @ rest) = Inr (ss, rest)"
proof (induction ss arbitrary: n)
  case Nil
  then show ?case by (cases n) simp_all
next
  case (Cons s ss)
  then show ?case by (cases n) (simp_all add: rbind_def)
qed

lemma length_enc_texts: "length ss < length (enc_texts ss)"
  by (induction ss) simp_all

lemma transfers_bool: "transfers (write_bool b) read_bool b"
  by (simp add: write_bool_def write_basic_def transfers_write_all)

lemma plain_parcel_ok: "parcel_ok plain_parcel"
proof -
  have "read_texts (length (enc_texts ss @ rest)) (enc_texts ss @ rest) = Inr (ss, rest)" for ss rest
    using length_enc_texts [of ss] by (intro read_texts_enc) simp
  then have "transfers (pt_write texts_port ss) (pt_read texts_port) ss" for ss
    by (simp add: texts_port_def transfers_write_all)
  moreover have "transfers (write_all bs) (read_exact (length bs)) bs" for bs
    by (simp add: transfers_write_all)
  ultimately show ?thesis
    unfolding parcel_ok_def carries_def plain_parcel_def parcel_api.simps
    by (auto simp: transfers_word transfers_bool marked_port_def text_port_def transfers_write_all unat_of_nat)
qed

lemma plain_parcel_accepts: "parcel_accepts plain_parcel"
  by (simp add: parcel_accepts_def plain_parcel_def accepts_def word_port_def marked_port_def text_port_def texts_port_def
      write_basic_def write_bool_def write_all_def)

lemma plain_text: "pc_text plain_parcel s"
  by (simp add: plain_parcel_def)

interpretation plain: parcel plain_parcel
  by unfold_locales (rule plain_parcel_ok)

interpretation plain: open_parcel plain_parcel
  by unfold_locales (rule plain_parcel_accepts)

end
