(* ===== verification/Parcel_Values.thy ===== *)
theory Parcel_Values
  imports Parcel Marshalling
begin

text \<open>
  \<open>ipc/parcel_impl.rs\<close>, first half: values, buckets and predicates as \<open>Serialize\<close> and \<open>Deserialize\<close> put them into
  the parcel of the IPC crate. The format differs from the binary buffer of \<open>itypes_utils.rs\<close>: counts and tags have
  32 bits, an unknown operation is refused, and the rule that rebuilds an operation item from its
  parameters is another one. \<open>single_norm\<close> and \<open>multi_norm\<close> are the losses the two formats share.
\<close>

section \<open>Values and buckets\<close>

definition serialize_value :: "('a, 'r) parcel_api \<Rightarrow> data_share_value \<Rightarrow> writer" where
  "serialize_value P v = wseq (pc_write_i32 P (value_type_code (get_type v)))
     (case v of
        VNull \<Rightarrow> wskip
      | VBool b \<Rightarrow> pc_write_bool P b
      | VInt i \<Rightarrow> pc_write_i64 P i
      | VDouble d \<Rightarrow> pc_write_f64 P d
      | VString s \<Rightarrow> pc_write_string P s
      | VBlob b \<Rightarrow> wseq (pc_write_i32 P (of_nat (length b))) (pc_write_buffer P b))"

definition deserialize_value :: "('a, 'r) parcel_api \<Rightarrow> data_share_value reader" where
  "deserialize_value P = rbind (pc_read_i32 P) (\<lambda>type_code.
     case value_type_from_i32 type_code of
       Inl _ \<Rightarrow> rfail ReadNone
     | Inr VtNull \<Rightarrow> rret VNull
     | Inr VtBool \<Rightarrow> rbind (pc_read_bool P) (\<lambda>v. rret (VBool v))
     | Inr VtInt \<Rightarrow> rbind (pc_read_i64 P) (\<lambda>v. rret (VInt v))
     | Inr VtDouble \<Rightarrow> rbind (pc_read_f64 P) (\<lambda>v. rret (VDouble v))
     | Inr VtString \<Rightarrow> rbind (pc_read_string P) (\<lambda>v. rret (VString v))
     | Inr VtBlob \<Rightarrow> rbind (pc_read_i32 P) (\<lambda>len. rbind (pc_read_buffer P (scast len)) (\<lambda>v. rret (VBlob v))))"

definition write_entry :: "('a, 'r) parcel_api \<Rightarrow> string \<times> data_share_value \<Rightarrow> writer" where
  "write_entry P kv = wseq (pc_write_string P (fst kv)) (serialize_value P (snd kv))"

definition read_entry :: "('a, 'r) parcel_api \<Rightarrow> (string \<times> data_share_value) reader" where
  "read_entry P = rbind (pc_read_string P) (\<lambda>key. rbind (deserialize_value P) (\<lambda>value. rret (key, value)))"

definition serialize_bucket :: "('a, 'r) parcel_api \<Rightarrow> data_share_values_bucket \<Rightarrow> writer" where
  "serialize_bucket P b = write_vec P (write_entry P) (get_all b)"

text \<open>The loop puts each entry as it is read; a failed read drops the bucket, so all puts can come last.\<close>

definition deserialize_bucket :: "('a, 'r) parcel_api \<Rightarrow> data_share_values_bucket reader" where
  "deserialize_bucket P = rbind (read_vec P (read_entry P))
     (\<lambda>es. rret (fold (\<lambda>(key, value) bucket. bucket_put key value bucket) es bucket_new))"

section \<open>Single and multi values\<close>

definition write_single_value_variant :: "('a, 'r) parcel_api \<Rightarrow> single_value \<Rightarrow> writer" where
  "write_single_value_variant P v =
     (case v of
        SvNull \<Rightarrow> pc_write_u32 P 0
      | SvInt i \<Rightarrow> wseq (pc_write_u32 P 1) (pc_write_i32 P i)
      | SvDouble d \<Rightarrow> wseq (pc_write_u32 P 2) (pc_write_f64 P d)
      | SvString s \<Rightarrow> wseq (pc_write_u32 P 3) (pc_write_string P s)
      | SvBool b \<Rightarrow> wseq (pc_write_u32 P 4) (pc_write_bool P b)
      | SvLong l \<Rightarrow> wseq (pc_write_u32 P 5) (pc_write_i64 P l)
      | SvBlob _ \<Rightarrow> pc_write_u32 P 0)"

definition read_single_value_variant :: "('a, 'r) parcel_api \<Rightarrow> single_value reader" where
  "read_single_value_variant P = rbind (pc_read_u32 P) (\<lambda>index.
     if index = 0 then rret SvNull
     else if index = 1 then rbind (pc_read_i32 P) (\<lambda>v. rret (SvInt v))
     else if index = 2 then rbind (pc_read_f64 P) (\<lambda>v. rret (SvDouble v))
     else if index = 3 then rbind (pc_read_string P) (\<lambda>v. rret (SvString v))
     else if index = 4 then rbind (pc_read_bool P) (\<lambda>v. rret (SvBool v))
     else if index = 5 then rbind (pc_read_i64 P) (\<lambda>v. rret (SvLong v))
     else rfail ReadNone)"

definition write_multi_value_variant :: "('a, 'r) parcel_api \<Rightarrow> single_value list \<Rightarrow> writer" where
  "write_multi_value_variant P values =
     (case values of
        [] \<Rightarrow> pc_write_u32 P 0
      | v # _ \<Rightarrow>
          (case v of
             SvInt _ \<Rightarrow> wseq (pc_write_u32 P 1) (write_vec P (pc_write_i32 P) (ints_of values))
           | SvLong _ \<Rightarrow> wseq (pc_write_u32 P 2) (write_vec P (pc_write_i64 P) (longs_of values))
           | SvDouble _ \<Rightarrow> wseq (pc_write_u32 P 3) (write_vec P (pc_write_f64 P) (doubles_of values))
           | SvString _ \<Rightarrow> wseq (pc_write_u32 P 4) (write_vec P (pc_write_string P) (strings_of values))
           | _ \<Rightarrow> pc_write_u32 P 0))"

definition read_multi_value_variant :: "('a, 'r) parcel_api \<Rightarrow> single_value list reader" where
  "read_multi_value_variant P = rbind (pc_read_u32 P) (\<lambda>index.
     if index = 0 then rret []
     else if index = 1 then rbind (read_vec P (pc_read_i32 P)) (\<lambda>vs. rret (map SvInt vs))
     else if index = 2 then rbind (read_vec P (pc_read_i64 P)) (\<lambda>vs. rret (map SvLong vs))
     else if index = 3 then rbind (read_vec P (pc_read_f64 P)) (\<lambda>vs. rret (map SvDouble vs))
     else if index = 4 then rbind (read_vec P (pc_read_string P)) (\<lambda>vs. rret (map SvString vs))
     else rfail ReadNone)"

section \<open>Predicates\<close>

definition write_item :: "('a, 'r) parcel_api \<Rightarrow> operation_item \<Rightarrow> writer" where
  "write_item P item =
     wseq (pc_write_i32 P (operation_type_code (oi_operation item)))
       (wseq (write_vec P (write_single_value_variant P) (single_params item))
         (write_vec P (write_multi_value_variant P) (multi_params item)))"

text \<open>Field, value and extras out of the single parameters, and the multi values out of the lists.\<close>

definition fields_of_params :: "operation_type \<Rightarrow> single_value list \<Rightarrow> string \<times> single_value option \<times> single_value list" where
  "fields_of_params operation sps =
     (case sps of
        [] \<Rightarrow> ([], None, [])
      | [param] \<Rightarrow>
          (if operation = OpLimit \<or> operation = OpOffset then ([], Some param, [])
           else (case param of SvString s \<Rightarrow> (s, None, []) | _ \<Rightarrow> ([], Some param, [])))
      | first_val # second # extra \<Rightarrow>
          (case first_val of SvString s \<Rightarrow> (s, Some second, extra) | _ \<Rightarrow> ([], Some first_val, second # extra)))"

definition item_of_parcel :: "operation_type \<Rightarrow> single_value list \<Rightarrow> single_value list list \<Rightarrow> operation_item" where
  "item_of_parcel operation sps mps =
     (let (field, value, extra) = fields_of_params operation sps
      in \<lparr>oi_operation = operation, oi_field = field, oi_value = value,
          oi_multi_values = (case mps of [] \<Rightarrow> None | vals # _ \<Rightarrow> if vals = [] then None else Some vals), oi_extra = extra\<rparr>)"

definition read_item :: "('a, 'r) parcel_api \<Rightarrow> operation_item reader" where
  "read_item P = rbind (pc_read_i32 P) (\<lambda>op.
     case operation_type_from_i32 op of
       None \<Rightarrow> rfail ReadNone
     | Some operation \<Rightarrow>
         rbind (read_vec P (read_single_value_variant P)) (\<lambda>sps.
         rbind (read_vec P (read_multi_value_variant P)) (\<lambda>mps.
         rret (item_of_parcel operation sps mps))))"

definition serialize_predicates :: "('a, 'r) parcel_api \<Rightarrow> data_share_predicates \<Rightarrow> writer" where
  "serialize_predicates P p =
     wseq (write_vec P (write_item P) (pd_operations p))
     (wseq (pc_write_string P (pd_where_clause p))
     (wseq (write_vec P (pc_write_string P) (pd_where_args p))
     (wseq (pc_write_string P (pd_order p))
       (pc_write_i16 P (pd_setting_mode p)))))"

definition deserialize_predicates :: "('a, 'r) parcel_api \<Rightarrow> data_share_predicates reader" where
  "deserialize_predicates P =
     rbind (read_vec P (read_item P)) (\<lambda>operations.
     rbind (pc_read_string P) (\<lambda>where_clause.
     rbind (read_vec P (pc_read_string P)) (\<lambda>where_args.
     rbind (pc_read_string P) (\<lambda>order.
     rbind (pc_read_i16 P) (\<lambda>mode.
     rret ((from_operations operations)
       \<lparr>pd_where_clause := where_clause, pd_where_args := where_args, pd_order := order, pd_setting_mode := mode\<rparr>))))))"

section \<open>What arrives\<close>

fun parcel_value_ok :: "('a, 'r) parcel_api \<Rightarrow> data_share_value \<Rightarrow> bool" where
  "parcel_value_ok P (VString s) \<longleftrightarrow> pc_text P s"
| "parcel_value_ok P (VBlob b) \<longleftrightarrow> b \<noteq> [] \<and> length b < 2 ^ 31"
| "parcel_value_ok P _ \<longleftrightarrow> True"

definition parcel_entry_ok :: "('a, 'r) parcel_api \<Rightarrow> string \<times> data_share_value \<Rightarrow> bool" where
  "parcel_entry_ok P kv \<longleftrightarrow> pc_text P (fst kv) \<and> parcel_value_ok P (snd kv)"

definition parcel_bucket_ok :: "('a, 'r) parcel_api \<Rightarrow> data_share_values_bucket \<Rightarrow> bool" where
  "parcel_bucket_ok P b \<longleftrightarrow> bucket_ok b \<and> vec_ok (parcel_entry_ok P) (bucket_values b)"

fun parcel_single_ok :: "('a, 'r) parcel_api \<Rightarrow> single_value \<Rightarrow> bool" where
  "parcel_single_ok P (SvString s) \<longleftrightarrow> pc_text P s"
| "parcel_single_ok P _ \<longleftrightarrow> True"

definition parcel_item_ok :: "('a, 'r) parcel_api \<Rightarrow> operation_item \<Rightarrow> bool" where
  "parcel_item_ok P item \<longleftrightarrow> vec_ok (parcel_single_ok P) (single_params item)
     \<and> vec_ok (vec_ok (parcel_single_ok P)) (multi_params item)"

definition parcel_predicates_ok :: "('a, 'r) parcel_api \<Rightarrow> data_share_predicates \<Rightarrow> bool" where
  "parcel_predicates_ok P p \<longleftrightarrow> vec_ok (parcel_item_ok P) (pd_operations p) \<and> pc_text P (pd_where_clause p)
     \<and> vec_ok (pc_text P) (pd_where_args p) \<and> pc_text P (pd_order p)"

definition parcel_item_norm :: "operation_item \<Rightarrow> operation_item" where
  "parcel_item_norm item =
     item_of_parcel (oi_operation item) (map single_norm (single_params item)) (map multi_norm (multi_params item))"

definition parcel_predicates_norm :: "data_share_predicates \<Rightarrow> data_share_predicates" where
  "parcel_predicates_norm p = p\<lparr>pd_operations := map parcel_item_norm (pd_operations p)\<rparr>"

declare rret_apply [simp del] value_type_code.simps [simp del]

lemma scast_of_nat: "n < 2 ^ 31 \<Longrightarrow> scast (of_nat n :: i32) = (of_nat n :: usize)"
  by (simp add: scast_eq sint_of_nat32)

lemma value_type_roundtrip [simp]: "value_type_from_i32 (value_type_code t) = Inr t"
  using value_type.of_code_code [of t] by (simp add: ok_option_def split: sum.splits)

context parcel
begin

lemma value_transfers [transfers_intros]:
  assumes "parcel_value_ok P v"
  shows "transfers (serialize_value P v) (deserialize_value P) v"
  unfolding serialize_value_def deserialize_value_def
proof (rule transfers_seq [OF prims(1)], cases v)
  case (VBlob b)
  have "transfers (wseq (pc_write_i32 P (of_nat (length b))) (pc_write_buffer P b))
      (rbind (pc_read_i32 P) (\<lambda>len. rbind (pc_read_buffer P (scast len)) (\<lambda>v. rret (VBlob v)))) (VBlob b)"
    by (rule transfers_seq [OF prims(1) transfers_ret]) (use assms VBlob buffers [of b] in \<open>simp add: scast_of_nat\<close>)
  then show "transfers (case v of VNull \<Rightarrow> wskip | VBool b \<Rightarrow> pc_write_bool P b | VInt i \<Rightarrow> pc_write_i64 P i | VDouble d \<Rightarrow> pc_write_f64 P d
      | VString s \<Rightarrow> pc_write_string P s | VBlob b \<Rightarrow> wseq (pc_write_i32 P (of_nat (length b))) (pc_write_buffer P b))
    (case value_type_from_i32 (value_type_code (get_type v)) of Inl _ \<Rightarrow> rfail ReadNone | Inr VtNull \<Rightarrow> rret VNull
     | Inr VtBool \<Rightarrow> rbind (pc_read_bool P) (\<lambda>v. rret (VBool v)) | Inr VtInt \<Rightarrow> rbind (pc_read_i64 P) (\<lambda>v. rret (VInt v))
     | Inr VtDouble \<Rightarrow> rbind (pc_read_f64 P) (\<lambda>v. rret (VDouble v)) | Inr VtString \<Rightarrow> rbind (pc_read_string P) (\<lambda>v. rret (VString v))
     | Inr VtBlob \<Rightarrow> rbind (pc_read_i32 P) (\<lambda>len. rbind (pc_read_buffer P (scast len)) (\<lambda>v. rret (VBlob v)))) v"
    by (simp add: VBlob)
qed (use assms in \<open>auto intro!: transfers_ret transfers_skip intro: prims texts\<close>)

lemma entry_transfers [transfers_intros]:
  "parcel_entry_ok P kv \<Longrightarrow> transfers (write_entry P kv) (read_entry P) kv"
  unfolding write_entry_def read_entry_def
  by (rule transfers_seq [OF texts(1) transfers_same [OF transfers_ret [OF value_transfers]]]) (simp_all add: parcel_entry_ok_def)

lemma bucket_transfers [transfers_intros]:
  assumes "parcel_bucket_ok P b"
  shows "transfers (serialize_bucket P b) (deserialize_bucket P) b"
proof -
  have "fold (\<lambda>(key, value) bucket. bucket_put key value bucket) (bucket_values b) bucket_new = b"
    using assms by (cases b) (simp add: parcel_bucket_ok_def bucket_ok_def bucket_new_def fold_bucket_put)
  moreover have "transfers (write_vec P (write_entry P) (bucket_values b)) (read_vec P (read_entry P)) (bucket_values b)"
    by (rule vec_id [OF _ entry_transfers]) (use assms in \<open>simp_all add: parcel_bucket_ok_def\<close>)
  ultimately show ?thesis
    unfolding serialize_bucket_def deserialize_bucket_def get_all_def by (metis transfers_ret)
qed

lemma single_transfers [transfers_intros]:
  "parcel_single_ok P v \<Longrightarrow> transfers (write_single_value_variant P v) (read_single_value_variant P) (single_norm v)"
  unfolding write_single_value_variant_def read_single_value_variant_def
  by (cases v) (auto intro!: transfers_seq [OF prims(2)] transfers_last [OF prims(2)] transfers_ret prims texts)

lemma map_filter_ok:
  assumes "vec_ok ok vs" and "\<And>v y. v \<in> set vs \<Longrightarrow> ok v \<Longrightarrow> f v = Some y \<Longrightarrow> ok' y"
  shows "vec_ok ok' (List.map_filter f vs)"
proof -
  have "length (List.map_filter f vs) < 2 ^ 31" using assms(1) length_map_filter [of f vs] by (simp add: vec_ok_def)
  moreover have "list_all ok' (List.map_filter f vs)" using assms(2) assms(1)
    by (induction vs) (auto simp: vec_ok_def List.map_filter_simps split: option.splits)
  ultimately show ?thesis by (simp add: vec_ok_def)
qed

lemma multi_transfers [transfers_intros]:
  assumes "vec_ok (parcel_single_ok P) vs"
  shows "transfers (write_multi_value_variant P vs) (read_multi_value_variant P) (multi_norm vs)"
proof -
  have ok: "vec_ok any (ints_of vs)" "vec_ok any (longs_of vs)" "vec_ok any (doubles_of vs)" "vec_ok (pc_text P) (strings_of vs)"
    unfolding ints_of_def longs_of_def doubles_of_def strings_of_def
    by (rule map_filter_ok [OF assms]; simp add: any_def split: single_value.splits)+
  show ?thesis using ok
    unfolding write_multi_value_variant_def read_multi_value_variant_def multi_norm_def
    by (auto split: list.split single_value.split intro!: transfers_seq [OF prims(2)] transfers_last [OF prims(2)] transfers_ret
        vec_id [OF _ prims(1)] vec_id [OF _ prims(4)] vec_id [OF _ prims(5)] vec_id [OF _ texts(1)])
qed

lemma item_transfers [transfers_intros]:
  assumes "parcel_item_ok P item"
  shows "transfers (write_item P item) (read_item P) (parcel_item_norm item)"
proof -
  have "transfers (write_vec P (write_single_value_variant P) (single_params item)) (read_vec P (read_single_value_variant P))
      (map single_norm (single_params item))"
    by (rule vec [OF _ single_transfers]) (use assms in \<open>simp_all add: parcel_item_ok_def\<close>)
  moreover have "transfers (write_vec P (write_multi_value_variant P) (multi_params item)) (read_vec P (read_multi_value_variant P))
      (map multi_norm (multi_params item))"
    by (rule vec [OF _ multi_transfers]) (use assms in \<open>simp_all add: parcel_item_ok_def\<close>)
  ultimately show ?thesis
    unfolding write_item_def read_item_def parcel_item_norm_def
    by (intro transfers_seq [OF prims(1)]) (simp, rule transfers_seq, assumption, erule transfers_ret)
qed

lemma predicates_transfer [transfers_intros]:
  assumes "parcel_predicates_ok P p"
  shows "transfers (serialize_predicates P p) (deserialize_predicates P) (parcel_predicates_norm p)"
proof -
  have ops: "transfers (write_vec P (write_item P) (pd_operations p)) (read_vec P (read_item P)) (map parcel_item_norm (pd_operations p))"
    by (rule vec [OF _ item_transfers]) (use assms in \<open>simp_all add: parcel_predicates_ok_def\<close>)
  have args: "transfers (write_vec P (pc_write_string P) (pd_where_args p)) (read_vec P (pc_read_string P)) (pd_where_args p)"
    by (rule vec_id [OF _ texts(1)]) (use assms in \<open>simp_all add: parcel_predicates_ok_def\<close>)
  have t: "pc_text P (pd_where_clause p)" "pc_text P (pd_order p)" using assms by (simp_all add: parcel_predicates_ok_def)
  have "transfers (serialize_predicates P p) (deserialize_predicates P)
     ((from_operations (map parcel_item_norm (pd_operations p)))
       \<lparr>pd_where_clause := pd_where_clause p, pd_where_args := pd_where_args p, pd_order := pd_order p, pd_setting_mode := pd_setting_mode p\<rparr>)"
    unfolding serialize_predicates_def deserialize_predicates_def
    by (intro transfers_seq [OF ops] transfers_seq [OF texts(1) [OF t(1)]] transfers_seq [OF args] transfers_seq [OF texts(1) [OF t(2)]])
      (rule transfers_ret [OF prims(3)])
  then show ?thesis by (rule transfers_same) (cases p, simp add: parcel_predicates_norm_def from_operations_def)
qed

end

context open_parcel
begin

lemma values_accept [accepts_intros]:
  "accepts (serialize_value P v)" "accepts (write_entry P kv)" "accepts (serialize_bucket P b)"
  "accepts (write_single_value_variant P sv)" "accepts (write_multi_value_variant P vs)"
  unfolding write_entry_def serialize_bucket_def serialize_value_def write_single_value_variant_def write_multi_value_variant_def
  by (auto intro!: accepts_intros prims_accept split: data_share_value.split single_value.split list.split)

lemma predicates_accept [accepts_intros]: "accepts (write_item P item)" "accepts (serialize_predicates P p)"
  unfolding serialize_predicates_def write_item_def by (intro accepts_intros prims_accept values_accept)+

end

section \<open>Items that arrive unchanged\<close>

definition parcel_plain_item :: "operation_item \<Rightarrow> bool" where
  "parcel_plain_item item \<longleftrightarrow>
     (let lim = oi_operation item \<in> {OpLimit, OpOffset} in
        (oi_value item = None \<longrightarrow> oi_extra item = [] \<and> (lim \<longrightarrow> oi_field item = []))
        \<and> (\<forall>v. oi_value item = Some v \<longrightarrow> plain_single v)
        \<and> (\<forall>s. oi_field item = [] \<and> \<not> (lim \<and> oi_extra item = []) \<longrightarrow> oi_value item \<noteq> Some (SvString s))
        \<and> list_all plain_single (oi_extra item)
        \<and> (\<forall>vs. oi_multi_values item = Some vs \<longrightarrow> vs \<noteq> [] \<and> plain_multi vs))"

lemma parcel_item_norm_plain:
  assumes "parcel_plain_item item"
  shows "parcel_item_norm item = item"
proof -
  have mult: "map multi_norm (multi_params item) = multi_params item"
    using assms by (simp add: multi_params_def parcel_plain_item_def Let_def multi_norm_plain split: option.split)
  have sing: "map single_norm (single_params item) = single_params item"
    using assms by (simp add: single_params_def parcel_plain_item_def Let_def map_single_norm_plain single_norm_plain split: option.split)
  have vals: "(case multi_params item of [] \<Rightarrow> None | vals # _ \<Rightarrow> if vals = [] then None else Some vals) = oi_multi_values item"
    using assms by (auto simp: multi_params_def parcel_plain_item_def Let_def split: option.split)
  obtain op f v m e where item: "item = \<lparr>oi_operation = op, oi_field = f, oi_value = v, oi_multi_values = m, oi_extra = e\<rparr>" by (cases item)
  have one: "w \<noteq> SvString s" if "f = []" "v = Some w" "\<not> ((op = OpLimit \<or> op = OpOffset) \<and> e = [])" for w s
    using assms that by (auto simp: item parcel_plain_item_def Let_def)
  have none: "v = None \<Longrightarrow> e = [] \<and> ((op = OpLimit \<or> op = OpOffset) \<longrightarrow> f = [])"
    using assms by (auto simp: item parcel_plain_item_def Let_def)
  have "fields_of_params op (single_params item) = (f, v, e)"
  proof (cases v)
    case None
    with none show ?thesis by (cases "f = []") (auto simp: item single_params_def fields_of_params_def)
  next
    case (Some w)
    with one show ?thesis by (cases e; cases "f = []"; cases w) (auto simp: item single_params_def fields_of_params_def)
  qed
  then show ?thesis unfolding parcel_item_norm_def mult sing item_of_parcel_def vals by (simp add: item)
qed

lemma parcel_predicates_norm_plain: "list_all parcel_plain_item (pd_operations p) \<Longrightarrow> parcel_predicates_norm p = p"
  by (simp add: parcel_predicates_norm_def list_all_iff map_idI parcel_item_norm_plain)

section \<open>Properties\<close>

lemma sample_predicates_parcel:
  "parcel_predicates_ok plain_parcel sample_predicates" "list_all parcel_plain_item (pd_operations sample_predicates)"
  by (simp_all add: sample_predicates_def parcel_predicates_ok_def parcel_item_ok_def vec_ok_def parcel_plain_item_def plain_parcel_def
      from_operations_def with_value_def operation_item_new_def single_params_def multi_params_def)

lemma sample_bucket_parcel: "parcel_bucket_ok plain_parcel sample_bucket"
  using sample_bucket_wf
  by (simp add: parcel_bucket_ok_def bucket_wf_def sample_bucket_def bucket_defs vec_ok_def parcel_entry_ok_def plain_parcel_def)



text \<open>
  The two formats of predicates disagree. A limit whose first parameter is a text and that has a second one keeps the
  first as its value in the binary buffer, and takes it for the field in the parcel; and an empty list of values is kept by
  the buffer and dropped by the parcel.
\<close>

theorem predicate_formats_disagree:
  "let item = \<lparr>oi_operation = OpLimit, oi_field = [], oi_value = Some (SvString ''10''), oi_multi_values = Some [], oi_extra = [SvInt 5]\<rparr> in
     oi_value (item_norm item) = Some (SvString ''10'') \<and> oi_field (item_norm item) = [] \<and> oi_multi_values (item_norm item) = Some []
     \<and> oi_value (parcel_item_norm item) = Some (SvInt 5) \<and> oi_field (parcel_item_norm item) = ''10'' \<and> oi_multi_values (parcel_item_norm item) = None"
  by (simp add: item_norm_def parcel_item_norm_def item_of_params_def item_of_parcel_def fields_of_params_def single_params_def multi_params_def multi_norm_def)

end
