(* ===== verification/Parcel_Types.thy ===== *)
theory Parcel_Types
  imports Parcel_Values Data_Types
begin

text \<open>
  \<open>ipc/parcel_impl.rs\<close>, second half: batch updates and their results, change notifications, published items,
  statements, proxy data, templates and change nodes in the parcel. For each type there are its \<open>serialize\<close> and
  \<open>deserialize\<close>, what may be written (\<open>_carried\<close>), and that it arrives; \<open>_seen\<close> is what arrives where that is not what was sent.
\<close>

section \<open>Batch updates\<close>

definition serialize_update_operation :: "('a, 'r) parcel_api \<Rightarrow> update_operation \<Rightarrow> writer" where
  "serialize_update_operation P u = wseq (serialize_bucket P (uo_values_bucket u)) (serialize_predicates P (uo_predicates u))"

definition deserialize_update_operation :: "('a, 'r) parcel_api \<Rightarrow> update_operation reader" where
  "deserialize_update_operation P = rbind (deserialize_bucket P) (\<lambda>values_bucket. rbind (deserialize_predicates P) (\<lambda>predicates.
     rret \<lparr>uo_values_bucket = values_bucket, uo_predicates = predicates\<rparr>))"

definition serialize_update_operations :: "('a, 'r) parcel_api \<Rightarrow> update_operations \<Rightarrow> writer" where
  "serialize_update_operations P = write_vec P (\<lambda>(uri, ops). wseq (pc_write_string P uri) (write_vec P (serialize_update_operation P) ops))"

definition deserialize_update_operations :: "('a, 'r) parcel_api \<Rightarrow> update_operations reader" where
  "deserialize_update_operations P =
     rbind (read_vec P (rbind (pc_read_string P) (\<lambda>uri. rbind (read_vec P (deserialize_update_operation P)) (\<lambda>ops. rret (uri, ops)))))
       (\<lambda>es. rret (fold (\<lambda>(uri, ops). bt_insert uri ops) es []))"

definition serialize_batch_update_result :: "('a, 'r) parcel_api \<Rightarrow> batch_update_result \<Rightarrow> writer" where
  "serialize_batch_update_result P r = wseq (pc_write_string P (bu_uri r)) (write_vec P (pc_write_i32 P) (bu_codes r))"

definition deserialize_batch_update_result :: "('a, 'r) parcel_api \<Rightarrow> batch_update_result reader" where
  "deserialize_batch_update_result P = rbind (pc_read_string P) (\<lambda>uri. rbind (read_vec P (pc_read_i32 P)) (\<lambda>codes.
     rret \<lparr>bu_uri = uri, bu_codes = codes\<rparr>))"

definition serialize_exec_result :: "('a, 'r) parcel_api \<Rightarrow> exec_result \<Rightarrow> writer" where
  "serialize_exec_result P r = wseq (pc_write_i32 P (operation_code (er_operation_type r)))
     (wseq (pc_write_i32 P (er_code r)) (pc_write_string P (er_message r)))"

definition deserialize_exec_result :: "('a, 'r) parcel_api \<Rightarrow> exec_result reader" where
  "deserialize_exec_result P = rbind (pc_read_i32 P) (\<lambda>op_type. rbind (pc_read_i32 P) (\<lambda>code. rbind (pc_read_string P) (\<lambda>message.
     case operation_from_i32 op_type of
       None \<Rightarrow> rfail ReadNone
     | Some t \<Rightarrow> rret \<lparr>er_operation_type = t, er_code = code, er_message = message\<rparr>)))"

definition serialize_exec_result_set :: "('a, 'r) parcel_api \<Rightarrow> exec_result_set \<Rightarrow> writer" where
  "serialize_exec_result_set P r = wseq (pc_write_i32 P (exec_error_code_code (ers_error_code r)))
     (write_vec P (serialize_exec_result P) (ers_results r))"

definition deserialize_exec_result_set :: "('a, 'r) parcel_api \<Rightarrow> exec_result_set reader" where
  "deserialize_exec_result_set P = rbind (pc_read_i32 P) (\<lambda>error_code. rbind (read_vec P (deserialize_exec_result P)) (\<lambda>results.
     rret \<lparr>ers_error_code = exec_error_code_from_i32 error_code, ers_results = results\<rparr>))"

definition serialize_operation_result :: "('a, 'r) parcel_api \<Rightarrow> operation_result \<Rightarrow> writer" where
  "serialize_operation_result P r = wseq (pc_write_string P (or_key r)) (pc_write_i32 P (or_err_code r))"

definition deserialize_operation_result :: "('a, 'r) parcel_api \<Rightarrow> operation_result reader" where
  "deserialize_operation_result P = rbind (pc_read_string P) (\<lambda>key. rbind (pc_read_i32 P) (\<lambda>err_code.
     rret \<lparr>or_key = key, or_err_code = err_code\<rparr>))"

text \<open>The back reference of a statement is not written.\<close>

definition serialize_statement :: "('a, 'r) parcel_api \<Rightarrow> operation_statement \<Rightarrow> writer" where
  "serialize_statement P s = wseq (pc_write_i32 P (operation_code (os_operation_type s))) (wseq (pc_write_string P (os_uri s))
     (wseq (serialize_bucket P (os_values_bucket s)) (serialize_predicates P (os_predicates s))))"

definition deserialize_statement :: "('a, 'r) parcel_api \<Rightarrow> operation_statement reader" where
  "deserialize_statement P = rbind (pc_read_i32 P) (\<lambda>op_type. rbind (pc_read_string P) (\<lambda>uri.
     rbind (deserialize_bucket P) (\<lambda>values_bucket. rbind (deserialize_predicates P) (\<lambda>predicates.
       rret \<lparr>os_operation_type = (case operation_from_i32 op_type of Some t \<Rightarrow> t | None \<Rightarrow> Insert), os_uri = uri,
         os_predicates = predicates, os_values_bucket = values_bucket, os_back_reference = back_reference_default\<rparr>))))"

section \<open>Change notifications and published data\<close>

definition serialize_vbucket :: "('a, 'r) parcel_api \<Rightarrow> vbucket \<Rightarrow> writer" where
  "serialize_vbucket P b = write_vec P (write_entry P) b"

definition deserialize_vbucket :: "('a, 'r) parcel_api \<Rightarrow> vbucket reader" where
  "deserialize_vbucket P = rbind (read_vec P (read_entry P)) (\<lambda>es. rret (fold (\<lambda>(k, v). bt_insert k v) es []))"

definition serialize_change_info :: "('a, 'r) parcel_api \<Rightarrow> change_info \<Rightarrow> writer" where
  "serialize_change_info P c =
     wseq (pc_write_u32 P (change_type_code (ci_change_type c)))
     (wseq (write_vec P (pc_write_string P) (ci_uris c))
     (wseq (wseq (pc_write_i32 P (of_nat (length (ci_data c)))) (if ci_data c \<noteq> [] then pc_write_buffer P (ci_data c) else wskip))
       (write_vec P (serialize_vbucket P) (ci_value_buckets c))))"

definition deserialize_change_info :: "('a, 'r) parcel_api \<Rightarrow> change_info reader" where
  "deserialize_change_info P =
     rbind (pc_read_u32 P) (\<lambda>change_type_val.
     rbind (read_vec P (pc_read_string P)) (\<lambda>uris.
     rbind (rbind (pc_read_i32 P) (\<lambda>data_len. if 0 <s data_len then pc_read_buffer P (scast data_len) else rret [])) (\<lambda>data.
     rbind (read_vec P (deserialize_vbucket P)) (\<lambda>value_buckets.
     rret \<lparr>ci_change_type = change_type_from_u32 change_type_val, ci_uris = uris, ci_data = data, ci_value_buckets = value_buckets\<rparr>))))"

definition serialize_published_value :: "('a, 'r) parcel_api \<Rightarrow> 'a published_data_value \<Rightarrow> writer" where
  "serialize_published_value P v =
     (case v of
        PublishedAshmem node \<Rightarrow> wseq (pc_write_u32 P 0)
          (case an_ashmem node of Some a \<Rightarrow> pc_write_ashmem P a | None \<Rightarrow> (\<lambda>buf. None))
      | PublishedString s \<Rightarrow> wseq (pc_write_u32 P 1) (pc_write_string P s))"

definition deserialize_published_value :: "('a, 'r) parcel_api \<Rightarrow> 'a published_data_value reader" where
  "deserialize_published_value P = rbind (pc_read_u32 P) (\<lambda>variant.
     if variant = 0 then rbind (pc_read_ashmem P) (\<lambda>a. rret (PublishedAshmem \<lparr>an_ashmem = Some a, an_is_managed = True\<rparr>))
     else rbind (pc_read_string P) (\<lambda>s. rret (PublishedString s)))"

definition serialize_published_item :: "('a, 'r) parcel_api \<Rightarrow> 'a published_data_item \<Rightarrow> writer" where
  "serialize_published_item P it = wseq (pc_write_string P (it_key it)) (wseq (pc_write_i64 P (it_subscriber_id it))
     (serialize_published_value P (it_value it)))"

definition deserialize_published_item :: "('a, 'r) parcel_api \<Rightarrow> 'a published_data_item reader" where
  "deserialize_published_item P = rbind (pc_read_string P) (\<lambda>key. rbind (pc_read_i64 P) (\<lambda>subscriber_id.
     rbind (deserialize_published_value P) (\<lambda>v. rret \<lparr>it_key = key, it_subscriber_id = subscriber_id, it_value = v\<rparr>)))"

text \<open>\<open>Data\<close> of \<open>types.rs\<close>.\<close>

record 'a published_data =
  da_datas :: "'a published_data_item list"
  da_version :: i32

definition serialize_data :: "('a, 'r) parcel_api \<Rightarrow> 'a published_data \<Rightarrow> writer" where
  "serialize_data P d = wseq (write_vec P (serialize_published_item P) (da_datas d)) (pc_write_i32 P (da_version d))"

definition deserialize_data :: "('a, 'r) parcel_api \<Rightarrow> 'a published_data reader" where
  "deserialize_data P = rbind (read_vec P (deserialize_published_item P)) (\<lambda>datas. rbind (pc_read_i32 P) (\<lambda>version.
     rret \<lparr>da_datas = datas, da_version = version\<rparr>))"

section \<open>Proxy data\<close>

definition serialize_proxy_value :: "('a, 'r) parcel_api \<Rightarrow> data_proxy_value \<Rightarrow> writer" where
  "serialize_proxy_value P v = wseq (pc_write_i32 P (proxy_type_index v))
     (case v of ProxyInt i \<Rightarrow> pc_write_i64 P i | ProxyDouble d \<Rightarrow> pc_write_f64 P d
      | ProxyString s \<Rightarrow> pc_write_string P s | ProxyBool b \<Rightarrow> pc_write_bool P b)"

definition deserialize_proxy_value :: "('a, 'r) parcel_api \<Rightarrow> data_proxy_value reader" where
  "deserialize_proxy_value P = rbind (pc_read_i32 P) (\<lambda>type_index.
     if type_index = 0 then rbind (pc_read_i64 P) (\<lambda>v. rret (ProxyInt v))
     else if type_index = 1 then rbind (pc_read_f64 P) (\<lambda>v. rret (ProxyDouble v))
     else if type_index = 2 then rbind (pc_read_string P) (\<lambda>v. rret (ProxyString v))
     else if type_index = 3 then rbind (pc_read_bool P) (\<lambda>v. rret (ProxyBool v))
     else rfail ReadNone)"

definition serialize_proxy_config :: "('a, 'r) parcel_api \<Rightarrow> data_proxy_config \<Rightarrow> writer" where
  "serialize_proxy_config P c = wseq (pc_write_i32 P (case pc_proxy_type c of SharedConfig \<Rightarrow> 0))
     (pc_write_i32 P (max_value_length_code (pc_max_value_length c)))"

definition deserialize_proxy_config :: "('a, 'r) parcel_api \<Rightarrow> data_proxy_config reader" where
  "deserialize_proxy_config P = rbind (pc_read_i32 P) (\<lambda>_. rbind (pc_read_i32 P) (\<lambda>max_value_length.
     rret \<lparr>pc_proxy_type = SharedConfig, pc_max_value_length =
       (case max_value_length_from_i32 max_value_length of Some m \<Rightarrow> m | None \<Rightarrow> MaxLength4K)\<rparr>))"

definition serialize_proxy_data :: "('a, 'r) parcel_api \<Rightarrow> data_share_proxy_data \<Rightarrow> writer" where
  "serialize_proxy_data P d = wseq (pc_write_string P (pd_uri d)) (wseq (serialize_proxy_value P (pd_value d))
     (wseq (pc_write_bool P (pd_is_value_undefined d)) (wseq (write_vec P (pc_write_string P) (pd_allow_list d))
       (pc_write_bool P (pd_is_allow_list_undefined d)))))"

definition deserialize_proxy_data :: "('a, 'r) parcel_api \<Rightarrow> data_share_proxy_data reader" where
  "deserialize_proxy_data P = rbind (pc_read_string P) (\<lambda>uri. rbind (deserialize_proxy_value P) (\<lambda>v.
     rbind (pc_read_bool P) (\<lambda>vu. rbind (read_vec P (pc_read_string P)) (\<lambda>al. rbind (pc_read_bool P) (\<lambda>au.
       rret \<lparr>pd_uri = uri, pd_value = v, pd_allow_list = al, pd_is_value_undefined = vu, pd_is_allow_list_undefined = au\<rparr>)))))"

definition serialize_proxy_result :: "('a, 'r) parcel_api \<Rightarrow> data_proxy_result \<Rightarrow> writer" where
  "serialize_proxy_result P r = wseq (pc_write_i32 P (data_proxy_error_code_code (pr_result r))) (pc_write_string P (pr_uri r))"

definition deserialize_proxy_result :: "('a, 'r) parcel_api \<Rightarrow> data_proxy_result reader" where
  "deserialize_proxy_result P = rbind (pc_read_i32 P) (\<lambda>code. rbind (pc_read_string P) (\<lambda>uri.
     rret \<lparr>pr_uri = uri, pr_result = data_proxy_error_code_from_i32 code\<rparr>))"

definition serialize_get_result :: "('a, 'r) parcel_api \<Rightarrow> data_proxy_get_result \<Rightarrow> writer" where
  "serialize_get_result P r = wseq (pc_write_i32 P (data_proxy_error_code_code (pg_result r))) (wseq (pc_write_string P (pg_uri r))
     (wseq (serialize_proxy_value P (pg_value r)) (write_vec P (pc_write_string P) (pg_allow_list r))))"

definition deserialize_get_result :: "('a, 'r) parcel_api \<Rightarrow> data_proxy_get_result reader" where
  "deserialize_get_result P = rbind (pc_read_i32 P) (\<lambda>code. rbind (pc_read_string P) (\<lambda>uri.
     rbind (deserialize_proxy_value P) (\<lambda>v. rbind (read_vec P (pc_read_string P)) (\<lambda>al.
       rret \<lparr>pg_uri = uri, pg_result = data_proxy_error_code_from_i32 code, pg_value = v, pg_allow_list = al\<rparr>))))"

definition serialize_proxy_change :: "('a, 'r) parcel_api \<Rightarrow> data_proxy_change_info \<Rightarrow> writer" where
  "serialize_proxy_change P c = wseq (pc_write_i32 P (change_type_code (pi_change_type c)))
     (wseq (pc_write_string P (pi_uri c)) (serialize_proxy_value P (pi_value c)))"

definition deserialize_proxy_change :: "('a, 'r) parcel_api \<Rightarrow> data_proxy_change_info reader" where
  "deserialize_proxy_change P = rbind (pc_read_i32 P) (\<lambda>code. rbind (pc_read_string P) (\<lambda>uri.
     rbind (deserialize_proxy_value P) (\<lambda>v. rret \<lparr>pi_change_type = change_type_from_u32 code, pi_uri = uri, pi_value = v\<rparr>)))"

section \<open>Templates and change nodes\<close>

definition serialize_template_id :: "('a, 'r) parcel_api \<Rightarrow> template_id \<Rightarrow> writer" where
  "serialize_template_id P t = wseq (pc_write_i64 P (ti_subscriber_id t)) (pc_write_string P (ti_bundle_name t))"

definition deserialize_template_id :: "('a, 'r) parcel_api \<Rightarrow> template_id reader" where
  "deserialize_template_id P = rbind (pc_read_i64 P) (\<lambda>subscriber_id. rbind (pc_read_string P) (\<lambda>bundle_name.
     rret (template_id_new subscriber_id bundle_name)))"

definition serialize_change_node :: "('a, 'r) parcel_api \<Rightarrow> 'a rdb_change_node \<Rightarrow> writer" where
  "serialize_change_node P n = wseq (pc_write_string P (rn_uri n)) (wseq (serialize_template_id P (rn_template_id n))
     (wseq (write_vec P (pc_write_string P) (rn_data n)) (wseq (pc_write_bool P (rn_is_shared_memory n))
       (wseq (if rn_is_shared_memory n then (case rn_memory n of Some a \<Rightarrow> pc_write_ashmem P a | None \<Rightarrow> (\<lambda>buf. None)) else wskip)
         (pc_write_i32 P (rn_size n))))))"

definition deserialize_change_node :: "('a, 'r) parcel_api \<Rightarrow> 'a rdb_change_node reader" where
  "deserialize_change_node P = rbind (pc_read_string P) (\<lambda>uri. rbind (deserialize_template_id P) (\<lambda>template_id.
     rbind (read_vec P (pc_read_string P)) (\<lambda>data. rbind (pc_read_bool P) (\<lambda>is_shared_memory.
       rbind (if is_shared_memory then rbind (pc_read_ashmem P) (\<lambda>a. rret (Some a)) else rret None) (\<lambda>memory.
         rbind (pc_read_i32 P) (\<lambda>sz.
           rret \<lparr>rn_uri = uri, rn_template_id = template_id, rn_data = data, rn_is_shared_memory = is_shared_memory,
             rn_memory = memory, rn_size = sz\<rparr>))))))"

definition write_template_node :: "('a, 'r) parcel_api \<Rightarrow> predicate_template_node \<Rightarrow> writer" where
  "write_template_node P n = wseq (pc_write_string P (tn_key n)) (pc_write_string P (tn_select_sql n))"

definition read_template_node :: "('a, 'r) parcel_api \<Rightarrow> predicate_template_node reader" where
  "read_template_node P = rbind (pc_read_string P) (\<lambda>key. rbind (pc_read_string P) (\<lambda>select_sql.
     rret (predicate_template_node_new key select_sql)))"

definition serialize_template :: "('a, 'r) parcel_api \<Rightarrow> template \<Rightarrow> writer" where
  "serialize_template P t = wseq (pc_write_string P (tpl_update t)) (wseq (write_vec P (write_template_node P) (tpl_predicates t))
     (pc_write_string P (tpl_scheduler t)))"

definition deserialize_template :: "('a, 'r) parcel_api \<Rightarrow> template reader" where
  "deserialize_template P = rbind (pc_read_string P) (\<lambda>update. rbind (read_vec P (read_template_node P)) (\<lambda>predicates.
     rbind (pc_read_string P) (\<lambda>scheduler. rret \<lparr>tpl_update = update, tpl_predicates = predicates, tpl_scheduler = scheduler\<rparr>)))"

section \<open>What arrives\<close>

definition update_carried :: "('a, 'r) parcel_api \<Rightarrow> update_operation \<Rightarrow> bool" where
  "update_carried P u \<longleftrightarrow> parcel_bucket_ok P (uo_values_bucket u) \<and> parcel_predicates_ok P (uo_predicates u)"

definition update_seen :: "update_operation \<Rightarrow> update_operation" where
  "update_seen u = u\<lparr>uo_predicates := parcel_predicates_norm (uo_predicates u)\<rparr>"

definition updates_carried :: "('a, 'r) parcel_api \<Rightarrow> update_operations \<Rightarrow> bool" where
  "updates_carried P m \<longleftrightarrow> bt_ok m \<and> vec_ok (\<lambda>(uri, ops). pc_text P uri \<and> vec_ok (update_carried P) ops) m"

definition updates_seen :: "update_operations \<Rightarrow> update_operations" where
  "updates_seen m = map (\<lambda>(uri, ops). (uri, map update_seen ops)) m"

definition statement_carried :: "('a, 'r) parcel_api \<Rightarrow> operation_statement \<Rightarrow> bool" where
  "statement_carried P s \<longleftrightarrow> pc_text P (os_uri s) \<and> parcel_bucket_ok P (os_values_bucket s) \<and> parcel_predicates_ok P (os_predicates s)"

definition statement_seen :: "operation_statement \<Rightarrow> operation_statement" where
  "statement_seen s = s\<lparr>os_predicates := parcel_predicates_norm (os_predicates s), os_back_reference := back_reference_default\<rparr>"

definition exec_result_carried :: "('a, 'r) parcel_api \<Rightarrow> exec_result \<Rightarrow> bool" where
  "exec_result_carried P r \<longleftrightarrow> pc_text P (er_message r)"

definition change_carried :: "('a, 'r) parcel_api \<Rightarrow> change_info \<Rightarrow> bool" where
  "change_carried P c \<longleftrightarrow> vec_ok (pc_text P) (ci_uris c) \<and> length (ci_data c) < 2 ^ 31
     \<and> vec_ok (\<lambda>b. bt_ok b \<and> vec_ok (parcel_entry_ok P) b) (ci_value_buckets c)"

text \<open>An item whose region was moved out cannot be written at all.\<close>

definition item_carried :: "('a, 'r) parcel_api \<Rightarrow> 'a published_data_item \<Rightarrow> bool" where
  "item_carried P it \<longleftrightarrow> pc_text P (it_key it) \<and> (case it_value it of PublishedString s \<Rightarrow> pc_text P s | PublishedAshmem n \<Rightarrow> True)"

fun value_seen :: "'a published_data_value \<Rightarrow> 'a published_data_value" where
  "value_seen (PublishedAshmem n) = PublishedAshmem (n\<lparr>an_is_managed := True\<rparr>)"
| "value_seen (PublishedString s) = PublishedString s"

definition item_seen :: "'a published_data_item \<Rightarrow> 'a published_data_item" where
  "item_seen it = it\<lparr>it_value := value_seen (it_value it)\<rparr>"

fun proxy_value_carried :: "('a, 'r) parcel_api \<Rightarrow> data_proxy_value \<Rightarrow> bool" where
  "proxy_value_carried P (ProxyString s) \<longleftrightarrow> pc_text P s"
| "proxy_value_carried P _ \<longleftrightarrow> True"

definition node_carried :: "('a, 'r) parcel_api \<Rightarrow> 'a rdb_change_node \<Rightarrow> bool" where
  "node_carried P n \<longleftrightarrow> pc_text P (rn_uri n) \<and> pc_text P (ti_bundle_name (rn_template_id n)) \<and> vec_ok (pc_text P) (rn_data n)"

definition template_carried :: "('a, 'r) parcel_api \<Rightarrow> template \<Rightarrow> bool" where
  "template_carried P t \<longleftrightarrow> pc_text P (tpl_update t) \<and> pc_text P (tpl_scheduler t)
     \<and> vec_ok (\<lambda>n. pc_text P (tn_key n) \<and> pc_text P (tn_select_sql n)) (tpl_predicates t)"

definition node_seen :: "'a rdb_change_node \<Rightarrow> 'a rdb_change_node" where
  "node_seen n = n\<lparr>rn_memory := if rn_is_shared_memory n then rn_memory n else None\<rparr>"

lemma fold_bt_insert: "bt_ok m \<Longrightarrow> fold (\<lambda>(k, v). bt_insert k v) m [] = m"
  using bt_insert_all_rebuild [of m] by (simp add: bt_insert_all_def)

lemma bt_ok_map_snd: "bt_ok m \<Longrightarrow> bt_ok (map (\<lambda>(k, v). (k, f v)) m)"
  by (induction m) (fastforce simp: bt_ok_Cons)+

lemma refused_transfers: "transfers (\<lambda>buf. None) r y"
  by (simp add: transfers_def)

context parcel
begin

lemmas steps = transfers_seq transfers_ret prims texts value_transfers bucket_transfers predicates_transfer

lemma strings_transfer: "vec_ok (pc_text P) ss \<Longrightarrow> transfers (write_vec P (pc_write_string P) ss) (read_vec P (pc_read_string P)) ss"
  by (rule vec_id [OF _ texts(1)])

lemma update_transfers:
  "update_carried P u \<Longrightarrow> transfers (serialize_update_operation P u) (deserialize_update_operation P) (update_seen u)"
  unfolding serialize_update_operation_def deserialize_update_operation_def
  by (rule transfers_same, (rule steps | simp add: update_carried_def update_seen_def; fail)+)

lemma updates_transfer:
  assumes "updates_carried P m"
  shows "transfers (serialize_update_operations P m) (deserialize_update_operations P) (updates_seen m)"
proof -
  have one: "transfers (case e of (uri, ops) \<Rightarrow> wseq (pc_write_string P uri) (write_vec P (serialize_update_operation P) ops))
      (rbind (pc_read_string P) (\<lambda>uri. rbind (read_vec P (deserialize_update_operation P)) (\<lambda>ops. rret (uri, ops))))
      ((\<lambda>(uri, ops). (uri, map update_seen ops)) e)"
    if "(\<lambda>(uri, ops). pc_text P uri \<and> vec_ok (update_carried P) ops) e" for e
    using that by (cases e) (auto intro!: transfers_seq [OF texts(1)] transfers_ret vec [OF _ update_transfers])
  have "bt_ok (updates_seen m)" using assms by (simp add: updates_carried_def updates_seen_def bt_ok_map_snd)
  then have rebuild: "fold (\<lambda>(uri, ops). bt_insert uri ops) (updates_seen m) [] = updates_seen m" by (rule fold_bt_insert)
  show ?thesis
    unfolding serialize_update_operations_def deserialize_update_operations_def
    by (rule transfers_same [OF transfers_ret [OF vec [OF _ one]]])
      (use assms rebuild in \<open>auto simp: updates_carried_def updates_seen_def\<close>)
qed

lemma batch_result_transfers:
  "pc_text P (bu_uri r) \<Longrightarrow> length (bu_codes r) < 2 ^ 31 \<Longrightarrow>
     transfers (serialize_batch_update_result P r) (deserialize_batch_update_result P) r"
  unfolding serialize_batch_update_result_def deserialize_batch_update_result_def
  by (rule transfers_same, rule transfers_seq [OF texts(1)], assumption, rule transfers_ret [OF vec_id [where ok = any, OF _ prims(1)]])
    (simp_all add: vec_ok_def any_def list_all_iff)

lemma exec_result_transfers: "exec_result_carried P r \<Longrightarrow> transfers (serialize_exec_result P r) (deserialize_exec_result P) r"
  unfolding serialize_exec_result_def deserialize_exec_result_def exec_result_carried_def
  by (rule transfers_seq [OF prims(1)], rule transfers_seq [OF prims(1)], rule transfers_last [OF texts(1)], assumption)
    (cases r, simp add: stmt_op.of_code_code)

lemma exec_results_transfer:
  "vec_ok (exec_result_carried P) (ers_results r) \<Longrightarrow> transfers (serialize_exec_result_set P r) (deserialize_exec_result_set P) r"
  unfolding serialize_exec_result_set_def deserialize_exec_result_set_def
  by (rule transfers_same, rule transfers_seq [OF prims(1)], rule transfers_ret [OF vec_id [OF _ exec_result_transfers]])
    (simp_all add: exec_code.of_code_total)

lemma operation_result_transfers: "pc_text P (or_key r) \<Longrightarrow> transfers (serialize_operation_result P r) (deserialize_operation_result P) r"
  unfolding serialize_operation_result_def deserialize_operation_result_def
  by (rule transfers_same, (rule steps | simp; fail)+)

lemma statement_transfers: "statement_carried P s \<Longrightarrow> transfers (serialize_statement P s) (deserialize_statement P) (statement_seen s)"
  unfolding serialize_statement_def deserialize_statement_def
  by (rule transfers_same, (rule steps | simp add: statement_carried_def statement_seen_def stmt_op.of_code_code; fail)+)

end

context parcel
begin

lemma vbucket_transfers:
  assumes "bt_ok b" "vec_ok (parcel_entry_ok P) b"
  shows "transfers (serialize_vbucket P b) (deserialize_vbucket P) b"
  unfolding serialize_vbucket_def deserialize_vbucket_def
  by (rule transfers_same [OF transfers_ret [OF vec_id [OF assms(2) entry_transfers]]]) (simp_all add: fold_bt_insert assms(1))

lemma data_transfers:
  assumes "length d < 2 ^ 31"
  shows "transfers (wseq (pc_write_i32 P (of_nat (length d))) (if d \<noteq> [] then pc_write_buffer P d else wskip))
    (rbind (pc_read_i32 P) (\<lambda>data_len. if 0 <s data_len then pc_read_buffer P (scast data_len) else rret [])) d"
proof (rule transfers_seq [OF prims(1)])
  have "sint (of_nat (length d) :: i32) = int (length d)" by (rule sint_of_nat32 [OF assms])
  then have "0 <s (of_nat (length d) :: i32) \<longleftrightarrow> d \<noteq> []" by (simp add: word_sless_alt)
  then show "transfers (if d \<noteq> [] then pc_write_buffer P d else wskip)
      (if 0 <s (of_nat (length d) :: i32) then pc_read_buffer P (scast (of_nat (length d) :: i32)) else rret []) d"
    using assms buffers [of d] by (auto simp: scast_of_nat transfers_skip)
qed

lemma change_info_transfers:
  assumes "change_carried P c"
  shows "transfers (serialize_change_info P c) (deserialize_change_info P) c"
proof -
  have buckets: "transfers (write_vec P (serialize_vbucket P) (ci_value_buckets c)) (read_vec P (deserialize_vbucket P)) (ci_value_buckets c)"
    using assms by (intro vec_id [where ok = "\<lambda>b. bt_ok b \<and> vec_ok (parcel_entry_ok P) b"]) (auto simp: change_carried_def intro: vbucket_transfers)
  have d: "length (ci_data c) < 2 ^ 31" and u: "vec_ok (pc_text P) (ci_uris c)" using assms by (simp_all add: change_carried_def)
  show ?thesis
    unfolding serialize_change_info_def deserialize_change_info_def
    by (rule transfers_same, rule transfers_seq [OF prims(2)], rule transfers_seq [OF strings_transfer [OF u]],
        rule transfers_seq [OF data_transfers [OF d]], rule transfers_ret [OF buckets]) (simp add: change_kind.of_code_total)
qed

lemma published_value_transfers:
  assumes "\<And>s. v = PublishedString s \<Longrightarrow> pc_text P s"
  shows "transfers (serialize_published_value P v) (deserialize_published_value P) (value_seen v)"
proof (cases v)
  case (PublishedAshmem n)
  show ?thesis
  proof (cases "an_ashmem n")
    case None
    then show ?thesis by (simp add: PublishedAshmem serialize_published_value_def transfers_def wseq_def split: option.splits)
  next
    case (Some a)
    then have seen: "value_seen v = PublishedAshmem \<lparr>an_ashmem = Some a, an_is_managed = True\<rparr>" by (cases n) (simp add: PublishedAshmem)
    show ?thesis unfolding serialize_published_value_def deserialize_published_value_def seen
      by (auto simp: PublishedAshmem Some intro!: transfers_seq [OF prims(2)] transfers_ret [OF prims(7)])
  qed
next
  case (PublishedString s)
  then show ?thesis using assms unfolding serialize_published_value_def deserialize_published_value_def
    by (auto intro!: transfers_seq [OF prims(2)] transfers_ret [OF texts(1)])
qed

lemma published_item_transfers: "item_carried P it \<Longrightarrow> transfers (serialize_published_item P it) (deserialize_published_item P) (item_seen it)"
  unfolding serialize_published_item_def deserialize_published_item_def
  by (rule transfers_same, (rule steps published_value_transfers | simp add: item_carried_def item_seen_def; fail)+)

lemma published_data_transfers:
  "vec_ok (item_carried P) (da_datas d) \<Longrightarrow>
     transfers (serialize_data P d) (deserialize_data P) (d\<lparr>da_datas := map item_seen (da_datas d)\<rparr>)"
  unfolding serialize_data_def deserialize_data_def
  by (rule transfers_same, rule transfers_seq, rule vec [OF _ published_item_transfers], assumption, assumption, rule transfers_ret [OF prims(1)]) simp

lemma proxy_value_transfers: "proxy_value_carried P v \<Longrightarrow> transfers (serialize_proxy_value P v) (deserialize_proxy_value P) v"
  unfolding serialize_proxy_value_def deserialize_proxy_value_def
  by (cases v) (auto intro!: transfers_seq [OF prims(1)] transfers_ret prims texts)

lemma proxy_config_transfers: "transfers (serialize_proxy_config P c) (deserialize_proxy_config P) c"
  unfolding serialize_proxy_config_def deserialize_proxy_config_def
  by (rule transfers_same, (rule steps | (cases c; cases "pc_proxy_type c"; simp add: max_length.of_code_code; fail))+)

lemma proxy_data_transfers:
  "pc_text P (pd_uri d) \<Longrightarrow> proxy_value_carried P (pd_value d) \<Longrightarrow> vec_ok (pc_text P) (pd_allow_list d) \<Longrightarrow>
     transfers (serialize_proxy_data P d) (deserialize_proxy_data P) d"
  unfolding serialize_proxy_data_def deserialize_proxy_data_def
  by (rule transfers_same, (rule steps proxy_value_transfers strings_transfer | simp; fail)+)

lemma proxy_result_transfers: "pc_text P (pr_uri r) \<Longrightarrow> transfers (serialize_proxy_result P r) (deserialize_proxy_result P) r"
  unfolding serialize_proxy_result_def deserialize_proxy_result_def
  by (rule transfers_same, (rule steps | simp add: proxy_code.of_code_total; fail)+)

lemma get_result_transfers:
  "pc_text P (pg_uri r) \<Longrightarrow> proxy_value_carried P (pg_value r) \<Longrightarrow> vec_ok (pc_text P) (pg_allow_list r) \<Longrightarrow>
     transfers (serialize_get_result P r) (deserialize_get_result P) r"
  unfolding serialize_get_result_def deserialize_get_result_def
  by (rule transfers_same, (rule steps proxy_value_transfers strings_transfer | simp add: proxy_code.of_code_total; fail)+)

lemma proxy_change_transfers:
  "pc_text P (pi_uri c) \<Longrightarrow> proxy_value_carried P (pi_value c) \<Longrightarrow> transfers (serialize_proxy_change P c) (deserialize_proxy_change P) c"
  unfolding serialize_proxy_change_def deserialize_proxy_change_def
  by (rule transfers_same, (rule steps proxy_value_transfers | simp add: change_kind.of_code_total; fail)+)

lemma template_id_transfers: "pc_text P (ti_bundle_name t) \<Longrightarrow> transfers (serialize_template_id P t) (deserialize_template_id P) t"
  unfolding serialize_template_id_def deserialize_template_id_def
  by (rule transfers_same, (rule steps | simp add: template_id_new_def; fail)+)

lemma shared_memory_transfers:
  "transfers (if s then (case m of Some a \<Rightarrow> pc_write_ashmem P a | None \<Rightarrow> (\<lambda>buf. None)) else wskip)
     (if s then rbind (pc_read_ashmem P) (\<lambda>a. rret (Some a)) else rret None) (if s then m else None)"
  by (auto split: option.split intro!: transfers_ret prims transfers_skip refused_transfers)

lemma change_node_transfers: "node_carried P n \<Longrightarrow> transfers (serialize_change_node P n) (deserialize_change_node P) (node_seen n)"
  unfolding serialize_change_node_def deserialize_change_node_def
  by (rule transfers_same, (rule shared_memory_transfers steps template_id_transfers strings_transfer | simp add: node_carried_def node_seen_def; fail)+)

lemma template_transfers:
  assumes "template_carried P t"
  shows "transfers (serialize_template P t) (deserialize_template P) t"
proof -
  have node: "transfers (write_template_node P n) (read_template_node P) n" if "pc_text P (tn_key n) \<and> pc_text P (tn_select_sql n)" for n
    unfolding write_template_node_def read_template_node_def
    by (rule transfers_same, (rule steps | simp add: that predicate_template_node_new_def; fail)+)
  have t: "pc_text P (tpl_update t)" "pc_text P (tpl_scheduler t)"
    and nodes: "vec_ok (\<lambda>n. pc_text P (tn_key n) \<and> pc_text P (tn_select_sql n)) (tpl_predicates t)"
    using assms by (simp_all add: template_carried_def)
  show ?thesis
    unfolding serialize_template_def deserialize_template_def
    by (rule transfers_same, rule transfers_seq [OF texts(1) [OF t(1)]], rule transfers_seq [OF vec_id [OF nodes node]], assumption,
        rule transfers_ret [OF texts(1) [OF t(2)]]) simp
qed

end

context open_parcel
begin

lemma types_accept [accepts_intros]:
  "accepts (serialize_update_operation P u)" "accepts (serialize_update_operations P m)" "accepts (serialize_batch_update_result P br)"
  "accepts (serialize_exec_result P er)" "accepts (serialize_exec_result_set P ers)" "accepts (serialize_operation_result P opr)"
  "accepts (serialize_statement P s)" "accepts (serialize_vbucket P b)" "accepts (serialize_change_info P c)"
  "accepts (serialize_proxy_value P v)" "accepts (serialize_proxy_config P cf)" "accepts (serialize_proxy_data P d)"
  "accepts (serialize_proxy_result P prr)" "accepts (serialize_get_result P gr)" "accepts (serialize_proxy_change P pch)"
  "accepts (serialize_template_id P t)" "accepts (write_template_node P tn)" "accepts (serialize_template P tpl)"
  unfolding serialize_update_operation_def serialize_update_operations_def serialize_batch_update_result_def serialize_exec_result_def
    serialize_exec_result_set_def serialize_operation_result_def serialize_statement_def serialize_vbucket_def serialize_change_info_def
    serialize_proxy_value_def serialize_proxy_config_def serialize_proxy_data_def serialize_proxy_result_def serialize_get_result_def
    serialize_proxy_change_def serialize_template_id_def write_template_node_def serialize_template_def
  by (auto intro!: accepts_intros prims_accept values_accept predicates_accept split: data_proxy_value.split prod.split)

end

section \<open>Properties\<close>


definition example_updates :: update_operations where
  "example_updates = [(''datashare:///a'', [\<lparr>uo_values_bucket = sample_bucket, uo_predicates = sample_predicates\<rparr>])]"


text \<open>
  Statements lose their back reference on the way through the parcel. The provider reads the operation, the URI, the
  values and the predicates of every statement as they were written, but always with the back reference of a statement
  that has none, so only such statements arrive unchanged.
\<close>

theorem parcel_statement_loses_reference:
  assumes "parcel_ok P" and "statement_carried P s" and w: "serialize_statement P s buf = Some buf'"
  shows "\<exists>bs s'. buf' = buf @ bs \<and> deserialize_statement P (bs @ rest) = Inr (s', rest)
    \<and> os_back_reference s' = back_reference_default \<and> os_operation_type s' = os_operation_type s \<and> os_uri s' = os_uri s
    \<and> os_values_bucket s' = os_values_bucket s \<and> os_predicates s' = parcel_predicates_norm (os_predicates s)
    \<and> (s' = s \<longrightarrow> os_back_reference s = back_reference_default)"
proof -
  obtain bs where "buf' = buf @ bs" "deserialize_statement P (bs @ rest) = Inr (statement_seen s, rest)"
    using transfersD [OF parcel.statement_transfers [OF parcel.intro [OF assms(1)] assms(2)] w] by metis
  then show ?thesis
    by (intro exI [of _ bs] exI [of _ "statement_seen s"]) (auto simp: statement_seen_def dest: arg_cong [where f = os_back_reference])
qed


definition referring_statement :: operation_statement where
  "referring_statement = (statement_insert ''datashare:///a'')\<lparr>os_back_reference := \<lparr>br_column = ''id'', br_from_index = 0\<rparr>\<rparr>"

theorem parcel_statement_loses_reference_witness:
  "\<exists>bs s'. serialize_statement plain_parcel referring_statement [] = Some bs \<and> deserialize_statement plain_parcel bs = Inr (s', [])
     \<and> os_back_reference s' \<noteq> os_back_reference referring_statement"
proof -
  have ok: "statement_carried plain_parcel referring_statement"
    by (simp add: referring_statement_def statement_insert_def statement_new_def statement_carried_def plain_parcel_def parcel_bucket_ok_def
        bucket_defs vec_ok_def parcel_predicates_ok_def predicates_new_def)
  obtain bs where w: "serialize_statement plain_parcel referring_statement [] = Some bs"
    using plain.types_accept(7) [of referring_statement] by (auto simp: accepts_def)
  have "os_back_reference referring_statement \<noteq> back_reference_default" by (simp add: referring_statement_def back_reference_default_def)
  with parcel_statement_loses_reference [OF plain_parcel_ok ok w, of "[]"] w show ?thesis by fastforce
qed

end
