(* ===== verification/Remote_Call.thy ===== *)
theory Remote_Call
  imports Parcel
begin

text \<open>
  What the IPC proxies share: \<open>ipc/codes.rs\<close>, the exchange of a request for a reply, and the readers of replies that
  go on after an error. The other end is a function from a code and a request to a reply, \<open>None\<close> where the
  request cannot be sent; \<open>serve\<close> is the other end that decodes, computes and encodes, for the statements about whole calls.
\<close>

section \<open>Command codes\<close>

datatype data_share_cmd =
    CmdGetFileTypes | CmdOpenFile | CmdOpenRawFile | CmdInsert | CmdUpdate | CmdDelete | CmdQuery | CmdGetType | CmdBatchInsert
  | CmdRegisterObserver | CmdUnregisterObserver | CmdNotifyChange | CmdNormalizeUri | CmdDenormalizeUri | CmdExecuteBatch
  | CmdInsertExt | CmdBatchUpdate | CmdInsertEx | CmdUpdateEx | CmdDeleteEx | CmdUserDefineFunc | CmdRegisterObserverExtProvider
  | CmdUnregisterObserverExtProvider | CmdNotifyChangeExtProvider | CmdOpenFileWithErrCode

primrec data_share_cmd_code :: "data_share_cmd \<Rightarrow> u32" where
  "data_share_cmd_code CmdGetFileTypes = 1"
| "data_share_cmd_code CmdOpenFile = 2"
| "data_share_cmd_code CmdOpenRawFile = 3"
| "data_share_cmd_code CmdInsert = 4"
| "data_share_cmd_code CmdUpdate = 5"
| "data_share_cmd_code CmdDelete = 6"
| "data_share_cmd_code CmdQuery = 7"
| "data_share_cmd_code CmdGetType = 8"
| "data_share_cmd_code CmdBatchInsert = 9"
| "data_share_cmd_code CmdRegisterObserver = 10"
| "data_share_cmd_code CmdUnregisterObserver = 11"
| "data_share_cmd_code CmdNotifyChange = 12"
| "data_share_cmd_code CmdNormalizeUri = 13"
| "data_share_cmd_code CmdDenormalizeUri = 14"
| "data_share_cmd_code CmdExecuteBatch = 15"
| "data_share_cmd_code CmdInsertExt = 16"
| "data_share_cmd_code CmdBatchUpdate = 17"
| "data_share_cmd_code CmdInsertEx = 18"
| "data_share_cmd_code CmdUpdateEx = 19"
| "data_share_cmd_code CmdDeleteEx = 20"
| "data_share_cmd_code CmdUserDefineFunc = 21"
| "data_share_cmd_code CmdRegisterObserverExtProvider = 22"
| "data_share_cmd_code CmdUnregisterObserverExtProvider = 23"
| "data_share_cmd_code CmdNotifyChangeExtProvider = 24"
| "data_share_cmd_code CmdOpenFileWithErrCode = 25"

datatype service_cmd =
    SvcQuery | SvcAddTemplate | SvcDelTemplate | SvcPublish | SvcGetData | SvcSubscribeRdb | SvcUnsubscribeRdb | SvcEnableSubscribeRdb
  | SvcDisableSubscribeRdb | SvcSubscribePublished | SvcUnsubscribePublished | SvcEnableSubscribePublished
  | SvcDisableSubscribePublished | SvcNotify | SvcNotifyObservers | SvcSetSilentSwitch | SvcGetSilentProxyStatus
  | SvcRegisterObserver | SvcUnregisterObserver | SvcInsertEx | SvcDeleteEx | SvcUpdateEx | SvcProxyPublish | SvcProxyDelete
  | SvcProxyGet | SvcSubscribeProxyData | SvcUnsubscribeProxyData | SvcGetConnectionInterfaceInfo

primrec service_cmd_code :: "service_cmd \<Rightarrow> u32" where
  "service_cmd_code SvcQuery = 0"
| "service_cmd_code SvcAddTemplate = 1"
| "service_cmd_code SvcDelTemplate = 2"
| "service_cmd_code SvcPublish = 3"
| "service_cmd_code SvcGetData = 4"
| "service_cmd_code SvcSubscribeRdb = 5"
| "service_cmd_code SvcUnsubscribeRdb = 6"
| "service_cmd_code SvcEnableSubscribeRdb = 7"
| "service_cmd_code SvcDisableSubscribeRdb = 8"
| "service_cmd_code SvcSubscribePublished = 9"
| "service_cmd_code SvcUnsubscribePublished = 10"
| "service_cmd_code SvcEnableSubscribePublished = 11"
| "service_cmd_code SvcDisableSubscribePublished = 12"
| "service_cmd_code SvcNotify = 13"
| "service_cmd_code SvcNotifyObservers = 14"
| "service_cmd_code SvcSetSilentSwitch = 15"
| "service_cmd_code SvcGetSilentProxyStatus = 16"
| "service_cmd_code SvcRegisterObserver = 17"
| "service_cmd_code SvcUnregisterObserver = 18"
| "service_cmd_code SvcInsertEx = 19"
| "service_cmd_code SvcDeleteEx = 20"
| "service_cmd_code SvcUpdateEx = 21"
| "service_cmd_code SvcProxyPublish = 22"
| "service_cmd_code SvcProxyDelete = 23"
| "service_cmd_code SvcProxyGet = 24"
| "service_cmd_code SvcSubscribeProxyData = 25"
| "service_cmd_code SvcUnsubscribeProxyData = 26"
| "service_cmd_code SvcGetConnectionInterfaceInfo = 27"

definition SYSTEM_CODE_OFFSET :: u32 where "SYSTEM_CODE_OFFSET = 100"

definition to_system_code :: "service_cmd \<Rightarrow> u32" where
  "to_system_code cmd = service_cmd_code cmd + SYSTEM_CODE_OFFSET"

section \<open>Requests and replies\<close>

definition exchange :: "('a, 'r) parcel_api \<Rightarrow> string \<Rightarrow> writer \<Rightarrow> (u32 \<Rightarrow> bytes \<Rightarrow> bytes option) \<Rightarrow> u32 \<Rightarrow> 'y \<Rightarrow> 'y \<Rightarrow> (bytes \<Rightarrow> 'y) \<Rightarrow> 'y" where
  "exchange P descriptor w send code refused dead f =
     (case wseq (pc_write_token P descriptor) w [] of
        None \<Rightarrow> refused
      | Some data \<Rightarrow> (case send code data of None \<Rightarrow> dead | Some reply \<Rightarrow> f reply))"

text \<open>\<open>read().unwrap_or(d)\<close>: \<open>left\<close> is what is left of a parcel after a read of it failed.\<close>

definition read_or :: "(bytes \<Rightarrow> bytes) \<Rightarrow> 'x reader \<Rightarrow> 'x \<Rightarrow> bytes \<Rightarrow> 'x \<times> bytes" where
  "read_or left r d bs = (case r bs of Inr p \<Rightarrow> p | Inl _ \<Rightarrow> (d, left bs))"

text \<open>\<open>for _ in 0..count { if let Ok(x) = read() { push(x) } }\<close>\<close>

primrec read_lossy :: "(bytes \<Rightarrow> bytes) \<Rightarrow> nat \<Rightarrow> 'x reader \<Rightarrow> bytes \<Rightarrow> 'x list \<times> bytes" where
  "read_lossy left 0 r bs = ([], bs)"
| "read_lossy left (Suc n) r bs =
     (case r bs of
        Inr (x, rest) \<Rightarrow> (let (xs, end) = read_lossy left n r rest in (x # xs, end))
      | Inl _ \<Rightarrow> read_lossy left n r (left bs))"

definition read_lossy_vec :: "(bytes \<Rightarrow> bytes) \<Rightarrow> ('a, 'r) parcel_api \<Rightarrow> 'x reader \<Rightarrow> bytes \<Rightarrow> 'x list \<times> bytes" where
  "read_lossy_vec left P r bs = (let (count, rest) = read_or left (pc_read_i32 P) 0 bs in read_lossy left (count_of count) r rest)"

text \<open>The other end of a call.\<close>

definition serve :: "('a, 'r) parcel_api \<Rightarrow> 'x reader \<Rightarrow> (u32 \<Rightarrow> string \<Rightarrow> 'x \<Rightarrow> 'y) \<Rightarrow> ('y \<Rightarrow> writer) \<Rightarrow> u32 \<Rightarrow> bytes \<Rightarrow> bytes option" where
  "serve P rd handle wr code data =
     (case pc_read_token P data of
        Inl _ \<Rightarrow> None
      | Inr (token, rest) \<Rightarrow> (case rd rest of Inl _ \<Rightarrow> None | Inr (x, _) \<Rightarrow> wr (handle code token x) []))"

lemma read_or_Inr [simp]: "r bs = Inr p \<Longrightarrow> read_or left r d bs = p"
  by (simp add: read_or_def)

lemma length_read_lossy: "length (fst (read_lossy left n r bs)) \<le> n"
proof (induction n arbitrary: bs)
  case (Suc n)
  then show ?case
    by (auto simp: Let_def split_def le_SucI split: sum.split)
qed simp

lemma read_lossy_transfers:
  assumes "\<And>x. x \<in> set xs \<Longrightarrow> transfers (w x) r (f x)" and "write_each w xs buf = Some buf'"
  shows "\<exists>bs. buf' = buf @ bs \<and> (\<forall>rest. read_lossy left (length xs) r (bs @ rest) = (map f xs, rest))"
  using assms
proof (induction xs arbitrary: buf)
  case (Cons x xs)
  obtain mid where m: "w x buf = Some mid" "write_each w xs mid = Some buf'"
    using Cons.prems(2) by (auto simp: wseq_def split: option.splits)
  obtain b1 where b1: "mid = buf @ b1" "\<And>rest. r (b1 @ rest) = Inr (f x, rest)"
    using transfersD [OF Cons.prems(1) m(1)] by (metis list.set_intros(1))
  obtain b2 where b2: "buf' = mid @ b2" "\<forall>rest. read_lossy left (length xs) r (b2 @ rest) = (map f xs, rest)"
    using Cons.IH [OF _ m(2)] Cons.prems(1) by auto
  show ?case by (rule exI [of _ "b1 @ b2"]) (simp add: b1 b2)
qed (simp add: wskip_def)

context parcel
begin

text \<open>A sequence that was written is read in full by the reader that skips errors.\<close>

lemma lossy_vec:
  assumes "vec_ok ok xs" and t: "\<And>x. ok x \<Longrightarrow> transfers (w x) r (f x)" and w: "write_vec P w xs buf = Some buf'"
  shows "\<exists>bs. buf' = buf @ bs \<and> (\<forall>rest. read_lossy_vec left P r (bs @ rest) = (map f xs, rest))"
proof -
  obtain mid where m: "pc_write_i32 P (of_nat (length xs)) buf = Some mid" "write_each w xs mid = Some buf'"
    using w by (auto simp: write_vec_def wseq_def split: option.splits)
  obtain b1 where b1: "mid = buf @ b1" "\<And>rest. pc_read_i32 P (b1 @ rest) = Inr (of_nat (length xs), rest)"
    using transfersD [OF prims(1) m(1)] by metis
  have "\<And>x. x \<in> set xs \<Longrightarrow> transfers (w x) r (f x)" using assms(1) t by (auto simp: vec_ok_def list_all_iff)
  then obtain b2 where b2: "buf' = mid @ b2" "\<forall>rest. read_lossy left (length xs) r (b2 @ rest) = (map f xs, rest)"
    using read_lossy_transfers [OF _ m(2)] by blast
  have "length xs < 2 ^ 31" using assms(1) by (simp add: vec_ok_def)
  then show ?thesis
    by (intro exI [of _ "b1 @ b2"]) (simp add: b1 b2 read_lossy_vec_def)
qed

text \<open>A request that fits into the parcel is served on what was written.\<close>

lemma serve_request:
  assumes "transfers w rd x" and "wseq (pc_write_token P descriptor) w [] = Some data"
  shows "serve P rd handle wr code data = wr (handle code descriptor x) []"
proof -
  obtain t where t: "pc_write_token P descriptor [] = Some t" "w t = Some data"
    using assms(2) by (auto simp: wseq_def split: option.splits)
  have "\<And>rest. pc_read_token P (t @ rest) = Inr (descriptor, rest)" using transfersD [OF prims(9) t(1)] by (metis append_Nil)
  moreover obtain bs where "data = t @ bs" "rd bs = Inr (x, [])" using transfersD [OF assms(1) t(2)] by (metis append_Nil2)
  ultimately show ?thesis by (simp add: serve_def)
qed

text \<open>
  A remote call is a call: the other end computes on what arrives, and the caller reads its reply. A request that does not
  fit into its parcel is not sent, and one whose reply is not written is answered with an error.
\<close>

lemma exchange_served:
  assumes "transfers w rd x" and f: "\<And>reply. wr (handle code descriptor x) [] = Some reply \<Longrightarrow> f reply = y"
  shows "exchange P descriptor w (serve P rd handle wr) code refused dead f =
    (if wseq (pc_write_token P descriptor) w [] = None then refused else if wr (handle code descriptor x) [] = None then dead else y)"
  using serve_request [OF assms(1), of descriptor _ handle wr code] f by (auto simp: exchange_def split: option.split)

lemma reply_read:
  assumes "transfers w r y" and "w [] = Some reply"
  shows "r reply = Inr (y, [])"
  using transfersD [OF assms] by (metis append_Nil append_Nil2)

end

section \<open>Channels\<close>

text \<open>What a proxy has at hand: the parcel, the remote object it sends to, and what a failed read leaves of a reply.\<close>

record ('a, 'r) channel =
  ch_api :: "('a, 'r) parcel_api"
  ch_send :: "u32 \<Rightarrow> bytes \<Rightarrow> bytes option"
  ch_left :: "bytes \<Rightarrow> bytes"

text \<open>The replies the proxies read: one number, an error code and a number, a counted sequence.\<close>

definition reply_i32 :: "('a, 'r, 'z) channel_scheme \<Rightarrow> i32 \<Rightarrow> bytes \<Rightarrow> i32" where
  "reply_i32 X d reply = fst (read_or (ch_left X) (pc_read_i32 (ch_api X)) d reply)"

definition reply_pair :: "('a, 'r, 'z) channel_scheme \<Rightarrow> i32 \<Rightarrow> bytes \<Rightarrow> i32 \<times> i32" where
  "reply_pair X d reply =
     (let (err_code, rest) = read_or (ch_left X) (pc_read_i32 (ch_api X)) d reply in (err_code, reply_i32 X 0 rest))"

definition reply_list :: "('a, 'r, 'z) channel_scheme \<Rightarrow> 'x reader \<Rightarrow> bytes \<Rightarrow> 'x list" where
  "reply_list X r reply = fst (read_lossy_vec (ch_left X) (ch_api X) r reply)"

text \<open>How the other end writes them.\<close>

definition write_pair :: "('a, 'r) parcel_api \<Rightarrow> i32 \<times> i32 \<Rightarrow> writer" where
  "write_pair P p = wseq (pc_write_i32 P (fst p)) (pc_write_i32 P (snd p))"

text \<open>A request is two values, or three.\<close>

definition pair_reader :: "'x reader \<Rightarrow> 'y reader \<Rightarrow> ('x \<times> 'y) reader" where
  "pair_reader r s = rbind r (\<lambda>x. rbind s (\<lambda>y. rret (x, y)))"

lemma reply_i32_written:
  assumes "parcel_ok (ch_api X)" and "pc_write_i32 (ch_api X) i [] = Some reply"
  shows "reply_i32 X d reply = i"
  using parcel.reply_read [OF parcel.intro [OF assms(1)] parcel.prims(1) [OF parcel.intro [OF assms(1)]] assms(2)]
  by (simp add: reply_i32_def)

lemma reply_pair_written:
  assumes "parcel_ok (ch_api X)" and "write_pair (ch_api X) p [] = Some reply"
  shows "reply_pair X d reply = p"
proof -
  note pc = parcel.intro [OF assms(1)]
  have "transfers (write_pair (ch_api X) p) (pair_reader (pc_read_i32 (ch_api X)) (pc_read_i32 (ch_api X))) p"
    unfolding write_pair_def pair_reader_def
    by (rule transfers_same, rule transfers_seq [OF parcel.prims(1) [OF pc]], rule transfers_ret [OF parcel.prims(1) [OF pc]]) simp
  from parcel.reply_read [OF pc this assms(2)] show ?thesis
    by (auto simp: pair_reader_def rbind_def rret_def reply_pair_def reply_i32_def read_or_def split: sum.splits)
qed

lemma reply_list_written:
  assumes "parcel_ok (ch_api X)" and "vec_ok ok xs" and "\<And>x. ok x \<Longrightarrow> transfers (w x) r (f x)"
    and "write_vec (ch_api X) w xs [] = Some reply"
  shows "reply_list X r reply = map f xs"
proof -
  obtain bs where "reply = bs" "\<forall>rest. read_lossy_vec (ch_left X) (ch_api X) r (bs @ rest) = (map f xs, rest)"
    using parcel.lossy_vec [OF parcel.intro [OF assms(1)] assms(2-4)] by auto
  then show ?thesis by (metis append_Nil2 fst_conv reply_list_def)
qed

lemma transfers_pair: "transfers v r x \<Longrightarrow> transfers w s y \<Longrightarrow> transfers (wseq v w) (pair_reader r s) (x, y)"
  unfolding pair_reader_def by (erule transfers_seq) (erule transfers_ret)

lemma wseq_assoc: "wseq (wseq u v) w = wseq u (wseq v w)"
  by (rule ext) (simp add: wseq_def split: option.split)

text \<open>A dead remote object answers nothing.\<close>

lemma exchange_dead: "exchange P descriptor w (\<lambda>_ _. None) code d d f = d"
  by (simp add: exchange_def split: option.split)

text \<open>No reply is longer than its count says.\<close>

lemma length_reply_list: "length (reply_list X r reply) \<le> count_of (fst (read_or (ch_left X) (pc_read_i32 (ch_api X)) 0 reply))"
  by (simp add: reply_list_def read_lossy_vec_def length_read_lossy split_def Let_def)

end
