(* ===== verification/Service_Proxy.thy ===== *)
theory Service_Proxy
  imports Helper Proxy_Codec Parcel_Types Remote_Call
begin

text \<open>
  \<open>proxy/service_proxy.rs\<close>: the client side of the data share service. Every method writes a request, sends it under the
  code of its command and reads the reply. The channel carries the parcel and the remote object, \<open>sx_system\<close> is the global
  flag of system applications and \<open>sx_raw\<close> the raw write of the IPC library. The properties read a whole call: over a
  service that decodes what \<open>parcel_impl.rs\<close> encodes, a method is the function the service computes.
\<close>

section \<open>Requests\<close>

definition SERVICE_DESCRIPTOR :: string where "SERVICE_DESCRIPTOR = ''OHOS.DataShare.IDataShareService''"

record ('a, 'r) service_channel = "('a, 'r) channel" +
  sx_raw :: "bytes \<Rightarrow> writer"
  sx_system :: bool

definition set_system :: "bool \<Rightarrow> ('a, 'r) service_channel \<Rightarrow> ('a, 'r) service_channel" where
  "set_system b X = X\<lparr>sx_system := b\<rparr>"

definition clean_system :: "('a, 'r) service_channel \<Rightarrow> ('a, 'r) service_channel" where
  "clean_system X = X\<lparr>sx_system := False\<rparr>"

definition cast_ipc_code :: "bool \<Rightarrow> service_cmd \<Rightarrow> u32" where
  "cast_ipc_code is_system cmd = (if is_system then service_cmd_code cmd + SYSTEM_CODE_OFFSET else service_cmd_code cmd)"

text \<open>\<open>create_request\<close>, the writes and \<open>send\<close>, which casts the code, or \<open>send_direct\<close>, which does not.\<close>

definition sp_send :: "('a, 'r) service_channel \<Rightarrow> service_cmd \<Rightarrow> writer \<Rightarrow> 'y \<Rightarrow> 'y \<Rightarrow> (bytes \<Rightarrow> 'y) \<Rightarrow> 'y" where
  "sp_send X cmd w refused dead f = exchange (ch_api X) SERVICE_DESCRIPTOR w (ch_send X) (cast_ipc_code (sx_system X) cmd) refused dead f"

definition sp_send_direct :: "('a, 'r) service_channel \<Rightarrow> service_cmd \<Rightarrow> writer \<Rightarrow> 'y \<Rightarrow> 'y \<Rightarrow> (bytes \<Rightarrow> 'y) \<Rightarrow> 'y" where
  "sp_send_direct X cmd w refused dead f = exchange (ch_api X) SERVICE_DESCRIPTOR w (ch_send X) (service_cmd_code cmd) refused dead f"

section \<open>Inserting, updating, deleting\<close>

definition sp_insert_ex :: "('a, 'r) service_channel \<Rightarrow> string \<Rightarrow> string \<Rightarrow> data_share_values_bucket \<Rightarrow> i32 \<times> i32" where
  "sp_insert_ex X uri ext_uri v =
     (let P = ch_api X in
      sp_send X SvcInsertEx (wseq (pc_write_string P uri) (wseq (pc_write_string P ext_uri) (serialize_bucket P v)))
        (INVALID_VALUE, 0) (DATA_SHARE_ERROR, 0) (reply_pair X INVALID_VALUE))"

definition sp_update_ex :: "('a, 'r) service_channel \<Rightarrow> string \<Rightarrow> string \<Rightarrow> data_share_predicates \<Rightarrow> data_share_values_bucket \<Rightarrow> i32 \<times> i32" where
  "sp_update_ex X uri ext_uri predicates v =
     (let P = ch_api X in
      sp_send X SvcUpdateEx
        (wseq (pc_write_string P uri) (wseq (pc_write_string P ext_uri) (wseq (serialize_predicates P predicates) (serialize_bucket P v))))
        (INVALID_VALUE, 0) (DATA_SHARE_ERROR, 0) (reply_pair X INVALID_VALUE))"

definition sp_delete_ex :: "('a, 'r) service_channel \<Rightarrow> string \<Rightarrow> string \<Rightarrow> data_share_predicates \<Rightarrow> i32 \<times> i32" where
  "sp_delete_ex X uri ext_uri predicates =
     (let P = ch_api X in
      sp_send X SvcDeleteEx (wseq (pc_write_string P uri) (wseq (pc_write_string P ext_uri) (serialize_predicates P predicates)))
        (INVALID_VALUE, 0) (DATA_SHARE_ERROR, 0) (reply_pair X INVALID_VALUE))"

definition code_or_status :: "i32 \<times> i32 \<Rightarrow> i32" where
  "code_or_status p = (let (err_code, status) = p in if err_code = 0 then status else if err_code <s 0 then err_code else DATA_SHARE_ERROR)"

definition sp_insert :: "('a, 'r) service_channel \<Rightarrow> string \<Rightarrow> string \<Rightarrow> data_share_values_bucket \<Rightarrow> i32" where
  "sp_insert X uri ext_uri v = code_or_status (sp_insert_ex X uri ext_uri v)"

definition sp_update :: "('a, 'r) service_channel \<Rightarrow> string \<Rightarrow> string \<Rightarrow> data_share_predicates \<Rightarrow> data_share_values_bucket \<Rightarrow> i32" where
  "sp_update X uri ext_uri predicates v = code_or_status (sp_update_ex X uri ext_uri predicates v)"

definition sp_delete :: "('a, 'r) service_channel \<Rightarrow> string \<Rightarrow> string \<Rightarrow> data_share_predicates \<Rightarrow> i32" where
  "sp_delete X uri ext_uri predicates = code_or_status (sp_delete_ex X uri ext_uri predicates)"

text \<open>A failed write of the columns leaves the error of the caller as it was. The reply is read by the caller.\<close>

definition sp_query :: "('a, 'r) service_channel \<Rightarrow> string \<Rightarrow> string \<Rightarrow> data_share_predicates \<Rightarrow> string list \<Rightarrow> business_error
    \<Rightarrow> bytes option \<times> business_error" where
  "sp_query X uri ext_uri predicates columns be =
     (let P = ch_api X in
      case wseq (pc_write_token P SERVICE_DESCRIPTOR)
          (wseq (pc_write_string P uri) (wseq (pc_write_string P ext_uri) (serialize_predicates P predicates))) [] of
        None \<Rightarrow> (None, set_code INVALID_VALUE be)
      | Some head \<Rightarrow>
          (case write_vec P (pc_write_string P) columns head of
             None \<Rightarrow> (None, be)
           | Some data \<Rightarrow>
               (case ch_send X (cast_ipc_code (sx_system X) SvcQuery) data of
                  None \<Rightarrow> (None, set_code DATA_SHARE_ERROR be)
                | Some reply \<Rightarrow> (Some reply, be))))"

section \<open>Templates and published data\<close>

definition ascii_upper :: "char \<Rightarrow> char" where
  "ascii_upper c = (let n = of_char c :: nat in if 97 \<le> n \<and> n \<le> 122 then char_of (n - 32) else c)"

definition sp_add_query_template :: "('a, 'r) service_channel \<Rightarrow> string \<Rightarrow> i64 \<Rightarrow> template \<Rightarrow> i32" where
  "sp_add_query_template X uri subscriber_id tpl =
     (let P = ch_api X in
      if tpl_update tpl \<noteq> [] \<and> \<not> starts_with (map ascii_upper (tpl_update tpl)) ''UPDATE'' then DATA_SHARE_ERROR
      else sp_send X SvcAddTemplate
        (wseq (pc_write_string P uri) (wseq (pc_write_i64 P subscriber_id)
          (wseq (pc_write_string P (tpl_update tpl)) (wseq (write_vec P (write_template_node P) (tpl_predicates tpl))
            (pc_write_string P (tpl_scheduler tpl))))))
        DATA_SHARE_ERROR DATA_SHARE_ERROR (reply_i32 X DATA_SHARE_ERROR))"

definition sp_del_query_template :: "('a, 'r) service_channel \<Rightarrow> string \<Rightarrow> i64 \<Rightarrow> i32" where
  "sp_del_query_template X uri subscriber_id =
     (let P = ch_api X in
      sp_send X SvcDelTemplate (wseq (pc_write_string P uri) (pc_write_i64 P subscriber_id))
        DATA_SHARE_ERROR DATA_SHARE_ERROR (reply_i32 X DATA_SHARE_ERROR))"

definition read_operation_results :: "('a, 'r) service_channel \<Rightarrow> bytes \<Rightarrow> operation_result list" where
  "read_operation_results X = reply_list X (deserialize_operation_result (ch_api X))"

definition sp_publish :: "('a, 'r) service_channel \<Rightarrow> 'a published_data \<Rightarrow> string \<Rightarrow> operation_result list" where
  "sp_publish X pub_data bundle_name =
     (let P = ch_api X in
      sp_send X SvcPublish
        (wseq (write_vec P (serialize_published_item P) (da_datas pub_data)) (wseq (pc_write_i32 P (da_version pub_data)) (pc_write_string P bundle_name)))
        [] [] (read_operation_results X))"

definition published_data_default :: "'a published_data" where
  "published_data_default = \<lparr>da_datas = [], da_version = 0\<rparr>"

definition sp_get_published_data :: "('a, 'r) service_channel \<Rightarrow> string \<Rightarrow> 'a published_data \<times> i32" where
  "sp_get_published_data X bundle_name =
     (let P = ch_api X; none = (published_data_default, INVALID_VALUE) in
      sp_send X SvcGetData (pc_write_string P bundle_name) none none
        (\<lambda>reply. let (datas, rest) = read_lossy_vec (ch_left X) P (deserialize_published_item P) reply
                 in (published_data_default\<lparr>da_datas := datas\<rparr>, reply_i32 X INVALID_VALUE rest)))"

section \<open>Subscriptions\<close>

definition write_subscription_header :: "('a, 'r) parcel_api \<Rightarrow> string list \<Rightarrow> i64 \<Rightarrow> string \<Rightarrow> writer" where
  "write_subscription_header P uris subscriber_id bundle_name =
     wseq (write_vec P (pc_write_string P) uris) (wseq (pc_write_i64 P subscriber_id) (pc_write_string P bundle_name))"

text \<open>The count 0 is the empty map of options.\<close>

definition sp_subscribe_rdb_data :: "('a, 'r) service_channel \<Rightarrow> string list \<Rightarrow> i64 \<Rightarrow> string \<Rightarrow> 'r \<Rightarrow> operation_result list" where
  "sp_subscribe_rdb_data X uris subscriber_id bundle_name observer =
     (let P = ch_api X in
      sp_send X SvcSubscribeRdb
        (wseq (write_subscription_header P uris subscriber_id bundle_name) (wseq (pc_write_i32 P 0) (pc_write_remote P observer)))
        [] [] (read_operation_results X))"

definition sp_unsubscribe_rdb_data :: "('a, 'r) service_channel \<Rightarrow> string list \<Rightarrow> i64 \<Rightarrow> string \<Rightarrow> operation_result list" where
  "sp_unsubscribe_rdb_data X uris subscriber_id bundle_name =
     sp_send X SvcUnsubscribeRdb (write_subscription_header (ch_api X) uris subscriber_id bundle_name) [] [] (read_operation_results X)"

definition sp_enable_subscribe_rdb_data :: "('a, 'r) service_channel \<Rightarrow> string list \<Rightarrow> i64 \<Rightarrow> string \<Rightarrow> operation_result list" where
  "sp_enable_subscribe_rdb_data X uris subscriber_id bundle_name =
     sp_send X SvcEnableSubscribeRdb (write_subscription_header (ch_api X) uris subscriber_id bundle_name) [] [] (read_operation_results X)"

definition sp_disable_subscribe_rdb_data :: "('a, 'r) service_channel \<Rightarrow> string list \<Rightarrow> i64 \<Rightarrow> string \<Rightarrow> operation_result list" where
  "sp_disable_subscribe_rdb_data X uris subscriber_id bundle_name =
     sp_send X SvcDisableSubscribeRdb (write_subscription_header (ch_api X) uris subscriber_id bundle_name) [] [] (read_operation_results X)"

definition write_published_sub_header :: "('a, 'r) parcel_api \<Rightarrow> string list \<Rightarrow> i64 \<Rightarrow> writer" where
  "write_published_sub_header P uris subscriber_id = wseq (write_vec P (pc_write_string P) uris) (pc_write_i64 P subscriber_id)"

definition sp_subscribe_published_data :: "('a, 'r) service_channel \<Rightarrow> string list \<Rightarrow> i64 \<Rightarrow> 'r \<Rightarrow> operation_result list" where
  "sp_subscribe_published_data X uris subscriber_id observer =
     (let P = ch_api X in
      sp_send X SvcSubscribePublished (wseq (write_published_sub_header P uris subscriber_id) (pc_write_remote P observer))
        [] [] (read_operation_results X))"

definition sp_unsubscribe_published_data :: "('a, 'r) service_channel \<Rightarrow> string list \<Rightarrow> i64 \<Rightarrow> operation_result list" where
  "sp_unsubscribe_published_data X uris subscriber_id =
     sp_send X SvcUnsubscribePublished (write_published_sub_header (ch_api X) uris subscriber_id) [] [] (read_operation_results X)"

definition sp_enable_subscribe_published_data :: "('a, 'r) service_channel \<Rightarrow> string list \<Rightarrow> i64 \<Rightarrow> operation_result list" where
  "sp_enable_subscribe_published_data X uris subscriber_id =
     sp_send X SvcEnableSubscribePublished (write_published_sub_header (ch_api X) uris subscriber_id) [] [] (read_operation_results X)"

definition sp_disable_subscribe_published_data :: "('a, 'r) service_channel \<Rightarrow> string list \<Rightarrow> i64 \<Rightarrow> operation_result list" where
  "sp_disable_subscribe_published_data X uris subscriber_id =
     sp_send X SvcDisableSubscribePublished (write_published_sub_header (ch_api X) uris subscriber_id) [] [] (read_operation_results X)"

section \<open>Observers and the silent switch\<close>

text \<open>\<open>notify\<close> answers nothing: what it does is the request it sends, \<open>None\<close> when it sends none.\<close>

definition sp_notify :: "('a, 'r) service_channel \<Rightarrow> string \<Rightarrow> (u32 \<times> bytes) option" where
  "sp_notify X uri =
     (let P = ch_api X in
      map_option (Pair (cast_ipc_code (sx_system X) SvcNotifyObservers)) (wseq (pc_write_token P SERVICE_DESCRIPTOR) (pc_write_string P uri) []))"

definition sp_register_observer :: "('a, 'r) service_channel \<Rightarrow> string \<Rightarrow> 'r \<Rightarrow> i32" where
  "sp_register_observer X uri observer =
     (let P = ch_api X in
      sp_send_direct X SvcRegisterObserver (wseq (pc_write_string P uri) (pc_write_remote P observer))
        DATA_SHARE_ERROR DATA_SHARE_ERROR (reply_i32 X DATA_SHARE_ERROR))"

definition sp_unregister_observer :: "('a, 'r) service_channel \<Rightarrow> string \<Rightarrow> 'r \<Rightarrow> i32" where
  "sp_unregister_observer X uri observer =
     (let P = ch_api X in
      sp_send_direct X SvcUnregisterObserver (wseq (pc_write_string P uri) (pc_write_remote P observer))
        DATA_SHARE_ERROR DATA_SHARE_ERROR (reply_i32 X DATA_SHARE_ERROR))"

definition sp_set_silent_switch :: "('a, 'r) service_channel \<Rightarrow> string \<Rightarrow> bool \<Rightarrow> i32" where
  "sp_set_silent_switch X uri enable =
     (let P = ch_api X in
      sp_send X SvcSetSilentSwitch (wseq (pc_write_string P uri) (pc_write_bool P enable))
        DATA_SHARE_ERROR DATA_SHARE_ERROR (reply_i32 X DATA_SHARE_ERROR))"

definition sp_get_silent_proxy_status :: "('a, 'r) service_channel \<Rightarrow> string \<Rightarrow> i32" where
  "sp_get_silent_proxy_status X uri =
     sp_send X SvcGetSilentProxyStatus (pc_write_string (ch_api X) uri) DATA_SHARE_ERROR DATA_SHARE_ERROR (reply_i32 X DATA_SHARE_ERROR)"

definition sp_get_connection_interface_info :: "('a, 'r) service_channel \<Rightarrow> i32 \<Rightarrow> u32 \<Rightarrow> (i32 \<times> u32 \<times> string) option" where
  "sp_get_connection_interface_info X sa_id wait_time =
     (let P = ch_api X in
      sp_send_direct X SvcGetConnectionInterfaceInfo (wseq (pc_write_i32 P sa_id) (pc_write_u32 P wait_time)) None None
        (\<lambda>reply. case rbind (pc_read_i32 P) (\<lambda>err_code. rbind (pc_read_string16 P) (\<lambda>descriptor. rbind (pc_read_u32 P) (\<lambda>code.
             rret (err_code, code, descriptor)))) reply of
           Inr (info, _) \<Rightarrow> Some info
         | Inl _ \<Rightarrow> None))"

section \<open>Proxy data\<close>

definition read_proxy_results :: "('a, 'r) service_channel \<Rightarrow> bytes \<Rightarrow> data_proxy_result list" where
  "read_proxy_results X = reply_list X (deserialize_proxy_result (ch_api X))"

definition make_error_results_from_uris :: "string list \<Rightarrow> data_proxy_result list" where
  "make_error_results_from_uris uris = map (\<lambda>u. data_proxy_result_new u InnerError) uris"

definition make_error_results_from_proxy_data :: "data_share_proxy_data list \<Rightarrow> data_proxy_result list" where
  "make_error_results_from_proxy_data proxy_data = map (\<lambda>d. data_proxy_result_new (pd_uri d) InnerError) proxy_data"

definition make_error_get_results_from_uris :: "string list \<Rightarrow> data_proxy_get_result list" where
  "make_error_get_results_from_uris uris = map (\<lambda>u. data_proxy_get_result_default\<lparr>pg_uri := u, pg_result := InnerError\<rparr>) uris"

definition sp_publish_proxy_data :: "('a, 'r) service_channel \<Rightarrow> data_share_proxy_data list \<Rightarrow> data_proxy_config \<Rightarrow> data_proxy_result list" where
  "sp_publish_proxy_data X proxy_data proxy_config =
     (let P = ch_api X; bad = make_error_results_from_proxy_data proxy_data in
      sp_send_direct X SvcProxyPublish
        (wseq (case write_proxy_data_vec_to_parcel proxy_data of
                 None \<Rightarrow> (\<lambda>buf. None)
               | Some (blob_len, blob) \<Rightarrow> wseq (pc_write_i32 P blob_len) (sx_raw X blob))
           (serialize_proxy_config P proxy_config))
        bad bad (read_proxy_results X))"

definition sp_delete_proxy_data :: "('a, 'r) service_channel \<Rightarrow> string list \<Rightarrow> data_proxy_config \<Rightarrow> data_proxy_result list" where
  "sp_delete_proxy_data X uris proxy_config =
     (let P = ch_api X; bad = make_error_results_from_uris uris in
      sp_send_direct X SvcProxyDelete (wseq (write_vec P (pc_write_string P) uris) (serialize_proxy_config P proxy_config))
        bad bad (read_proxy_results X))"

text \<open>\<open>avail\<close> and \<open>item_size\<close> are those of the reader of results; \<open>None\<close> is its panic.\<close>

definition sp_get_proxy_data :: "('a, 'r) service_channel \<Rightarrow> nat \<Rightarrow> nat \<Rightarrow> string list \<Rightarrow> data_proxy_config \<Rightarrow> data_proxy_get_result list option" where
  "sp_get_proxy_data X avail item_size uris proxy_config =
     (let P = ch_api X; bad = Some (make_error_get_results_from_uris uris) in
      sp_send_direct X SvcProxyGet (wseq (write_vec P (pc_write_string P) uris) (serialize_proxy_config P proxy_config)) bad bad
        (\<lambda>reply.
           let first = pc_read_i32 P reply;
               second = (case first of Inr (_, rest) \<Rightarrow> pc_read_i32 P rest | Inl e \<Rightarrow> Inl e)
           in read_proxy_get_result_vec_from_parcel avail item_size
                (case first of Inr (v, _) \<Rightarrow> Some v | Inl _ \<Rightarrow> None) (case second of Inr (v, _) \<Rightarrow> Some v | Inl _ \<Rightarrow> None)
                (\<lambda>n. case second of
                   Inr (_, rest) \<Rightarrow> (case pc_read_buffer P (of_nat n) rest of Inr (raw, _) \<Rightarrow> Some raw | Inl _ \<Rightarrow> None)
                 | Inl _ \<Rightarrow> None)))"

definition sp_subscribe_proxy_data :: "('a, 'r) service_channel \<Rightarrow> string list \<Rightarrow> 'r \<Rightarrow> data_proxy_result list" where
  "sp_subscribe_proxy_data X uris observer =
     (let P = ch_api X; bad = make_error_results_from_uris uris in
      sp_send_direct X SvcSubscribeProxyData (wseq (write_vec P (pc_write_string P) uris) (pc_write_remote P observer))
        bad bad (read_proxy_results X))"

definition sp_unsubscribe_proxy_data :: "('a, 'r) service_channel \<Rightarrow> string list \<Rightarrow> data_proxy_result list" where
  "sp_unsubscribe_proxy_data X uris =
     (let bad = make_error_results_from_uris uris in
      sp_send_direct X SvcUnsubscribeProxyData (write_vec (ch_api X) (pc_write_string (ch_api X)) uris) bad bad (read_proxy_results X))"

section \<open>The service at the other end\<close>

text \<open>
  The data share service is not part of the sources. What the code relies on is that it knows the commands by the numbers of the
  interface header \<open>distributeddata_data_share_ipc_interface_code.h\<close>, with 100 added for system applications, checks the
  token, decodes requests in the format of \<open>parcel_impl.rs\<close>, and writes its answer to the reply in that format; a reply that cannot be
  written is an error of the request. The functions it computes are arbitrary: they are the record \<open>service\<close>. The limits of
  parcels are arbitrary too: a write that a parcel refuses is a case of the theorems.
\<close>

datatype 'r service_request =
    ReqInsert string string data_share_values_bucket
  | ReqUpdate string string data_share_predicates data_share_values_bucket
  | ReqDelete string string data_share_predicates
  | ReqAddTemplate string i64 template
  | ReqDelTemplate string i64
  | ReqRdb service_cmd "string list" i64 string
  | ReqSubscribeRdb "string list" i64 string i32 'r
  | ReqPublished service_cmd "string list" i64
  | ReqSubscribePublished "string list" i64 'r
  | ReqObserver service_cmd string 'r
  | ReqSetSwitch string bool
  | ReqGetStatus string
  | ReqDeleteProxy "string list" data_proxy_config
  | ReqSubscribeProxy "string list" 'r
  | ReqUnsubscribeProxy "string list"

record 'r service =
  srv_pair :: "'r service_request \<Rightarrow> i32 \<times> i32"
  srv_code :: "'r service_request \<Rightarrow> i32"
  srv_results :: "'r service_request \<Rightarrow> operation_result list"
  srv_proxy_results :: "'r service_request \<Rightarrow> data_proxy_result list"

definition read_strings :: "('a, 'r) parcel_api \<Rightarrow> string list reader" where
  "read_strings P = read_vec P (pc_read_string P)"

definition read_rdb :: "('a, 'r) parcel_api \<Rightarrow> service_cmd \<Rightarrow> 'r service_request reader" where
  "read_rdb P cmd = rbind (read_strings P) (\<lambda>uris. rbind (pc_read_i64 P) (\<lambda>i. rbind (pc_read_string P) (\<lambda>b. rret (ReqRdb cmd uris i b))))"

definition read_published :: "('a, 'r) parcel_api \<Rightarrow> service_cmd \<Rightarrow> 'r service_request reader" where
  "read_published P cmd = rbind (read_strings P) (\<lambda>uris. rbind (pc_read_i64 P) (\<lambda>i. rret (ReqPublished cmd uris i)))"

definition read_observer :: "('a, 'r) parcel_api \<Rightarrow> service_cmd \<Rightarrow> 'r service_request reader" where
  "read_observer P cmd = rbind (pc_read_string P) (\<lambda>uri. rbind (pc_read_remote P) (\<lambda>r. rret (ReqObserver cmd uri r)))"

fun read_request_of :: "('a, 'r) parcel_api \<Rightarrow> service_cmd \<Rightarrow> 'r service_request reader" where
  "read_request_of P SvcInsertEx = rbind (pc_read_string P) (\<lambda>u. rbind (pc_read_string P) (\<lambda>e. rbind (deserialize_bucket P) (\<lambda>v. rret (ReqInsert u e v))))"
| "read_request_of P SvcUpdateEx = rbind (pc_read_string P) (\<lambda>u. rbind (pc_read_string P) (\<lambda>e.
     rbind (deserialize_predicates P) (\<lambda>p. rbind (deserialize_bucket P) (\<lambda>v. rret (ReqUpdate u e p v)))))"
| "read_request_of P SvcDeleteEx = rbind (pc_read_string P) (\<lambda>u. rbind (pc_read_string P) (\<lambda>e. rbind (deserialize_predicates P) (\<lambda>p. rret (ReqDelete u e p))))"
| "read_request_of P SvcAddTemplate = rbind (pc_read_string P) (\<lambda>u. rbind (pc_read_i64 P) (\<lambda>i. rbind (deserialize_template P) (\<lambda>t. rret (ReqAddTemplate u i t))))"
| "read_request_of P SvcDelTemplate = rbind (pc_read_string P) (\<lambda>u. rbind (pc_read_i64 P) (\<lambda>i. rret (ReqDelTemplate u i)))"
| "read_request_of P SvcSubscribeRdb = rbind (read_strings P) (\<lambda>uris. rbind (pc_read_i64 P) (\<lambda>i. rbind (pc_read_string P) (\<lambda>b.
     rbind (pc_read_i32 P) (\<lambda>n. rbind (pc_read_remote P) (\<lambda>r. rret (ReqSubscribeRdb uris i b n r))))))"
| "read_request_of P SvcUnsubscribeRdb = read_rdb P SvcUnsubscribeRdb"
| "read_request_of P SvcEnableSubscribeRdb = read_rdb P SvcEnableSubscribeRdb"
| "read_request_of P SvcDisableSubscribeRdb = read_rdb P SvcDisableSubscribeRdb"
| "read_request_of P SvcSubscribePublished = rbind (read_strings P) (\<lambda>uris. rbind (pc_read_i64 P) (\<lambda>i.
     rbind (pc_read_remote P) (\<lambda>r. rret (ReqSubscribePublished uris i r))))"
| "read_request_of P SvcUnsubscribePublished = read_published P SvcUnsubscribePublished"
| "read_request_of P SvcEnableSubscribePublished = read_published P SvcEnableSubscribePublished"
| "read_request_of P SvcDisableSubscribePublished = read_published P SvcDisableSubscribePublished"
| "read_request_of P SvcRegisterObserver = read_observer P SvcRegisterObserver"
| "read_request_of P SvcUnregisterObserver = read_observer P SvcUnregisterObserver"
| "read_request_of P SvcSetSilentSwitch = rbind (pc_read_string P) (\<lambda>u. rbind (pc_read_bool P) (\<lambda>b. rret (ReqSetSwitch u b)))"
| "read_request_of P SvcGetSilentProxyStatus = rbind (pc_read_string P) (\<lambda>u. rret (ReqGetStatus u))"
| "read_request_of P SvcProxyDelete = rbind (read_strings P) (\<lambda>uris. rbind (deserialize_proxy_config P) (\<lambda>c. rret (ReqDeleteProxy uris c)))"
| "read_request_of P SvcSubscribeProxyData = rbind (read_strings P) (\<lambda>uris. rbind (pc_read_remote P) (\<lambda>r. rret (ReqSubscribeProxy uris r)))"
| "read_request_of P SvcUnsubscribeProxyData = rbind (read_strings P) (\<lambda>uris. rret (ReqUnsubscribeProxy uris))"
| "read_request_of P _ = rfail ReadNone"

text \<open>The commands in the order of the interface header, which numbers them from 0.\<close>

definition service_commands :: "service_cmd list" where
  "service_commands = [SvcQuery, SvcAddTemplate, SvcDelTemplate, SvcPublish, SvcGetData, SvcSubscribeRdb, SvcUnsubscribeRdb,
     SvcEnableSubscribeRdb, SvcDisableSubscribeRdb, SvcSubscribePublished, SvcUnsubscribePublished, SvcEnableSubscribePublished,
     SvcDisableSubscribePublished, SvcNotify, SvcNotifyObservers, SvcSetSilentSwitch, SvcGetSilentProxyStatus, SvcRegisterObserver,
     SvcUnregisterObserver, SvcInsertEx, SvcDeleteEx, SvcUpdateEx, SvcProxyPublish, SvcProxyDelete, SvcProxyGet, SvcSubscribeProxyData,
     SvcUnsubscribeProxyData, SvcGetConnectionInterfaceInfo]"

definition command_of :: "u32 \<Rightarrow> service_cmd option" where
  "command_of code =
     (let n = unat code; k = (if n < 100 then n else n - 100)
      in if k < length service_commands then Some (service_commands ! k) else None)"

definition read_request :: "('a, 'r) parcel_api \<Rightarrow> u32 \<Rightarrow> 'r service_request reader" where
  "read_request P code = (case command_of code of Some cmd \<Rightarrow> read_request_of P cmd | None \<Rightarrow> rfail ReadNone)"

definition write_reply :: "('a, 'r) parcel_api \<Rightarrow> 'r service \<Rightarrow> 'r service_request \<Rightarrow> writer" where
  "write_reply P srv req =
     (case req of
        ReqInsert _ _ _ \<Rightarrow> write_pair P (srv_pair srv req)
      | ReqUpdate _ _ _ _ \<Rightarrow> write_pair P (srv_pair srv req)
      | ReqDelete _ _ _ \<Rightarrow> write_pair P (srv_pair srv req)
      | ReqRdb _ _ _ _ \<Rightarrow> write_vec P (serialize_operation_result P) (srv_results srv req)
      | ReqSubscribeRdb _ _ _ _ _ \<Rightarrow> write_vec P (serialize_operation_result P) (srv_results srv req)
      | ReqPublished _ _ _ \<Rightarrow> write_vec P (serialize_operation_result P) (srv_results srv req)
      | ReqSubscribePublished _ _ _ \<Rightarrow> write_vec P (serialize_operation_result P) (srv_results srv req)
      | ReqDeleteProxy _ _ \<Rightarrow> write_vec P (serialize_proxy_result P) (srv_proxy_results srv req)
      | ReqSubscribeProxy _ _ \<Rightarrow> write_vec P (serialize_proxy_result P) (srv_proxy_results srv req)
      | ReqUnsubscribeProxy _ \<Rightarrow> write_vec P (serialize_proxy_result P) (srv_proxy_results srv req)
      | _ \<Rightarrow> pc_write_i32 P (srv_code srv req))"

definition service_end :: "('a, 'r) parcel_api \<Rightarrow> 'r service \<Rightarrow> u32 \<Rightarrow> bytes \<Rightarrow> bytes option" where
  "service_end P srv code =
     serve P (read_request P code) (\<lambda>code token req. if token = ''OHOS.DataShare.IDataShareService'' then Some req else None)
       (\<lambda>answered. case answered of None \<Rightarrow> (\<lambda>buf. None) | Some req \<Rightarrow> write_reply P srv req) code"

text \<open>A channel to such a service, and the texts its answers consist of.\<close>

definition service_ok :: "('a, 'r) service_channel \<Rightarrow> 'r service \<Rightarrow> bool" where
  "service_ok X srv \<longleftrightarrow> parcel_ok (ch_api X) \<and> ch_send X = service_end (ch_api X) srv
     \<and> (\<forall>req. vec_ok (\<lambda>r. pc_text (ch_api X) (or_key r)) (srv_results srv req))
     \<and> (\<forall>req. vec_ok (\<lambda>r. pc_text (ch_api X) (pr_uri r)) (srv_proxy_results srv req))"

text \<open>The messages of the requests that change data.\<close>

definition insert_message :: "('a, 'r) parcel_api \<Rightarrow> string \<Rightarrow> string \<Rightarrow> data_share_values_bucket \<Rightarrow> writer" where
  "insert_message P uri ext_uri v = wseq (pc_write_string P uri) (wseq (pc_write_string P ext_uri) (serialize_bucket P v))"

definition update_message :: "('a, 'r) parcel_api \<Rightarrow> string \<Rightarrow> string \<Rightarrow> data_share_predicates \<Rightarrow> data_share_values_bucket \<Rightarrow> writer" where
  "update_message P uri ext_uri p v =
     wseq (pc_write_string P uri) (wseq (pc_write_string P ext_uri) (wseq (serialize_predicates P p) (serialize_bucket P v)))"

definition delete_message :: "('a, 'r) parcel_api \<Rightarrow> string \<Rightarrow> string \<Rightarrow> data_share_predicates \<Rightarrow> writer" where
  "delete_message P uri ext_uri p = wseq (pc_write_string P uri) (wseq (pc_write_string P ext_uri) (serialize_predicates P p))"

definition template_message :: "('a, 'r) parcel_api \<Rightarrow> string \<Rightarrow> i64 \<Rightarrow> template \<Rightarrow> writer" where
  "template_message P uri i tpl = wseq (pc_write_string P uri) (wseq (pc_write_i64 P i) (serialize_template P tpl))"

text \<open>What a call returns: the value \<open>y\<close> where the request \<open>w\<close> and its reply fit into their parcels, and \<open>d\<close> where one of them does not.\<close>

definition service_outcome :: "('a, 'r) parcel_api \<Rightarrow> 'r service \<Rightarrow> writer \<Rightarrow> 'r service_request \<Rightarrow> 'y \<Rightarrow> 'y \<Rightarrow> 'y" where
  "service_outcome P srv w req y d =
     (if wseq (pc_write_token P SERVICE_DESCRIPTOR) w [] = None \<or> write_reply P srv req [] = None then d else y)"

section \<open>Codes\<close>

lemma command_of_cast [simp]: "command_of (cast_ipc_code is_system cmd) = Some cmd"
  by (cases cmd; cases is_system)
    (simp_all add: command_of_def service_commands_def cast_ipc_code_def SYSTEM_CODE_OFFSET_def unat_word_ariths)

lemma command_of_code [simp]: "command_of (service_cmd_code cmd) = Some cmd"
  using command_of_cast [of False cmd] by (simp add: cast_ipc_code_def)

lemma read_request_code [simp]:
  "read_request P (cast_ipc_code is_system cmd) = read_request_of P cmd" "read_request P (service_cmd_code cmd) = read_request_of P cmd"
  by (simp_all add: read_request_def)

section \<open>A call\<close>

lemma exchanged:
  assumes srv: "service_ok X srv" and code: "command_of code = Some cmd" and t: "transfers w (read_request_of (ch_api X) cmd) req"
    and f: "\<And>reply. write_reply (ch_api X) srv req [] = Some reply \<Longrightarrow> f reply = y"
  shows "exchange (ch_api X) SERVICE_DESCRIPTOR w (ch_send X) code d d f = service_outcome (ch_api X) srv w req y d"
proof -
  let ?P = "ch_api X"
  have ok: "parcel_ok ?P" and send: "ch_send X = service_end ?P srv" using srv by (simp_all add: service_ok_def)
  have rd: "transfers w (read_request ?P code) req" using t by (simp add: read_request_def code)
  have "exchange ?P SERVICE_DESCRIPTOR w (serve ?P (read_request ?P code)
        (\<lambda>code token req. if token = ''OHOS.DataShare.IDataShareService'' then Some req else None)
       (\<lambda>answered. case answered of None \<Rightarrow> (\<lambda>buf. None) | Some req \<Rightarrow> write_reply ?P srv req)) code d d f =
      service_outcome ?P srv w req y d"
    by (subst parcel.exchange_served [OF parcel.intro [OF ok(1)] rd, where y = y])
      (use f in \<open>simp_all add: SERVICE_DESCRIPTOR_def service_outcome_def\<close>)
  then show ?thesis unfolding exchange_def send service_end_def .
qed

lemma sent:
  assumes "service_ok X srv" "transfers w (read_request_of (ch_api X) cmd) req"
    and "\<And>reply. write_reply (ch_api X) srv req [] = Some reply \<Longrightarrow> f reply = y"
  shows "sp_send X cmd w d d f = service_outcome (ch_api X) srv w req y d"
    "sp_send_direct X cmd w d d f = service_outcome (ch_api X) srv w req y d"
  using exchanged [OF assms(1) _ assms(2,3)] by (simp_all add: sp_send_def sp_send_direct_def)

lemma operation_results_read:
  assumes "service_ok X srv" and "write_vec (ch_api X) (serialize_operation_result (ch_api X)) (srv_results srv req) [] = Some reply"
  shows "read_operation_results X reply = srv_results srv req"
proof -
  have ok: "parcel_ok (ch_api X)" and v: "vec_ok (\<lambda>r. pc_text (ch_api X) (or_key r)) (srv_results srv req)"
    using assms(1) by (simp_all add: service_ok_def)
  show ?thesis
    using reply_list_written [OF ok v _ assms(2), where f = "\<lambda>r. r"] parcel.operation_result_transfers [OF parcel.intro [OF ok]]
    by (simp add: read_operation_results_def)
qed

lemma proxy_results_read:
  assumes "service_ok X srv" and "write_vec (ch_api X) (serialize_proxy_result (ch_api X)) (srv_proxy_results srv req) [] = Some reply"
  shows "read_proxy_results X reply = srv_proxy_results srv req"
proof -
  have ok: "parcel_ok (ch_api X)" and v: "vec_ok (\<lambda>r. pc_text (ch_api X) (pr_uri r)) (srv_proxy_results srv req)"
    using assms(1) by (simp_all add: service_ok_def)
  show ?thesis
    using reply_list_written [OF ok v _ assms(2), where f = "\<lambda>r. r"] parcel.proxy_result_transfers [OF parcel.intro [OF ok]]
    by (simp add: read_proxy_results_def)
qed

text \<open>A channel to a service, for the proofs about its methods.\<close>

locale served =
  fixes X :: "('a, 'r) service_channel" and srv :: "'r service"
  assumes served: "service_ok X srv"
begin

abbreviation "P \<equiv> ch_api X"

lemma api: "parcel_ok P"
  using served by (simp_all add: service_ok_def)

lemmas carried = parcel.steps [OF parcel.intro [OF api]] parcel.template_transfers [OF parcel.intro [OF api]]
  parcel.proxy_config_transfers [OF parcel.intro [OF api]] parcel.strings_transfer [OF parcel.intro [OF api]]

lemma replies:
  "pc_write_i32 P i [] = Some reply \<Longrightarrow> reply_i32 X d reply = i" "write_pair P p [] = Some reply \<Longrightarrow> reply_pair X d reply = p"
  "write_vec P (serialize_operation_result P) (srv_results srv req) [] = Some reply \<Longrightarrow> read_operation_results X reply = srv_results srv req"
  "write_vec P (serialize_proxy_result P) (srv_proxy_results srv req) [] = Some reply \<Longrightarrow> read_proxy_results X reply = srv_proxy_results srv req"
  using reply_i32_written [OF api] reply_pair_written [OF api] operation_results_read [OF served] proxy_results_read [OF served] by blast+

abbreviation "out \<equiv> service_outcome P srv"

lemmas codes = INVALID_VALUE_def DATA_SHARE_ERROR_def

lemma insert_call:
  assumes "pc_text P uri" "pc_text P ext_uri" "parcel_bucket_ok P v"
  shows "sp_insert_ex X uri ext_uri v =
    out (insert_message P uri ext_uri v) (ReqInsert uri ext_uri v) (srv_pair srv (ReqInsert uri ext_uri v)) (- 1, 0)"
  unfolding sp_insert_ex_def Let_def insert_message_def codes
  by (rule sent [OF served]) (auto simp: write_reply_def replies assms intro!: carried)

lemma update_call:
  assumes "pc_text P uri" "pc_text P ext_uri" "parcel_predicates_ok P p" "parcel_bucket_ok P v"
  shows "sp_update_ex X uri ext_uri p v =
    (let req = ReqUpdate uri ext_uri (parcel_predicates_norm p) v in out (update_message P uri ext_uri p v) req (srv_pair srv req) (- 1, 0))"
  unfolding sp_update_ex_def Let_def update_message_def codes
  by (rule sent [OF served]) (auto simp: write_reply_def replies assms intro!: carried)

lemma delete_call:
  assumes "pc_text P uri" "pc_text P ext_uri" "parcel_predicates_ok P p"
  shows "sp_delete_ex X uri ext_uri p =
    (let req = ReqDelete uri ext_uri (parcel_predicates_norm p) in out (delete_message P uri ext_uri p) req (srv_pair srv req) (- 1, 0))"
  unfolding sp_delete_ex_def Let_def delete_message_def codes
  by (rule sent [OF served]) (auto simp: write_reply_def replies assms intro!: carried)

lemma code_call:
  assumes "transfers w (read_request_of P cmd) req" "write_reply P srv req = pc_write_i32 P (srv_code srv req)"
  shows "sp_send X cmd w (- 1) (- 1) (reply_i32 X (- 1)) = out w req (srv_code srv req) (- 1)"
    "sp_send_direct X cmd w (- 1) (- 1) (reply_i32 X (- 1)) = out w req (srv_code srv req) (- 1)"
  by (rule sent [OF served assms(1)]; simp add: assms(2) replies)+

lemma template_calls:
  assumes "pc_text P uri"
  shows "template_carried P tpl \<Longrightarrow>
      sp_add_query_template X uri i tpl =
        (if tpl_update tpl \<noteq> [] \<and> \<not> starts_with (map ascii_upper (tpl_update tpl)) ''UPDATE'' then - 1
         else out (template_message P uri i tpl) (ReqAddTemplate uri i tpl) (srv_code srv (ReqAddTemplate uri i tpl)) (- 1))"
    and "sp_del_query_template X uri i =
      out (wseq (pc_write_string P uri) (pc_write_i64 P i)) (ReqDelTemplate uri i) (srv_code srv (ReqDelTemplate uri i)) (- 1)"
proof -
  assume t: "template_carried P tpl"
  have "sp_add_query_template X uri i tpl =
      (if tpl_update tpl \<noteq> [] \<and> \<not> starts_with (map ascii_upper (tpl_update tpl)) ''UPDATE'' then - 1
       else sp_send X SvcAddTemplate (template_message P uri i tpl) (- 1) (- 1) (reply_i32 X (- 1)))"
    by (simp add: sp_add_query_template_def template_message_def serialize_template_def codes Let_def)
  moreover have "sp_send X SvcAddTemplate (template_message P uri i tpl) (- 1) (- 1) (reply_i32 X (- 1)) =
      out (template_message P uri i tpl) (ReqAddTemplate uri i tpl) (srv_code srv (ReqAddTemplate uri i tpl)) (- 1)"
    by (rule code_call) (auto simp: template_message_def write_reply_def assms t intro!: carried)
  ultimately show "sp_add_query_template X uri i tpl =
        (if tpl_update tpl \<noteq> [] \<and> \<not> starts_with (map ascii_upper (tpl_update tpl)) ''UPDATE'' then - 1
         else out (template_message P uri i tpl) (ReqAddTemplate uri i tpl) (srv_code srv (ReqAddTemplate uri i tpl)) (- 1))"
    by simp
next
  show "sp_del_query_template X uri i =
      out (wseq (pc_write_string P uri) (pc_write_i64 P i)) (ReqDelTemplate uri i) (srv_code srv (ReqDelTemplate uri i)) (- 1)"
    unfolding sp_del_query_template_def Let_def codes
    by (rule code_call) (auto simp: write_reply_def assms intro!: carried)
qed

lemma results_answer:
  assumes "transfers w (read_request_of P cmd) req" and "write_reply P srv req = write_vec P (serialize_operation_result P) (srv_results srv req)"
  shows "sp_send X cmd w [] [] (read_operation_results X) = out w req (srv_results srv req) []"
  by (rule sent [OF served assms(1)]) (simp add: assms(2) replies)

lemma rdb_header:
  assumes "vec_ok (pc_text P) uris" "pc_text P b"
  shows "transfers (write_subscription_header P uris i b) (read_rdb P cmd) (ReqRdb cmd uris i b)"
  unfolding write_subscription_header_def read_rdb_def read_strings_def by (auto simp: assms intro!: carried)

lemma published_header:
  assumes "vec_ok (pc_text P) uris"
  shows "transfers (write_published_sub_header P uris i) (read_published P cmd) (ReqPublished cmd uris i)"
  unfolding write_published_sub_header_def read_published_def read_strings_def by (auto simp: assms intro!: carried)

lemma rdb_calls:
  assumes "vec_ok (pc_text P) uris" "pc_text P b"
  shows "sp_unsubscribe_rdb_data X uris i b = (let req = ReqRdb SvcUnsubscribeRdb uris i b in
      out (write_subscription_header P uris i b) req (srv_results srv req) [])"
    and "sp_enable_subscribe_rdb_data X uris i b = (let req = ReqRdb SvcEnableSubscribeRdb uris i b in
      out (write_subscription_header P uris i b) req (srv_results srv req) [])"
    and "sp_disable_subscribe_rdb_data X uris i b = (let req = ReqRdb SvcDisableSubscribeRdb uris i b in
      out (write_subscription_header P uris i b) req (srv_results srv req) [])"
  unfolding sp_unsubscribe_rdb_data_def sp_enable_subscribe_rdb_data_def sp_disable_subscribe_rdb_data_def Let_def
  by (rule results_answer; simp add: rdb_header [OF assms] write_reply_def)+

lemma published_calls:
  assumes "vec_ok (pc_text P) uris"
  shows "sp_unsubscribe_published_data X uris i = (let req = ReqPublished SvcUnsubscribePublished uris i in
      out (write_published_sub_header P uris i) req (srv_results srv req) [])"
    and "sp_enable_subscribe_published_data X uris i = (let req = ReqPublished SvcEnableSubscribePublished uris i in
      out (write_published_sub_header P uris i) req (srv_results srv req) [])"
    and "sp_disable_subscribe_published_data X uris i = (let req = ReqPublished SvcDisableSubscribePublished uris i in
      out (write_published_sub_header P uris i) req (srv_results srv req) [])"
  unfolding sp_unsubscribe_published_data_def sp_enable_subscribe_published_data_def sp_disable_subscribe_published_data_def Let_def
  by (rule results_answer; simp add: published_header [OF assms] write_reply_def)+

lemma subscribe_calls:
  assumes "vec_ok (pc_text P) uris"
  shows "pc_text P b \<Longrightarrow> sp_subscribe_rdb_data X uris i b obs = (let req = ReqSubscribeRdb uris i b 0 obs in
      out (wseq (write_subscription_header P uris i b) (wseq (pc_write_i32 P 0) (pc_write_remote P obs))) req (srv_results srv req) [])"
    and "sp_subscribe_published_data X uris i obs = (let req = ReqSubscribePublished uris i obs in
      out (wseq (write_published_sub_header P uris i) (pc_write_remote P obs)) req (srv_results srv req) [])"
  unfolding sp_subscribe_rdb_data_def sp_subscribe_published_data_def Let_def write_subscription_header_def write_published_sub_header_def wseq_assoc
  by (rule results_answer; auto simp: write_reply_def assms read_strings_def intro!: carried)+

lemma observer_calls:
  assumes "pc_text P uri"
  shows "sp_register_observer X uri obs = (let req = ReqObserver SvcRegisterObserver uri obs in
      out (wseq (pc_write_string P uri) (pc_write_remote P obs)) req (srv_code srv req) (- 1))"
    and "sp_unregister_observer X uri obs = (let req = ReqObserver SvcUnregisterObserver uri obs in
      out (wseq (pc_write_string P uri) (pc_write_remote P obs)) req (srv_code srv req) (- 1))"
proof -
  have t: "transfers (wseq (pc_write_string P uri) (pc_write_remote P obs)) (read_observer P cmd) (ReqObserver cmd uri obs)" for cmd
    unfolding read_observer_def by (auto simp: assms intro!: carried)
  show "sp_register_observer X uri obs = (let req = ReqObserver SvcRegisterObserver uri obs in
      out (wseq (pc_write_string P uri) (pc_write_remote P obs)) req (srv_code srv req) (- 1))"
    "sp_unregister_observer X uri obs = (let req = ReqObserver SvcUnregisterObserver uri obs in
      out (wseq (pc_write_string P uri) (pc_write_remote P obs)) req (srv_code srv req) (- 1))"
    unfolding sp_register_observer_def sp_unregister_observer_def Let_def codes
    by (rule code_call; simp add: t write_reply_def)+
qed

lemma switch_calls:
  assumes "pc_text P uri"
  shows "sp_set_silent_switch X uri enable = (let req = ReqSetSwitch uri enable in
      out (wseq (pc_write_string P uri) (pc_write_bool P enable)) req (srv_code srv req) (- 1))"
    and "sp_get_silent_proxy_status X uri = (let req = ReqGetStatus uri in out (pc_write_string P uri) req (srv_code srv req) (- 1))"
  unfolding sp_set_silent_switch_def sp_get_silent_proxy_status_def Let_def codes
  by (rule code_call; auto simp: write_reply_def assms intro!: carried)+

lemma proxy_calls:
  assumes "vec_ok (pc_text P) uris"
  shows "sp_delete_proxy_data X uris config = (let req = ReqDeleteProxy uris config in
      out (wseq (write_vec P (pc_write_string P) uris) (serialize_proxy_config P config)) req (srv_proxy_results srv req)
        (make_error_results_from_uris uris))"
    and "sp_subscribe_proxy_data X uris obs = (let req = ReqSubscribeProxy uris obs in
      out (wseq (write_vec P (pc_write_string P) uris) (pc_write_remote P obs)) req (srv_proxy_results srv req) (make_error_results_from_uris uris))"
    and "sp_unsubscribe_proxy_data X uris = (let req = ReqUnsubscribeProxy uris in
      out (write_vec P (pc_write_string P) uris) req (srv_proxy_results srv req) (make_error_results_from_uris uris))"
  unfolding sp_delete_proxy_data_def sp_subscribe_proxy_data_def sp_unsubscribe_proxy_data_def Let_def
  by (rule sent(2) [OF served]; auto simp: write_reply_def replies read_strings_def assms intro!: carried)+

end

section \<open>Properties\<close>

text \<open>
  C30: Over a service that decodes requests and encodes answers in the format of the repository, every change of data is the function the
  service computes, on the arguments as the parcel carries them (buckets unchanged, predicates up to their normal form in the parcel, which is
  the identity on plain ones): the extended variants return its pair, the plain ones its status exactly when the error code is 0,
  a negative error code as it is and -1 for a positive one; templates and the silent switch return its code. A template whose update is
  neither empty nor begins with UPDATE is refused with -1 and not sent. Where a parcel refuses the request or the reply, and nowhere else, the call
  returns -1, with result 0 in the extended variants. Whether the caller is a system application changes the codes and not the result.
\<close>

theorem service_calls_refine:
  assumes srv: "service_ok X srv" and texts: "pc_text (ch_api X) uri" "pc_text (ch_api X) ext_uri"
    and ok: "parcel_bucket_ok (ch_api X) v" "parcel_predicates_ok (ch_api X) p" "template_carried (ch_api X) tpl"
  shows "let P = ch_api X; q = parcel_predicates_norm p; Y = set_system system X;
        answer = (\<lambda>pair. if fst pair = 0 then snd pair else if fst pair <s 0 then fst pair else - 1);
        pair = (\<lambda>w req. service_outcome P srv w req (srv_pair srv req) (- 1, 0));
        code = (\<lambda>w req. service_outcome P srv w req (srv_code srv req) (- 1)) in
      sp_insert_ex Y uri ext_uri v = pair (insert_message P uri ext_uri v) (ReqInsert uri ext_uri v)
      \<and> sp_update_ex Y uri ext_uri p v = pair (update_message P uri ext_uri p v) (ReqUpdate uri ext_uri q v)
      \<and> sp_delete_ex Y uri ext_uri p = pair (delete_message P uri ext_uri p) (ReqDelete uri ext_uri q)
      \<and> sp_insert Y uri ext_uri v = answer (pair (insert_message P uri ext_uri v) (ReqInsert uri ext_uri v))
      \<and> sp_update Y uri ext_uri p v = answer (pair (update_message P uri ext_uri p v) (ReqUpdate uri ext_uri q v))
      \<and> sp_delete Y uri ext_uri p = answer (pair (delete_message P uri ext_uri p) (ReqDelete uri ext_uri q))
      \<and> sp_add_query_template Y uri i tpl =
          (if tpl_update tpl \<noteq> [] \<and> \<not> starts_with (map ascii_upper (tpl_update tpl)) ''UPDATE'' then - 1
           else code (template_message P uri i tpl) (ReqAddTemplate uri i tpl))
      \<and> sp_del_query_template Y uri i = code (wseq (pc_write_string P uri) (pc_write_i64 P i)) (ReqDelTemplate uri i)
      \<and> sp_set_silent_switch Y uri enable = code (wseq (pc_write_string P uri) (pc_write_bool P enable)) (ReqSetSwitch uri enable)
      \<and> sp_get_silent_proxy_status Y uri = code (pc_write_string P uri) (ReqGetStatus uri)"
proof -
  have y: "served (set_system s X) srv" for s using srv by (simp add: served_def service_ok_def set_system_def)
  have api: "ch_api (set_system s X) = ch_api X" for s by (simp add: set_system_def)
  show ?thesis
    using texts ok
    by (simp add: Let_def served.insert_call [OF y] served.update_call [OF y] served.delete_call [OF y] served.template_calls [OF y]
        served.switch_calls [OF y] api sp_insert_def sp_update_def sp_delete_def code_or_status_def DATA_SHARE_ERROR_def split_def)
qed

definition example_service :: "u64 service" where
  "example_service = \<lparr>srv_pair = (\<lambda>req. case req of ReqInsert _ _ _ \<Rightarrow> (0, 7) | _ \<Rightarrow> (5, 7)), srv_code = (\<lambda>_. 3),
     srv_results = (\<lambda>req. [\<lparr>or_key = ''k'', or_err_code = 0\<rparr>]), srv_proxy_results = (\<lambda>_. [data_proxy_result_new ''p'' NoPermission])\<rparr>"

definition example_channel :: "(bytes, u64) service_channel" where
  "example_channel = \<lparr>ch_api = plain_parcel, ch_send = service_end plain_parcel example_service, ch_left = (\<lambda>bs. bs), sx_raw = write_all, sx_system = False\<rparr>"

lemma example_channel_ok: "service_ok example_channel example_service" "ch_api example_channel = plain_parcel"
  by (simp_all add: service_ok_def example_channel_def example_service_def plain_parcel_ok vec_ok_def plain_text)

interpretation ex_service: served example_channel example_service
  by unfold_locales (rule example_channel_ok(1))

text \<open>Nothing is refused by the parcel of the examples.\<close>

lemma outcome_open: "parcel_accepts P \<Longrightarrow> accepts w \<Longrightarrow> service_outcome P srv w req y d = y"
proof -
  assume a: "parcel_accepts P" "accepts w"
  note o = open_parcel.intro [OF a(1)]
  note [simp] = open_parcel.prims_accept [OF o] open_parcel.types_accept [OF o]
  have "accepts (write_reply P srv req)" by (cases req) (auto simp: write_reply_def write_pair_def intro!: accepts_intros)
  moreover have "accepts (wseq (pc_write_token P SERVICE_DESCRIPTOR) w)" using a by (auto intro!: accepts_intros)
  ultimately have "write_reply P srv req [] \<noteq> None" "wseq (pc_write_token P SERVICE_DESCRIPTOR) w [] \<noteq> None"
    unfolding accepts_def by blast+
  then show ?thesis by (auto simp: service_outcome_def)
qed

lemma messages_open: "accepts (insert_message plain_parcel uri ext v)" "accepts (delete_message plain_parcel uri ext p)"
  unfolding insert_message_def delete_message_def
  by (intro accepts_intros plain.prims_accept plain.values_accept plain.predicates_accept)+

theorem service_calls_refine_witness:
  "sp_insert (set_system True example_channel) ''u'' ''e'' sample_bucket = 7 \<and> sp_delete (set_system True example_channel) ''u'' ''e'' sample_predicates = - 1"
proof -
  have t: "template_carried plain_parcel \<lparr>tpl_update = ''Update t'', tpl_predicates = [], tpl_scheduler = []\<rparr>"
    by (simp add: template_carried_def plain_text vec_ok_def)
  show ?thesis
    using service_calls_refine [OF example_channel_ok(1), unfolded example_channel_ok(2), OF plain_text plain_text sample_bucket_parcel
      sample_predicates_parcel(1) t, of True "''u''" "''e''" 0 False]
    by (simp add: Let_def outcome_open [OF plain_parcel_accepts] messages_open) (simp add: example_service_def word_sless_alt)
qed

text \<open>
  Over such a service, every subscription to relational data, to published data and to proxy data, its removal, enabling and
  disabling, and the registration of an observer hand the very URIs, identifiers and observer to the service and return the list of results it
  answered, in order and in full; an empty list, an inner error for every URI, or -1 where a parcel refuses the request or the reply.
\<close>

theorem service_subscriptions_refine:
  assumes "service_ok X srv" and "vec_ok (pc_text (ch_api X)) uris" "pc_text (ch_api X) b" "pc_text (ch_api X) uri"
  shows "let P = ch_api X; results = (\<lambda>w req. service_outcome P srv w req (srv_results srv req) []);
        code = (\<lambda>w req. service_outcome P srv w req (srv_code srv req) (- 1));
        proxy = (\<lambda>w req. service_outcome P srv w req (srv_proxy_results srv req) (make_error_results_from_uris uris));
        rdb = write_subscription_header P uris i b; pub = write_published_sub_header P uris i; observer = pc_write_remote P obs;
        strings = write_vec P (pc_write_string P) uris in
      sp_subscribe_rdb_data X uris i b obs = results (wseq rdb (wseq (pc_write_i32 P 0) observer)) (ReqSubscribeRdb uris i b 0 obs)
    \<and> sp_unsubscribe_rdb_data X uris i b = results rdb (ReqRdb SvcUnsubscribeRdb uris i b)
    \<and> sp_enable_subscribe_rdb_data X uris i b = results rdb (ReqRdb SvcEnableSubscribeRdb uris i b)
    \<and> sp_disable_subscribe_rdb_data X uris i b = results rdb (ReqRdb SvcDisableSubscribeRdb uris i b)
    \<and> sp_subscribe_published_data X uris i obs = results (wseq pub observer) (ReqSubscribePublished uris i obs)
    \<and> sp_unsubscribe_published_data X uris i = results pub (ReqPublished SvcUnsubscribePublished uris i)
    \<and> sp_enable_subscribe_published_data X uris i = results pub (ReqPublished SvcEnableSubscribePublished uris i)
    \<and> sp_disable_subscribe_published_data X uris i = results pub (ReqPublished SvcDisableSubscribePublished uris i)
    \<and> sp_register_observer X uri obs = code (wseq (pc_write_string P uri) observer) (ReqObserver SvcRegisterObserver uri obs)
    \<and> sp_unregister_observer X uri obs = code (wseq (pc_write_string P uri) observer) (ReqObserver SvcUnregisterObserver uri obs)
    \<and> sp_delete_proxy_data X uris config = proxy (wseq strings (serialize_proxy_config P config)) (ReqDeleteProxy uris config)
    \<and> sp_subscribe_proxy_data X uris obs = proxy (wseq strings observer) (ReqSubscribeProxy uris obs)
    \<and> sp_unsubscribe_proxy_data X uris = proxy strings (ReqUnsubscribeProxy uris)"
  using assms(2-4)
  by (simp add: Let_def served.rdb_calls [OF served.intro [OF assms(1)]] served.published_calls [OF served.intro [OF assms(1)]]
    served.subscribe_calls [OF served.intro [OF assms(1)]] served.observer_calls [OF served.intro [OF assms(1)]]
    served.proxy_calls [OF served.intro [OF assms(1)]])

theorem service_subscriptions_refine_witness:
  "sp_unsubscribe_proxy_data example_channel [''u''] = [data_proxy_result_new ''p'' NoPermission]"
proof -
  have "accepts (write_vec plain_parcel (pc_write_string plain_parcel) [''u''])" by (intro accepts_intros plain.prims_accept)
  then show ?thesis
    using service_subscriptions_refine [OF example_channel_ok(1), of "[''u'']" "''b''" "''u''" 4 9 data_proxy_config_default]
    by (simp add: example_channel_ok(2) plain_text vec_ok_def Let_def outcome_open [OF plain_parcel_accepts]) (simp add: example_service_def)
qed

text \<open>
  A service that answers nothing. Changes of data return -1, the extended ones with result 0, queries return no reply and set the
  error to -1 or leave it, subscriptions and publications of data return an empty list, so that a caller cannot tell
  them from a service with nothing to say, and the operations on proxy data return an inner error for every URI, in order.
\<close>

theorem dead_service_answers:
  "let Y = X\<lparr>ch_send := \<lambda>_ _. None\<rparr> in
     sp_insert_ex Y uri ext v = (- 1, 0) \<and> sp_update_ex Y uri ext p v = (- 1, 0) \<and> sp_delete_ex Y uri ext p = (- 1, 0)
     \<and> sp_insert Y uri ext v = - 1 \<and> sp_update Y uri ext p v = - 1 \<and> sp_delete Y uri ext p = - 1
     \<and> fst (sp_query Y uri ext p columns be) = None \<and> snd (sp_query Y uri ext p columns be) \<in> {be, set_code (- 1) be}
     \<and> sp_add_query_template Y uri i tpl = - 1 \<and> sp_del_query_template Y uri i = - 1
     \<and> sp_subscribe_rdb_data Y uris i b obs = [] \<and> sp_unsubscribe_rdb_data Y uris i b = []
     \<and> sp_subscribe_published_data Y uris i obs = [] \<and> sp_unsubscribe_published_data Y uris i = [] \<and> sp_publish Y d b = []
     \<and> sp_get_published_data Y b = (published_data_default, - 1)
     \<and> sp_register_observer Y uri obs = - 1 \<and> sp_get_connection_interface_info Y sa wait = None
     \<and> sp_subscribe_proxy_data Y uris obs = make_error_results_from_uris uris
     \<and> map pr_uri (sp_subscribe_proxy_data Y uris obs) = uris \<and> list_all (\<lambda>r. pr_result r = InnerError) (sp_subscribe_proxy_data Y uris obs)
     \<and> map pr_uri (sp_publish_proxy_data Y items config) = map pd_uri items
     \<and> list_all (\<lambda>r. pr_result r = InnerError) (sp_publish_proxy_data Y items config)
     \<and> map_option (map pg_uri) (sp_get_proxy_data Y avail item_size uris config) = Some uris"
  by (simp add: Let_def sp_send_def sp_send_direct_def exchange_dead DATA_SHARE_ERROR_def INVALID_VALUE_def code_or_status_def word_sless_alt
      sp_insert_ex_def sp_update_ex_def sp_delete_ex_def sp_insert_def sp_update_def sp_delete_def sp_query_def sp_add_query_template_def
      sp_del_query_template_def sp_subscribe_rdb_data_def sp_unsubscribe_rdb_data_def sp_subscribe_published_data_def
      sp_unsubscribe_published_data_def sp_publish_def sp_get_published_data_def sp_register_observer_def
      sp_get_connection_interface_info_def sp_subscribe_proxy_data_def sp_publish_proxy_data_def sp_get_proxy_data_def
      make_error_results_from_uris_def make_error_results_from_proxy_data_def make_error_get_results_from_uris_def data_proxy_result_new_def
      comp_def list_all_iff split: option.split)

end
