(* ===== verification/Datashare_Proxy.thy ===== *)
theory Datashare_Proxy
  imports Provider_Controller Marshalling Parcel_Types Remote_Call
begin

text \<open>
  \<open>proxy/datashare_proxy.rs\<close>: the client side of an extension. A request is written to a parcel with a capped capacity, so
  every method can fail before it sends anything; predicates and buckets travel through the parcel, except for queries and batch
  insertions, which carry the binary image of \<open>itypes_utils.rs\<close> as raw data. The properties read a whole call: over an extension that decodes
  what was encoded, a method whose request fits is the function the extension computes.
\<close>

section \<open>Requests\<close>

definition MTU_SIZE :: usize where "MTU_SIZE = 921600"
definition MAX_SIZE :: nat where "MAX_SIZE = 4000"
definition DESCRIPTOR :: string where "DESCRIPTOR = ''OHOS.DataShare.IDataShare''"

text \<open>
  \<open>ex_capped\<close> is the parcel after \<open>set_max_capacity\<close>, which can be refused; \<open>ex_status\<close> the code of the error of a
  request that failed; \<open>ex_read_fd\<close> the file descriptor of a reply.
\<close>

record ('a, 'r) extension_channel = "('a, 'r) channel" +
  ex_capped :: "usize \<Rightarrow> ('a, 'r) parcel_api option"
  ex_status :: "u32 \<Rightarrow> bytes \<Rightarrow> i32"
  ex_read_fd :: "bytes \<Rightarrow> i32"

definition dp_create_request :: "('a, 'r) extension_channel \<Rightarrow> (('a, 'r) parcel_api \<times> bytes) option" where
  "dp_create_request X =
     (case ex_capped X MTU_SIZE of
        None \<Rightarrow> None
      | Some Q \<Rightarrow> map_option (Pair Q) (pc_write_token Q DESCRIPTOR []))"

text \<open>The request of a method, \<open>w\<close> being what it writes.\<close>

definition dp_request :: "('a, 'r) extension_channel \<Rightarrow> (('a, 'r) parcel_api \<Rightarrow> writer) \<Rightarrow> bytes option" where
  "dp_request X w = (case dp_create_request X of None \<Rightarrow> None | Some (Q, data) \<Rightarrow> w Q data)"

definition dp_call :: "('a, 'r) extension_channel \<Rightarrow> data_share_cmd \<Rightarrow> (('a, 'r) parcel_api \<Rightarrow> writer) \<Rightarrow> 'y \<Rightarrow> (bytes \<Rightarrow> 'y) \<Rightarrow> 'y" where
  "dp_call X cmd w d f =
     (case dp_request X w of
        None \<Rightarrow> d
      | Some data \<Rightarrow> (case ch_send X (data_share_cmd_code cmd) data of None \<Rightarrow> d | Some reply \<Rightarrow> f reply))"

definition write_uri :: "string \<Rightarrow> ('a, 'r) parcel_api \<Rightarrow> writer" where
  "write_uri uri Q = wseq (pc_write_i32 Q 1) (pc_write_string16 Q uri)"

definition read_uri :: "('a, 'r) extension_channel \<Rightarrow> bytes \<Rightarrow> string" where
  "read_uri X reply =
     (let (indicator, rest) = read_or (ch_left X) (pc_read_i32 (ch_api X)) 0 reply
      in if indicator = 0 then [] else fst (read_or (ch_left X) (pc_read_string16 (ch_api X)) [] rest))"

definition write_raw_blob :: "i32 \<Rightarrow> bytes \<Rightarrow> ('a, 'r) parcel_api \<Rightarrow> writer" where
  "write_raw_blob sz buf Q = wseq (pc_write_i32 Q sz) (wseq (pc_write_i32 Q sz) (pc_write_buffer Q buf))"

section \<open>Files\<close>

definition dp_get_file_types :: "('a, 'r) extension_channel \<Rightarrow> string \<Rightarrow> string \<Rightarrow> string list" where
  "dp_get_file_types X uri mime_type_filter =
     dp_call X CmdGetFileTypes (\<lambda>Q. wseq (write_uri uri Q) (pc_write_string Q mime_type_filter)) [] (reply_list X (pc_read_string (ch_api X)))"

definition open_file_inner :: "('a, 'r) extension_channel \<Rightarrow> string \<Rightarrow> string \<Rightarrow> u32 \<Rightarrow> i32 \<times> i32" where
  "open_file_inner X uri mode code =
     (case dp_request X (\<lambda>Q. wseq (write_uri uri Q) (pc_write_string Q mode)) of
        None \<Rightarrow> (INVALID_VALUE, 0)
      | Some data \<Rightarrow>
          (case ch_send X code data of
             Some reply \<Rightarrow> (ex_read_fd X reply, 0)
           | None \<Rightarrow> (INVALID_VALUE, ex_status X code data)))"

definition dp_open_file :: "('a, 'r) extension_channel \<Rightarrow> string \<Rightarrow> string \<Rightarrow> i32" where
  "dp_open_file X uri mode = fst (open_file_inner X uri mode (data_share_cmd_code CmdOpenFile))"

definition dp_open_file_with_err_code :: "('a, 'r) extension_channel \<Rightarrow> string \<Rightarrow> string \<Rightarrow> i32 \<times> i32" where
  "dp_open_file_with_err_code X uri mode = open_file_inner X uri mode (data_share_cmd_code CmdOpenFileWithErrCode)"

definition dp_open_raw_file :: "('a, 'r) extension_channel \<Rightarrow> string \<Rightarrow> string \<Rightarrow> i32" where
  "dp_open_raw_file X uri mode =
     dp_call X CmdOpenRawFile (\<lambda>Q. wseq (write_uri uri Q) (pc_write_string Q mode)) INVALID_VALUE (reply_i32 X INVALID_VALUE)"

section \<open>Inserting, updating, deleting\<close>

definition dp_insert :: "('a, 'r) extension_channel \<Rightarrow> string \<Rightarrow> data_share_values_bucket \<Rightarrow> i32" where
  "dp_insert X uri v = dp_call X CmdInsert (\<lambda>Q. wseq (write_uri uri Q) (serialize_bucket Q v)) INVALID_VALUE (reply_i32 X INVALID_VALUE)"

definition dp_insert_ext :: "('a, 'r) extension_channel \<Rightarrow> string \<Rightarrow> data_share_values_bucket \<Rightarrow> i32 \<times> string" where
  "dp_insert_ext X uri v =
     dp_call X CmdInsertExt (\<lambda>Q. wseq (write_uri uri Q) (serialize_bucket Q v)) (INVALID_VALUE, [])
       (\<lambda>reply. let (index, rest) = read_or (ch_left X) (pc_read_i32 (ch_api X)) INVALID_VALUE reply
                in (index, fst (read_or (ch_left X) (pc_read_string (ch_api X)) [] rest)))"

definition dp_update :: "('a, 'r) extension_channel \<Rightarrow> string \<Rightarrow> data_share_predicates \<Rightarrow> data_share_values_bucket \<Rightarrow> i32" where
  "dp_update X uri predicates v =
     dp_call X CmdUpdate (\<lambda>Q. wseq (write_uri uri Q) (wseq (serialize_predicates Q predicates) (serialize_bucket Q v)))
       INVALID_VALUE (reply_i32 X INVALID_VALUE)"

definition dp_delete :: "('a, 'r) extension_channel \<Rightarrow> string \<Rightarrow> data_share_predicates \<Rightarrow> i32" where
  "dp_delete X uri predicates =
     dp_call X CmdDelete (\<lambda>Q. wseq (write_uri uri Q) (serialize_predicates Q predicates)) INVALID_VALUE (reply_i32 X INVALID_VALUE)"

definition dp_insert_ex :: "('a, 'r) extension_channel \<Rightarrow> string \<Rightarrow> data_share_values_bucket \<Rightarrow> i32 \<times> i32" where
  "dp_insert_ex X uri v =
     dp_call X CmdInsertEx (\<lambda>Q. wseq (write_uri uri Q) (serialize_bucket Q v)) (INVALID_VALUE, 0) (reply_pair X INVALID_VALUE)"

definition dp_update_ex :: "('a, 'r) extension_channel \<Rightarrow> string \<Rightarrow> data_share_predicates \<Rightarrow> data_share_values_bucket \<Rightarrow> i32 \<times> i32" where
  "dp_update_ex X uri predicates v =
     dp_call X CmdUpdateEx (\<lambda>Q. wseq (write_uri uri Q) (wseq (serialize_predicates Q predicates) (serialize_bucket Q v)))
       (INVALID_VALUE, 0) (reply_pair X INVALID_VALUE)"

definition dp_delete_ex :: "('a, 'r) extension_channel \<Rightarrow> string \<Rightarrow> data_share_predicates \<Rightarrow> i32 \<times> i32" where
  "dp_delete_ex X uri predicates =
     dp_call X CmdDeleteEx (\<lambda>Q. wseq (write_uri uri Q) (serialize_predicates Q predicates)) (INVALID_VALUE, 0) (reply_pair X INVALID_VALUE)"

section \<open>Queries and batches\<close>

text \<open>
  The steps of \<open>query\<close> in order; the error of the caller is set where the request cannot be created, the URI cannot be written, the predicates have no
  binary image or the request fails, and left where a later write is refused.
\<close>

definition dp_query :: "('a, 'r) extension_channel \<Rightarrow> string \<Rightarrow> data_share_predicates \<Rightarrow> string list \<Rightarrow> business_error
    \<Rightarrow> bytes option \<times> business_error" where
  "dp_query X uri predicates columns be =
     (case dp_create_request X of
        None \<Rightarrow> (None, set_code (- 1) be)
      | Some (Q, data) \<Rightarrow>
          (case write_uri uri Q data of
             None \<Rightarrow> (None, set_code (- 1) be)
           | Some data \<Rightarrow>
               (case write_vec Q (pc_write_string Q) columns data of
                  None \<Rightarrow> (None, be)
                | Some data \<Rightarrow>
                    (case marshal_predicates_raw predicates of
                       None \<Rightarrow> (None, set_code (- 1) be)
                     | Some (sz, buf) \<Rightarrow>
                         (case write_raw_blob sz buf Q data of
                            None \<Rightarrow> (None, be)
                          | Some data \<Rightarrow>
                              (case ch_send X (data_share_cmd_code CmdQuery) data of
                                 None \<Rightarrow> (None, set_code (- 1) be)
                               | Some reply \<Rightarrow> (Some reply, be)))))))"

definition dp_get_type :: "('a, 'r) extension_channel \<Rightarrow> string \<Rightarrow> string" where
  "dp_get_type X uri = dp_call X CmdGetType (write_uri uri) [] (\<lambda>reply. fst (read_or (ch_left X) (pc_read_string (ch_api X)) [] reply))"

definition dp_batch_insert :: "('a, 'r) extension_channel \<Rightarrow> string \<Rightarrow> data_share_values_bucket list \<Rightarrow> i32" where
  "dp_batch_insert X uri values =
     dp_call X CmdBatchInsert
       (\<lambda>Q. wseq (write_uri uri Q)
          (case marshal_values_bucket_vec_raw values of None \<Rightarrow> (\<lambda>buf. None) | Some (sz, buf) \<Rightarrow> write_raw_blob sz buf Q))
       INVALID_VALUE (reply_i32 X INVALID_VALUE)"

definition dp_batch_update :: "('a, 'r) extension_channel \<Rightarrow> update_operations \<Rightarrow> batch_update_result list \<Rightarrow> i32 \<times> batch_update_result list" where
  "dp_batch_update X operations results =
     (if sum_list (map (length \<circ> snd) operations) > MAX_SIZE then (INVALID_VALUE, results)
      else dp_call X CmdBatchUpdate (\<lambda>Q. serialize_update_operations Q operations) (INVALID_VALUE, results)
        (\<lambda>reply. (0, results @ reply_list X (deserialize_batch_update_result (ch_api X)) reply)))"

definition exec_reply :: "('a, 'r) extension_channel \<Rightarrow> exec_result_set \<Rightarrow> bytes \<Rightarrow> i32 \<times> exec_result_set" where
  "exec_reply X result reply =
     (case deserialize_exec_result_set (ch_api X) reply of Inr (r, _) \<Rightarrow> (0, r) | Inl _ \<Rightarrow> (INVALID_VALUE, result))"

definition dp_execute_batch :: "('a, 'r) extension_channel \<Rightarrow> operation_statement list \<Rightarrow> exec_result_set \<Rightarrow> i32 \<times> exec_result_set" where
  "dp_execute_batch X statements result =
     dp_call X CmdExecuteBatch (\<lambda>Q. write_vec Q (serialize_statement Q) statements) (INVALID_VALUE, result) (exec_reply X result)"

definition dp_execute_batch_blob :: "('a, 'r) extension_channel \<Rightarrow> bytes \<Rightarrow> exec_result_set \<Rightarrow> i32 \<times> exec_result_set" where
  "dp_execute_batch_blob X blob result =
     dp_call X CmdExecuteBatch (write_raw_blob (of_nat (length blob)) blob) (INVALID_VALUE, result) (exec_reply X result)"

section \<open>Observers and URIs\<close>

definition dp_register_observer :: "('a, 'r) extension_channel \<Rightarrow> string \<Rightarrow> 'r \<Rightarrow> bool" where
  "dp_register_observer X uri observer =
     dp_call X CmdRegisterObserver (\<lambda>Q. wseq (write_uri uri Q) (pc_write_remote Q observer)) False (\<lambda>reply. reply_i32 X 0 reply \<noteq> 0)"

definition dp_unregister_observer :: "('a, 'r) extension_channel \<Rightarrow> string \<Rightarrow> 'r \<Rightarrow> bool" where
  "dp_unregister_observer X uri observer =
     dp_call X CmdUnregisterObserver (\<lambda>Q. wseq (write_uri uri Q) (pc_write_remote Q observer)) False (\<lambda>reply. reply_i32 X 0 reply \<noteq> 0)"

definition dp_notify_change :: "('a, 'r) extension_channel \<Rightarrow> string \<Rightarrow> bool" where
  "dp_notify_change X uri = dp_call X CmdNotifyChange (write_uri uri) False (\<lambda>reply. True)"

definition dp_register_observer_ext_provider :: "('a, 'r) extension_channel \<Rightarrow> string \<Rightarrow> 'r \<Rightarrow> bool \<Rightarrow> bool \<Rightarrow> i32" where
  "dp_register_observer_ext_provider X uri observer is_descendants is_reconnect =
     dp_call X CmdRegisterObserverExtProvider
       (\<lambda>Q. wseq (write_uri uri Q) (wseq (pc_write_remote Q observer) (wseq (pc_write_bool Q is_descendants) (pc_write_bool Q is_reconnect))))
       INVALID_VALUE (reply_i32 X INVALID_VALUE)"

definition dp_unregister_observer_ext_provider :: "('a, 'r) extension_channel \<Rightarrow> string \<Rightarrow> 'r \<Rightarrow> i32" where
  "dp_unregister_observer_ext_provider X uri observer =
     dp_call X CmdUnregisterObserverExtProvider (\<lambda>Q. wseq (write_uri uri Q) (pc_write_remote Q observer)) INVALID_VALUE (reply_i32 X INVALID_VALUE)"

definition dp_notify_change_ext_provider :: "('a, 'r) extension_channel \<Rightarrow> change_info \<Rightarrow> i32" where
  "dp_notify_change_ext_provider X change_info =
     dp_call X CmdNotifyChangeExtProvider (\<lambda>Q. serialize_change_info Q change_info) INVALID_VALUE (reply_i32 X INVALID_VALUE)"

definition dp_normalize_uri :: "('a, 'r) extension_channel \<Rightarrow> string \<Rightarrow> string" where
  "dp_normalize_uri X uri = dp_call X CmdNormalizeUri (write_uri uri) [] (read_uri X)"

definition dp_denormalize_uri :: "('a, 'r) extension_channel \<Rightarrow> string \<Rightarrow> string" where
  "dp_denormalize_uri X uri = dp_call X CmdDenormalizeUri (write_uri uri) [] (read_uri X)"

definition dp_user_define_func :: "('a, 'r) extension_channel \<Rightarrow> bytes \<Rightarrow> bytes option" where
  "dp_user_define_func X data = ch_send X (data_share_cmd_code CmdUserDefineFunc) data"

section \<open>The extension at the other end\<close>

text \<open>
  The other end is the stub of the provider in C++, \<open>frameworks/native/provider/src/datashare_stub.cpp\<close>: it knows the commands by the
  numbers of the interface header, checks the token, decodes the request, calls the provider and writes the reply. A provider that
  answers -1 or -2 to a change of data makes the stub return an error without a reply, and so does a reply that cannot be
  written. What the provider computes is arbitrary; it is the record \<open>provider\<close>.
\<close>

datatype 'r provider_request =
    PrInsert data_share_cmd string data_share_values_bucket
  | PrUpdate data_share_cmd string data_share_predicates data_share_values_bucket
  | PrDelete data_share_cmd string data_share_predicates
  | PrQuery string "string list" data_share_predicates
  | PrBatchInsert string "data_share_values_bucket list"
  | PrBatchUpdate update_operations
  | PrExecute "operation_statement list"
  | PrUri data_share_cmd string
  | PrObserver data_share_cmd string 'r
  | PrObserverExt string 'r bool bool
  | PrChange change_info

record 'r provider =
  prv_code :: "'r provider_request \<Rightarrow> i32"
  prv_pair :: "'r provider_request \<Rightarrow> i32 \<times> i32"
  prv_updates :: "'r provider_request \<Rightarrow> batch_update_result list"
  prv_exec :: "'r provider_request \<Rightarrow> exec_result_set"
  prv_uri :: "'r provider_request \<Rightarrow> string"
  prv_rows :: "'r provider_request \<Rightarrow> bytes"

definition read_parcelable_uri :: "('a, 'r) parcel_api \<Rightarrow> string reader" where
  "read_parcelable_uri Q = rbind (pc_read_i32 Q) (\<lambda>_. rbind (pc_read_string16 Q) rret)"

definition read_raw_blob :: "('a, 'r) parcel_api \<Rightarrow> (bytes \<Rightarrow> read_error + 'x) \<Rightarrow> 'x reader" where
  "read_raw_blob Q decode = rbind (pc_read_i32 Q) (\<lambda>sz. rbind (pc_read_i32 Q) (\<lambda>_. rbind (pc_read_buffer Q (scast sz))
     (\<lambda>data. case decode data of Inr x \<Rightarrow> rret x | Inl e \<Rightarrow> rfail e)))"

definition read_insert :: "('a, 'r) parcel_api \<Rightarrow> data_share_cmd \<Rightarrow> 'r provider_request reader" where
  "read_insert Q cmd = rbind (read_parcelable_uri Q) (\<lambda>u. rbind (deserialize_bucket Q) (\<lambda>v. rret (PrInsert cmd u v)))"

definition read_update :: "('a, 'r) parcel_api \<Rightarrow> data_share_cmd \<Rightarrow> 'r provider_request reader" where
  "read_update Q cmd = rbind (read_parcelable_uri Q) (\<lambda>u. rbind (deserialize_predicates Q) (\<lambda>p. rbind (deserialize_bucket Q) (\<lambda>v. rret (PrUpdate cmd u p v))))"

definition read_delete :: "('a, 'r) parcel_api \<Rightarrow> data_share_cmd \<Rightarrow> 'r provider_request reader" where
  "read_delete Q cmd = rbind (read_parcelable_uri Q) (\<lambda>u. rbind (deserialize_predicates Q) (\<lambda>p. rret (PrDelete cmd u p)))"

definition read_uri_request :: "('a, 'r) parcel_api \<Rightarrow> data_share_cmd \<Rightarrow> 'r provider_request reader" where
  "read_uri_request Q cmd = rbind (read_parcelable_uri Q) (\<lambda>u. rret (PrUri cmd u))"

definition read_observer_request :: "('a, 'r) parcel_api \<Rightarrow> data_share_cmd \<Rightarrow> 'r provider_request reader" where
  "read_observer_request Q cmd = rbind (read_parcelable_uri Q) (\<lambda>u. rbind (pc_read_remote Q) (\<lambda>r. rret (PrObserver cmd u r)))"

fun read_call :: "('a, 'r) parcel_api \<Rightarrow> data_share_cmd \<Rightarrow> 'r provider_request reader" where
  "read_call Q CmdInsert = read_insert Q CmdInsert"
| "read_call Q CmdInsertEx = read_insert Q CmdInsertEx"
| "read_call Q CmdUpdate = read_update Q CmdUpdate"
| "read_call Q CmdUpdateEx = read_update Q CmdUpdateEx"
| "read_call Q CmdDelete = read_delete Q CmdDelete"
| "read_call Q CmdDeleteEx = read_delete Q CmdDeleteEx"
| "read_call Q CmdQuery = rbind (read_parcelable_uri Q) (\<lambda>u. rbind (read_vec Q (pc_read_string Q)) (\<lambda>columns.
     rbind (read_raw_blob Q unmarshal_predicates_raw) (\<lambda>p. rret (PrQuery u columns p))))"
| "read_call Q CmdBatchInsert = rbind (read_parcelable_uri Q) (\<lambda>u. rbind (read_raw_blob Q unmarshal_values_bucket_vec_raw) (\<lambda>bs. rret (PrBatchInsert u bs)))"
| "read_call Q CmdBatchUpdate = rbind (deserialize_update_operations Q) (\<lambda>m. rret (PrBatchUpdate m))"
| "read_call Q CmdExecuteBatch = rbind (read_raw_blob Q unmarshal_operation_statement_vec) (\<lambda>ss. rret (PrExecute ss))"
| "read_call Q CmdNormalizeUri = read_uri_request Q CmdNormalizeUri"
| "read_call Q CmdDenormalizeUri = read_uri_request Q CmdDenormalizeUri"
| "read_call Q CmdNotifyChange = read_uri_request Q CmdNotifyChange"
| "read_call Q CmdRegisterObserver = read_observer_request Q CmdRegisterObserver"
| "read_call Q CmdUnregisterObserver = read_observer_request Q CmdUnregisterObserver"
| "read_call Q CmdUnregisterObserverExtProvider = read_observer_request Q CmdUnregisterObserverExtProvider"
| "read_call Q CmdRegisterObserverExtProvider = rbind (read_parcelable_uri Q) (\<lambda>u. rbind (pc_read_remote Q) (\<lambda>r.
     rbind (pc_read_bool Q) (\<lambda>d. rbind (pc_read_bool Q) (\<lambda>c. rret (PrObserverExt u r d c)))))"
| "read_call Q CmdNotifyChangeExtProvider = rbind (deserialize_change_info Q) (\<lambda>c. rret (PrChange c))"
| "read_call Q _ = rfail ReadNone"

text \<open>The commands in the order of the interface header, which numbers them from 1.\<close>

definition data_share_commands :: "data_share_cmd list" where
  "data_share_commands = [CmdGetFileTypes, CmdOpenFile, CmdOpenRawFile, CmdInsert, CmdUpdate, CmdDelete, CmdQuery, CmdGetType, CmdBatchInsert,
     CmdRegisterObserver, CmdUnregisterObserver, CmdNotifyChange, CmdNormalizeUri, CmdDenormalizeUri, CmdExecuteBatch, CmdInsertExt,
     CmdBatchUpdate, CmdInsertEx, CmdUpdateEx, CmdDeleteEx, CmdUserDefineFunc, CmdRegisterObserverExtProvider,
     CmdUnregisterObserverExtProvider, CmdNotifyChangeExtProvider, CmdOpenFileWithErrCode]"

definition call_of :: "u32 \<Rightarrow> data_share_cmd option" where
  "call_of code =
     (let n = unat code in if 1 \<le> n \<and> n \<le> length data_share_commands then Some (data_share_commands ! (n - 1)) else None)"

lemma call_of_code [simp]: "call_of (data_share_cmd_code cmd) = Some cmd"
  by (cases cmd) (simp_all add: call_of_def data_share_commands_def)

definition bool_code :: "i32 \<Rightarrow> i32" where "bool_code i = (if i \<noteq> 0 then 1 else 0)"

definition write_answer :: "('a, 'r) parcel_api \<Rightarrow> 'r provider \<Rightarrow> 'r provider_request \<Rightarrow> writer" where
  "write_answer P prv req =
     (case req of
        PrInsert cmd _ _ \<Rightarrow> if cmd = CmdInsert then pc_write_i32 P (prv_code prv req) else write_pair P (prv_pair prv req)
      | PrUpdate cmd _ _ _ \<Rightarrow> if cmd = CmdUpdate then pc_write_i32 P (prv_code prv req) else write_pair P (prv_pair prv req)
      | PrDelete cmd _ _ \<Rightarrow> if cmd = CmdDelete then pc_write_i32 P (prv_code prv req) else write_pair P (prv_pair prv req)
      | PrQuery _ _ _ \<Rightarrow> write_all (prv_rows prv req)
      | PrBatchUpdate _ \<Rightarrow> write_vec P (serialize_batch_update_result P) (prv_updates prv req)
      | PrExecute _ \<Rightarrow> serialize_exec_result_set P (prv_exec prv req)
      | PrUri cmd _ \<Rightarrow> if cmd = CmdNotifyChange then pc_write_i32 P (bool_code (prv_code prv req)) else write_uri (prv_uri prv req) P
      | PrObserver cmd _ _ \<Rightarrow> pc_write_i32 P (if cmd = CmdUnregisterObserverExtProvider then prv_code prv req else bool_code (prv_code prv req))
      | _ \<Rightarrow> pc_write_i32 P (prv_code prv req))"

text \<open>The answers the stub turns into an error without a reply: \<open>DEFAULT_NUMBER\<close> and \<open>PERMISSION_ERROR_NUMBER\<close>.\<close>

definition stub_refuses :: "'r provider \<Rightarrow> 'r provider_request \<Rightarrow> bool" where
  "stub_refuses prv req =
     (case req of
        PrInsert cmd _ _ \<Rightarrow> (if cmd = CmdInsert then prv_code prv req else fst (prv_pair prv req)) \<in> {- 1, - 2}
      | PrUpdate cmd _ _ _ \<Rightarrow> (if cmd = CmdUpdate then prv_code prv req else fst (prv_pair prv req)) \<in> {- 1, - 2}
      | PrDelete cmd _ _ \<Rightarrow> (if cmd = CmdDelete then prv_code prv req else fst (prv_pair prv req)) \<in> {- 1, - 2}
      | PrBatchInsert _ _ \<Rightarrow> prv_code prv req \<in> {- 1, - 2}
      | PrBatchUpdate _ \<Rightarrow> prv_code prv req \<in> {- 1, - 2}
      | PrExecute _ \<Rightarrow> prv_code prv req = - 1
      | _ \<Rightarrow> False)"

definition provider_end :: "('a, 'r) parcel_api \<Rightarrow> ('a, 'r) parcel_api \<Rightarrow> 'r provider \<Rightarrow> u32 \<Rightarrow> bytes \<Rightarrow> bytes option" where
  "provider_end Q P prv code =
     serve Q (case call_of code of Some cmd \<Rightarrow> read_call Q cmd | None \<Rightarrow> rfail ReadNone)
       (\<lambda>code token req. if token = ''OHOS.DataShare.IDataShare'' then Some req else None)
       (\<lambda>answered. case answered of
          None \<Rightarrow> (\<lambda>buf. None)
        | Some req \<Rightarrow> if stub_refuses prv req then (\<lambda>buf. None) else write_answer P prv req) code"

text \<open>A channel to such a stub: \<open>Q\<close> is the parcel of requests, with its cap, and \<open>ch_api\<close> that of replies. Their limits are arbitrary.\<close>

definition provider_ok :: "('a, 'r) extension_channel \<Rightarrow> ('a, 'r) parcel_api \<Rightarrow> 'r provider \<Rightarrow> bool" where
  "provider_ok X Q prv \<longleftrightarrow> ex_capped X MTU_SIZE = Some Q \<and> parcel_ok Q \<and> parcel_ok (ch_api X)
     \<and> ch_send X = provider_end Q (ch_api X) prv
     \<and> (\<forall>req. vec_ok (\<lambda>r. pc_text (ch_api X) (bu_uri r) \<and> length (bu_codes r) < 2 ^ 31) (prv_updates prv req))
     \<and> (\<forall>req. vec_ok (exec_result_carried (ch_api X)) (ers_results (prv_exec prv req)))
     \<and> (\<forall>req. pc_text (ch_api X) (prv_uri prv req))"

text \<open>
  What a call returns: the value \<open>y\<close> where the request \<open>w\<close> fits into the capped parcel, the stub does not turn the answer of
  the provider into an error and the reply fits; \<open>d\<close> where one of these fails.
\<close>

definition outcome :: "('a, 'r) parcel_api \<Rightarrow> ('a, 'r) parcel_api \<Rightarrow> 'r provider \<Rightarrow> (('a, 'r) parcel_api \<Rightarrow> writer) \<Rightarrow> 'r provider_request \<Rightarrow> 'y \<Rightarrow> 'y \<Rightarrow> 'y" where
  "outcome Q P prv w req y d =
     (if wseq (pc_write_token Q DESCRIPTOR) (w Q) [] = None \<or> stub_refuses prv req \<or> write_answer P prv req [] = None then d else y)"

text \<open>The messages of the requests that change data.\<close>

definition ext_insert_message :: "string \<Rightarrow> data_share_values_bucket \<Rightarrow> ('a, 'r) parcel_api \<Rightarrow> writer" where
  "ext_insert_message uri v Q = wseq (write_uri uri Q) (serialize_bucket Q v)"

definition ext_update_message :: "string \<Rightarrow> data_share_predicates \<Rightarrow> data_share_values_bucket \<Rightarrow> ('a, 'r) parcel_api \<Rightarrow> writer" where
  "ext_update_message uri p v Q = wseq (write_uri uri Q) (wseq (serialize_predicates Q p) (serialize_bucket Q v))"

definition ext_delete_message :: "string \<Rightarrow> data_share_predicates \<Rightarrow> ('a, 'r) parcel_api \<Rightarrow> writer" where
  "ext_delete_message uri p Q = wseq (write_uri uri Q) (serialize_predicates Q p)"

definition ext_observer_message :: "string \<Rightarrow> 'r \<Rightarrow> bool \<Rightarrow> bool \<Rightarrow> ('a, 'r) parcel_api \<Rightarrow> writer" where
  "ext_observer_message uri obs descendants reconnect Q =
     wseq (write_uri uri Q) (wseq (pc_write_remote Q obs) (wseq (pc_write_bool Q descendants) (pc_write_bool Q reconnect)))"

section \<open>A call\<close>

lemma ext_messages:
  "(\<lambda>Q. wseq (write_uri uri Q) (serialize_bucket Q v)) = ext_insert_message uri v"
  "(\<lambda>Q. wseq (write_uri uri Q) (wseq (serialize_predicates Q p) (serialize_bucket Q v))) = ext_update_message uri p v"
  "(\<lambda>Q. wseq (write_uri uri Q) (serialize_predicates Q p)) = ext_delete_message uri p"
  "(\<lambda>Q. wseq (write_uri uri Q) (wseq (pc_write_remote Q obs) (wseq (pc_write_bool Q descendants) (pc_write_bool Q reconnect)))) =
     ext_observer_message uri obs descendants reconnect"
  by (simp_all add: fun_eq_iff ext_insert_message_def ext_update_message_def ext_delete_message_def ext_observer_message_def)

lemma called:
  assumes prv: "provider_ok X Q prv" and t: "transfers (w Q) (read_call Q cmd) req"
    and f: "\<And>reply. write_answer (ch_api X) prv req [] = Some reply \<Longrightarrow> f reply = y"
  shows "dp_call X cmd w d f = outcome Q (ch_api X) prv w req y d"
proof -
  have q: "ex_capped X MTU_SIZE = Some Q" "parcel_ok Q" and send: "ch_send X = provider_end Q (ch_api X) prv"
    using prv by (simp_all add: provider_ok_def)
  have request: "dp_request X w = wseq (pc_write_token Q DESCRIPTOR) (w Q) []"
    by (simp add: dp_request_def dp_create_request_def q(1) wseq_def split: option.split)
  have name: "''OHOS.DataShare.IDataShare'' = DESCRIPTOR" by (simp add: DESCRIPTOR_def)
  have "ch_send X (data_share_cmd_code cmd) data = (if stub_refuses prv req then None else write_answer (ch_api X) prv req [])"
    if "wseq (pc_write_token Q DESCRIPTOR) (w Q) [] = Some data" for data
    using that unfolding send provider_end_def name
    by (subst parcel.serve_request [OF parcel.intro [OF q(2)], of "w Q" _ req DESCRIPTOR]) (simp_all add: t)
  then show ?thesis by (auto simp: dp_call_def request outcome_def f split: option.split)
qed

context parcel
begin

lemma uri_transfers: "pc_text P uri \<Longrightarrow> transfers (write_uri uri P) (read_parcelable_uri P) uri"
  unfolding write_uri_def read_parcelable_uri_def by (rule transfers_seq [OF prims(1)], rule transfers_last [OF texts(2)]) simp_all

lemma raw_transfers:
  assumes "data \<noteq> []" "length data < 2 ^ 31" "decode data = Inr x"
  shows "transfers (write_raw_blob (of_nat (length data)) data P) (read_raw_blob P decode) x"
proof -
  have n: "scast (of_nat (length data) :: i32) = (of_nat (length data) :: usize)" by (rule scast_of_nat [OF assms(2)])
  show ?thesis
    unfolding write_raw_blob_def read_raw_blob_def
    by (rule transfers_seq [OF prims(1)], rule transfers_seq [OF prims(1)], unfold n, rule transfers_last [OF buffers [OF assms(1,2)]])
      (simp add: assms(3))
qed

lemma predicates_raw_transfer:
  assumes "predicates_wf p" "marshal_predicates_raw p = Some (sz, buf)"
  shows "transfers (write_raw_blob sz buf P) (read_raw_blob P unmarshal_predicates_raw) (predicates_norm p)"
proof -
  have b: "sz = of_nat (length buf)" "length buf \<le> MAX_IPC_SIZE" "marshal_predicates_to_buffer p = Some buf"
    using assms(2) by (auto simp: marshal_predicates_raw_def sized_def split: option.splits if_splits)
  have enc: "buf = predicates_enc p" using b(3) by (simp add: marshal_predicates_eq)
  have ne: "buf \<noteq> []" using pred.enc_least [OF assms(1)] by (auto simp: enc)
  have "unmarshal_predicates_raw buf = Inr (predicates_norm p)"
    using ne b(2) pred.rd_enc [OF assms(1), of "[]"] by (simp add: unmarshal_predicates_raw_def unmarshal_predicates_from_buffer_def decoded_Inr enc)
  then show ?thesis unfolding b(1) using ne b(2) by (intro raw_transfers) (auto simp: MAX_IPC_SIZE_def)
qed

lemma buckets_raw_transfer:
  assumes "length bs < 2 ^ 64" "list_all bucket_wf bs" "marshal_values_bucket_vec_raw bs = Some (sz, buf)"
  shows "transfers (write_raw_blob sz buf P) (read_raw_blob P unmarshal_values_bucket_vec_raw) bs"
proof -
  have b: "sz = of_nat (length buf)" "length buf \<le> MAX_IPC_SIZE" "marshal_values_bucket_vec_to_buffer bs = Some buf"
    using assms(3) by (auto simp: marshal_values_bucket_vec_raw_def sized_def split: option.splits if_splits)
  have rd: "unmarshal_values_bucket_vec_from_buffer buf = Inr bs"
    using bkts.rd_enc [of bs "[]"] assms(1,2) b(3)
    by (auto simp: marshal_buckets_eq unmarshal_values_bucket_vec_from_buffer_def counted_ok_def intro: decoded_Inr)
  have ne: "buf \<noteq> []"
    using b(3) by (auto simp: marshal_buckets_eq counted_enc_def dest: arg_cong [where f = length])
  then show ?thesis unfolding b(1) using rd b(2) by (intro raw_transfers) (auto simp: unmarshal_values_bucket_vec_raw_def MAX_IPC_SIZE_def)
qed

end

locale extension_served =
  fixes X :: "('a, 'r) extension_channel" and Q :: "('a, 'r) parcel_api" and prv :: "'r provider"
  assumes provided: "provider_ok X Q prv"
begin

abbreviation "P \<equiv> ch_api X"

lemma api: "parcel_ok Q" "parcel_ok P"
  using provided by (simp_all add: provider_ok_def)

lemmas carried = parcel.uri_transfers [OF parcel.intro [OF api(1)]] parcel.steps [OF parcel.intro [OF api(1)]]
  parcel.strings_transfer [OF parcel.intro [OF api(1)]]

abbreviation "out \<equiv> outcome Q P prv"

lemma call:
  assumes "transfers (w Q) (read_call Q cmd) req" and "\<And>reply. write_answer P prv req [] = Some reply \<Longrightarrow> f reply = y"
  shows "dp_call X cmd w d f = out w req y d"
  by (rule called [where w = w and f = f and y = y, OF provided assms])

lemma replies:
  "pc_write_i32 P i [] = Some reply \<Longrightarrow> reply_i32 X d reply = i" "write_pair P p [] = Some reply \<Longrightarrow> reply_pair X d reply = p"
  using reply_i32_written [OF api(2)] reply_pair_written [OF api(2)] by blast+

lemma code_call:
  assumes "transfers (w Q) (read_call Q cmd) req" and "write_answer P prv req = pc_write_i32 P (prv_code prv req)"
  shows "dp_call X cmd w d (reply_i32 X e) = out w req (prv_code prv req) d"
  by (rule call) (simp_all add: assms replies)

lemma pair_call:
  assumes "transfers (w Q) (read_call Q cmd) req" and "write_answer P prv req = write_pair P (prv_pair prv req)"
  shows "dp_call X cmd w d (reply_pair X e) = out w req (prv_pair prv req) d"
  by (rule call) (simp_all add: assms replies)

lemma insert_calls:
  assumes "pc_text Q uri" "parcel_bucket_ok Q v"
  shows "dp_insert X uri v = (let req = PrInsert CmdInsert uri v in out (ext_insert_message uri v) req (prv_code prv req) (- 1))"
    and "dp_insert_ex X uri v = (let req = PrInsert CmdInsertEx uri v in out (ext_insert_message uri v) req (prv_pair prv req) (- 1, 0))"
proof -
  have t: "transfers (ext_insert_message uri v Q) (read_insert Q cmd) (PrInsert cmd uri v)" for cmd
    unfolding read_insert_def ext_insert_message_def by (auto simp: assms intro!: carried)
  show "dp_insert X uri v = (let req = PrInsert CmdInsert uri v in out (ext_insert_message uri v) req (prv_code prv req) (- 1))"
    "dp_insert_ex X uri v = (let req = PrInsert CmdInsertEx uri v in out (ext_insert_message uri v) req (prv_pair prv req) (- 1, 0))"
    unfolding dp_insert_def dp_insert_ex_def INVALID_VALUE_def Let_def ext_messages
    by (rule code_call pair_call; simp add: t write_answer_def)+
qed

lemma update_calls:
  assumes "pc_text Q uri" "parcel_bucket_ok Q v" "parcel_predicates_ok Q p"
  shows "dp_update X uri p v = (let req = PrUpdate CmdUpdate uri (parcel_predicates_norm p) v in
      out (ext_update_message uri p v) req (prv_code prv req) (- 1))"
    and "dp_update_ex X uri p v = (let req = PrUpdate CmdUpdateEx uri (parcel_predicates_norm p) v in
      out (ext_update_message uri p v) req (prv_pair prv req) (- 1, 0))"
proof -
  have t: "transfers (ext_update_message uri p v Q) (read_update Q cmd) (PrUpdate cmd uri (parcel_predicates_norm p) v)" for cmd
    unfolding read_update_def ext_update_message_def by (auto simp: assms intro!: carried)
  show "dp_update X uri p v = (let req = PrUpdate CmdUpdate uri (parcel_predicates_norm p) v in
      out (ext_update_message uri p v) req (prv_code prv req) (- 1))"
    "dp_update_ex X uri p v = (let req = PrUpdate CmdUpdateEx uri (parcel_predicates_norm p) v in
      out (ext_update_message uri p v) req (prv_pair prv req) (- 1, 0))"
    unfolding dp_update_def dp_update_ex_def INVALID_VALUE_def Let_def ext_messages
    by (rule code_call pair_call; simp add: t write_answer_def)+
qed

lemma delete_calls:
  assumes "pc_text Q uri" "parcel_predicates_ok Q p"
  shows "dp_delete X uri p = (let req = PrDelete CmdDelete uri (parcel_predicates_norm p) in
      out (ext_delete_message uri p) req (prv_code prv req) (- 1))"
    and "dp_delete_ex X uri p = (let req = PrDelete CmdDeleteEx uri (parcel_predicates_norm p) in
      out (ext_delete_message uri p) req (prv_pair prv req) (- 1, 0))"
proof -
  have t: "transfers (ext_delete_message uri p Q) (read_delete Q cmd) (PrDelete cmd uri (parcel_predicates_norm p))" for cmd
    unfolding read_delete_def ext_delete_message_def by (auto simp: assms intro!: carried)
  show "dp_delete X uri p = (let req = PrDelete CmdDelete uri (parcel_predicates_norm p) in
      out (ext_delete_message uri p) req (prv_code prv req) (- 1))"
    "dp_delete_ex X uri p = (let req = PrDelete CmdDeleteEx uri (parcel_predicates_norm p) in
      out (ext_delete_message uri p) req (prv_pair prv req) (- 1, 0))"
    unfolding dp_delete_def dp_delete_ex_def INVALID_VALUE_def Let_def ext_messages
    by (rule code_call pair_call; simp add: t write_answer_def)+
qed

lemma query_call:
  assumes "pc_text Q uri" "vec_ok (pc_text Q) columns" "predicates_wf p" "marshal_predicates_raw p = Some (sz, buf)"
  shows "fst (dp_query X uri p columns be) = (let req = PrQuery uri columns (predicates_norm p) in
    out (\<lambda>Q. wseq (write_uri uri Q) (wseq (write_vec Q (pc_write_string Q) columns) (write_raw_blob sz buf Q))) req (Some (prv_rows prv req)) None)"
proof -
  have q: "fst (dp_query X uri p columns be)
      = dp_call X CmdQuery (\<lambda>Q. wseq (write_uri uri Q) (wseq (write_vec Q (pc_write_string Q) columns) (write_raw_blob sz buf Q))) None Some"
    by (simp add: dp_query_def dp_call_def dp_request_def assms(4) wseq_def split: option.split)
  have t: "transfers (wseq (write_uri uri Q) (wseq (write_vec Q (pc_write_string Q) columns) (write_raw_blob sz buf Q))) (read_call Q CmdQuery)
      (PrQuery uri columns (predicates_norm p))"
    by (auto simp: assms intro!: carried parcel.predicates_raw_transfer [OF parcel.intro [OF api(1)]])
  show ?thesis unfolding q Let_def by (rule call; use t in \<open>simp add: write_answer_def write_all_def\<close>)
qed

lemma batch_insert_call:
  assumes "pc_text Q uri" "length bs < 2 ^ 64" "list_all bucket_wf bs" "marshal_values_bucket_vec_raw bs = Some (sz, buf)"
  shows "dp_batch_insert X uri bs = (let req = PrBatchInsert uri bs in
    out (\<lambda>Q. wseq (write_uri uri Q) (write_raw_blob sz buf Q)) req (prv_code prv req) (- 1))"
proof -
  have t: "transfers (wseq (write_uri uri Q) (write_raw_blob sz buf Q)) (read_call Q CmdBatchInsert) (PrBatchInsert uri bs)"
    by (auto intro!: carried assms(1) parcel.buckets_raw_transfer [OF parcel.intro [OF api(1)] assms(2-4)])
  show ?thesis
    unfolding dp_batch_insert_def INVALID_VALUE_def assms(4) option.case prod.case Let_def
    by (rule code_call; use t in \<open>simp add: write_answer_def\<close>)
qed

end

context extension_served
begin

lemma batch_update_call:
  assumes "updates_carried Q m" "sum_list (map (length \<circ> snd) m) \<le> MAX_SIZE"
  shows "dp_batch_update X m results = (let req = PrBatchUpdate (updates_seen m) in
    out (\<lambda>Q. serialize_update_operations Q m) req (0, results @ prv_updates prv req) (- 1, results))"
proof -
  have t: "transfers (serialize_update_operations Q m) (read_call Q CmdBatchUpdate) (PrBatchUpdate (updates_seen m))"
    by (auto intro!: transfers_ret parcel.updates_transfer [OF parcel.intro [OF api(1)] assms(1)])
  have r: "reply_list X (deserialize_batch_update_result P) reply = prv_updates prv req"
    if "write_vec P (serialize_batch_update_result P) (prv_updates prv req) [] = Some reply" for reply req
    using reply_list_written [OF api(2) _ _ that, where f = "\<lambda>r. r"] parcel.batch_result_transfers [OF parcel.intro [OF api(2)]] provided
    by (fastforce simp: provider_ok_def)
  have "\<not> sum_list (map (length \<circ> snd) m) > MAX_SIZE" using assms(2) by simp
  then show ?thesis
    unfolding dp_batch_update_def INVALID_VALUE_def Let_def if_not_P [OF \<open>\<not> _\<close>]
    by (intro call; use t in \<open>simp add: write_answer_def r\<close>)
qed

lemma execute_call:
  assumes "counted_ok statement_wf sts" "marshal_operation_statement_vec sts = Some blob"
  shows "dp_execute_batch_blob X blob result = (let req = PrExecute (map statement_norm sts) in
    out (write_raw_blob (of_nat (length blob)) blob) req (0, prv_exec prv req) (- 1, result))"
proof -
  have b: "blob = counted_enc statement_enc sts" "length blob \<le> MAX_IPC_SIZE"
    using assms(2) by (auto simp: marshal_operation_statement_vec_def marshal_statements_eq split: if_splits)
  have ne: "blob \<noteq> []" "length blob < 2 ^ 31"
    using stmts.enc_least [OF assms(1)] b by (auto simp: MAX_IPC_SIZE_def)
  have rd: "unmarshal_operation_statement_vec blob = Inr (map statement_norm sts)"
    using stmts.rd_enc [OF assms(1), of "[]"] b ne(1)
    by (auto simp: unmarshal_operation_statement_vec_def unmarshal_operation_statement_vec_from_buffer_def intro: decoded_Inr)
  have t: "transfers (write_raw_blob (of_nat (length blob)) blob Q) (read_call Q CmdExecuteBatch) (PrExecute (map statement_norm sts))"
    by (auto intro!: transfers_ret parcel.raw_transfers [OF parcel.intro [OF api(1)]] ne rd)
  have r: "exec_reply X result reply = (0, prv_exec prv req)" if w: "serialize_exec_result_set P (prv_exec prv req) [] = Some reply" for reply req
  proof -
    have "vec_ok (exec_result_carried P) (ers_results (prv_exec prv req))" using provided by (simp add: provider_ok_def)
    from parcel.reply_read [OF parcel.intro [OF api(2)] parcel.exec_results_transfer [OF parcel.intro [OF api(2)] this] w]
    show ?thesis by (simp add: exec_reply_def)
  qed
  show ?thesis
    unfolding dp_execute_batch_blob_def INVALID_VALUE_def Let_def
    by (rule call; use t in \<open>simp add: write_answer_def r\<close>)
qed

lemma uri_reply:
  assumes "write_uri s P [] = Some reply" "pc_text P s"
  shows "read_uri X reply = s"
proof -
  note pc = parcel.intro [OF api(2)]
  obtain mid where m: "pc_write_i32 P 1 [] = Some mid" "pc_write_string16 P s mid = Some reply"
    using assms(1) by (auto simp: write_uri_def wseq_def split: option.splits)
  have "\<And>rest. pc_read_i32 P (mid @ rest) = Inr (1, rest)" using transfersD [OF parcel.prims(1) [OF pc] m(1)] by (metis append_Nil)
  moreover obtain bs where "reply = mid @ bs" "pc_read_string16 P bs = Inr (s, [])"
    using transfersD [OF parcel.texts(2) [OF pc assms(2)] m(2)] by (metis append_Nil2)
  ultimately show ?thesis by (simp add: read_uri_def)
qed

lemma uri_calls:
  assumes "pc_text Q uri"
  shows "dp_normalize_uri X uri = (let req = PrUri CmdNormalizeUri uri in out (write_uri uri) req (prv_uri prv req) [])"
    and "dp_denormalize_uri X uri = (let req = PrUri CmdDenormalizeUri uri in out (write_uri uri) req (prv_uri prv req) [])"
    and "dp_notify_change X uri = (let req = PrUri CmdNotifyChange uri in out (write_uri uri) req True False)"
proof -
  have t: "transfers (write_uri uri Q) (read_uri_request Q cmd) (PrUri cmd uri)" for cmd
    unfolding read_uri_request_def by (auto simp: assms intro!: carried)
  have a: "pc_text P (prv_uri prv req)" for req using provided by (simp add: provider_ok_def)
  have uri: "dp_call X cmd (write_uri uri) [] (read_uri X) = out (write_uri uri) (PrUri cmd uri) (prv_uri prv (PrUri cmd uri)) []"
    if "read_call Q cmd = read_uri_request Q cmd" "cmd \<noteq> CmdNotifyChange" for cmd
    by (rule call; use t that in \<open>simp add: write_answer_def uri_reply a\<close>)
  show "dp_normalize_uri X uri = (let req = PrUri CmdNormalizeUri uri in out (write_uri uri) req (prv_uri prv req) [])"
    "dp_denormalize_uri X uri = (let req = PrUri CmdDenormalizeUri uri in out (write_uri uri) req (prv_uri prv req) [])"
    unfolding dp_normalize_uri_def dp_denormalize_uri_def Let_def by (rule uri; simp)+
  show "dp_notify_change X uri = (let req = PrUri CmdNotifyChange uri in out (write_uri uri) req True False)"
    unfolding dp_notify_change_def Let_def by (rule call; use t in simp)
qed

lemma observer_calls:
  assumes "pc_text Q uri"
  shows "dp_register_observer X uri obs = (let req = PrObserver CmdRegisterObserver uri obs in
      out (\<lambda>Q. wseq (write_uri uri Q) (pc_write_remote Q obs)) req (prv_code prv req \<noteq> 0) False)"
    and "dp_unregister_observer X uri obs = (let req = PrObserver CmdUnregisterObserver uri obs in
      out (\<lambda>Q. wseq (write_uri uri Q) (pc_write_remote Q obs)) req (prv_code prv req \<noteq> 0) False)"
    and "dp_unregister_observer_ext_provider X uri obs = (let req = PrObserver CmdUnregisterObserverExtProvider uri obs in
      out (\<lambda>Q. wseq (write_uri uri Q) (pc_write_remote Q obs)) req (prv_code prv req) (- 1))"
    and "dp_register_observer_ext_provider X uri obs descendants reconnect = (let req = PrObserverExt uri obs descendants reconnect in
      out (ext_observer_message uri obs descendants reconnect) req (prv_code prv req) (- 1))"
proof -
  have t: "transfers (wseq (write_uri uri Q) (pc_write_remote Q obs)) (read_observer_request Q cmd) (PrObserver cmd uri obs)" for cmd
    unfolding read_observer_request_def by (auto simp: assms intro!: carried)
  have ext: "transfers (ext_observer_message uri obs descendants reconnect Q)
      (read_call Q CmdRegisterObserverExtProvider) (PrObserverExt uri obs descendants reconnect)"
    unfolding ext_observer_message_def by (auto simp: assms intro!: carried)
  show "dp_register_observer X uri obs = (let req = PrObserver CmdRegisterObserver uri obs in
      out (\<lambda>Q. wseq (write_uri uri Q) (pc_write_remote Q obs)) req (prv_code prv req \<noteq> 0) False)"
    "dp_unregister_observer X uri obs = (let req = PrObserver CmdUnregisterObserver uri obs in
      out (\<lambda>Q. wseq (write_uri uri Q) (pc_write_remote Q obs)) req (prv_code prv req \<noteq> 0) False)"
    unfolding dp_register_observer_def dp_unregister_observer_def Let_def
    by (rule call; use t in \<open>simp add: write_answer_def replies bool_code_def\<close>)+
  show "dp_unregister_observer_ext_provider X uri obs = (let req = PrObserver CmdUnregisterObserverExtProvider uri obs in
      out (\<lambda>Q. wseq (write_uri uri Q) (pc_write_remote Q obs)) req (prv_code prv req) (- 1))"
    unfolding dp_unregister_observer_ext_provider_def INVALID_VALUE_def Let_def
    by (rule code_call; use t in \<open>simp add: write_answer_def\<close>)
  show "dp_register_observer_ext_provider X uri obs descendants reconnect = (let req = PrObserverExt uri obs descendants reconnect in
      out (ext_observer_message uri obs descendants reconnect) req (prv_code prv req) (- 1))"
    unfolding dp_register_observer_ext_provider_def INVALID_VALUE_def Let_def ext_messages
    by (rule code_call; use ext in \<open>simp add: write_answer_def\<close>)
qed

lemma notify_call:
  assumes "change_carried Q c"
  shows "dp_notify_change_ext_provider X c =
    out (\<lambda>Q. serialize_change_info Q c) (PrChange c) (prv_code prv (PrChange c)) (- 1)"
proof -
  have "transfers (serialize_change_info Q c) (read_call Q CmdNotifyChangeExtProvider) (PrChange c)"
    by (auto intro!: transfers_ret parcel.change_info_transfers [OF parcel.intro [OF api(1)] assms])
  then show ?thesis
    unfolding dp_notify_change_ext_provider_def INVALID_VALUE_def
    by (intro code_call; simp add: write_answer_def)
qed

end

section \<open>Properties\<close>

text \<open>
  C31: Over the stub of an extension, inserting, updating, deleting, their extended variants, batch updates, batches of statements in
  the binary form, changes, observers and URIs answer what the provider computes, on the arguments as they arrive: buckets, URIs,
  changes and observers unchanged, predicates up to the normal form of the parcel and of the binary form, which is the
  identity on plain ones. Where the capped parcel refuses the request, the reply does not fit, or the provider answers -1 or -2 to
  a change of data, which the stub turns into an error (-1 alone for a batch of statements), and nowhere else, they answer the error value of
  the method. A batch of more than 4000 updates is refused before anything is sent, whatever is at the other end.
\<close>

theorem extension_calls_refine:
  assumes prv: "provider_ok X Q prv" and "pc_text Q uri" and ok: "parcel_bucket_ok Q v" "parcel_predicates_ok Q p" "updates_carried Q m"
    "counted_ok statement_wf sts" "marshal_operation_statement_vec sts = Some blob" "change_carried Q c"
  shows "let P = ch_api X; q = parcel_predicates_norm p;
        code = (\<lambda>w req. outcome Q P prv w req (prv_code prv req) (- 1));
        pair = (\<lambda>w req. outcome Q P prv w req (prv_pair prv req) (- 1, 0)) in
     dp_insert X uri v = code (ext_insert_message uri v) (PrInsert CmdInsert uri v)
     \<and> dp_insert_ex X uri v = pair (ext_insert_message uri v) (PrInsert CmdInsertEx uri v)
     \<and> dp_update X uri p v = code (ext_update_message uri p v) (PrUpdate CmdUpdate uri q v)
     \<and> dp_update_ex X uri p v = pair (ext_update_message uri p v) (PrUpdate CmdUpdateEx uri q v)
     \<and> dp_delete X uri p = code (ext_delete_message uri p) (PrDelete CmdDelete uri q)
     \<and> dp_delete_ex X uri p = pair (ext_delete_message uri p) (PrDelete CmdDeleteEx uri q)
     \<and> dp_batch_update X m results =
         (if sum_list (map (length \<circ> snd) m) > 4000 then (- 1, results)
          else let req = PrBatchUpdate (updates_seen m) in
            outcome Q P prv (\<lambda>Q. serialize_update_operations Q m) req (0, results @ prv_updates prv req) (- 1, results))
     \<and> dp_execute_batch_blob X blob result =
         (let req = PrExecute (map statement_norm sts) in
            outcome Q P prv (write_raw_blob (of_nat (length blob)) blob) req (0, prv_exec prv req) (- 1, result))
     \<and> dp_notify_change_ext_provider X c = code (\<lambda>Q. serialize_change_info Q c) (PrChange c)
     \<and> dp_register_observer_ext_provider X uri obs descendants reconnect =
         code (ext_observer_message uri obs descendants reconnect) (PrObserverExt uri obs descendants reconnect)
     \<and> dp_normalize_uri X uri =
         (let req = PrUri CmdNormalizeUri uri in outcome Q P prv (write_uri uri) req (prv_uri prv req) [])"
proof -
  note e = extension_served.intro [OF prv]
  have "dp_batch_update X m results = (- 1, results)" if "sum_list (map (length \<circ> snd) m) > 4000"
    using that by (simp add: dp_batch_update_def MAX_SIZE_def INVALID_VALUE_def)
  then show ?thesis
    using assms(2) ok extension_served.batch_update_call [OF e ok(3), of results]
    by (simp add: Let_def extension_served.insert_calls [OF e] extension_served.update_calls [OF e] extension_served.delete_calls [OF e]
        extension_served.execute_call [OF e] extension_served.notify_call [OF e] extension_served.observer_calls [OF e]
        extension_served.uri_calls [OF e] MAX_SIZE_def)
qed

definition example_provider_end :: "u64 provider" where
  "example_provider_end = \<lparr>prv_code = (\<lambda>req. case req of PrDelete _ _ p \<Rightarrow> - 2 | _ \<Rightarrow> 7), prv_pair = (\<lambda>_. (0, 5)),
     prv_updates = (\<lambda>_. []), prv_exec = (\<lambda>_. \<lparr>ers_error_code = ExecSuccess, ers_results = []\<rparr>), prv_uri = (\<lambda>_. ''n''), prv_rows = (\<lambda>_. [1, 2])\<rparr>"

definition example_extension :: "(bytes, u64) extension_channel" where
  "example_extension = \<lparr>ch_api = plain_parcel, ch_send = provider_end plain_parcel plain_parcel example_provider_end, ch_left = (\<lambda>bs. bs),
     ex_capped = (\<lambda>_. Some plain_parcel), ex_status = (\<lambda>_ _. 0), ex_read_fd = (\<lambda>_. 0)\<rparr>"

lemma example_extension_ok: "provider_ok example_extension plain_parcel example_provider_end" "ch_api example_extension = plain_parcel"
  by (simp_all add: provider_ok_def example_extension_def example_provider_end_def plain_parcel_ok vec_ok_def plain_text)

interpretation ex_extension: extension_served example_extension plain_parcel example_provider_end
  by unfold_locales (rule example_extension_ok(1))

text \<open>The parcel of the examples refuses nothing.\<close>

lemma accepts_write_all [accepts_intros]: "accepts (write_all bs)"
  by (simp add: accepts_def write_all_def)

lemma accepts_write_answer: "accepts (write_answer plain_parcel prv req)"
proof -
  note [simp] = plain.prims_accept plain.types_accept
  show ?thesis by (cases req) (auto simp: write_answer_def write_pair_def write_uri_def intro!: accepts_intros)
qed

lemma plain_outcome: "accepts (w plain_parcel) \<Longrightarrow> outcome plain_parcel plain_parcel prv w req y d = (if stub_refuses prv req then d else y)"
proof -
  assume a: "accepts (w plain_parcel)"
  then have "accepts (wseq (pc_write_token plain_parcel DESCRIPTOR) (w plain_parcel))" by (intro accepts_seq plain.prims_accept)
  then have "wseq (pc_write_token plain_parcel DESCRIPTOR) (w plain_parcel) [] \<noteq> None" "write_answer plain_parcel prv req [] \<noteq> None"
    using accepts_write_answer [of prv req] unfolding accepts_def by blast+
  then show ?thesis by (auto simp: outcome_def)
qed

lemma ext_messages_open:
  "accepts (ext_insert_message uri v plain_parcel)" "accepts (ext_delete_message uri p plain_parcel)"
  unfolding ext_insert_message_def ext_delete_message_def write_uri_def
  by (intro accepts_intros plain.prims_accept plain.values_accept plain.predicates_accept)+

theorem extension_calls_refine_witness:
  "dp_insert example_extension ''u'' sample_bucket = 7 \<and> dp_delete example_extension ''u'' sample_predicates = - 1"
proof -
  have h: "updates_carried plain_parcel []" "change_carried plain_parcel (change_info_new ChOther)"
    by (simp_all add: updates_carried_def vec_ok_def change_carried_def change_info_new_def)
  have m: "marshal_operation_statement_vec [sample_statement] = Some (counted_enc statement_enc [sample_statement])"
    using sample_statement_small by (simp add: marshal_operation_statement_vec_def marshal_statements_eq MAX_IPC_SIZE_def)
  note c = extension_calls_refine [OF example_extension_ok(1) plain_text sample_bucket_parcel sample_predicates_parcel(1) h(1) sample_statement_wf m h(2),
      unfolded example_extension_ok(2) Let_def, of "''u''"]
  show ?thesis
    using c by (simp add: plain_outcome ext_messages_open stub_refuses_def) (simp add: example_provider_end_def)
qed

text \<open>
  A query hands the extension its columns and its predicates in the binary form and returns the reply, and a batch insertion hands over its
  buckets unchanged, whenever their image is within the limit of one message; predicates over the limit are
  reported as error -1 and nothing is sent. The binary form is not the form of the parcel, so a query and a deletion with the
  same predicates can reach the extension with different ones.
\<close>

theorem extension_query_refine:
  assumes prv: "provider_ok X Q prv" and texts: "pc_text Q uri" "vec_ok (pc_text Q) columns" and p: "predicates_wf p" "parcel_predicates_ok Q p"
    and bs: "length bs < 2 ^ 64" "list_all bucket_wf bs"
  shows "let P = ch_api X; enc = predicates_enc p in
      (length enc \<le> MAX_IPC_SIZE \<longrightarrow>
        fst (dp_query X uri p columns be) = (let req = PrQuery uri columns (predicates_norm p) in
          outcome Q P prv (\<lambda>Q. wseq (write_uri uri Q) (wseq (write_vec Q (pc_write_string Q) columns) (write_raw_blob (of_nat (length enc)) enc Q)))
            req (Some (prv_rows prv req)) None)
        \<and> dp_delete X uri p = (let req = PrDelete CmdDelete uri (parcel_predicates_norm p) in
          outcome Q P prv (ext_delete_message uri p) req (prv_code prv req) (- 1)))
    \<and> (length enc > MAX_IPC_SIZE \<longrightarrow> fst (dp_query X uri p columns be) = None)
    \<and> (\<forall>sz buf. marshal_values_bucket_vec_raw bs = Some (sz, buf) \<longrightarrow> dp_batch_insert X uri bs = (let req = PrBatchInsert uri bs in
          outcome Q P prv (\<lambda>Q. wseq (write_uri uri Q) (write_raw_blob sz buf Q)) req (prv_code prv req) (- 1)))"
proof -
  note e = extension_served.intro [OF prv]
  have raw: "marshal_predicates_raw p = (if length (predicates_enc p) \<le> MAX_IPC_SIZE then Some (of_nat (length (predicates_enc p)), predicates_enc p) else None)"
    by (simp add: marshal_predicates_raw_def sized_def marshal_predicates_eq)
  have "fst (dp_query X uri p columns be) = None" if big: "length (predicates_enc p) > MAX_IPC_SIZE"
    using raw big by (simp add: dp_query_def split: option.split)
  then show ?thesis
    unfolding Let_def
    using extension_served.query_call [OF e texts p(1), of _ _ be] raw extension_served.batch_insert_call [OF e texts(1) bs]
      extension_served.delete_calls(1) [OF e texts(1) p(2)]
    by (auto simp: Let_def)
qed

theorem extension_query_refine_witness:
  "dp_delete example_extension ''u'' sample_predicates = - 1"
proof -
  have len: "length (predicates_enc sample_predicates) \<le> MAX_IPC_SIZE"
    by (simp add: predicates_enc_def sample_predicates_def sample_simps counted_enc_def item_enc_def string_enc_def MAX_IPC_SIZE_def)
  show ?thesis
    using extension_query_refine [OF example_extension_ok(1) plain_text _ sample_predicates_wf(1) sample_predicates_parcel(1),
        of "[''c'']" "[sample_bucket]" "''u''" business_error_new] len
    by (simp add: vec_ok_def plain_text sample_bucket_wf Let_def example_extension_ok(2) plain_outcome ext_messages_open stub_refuses_def)
      (simp add: example_provider_end_def)
qed

end
