(* ===== verification/Result_Set_Ipc.thy ===== *)
theory Result_Set_Ipc
  imports Cursor Remote_Call
begin

text \<open>
  \<open>ipc/stub.rs\<close>, \<open>ipc/proxy.rs\<close>, \<open>ipc/interface.rs\<close> and \<open>kvstore_proxy.rs\<close>: a result set behind a remote object.
  The stub answers requests on the result set it holds, the proxy asks for what it has not cached. A remote object of the proxy is a
  function from a code, a request and the state of the other process; the stub as a remote object is \<open>stub_remote\<close>. The theorems compare a
  proxy with the result set itself.
\<close>

section \<open>Codes\<close>

definition ISHARED_RESULT_SET_DESCRIPTOR :: string where
  "ISHARED_RESULT_SET_DESCRIPTOR = ''OHOS.DataShare.ISharedResultSet''"

datatype shared_result_code = FuncGetRowCount | FuncGetAllColumnNames | FuncOnGo | FuncClose

primrec shared_result_code_code :: "shared_result_code \<Rightarrow> u32" where
  "shared_result_code_code FuncGetRowCount = 0"
| "shared_result_code_code FuncGetAllColumnNames = 1"
| "shared_result_code_code FuncOnGo = 2"
| "shared_result_code_code FuncClose = 3"

definition FUNC_BUTT :: u32 where "FUNC_BUTT = 4"
definition E_INVALID_PARCEL :: i32 where "E_INVALID_PARCEL = - 4"
definition INVALID_FD :: i32 where "INVALID_FD = - 1"

section \<open>The stub\<close>

text \<open>\<open>let _ = reply.write(..)\<close>: a write that is refused is not noticed.\<close>

definition try_write :: "writer \<Rightarrow> bytes \<Rightarrow> bytes" where
  "try_write w reply = (case w reply of None \<Rightarrow> reply | Some reply' \<Rightarrow> reply')"

definition handle_get_row_count :: "('a, 'r) parcel_api \<Rightarrow> bytes \<Rightarrow> 's result_set \<Rightarrow> i32 \<times> bytes" where
  "handle_get_row_count P reply rs =
     (case rs_get_row_count rs of
        Inr count \<Rightarrow> (0, try_write (pc_write_i32 P count) (try_write (pc_write_i32 P E_OK) reply))
      | Inl _ \<Rightarrow> (0, try_write (pc_write_i32 P (- 1)) reply))"

definition handle_get_all_column_names :: "('a, 'r) parcel_api \<Rightarrow> bytes \<Rightarrow> 's result_set \<Rightarrow> i32 \<times> bytes" where
  "handle_get_all_column_names P reply rs =
     (case get_all_column_names rs of
        Inr names \<Rightarrow> (0, try_write (pc_write_strings P names) (try_write (pc_write_i32 P E_OK) reply))
      | Inl _ \<Rightarrow> (0, try_write (pc_write_i32 P (- 1)) reply))"

text \<open>\<open>None\<close> is the undefined behaviour of the result set, \<open>created\<close> the answer of the allocation of a block.\<close>

definition handle_on_go :: "('a, 'r) parcel_api \<Rightarrow> (i32 + shared_block) \<Rightarrow> bytes \<Rightarrow> bytes \<Rightarrow> 's result_set \<Rightarrow> (i32 \<times> bytes \<times> 's result_set) option" where
  "handle_on_go P created data reply rs =
     (case pc_read_i32 P data of
        Inl _ \<Rightarrow> Some (0, try_write (pc_write_i32 P (- 1)) reply, rs)
      | Inr (old_row, data) \<Rightarrow>
          (case pc_read_i32 P data of
             Inl _ \<Rightarrow> Some (0, try_write (pc_write_i32 P (- 1)) reply, rs)
           | Inr (new_row, _) \<Rightarrow>
               (case on_go created old_row new_row rs of
                  None \<Rightarrow> None
                | Some (Inr cached_index, rs') \<Rightarrow> Some (0, try_write (pc_write_i32 P cached_index) reply, rs')
                | Some (Inl _, rs') \<Rightarrow> Some (0, try_write (pc_write_i32 P (- 1)) reply, rs'))))"

definition handle_close :: "('a, 'r) parcel_api \<Rightarrow> bytes \<Rightarrow> 's result_set \<Rightarrow> i32 \<times> bytes \<times> 's result_set" where
  "handle_close P reply rs =
     (case rs_close rs of
        (Inr _, rs') \<Rightarrow> (0, try_write (pc_write_i32 P E_OK) reply, rs')
      | (Inl _, rs') \<Rightarrow> (0, try_write (pc_write_i32 P (- 1)) reply, rs'))"

definition stub_on_remote_request :: "('a, 'r) parcel_api \<Rightarrow> (i32 + shared_block) \<Rightarrow> u32 \<Rightarrow> bytes \<Rightarrow> bytes \<Rightarrow> 's result_set
    \<Rightarrow> (i32 \<times> bytes \<times> 's result_set) option" where
  "stub_on_remote_request P created code data reply rs =
     (case pc_read_token P data of
        Inl _ \<Rightarrow> Some (- 1, reply, rs)
      | Inr (remote_descriptor, data) \<Rightarrow>
          if remote_descriptor \<noteq> ISHARED_RESULT_SET_DESCRIPTOR then Some (- 1, reply, rs)
          else if FUNC_BUTT \<le> code then Some (- 1, reply, rs)
          else if code = 0 then Some (let (r, reply) = handle_get_row_count P reply rs in (r, reply, rs))
          else if code = 1 then Some (let (r, reply) = handle_get_all_column_names P reply rs in (r, reply, rs))
          else if code = 2 then handle_on_go P created data reply rs
          else if code = 3 then Some (handle_close P reply rs)
          else Some (- 1, reply, rs))"

section \<open>The proxy\<close>

datatype ipc_status = ServiceDied | OtherStatus

type_synonym 'w remote = "u32 \<Rightarrow> bytes \<Rightarrow> 'w \<Rightarrow> (ipc_status + bytes) \<times> 'w"

record result_set_proxy =
  px_row_count :: i32
  px_column_names :: "string list"

definition result_set_proxy_new :: result_set_proxy where
  "result_set_proxy_new = \<lparr>px_row_count = - 1, px_column_names = []\<rparr>"

text \<open>\<open>create_request\<close>, the writes of a method and \<open>send_request\<close>.\<close>

definition proxy_request :: "('a, 'r) parcel_api \<Rightarrow> 'w remote \<Rightarrow> shared_result_code \<Rightarrow> writer \<Rightarrow> 'w \<Rightarrow> (i32 + bytes) \<times> 'w" where
  "proxy_request P remote cmd w x =
     (case wseq (pc_write_token P ISHARED_RESULT_SET_DESCRIPTOR) w [] of
        None \<Rightarrow> (Inl INVALID_FD, x)
      | Some request \<Rightarrow>
          (case remote (shared_result_code_code cmd) request x of
             (Inr reply, x') \<Rightarrow> (Inr reply, x')
           | (Inl status, x') \<Rightarrow> (Inl (if status = ServiceDied then - 29189 else - 1), x')))"

text \<open>An error code and, where it is \<open>E_OK\<close>, a value.\<close>

definition read_coded :: "('a, 'r) parcel_api \<Rightarrow> 'x reader \<Rightarrow> bytes \<Rightarrow> i32 + 'x" where
  "read_coded P r reply =
     (case pc_read_i32 P reply of
        Inl _ \<Rightarrow> Inl E_INVALID_PARCEL
      | Inr (err_code, rest) \<Rightarrow>
          if err_code \<noteq> E_OK then Inl err_code
          else (case r rest of Inl _ \<Rightarrow> Inl E_INVALID_PARCEL | Inr (x, _) \<Rightarrow> Inr x))"

definition proxy_get_row_count :: "('a, 'r) parcel_api \<Rightarrow> 'w remote \<Rightarrow> result_set_proxy \<Rightarrow> 'w \<Rightarrow> (i32 + i32) \<times> result_set_proxy \<times> 'w" where
  "proxy_get_row_count P remote px x =
     (if 0 \<le>s px_row_count px then (Inr (px_row_count px), px, x)
      else case proxy_request P remote FuncGetRowCount wskip x of
        (Inl e, x') \<Rightarrow> (Inl e, px, x')
      | (Inr reply, x') \<Rightarrow>
          (case read_coded P (pc_read_i32 P) reply of
             Inl e \<Rightarrow> (Inl e, px, x')
           | Inr count \<Rightarrow> (Inr count, px\<lparr>px_row_count := count\<rparr>, x')))"

definition proxy_get_all_column_names :: "('a, 'r) parcel_api \<Rightarrow> 'w remote \<Rightarrow> result_set_proxy \<Rightarrow> 'w
    \<Rightarrow> (i32 + string list) \<times> result_set_proxy \<times> 'w" where
  "proxy_get_all_column_names P remote px x =
     (if px_column_names px \<noteq> [] then (Inr (px_column_names px), px, x)
      else case proxy_request P remote FuncGetAllColumnNames wskip x of
        (Inl e, x') \<Rightarrow> (Inl e, px, x')
      | (Inr reply, x') \<Rightarrow>
          (case read_coded P (pc_read_strings P) reply of
             Inl e \<Rightarrow> (Inl e, px, x')
           | Inr names \<Rightarrow> (Inr names, px\<lparr>px_column_names := names\<rparr>, x')))"

definition proxy_on_go :: "('a, 'r) parcel_api \<Rightarrow> 'w remote \<Rightarrow> i32 \<Rightarrow> i32 \<Rightarrow> 'w \<Rightarrow> (i32 + i32) \<times> 'w" where
  "proxy_on_go P remote old_row_index new_row_index x =
     (case proxy_request P remote FuncOnGo (wseq (pc_write_i32 P old_row_index) (pc_write_i32 P new_row_index)) x of
        (Inl e, x') \<Rightarrow> (Inl e, x')
      | (Inr reply, x') \<Rightarrow>
          (case pc_read_i32 P reply of
             Inl _ \<Rightarrow> (Inl E_INVALID_PARCEL, x')
           | Inr (cached_index, _) \<Rightarrow> (if cached_index <s 0 then Inl (- 1) else Inr cached_index, x')))"

definition proxy_close :: "('a, 'r) parcel_api \<Rightarrow> 'w remote \<Rightarrow> 'w \<Rightarrow> (i32 + i32) \<times> 'w" where
  "proxy_close P remote x =
     (case proxy_request P remote FuncClose wskip x of
        (Inl e, x') \<Rightarrow> (Inl e, x')
      | (Inr reply, x') \<Rightarrow>
          (case pc_read_i32 P reply of
             Inl _ \<Rightarrow> (Inl E_INVALID_PARCEL, x')
           | Inr (err_code, _) \<Rightarrow> (Inr err_code, x')))"

section \<open>Passing a result set on\<close>

text \<open>
  \<open>write_to_parcel\<close>: \<open>created\<close> is the answer of \<open>SharedBlock::create\<close>, \<open>mem\<close> the shared memory of a block and \<open>host\<close>
  makes a remote object that serves the result set. The outer \<open>None\<close> is undefined behaviour of the block.
\<close>

definition write_to_parcel :: "('a, 'r) parcel_api \<Rightarrow> (i32 + shared_block) \<Rightarrow> (shared_block \<Rightarrow> 'a) \<Rightarrow> ('s result_set \<Rightarrow> 'r option)
    \<Rightarrow> 's result_set \<Rightarrow> bytes \<Rightarrow> bytes option option" where
  "write_to_parcel P created mem host rs buf = do {
     ready \<leftarrow> (if rs_block rs = None \<and> rs_bridge rs \<noteq> None
               then case created of
                 Inl _ \<Rightarrow> Some None
               | Inr block \<Rightarrow> do {
                   (_, block) \<leftarrow> set_column_num (of_nat (length (rs_column_names rs))) block;
                   Some (Some (attach_shared_block block rs))
                 }
               else Some (Some rs));
     Some (case ready of
       None \<Rightarrow> None
     | Some rs \<Rightarrow>
         (case host rs of
            None \<Rightarrow> None
          | Some remote \<Rightarrow>
              wseq (pc_write_remote P remote)
                (case rs_block rs of
                   None \<Rightarrow> wskip
                 | Some block \<Rightarrow> wseq (pc_write_string16 P (sb_name block)) (pc_write_ashmem P (mem block))) buf))
   }"

text \<open>The name and the memory are read and dropped, whether they can be read or not; \<open>left\<close> is what a failed read leaves.\<close>

definition read_from_parcel :: "('a, 'r) parcel_api \<Rightarrow> (bytes \<Rightarrow> bytes) \<Rightarrow> bytes \<Rightarrow> (('r \<times> result_set_proxy) \<times> bytes) option" where
  "read_from_parcel P left data =
     (case pc_read_remote P data of
        Inl _ \<Rightarrow> None
      | Inr (remote, data) \<Rightarrow>
          (let data = (case pc_read_string16 P data of Inr (_, rest) \<Rightarrow> rest | Inl _ \<Rightarrow> left data);
               data = (case pc_read_ashmem P data of Inr (_, rest) \<Rightarrow> rest | Inl _ \<Rightarrow> left data)
           in Some ((remote, result_set_proxy_new), data)))"

section \<open>Closing callbacks\<close>

text \<open>\<open>on_close\<close> of a result set: the callback runs when the result set is dropped, once, and its panic is caught.\<close>

record ('s, 'c) owned_result_set = "'s result_set" +
  rs_on_close :: "'c option"

definition set_on_close :: "'c \<Rightarrow> ('s, 'c) owned_result_set \<Rightarrow> ('s, 'c) owned_result_set" where
  "set_on_close f rs = rs\<lparr>rs_on_close := Some f\<rparr>"

definition drop_result_set :: "('s, 'c) owned_result_set \<Rightarrow> 'c list \<times> ('s, 'c) owned_result_set" where
  "drop_result_set rs = ((case rs_on_close rs of None \<Rightarrow> [] | Some f \<Rightarrow> [f]), rs\<lparr>rs_on_close := None\<rparr>)"

section \<open>The key-value service\<close>

definition IKVSTORE_DATA_SERVICE_DESCRIPTOR :: string where
  "IKVSTORE_DATA_SERVICE_DESCRIPTOR = ''OHOS.DistributedKv.IKvStoreDataService''"

datatype kv_store_code = GetFeatureInterface | RegisterClientDeathObserver

primrec kv_store_code_code :: "kv_store_code \<Rightarrow> u32" where
  "kv_store_code_code GetFeatureInterface = 0"
| "kv_store_code_code RegisterClientDeathObserver = 1"

definition get_feature_interface :: "('a, 'r) channel \<Rightarrow> string \<Rightarrow> 'r option" where
  "get_feature_interface X name =
     (let P = ch_api X in
      exchange P IKVSTORE_DATA_SERVICE_DESCRIPTOR (pc_write_string P name) (ch_send X) (kv_store_code_code GetFeatureInterface) None None
        (\<lambda>reply. case pc_read_remote P reply of Inr (r, _) \<Rightarrow> Some r | Inl _ \<Rightarrow> None))"

definition register_client_death_observer :: "('a, 'r) channel \<Rightarrow> string \<Rightarrow> 'r \<Rightarrow> u32" where
  "register_client_death_observer X app_id observer =
     (let P = ch_api X in
      exchange P IKVSTORE_DATA_SERVICE_DESCRIPTOR (wseq (pc_write_string P app_id) (pc_write_remote P observer)) (ch_send X)
        (kv_store_code_code RegisterClientDeathObserver) (- 1) (- 1)
        (\<lambda>reply. case pc_read_i32 P reply of Inr (code, _) \<Rightarrow> ucast code | Inl _ \<Rightarrow> - 1))"

section \<open>A proxy over a stub\<close>

text \<open>The stub as a remote object. A request that the result set does not survive is no answer.\<close>

definition stub_remote :: "('a, 'r) parcel_api \<Rightarrow> (i32 + shared_block) \<Rightarrow> 's result_set remote" where
  "stub_remote P created code data rs =
     (case stub_on_remote_request P created code data [] rs of
        None \<Rightarrow> (Inl ServiceDied, rs)
      | Some (r, reply, rs') \<Rightarrow> (if r = 0 then Inr reply else Inl OtherStatus, rs'))"

datatype rs_call = CallRowCount | CallNames | CallOnGo i32 i32 | CallClose

datatype rs_answer = AnsCount "i32 + i32" | AnsNames "i32 + string list" | AnsRow "i32 + i32" | AnsClosed "i32 + i32"

definition proxy_step :: "('a, 'r) parcel_api \<Rightarrow> 'w remote \<Rightarrow> rs_call \<Rightarrow> result_set_proxy \<times> 'w \<Rightarrow> rs_answer \<times> result_set_proxy \<times> 'w" where
  "proxy_step P remote c = (\<lambda>(px, x).
     case c of
       CallRowCount \<Rightarrow> map_prod AnsCount id (proxy_get_row_count P remote px x)
     | CallNames \<Rightarrow> map_prod AnsNames id (proxy_get_all_column_names P remote px x)
     | CallOnGo i j \<Rightarrow> (let (r, x') = proxy_on_go P remote i j x in (AnsRow r, px, x'))
     | CallClose \<Rightarrow> (let (r, x') = proxy_close P remote x in (AnsClosed r, px, x')))"

text \<open>The result set itself, its errors as the codes the interface knows.\<close>

definition local_step :: "(i32 + shared_block) \<Rightarrow> rs_call \<Rightarrow> 's result_set \<Rightarrow> (rs_answer \<times> 's result_set) option" where
  "local_step created c rs =
     (case c of
        CallRowCount \<Rightarrow> Some (AnsCount (case rs_get_row_count rs of Inr n \<Rightarrow> Inr n | Inl _ \<Rightarrow> Inl (- 1)), rs)
      | CallNames \<Rightarrow> Some (AnsNames (case get_all_column_names rs of Inr ns \<Rightarrow> Inr ns | Inl _ \<Rightarrow> Inl (- 1)), rs)
      | CallOnGo i j \<Rightarrow>
          (case on_go created i j rs of
             None \<Rightarrow> None
           | Some (r, rs') \<Rightarrow> Some (AnsRow (case r of Inr n \<Rightarrow> if n <s 0 then Inl (- 1) else Inr n | Inl _ \<Rightarrow> Inl (- 1)), rs'))
      | CallClose \<Rightarrow> (case rs_close rs of (r, rs') \<Rightarrow> Some (AnsClosed (Inr (if isl r then - 1 else 0)), rs')))"

text \<open>What the proxy has cached is what the open result set would answer.\<close>

definition coherent :: "result_set_proxy \<Rightarrow> 's result_set \<Rightarrow> bool" where
  "coherent px rs \<longleftrightarrow> \<not> rs_is_closed rs \<and> (px_row_count px <s 0 \<or> px_row_count px = rs_count rs)
     \<and> (px_column_names px = [] \<or> px_column_names px = rs_column_names rs)"

lemma coherent_new: "\<not> rs_is_closed rs \<Longrightarrow> coherent result_set_proxy_new rs"
  by (simp add: coherent_def result_set_proxy_new_def word_sless_alt)

lemma on_go_frame:
  assumes "on_go created i j rs = Some (r, rs')"
  shows "rs_count rs' = rs_count rs" "rs_column_names rs' = rs_column_names rs" "rs_is_closed rs' = rs_is_closed rs"
proof -
  have "rs_count rs' = rs_count rs \<and> rs_column_names rs' = rs_column_names rs \<and> rs_is_closed rs' = rs_is_closed rs"
  proof (cases "rs_bridge rs")
    case None
    then show ?thesis using assms by (auto simp: on_go_def)
  next
    case (Some br)
    define block where "block = (case rs_block rs of Some b \<Rightarrow> Inr b
      | None \<Rightarrow> (case created of Inl _ \<Rightarrow> Inl ErrOutOfMemory | Inr b \<Rightarrow> Inr b))"
    show ?thesis
    proof (cases block)
      case (Inl e)
      then show ?thesis using assms by (auto simp: on_go_def Some block_def)
    next
      case (Inr b)
      then obtain fr s w where fill: "fill_block rs br i j (from_block b) = Some (fr, s, w)"
        using assms by (auto simp: on_go_def Some block_def bind_eq_Some_conv)
      show ?thesis
      proof (cases "fst (take_block w)")
        case None
        then show ?thesis using assms Inr by (auto simp: on_go_def Some block_def fill Let_def)
      next
        case blk: (Some blk)
        then show ?thesis using assms Inr by (auto simp: on_go_def Some block_def fill Let_def bind_eq_Some_conv split: if_splits)
      qed
    qed
  qed
  then show "rs_count rs' = rs_count rs" "rs_column_names rs' = rs_column_names rs" "rs_is_closed rs' = rs_is_closed rs" by blast+
qed

lemma try_write_Some: "w reply = Some reply' \<Longrightarrow> try_write w reply = reply'"
  by (simp add: try_write_def)

locale transport =
  fixes P :: "('a, 'r) parcel_api"
  assumes transport_ok: "parcel_ok P" and transport_open: "parcel_accepts P"
begin

lemma accepting: "accepts (pc_write_i32 P i)" "accepts (pc_write_token P t)" "accepts (pc_write_strings P ss)"
  using open_parcel.prims_accept [OF open_parcel.intro [OF transport_open]] by blast+

lemma written: "\<exists>bs. try_write (pc_write_i32 P i) [] = bs \<and> (\<forall>rest. pc_read_i32 P (bs @ rest) = Inr (i, rest))"
proof -
  obtain bs where w: "pc_write_i32 P i [] = Some bs" using accepting(1) [of i] by (auto simp: accepts_def)
  obtain b where "bs = [] @ b" "\<And>rest. pc_read_i32 P (b @ rest) = Inr (i, rest)"
    by (rule transfersD [OF parcel.prims(1) [OF parcel.intro [OF transport_ok]] w]) blast
  then show ?thesis using try_write_Some [of "pc_write_i32 P i", OF w] by auto
qed

lemma read_one: "pc_read_i32 P (try_write (pc_write_i32 P i) []) = Inr (i, [])"
proof -
  obtain bs where "try_write (pc_write_i32 P i) [] = bs" "\<forall>rest. pc_read_i32 P (bs @ rest) = Inr (i, rest)" using written by blast
  then show ?thesis by (metis append_Nil2)
qed

lemma read_then:
  assumes "accepts w" "transfers w r y"
  shows "\<exists>rest. pc_read_i32 P (try_write w (try_write (pc_write_i32 P i) [])) = Inr (i, rest) \<and> r rest = Inr (y, [])"
proof -
  obtain b1 where b1: "try_write (pc_write_i32 P i) [] = b1" "\<forall>rest. pc_read_i32 P (b1 @ rest) = Inr (i, rest)" using written by blast
  obtain b where b: "w b1 = Some b" using assms(1) by (auto simp: accepts_def)
  obtain b2 where b2: "b = b1 @ b2" "\<And>rest. r (b2 @ rest) = Inr (y, rest)" using transfersD [OF assms(2) b] by metis
  show ?thesis using b1 b2(2) [of "[]"] by (intro exI [of _ b2]) (simp add: try_write_Some [of w, OF b] b2(1))
qed

end

context transport
begin

text \<open>What the stub does with the request of a method.\<close>

lemma request_sent:
  assumes "accepts w" "transfers w r y"
  shows "\<exists>data rest. wseq (pc_write_token P ISHARED_RESULT_SET_DESCRIPTOR) w [] = Some data
    \<and> pc_read_token P data = Inr (ISHARED_RESULT_SET_DESCRIPTOR, rest) \<and> r rest = Inr (y, [])"
proof -
  obtain t where t: "pc_write_token P ISHARED_RESULT_SET_DESCRIPTOR [] = Some t" using accepting(2) by (auto simp: accepts_def)
  obtain data where d: "w t = Some data" using assms(1) by (auto simp: accepts_def)
  have "\<And>rest. pc_read_token P (t @ rest) = Inr (ISHARED_RESULT_SET_DESCRIPTOR, rest)"
    using transfersD [OF parcel.prims(9) [OF parcel.intro [OF transport_ok]] t] by (metis append_Nil)
  moreover obtain bs where "data = t @ bs" "r bs = Inr (y, [])" using transfersD [OF assms(2) d] by (metis append_Nil2)
  ultimately show ?thesis by (simp add: wseq_def t d)
qed

lemma plain_request:
  "\<exists>data rest. wseq (pc_write_token P ISHARED_RESULT_SET_DESCRIPTOR) wskip [] = Some data
    \<and> pc_read_token P data = Inr (ISHARED_RESULT_SET_DESCRIPTOR, rest)"
  using request_sent [OF accepts_skip transfers_skip [of "()"]] by blast

lemma row_count_step:
  assumes "coherent px rs"
  shows "\<exists>px'. proxy_step P (stub_remote P created) CallRowCount (px, rs) = (AnsCount (Inr (rs_count rs)), px', rs) \<and> coherent px' rs"
proof (cases "0 \<le>s px_row_count px")
  case True
  then have "px_row_count px = rs_count rs" using assms by (auto simp: coherent_def word_sless_alt word_sle_eq)
  then show ?thesis using True assms by (auto simp: proxy_step_def proxy_get_row_count_def)
next
  case False
  obtain data rest where d: "wseq (pc_write_token P ISHARED_RESULT_SET_DESCRIPTOR) wskip [] = Some data"
    "pc_read_token P data = Inr (ISHARED_RESULT_SET_DESCRIPTOR, rest)" using plain_request by blast
  have rs: "rs_get_row_count rs = Inr (rs_count rs)" using assms by (simp add: coherent_def rs_get_row_count_def unless_closed_def)
  obtain b where b: "pc_read_i32 P (try_write (pc_write_i32 P (rs_count rs)) (try_write (pc_write_i32 P E_OK) [])) = Inr (E_OK, b)"
    "pc_read_i32 P b = Inr (rs_count rs, [])"
    using read_then [OF accepting(1) parcel.prims(1) [OF parcel.intro [OF transport_ok]]] by blast
  show ?thesis
    using assms False
    by (auto simp: proxy_step_def proxy_get_row_count_def proxy_request_def d stub_remote_def stub_on_remote_request_def FUNC_BUTT_def
        handle_get_row_count_def rs read_coded_def b coherent_def word_le_nat_alt)
qed

lemma names_step:
  assumes "coherent px rs" "list_all (pc_text P) (rs_column_names rs)"
  shows "\<exists>px'. proxy_step P (stub_remote P created) CallNames (px, rs) = (AnsNames (Inr (rs_column_names rs)), px', rs) \<and> coherent px' rs"
proof (cases "px_column_names px = []")
  case False
  then have "px_column_names px = rs_column_names rs" using assms by (auto simp: coherent_def)
  then show ?thesis using False assms by (auto simp: proxy_step_def proxy_get_all_column_names_def)
next
  case True
  obtain data rest where d: "wseq (pc_write_token P ISHARED_RESULT_SET_DESCRIPTOR) wskip [] = Some data"
    "pc_read_token P data = Inr (ISHARED_RESULT_SET_DESCRIPTOR, rest)" using plain_request by blast
  have rs: "get_all_column_names rs = Inr (rs_column_names rs)" using assms by (simp add: coherent_def get_all_column_names_def unless_closed_def)
  obtain b where b: "pc_read_i32 P (try_write (pc_write_strings P (rs_column_names rs)) (try_write (pc_write_i32 P E_OK) [])) = Inr (E_OK, b)"
    "pc_read_strings P b = Inr (rs_column_names rs, [])"
    using read_then [OF accepting(3) parcel.texts(3) [OF parcel.intro [OF transport_ok] assms(2)]] by blast
  show ?thesis
    using assms True
    by (auto simp: proxy_step_def proxy_get_all_column_names_def proxy_request_def d stub_remote_def stub_on_remote_request_def FUNC_BUTT_def
        handle_get_all_column_names_def rs read_coded_def b coherent_def word_le_nat_alt)
qed

lemma on_go_step:
  assumes "local_step created (CallOnGo i j) rs = Some (answer, rs')"
  shows "proxy_step P (stub_remote P created) (CallOnGo i j) (px, rs) = (answer, px, rs')"
proof -
  note i32 = parcel.prims(1) [OF parcel.intro [OF transport_ok]]
  have t: "transfers (wseq (pc_write_i32 P i) (pc_write_i32 P j)) (pair_reader (pc_read_i32 P) (pc_read_i32 P)) (i, j)"
    by (rule transfers_pair [OF i32 i32])
  obtain data rest where d: "wseq (pc_write_token P ISHARED_RESULT_SET_DESCRIPTOR) (wseq (pc_write_i32 P i) (pc_write_i32 P j)) [] = Some data"
    "pc_read_token P data = Inr (ISHARED_RESULT_SET_DESCRIPTOR, rest)" "pair_reader (pc_read_i32 P) (pc_read_i32 P) rest = Inr ((i, j), [])"
    using request_sent [OF accepts_seq [OF accepting(1) accepting(1)] t] by blast
  then obtain mid where m: "pc_read_i32 P rest = Inr (i, mid)" "pc_read_i32 P mid = Inr (j, [])"
    by (auto simp: pair_reader_def rbind_def rret_def split: sum.splits)
  obtain r where go: "on_go created i j rs = Some (r, rs')"
    and answer: "answer = AnsRow (case r of Inr n \<Rightarrow> if n <s 0 then Inl (- 1) else Inr n | Inl _ \<Rightarrow> Inl (- 1))"
    using assms by (auto simp: local_step_def split: option.splits)
  have neg: "(- 1 :: i32) <s 0" by (simp add: word_sless_alt)
  show ?thesis
    by (cases r) (simp_all add: proxy_step_def proxy_on_go_def proxy_request_def d(1,2) stub_remote_def stub_on_remote_request_def FUNC_BUTT_def
        handle_on_go_def m go answer read_one neg word_le_nat_alt)
qed

lemma close_step:
  assumes "local_step created CallClose rs = Some (answer, rs')"
  shows "proxy_step P (stub_remote P created) CallClose (px, rs) = (answer, px, rs')"
proof -
  obtain data rest where d: "wseq (pc_write_token P ISHARED_RESULT_SET_DESCRIPTOR) wskip [] = Some data"
    "pc_read_token P data = Inr (ISHARED_RESULT_SET_DESCRIPTOR, rest)" using plain_request by blast
  obtain r where c: "rs_close rs = (r, rs')" and answer: "answer = AnsClosed (Inr (if isl r then - 1 else 0))"
    using assms by (auto simp: local_step_def split: prod.splits)
  have "handle_close P [] rs = (0, try_write (pc_write_i32 P (if isl r then - 1 else 0)) [], rs')"
    by (cases r) (simp_all add: handle_close_def c E_OK_def)
  then show ?thesis
    by (simp add: proxy_step_def proxy_close_def proxy_request_def d stub_remote_def stub_on_remote_request_def FUNC_BUTT_def
        answer read_one word_le_nat_alt)
qed

end

section \<open>Properties\<close>

fun proxy_run :: "('a, 'r) parcel_api \<Rightarrow> 'w remote \<Rightarrow> rs_call list \<Rightarrow> result_set_proxy \<times> 'w \<Rightarrow> rs_answer list \<times> result_set_proxy \<times> 'w" where
  "proxy_run P remote [] s = ([], s)"
| "proxy_run P remote (c # cs) s =
     (let (answer, s') = proxy_step P remote c s; (answers, s'') = proxy_run P remote cs s' in (answer # answers, s''))"

fun local_run :: "(i32 + shared_block) \<Rightarrow> rs_call list \<Rightarrow> 's result_set \<Rightarrow> (rs_answer list \<times> 's result_set) option" where
  "local_run created [] rs = Some ([], rs)"
| "local_run created (c # cs) rs =
     (case local_step created c rs of
        None \<Rightarrow> None
      | Some (answer, rs') \<Rightarrow> map_option (map_prod (Cons answer) id) (local_run created cs rs'))"

lemma step_simulated:
  assumes P: "parcel_ok P" "parcel_accepts P" and co: "coherent px rs" and names: "list_all (pc_text P) (rs_column_names rs)"
    and step: "local_step created c rs = Some (answer, rs')"
  shows "\<exists>px'. proxy_step P (stub_remote P created) c (px, rs) = (answer, px', rs')
    \<and> (c \<noteq> CallClose \<longrightarrow> coherent px' rs' \<and> rs_column_names rs' = rs_column_names rs)"
proof -
  note tr = transport.intro [OF P]
  have opened: "\<not> rs_is_closed rs" using co by (simp add: coherent_def)
  show ?thesis
  proof (cases c)
    case CallRowCount
    then have "answer = AnsCount (Inr (rs_count rs))" "rs' = rs"
      using step opened by (auto simp: local_step_def rs_get_row_count_def unless_closed_def)
    then show ?thesis using transport.row_count_step [OF tr co, of created] by (auto simp: CallRowCount)
  next
    case CallNames
    then have "answer = AnsNames (Inr (rs_column_names rs))" "rs' = rs"
      using step opened by (auto simp: local_step_def get_all_column_names_def unless_closed_def)
    then show ?thesis using transport.names_step [OF tr co names, of created] by (auto simp: CallNames)
  next
    case (CallOnGo i j)
    then obtain r where go: "on_go created i j rs = Some (r, rs')" using step by (auto simp: local_step_def split: option.splits)
    have "coherent px rs'" "rs_column_names rs' = rs_column_names rs" using co by (simp_all add: coherent_def on_go_frame [OF go])
    moreover have "proxy_step P (stub_remote P created) c (px, rs) = (answer, px, rs')"
      using transport.on_go_step [OF tr] step unfolding CallOnGo by blast
    ultimately show ?thesis by blast
  next
    case CallClose
    then have "proxy_step P (stub_remote P created) c (px, rs) = (answer, px, rs')"
      using transport.close_step [OF tr] step by blast
    then show ?thesis using CallClose by blast
  qed
qed

text \<open>
  C32: A proxy over the stub of an open result set answers every sequence of calls that ends with closing at the latest exactly as the result
  set itself would, errors as -1 and negative page positions as failed pages, and takes the result set through the same states. The counts and names it has
  cached make no difference, since no call but closing changes them.
\<close>

theorem proxy_refines_result_set:
  assumes P: "parcel_ok P" "parcel_accepts P" and co: "coherent px rs" and names: "list_all (pc_text P) (rs_column_names rs)"
    and "CallClose \<notin> set (butlast cs)" and "local_run created cs rs = Some (answers, rs')"
  shows "\<exists>px'. proxy_run P (stub_remote P created) cs (px, rs) = (answers, px', rs')"
  using assms(3-)
proof (induction cs arbitrary: px rs answers)
  case (Cons c cs)
  obtain answer rs1 rest where step: "local_step created c rs = Some (answer, rs1)"
    and run: "local_run created cs rs1 = Some (rest, rs')" and answers: "answers = answer # rest"
    using Cons.prems(4) by (auto split: option.splits)
  obtain px1 where px1: "proxy_step P (stub_remote P created) c (px, rs) = (answer, px1, rs1)"
    "c \<noteq> CallClose \<longrightarrow> coherent px1 rs1 \<and> rs_column_names rs1 = rs_column_names rs"
    using step_simulated [OF P Cons.prems(1,2) step] by blast
  show ?case
  proof (cases "cs = []")
    case True
    then show ?thesis using run by (simp add: answers px1(1))
  next
    case False
    then have "c \<noteq> CallClose" "CallClose \<notin> set (butlast cs)" using Cons.prems(3) by auto
    then obtain px' where "proxy_run P (stub_remote P created) cs (px1, rs1) = (rest, px', rs')"
      using Cons.IH [OF _ _ _ run] px1(2) Cons.prems(2) by fastforce
    then show ?thesis by (simp add: answers px1(1))
  qed
qed simp

definition example_set :: "unit result_set" where
  "example_set = result_set_new\<lparr>rs_column_names := [''id''], rs_count := 3\<rparr>"

interpretation plain_transport: transport plain_parcel
  by unfold_locales (rule plain_parcel_ok plain_parcel_accepts)+

theorem proxy_refines_result_set_witness:
  "\<exists>px'. proxy_run plain_parcel (stub_remote plain_parcel (Inl 0)) [CallRowCount, CallNames, CallRowCount, CallOnGo 0 2, CallClose]
       (result_set_proxy_new, example_set)
     = ([AnsCount (Inr 3), AnsNames (Inr [''id'']), AnsCount (Inr 3), AnsRow (Inl (- 1)), AnsClosed (Inr 0)], px', example_set\<lparr>rs_is_closed := True\<rparr>)"
proof (rule proxy_refines_result_set [OF plain_parcel_ok plain_parcel_accepts])
  show "coherent result_set_proxy_new example_set" by (rule coherent_new) (simp add: example_set_def result_set_new_def)
  show "list_all (pc_text plain_parcel) (rs_column_names example_set)" by (simp add: example_set_def plain_text)
  show "local_run (Inl 0) [CallRowCount, CallNames, CallRowCount, CallOnGo 0 2, CallClose] example_set
    = Some ([AnsCount (Inr 3), AnsNames (Inr [''id'']), AnsCount (Inr 3), AnsRow (Inl (- 1)), AnsClosed (Inr 0)], example_set\<lparr>rs_is_closed := True\<rparr>)"
    by (simp add: local_step_def rs_get_row_count_def get_all_column_names_def unless_closed_def on_go_def rs_close_def example_set_def
        result_set_new_def word_sless_alt)
qed simp

text \<open>
  After closing, the cache is stale. A proxy that has asked for the row count of an open result set with rows answers it again after it has
  closed the set, without asking, although the result set refuses the question.
\<close>

theorem proxy_stale_after_close:
  assumes P: "parcel_ok P" "parcel_accepts P" and opened: "\<not> rs_is_closed rs" and rows: "0 < sint (rs_count rs)"
  shows "\<exists>px' rs'. proxy_run P (stub_remote P created) [CallRowCount, CallClose, CallRowCount] (result_set_proxy_new, rs)
      = ([AnsCount (Inr (rs_count rs)), AnsClosed (Inr 0), AnsCount (Inr (rs_count rs))], px', rs')
    \<and> rs_get_row_count rs' = Inl ErrInvalidOperation"
proof -
  note tr = transport.intro [OF P]
  obtain px1 where px1: "proxy_step P (stub_remote P created) CallRowCount (result_set_proxy_new, rs) = (AnsCount (Inr (rs_count rs)), px1, rs)"
    using transport.row_count_step [OF tr coherent_new [OF opened]] by blast
  have cached: "px_row_count px1 = rs_count rs"
    using px1 by (auto simp: proxy_step_def proxy_get_row_count_def result_set_proxy_new_def split: prod.splits sum.splits if_splits)
  obtain rs' where c: "rs_close rs = (Inr (), rs')" and closed: "rs_is_closed rs'" using opened by (simp add: rs_close_def)
  have "proxy_step P (stub_remote P created) CallClose (px1, rs) = (AnsClosed (Inr 0), px1, rs')"
    by (rule transport.close_step [OF tr]) (simp add: local_step_def c)
  moreover have "proxy_step P (stub_remote P created) CallRowCount (px1, rs') = (AnsCount (Inr (rs_count rs)), px1, rs')"
    using rows by (simp add: proxy_step_def proxy_get_row_count_def cached word_sle_eq)
  ultimately show ?thesis
    using px1 closed by (simp add: rs_get_row_count_def unless_closed_def)
qed

theorem proxy_stale_after_close_witness:
  "\<exists>px' rs'. proxy_run plain_parcel (stub_remote plain_parcel (Inl 0)) [CallRowCount, CallClose, CallRowCount] (result_set_proxy_new, example_set)
     = ([AnsCount (Inr 3), AnsClosed (Inr 0), AnsCount (Inr 3)], px', rs') \<and> rs_get_row_count rs' = Inl ErrInvalidOperation"
  using proxy_stale_after_close [OF plain_parcel_ok plain_parcel_accepts, of example_set "Inl 0"]
  by (simp add: example_set_def result_set_new_def)

text \<open>
  A result set without a block is passed on as its remote object alone, but the reader always takes a text and a region off the
  parcel, so that what follows the result set in the parcel is lost.
\<close>

theorem blockless_result_set_misaligned:
  assumes P: "parcel_ok P" and host: "host rs = Some r" and none: "rs_block rs = None" "rs_bridge rs = None"
    and tx: "pc_text P s" and follow: "wseq (pc_write_remote P r) (wseq (pc_write_string16 P s) (pc_write_ashmem P a)) [] = Some whole"
  shows "\<exists>bs rest. write_to_parcel P created mem host rs [] = Some (Some bs) \<and> pc_write_remote P r [] = Some bs \<and> whole = bs @ rest
    \<and> (\<exists>px. read_from_parcel P left whole = Some ((r, px), []))"
proof -
  note p = parcel.intro [OF P]
  obtain bs where bs: "pc_write_remote P r [] = Some bs" using follow by (auto simp: wseq_def split: option.splits)
  have rd: "\<And>rest. pc_read_remote P (bs @ rest) = Inr (r, rest)" using transfersD [OF parcel.prims(8) [OF p] bs] by (metis append_Nil)
  have w: "wseq (pc_write_string16 P s) (pc_write_ashmem P a) bs = Some whole" using follow bs by (simp add: wseq_def)
  have "transfers (wseq (pc_write_string16 P s) (pc_write_ashmem P a)) (pair_reader (pc_read_string16 P) (pc_read_ashmem P)) (s, a)"
    by (rule transfers_pair [OF parcel.texts(2) [OF p tx] parcel.prims(7) [OF p]])
  from transfersD [OF this w] obtain rest where rest: "whole = bs @ rest" "pair_reader (pc_read_string16 P) (pc_read_ashmem P) rest = Inr ((s, a), [])"
    by (metis append_Nil2)
  then obtain mid where "pc_read_string16 P rest = Inr (s, mid)" "pc_read_ashmem P mid = Inr (a, [])"
    by (auto simp: pair_reader_def rbind_def rret_def split: sum.splits)
  then have "read_from_parcel P left whole = Some ((r, result_set_proxy_new), [])" by (simp add: read_from_parcel_def rest(1) rd)
  moreover have "write_to_parcel P created mem host rs [] = Some (Some bs)"
    by (simp add: write_to_parcel_def none host bs wseq_def wskip_def)
  ultimately show ?thesis using bs rest(1) by blast
qed

end
