(* ===== verification/Observer_Stub.thy ===== *)
theory Observer_Stub
  imports Parcel_Types Remote_Call
begin

text \<open>
  \<open>subscriber/observer_stub.rs\<close>: the remote objects through which the service reports changes. A request is decoded, the
  rows of a change that came in shared memory are read out of it, and the callback is called; what is delivered is the list of calls. The region is read at
  32-bit offsets the region itself determines, through pointers that need not be aligned: \<open>None\<close> is undefined behaviour there. The conversion \<open>from_utf8_lossy\<close> of the standard library is modelled byte by byte.
\<close>

section \<open>Lossy conversion\<close>

definition utf8_second :: "nat \<Rightarrow> nat \<Rightarrow> bool" where
  "utf8_second b c \<longleftrightarrow>
     (if b = 0xE0 then 0xA0 \<le> c \<and> c \<le> 0xBF
      else if b = 0xED then 0x80 \<le> c \<and> c \<le> 0x9F
      else if b = 0xF0 then 0x90 \<le> c \<and> c \<le> 0xBF
      else if b = 0xF4 then 0x80 \<le> c \<and> c \<le> 0x8F else utf8_cont c)"

definition replacement :: "nat list" where "replacement = [0xEF, 0xBF, 0xBD]"

text \<open>Every maximal piece that is not the start of a character becomes one replacement character.\<close>

fun lossy_codes :: "nat list \<Rightarrow> nat list" where
  "lossy_codes [] = []"
| "lossy_codes (b # bs) =
     (if b < 0x80 then b # lossy_codes bs
      else if 0xC2 \<le> b \<and> b \<le> 0xDF then
        (case bs of
           c # r \<Rightarrow> if utf8_cont c then b # c # lossy_codes r else replacement @ lossy_codes bs
         | [] \<Rightarrow> replacement)
      else if 0xE0 \<le> b \<and> b \<le> 0xEF then
        (case bs of
           c # r \<Rightarrow>
             if utf8_second b c then
               (case r of
                  d # q \<Rightarrow> if utf8_cont d then b # c # d # lossy_codes q else replacement @ lossy_codes r
                | [] \<Rightarrow> replacement)
             else replacement @ lossy_codes bs
         | [] \<Rightarrow> replacement)
      else if 0xF0 \<le> b \<and> b \<le> 0xF4 then
        (case bs of
           c # r \<Rightarrow>
             if utf8_second b c then
               (case r of
                  d # q \<Rightarrow>
                    if utf8_cont d then
                      (case q of
                         e # p \<Rightarrow> if utf8_cont e then b # c # d # e # lossy_codes p else replacement @ lossy_codes q
                       | [] \<Rightarrow> replacement)
                    else replacement @ lossy_codes r
                | [] \<Rightarrow> replacement)
             else replacement @ lossy_codes bs
         | [] \<Rightarrow> replacement)
      else replacement @ lossy_codes bs)"

definition from_utf8_lossy :: "bytes \<Rightarrow> string" where
  "from_utf8_lossy bs = map char_of (lossy_codes (map unat bs))"

section \<open>Rows in shared memory\<close>

definition MAX_VEC_SIZE :: i32 where "MAX_VEC_SIZE = 1024"

text \<open>
  \<open>*(ptr as *const i32)\<close>, where \<open>ptr\<close> is what \<open>read_from_ashmem\<close> returned. A mapping starts at the beginning of a page and \<open>ptr\<close> lies the
  offset behind it, so it is aligned exactly when the offset is a multiple of 4; reading an \<open>i32\<close> through another pointer is undefined behaviour.
\<close>

datatype 'x pointer_read = NullPointer | Misaligned | ReadValue 'x

definition ash_read_i32 :: "'a ashmem_api \<Rightarrow> i32 \<Rightarrow> 'a \<Rightarrow> i32 pointer_read" where
  "ash_read_i32 api off a =
     (case ash_read api 4 off a of
        None \<Rightarrow> NullPointer
      | Some bs \<Rightarrow>
          if unat off mod 4 \<noteq> 0 then Misaligned
          else (case read_basic bs of Inr (v, _) \<Rightarrow> ReadValue v | Inl _ \<Rightarrow> NullPointer))"

text \<open>
  The loop over the texts: those read before the first that cannot be read. A slice of negative length is undefined behaviour too, where
  \<open>read_from_ashmem\<close> returns a pointer for such a length at all.
\<close>

primrec read_region_texts :: "'a ashmem_api \<Rightarrow> 'a \<Rightarrow> nat \<Rightarrow> i32 \<Rightarrow> string list option" where
  "read_region_texts api a 0 off = Some []"
| "read_region_texts api a (Suc n) off =
     (case ash_read_i32 api off a of
        NullPointer \<Rightarrow> Some []
      | Misaligned \<Rightarrow> None
      | ReadValue data_len \<Rightarrow>
          (case ash_read api data_len (off + 4) a of
             None \<Rightarrow> Some []
           | Some bs \<Rightarrow>
               if data_len <s 0 then None
               else map_option (\<lambda>texts. from_utf8_lossy bs # texts) (read_region_texts api a n (off + 4 + data_len))))"

text \<open>The node afterwards, and the region that was closed without being unmapped.\<close>

definition deserialize_data_from_ashmem :: "'a ashmem_api \<Rightarrow> 'a rdb_change_node \<Rightarrow> ('a rdb_change_node \<times> 'a list) option" where
  "deserialize_data_from_ashmem api node =
     (case rn_memory node of
        None \<Rightarrow> Some (node, [])
      | Some a \<Rightarrow>
          (case ash_map_read_write api a of
             (False, a) \<Rightarrow> Some (node\<lparr>rn_memory := None\<rparr>, [ash_close api a])
           | (True, a) \<Rightarrow>
               (case ash_read_i32 api 0 a of
                  NullPointer \<Rightarrow> Some (node\<lparr>rn_memory := Some a\<rparr>, [])
                | Misaligned \<Rightarrow> None
                | ReadValue vec_len \<Rightarrow>
                    if vec_len <s 0 \<or> MAX_VEC_SIZE <s vec_len then Some (node\<lparr>rn_memory := Some a\<rparr>, [])
                    else map_option (\<lambda>texts. (node\<lparr>rn_memory := Some a, rn_data := rn_data node @ texts\<rparr>, []))
                      (read_region_texts api a (count_of vec_len) 4))))"

text \<open>The node the callback gets, and the regions that were closed.\<close>

definition recover_rdb_change_node_data :: "'a ashmem_api \<Rightarrow> 'a rdb_change_node \<Rightarrow> ('a rdb_change_node \<times> 'a list) option" where
  "recover_rdb_change_node_data api node =
     (if \<not> rn_is_shared_memory node then Some (node, [])
      else map_option
        (\<lambda>(node, closed). (node\<lparr>rn_memory := None, rn_is_shared_memory := False, rn_size := 0\<rparr>,
           closed @ (case rn_memory node of Some a \<Rightarrow> [ash_close api (ash_unmap api a)] | None \<Rightarrow> [])))
        (deserialize_data_from_ashmem api node))"

section \<open>The stubs\<close>

text \<open>A stub is its callback, \<open>None\<close> after \<open>clear_callback\<close>; a request gives its result and the calls made.\<close>

definition stub_new :: "'c \<Rightarrow> 'c option" where "stub_new callback = Some callback"

definition clear_callback :: "'c option \<Rightarrow> 'c option" where "clear_callback callback = None"

definition call_back :: "'c option \<Rightarrow> 'x \<Rightarrow> ('c \<times> 'x) list" where
  "call_back callback x = (case callback of Some c \<Rightarrow> [(c, x)] | None \<Rightarrow> [])"

definition on_change_from_rdb :: "'a ashmem_api \<Rightarrow> 'c option \<Rightarrow> 'a rdb_change_node \<Rightarrow> ('c \<times> 'a rdb_change_node) list option" where
  "on_change_from_rdb api callback node = map_option (\<lambda>(node, _). call_back callback node) (recover_rdb_change_node_data api node)"

definition rdb_on_remote_request :: "('a, 'r) parcel_api \<Rightarrow> 'a ashmem_api \<Rightarrow> 'c option \<Rightarrow> u32 \<Rightarrow> bytes
    \<Rightarrow> (i32 \<times> ('c \<times> 'a rdb_change_node) list) option" where
  "rdb_on_remote_request P api callback code data =
     (case pc_read_token P data of
        Inl _ \<Rightarrow> Some (- 1, [])
      | Inr (_, data) \<Rightarrow>
          if code \<noteq> 0 then Some (- 1, [])
          else (case deserialize_change_node P data of
                  Inr (node, _) \<Rightarrow> map_option (Pair 0) (on_change_from_rdb api callback node)
                | Inl _ \<Rightarrow> Some (- 1, [])))"

definition on_change_from_published_data :: "'c option \<Rightarrow> 'a published_data_change_node \<Rightarrow> ('c \<times> 'a published_data_change_node) list" where
  "on_change_from_published_data callback node = call_back callback node"

definition published_on_remote_request :: "('a, 'r) parcel_api \<Rightarrow> (bytes \<Rightarrow> bytes) \<Rightarrow> 'c option \<Rightarrow> u32 \<Rightarrow> bytes
    \<Rightarrow> i32 \<times> ('c \<times> 'a published_data_change_node) list" where
  "published_on_remote_request P left callback code data =
     (case pc_read_token P data of
        Inl _ \<Rightarrow> (- 1, [])
      | Inr (_, data) \<Rightarrow>
          (let (owner_bundle_name, data) = read_or left (pc_read_string P) [] data;
               (datas, data) = read_lossy_vec left P (deserialize_published_item P) data
           in (0, on_change_from_published_data callback \<lparr>cn_owner_bundle_name = owner_bundle_name, cn_datas = datas\<rparr>)))"

text \<open>Every change of the announced number is made, from defaults where nothing can be read.\<close>

primrec read_proxy_changes :: "('a, 'r) parcel_api \<Rightarrow> (bytes \<Rightarrow> bytes) \<Rightarrow> nat \<Rightarrow> bytes \<Rightarrow> data_proxy_change_info list" where
  "read_proxy_changes P left 0 data = []"
| "read_proxy_changes P left (Suc n) data =
     (let (change_type_val, data) = read_or left (pc_read_u32 P) 0 data;
          (uri, data) = read_or left (pc_read_string P) [] data;
          (v, data) = read_or left (deserialize_proxy_value P) data_proxy_value_default data
      in \<lparr>pi_change_type = change_type_from_u32 change_type_val, pi_uri = uri, pi_value = v\<rparr> # read_proxy_changes P left n data)"

definition on_change_from_proxy_data :: "'c option \<Rightarrow> data_proxy_change_info list \<Rightarrow> ('c \<times> data_proxy_change_info list) list" where
  "on_change_from_proxy_data callback changes = call_back callback changes"

definition proxy_on_remote_request :: "('a, 'r) parcel_api \<Rightarrow> (bytes \<Rightarrow> bytes) \<Rightarrow> 'c option \<Rightarrow> u32 \<Rightarrow> bytes
    \<Rightarrow> i32 \<times> ('c \<times> data_proxy_change_info list) list" where
  "proxy_on_remote_request P left callback code data =
     (case pc_read_token P data of
        Inl _ \<Rightarrow> (- 1, [])
      | Inr (_, data) \<Rightarrow>
          (let (count, data) = read_or left (pc_read_i32 P) 0 data
           in (0, on_change_from_proxy_data callback (read_proxy_changes P left (count_of count) data))))"

section \<open>What is delivered\<close>

lemma utf8_codes_replacement [simp]: "utf8_codes (replacement @ cs) = utf8_codes cs" "utf8_codes replacement"
  by (simp_all add: replacement_def utf8_cont_def)

lemma byte_classes:
  obtains "b < (0x80 :: nat)" | "0xC2 \<le> b \<and> b \<le> 0xDF" | "0xE0 \<le> b \<and> b \<le> 0xEF" | "0xF0 \<le> b \<and> b \<le> 0xF4"
    | "\<not> b < 0x80" "\<not> (0xC2 \<le> b \<and> b \<le> 0xDF)" "\<not> (0xE0 \<le> b \<and> b \<le> 0xEF)" "\<not> (0xF0 \<le> b \<and> b \<le> 0xF4)"
  by blast

lemma valid_steps:
  "b < 0x80 \<Longrightarrow> utf8_codes (b # bs) = utf8_codes bs"
  "0xC2 \<le> b \<and> b \<le> 0xDF \<Longrightarrow> utf8_codes (b # bs) = (\<exists>c r. bs = c # r \<and> utf8_cont c \<and> utf8_codes r)"
  "0xE0 \<le> b \<and> b \<le> 0xEF \<Longrightarrow> utf8_codes (b # bs) = (\<exists>c d r. bs = c # d # r \<and> utf8_second b c \<and> utf8_cont d \<and> utf8_codes r)"
  "0xF0 \<le> b \<and> b \<le> 0xF4 \<Longrightarrow>
     utf8_codes (b # bs) = (\<exists>c d e r. bs = c # d # e # r \<and> utf8_second b c \<and> utf8_cont d \<and> utf8_cont e \<and> utf8_codes r)"
  by (auto simp: utf8_second_def split: list.splits)

lemma lossy_steps:
  "b < 0x80 \<Longrightarrow> lossy_codes (b # bs) = b # lossy_codes bs"
  "0xC2 \<le> b \<and> b \<le> 0xDF \<Longrightarrow> lossy_codes (b # bs) =
     (case bs of c # r \<Rightarrow> if utf8_cont c then b # c # lossy_codes r else replacement @ lossy_codes bs | [] \<Rightarrow> replacement)"
  "0xE0 \<le> b \<and> b \<le> 0xEF \<Longrightarrow> lossy_codes (b # bs) =
     (case bs of
        c # r \<Rightarrow>
          if utf8_second b c then
            (case r of
               d # q \<Rightarrow> if utf8_cont d then b # c # d # lossy_codes q else replacement @ lossy_codes r
             | [] \<Rightarrow> replacement)
          else replacement @ lossy_codes bs
      | [] \<Rightarrow> replacement)"
  "0xF0 \<le> b \<and> b \<le> 0xF4 \<Longrightarrow> lossy_codes (b # bs) =
     (case bs of
        c # r \<Rightarrow>
          if utf8_second b c then
            (case r of
               d # q \<Rightarrow>
                 if utf8_cont d then
                   (case q of
                      e # p \<Rightarrow> if utf8_cont e then b # c # d # e # lossy_codes p else replacement @ lossy_codes q
                    | [] \<Rightarrow> replacement)
                 else replacement @ lossy_codes r
             | [] \<Rightarrow> replacement)
          else replacement @ lossy_codes bs
      | [] \<Rightarrow> replacement)"
  by simp_all

lemma bad_start:
  assumes "\<not> b < 0x80" "\<not> (0xC2 \<le> b \<and> b \<le> 0xDF)" "\<not> (0xE0 \<le> b \<and> b \<le> 0xEF)" "\<not> (0xF0 \<le> b \<and> b \<le> 0xF4)"
  shows "lossy_codes (b # bs) = replacement @ lossy_codes bs" "\<not> utf8_codes (b # bs)"
  unfolding lossy_codes.simps utf8_codes.simps using assms by argo+

lemma lossy_codes_valid: "utf8_codes (lossy_codes cs)"
proof (induction cs rule: measure_induct_rule [of length])
  case (less cs)
  show ?case
  proof (cases cs)
    case (Cons b bs)
    have IH: "utf8_codes (lossy_codes ys)" if "length ys \<le> length bs" for ys
      using less [of ys] that by (simp add: Cons)
    show ?thesis unfolding Cons
      by (rule byte_classes [of b]; cases bs; cases "tl bs"; cases "tl (tl bs)")
        (simp_all add: IH lossy_steps valid_steps bad_start del: lossy_codes.simps utf8_codes.simps)
  qed simp
qed

lemma lossy_codes_id: "utf8_codes cs \<Longrightarrow> lossy_codes cs = cs"
proof (induction cs rule: measure_induct_rule [of length])
  case (less cs)
  show ?case
  proof (cases cs)
    case (Cons b bs)
    have IH: "utf8_codes ys \<Longrightarrow> lossy_codes ys = ys" if "length ys \<le> length bs" for ys
      using less.IH [of ys] that by (simp add: Cons)
    have v: "utf8_codes (b # bs)" using less.prems by (simp add: Cons)
    then show ?thesis unfolding Cons
      by (rule_tac byte_classes [of b]) (auto simp: IH lossy_steps valid_steps bad_start simp del: lossy_codes.simps utf8_codes.simps)
  qed simp
qed

lemma lossy_codes_set: "set (lossy_codes cs) \<subseteq> set cs \<union> set replacement"
proof (induction cs rule: measure_induct_rule [of length])
  case (less cs)
  show ?case
  proof (cases cs)
    case (Cons b bs)
    have IH: "x \<in> set (lossy_codes ys) \<Longrightarrow> x \<in> set ys \<or> x \<in> set replacement" if "length ys \<le> length bs" for ys x
      using less [of ys] that by (auto simp: Cons)
    show ?thesis unfolding Cons
      by (rule byte_classes [of b]; cases bs; cases "tl bs"; cases "tl (tl bs)")
        (auto simp: lossy_steps bad_start simp del: lossy_codes.simps dest!: IH [rotated])
  qed simp
qed

lemma from_utf8_lossy_valid: "utf8_valid (from_utf8_lossy bs)"
proof -
  have "c < 256" if "c \<in> set (lossy_codes (map unat bs))" for c
    using that lossy_codes_set [of "map unat bs"] unsigned_less [where ?'a = nat and ?'b = 8] by (fastforce simp: replacement_def)
  then have "map (\<lambda>c. of_char (char_of c :: char)) (lossy_codes (map unat bs)) = lossy_codes (map unat bs)"
    by (intro map_idI) (simp add: of_char_of)
  then show ?thesis by (simp add: utf8_valid_def from_utf8_lossy_def comp_def lossy_codes_valid)
qed

lemma from_utf8_lossy_id: "utf8_valid s \<Longrightarrow> from_utf8_lossy (as_bytes s) = s"
proof -
  assume v: "utf8_valid s"
  have "of_char c < (256 :: nat)" for c :: char
    using of_char_mod_256 [of c, where ?'a = nat] by (metis mod_less_divisor zero_less_numeral)
  then have n: "map unat (as_bytes s) = map of_char s" by (simp add: as_bytes_def byte_of_def unat_of_nat comp_def)
  show ?thesis using v unfolding from_utf8_lossy_def n by (simp add: lossy_codes_id utf8_valid_def comp_def)
qed

lemma read_region_texts_ok: "read_region_texts api a n off = Some texts \<Longrightarrow> list_all utf8_valid texts \<and> length texts \<le> n"
  by (induction n arbitrary: off texts) (fastforce simp: from_utf8_lossy_valid split: option.splits pointer_read.splits if_splits)+

section \<open>A region of texts\<close>

text \<open>What the service puts into the region: the number of texts, and each text behind its length.\<close>

definition text_image :: "string \<Rightarrow> bytes" where
  "text_image s = le_bytes 4 (of_nat (length s) :: i32) @ as_bytes s"

definition region_image :: "string list \<Rightarrow> bytes" where
  "region_image texts = le_bytes 4 (of_nat (length texts) :: i32) @ concat (map text_image texts)"

text \<open>A mapped region that gives the bytes of an image at every place inside it.\<close>

definition region_holds :: "'a ashmem_api \<Rightarrow> 'a \<Rightarrow> bytes \<Rightarrow> bool" where
  "region_holds api a img \<longleftrightarrow> length img < 2 ^ 31 \<and>
     (\<forall>off n. 0 < n \<and> off + n \<le> length img \<longrightarrow> ash_read api (of_nat n) (of_nat off) a = Some (take n (drop off img)))"

lemma region_read:
  assumes "region_holds api a (pre @ bs @ post)" "bs \<noteq> []"
  shows "ash_read api (of_nat (length bs)) (of_nat (length pre)) a = Some bs"
proof -
  have "ash_read api (of_nat (length bs)) (of_nat (length pre)) a = Some (take (length bs) (drop (length pre) (pre @ bs @ post)))"
    using assms unfolding region_holds_def by (simp del: drop_append take_append)
  then show ?thesis by simp
qed

lemma region_read_i32:
  assumes "region_holds api a (pre @ le_bytes 4 (v :: i32) @ post)"
  shows "ash_read_i32 api (of_nat (length pre)) a = (if 4 dvd length pre then ReadValue v else Misaligned)"
proof -
  have "le_bytes 4 v \<noteq> []" by (auto dest: arg_cong [where f = length])
  moreover have "length pre < 2 ^ 31" using assms by (simp add: region_holds_def)
  then have "unat (of_nat (length pre) :: i32) = length pre" by (simp add: unat_of_nat)
  ultimately show ?thesis
    using region_read [OF assms] read_basic_32 [of v "[]"] by (simp add: ash_read_i32_def dvd_eq_mod_eq_0)
qed

text \<open>All but the last text have a length that keeps the next one aligned.\<close>

definition aligned_texts :: "string list \<Rightarrow> bool" where
  "aligned_texts texts \<longleftrightarrow> list_all (\<lambda>s. 4 dvd length s) (butlast texts)"

lemma region_texts_read:
  assumes "region_holds api a (pre @ concat (map text_image texts))" "list_all (\<lambda>s. utf8_valid s \<and> s \<noteq> []) texts" "4 dvd length pre"
  shows "read_region_texts api a (length texts) (of_nat (length pre)) = (if aligned_texts texts then Some texts else None)"
  using assms
proof (induction texts arbitrary: pre)
  case (Cons s texts)
  let ?n = "le_bytes 4 (of_nat (length s) :: i32)" and ?rest = "concat (map text_image texts)"
  have img: "region_holds api a (pre @ ?n @ as_bytes s @ ?rest)" using Cons.prems(1) by (simp add: text_image_def [of s])
  have len: "ash_read_i32 api (of_nat (length pre)) a = ReadValue (of_nat (length s))"
    using region_read_i32 [OF img] Cons.prems(3) by simp
  have "ash_read api (of_nat (length (as_bytes s))) (of_nat (length (pre @ ?n))) a = Some (as_bytes s)"
    by (rule region_read [where post = ?rest]) (use img Cons.prems(2) in \<open>auto simp: as_bytes_def\<close>)
  then have chars: "ash_read api (of_nat (length s)) (of_nat (length pre) + 4) a = Some (as_bytes s)"
    by (simp add: add.commute)
  have "length s < 2 ^ 31" using img by (simp add: region_holds_def as_bytes_def)
  then have pos: "\<not> (of_nat (length s) :: i32) <s 0" by (simp add: word_sless_alt sint_of_nat32)
  let ?off = "of_nat (length (pre @ ?n @ as_bytes s)) :: i32"
  have off: "of_nat (length pre) + 4 + of_nat (length s) = ?off" by (simp add: ac_simps as_bytes_def)
  have rest: "read_region_texts api a (length texts) ?off = (if aligned_texts (s # texts) then Some texts else None)"
  proof (cases "4 dvd length s")
    case True
    then have "read_region_texts api a (length texts) ?off = (if aligned_texts texts then Some texts else None)"
      by (intro Cons.IH) (use img Cons.prems in \<open>simp_all add: as_bytes_def\<close>)
    then show ?thesis using True by (cases texts) (simp_all add: aligned_texts_def)
  next
    case False
    show ?thesis
    proof (cases texts)
      case (Cons s' texts')
      have "region_holds api a ((pre @ ?n @ as_bytes s) @ le_bytes 4 (of_nat (length s') :: i32) @ as_bytes s' @ concat (map text_image texts'))"
        using img by (simp add: Cons text_image_def)
      from region_read_i32 [OF this] have "ash_read_i32 api ?off a = Misaligned"
        using False Cons.prems(3) dvd_add_right_iff [of 4 "length pre + 4" "length s"] by (simp add: as_bytes_def add.assoc)
      then show ?thesis using False by (simp add: Cons aligned_texts_def)
    qed (simp add: aligned_texts_def)
  qed
  show ?case
    using len chars rest Cons.prems(2) pos unfolding length_Cons read_region_texts.simps by (simp add: from_utf8_lossy_id off del: length_append)
qed (simp add: aligned_texts_def)

text \<open>The texts of a mapped region.\<close>

definition region_list :: "'a ashmem_api \<Rightarrow> 'a \<Rightarrow> string list option" where
  "region_list api a =
     (case ash_read_i32 api 0 a of
        NullPointer \<Rightarrow> Some []
      | Misaligned \<Rightarrow> None
      | ReadValue n \<Rightarrow> if n <s 0 \<or> MAX_VEC_SIZE <s n then Some [] else read_region_texts api a (count_of n) 4)"

lemma region_list_ok:
  assumes "region_list api a = Some texts"
  shows "length texts \<le> 1024 \<and> list_all utf8_valid texts"
proof (cases "ash_read_i32 api 0 a")
  case (ReadValue n)
  show ?thesis
  proof (cases "n <s 0 \<or> MAX_VEC_SIZE <s n")
    case False
    then have "count_of n \<le> 1024" by (auto simp: count_of_def MAX_VEC_SIZE_def word_sless_alt)
    then show ?thesis using assms False ReadValue read_region_texts_ok [of api a "count_of n" 4 texts] by (simp add: region_list_def)
  qed (use assms ReadValue in \<open>simp add: region_list_def\<close>)
qed (use assms in \<open>simp_all add: region_list_def\<close>)

lemma region_list_read:
  assumes "region_holds api a (region_image ts)" "length ts \<le> 1024" "list_all (\<lambda>s. utf8_valid s \<and> s \<noteq> []) ts"
  shows "region_list api a = (if aligned_texts ts then Some ts else None)"
proof -
  let ?n = "of_nat (length ts) :: i32"
  have "ash_read_i32 api (of_nat (length ([] :: bytes))) a = (if 4 dvd length ([] :: bytes) then ReadValue ?n else Misaligned)"
    by (rule region_read_i32 [where pre = "[]" and post = "concat (map text_image ts)"]) (use assms(1) in \<open>simp add: region_image_def\<close>)
  then have n: "ash_read_i32 api 0 a = ReadValue ?n" by simp
  have "sint ?n = int (length ts)" using assms(2) by (intro sint_of_nat32) simp
  then have "\<not> (?n <s 0 \<or> MAX_VEC_SIZE <s ?n)" using assms(2) by (simp add: word_sless_alt MAX_VEC_SIZE_def)
  moreover have "read_region_texts api a (length ts) (of_nat (length (le_bytes 4 ?n))) = (if aligned_texts ts then Some ts else None)"
    by (rule region_texts_read) (use assms in \<open>simp_all add: region_image_def\<close>)
  ultimately show ?thesis using assms(2) n by (simp add: region_list_def)
qed

text \<open>What recovering a node with memory does.\<close>

lemma recover_mapped:
  assumes "rn_is_shared_memory node" "rn_memory node = Some a" "ash_map_read_write api a = (ok, a')"
  shows "recover_rdb_change_node_data api node = map_option
    (\<lambda>texts. (node\<lparr>rn_data := rn_data node @ texts, rn_memory := None, rn_is_shared_memory := False, rn_size := 0\<rparr>,
       [ash_close api (if ok then ash_unmap api a' else a')])) (if ok then region_list api a' else Some [])"
  using assms
  by (cases ok; cases "ash_read_i32 api 0 a'")
    (auto simp: recover_rdb_change_node_data_def deserialize_data_from_ashmem_def region_list_def option.map_comp comp_def)

section \<open>Properties\<close>

text \<open>
  C33: Whatever lies in the region of a change in shared memory, and whatever the offsets and lengths in it say, a recovery that returns gives
  the callback a node without memory whose rows are those it had and at most 1024 more, all of them well-formed UTF-8, and nothing else of
  the node changes; the region is closed exactly once. It returns whenever there is nothing to read. A region that holds non-empty texts in
  the layout of the service gives exactly these texts when the length of every text but the last is a multiple of 4; with
  any other text before the last, the length of the next one is read through a misaligned pointer, which is undefined behaviour.
\<close>

theorem recovered_rows:
  "(\<not> rn_is_shared_memory node \<longrightarrow> recover_rdb_change_node_data api node = Some (node, []))
   \<and> (\<forall>node' closed. rn_is_shared_memory node \<longrightarrow> recover_rdb_change_node_data api node = Some (node', closed) \<longrightarrow>
        (\<exists>texts. node' = node\<lparr>rn_data := rn_data node @ texts, rn_memory := None, rn_is_shared_memory := False, rn_size := 0\<rparr>
           \<and> length texts \<le> 1024 \<and> list_all utf8_valid texts)
        \<and> length closed = (if rn_memory node = None then 0 else 1))
   \<and> (recover_rdb_change_node_data api node = None \<longrightarrow> (\<exists>a. rn_memory node = Some a \<and> fst (ash_map_read_write api a)))
   \<and> (\<forall>a a' ts. rn_is_shared_memory node \<longrightarrow> rn_memory node = Some a \<longrightarrow> ash_map_read_write api a = (True, a') \<longrightarrow>
        region_holds api a' (region_image ts) \<longrightarrow> length ts \<le> 1024 \<longrightarrow> list_all (\<lambda>s. utf8_valid s \<and> s \<noteq> []) ts \<longrightarrow>
        recover_rdb_change_node_data api node =
          (if list_all (\<lambda>s. 4 dvd length s) (butlast ts)
           then Some (node\<lparr>rn_data := rn_data node @ ts, rn_memory := None, rn_is_shared_memory := False, rn_size := 0\<rparr>, [ash_close api (ash_unmap api a')])
           else None))"
proof (cases "rn_is_shared_memory node")
  case False
  then show ?thesis by (simp add: recover_rdb_change_node_data_def)
next
  case shared: True
  show ?thesis
  proof (cases "rn_memory node")
    case None
    then show ?thesis using shared
      by (auto simp: recover_rdb_change_node_data_def deserialize_data_from_ashmem_def intro!: exI [of _ "[]"])
  next
    case (Some a)
    obtain ok a' where m: "ash_map_read_write api a = (ok, a')" by (cases "ash_map_read_write api a")
    show ?thesis
      using shared region_list_ok [of api a'] region_list_read [of api a']
      unfolding recover_mapped [OF shared Some m] by (cases ok) (fastforce simp: Some m aligned_texts_def)+
  qed
qed

lemma list_ashmem_holds: "length img < 2 ^ 31 \<Longrightarrow> region_holds list_ashmem img img"
  by (auto simp: region_holds_def list_ashmem_def unat_of_nat)

theorem recovered_rows_witness:
  "map_option fst (recover_rdb_change_node_data list_ashmem
      (rdb_change_node_default\<lparr>rn_is_shared_memory := True, rn_memory := Some (region_image [''abcd'', ''c''])\<rparr>))
     = Some (rdb_change_node_default\<lparr>rn_data := [''abcd'', ''c'']\<rparr>)
   \<and> recover_rdb_change_node_data list_ashmem
      (rdb_change_node_default\<lparr>rn_is_shared_memory := True, rn_memory := Some (region_image [''ab'', ''c''])\<rparr>) = None"
proof -
  let ?node = "\<lambda>ts. rdb_change_node_default\<lparr>rn_is_shared_memory := True, rn_memory := Some (region_image ts)\<rparr>"
  have rows: "recover_rdb_change_node_data list_ashmem (?node ts) =
      (if list_all (\<lambda>s. 4 dvd length s) (butlast ts)
       then Some ((?node ts)\<lparr>rn_data := rn_data (?node ts) @ ts, rn_memory := None, rn_is_shared_memory := False, rn_size := 0\<rparr>,
         [ash_close list_ashmem (ash_unmap list_ashmem (region_image ts))])
       else None)"
    if "length (region_image ts) < 2 ^ 31" "length ts \<le> 1024" "list_all (\<lambda>s. utf8_valid s \<and> s \<noteq> []) ts" for ts
    using recovered_rows [of "?node ts" list_ashmem] list_ashmem_holds [OF that(1)] that(2,3) by (simp add: list_ashmem_def)
  have dv: "\<not> 4 dvd Suc (Suc 0)" "4 dvd Suc (Suc (Suc (Suc 0)))" by presburger+
  have small: "length (region_image ts) < 2 ^ 31 \<and> length ts \<le> 1024 \<and> list_all (\<lambda>s. utf8_valid s \<and> s \<noteq> []) ts"
    if "ts = [''ab'', ''c''] \<or> ts = [''abcd'', ''c'']" for ts
    using that by (auto simp: region_image_def text_image_def as_bytes_def utf8_valid_def)
  have "recover_rdb_change_node_data list_ashmem (?node [''ab'', ''c'']) = None"
    using rows [of "[''ab'', ''c'']"] small [of "[''ab'', ''c'']"] by (simp add: dv)
  moreover have "map_option fst (recover_rdb_change_node_data list_ashmem (?node [''abcd'', ''c''])) = Some (rdb_change_node_default\<lparr>rn_data := [''abcd'', ''c'']\<rparr>)"
    using rows [of "[''abcd'', ''c'']"] small [of "[''abcd'', ''c'']"] by (simp add: dv) (simp add: rdb_change_node_default_def)
  ultimately show ?thesis by blast
qed

end
