(* ===== verification/Provider_Stub.thy ===== *)
theory Provider_Stub
  imports Remote_Call
begin

text \<open>
  The extension's side of a call, as far as it is written: the commands and the handler table of \<open>stub/datashare_stub.rs\<close>, the waiting
  for a callback of \<open>js_bridge/uv_queue.rs\<close>, and the creator of \<open>module_loader.rs\<close>. The handlers of the table return
  \<open>E_OK\<close> without touching request or reply, as in the code. The result function of a callback is a step on the state it observes.
\<close>

section \<open>Commands and handlers\<close>

text \<open>The enumeration of the stub has the variants of the consumer's, under their own numbers.\<close>

type_synonym idata_share_interface_code = data_share_cmd

primrec interface_code :: "idata_share_interface_code \<Rightarrow> u32" where
  "interface_code CmdGetFileTypes = 1"
| "interface_code CmdOpenFile = 2"
| "interface_code CmdOpenRawFile = 3"
| "interface_code CmdInsert = 4"
| "interface_code CmdUpdate = 5"
| "interface_code CmdDelete = 6"
| "interface_code CmdQuery = 7"
| "interface_code CmdGetType = 8"
| "interface_code CmdBatchInsert = 9"
| "interface_code CmdRegisterObserver = 10"
| "interface_code CmdUnregisterObserver = 11"
| "interface_code CmdNotifyChange = 12"
| "interface_code CmdNormalizeUri = 13"
| "interface_code CmdDenormalizeUri = 14"
| "interface_code CmdExecuteBatch = 15"
| "interface_code CmdInsertExt = 16"
| "interface_code CmdBatchUpdate = 17"
| "interface_code CmdInsertEx = 18"
| "interface_code CmdUpdateEx = 19"
| "interface_code CmdDeleteEx = 20"
| "interface_code CmdUserDefineFunc = 21"
| "interface_code CmdRegisterObserverExtProvider = 22"
| "interface_code CmdUnregisterObserverExtProvider = 23"
| "interface_code CmdNotifyChangeExtProvider = 24"
| "interface_code CmdOpenFileWithErrCode = 25"

definition interface_code_from_u32 :: "u32 \<Rightarrow> idata_share_interface_code option" where
  "interface_code_from_u32 code =
     map_of [(1, CmdGetFileTypes), (2, CmdOpenFile), (3, CmdOpenRawFile), (4, CmdInsert), (5, CmdUpdate), (6, CmdDelete), (7, CmdQuery),
       (8, CmdGetType), (9, CmdBatchInsert), (10, CmdRegisterObserver), (11, CmdUnregisterObserver), (12, CmdNotifyChange),
       (13, CmdNormalizeUri), (14, CmdDenormalizeUri), (15, CmdExecuteBatch), (16, CmdInsertExt), (17, CmdBatchUpdate), (18, CmdInsertEx),
       (19, CmdUpdateEx), (20, CmdDeleteEx), (21, CmdUserDefineFunc), (22, CmdRegisterObserverExtProvider),
       (23, CmdUnregisterObserverExtProvider), (24, CmdNotifyChangeExtProvider), (25, CmdOpenFileWithErrCode)] code"

text \<open>A handler of the table is named by its command; the table is filled in the order of the code.\<close>

definition registered_handlers :: "idata_share_interface_code list" where
  "registered_handlers =
     [CmdGetFileTypes, CmdOpenFile, CmdOpenFileWithErrCode, CmdOpenRawFile, CmdInsert, CmdUpdate, CmdDelete, CmdQuery, CmdGetType, CmdBatchInsert,
      CmdRegisterObserver, CmdUnregisterObserver, CmdNotifyChange, CmdNormalizeUri, CmdDenormalizeUri, CmdExecuteBatch, CmdInsertExt,
      CmdBatchUpdate, CmdInsertEx, CmdUpdateEx, CmdDeleteEx, CmdRegisterObserverExtProvider, CmdUnregisterObserverExtProvider,
      CmdNotifyChangeExtProvider]"

definition data_share_stub_new :: "u32 \<rightharpoonup> idata_share_interface_code" where
  "data_share_stub_new = foldl (\<lambda>table cmd. table(interface_code cmd \<mapsto> cmd)) Map.empty registered_handlers"

definition handler_count :: "(u32 \<rightharpoonup> idata_share_interface_code) \<Rightarrow> nat" where "handler_count table = card (dom table)"

definition has_handler :: "(u32 \<rightharpoonup> idata_share_interface_code) \<Rightarrow> u32 \<Rightarrow> bool" where "has_handler table code \<longleftrightarrow> table code \<noteq> None"

definition run_handler :: "idata_share_interface_code \<Rightarrow> bytes \<Rightarrow> bytes \<Rightarrow> i32 \<times> bytes" where "run_handler cmd data reply = (0, reply)"

definition cmd_user_define_func :: "bytes \<Rightarrow> bytes \<Rightarrow> i32 \<times> bytes" where "cmd_user_define_func data reply = (0, reply)"

definition provider_on_remote_request :: "(u32 \<rightharpoonup> idata_share_interface_code) \<Rightarrow> u32 \<Rightarrow> bytes \<Rightarrow> bytes \<Rightarrow> i32 \<times> bytes" where
  "provider_on_remote_request table code data reply =
     (case table code of
        Some cmd \<Rightarrow> run_handler cmd data reply
      | None \<Rightarrow> if code = interface_code CmdUserDefineFunc then cmd_user_define_func data reply else (0, reply))"

section \<open>Waiting for a callback\<close>

record 's task_entry =
  te_func :: "('s \<Rightarrow> 's) option"
  te_done :: bool
  te_count :: i32

definition task_entry_new :: "('s \<Rightarrow> 's) \<Rightarrow> 's task_entry" where
  "task_entry_new func = \<lparr>te_func = Some func, te_done = False, te_count = 1\<rparr>"

text \<open>The task runs once, however often the entry is worked on.\<close>

definition lambda_for_work :: "'s task_entry \<Rightarrow> 's \<Rightarrow> 's task_entry \<times> 's" where
  "lambda_for_work entry s =
     (entry\<lparr>te_func := None, te_done := True\<rparr>, case te_func entry of Some func \<Rightarrow> func s | None \<Rightarrow> s)"

definition TRY_TIMES :: nat where "TRY_TIMES = 2000"

definition SLEEP_TIME_MS :: nat where "SLEEP_TIME_MS = 1"

text \<open>The loop with the tries that are left: the state afterwards and the milliseconds slept. The function is called before the tries are looked at.\<close>

fun poll_loop :: "('s \<Rightarrow> bool \<times> 's) \<Rightarrow> nat \<Rightarrow> 's \<Rightarrow> 's \<times> nat" where
  "poll_loop func try_times s =
     (case func s of
        (True, s) \<Rightarrow> (s, 0)
      | (False, s) \<Rightarrow>
          (case try_times of
             0 \<Rightarrow> (s, 0)
           | Suc n \<Rightarrow> (let (s, slept) = poll_loop func n s in (s, slept + SLEEP_TIME_MS))))"

definition check_func_and_exec :: "('s \<Rightarrow> bool \<times> 's) option \<Rightarrow> 's \<Rightarrow> 's \<times> nat" where
  "check_func_and_exec ret_func s = (case ret_func of Some func \<Rightarrow> poll_loop func TRY_TIMES s | None \<Rightarrow> (s, 0))"

text \<open>The task is done before the condition is waited for, so that wait ends at once.\<close>

definition sync_call :: "('s \<Rightarrow> 's) \<Rightarrow> ('s \<Rightarrow> bool \<times> 's) option \<Rightarrow> 's \<Rightarrow> 's \<times> nat" where
  "sync_call func ret_func s = (let (entry, s) = lambda_for_work (task_entry_new func) s in check_func_and_exec ret_func s)"

section \<open>The module loader\<close>

text \<open>The creator, from a runtime to an ability; \<open>None\<close> is the null pointer.\<close>

type_synonym ('r, 'x) module_loader = "('r \<Rightarrow> 'x option) option"

definition module_loader_new :: "('r, 'x) module_loader" where "module_loader_new = None"

definition set_creator :: "('r \<Rightarrow> 'x option) \<Rightarrow> ('r, 'x) module_loader \<Rightarrow> ('r, 'x) module_loader" where
  "set_creator creator loader = Some creator"

definition module_create :: "('r, 'x) module_loader \<Rightarrow> 'r \<Rightarrow> 'x option" where
  "module_create loader runtime = (case loader of Some creator_fn \<Rightarrow> creator_fn runtime | None \<Rightarrow> None)"

definition get_params :: "string \<rightharpoonup> string" where
  "get_params = [''type'' \<mapsto> ''5'', ''name'' \<mapsto> ''DataShareExtAbility'']"

section \<open>Properties\<close>

lemma poll_loop_stops:
  assumes "\<And>i. i < k \<Longrightarrow> fst (func (((snd \<circ> func) ^^ i) s)) = False" "fst (func (((snd \<circ> func) ^^ k) s))" "k \<le> n"
  shows "poll_loop func n s = (((snd \<circ> func) ^^ Suc k) s, k)"
  using assms
proof (induction k arbitrary: n s)
  case 0
  then show ?case by (subst poll_loop.simps) (auto simp: split_def split: bool.split)
next
  case (Suc k)
  obtain m where n: "n = Suc m" using Suc.prems(3) by (cases n) auto
  obtain s' where s': "func s = (False, s')" using Suc.prems(1) [of 0] by (cases "func s") auto
  have shift: "((snd \<circ> func) ^^ i) s' = ((snd \<circ> func) ^^ Suc i) s" for i by (simp add: s' funpow_swap1)
  have "poll_loop func m s' = (((snd \<circ> func) ^^ Suc k) s', k)"
  proof (rule Suc.IH)
    show "fst (func (((snd \<circ> func) ^^ i) s')) = False" if "i < k" for i
      unfolding shift by (rule Suc.prems(1)) (use that in simp)
    show "fst (func (((snd \<circ> func) ^^ k) s'))" using Suc.prems(2) unfolding shift .
  qed (use Suc.prems(3) n in simp)
  then show ?case unfolding shift by (subst poll_loop.simps) (simp add: s' n SLEEP_TIME_MS_def)
qed

lemma poll_loop_gives_up:
  assumes "\<And>i. i \<le> n \<Longrightarrow> fst (func (((snd \<circ> func) ^^ i) s)) = False"
  shows "poll_loop func n s = (((snd \<circ> func) ^^ Suc n) s, n)"
  using assms
proof (induction n arbitrary: s)
  case 0
  then show ?case using "0.prems" [of 0] by (subst poll_loop.simps) (auto simp: split_def split: bool.split)
next
  case (Suc m)
  obtain s' where s': "func s = (False, s')" using Suc.prems [of 0] by (cases "func s") auto
  have shift: "((snd \<circ> func) ^^ i) s' = ((snd \<circ> func) ^^ Suc i) s" for i by (simp add: s' funpow_swap1)
  have "poll_loop func m s' = (((snd \<circ> func) ^^ Suc m) s', m)"
  proof (rule Suc.IH)
    show "fst (func (((snd \<circ> func) ^^ i) s')) = False" if "i \<le> m" for i
      unfolding shift by (rule Suc.prems) (use that in simp)
  qed
  then show ?case unfolding shift by (subst poll_loop.simps) (simp add: s' SLEEP_TIME_MS_def)
qed

text \<open>
  C34: A call in the event loop runs its task once and returns. The result is asked for until it is there, with a millisecond of sleep
  between two tries: the call returns right after the first answer that is true, and after 2000 milliseconds of sleep when none is.
  Then it has asked 2001 times, once more than the "up to 2000 times" of the comments: the question comes before the count is looked at.
\<close>

theorem sync_call_spec:
  "sync_call task (Some ask) s =
     (let step = snd \<circ> ask; answers = (\<lambda>i. fst (ask ((step ^^ i) (task s)))); k = length (takeWhile (\<lambda>i. \<not> answers i) [0..<2000])
      in ((step ^^ Suc k) (task s), k))"
proof -
  let ?step = "snd \<circ> ask" and ?answers = "\<lambda>i. fst (ask (((snd \<circ> ask) ^^ i) (task s)))"
  define k where "k = length (takeWhile (\<lambda>i. \<not> ?answers i) [0..<2000])"
  have le: "k \<le> 2000" using length_takeWhile_le [of "\<lambda>i. \<not> ?answers i" "[0..<2000]"] by (simp add: k_def)
  have before: "\<not> ?answers i" if "i < k" for i
    using takeWhile_nth [of i "\<lambda>i. \<not> ?answers i" "[0..<2000]"] nth_length_takeWhile set_takeWhileD [OF nth_mem [of i "takeWhile (\<lambda>i. \<not> ?answers i) [0..<2000]"]]
      that le by (auto simp: k_def)
  have "poll_loop ask 2000 (task s) = ((?step ^^ Suc k) (task s), k)"
  proof (cases "?answers k")
    case True
    then show ?thesis by (intro poll_loop_stops) (use before le in auto)
  next
    case False
    have k: "k = 2000"
    proof (rule ccontr)
      assume "k \<noteq> 2000"
      then have "k < length [0..<2000]" using le by simp
      then have "?answers ([0..<2000] ! k)" using nth_length_takeWhile [of "\<lambda>i. \<not> ?answers i" "[0..<2000]"] by (simp add: k_def)
      then show False using False \<open>k < length [0..<2000]\<close> by simp
    qed
    show ?thesis unfolding k by (rule poll_loop_gives_up) (use before False k le_neq_implies_less in blast)
  qed
  then show ?thesis
    by (simp add: sync_call_def lambda_for_work_def task_entry_new_def check_func_and_exec_def TRY_TIMES_def Let_def k_def)
qed

lemma stub_table:
  "data_share_stub_new code = (if code = 21 then None else interface_code_from_u32 code)"
  by (simp add: data_share_stub_new_def registered_handlers_def interface_code_from_u32_def)

text \<open>
  The command numbers of the extension's stub are those the consumer sends, and the handler table has exactly the handler of the command for
  every number but the one of \<open>CmdUserDefineFunc\<close>, 24 in all.
\<close>

theorem stub_serves_consumer_codes:
  "interface_code cmd = data_share_cmd_code cmd
   \<and> (interface_code_from_u32 code = Some cmd \<longleftrightarrow> code = interface_code cmd)
   \<and> data_share_stub_new (interface_code cmd) = (if cmd = CmdUserDefineFunc then None else Some cmd)
   \<and> handler_count data_share_stub_new = 24"
proof -
  have "interface_code_from_u32 code = Some cmd \<longleftrightarrow> code = interface_code cmd"
    by (cases cmd) (auto simp: interface_code_from_u32_def)
  moreover have "data_share_stub_new (interface_code cmd) = (if cmd = CmdUserDefineFunc then None else Some cmd)"
    by (cases cmd) (simp_all add: stub_table interface_code_from_u32_def)
  moreover have "handler_count data_share_stub_new = 24"
    by (simp add: handler_count_def data_share_stub_new_def registered_handlers_def)
  ultimately show ?thesis by (cases cmd) simp_all
qed

lemma stub_handlers_by_number:
  "interface_code CmdInsert = 4" "\<not> has_handler data_share_stub_new 21" "has_handler data_share_stub_new 25"
  by (simp_all add: has_handler_def stub_table interface_code_from_u32_def)

text \<open>No request is answered.\<close>

theorem stub_answers_nothing: "provider_on_remote_request table code data reply = (0, reply)"
  by (simp add: provider_on_remote_request_def run_handler_def cmd_user_define_func_def split: option.split)

end
