(* ===== verification/Helper_Calls.thy ===== *)
theory Helper_Calls
  imports Service_Proxy Datashare_Proxy
begin

text \<open>
  The helper on top of its proxies: the operations of \<open>helper/datashare_helper_impl.rs\<close> that Helper leaves open, the two functions of
  \<open>helper/datashare_helper.rs\<close> on the silent switch, and whole calls. \<open>chan\<close> and \<open>xchan\<close> give the channel of the proxy of a remote
  object, to the service and to an extension. The property follows a change of data from the helper to the process that computes it.
\<close>

section \<open>The operations left\<close>

text \<open>A notification has no answer: what it does is the proxies that are told, in order.\<close>

definition service_notify_change :: "'r service_answers \<Rightarrow> string \<Rightarrow> ('r, 'c) manager \<Rightarrow> ('r \<times> string) list \<times> ('r, 'c) manager" where
  "service_notify_change sv uri mg = with_service [] sv (\<lambda>proxy. [(proxy, uri)]) mg"

definition helper_notify_change :: "'r service_answers \<Rightarrow> 'r conn_env \<Rightarrow> string \<Rightarrow> 'r helper \<Rightarrow> ('r, 'c) manager
    \<Rightarrow> ('r \<times> string) list \<times> 'r helper \<times> ('r, 'c) manager" where
  "helper_notify_change sv env uri hp mg =
     (case hp_path hp of
        ServicePath sc \<Rightarrow> let (sent, mg') = service_notify_change sv uri mg in (sent, hp, mg')
      | ProviderPath cn \<Rightarrow> let (sent, cn') = provider_notify_change env uri cn in (sent, hp\<lparr>hp_path := ProviderPath cn'\<rparr>, mg))"

definition helper_notify_change_ext_provider :: "'r conn_env \<Rightarrow> ('r \<Rightarrow> ('a, 'r) extension_channel) \<Rightarrow> change_info \<Rightarrow> 'r helper \<Rightarrow> i32 \<times> 'r helper" where
  "helper_notify_change_ext_provider env xchan c hp =
     (case hp_path hp of
        ServicePath sc \<Rightarrow> (DATA_SHARE_ERROR, hp)
      | ProviderPath cn \<Rightarrow>
          let (ret, cn') = notify_change_ext_provider env (\<lambda>proxy. dp_notify_change_ext_provider (xchan proxy) c) cn
          in (ret, hp\<lparr>hp_path := ProviderPath cn'\<rparr>))"

definition get_helper_type :: "'r helper \<Rightarrow> i32" where "get_helper_type hp = hp_helper_type hp"

text \<open>Templates and published data go to the service on both paths; the identity of the helper is the subscriber.\<close>

definition helper_add_query_template where
  "helper_add_query_template sv chan uri sid tpl mg = add_query_template sv (\<lambda>proxy. sp_add_query_template (chan proxy) uri sid tpl) mg"

definition helper_del_query_template where
  "helper_del_query_template sv chan uri sid mg = del_query_template sv (\<lambda>proxy. sp_del_query_template (chan proxy) uri sid) mg"

definition helper_publish where
  "helper_publish sv chan pub_data bundle mg = publish sv (\<lambda>proxy. sp_publish (chan proxy) pub_data bundle) mg"

definition helper_get_published_data where
  "helper_get_published_data sv chan bundle mg = get_published_data sv published_data_default (\<lambda>proxy. sp_get_published_data (chan proxy) bundle) mg"

definition helper_subscribe_rdb_data where
  "helper_subscribe_rdb_data sv svc uris tid callback hp mg rm = subscribe_rdb_data sv svc (hp_helper_id hp) uris tid callback mg rm"

definition helper_unsubscribe_rdb_data where
  "helper_unsubscribe_rdb_data sv svc uris tid hp mg rm = unsubscribe_rdb_data sv svc (hp_helper_id hp) uris tid mg rm"

definition enable_rdb_subs where
  "enable_rdb_subs sv svc uris tid hp mg rm = enable_subscribe_rdb_data sv svc (hp_helper_id hp) uris tid mg rm"

definition disable_rdb_subs where
  "disable_rdb_subs sv svc uris tid hp mg rm = disable_subscribe_rdb_data sv svc (hp_helper_id hp) uris tid mg rm"

definition helper_subscribe_published_data where
  "helper_subscribe_published_data sv svc uris sid callback hp mg pm = subscribe_published_data sv svc (hp_helper_id hp) uris sid callback mg pm"

definition helper_unsubscribe_published_data where
  "helper_unsubscribe_published_data sv svc uris sid hp mg pm = unsubscribe_published_data sv svc (hp_helper_id hp) uris sid mg pm"

definition enable_pub_subs where
  "enable_pub_subs sv svc uris sid hp mg pm = enable_subscribe_published_data sv svc (hp_helper_id hp) uris sid mg pm"

definition disable_pub_subs where
  "disable_pub_subs sv svc uris sid hp mg pm = disable_subscribe_published_data sv svc (hp_helper_id hp) uris sid mg pm"

text \<open>The switch: the answer, the manager and the global flag of system applications afterwards.\<close>

definition set_silent_switch :: "'r service_answers \<Rightarrow> ('r \<Rightarrow> ('a, 'r) service_channel) \<Rightarrow> string \<Rightarrow> bool \<Rightarrow> bool \<Rightarrow> ('r, 'c) manager
    \<Rightarrow> i32 \<times> ('r, 'c) manager \<times> bool" where
  "set_silent_switch sv chan uri enable is_system mg =
     (let (ret, mg') = with_service (- 1) sv (\<lambda>proxy. sp_set_silent_switch (set_system is_system (chan proxy)) uri enable) mg
      in (ret, mg', is_system))"

definition get_silent_proxy_status :: "'r service_answers \<Rightarrow> ('r \<Rightarrow> ('a, 'r) service_channel) \<Rightarrow> string \<Rightarrow> bool \<Rightarrow> ('r, 'c) manager \<Rightarrow> bool
    \<Rightarrow> i32 \<times> ('r, 'c) manager \<times> bool" where
  "get_silent_proxy_status sv chan uri is_system mg flag =
     (case manager_get_proxy sv mg of
        (_, None, mg') \<Rightarrow> (- 1, mg', flag)
      | (_, Some proxy, mg') \<Rightarrow> (sp_get_silent_proxy_status (set_system is_system (chan proxy)) uri, mg', False))"

section \<open>Changes of data\<close>

datatype data_change =
    Inserting data_share_values_bucket
  | Updating data_share_predicates data_share_values_bucket
  | Deleting data_share_predicates

text \<open>The six operations of a helper over its proxies.\<close>

fun helper_change where
  "helper_change senv penv chan xchan uri (Inserting v) =
     helper_insert senv penv uri v (\<lambda>r. sp_insert (chan r)) (\<lambda>r. dp_insert (xchan r))"
| "helper_change senv penv chan xchan uri (Updating p v) =
     helper_update senv penv uri p v (\<lambda>r. sp_update (chan r)) (\<lambda>r. dp_update (xchan r))"
| "helper_change senv penv chan xchan uri (Deleting p) =
     helper_delete senv penv uri p (\<lambda>r. sp_delete (chan r)) (\<lambda>r. dp_delete (xchan r))"

fun helper_change_ex where
  "helper_change_ex senv penv chan xchan uri (Inserting v) =
     helper_insert_ex senv penv uri v (\<lambda>r. sp_insert_ex (chan r)) (\<lambda>r. dp_insert_ex (xchan r))"
| "helper_change_ex senv penv chan xchan uri (Updating p v) =
     helper_update_ex senv penv uri p v (\<lambda>r. sp_update_ex (chan r)) (\<lambda>r. dp_update_ex (xchan r))"
| "helper_change_ex senv penv chan xchan uri (Deleting p) =
     helper_delete_ex senv penv uri p (\<lambda>r. sp_delete_ex (chan r)) (\<lambda>r. dp_delete_ex (xchan r))"

text \<open>What the other end is asked.\<close>

fun service_asked :: "string \<Rightarrow> string \<Rightarrow> data_change \<Rightarrow> 'r service_request" where
  "service_asked uri ext (Inserting v) = ReqInsert uri ext v"
| "service_asked uri ext (Updating p v) = ReqUpdate uri ext (parcel_predicates_norm p) v"
| "service_asked uri ext (Deleting p) = ReqDelete uri ext (parcel_predicates_norm p)"

fun extension_asked :: "bool \<Rightarrow> string \<Rightarrow> data_change \<Rightarrow> 'r provider_request" where
  "extension_asked ex uri (Inserting v) = PrInsert (if ex then CmdInsertEx else CmdInsert) uri v"
| "extension_asked ex uri (Updating p v) = PrUpdate (if ex then CmdUpdateEx else CmdUpdate) uri (parcel_predicates_norm p) v"
| "extension_asked ex uri (Deleting p) = PrDelete (if ex then CmdDeleteEx else CmdDelete) uri (parcel_predicates_norm p)"

fun change_carried_by :: "('a, 'r) parcel_api \<Rightarrow> data_change \<Rightarrow> bool" where
  "change_carried_by P (Inserting v) = parcel_bucket_ok P v"
| "change_carried_by P (Updating p v) = (parcel_predicates_ok P p \<and> parcel_bucket_ok P v)"
| "change_carried_by P (Deleting p) = parcel_predicates_ok P p"

text \<open>How it is asked.\<close>

fun service_message :: "('a, 'r) parcel_api \<Rightarrow> string \<Rightarrow> string \<Rightarrow> data_change \<Rightarrow> writer" where
  "service_message P uri ext (Inserting v) = insert_message P uri ext v"
| "service_message P uri ext (Updating p v) = update_message P uri ext p v"
| "service_message P uri ext (Deleting p) = delete_message P uri ext p"

fun extension_message :: "string \<Rightarrow> data_change \<Rightarrow> ('a, 'r) parcel_api \<Rightarrow> writer" where
  "extension_message uri (Inserting v) = ext_insert_message uri v"
| "extension_message uri (Updating p v) = ext_update_message uri p v"
| "extension_message uri (Deleting p) = ext_delete_message uri p"

text \<open>
  What the other end computes, or the error where a parcel refuses the request or the reply or the stub of the extension turns the
  answer of the provider into an error.
\<close>

definition service_change :: "('a, 'r) parcel_api \<Rightarrow> 'r service \<Rightarrow> string \<Rightarrow> string \<Rightarrow> data_change \<Rightarrow> i32 \<times> i32" where
  "service_change P srv uri ext c =
     (let req = service_asked uri ext c in service_outcome P srv (service_message P uri ext c) req (srv_pair srv req) (- 1, 0))"

definition extension_change :: "('a, 'r) parcel_api \<Rightarrow> ('a, 'r) parcel_api \<Rightarrow> 'r provider \<Rightarrow> string \<Rightarrow> data_change \<Rightarrow> i32" where
  "extension_change Q P prv uri c =
     (let req = extension_asked False uri c in outcome Q P prv (extension_message uri c) req (prv_code prv req) (- 1))"

definition extension_change_ex :: "('a, 'r) parcel_api \<Rightarrow> ('a, 'r) parcel_api \<Rightarrow> 'r provider \<Rightarrow> string \<Rightarrow> data_change \<Rightarrow> i32 \<times> i32" where
  "extension_change_ex Q P prv uri c =
     (let req = extension_asked True uri c in outcome Q P prv (extension_message uri c) req (prv_pair prv req) (- 1, 0))"

fun change_name :: "bool \<Rightarrow> data_change \<Rightarrow> string" where
  "change_name ex (Inserting v) = (if ex then ''InsertEx'' else ''Insert'')"
| "change_name ex (Updating p v) = (if ex then ''UpdateEx'' else ''Update'')"
| "change_name ex (Deleting p) = (if ex then ''DeleteEx'' else ''Delete'')"

text \<open>The answer of a source of proxies that holds a proxy afterwards, or none.\<close>

definition answer_of :: "'y \<Rightarrow> 'r option \<Rightarrow> ('r \<Rightarrow> 'y) \<Rightarrow> 'y" where
  "answer_of d proxy f = (case proxy of Some r \<Rightarrow> f r | None \<Rightarrow> d)"

lemma with_proxy_answer: "fst (with_proxy d env f cn) = answer_of d (cn_proxy (snd (with_proxy d env f cn))) f"
  using conn_source.serve_result [of env d f cn] by (simp add: with_proxy_serve answer_of_def prod_eq_iff)

lemma with_service_answer: "fst (with_service d sv f mg) = answer_of d (mg_service_proxy (snd (with_service d sv f mg))) f"
  using manager_source.serve_result [of sv d f mg] by (simp add: with_service_serve answer_of_def prod_eq_iff)

lemma counted_call_answer:
  "fst (counted_call name d env uri f mg) =
     map_option (\<lambda>limited. if limited then d else answer_of d (mg_service_proxy (snd (counted_call name d env uri f mg))) f)
       (fst (set_call_count (ce_clock env) (ce_clock_after env) name uri mg))"
proof -
  have "counted_call name d env uri f mg =
      (case set_call_count (ce_clock env) (ce_clock_after env) name uri mg of
         (None, _, mg') \<Rightarrow> (None, mg')
       | (Some True, _, mg') \<Rightarrow> (Some d, mg')
       | (Some False, _, mg') \<Rightarrow> (let (a, mg'') = with_service d (ce_answers env) f mg' in (Some a, mg'')))"
    by (auto simp: counted_call_def with_service_def split: prod.splits option.splits bool.splits)
  then show ?thesis
    using with_service_answer [of d "ce_answers env" f]
    by (auto simp: split_def Let_def split: prod.splits option.splits bool.splits)
qed

text \<open>What a helper returns when every service and every extension computes: the silent path counts the call first.\<close>

definition helper_answer :: "'y \<Rightarrow> bool \<Rightarrow> 'r call_env \<Rightarrow> string \<Rightarrow> data_change \<Rightarrow> (string \<Rightarrow> 'r \<Rightarrow> 'y) \<Rightarrow> ('r \<Rightarrow> 'y)
    \<Rightarrow> 'r helper \<Rightarrow> ('r, 'c) manager \<Rightarrow> 'y option \<times> 'r helper \<times> ('r, 'c) manager \<Rightarrow> bool" where
  "helper_answer d ex senv uri c silent direct hp mg result \<longleftrightarrow>
     (case result of (answer, hp', mg') \<Rightarrow>
       (case hp_path hp of
          ServicePath sc \<Rightarrow> hp' = hp \<and>
            answer = map_option (\<lambda>limited. if limited then d else answer_of d (mg_service_proxy mg') (silent (sc_ext_uri sc)))
              (fst (set_call_count (ce_clock senv) (ce_clock_after senv) (change_name ex c) uri mg))
        | ProviderPath cn \<Rightarrow> mg' = mg \<and>
            (\<exists>cn'. hp_path hp' = ProviderPath cn' \<and> answer = Some (answer_of d (cn_proxy cn') direct))))"

lemma routed_answer:
  assumes "\<And>sc. hp_path hp = ServicePath sc \<Longrightarrow> service sc mg = counted_call (change_name ex c) d senv uri (silent (sc_ext_uri sc)) mg"
    and "\<And>cn. hp_path hp = ProviderPath cn \<Longrightarrow> provider cn = with_proxy d penv direct cn"
  shows "helper_answer d ex senv uri c silent direct hp mg (route service provider hp mg)"
proof (cases "hp_path hp")
  case (ServicePath sc)
  obtain a mg' where r: "counted_call (change_name ex c) d senv uri (silent (sc_ext_uri sc)) mg = (a, mg')" by fastforce
  show ?thesis
    using counted_call_answer [of "change_name ex c" d senv uri "silent (sc_ext_uri sc)" mg] unfolding r fst_conv snd_conv
    by (simp add: helper_answer_def route_def assms(1) ServicePath r)
next
  case (ProviderPath cn)
  obtain a cn' where r: "with_proxy d penv direct cn = (a, cn')" by fastforce
  show ?thesis
    using with_proxy_answer [of d penv direct cn] unfolding r
    by (simp add: helper_answer_def route_def assms(2) ProviderPath r)
qed

section \<open>Properties\<close>

text \<open>
  C35: A change of data, from the helper to the process that computes it. Over services in the format of the repository and over stubs of extensions,
  inserting, updating and deleting return what the other end computes on the arguments as the parcel carries them: URIs and buckets unchanged,
  predicates up to their normal form, which is the identity on plain ones; and the error -1 (with result 0 in the extended variants)
  where a parcel refuses the request or the reply, or the stub turns the answer of the provider into an error. On the silent path the call is counted first: a
  limited call and a call without a service return the error and nothing is sent, and every other returns the answer of the proxy the manager then
  holds, given the URI and the extension URI of the helper; on the other path the answer is that of the extension the connection then holds.
\<close>

theorem change_end_to_end:
  assumes srv: "\<And>r. service_ok (chan r) (srv r)" and prv: "\<And>r. provider_ok (xchan r) Q (prv r)"
    and silent: "\<And>r sc. hp_path hp = ServicePath sc \<Longrightarrow>
      change_carried_by (ch_api (chan r)) c \<and> pc_text (ch_api (chan r)) uri \<and> pc_text (ch_api (chan r)) (sc_ext_uri sc)"
    and direct: "change_carried_by Q c" "pc_text Q uri"
  shows "helper_answer (- 1) False senv uri c (\<lambda>ext r. code_or_status (service_change (ch_api (chan r)) (srv r) uri ext c))
      (\<lambda>r. extension_change Q (ch_api (xchan r)) (prv r) uri c) hp mg (helper_change senv penv chan xchan uri c hp mg)
    \<and> helper_answer (- 1, 0) True senv uri c (\<lambda>ext r. service_change (ch_api (chan r)) (srv r) uri ext c)
      (\<lambda>r. extension_change_ex Q (ch_api (xchan r)) (prv r) uri c) hp mg (helper_change_ex senv penv chan xchan uri c hp mg)"
proof -
  have served: "served (chan r) (srv r)" and extension: "extension_served (xchan r) Q (prv r)" for r
    using srv prv by (simp_all add: served_def extension_served_def)
  have ins: "sp_insert_ex (chan r) uri ext v = service_change (ch_api (chan r)) (srv r) uri ext (Inserting v)"
    if "pc_text (ch_api (chan r)) uri" "pc_text (ch_api (chan r)) ext" "parcel_bucket_ok (ch_api (chan r)) v" for r ext v
    using served.insert_call [OF served that] by (simp add: service_change_def Let_def)
  have upd: "sp_update_ex (chan r) uri ext p v = service_change (ch_api (chan r)) (srv r) uri ext (Updating p v)"
    if "pc_text (ch_api (chan r)) uri" "pc_text (ch_api (chan r)) ext" "parcel_predicates_ok (ch_api (chan r)) p" "parcel_bucket_ok (ch_api (chan r)) v"
    for r ext p v
    using served.update_call [OF served that] by (simp add: service_change_def Let_def)
  have del: "sp_delete_ex (chan r) uri ext p = service_change (ch_api (chan r)) (srv r) uri ext (Deleting p)"
    if "pc_text (ch_api (chan r)) uri" "pc_text (ch_api (chan r)) ext" "parcel_predicates_ok (ch_api (chan r)) p" for r ext p
    using served.delete_call [OF served that] by (simp add: service_change_def Let_def)
  note ext_calls = extension_served.insert_calls [OF extension] extension_served.update_calls [OF extension]
    extension_served.delete_calls [OF extension] extension_change_def extension_change_ex_def Let_def
  note helper_defs = helper_insert_def helper_update_def helper_delete_def helper_insert_ex_def helper_update_ex_def helper_delete_ex_def
    service_insert_def service_update_def service_delete_def service_insert_ex_def service_update_ex_def service_delete_ex_def
    provider_insert_def provider_update_def provider_delete_def provider_insert_ex_def provider_update_ex_def provider_delete_ex_def
    sp_insert_def sp_update_def sp_delete_def DATA_SHARE_ERROR_def
  show ?thesis
  proof (cases c)
    case (Inserting v)
    show ?thesis
      unfolding Inserting helper_change.simps helper_change_ex.simps helper_insert_def helper_insert_ex_def
      by (intro conjI routed_answer) (use silent direct in \<open>simp_all add: Inserting helper_defs ins ext_calls\<close>)
  next
    case (Updating p v)
    show ?thesis
      unfolding Updating helper_change.simps helper_change_ex.simps helper_update_def helper_update_ex_def
      by (intro conjI routed_answer) (use silent direct in \<open>simp_all add: Updating helper_defs upd ext_calls\<close>)
  next
    case (Deleting p)
    show ?thesis
      unfolding Deleting helper_change.simps helper_change_ex.simps helper_delete_def helper_delete_ex_def
      by (intro conjI routed_answer) (use silent direct in \<open>simp_all add: Deleting helper_defs del ext_calls\<close>)
  qed
qed

definition idle_env :: "u64 conn_env" where
  "idle_env = \<lparr>en_from_ciremote = (\<lambda>_. None), en_register = (\<lambda>_ _ _. 0), en_handle = 1, en_callback = None\<rparr>"

definition idle_call :: "u64 call_env" where
  "idle_call = \<lparr>ce_clock = 0, ce_clock_after = 0,
     ce_answers = \<lparr>sv_check_system_ability = None, sv_load_system_ability = None, sv_feature_interface = (\<lambda>_ _. None), sv_from_stub = False\<rparr>\<rparr>"

text \<open>A helper with a proxy to an extension.\<close>

theorem change_end_to_end_witness:
  "fst (helper_change idle_call idle_env (\<lambda>_. example_channel) (\<lambda>_. example_extension) ''u'' (Inserting sample_bucket)
      (set_ext_proxy 9 (new_provider 1 ''u'' 0 False)) (manager_new :: (u64, unit) manager)) = Some 7"
proof -
  let ?hp = "set_ext_proxy 9 (new_provider 1 ''u'' 0 False) :: u64 helper"
  let ?run = "helper_change idle_call idle_env (\<lambda>_. example_channel) (\<lambda>_. example_extension) ''u'' (Inserting sample_bucket) ?hp
      (manager_new :: (u64, unit) manager)"
  obtain cn where cn: "hp_path ?hp = ProviderPath cn" "cn_proxy cn = Some 9"
    by (simp add: set_ext_proxy_def new_provider_def set_proxy_from_remote_def)
  have "hp_path (fst (snd ?run)) = ProviderPath cn"
    by (simp add: helper_insert_def route_def cn provider_insert_def with_proxy_serve conn_source.serve_cached [OF cn(2)])
  moreover have "helper_answer (- 1) False idle_call ''u'' (Inserting sample_bucket)
      (\<lambda>ext r. code_or_status (service_change plain_parcel example_service ''u'' ext (Inserting sample_bucket)))
      (\<lambda>r. extension_change plain_parcel plain_parcel example_provider_end ''u'' (Inserting sample_bucket)) ?hp manager_new ?run"
    by (rule conjunct1 [OF change_end_to_end [of "\<lambda>_. example_channel" "\<lambda>_. example_service" "\<lambda>_. example_extension" plain_parcel
          "\<lambda>_. example_provider_end" ?hp "Inserting sample_bucket" "''u''", unfolded example_channel_ok(2) example_extension_ok(2)]])
      (simp_all add: example_channel_ok example_extension_ok plain_text sample_bucket_parcel)
  moreover have "extension_change plain_parcel plain_parcel example_provider_end ''u'' (Inserting sample_bucket) = 7"
    by (simp add: extension_change_def plain_outcome ext_messages_open stub_refuses_def) (simp add: example_provider_end_def)
  ultimately show ?thesis by (auto simp: helper_answer_def cn answer_of_def split: prod.splits)
qed

text \<open>The two functions on the silent switch treat the global flag differently: after setting the switch as a system application every
  request of the process goes out under a system code.\<close>

theorem silent_switch_keeps_flag:
  "snd (snd (set_silent_switch sv chan uri enable True mg)) = True"
  "mg_service_proxy (fst (snd (get_silent_proxy_status sv chan uri True mg False))) = Some r \<Longrightarrow>
     snd (snd (get_silent_proxy_status sv chan uri True mg False)) = False"
  "cast_ipc_code True cmd = cast_ipc_code False cmd + 100"
  by (auto simp: set_silent_switch_def get_silent_proxy_status_def split_def Let_def cast_ipc_code_def SYSTEM_CODE_OFFSET_def
      split: option.splits prod.splits)

end
