(* ===== verification/Block_Parcel.thy ===== *)
theory Block_Parcel
  imports Block_Table Parcel
begin

text \<open>
  The transfer of a shared block through a parcel, \<open>write_message_parcel\<close> and \<open>read_message_parcel\<close> of \<open>shared_block.rs\<close>: the name and
  the handle of the shared memory. The memory behind a handle is a parameter: its bytes, its size, and whether it can be mapped and read.
\<close>

record 'a block_memory =
  bm_bytes :: "'a \<Rightarrow> bytes"
  bm_size :: "'a \<Rightarrow> i32"
  bm_map_read_write :: "'a \<Rightarrow> bool"
  bm_readable :: "'a \<Rightarrow> bool"

text \<open>The code and what the parcel holds afterwards: the name stays when the handle is refused.\<close>

definition write_message_parcel :: "('a, 'r) parcel_api \<Rightarrow> 'a \<Rightarrow> shared_block \<Rightarrow> bytes \<Rightarrow> i32 \<times> bytes" where
  "write_message_parcel P ashmem b buf =
     (case pc_write_string16 P (sb_name b) buf of
        None \<Rightarrow> (SHARED_BLOCK_BAD_VALUE, buf)
      | Some buf \<Rightarrow>
          (case pc_write_ashmem P ashmem buf of
             Some buf \<Rightarrow> (SHARED_BLOCK_OK, buf)
           | None \<Rightarrow> (SHARED_BLOCK_BAD_VALUE, buf)))"

text \<open>The size is the \<open>i32\<close> of the memory as a \<open>usize\<close>.\<close>

definition read_message_parcel :: "('a, 'r) parcel_api \<Rightarrow> 'a block_memory \<Rightarrow> bytes \<Rightarrow> i32 + shared_block" where
  "read_message_parcel P M buf =
     (case pc_read_string16 P buf of
        Inl _ \<Rightarrow> Inl SHARED_BLOCK_BAD_VALUE
      | Inr (name, buf) \<Rightarrow>
          (case pc_read_ashmem P buf of
             Inl _ \<Rightarrow> Inl SHARED_BLOCK_BAD_VALUE
           | Inr (ashmem, _) \<Rightarrow>
               if \<not> bm_map_read_write M ashmem then Inl SHARED_BLOCK_SET_PORT_ERROR
               else (let sz = unat (scast (bm_size M ashmem) :: u64)
                     in case init (bm_readable M ashmem) (shared_block_new name (bm_bytes M ashmem) sz True) of
                          (False, _) \<Rightarrow> Inl SHARED_BLOCK_ASHMEM_ERROR
                        | (True, block) \<Rightarrow> Inr block)))"

text \<open>The handle is the memory of the block.\<close>

definition backs :: "'a block_memory \<Rightarrow> 'a \<Rightarrow> shared_block \<Rightarrow> bool" where
  "backs M ashmem b \<longleftrightarrow> bm_bytes M ashmem = sb_mem b \<and> bm_size M ashmem = of_nat (sb_size b) \<and> bm_map_read_write M ashmem \<and> bm_readable M ashmem"

lemma read_only_refuses: "sb_read_only b \<Longrightarrow> exec_op x b = Some (SHARED_BLOCK_INVALID_OPERATION, b)"
  by (cases x) (simp_all add: clear_def set_column_num_def alloc_row_def free_last_row_def put_long_def put_double_def
      put_null_def put_cell_def block_put_blob_def block_put_string_def put_blob_or_string_def)

lemma read_only_frozen: "sb_read_only b \<Longrightarrow> exec_ops xs b = Some b"
  by (induction xs) (simp_all add: read_only_refuses)

lemma read_only_view:
  assumes "valid_block b"
  shows "valid_block (b\<lparr>sb_read_only := ro\<rparr>) \<and> (\<forall>r c. cell_view (b\<lparr>sb_read_only := ro\<rparr>) r c = cell_view b r c)"
proof -
  obtain gs ds cols u where b: "block_ok b gs ds cols u" using assms by (auto simp: valid_block_def)
  then have b': "block_ok (b\<lparr>sb_read_only := ro\<rparr>) gs ds cols u" by (simp add: block_ok_def hdr_def)
  then show ?thesis by (auto simp: cell_view_block [OF b] cell_view_block [OF b'] intro: valid_blockI)
qed

text \<open>The flag is not looked at by \<open>set_raw_data\<close>, and the mapping of a received block is one for writing.\<close>

lemma raw_data_written:
  assumes "valid_block b" and "0 < length d" and "length d \<le> sb_size b"
  shows "\<exists>b'. set_raw_data (Some d) (length d) (b\<lparr>sb_read_only := ro\<rparr>) = Some (SHARED_BLOCK_OK, b')
    \<and> load 0 (length d) (sb_mem b') = Some d"
proof -
  have "0 + length d \<le> length (sb_mem b)" "sb_mapped b" using valid_basic [OF assms(1)] assms(3) by simp_all
  then obtain m where "store 0 d (sb_mem b) = Some m" using store_ex by blast
  then show ?thesis using assms(2,3) \<open>sb_mapped b\<close> load_store_same [of 0 d "sb_mem b" m] by (simp add: set_raw_data_def poke_def)
qed

section \<open>Properties\<close>

text \<open>
  C36: a transferred block. A valid block written to a parcel that takes it is read back as the same table, whatever follows it in the
  parcel: the same name, size and cells, valid, and flagged read-only, so that every mutator of the table refuses and no sequence of them
  changes it. It is not frozen altogether: it is mapped for reading and writing and \<open>set_raw_data\<close> does not look at the flag, so that
  data of any length up to the size of the block overwrites it. Memory that cannot be mapped or read is refused with its own code.
\<close>

theorem block_transfer:
  assumes P: "parcel_ok P" and "pc_text P (sb_name b)" and b: "valid_block b" and M: "backs M ashmem b"
    and sent: "write_message_parcel P ashmem b [] = (SHARED_BLOCK_OK, data)"
  shows "(\<exists>b'. read_message_parcel P M (data @ rest) = Inr b' \<and> valid_block b' \<and> sb_name b' = sb_name b \<and> sb_size b' = sb_size b
        \<and> (\<forall>r c. cell_view b' r c = cell_view b r c)
        \<and> sb_read_only b' \<and> (\<forall>x. exec_op x b' = Some (SHARED_BLOCK_INVALID_OPERATION, b')) \<and> (\<forall>ops. exec_ops ops b' = Some b')
        \<and> (\<forall>d. 0 < length d \<and> length d \<le> sb_size b \<longrightarrow>
              (\<exists>b''. set_raw_data (Some d) (length d) b' = Some (SHARED_BLOCK_OK, b'') \<and> load 0 (length d) (sb_mem b'') = Some d)))
    \<and> read_message_parcel P (M\<lparr>bm_map_read_write := \<lambda>_. False\<rparr>) (data @ rest) = Inl SHARED_BLOCK_SET_PORT_ERROR
    \<and> read_message_parcel P (M\<lparr>bm_readable := \<lambda>_. False\<rparr>) (data @ rest) = Inl SHARED_BLOCK_ASHMEM_ERROR"
proof -
  have laws: "transfers (pc_write_string16 P (sb_name b)) (pc_read_string16 P) (sb_name b)" "transfers (pc_write_ashmem P ashmem) (pc_read_ashmem P) ashmem"
    using parcel.texts(2) [OF parcel.intro [OF P] assms(2)] parcel.prims(7) [OF parcel.intro [OF P]] by blast+
  obtain mid where mid: "pc_write_string16 P (sb_name b) [] = Some mid" "pc_write_ashmem P ashmem mid = Some data"
    using sent by (auto simp: write_message_parcel_def SHARED_BLOCK_OK_def SHARED_BLOCK_BAD_VALUE_def split: option.splits)
  obtain b1 where b1: "mid = [] @ b1" "\<And>rest. pc_read_string16 P (b1 @ rest) = Inr (sb_name b, rest)"
    using transfersD [OF laws(1) mid(1)] by metis
  obtain b2 where b2: "data = mid @ b2" "\<And>rest. pc_read_ashmem P (b2 @ rest) = Inr (ashmem, rest)"
    using transfersD [OF laws(2) mid(2)] by metis
  have sz: "sb_mapped b" "sb_size b < 2 ^ 31" using valid_basic [OF b] by simp_all
  have "unat (scast (of_nat (sb_size b) :: i32) :: u64) = sb_size b"
  proof -
    have "(scast (of_nat (sb_size b) :: i32) :: u64) = of_nat (sb_size b)"
      using sint_of_nat32 [OF sz(2)] by (simp add: scast_eq)
    then show ?thesis using sz(2) by (simp add: unat_of_nat)
  qed
  then have read: "read_message_parcel P M (data @ rest) = Inr (b\<lparr>sb_read_only := True\<rparr>)"
    using M sz(1) b1 b2
    by (simp add: read_message_parcel_def backs_def init_def shared_block_new_def)
  show ?thesis
  proof (intro conjI)
    let ?b = "b\<lparr>sb_read_only := True\<rparr>"
    have "exec_op x ?b = Some (SHARED_BLOCK_INVALID_OPERATION, ?b)" "exec_ops ops ?b = Some ?b" for x ops
      by (simp_all add: read_only_refuses read_only_frozen)
    then show "\<exists>b'. read_message_parcel P M (data @ rest) = Inr b' \<and> valid_block b' \<and> sb_name b' = sb_name b \<and> sb_size b' = sb_size b
        \<and> (\<forall>r c. cell_view b' r c = cell_view b r c)
        \<and> sb_read_only b' \<and> (\<forall>x. exec_op x b' = Some (SHARED_BLOCK_INVALID_OPERATION, b')) \<and> (\<forall>ops. exec_ops ops b' = Some b')
        \<and> (\<forall>d. 0 < length d \<and> length d \<le> sb_size b \<longrightarrow>
              (\<exists>b''. set_raw_data (Some d) (length d) b' = Some (SHARED_BLOCK_OK, b'') \<and> load 0 (length d) (sb_mem b'') = Some d))"
      using read read_only_view [OF b, of True] raw_data_written [OF b] by (intro exI [of _ ?b]) simp
  qed (use M b1 b2 in \<open>auto simp: read_message_parcel_def backs_def init_def\<close>)
qed

theorem block_transfer_witness:
  "\<exists>(b :: shared_block) data b'. write_message_parcel plain_parcel (sb_mem b) b [] = (SHARED_BLOCK_OK, data)
     \<and> read_message_parcel plain_parcel \<lparr>bm_bytes = \<lambda>m. m, bm_size = \<lambda>m. of_nat (length m), bm_map_read_write = \<lambda>_. True, bm_readable = \<lambda>_. True\<rparr> data = Inr b'
     \<and> cell_view b' 0 0 = Some CNull \<and> exec_op (OpPutLong 0 0 7) b' = Some (SHARED_BLOCK_INVALID_OPERATION, b')"
proof -
  let ?M = "\<lparr>bm_bytes = \<lambda>m. m, bm_size = \<lambda>m. of_nat (length m), bm_map_read_write = \<lambda>_. True, bm_readable = \<lambda>_. True\<rparr> :: bytes block_memory"
  obtain b where b: "valid_block b" "cell_view b 0 0 = Some CNull" using sample_table by blast
  have M: "backs ?M (sb_mem b) b" using valid_basic [OF b(1)] by (simp add: backs_def)
  obtain mid where mid: "pc_write_string16 plain_parcel (sb_name b) [] = Some mid"
    using open_parcel.prims_accept(8) [OF open_parcel.intro [OF plain_parcel_accepts], of "sb_name b"] by (auto simp: accepts_def)
  obtain data where data: "pc_write_ashmem plain_parcel (sb_mem b) mid = Some data"
    using open_parcel.prims_accept(11) [OF open_parcel.intro [OF plain_parcel_accepts], of "sb_mem b"] by (auto simp: accepts_def)
  have sent: "write_message_parcel plain_parcel (sb_mem b) b [] = (SHARED_BLOCK_OK, data)"
    by (simp add: write_message_parcel_def mid data)
  obtain b' where b': "read_message_parcel plain_parcel ?M (data @ []) = Inr b'" "\<forall>r c. cell_view b' r c = cell_view b r c"
      "\<forall>x. exec_op x b' = Some (SHARED_BLOCK_INVALID_OPERATION, b')"
    using block_transfer [OF plain_parcel_ok plain_text b(1) M sent, of "[]"] by blast
  have "exec_op (OpPutLong 0 0 7) b' = Some (SHARED_BLOCK_INVALID_OPERATION, b')" using b'(3) by blast
  moreover have "read_message_parcel plain_parcel ?M data = Inr b'" using b'(1) by simp
  moreover have "cell_view b' 0 0 = Some CNull" using b'(2) b(2) by simp
  ultimately show ?thesis using sent by blast
qed

end
