(* ===== verification/String_Split.thy ===== *)
theory String_Split
  imports Uri_Utils
begin

text \<open>
  The rest of \<open>utils/string_utils.rs\<close>: splitting and replacing, which are calls of the standard library, written out on byte strings.
  The change of case is a parameter: it maps Unicode characters.
\<close>

definition to_upper :: "(string \<Rightarrow> string) \<Rightarrow> string \<Rightarrow> string" where "to_upper to_uppercase s = to_uppercase s"

definition to_lower :: "(string \<Rightarrow> string) \<Rightarrow> string \<Rightarrow> string" where "to_lower to_lowercase s = to_lowercase s"

text \<open>The characters of a string, each as its bytes.\<close>

function str_chars :: "string \<Rightarrow> string list" where
  "str_chars [] = []"
| "str_chars (c # s) =
     (c # takeWhile (\<lambda>x. utf8_cont (of_char x)) s) # str_chars (dropWhile (\<lambda>x. utf8_cont (of_char x)) s)"
  by pat_completeness auto
termination
  by (relation "measure length") (auto simp: less_Suc_eq_le length_dropWhile_le)

text \<open>The pieces between the matches of a delimiter, found from the left and not overlapping.\<close>

function split_on :: "string \<Rightarrow> string \<Rightarrow> string list" where
  "split_on d s =
     (if d = [] then [s]
      else case find_sub d s of None \<Rightarrow> [s] | Some i \<Rightarrow> take i s # split_on d (drop (i + length d) s))"
  by pat_completeness auto
termination
  by (relation "measure (\<lambda>(d, s). length s)") (auto dest!: find_sub_eq_Some)

declare split_on.simps [simp del]

text \<open>The empty delimiter matches before every character and at the end.\<close>

definition str_split :: "string \<Rightarrow> string \<Rightarrow> string list" where
  "str_split s d = (if d = [] then [] # str_chars s @ [[]] else split_on d s)"

fun str_join :: "string \<Rightarrow> string list \<Rightarrow> string" where
  "str_join sep [] = []"
| "str_join sep [x] = x"
| "str_join sep (x # y # xs) = x @ sep @ str_join sep (y # xs)"

definition replace_all :: "string \<Rightarrow> string \<Rightarrow> string \<Rightarrow> string" where
  "replace_all s pat replacement = str_join replacement (str_split s pat)"

lemma concat_str_chars: "concat (str_chars s) = s"
  by (induction s rule: str_chars.induct) simp_all

lemma str_join_Cons: "xs \<noteq> [] \<Longrightarrow> str_join sep (x # xs) = x @ sep @ str_join sep xs"
  by (cases xs) simp_all

lemma str_join_empty: "str_join [] xs = concat xs"
  by (induction "[] :: string" xs rule: str_join.induct) simp_all

lemma split_on_not_Nil [simp]: "split_on d s \<noteq> []"
  by (subst split_on.simps) (simp split: option.split)

lemma join_split_on: "str_join d (split_on d s) = s"
proof (induction d s rule: split_on.induct)
  case (1 d s)
  show ?case
  proof (cases "d = [] \<or> find_sub d s = None")
    case False
    then obtain i where i: "find_sub d s = Some i" by auto
    then obtain a b where s: "s = a @ d @ b" "length a = i" using find_sub_eq_Some by blast
    then have parts: "take i s = a" "drop (i + length d) s = b" by auto
    have "str_join d (split_on d b) = b" using 1 [OF _ i] False parts by auto
    moreover have "split_on d s = a # split_on d b" using False parts by (subst split_on.simps) (simp add: i)
    ultimately show ?thesis by (simp add: str_join_Cons s)
  qed (auto simp: split_on.simps [of d s])
qed

lemma find_sub_None_prefix: "find_sub d s = Some i \<Longrightarrow> d \<noteq> [] \<Longrightarrow> find_sub d (take i s) = None"
proof (induction d s arbitrary: i rule: find_sub.induct)
  case (2 p x s)
  show ?case
  proof (cases "starts_with (x # s) p")
    case False
    with 2 obtain j where j: "find_sub p s = Some j" "i = Suc j" by auto
    have "\<not> starts_with (x # take j s) p" using False by (auto simp: starts_with_iff) (metis append.assoc append_Cons append_take_drop_id)
    then show ?thesis using 2 False j by simp
  qed (use 2 in auto)
qed (auto split: if_splits)

lemma split_on_pieces: "d \<noteq> [] \<Longrightarrow> x \<in> set (split_on d s) \<Longrightarrow> find_sub d x = None"
proof (induction d s rule: split_on.induct)
  case (1 d s)
  then show ?case
    by (subst (asm) (2) split_on.simps) (auto split: option.splits dest: find_sub_None_prefix)
qed

text \<open>
  Splitting loses nothing: the pieces joined by the delimiter are the string again, for every delimiter, so that replacing a pattern by itself is
  the identity; no piece contains a delimiter that is not empty, and a string without the pattern is left as it is.
\<close>

theorem split_join:
  "str_join d (str_split s d) = s \<and> replace_all s d d = s
   \<and> (d \<noteq> [] \<longrightarrow> list_all (\<lambda>x. \<not> contains_sub x d) (str_split s d) \<and> (\<not> contains_sub s d \<longrightarrow> replace_all s d r = s))"
proof -
  have "str_join d (str_split s d) = s"
    by (cases "d = []") (simp_all add: str_split_def str_join_empty join_split_on concat_str_chars)
  moreover have "list_all (\<lambda>x. \<not> contains_sub x d) (str_split s d)" if "d \<noteq> []"
    using that by (auto simp: str_split_def list_all_iff dest: split_on_pieces)
  moreover have "replace_all s d r = s" if "d \<noteq> []" "\<not> contains_sub s d"
    using that by (simp add: replace_all_def str_split_def split_on.simps [of d s])
  ultimately show ?thesis by (simp add: replace_all_def)
qed

end
