(* ===== verification/C_Types.thy ===== *)
theory C_Types
  imports Errors
begin

text \<open>
  What the C adapters (\<open>c_adapter\<close> of the crates) share, most of it in \<open>types_ffi.rs\<close>: how text and arrays come in from C
  and how text goes out. A pointer is an option, \<open>None\<close> for null; the bytes behind it are a \<open>string\<close>. That the memory
  behind a pointer reaches as far as the length given with it is asked of the caller, as the comments of the code say.
\<close>

section \<open>Text from C\<close>

type_synonym c_text = "string option \<times> u32"

text \<open>\<open>slice::from_raw_parts\<close>, behind a check for null.\<close>

definition c_bytes :: "c_text \<Rightarrow> string option" where
  "c_bytes t = map_option (take (unat (snd t))) (fst t)"

definition c_str_to_rust :: "c_text \<Rightarrow> string option" where
  "c_str_to_rust t = (case c_bytes t of None \<Rightarrow> None | Some s \<Rightarrow> if utf8_valid s then Some s else None)"

definition c_str_array_to_vec :: "c_text list option \<Rightarrow> u32 \<Rightarrow> string list" where
  "c_str_array_to_vec texts n =
     (case texts of
        None \<Rightarrow> []
      | Some texts \<Rightarrow> if n = 0 then [] else List.map_filter c_str_to_rust (take (unat n) texts))"

section \<open>Text to C\<close>

text \<open>
  The arguments are whether a buffer is given and how long it is, and whether the place for the length is given. The result is
  the answer, what is stored as the length and what is copied to the buffer.
\<close>

definition rust_str_to_c :: "string \<Rightarrow> bool \<Rightarrow> u32 \<Rightarrow> bool \<Rightarrow> bool \<times> u32 option \<times> string option" where
  "rust_str_to_c s has_buf buf_len has_len =
     (let out_len = (if has_len then Some (of_nat (length s)) else None)
      in if \<not> has_buf \<or> unat buf_len < length s then (False, out_len, None) else (True, out_len, Some s))"

text \<open>An operation of one argument of text, refused before anything is done when there is no text.\<close>

definition with_text :: "'a \<Rightarrow> c_text \<Rightarrow> (string \<Rightarrow> 'a) \<Rightarrow> 'a" where
  "with_text refused t f = (case c_str_to_rust t of None \<Rightarrow> refused | Some s \<Rightarrow> f s)"

section \<open>Text crosses the boundary\<close>

definition c_text_of :: "string \<Rightarrow> c_text" where
  "c_text_of s = (Some s, of_nat (length s))"

definition c_text_ok :: "string \<Rightarrow> bool" where
  "c_text_ok s \<longleftrightarrow> utf8_valid s \<and> length s < 2 ^ 32"

lemma unat_of_nat_u32: "n < 2 ^ 32 \<Longrightarrow> unat (of_nat n :: u32) = n"
  by (simp add: unat_of_nat)

lemma c_bytes_of: "length s < 2 ^ 32 \<Longrightarrow> c_bytes (c_text_of s) = Some s"
  by (simp add: c_bytes_def c_text_of_def unat_of_nat_u32)

lemma c_str_of: "c_text_ok s \<Longrightarrow> c_str_to_rust (c_text_of s) = Some s"
  by (simp add: c_str_to_rust_def c_text_ok_def c_bytes_of)

lemma c_array_of:
  assumes "\<forall>s \<in> set ss. c_text_ok s" and "length ss < 2 ^ 32"
  shows "c_str_array_to_vec (Some (map c_text_of ss)) (of_nat (length ss)) = ss"
proof -
  have "List.map_filter c_str_to_rust (map c_text_of ss) = ss"
    using assms(1) by (induction ss) (simp_all add: c_str_of)
  moreover have "(of_nat (length ss) :: u32) = 0 \<longleftrightarrow> ss = []"
    using unat_of_nat_u32 [OF assms(2)] unat_eq_zero [of "of_nat (length ss) :: u32"] by simp
  ultimately show ?thesis using assms(2) by (simp add: c_str_array_to_vec_def unat_of_nat_u32)
qed

lemma with_text_of [simp]: "c_text_ok s \<Longrightarrow> with_text r (c_text_of s) f = f s"
  by (simp add: with_text_def c_str_of)

lemma with_text_cases: "with_text r t f = r \<or> (\<exists>s. c_str_to_rust t = Some s \<and> utf8_valid s \<and> with_text r t f = f s)"
  by (auto simp: with_text_def c_str_to_rust_def split: option.splits)

text \<open>
  Text that does not fit the caller's buffer: nothing is copied, and the length that comes back is the one with which a
  second call succeeds.
\<close>

lemma rust_str_to_c_retry:
  assumes "length s < 2 ^ 32" and "rust_str_to_c s True n True = (ok, Some len, out)"
  shows "ok \<longleftrightarrow> length s \<le> unat n" and "out = (if ok then Some s else None)"
    and "rust_str_to_c s True len True = (True, Some len, Some s)"
  using assms by (auto simp: rust_str_to_c_def Let_def unat_of_nat_u32 split: if_splits)

end
