(* ===== verification/Itypes_Ffi.thy ===== *)
theory Itypes_Ffi
  imports Marshalling C_Types
begin

text \<open>
  \<open>c_adapter/itypes_utils_ffi.rs\<close>, predicates in parts: a second writer and a second reader of the image of \<open>itypes_utils.rs\<close>. The
  writer glues an image of operations to the simple fields; the reader skips over the operations without building them.
  \<open>avail\<close> is how many bytes the allocator can give: skipping allocates what a count asks for, and the failure \<open>ReadUndefined\<close>
  also stands for the abort of that allocation. The properties compare the pair with the writer and the reader of Itypes_Utils.
\<close>

section \<open>Predicates from parts\<close>

text \<open>The arguments come as an array of pointers, or as no array at all while the count says otherwise.\<close>

definition raw_text :: "c_text \<Rightarrow> string" where "raw_text t = (case c_bytes t of Some s \<Rightarrow> s | None \<Rightarrow> [])"

definition marshal_predicates_from_parts :: "bytes option \<Rightarrow> u32 \<Rightarrow> c_text \<Rightarrow> c_text list option \<Rightarrow> u32 \<Rightarrow> c_text \<Rightarrow> i16
    \<Rightarrow> (u32 \<times> bytes) option" where
  "marshal_predicates_from_parts ops ops_len where_clause where_args where_args_count order mode =
     (if ops = None \<and> 0 < ops_len then None
      else case wseq (if 0 < ops_len then write_all (case ops of Some bs \<Rightarrow> take (unat ops_len) bs | None \<Rightarrow> []) else wskip)
          (wseq (write_string (raw_text where_clause))
          (wseq (write_basic (ucast where_args_count :: usize))
          (wseq (case where_args of
                   Some args \<Rightarrow> if 0 < where_args_count then write_each (\<lambda>a. write_string (raw_text a)) (take (unat where_args_count) args) else wskip
                 | None \<Rightarrow> wskip)
          (wseq (write_string (raw_text order)) (write_basic mode))))) [] of
        None \<Rightarrow> None
      | Some buf \<Rightarrow> if length buf > MAX_IPC_SIZE then None else Some (of_nat (length buf), buf))"

section \<open>Predicates to parts\<close>

definition skip_value :: "'a reader \<Rightarrow> unit reader" where "skip_value r = rbind r (\<lambda>_. rret ())"

primrec skip_n :: "nat \<Rightarrow> unit reader \<Rightarrow> unit reader" where
  "skip_n 0 r = rret ()"
| "skip_n (Suc n) r = rbind r (\<lambda>_. skip_n n r)"

definition skip_vec :: "unit reader \<Rightarrow> unit reader" where
  "skip_vec r = rbind (read_basic :: usize reader) (\<lambda>len. skip_n (unat len) r)"

definition skip_bytes :: "nat \<Rightarrow> usize \<Rightarrow> unit reader" where
  "skip_bytes avail n = (if unat n > avail then rfail ReadUndefined else skip_value (read_exact (unat n)))"

definition skip_single_value :: "unit reader" where
  "skip_single_value =
     rbind (read_basic :: u8 reader) (\<lambda>type_id.
       if type_id = 0 then rret ()
       else if type_id = 1 then skip_value (read_basic :: i32 reader)
       else if type_id = 2 then skip_value (read_basic :: f64 reader)
       else if type_id = 3 then skip_value read_string
       else if type_id = 4 then skip_value read_bool
       else if type_id = 5 then skip_value (read_basic :: i64 reader)
       else rfail ReadNone)"

definition skip_single_value_vec :: "unit reader" where "skip_single_value_vec = skip_vec skip_single_value"

text \<open>\<open>count * size_of\<close> wraps.\<close>

definition skip_multi_value :: "nat \<Rightarrow> unit reader" where
  "skip_multi_value avail =
     rbind (read_basic :: u8 reader) (\<lambda>type_id.
       if type_id = 0 then rret ()
       else if type_id = 1 then rbind (read_basic :: usize reader) (\<lambda>count. skip_bytes avail (count * 4))
       else if type_id = 2 then rbind (read_basic :: usize reader) (\<lambda>count. skip_bytes avail (count * 8))
       else if type_id = 3 then rbind (read_basic :: usize reader) (\<lambda>count. skip_bytes avail (count * 8))
       else if type_id = 4 then skip_vec (skip_value read_string)
       else rfail ReadNone)"

definition skip_multi_value_vec :: "nat \<Rightarrow> unit reader" where "skip_multi_value_vec avail = skip_vec (skip_multi_value avail)"

definition skip_operations_in_buffer :: "nat \<Rightarrow> nat \<Rightarrow> unit reader" where
  "skip_operations_in_buffer avail count =
     skip_n count (rbind (read_basic :: i32 reader) (\<lambda>_. rbind skip_single_value_vec (\<lambda>_. skip_multi_value_vec avail)))"

record predicates_parts =
  pp_ops_buf :: bytes
  pp_where_clause :: string
  pp_where_args :: "string list"
  pp_order :: string
  pp_mode :: i16

definition unmarshal_to_parts :: "nat \<Rightarrow> bytes \<Rightarrow> read_error + predicates_parts" where
  "unmarshal_to_parts avail data =
     (case rbind (read_basic :: usize reader) (\<lambda>ops_count. skip_operations_in_buffer avail (unat ops_count)) data of
        Inl e \<Rightarrow> Inl e
      | Inr (_, rest) \<Rightarrow>
          decoded (rbind read_string (\<lambda>where_clause.
            rbind read_string_vec (\<lambda>where_args.
            rbind read_string (\<lambda>order.
            rbind (read_basic :: i16 reader) (\<lambda>mode.
            rret \<lparr>pp_ops_buf = take (length data - length rest) data, pp_where_clause = where_clause, pp_where_args = where_args,
                  pp_order = order, pp_mode = mode\<rparr>))))) rest)"

definition unmarshal_predicates_to_parts :: "nat \<Rightarrow> bytes option \<Rightarrow> u32 \<Rightarrow> read_error + predicates_parts" where
  "unmarshal_predicates_to_parts avail buf sz =
     (case buf of
        None \<Rightarrow> Inl ReadNone
      | Some data \<Rightarrow> if sz = 0 \<or> unat sz > MAX_IPC_SIZE then Inl ReadNone else unmarshal_to_parts avail (take (unat sz) data))"

section \<open>What is skipped\<close>

text \<open>The skipper gets past everything the reader reads, and to the same place.\<close>

definition skims :: "nat \<Rightarrow> unit reader \<Rightarrow> 'a reader \<Rightarrow> bool" where
  "skims avail s r \<longleftrightarrow> (\<forall>bs x rest. length bs \<le> avail \<and> r bs = Inr (x, rest) \<longrightarrow> s bs = Inr ((), rest) \<and> length rest \<le> length bs)"

lemma skimsD: "skims avail s r \<Longrightarrow> length bs \<le> avail \<Longrightarrow> r bs = Inr (x, rest) \<Longrightarrow> s bs = Inr ((), rest) \<and> length rest \<le> length bs"
  by (auto simp: skims_def)

lemma skims_value: "well_behaved k r \<Longrightarrow> skims avail (skip_value r) (rbind r (\<lambda>x. rret (f x)))"
  unfolding skims_def skip_value_def
  by (auto simp: rbind_def split: sum.splits dest: well_behaved_Inr(3))

lemma skims_rbind:
  assumes "well_behaved k r" and "\<And>x. skims avail (s x) (f x)"
  shows "skims avail (rbind r s) (rbind r f)"
  unfolding skims_def
proof (intro allI impI)
  fix bs y rest assume h: "length bs \<le> avail \<and> rbind r f bs = Inr (y, rest)"
  then obtain x mid where r: "r bs = Inr (x, mid)" "f x mid = Inr (y, rest)" by (auto simp: rbind_def split: sum.splits)
  have "length mid \<le> length bs" using well_behaved_Inr(3) [OF assms(1) r(1)] by simp
  then show "rbind r s bs = Inr ((), rest) \<and> length rest \<le> length bs"
    using skimsD [OF assms(2) _ r(2)] h r(1) by fastforce
qed

lemma skims_seq:
  assumes "skims avail s r" and "\<And>x. skims avail t (f x)"
  shows "skims avail (rbind s (\<lambda>_. t)) (rbind r f)"
  unfolding skims_def
proof (intro allI impI)
  fix bs y rest assume h: "length bs \<le> avail \<and> rbind r f bs = Inr (y, rest)"
  then obtain x mid where r: "r bs = Inr (x, mid)" "f x mid = Inr (y, rest)" by (auto simp: rbind_def split: sum.splits)
  have "s bs = Inr ((), mid)" "length mid \<le> length bs" using skimsD [OF assms(1) _ r(1)] h by simp_all
  then show "rbind s (\<lambda>_. t) bs = Inr ((), rest) \<and> length rest \<le> length bs"
    using skimsD [OF assms(2) _ r(2)] h by fastforce
qed

lemma skims_rret: "skims avail (rret ()) (rret x)"
  by (simp add: skims_def)

lemma skims_rfail: "skims avail s (rfail e)"
  by (simp add: skims_def)

lemma skims_if: "skims avail s r \<Longrightarrow> skims avail t q \<Longrightarrow> skims avail (if b then s else t) (if b then r else q)"
  by simp

lemma skims_map: "skims avail s r \<Longrightarrow> skims avail s (rbind r (\<lambda>x. rret (f x)))"
  unfolding skims_def by (auto simp: rbind_def split: sum.splits)

lemma skims_n: "skims avail s r \<Longrightarrow> skims avail (skip_n n s) (read_n n r)"
proof (induction n)
  case (Suc n)
  then show ?case by (simp add: skims_seq skims_map)
qed (simp add: skims_rret)

lemma skims_counted: "skims avail s r \<Longrightarrow> skims avail (skip_vec s) (read_counted r)"
  unfolding skip_vec_def read_counted_def by (intro skims_rbind [OF well_behaved_read_basic] skims_n)

lemma skims_exact: "skims avail (skip_value (read_exact n)) (read_exact n)"
  by (auto simp: skims_def skip_value_def rbind_def read_exact_def split: if_splits)

lemma skims_self: "well_behaved k r \<Longrightarrow> skims avail (skip_value r) r"
  unfolding skims_def skip_value_def by (auto simp: rbind_def split: sum.splits dest: well_behaved_Inr(3))


lemma skims_pod:
  assumes "0 < LENGTH('a::len) div 8" and "n = of_nat (LENGTH('a) div 8)" and "LENGTH('a) \<le> 64"
  shows "skims avail (rbind (read_basic :: usize reader) (\<lambda>c. skip_bytes avail (c * n))) (read_pod_vec :: 'a word list reader)"
  unfolding read_pod_vec_def
proof (rule skims_rbind [OF well_behaved_read_basic])
  fix len :: usize
  let ?w = "LENGTH('a) div 8"
  have w: "unat (len * n) = unat len * ?w" if "unat len \<le> MAX_IPC_SIZE div ?w"
  proof -
    have "unat len * ?w \<le> MAX_IPC_SIZE" using that assms(1) by (simp add: less_eq_div_iff_mult_less_eq)
    then have "unat len * ?w < 2 ^ 64" by (simp add: MAX_IPC_SIZE_def)
    then show ?thesis using assms(2,3) by (simp add: unat_word_ariths unat_of_nat)
  qed
  show "skims avail (skip_bytes avail (len * n))
     (if unat len > MAX_IPC_SIZE div ?w then rfail ReadNone
      else if unat len > 0 then rbind (read_exact (unat len * ?w)) (\<lambda>bs. rret (pod_chunks (unat len) bs :: 'a word list))
      else rret [])"
    using w
    by (auto simp: skims_def skip_bytes_def skip_value_def rbind_def read_exact_def rret_def rfail_def split: if_splits)
qed


lemmas skims_intros = skims_rret skims_rfail skims_if skims_map skims_self [OF well_behaved_read_basic]
  skims_self [OF well_behaved_read_string] skims_self [OF well_behaved_read_bool]

lemma skims_single: "skims avail skip_single_value read_single_value"
  unfolding skip_single_value_def read_single_value_def
  by (intro skims_rbind [OF well_behaved_read_basic] skims_intros)

lemma skims_multi: "skims avail (skip_multi_value avail) read_multi_value"
  unfolding skip_multi_value_def read_multi_value_def read_i32_vec_def read_i64_vec_def read_f64_vec_def read_string_vec_def
  by (intro skims_rbind [OF well_behaved_read_basic] skims_rret skims_rfail skims_if skims_map skims_pod
      skims_counted [OF skims_self [OF well_behaved_read_string]]) simp_all

lemma skims_item:
  "skims avail (rbind (read_basic :: i32 reader) (\<lambda>_. rbind skip_single_value_vec (\<lambda>_. skip_multi_value_vec avail)))
     read_operation_item"
  unfolding read_operation_item_def Let_def skip_single_value_vec_def skip_multi_value_vec_def
    read_single_value_vec_def read_multi_value_vec_def
  by (intro skims_rbind [OF well_behaved_read_basic] skims_seq skims_map skims_counted skims_single skims_multi)

lemma skims_items:
  "skims avail (rbind (read_basic :: usize reader) (\<lambda>c. skip_operations_in_buffer avail (unat c))) read_operation_item_vec"
  using skims_counted [OF skims_item] by (simp add: skip_vec_def skip_operations_in_buffer_def read_operation_item_vec_def)


section \<open>The reader and the parts\<close>

definition read_simple_fields :: "data_share_predicates \<Rightarrow> data_share_predicates reader" where
  "read_simple_fields p =
     rbind read_string (\<lambda>where_clause.
     rbind read_string_vec (\<lambda>where_args.
     rbind read_string (\<lambda>order.
     rbind (read_basic :: i16 reader) (\<lambda>mode.
     rret (p\<lparr>pd_where_clause := where_clause, pd_where_args := where_args, pd_order := order, pd_setting_mode := mode\<rparr>)))))"

definition predicates_of_parts :: "operation_item list \<Rightarrow> predicates_parts \<Rightarrow> data_share_predicates" where
  "predicates_of_parts ops parts = (from_operations ops)
     \<lparr>pd_where_clause := pp_where_clause parts, pd_where_args := pp_where_args parts, pd_order := pp_order parts,
      pd_setting_mode := pp_mode parts\<rparr>"

lemma unmarshal_to_parts_eq:
  "unmarshal_to_parts avail data =
     (case rbind (read_basic :: usize reader) (\<lambda>c. skip_operations_in_buffer avail (unat c)) data of
        Inl e \<Rightarrow> Inl e
      | Inr (_, rest) \<Rightarrow>
          (case decoded (read_simple_fields p) rest of
             Inl e \<Rightarrow> Inl e
           | Inr q \<Rightarrow> Inr \<lparr>pp_ops_buf = take (length data - length rest) data, pp_where_clause = pd_where_clause q,
               pp_where_args = pd_where_args q, pp_order = pd_order q, pp_mode = pd_setting_mode q\<rparr>))"
  unfolding unmarshal_to_parts_def read_simple_fields_def decoded_def rbind_def rret_def
  by (simp split: sum.split)

lemma read_predicates_eq:
  "read_predicates = rbind read_operation_item_vec (\<lambda>ops. read_simple_fields (from_operations ops))"
  by (simp add: read_predicates_def read_simple_fields_def)

lemma decoded_rbind_Inr: "r data = Inr (x, mid) \<Longrightarrow> decoded (rbind r f) data = decoded (f x) mid"
  by (simp add: decoded_def rbind_def)


text \<open>What a reader consumes decides what it returns: whatever follows is left untouched.\<close>

definition framed :: "'a reader \<Rightarrow> bool" where
  "framed r \<longleftrightarrow> (\<forall>bs x rest. r bs = Inr (x, rest) \<longrightarrow> (\<exists>p. bs = p @ rest \<and> (\<forall>z. r (p @ z) = Inr (x, z))))"

lemma framedD: "framed r \<Longrightarrow> r bs = Inr (x, rest) \<Longrightarrow> \<exists>p. bs = p @ rest \<and> (\<forall>z. r (p @ z) = Inr (x, z))"
  by (auto simp: framed_def)

lemma framed_rbind:
  assumes "framed r" and "\<And>x. framed (f x)"
  shows "framed (rbind r f)"
  unfolding framed_def
proof (intro allI impI)
  fix bs y rest assume "rbind r f bs = Inr (y, rest)"
  then obtain x mid where r: "r bs = Inr (x, mid)" "f x mid = Inr (y, rest)" by (auto simp: rbind_def split: sum.splits)
  obtain p where p: "bs = p @ mid" "\<forall>z. r (p @ z) = Inr (x, z)" using framedD [OF assms(1) r(1)] by blast
  obtain q where q: "mid = q @ rest" "\<forall>z. f x (q @ z) = Inr (y, z)" using framedD [OF assms(2) r(2)] by blast
  have "bs = (p @ q) @ rest \<and> (\<forall>z. rbind r f ((p @ q) @ z) = Inr (y, z))" using p q by (simp add: rbind_def)
  then show "\<exists>p. bs = p @ rest \<and> (\<forall>z. rbind r f (p @ z) = Inr (y, z))" by blast
qed

lemma framed_rret: "framed (rret x)"
  by (auto simp: framed_def rret_def)

lemma framed_rfail: "framed (rfail e)"
  by (simp add: framed_def)

lemma framed_if: "framed r \<Longrightarrow> framed q \<Longrightarrow> framed (if b then r else q)"
  by simp

lemma framed_read_exact: "framed (read_exact n)"
  unfolding framed_def
proof (intro allI impI)
  fix bs x rest assume "read_exact n bs = Inr (x, rest)"
  then have "bs = take n bs @ rest" "x = take n bs" "length (take n bs) = n"
    by (auto simp: read_exact_def split: if_splits)
  then have "bs = take n bs @ rest \<and> (\<forall>z. read_exact n (take n bs @ z) = Inr (x, z))" by (simp add: read_exact_def)
  then show "\<exists>p. bs = p @ rest \<and> (\<forall>z. read_exact n (p @ z) = Inr (x, z))" by blast
qed

lemma framed_read_basic: "framed read_basic"
  unfolding read_basic_def by (intro framed_rbind framed_read_exact framed_rret)

lemma framed_read_n: "framed r \<Longrightarrow> framed (read_n n r)"
  by (induction n) (simp_all add: framed_rret framed_rbind)

lemma framed_counted: "framed r \<Longrightarrow> framed (read_counted r)"
  unfolding read_counted_def by (intro framed_rbind framed_read_basic framed_read_n)

lemmas framed_intros = framed_rbind framed_if framed_rret framed_rfail framed_read_basic framed_read_exact framed_counted

lemma framed_items: "framed read_operation_item_vec"
  unfolding read_operation_item_vec_def read_operation_item_def Let_def read_single_value_vec_def read_single_value_def
    read_multi_value_vec_def read_multi_value_def read_string_vec_def read_string_def read_bool_def
    read_i32_vec_def read_i64_vec_def read_f64_vec_def read_pod_vec_def
  by (intro framed_intros)

lemma framed_skip_n: "framed r \<Longrightarrow> framed (skip_n n r)"
  by (induction n) (simp_all add: framed_rret framed_rbind)

lemma framed_skipping: "framed (rbind (read_basic :: usize reader) (\<lambda>c. skip_operations_in_buffer avail (unat c)))"
  unfolding skip_operations_in_buffer_def skip_single_value_vec_def skip_multi_value_vec_def skip_vec_def
    skip_single_value_def skip_multi_value_def skip_bytes_def skip_value_def read_string_def read_bool_def
  by (intro framed_intros framed_skip_n)

lemma framed_taken: "framed r \<Longrightarrow> r bs = Inr (x, rest) \<Longrightarrow> bs = take (length bs - length rest) bs @ rest"
  using framedD by fastforce

lemma simple_fields_result:
  "decoded (read_simple_fields q) bs = Inr p \<Longrightarrow> q\<lparr>pd_where_clause := pd_where_clause p, pd_where_args := pd_where_args p,
     pd_order := pd_order p, pd_setting_mode := pd_setting_mode p\<rparr> = p"
  by (auto simp: read_simple_fields_def decoded_def rbind_def rret_def split: sum.splits)

lemma parts_of_read:
  assumes "length data \<le> avail" and "unmarshal_predicates_from_buffer data = Inr p"
  shows "\<exists>parts ops. unmarshal_to_parts avail data = Inr parts \<and> read_operation_item_vec (pp_ops_buf parts) = Inr (ops, [])
      \<and> p = predicates_of_parts ops parts"
proof -
  obtain ops rest where ops: "read_operation_item_vec data = Inr (ops, rest)"
    and p: "decoded (read_simple_fields (from_operations ops)) rest = Inr p"
    using assms(2) by (auto simp: unmarshal_predicates_from_buffer_def read_predicates_eq decoded_def rbind_def split: sum.splits)
  have skip: "rbind (read_basic :: usize reader) (\<lambda>c. skip_operations_in_buffer avail (unat c)) data = Inr ((), rest)"
    using skimsD [OF skims_items assms(1) ops] by simp
  obtain buf where buf: "data = buf @ rest" "\<forall>z. read_operation_item_vec (buf @ z) = Inr (ops, z)"
    using framedD [OF framed_items ops] by blast
  have own: "read_operation_item_vec buf = Inr (ops, [])" using spec [OF buf(2), of "[]"] by simp
  show "\<exists>parts ops. unmarshal_to_parts avail data = Inr parts
      \<and> read_operation_item_vec (pp_ops_buf parts) = Inr (ops, []) \<and> p = predicates_of_parts ops parts"
    using skip p own buf(1) simple_fields_result [OF p]
    by (auto simp: unmarshal_to_parts_eq [where p = "from_operations ops"] predicates_of_parts_def)
qed

text \<open>
  C38: parts and whole. A receiver that takes a message of predicates apart and has the operations read elsewhere gets the
  predicates that \<open>unmarshal_predicates_from_buffer\<close> builds from the message, and fails where that fails: the image of the
  operations it hands over is exactly what their reader consumes, whenever that reader accepts it. The allocator must be able
  to give as many bytes as the message has.
\<close>

theorem parts_equivalent:
  assumes "length data \<le> avail"
  shows "unmarshal_predicates_from_buffer data = Inr p \<longleftrightarrow>
    (\<exists>parts ops. unmarshal_to_parts avail data = Inr parts \<and> read_operation_item_vec (pp_ops_buf parts) = Inr (ops, [])
      \<and> p = predicates_of_parts ops parts)"
proof
  assume "unmarshal_predicates_from_buffer data = Inr p"
  then show "\<exists>parts ops. unmarshal_to_parts avail data = Inr parts
      \<and> read_operation_item_vec (pp_ops_buf parts) = Inr (ops, []) \<and> p = predicates_of_parts ops parts"
    by (rule parts_of_read [OF assms])
next
  assume "\<exists>parts ops. unmarshal_to_parts avail data = Inr parts \<and> read_operation_item_vec (pp_ops_buf parts) = Inr (ops, [])
      \<and> p = predicates_of_parts ops parts"
  then obtain parts ops where parts: "unmarshal_to_parts avail data = Inr parts"
    and ops: "read_operation_item_vec (pp_ops_buf parts) = Inr (ops, [])" and p: "p = predicates_of_parts ops parts" by blast
  obtain rest q where skip: "rbind (read_basic :: usize reader) (\<lambda>c. skip_operations_in_buffer avail (unat c)) data = Inr ((), rest)"
    and q: "decoded (read_simple_fields (from_operations ops)) rest = Inr q"
      "parts = \<lparr>pp_ops_buf = take (length data - length rest) data, pp_where_clause = pd_where_clause q,
         pp_where_args = pd_where_args q, pp_order = pd_order q, pp_mode = pd_setting_mode q\<rparr>"
    using parts by (auto simp: unmarshal_to_parts_eq [where p = "from_operations ops"] split: sum.splits)
  have data: "data = pp_ops_buf parts @ rest" using framed_taken [OF framed_skipping skip] q(2) by simp
  have fields: "decoded (read_simple_fields (from_operations ops)) rest = Inr p"
    using q p simple_fields_result [OF q(1)] by (simp add: predicates_of_parts_def)
  have "read_operation_item_vec data = Inr (ops, rest)" using well_behaved_Inr(2) [OF items.rd_wb ops, of rest] data by simp
  then show "unmarshal_predicates_from_buffer data = Inr p"
    using fields by (simp add: unmarshal_predicates_from_buffer_def read_predicates_eq decoded_rbind_Inr)
qed


lemma read_sample: "unmarshal_predicates_from_buffer (predicates_enc sample_predicates) = Inr sample_predicates"
  using pred.rd_enc [OF sample_predicates_wf(1), of "[]"] predicates_norm_plain [OF sample_predicates_wf(2)]
  by (simp add: unmarshal_predicates_from_buffer_def decoded_def)

theorem parts_equivalent_witness:
  "\<exists>parts ops. unmarshal_to_parts (length (predicates_enc sample_predicates)) (predicates_enc sample_predicates) = Inr parts
     \<and> read_operation_item_vec (pp_ops_buf parts) = Inr (ops, []) \<and> sample_predicates = predicates_of_parts ops parts"
  using parts_equivalent [OF order.refl] read_sample by blast

section \<open>Taking apart and gluing\<close>

definition canonical :: "'a reader \<Rightarrow> ('a \<Rightarrow> bytes) \<Rightarrow> bool" where
  "canonical r e \<longleftrightarrow> (\<forall>bs x rest. r bs = Inr (x, rest) \<longrightarrow> bs = e x @ rest)"

lemma canonicalD: "canonical r e \<Longrightarrow> r bs = Inr (x, rest) \<Longrightarrow> bs = e x @ rest"
  by (auto simp: canonical_def)

lemma canonical_basic:
  assumes "LENGTH('a::len) = 8 * n"
  shows "canonical (read_basic :: 'a word reader) (le_bytes n)"
  unfolding canonical_def
proof (intro allI impI)
  fix bs rest and x :: "'a word" assume "read_basic bs = Inr (x, rest)"
  then have "bs = take n bs @ rest" "x = le_word (take n bs)" "length (take n bs) = n"
    using assms by (auto simp: read_basic_def read_exact_def rbind_def rret_def split: if_splits)
  then show "bs = le_bytes n x @ rest" using le_bytes_le_word [of "take n bs", where ?'a = 'a] assms by simp
qed

lemma canonical_string: "canonical read_string string_enc"
  unfolding canonical_def
proof (intro allI impI)
  fix bs x rest assume "read_string bs = Inr (x, rest)"
  then obtain n :: usize and mid where n: "read_basic bs = Inr (n, mid)"
    and x: "mid = as_bytes x @ rest" "length (as_bytes x) = unat n"
    by (auto simp: read_string_def rbind_def rret_def rfail_def read_exact_def as_bytes_Nil as_bytes_of_bytes
        split: sum.splits if_splits)
  have "(of_nat (length x) :: usize) = n" using x(2) by (simp add: as_bytes_def)
  then show "bs = string_enc x @ rest"
    using canonicalD [OF canonical_basic n, of 8] x(1) by (simp add: string_enc_def)
qed

lemma canonical_read_n: "canonical r e \<Longrightarrow> canonical (read_n n r) (\<lambda>xs. concat (map e xs))"
proof (induction n)
  case (Suc n)
  then show ?case by (fastforce simp: canonical_def rbind_def rret_def split: sum.splits)
qed (simp add: canonical_def rret_def)

lemma canonical_counted:
  assumes "canonical r e"
  shows "canonical (read_counted r) (counted_enc e)"
  unfolding canonical_def
proof (intro allI impI)
  fix bs xs rest assume "read_counted r bs = Inr (xs, rest)"
  then obtain n :: usize and mid where n: "read_basic bs = Inr (n, mid)" and xs: "read_n (unat n) r mid = Inr (xs, rest)"
    by (auto simp: read_counted_def rbind_def split: sum.splits)
  have "(of_nat (length xs) :: usize) = n" using length_read_n [OF xs] by simp
  then show "bs = counted_enc e xs @ rest"
    using canonicalD [OF canonical_basic n, of 8] canonicalD [OF canonical_read_n [OF assms] xs]
    by (simp add: counted_enc_def)
qed


lemma raw_text_of: "length s < 2 ^ 32 \<Longrightarrow> raw_text (c_text_of s) = s"
  by (simp add: raw_text_def c_bytes_of)

lemma write_each_args:
  "\<forall>a \<in> set args. length a < 2 ^ 32 \<Longrightarrow>
    write_each (\<lambda>a. write_string (raw_text a)) (map c_text_of args) buf = Some (buf @ concat (map string_enc args))"
  by (induction args arbitrary: buf) (simp_all add: raw_text_of wseq_def wskip_def appendsD [OF str.wr_enc])

lemma wseq_appends: "appends w e \<Longrightarrow> wseq w v buf = v (buf @ e)"
  by (simp add: wseq_def appendsD)

lemma marshal_from_parts_eq:
  assumes "length args < 2 ^ 32" and "length (pp_ops_buf parts) < 2 ^ 32" and "args = pp_where_args parts"
    and texts: "length (pp_where_clause parts) < 2 ^ 32" "length (pp_order parts) < 2 ^ 32" "\<forall>a \<in> set args. length a < 2 ^ 32"
  shows "marshal_predicates_from_parts (Some (pp_ops_buf parts)) (of_nat (length (pp_ops_buf parts))) (c_text_of (pp_where_clause parts))
      (Some (map c_text_of args)) (of_nat (length args)) (c_text_of (pp_order parts)) (pp_mode parts) =
    (let buf = pp_ops_buf parts @ string_enc (pp_where_clause parts) @ counted_enc string_enc args
         @ string_enc (pp_order parts) @ le_bytes 2 (pp_mode parts)
     in if length buf > MAX_IPC_SIZE then None else Some (of_nat (length buf), buf))"
proof -
  have n: "unat (of_nat (length args) :: u32) = length args" "unat (of_nat (length (pp_ops_buf parts)) :: u32) = length (pp_ops_buf parts)"
    using assms by (simp_all add: unat_of_nat)
  have ops: "appends (if 0 < (of_nat (length (pp_ops_buf parts)) :: u32)
      then write_all (take (length (pp_ops_buf parts)) (pp_ops_buf parts)) else wskip) (pp_ops_buf parts)"
    using n(2) by (auto simp: appends_def write_all_def wskip_def word_less_nat_alt)
  have args: "appends (if 0 < (of_nat (length args) :: u32)
      then write_each (\<lambda>a. write_string (raw_text a)) (take (length args) (map c_text_of args)) else wskip) (concat (map string_enc args))"
    using n(1) by (auto simp: appends_def write_each_args [OF texts(3)] wskip_def word_less_nat_alt)
  have cnt: "(ucast (of_nat (length args) :: u32) :: usize) = of_nat (length args)"
    using assms(1) by (simp add: unsigned_of_nat take_bit_nat_eq_self)
  show ?thesis
    unfolding marshal_predicates_from_parts_def Let_def raw_text_of [OF texts(1)] raw_text_of [OF texts(2)] option.case n cnt
    by (simp add: wseq_appends [OF ops] wseq_appends [OF args] wseq_appends [OF str.wr_enc] wseq_appends [OF appends_64]
        appendsD [OF appends_16] counted_enc_def)
qed


text \<open>The fields behind the operations, as one reader.\<close>

definition read_parts :: "bytes \<Rightarrow> predicates_parts reader" where
  "read_parts ops = rbind read_string (\<lambda>w. rbind read_string_vec (\<lambda>a. rbind read_string (\<lambda>ord. rbind (read_basic :: i16 reader) (\<lambda>m.
     rret \<lparr>pp_ops_buf = ops, pp_where_clause = w, pp_where_args = a, pp_order = ord, pp_mode = m\<rparr>))))"

definition parts_enc :: "predicates_parts \<Rightarrow> bytes" where
  "parts_enc parts = string_enc (pp_where_clause parts) @ counted_enc string_enc (pp_where_args parts)
     @ string_enc (pp_order parts) @ le_bytes 2 (pp_mode parts)"

lemma framed_read_parts: "framed (read_parts ops)"
  unfolding read_parts_def read_string_vec_def read_string_def by (intro framed_intros)

lemma read_parts_canonical:
  assumes "read_parts ops mid = Inr (parts, rest)"
  shows "mid = parts_enc parts @ rest \<and> pp_ops_buf parts = ops"
proof -
  obtain w m1 a m2 ord m3 m where reads: "read_string mid = Inr (w, m1)" "read_string_vec m1 = Inr (a, m2)"
      "read_string m2 = Inr (ord, m3)" "(read_basic :: i16 reader) m3 = Inr (m, rest)"
    and parts: "parts = \<lparr>pp_ops_buf = ops, pp_where_clause = w, pp_where_args = a, pp_order = ord, pp_mode = m\<rparr>"
    using assms by (auto simp: read_parts_def rbind_def rret_def split: sum.splits)
  have "mid = string_enc w @ counted_enc string_enc a @ string_enc ord @ le_bytes 2 m @ rest"
    using canonicalD [OF canonical_string reads(1)] canonicalD [OF canonical_counted [OF canonical_string]]
      reads(2) canonicalD [OF canonical_string reads(3)] canonicalD [OF canonical_basic reads(4), of 2]
    by (simp add: read_string_vec_def)
  then show ?thesis by (simp add: parts parts_enc_def)
qed

text \<open>A message is the image of its operations, the image of its fields, and bytes that do not matter.\<close>

lemma canonical_parts:
  assumes "unmarshal_to_parts avail data = Inr parts"
  shows "\<exists>rest. data = (pp_ops_buf parts @ parts_enc parts) @ rest
    \<and> unmarshal_to_parts avail (pp_ops_buf parts @ parts_enc parts) = Inr parts"
proof -
  let ?skip = "rbind (read_basic :: usize reader) (\<lambda>c. skip_operations_in_buffer avail (unat c))"
  have whole: "unmarshal_to_parts avail bs = (case ?skip bs of Inl e \<Rightarrow> Inl e
      | Inr (_, rest) \<Rightarrow> decoded (read_parts (take (length bs - length rest) bs)) rest)" for bs
    unfolding unmarshal_to_parts_def read_parts_def ..
  obtain mid where skip: "?skip data = Inr ((), mid)" using assms by (auto simp: whole split: sum.splits)
  obtain ops where ops: "data = ops @ mid" "\<forall>z. ?skip (ops @ z) = Inr ((), z)" using framedD [OF framed_skipping skip] by blast
  have "decoded (read_parts ops) mid = Inr parts" using assms ops by (simp add: whole)
  then obtain rest where read: "read_parts ops mid = Inr (parts, rest)" by (auto simp: decoded_def split: sum.splits)
  obtain q where q: "mid = q @ rest" "\<forall>z. read_parts ops (q @ z) = Inr (parts, z)"
    using framedD [OF framed_read_parts read] by blast
  have "q = parts_enc parts" "pp_ops_buf parts = ops" using read_parts_canonical [OF read] q(1) by simp_all
  moreover have "unmarshal_to_parts avail (ops @ q) = Inr parts"
    using ops(2) q(2) [THEN spec, of "[]"] by (simp add: whole decoded_def)
  ultimately show ?thesis using ops(1) q(1) by auto
qed

lemma length_string_enc: "8 \<le> length (string_enc s)"
  by (simp add: string_enc_def)

lemma length_counted_strings: "length xs \<le> length (counted_enc string_enc xs)"
proof -
  have "length xs \<le> length (concat (map string_enc xs))"
  proof (induction xs)
    case (Cons x xs)
    then show ?case using length_string_enc [of x] by simp
  qed simp
  then show ?thesis by (simp add: counted_enc_def)
qed

lemma length_in_counted: "s \<in> set xs \<Longrightarrow> length s \<le> length (counted_enc string_enc xs)"
  by (induction xs) (auto simp: counted_enc_def string_enc_def as_bytes_def)

text \<open>The bytes that parts take: every text with its length before it, the list with its count, and the mode.\<close>

definition parts_size :: "predicates_parts \<Rightarrow> nat" where
  "parts_size parts = length (pp_ops_buf parts) + (8 + length (pp_where_clause parts))
     + (8 + sum_list (map (\<lambda>a. 8 + length a) (pp_where_args parts))) + (8 + length (pp_order parts)) + 2"

lemma length_parts: "length (pp_ops_buf parts @ parts_enc parts) = parts_size parts"
  by (simp add: parts_size_def parts_enc_def string_enc_def counted_enc_def as_bytes_def length_concat comp_def)

text \<open>
  C39: taking apart and gluing. Whatever message of predicates is taken apart, its parts glued again are the first bytes of
  that message, exactly as many as the parts take: the image of the operations, the three texts and lists with their lengths and
  the mode. And these bytes alone are taken apart into the same parts, so what the message holds behind them does not matter and
  nothing in front of them is lost or rewritten.
\<close>

theorem glue_parts:
  assumes "length data \<le> MAX_IPC_SIZE" and "unmarshal_predicates_to_parts avail (Some data) (of_nat (length data)) = Inr parts"
  shows "parts_size parts \<le> length data
    \<and> marshal_predicates_from_parts (Some (pp_ops_buf parts)) (of_nat (length (pp_ops_buf parts))) (c_text_of (pp_where_clause parts))
        (Some (map c_text_of (pp_where_args parts))) (of_nat (length (pp_where_args parts))) (c_text_of (pp_order parts)) (pp_mode parts)
      = Some (of_nat (parts_size parts), take (parts_size parts) data)
    \<and> unmarshal_predicates_to_parts avail (Some (take (parts_size parts) data)) (of_nat (parts_size parts)) = Inr parts"
proof -
  have len: "n \<le> MAX_IPC_SIZE \<Longrightarrow> unat (of_nat n :: u32) = n" for n by (simp add: MAX_IPC_SIZE_def unat_of_nat)
  have parts: "unmarshal_to_parts avail data = Inr parts"
    using assms(2) len [OF assms(1)] by (auto simp: unmarshal_predicates_to_parts_def split: if_splits)
  define buf where "buf = pp_ops_buf parts @ parts_enc parts"
  have size: "length buf = parts_size parts" unfolding buf_def by (rule length_parts)
  obtain rest where data: "data = buf @ rest" and own: "unmarshal_to_parts avail buf = Inr parts"
    using canonical_parts [OF parts] by (auto simp: buf_def)
  have taken: "take (parts_size parts) data = buf" using data size by simp
  have small: "length buf \<le> MAX_IPC_SIZE" using assms(1) data by simp
  have "length (pp_where_args parts) < 2 ^ 32" "length (pp_ops_buf parts) < 2 ^ 32"
    "length (pp_where_clause parts) < 2 ^ 32" "length (pp_order parts) < 2 ^ 32" "\<forall>a \<in> set (pp_where_args parts). length a < 2 ^ 32"
    using small length_counted_strings [of "pp_where_args parts"] length_in_counted [of _ "pp_where_args parts"]
    by (fastforce simp: buf_def parts_enc_def MAX_IPC_SIZE_def string_enc_def as_bytes_def)+
  note glued = marshal_from_parts_eq [OF this(1,2) refl this(3-5)]
  have again: "unmarshal_predicates_to_parts avail (Some buf) (of_nat (parts_size parts)) = Inr parts"
  proof -
    have "0 < parts_size parts" by (simp add: parts_size_def)
    then show ?thesis using own len [OF small] small size by (auto simp: unmarshal_predicates_to_parts_def simp flip: word_unat_eq_iff)
  qed
  show ?thesis
  proof (intro conjI)
    show "parts_size parts \<le> length data" using data size by simp
  qed (use glued small again taken in \<open>simp_all add: buf_def [unfolded parts_enc_def, symmetric] parts_enc_def size Let_def\<close>)
qed


definition sample_message :: bytes where "sample_message = predicates_enc sample_predicates"

lemma length_sample_message: "length sample_message = 95"
  by (simp add: sample_message_def predicates_enc_def sample_predicates_def sample_simps counted_enc_def item_enc_def
      string_enc_def as_bytes_def)

theorem glue_parts_witness:
  "\<exists>parts. unmarshal_predicates_to_parts 95 (Some sample_message) 95 = Inr parts \<and> parts_size parts \<le> 95
    \<and> marshal_predicates_from_parts (Some (pp_ops_buf parts)) (of_nat (length (pp_ops_buf parts))) (c_text_of (pp_where_clause parts))
        (Some (map c_text_of (pp_where_args parts))) (of_nat (length (pp_where_args parts))) (c_text_of (pp_order parts)) (pp_mode parts)
      = Some (of_nat (parts_size parts), take (parts_size parts) sample_message)
    \<and> unmarshal_predicates_to_parts 95 (Some (take (parts_size parts) sample_message)) (of_nat (parts_size parts)) = Inr parts"
proof -
  have "\<exists>parts. unmarshal_to_parts 95 sample_message = Inr parts"
    using parts_of_read [of sample_message 95, OF _ read_sample [folded sample_message_def]] by (auto simp: length_sample_message)
  then obtain parts where parts: "unmarshal_predicates_to_parts 95 (Some sample_message) 95 = Inr parts"
    by (auto simp: unmarshal_predicates_to_parts_def length_sample_message MAX_IPC_SIZE_def)
  show ?thesis
    using glue_parts [of sample_message 95 parts] parts by (auto simp: length_sample_message MAX_IPC_SIZE_def)
qed

section \<open>What only the skipper accepts\<close>

text \<open>One operation with one list of $2^{62}$ numbers of four bytes, and nothing after the count of the list.\<close>

definition huge_list :: bytes where
  "huge_list = le_bytes 8 (1 :: usize) @ le_bytes 4 (1 :: i32) @ le_bytes 8 (0 :: usize) @ le_bytes 8 (1 :: usize) @ le_bytes (Suc 0) (1 :: u8)
     @ le_bytes 8 (0x4000000000000000 :: usize) @ string_enc [] @ counted_enc string_enc [] @ string_enc [] @ le_bytes 2 (0 :: i16) @ [0]"

lemma rbind_assoc: "rbind (rbind r f) g = rbind r (\<lambda>x. rbind (f x) g)"
  by (rule ext) (simp add: rbind_def split: sum.split)

lemma rbind_rfail: "rbind (rfail e) f = rfail e"
  by (rule ext) (simp add: rbind_def rfail_def)

lemma huge_list_skipped:
  "\<exists>parts. unmarshal_to_parts 0 huge_list = Inr parts"
  "\<exists>e. unmarshal_predicates_from_buffer huge_list = Inl e"
  by (simp_all add: huge_list_def unmarshal_to_parts_def skip_operations_in_buffer_def skip_single_value_vec_def
      skip_multi_value_vec_def skip_vec_def skip_multi_value_def skip_bytes_def skip_value_def string_enc_def counted_enc_def
      as_bytes_Nil decoded_def read_string_def read_string_vec_def read_counted_def read_exact_def
      unmarshal_predicates_from_buffer_def read_predicates_def read_operation_item_vec_def read_operation_item_def
      read_single_value_vec_def read_multi_value_vec_def read_multi_value_def read_i32_vec_def read_pod_vec_def MAX_IPC_SIZE_def rbind_assoc rbind_rfail)


section \<open>No operations\<close>

text \<open>
  Without an image of operations the message has no count of operations either, so what was made of no operations is not read
  back.
\<close>

lemma empty_operations_refused:
  "\<exists>buf. marshal_predicates_from_parts None 0 (c_text_of []) (Some []) 0 (c_text_of []) mode = Some (26, buf)
    \<and> (\<forall>p. unmarshal_predicates_from_buffer buf \<noteq> Inr p)"
proof -
  let ?buf = "string_enc [] @ le_bytes 8 (0 :: usize) @ string_enc [] @ le_bytes 2 mode"
  have len: "length ?buf = 26" by (simp add: string_enc_def as_bytes_Nil)
  have "marshal_predicates_from_parts None 0 (c_text_of []) (Some []) 0 (c_text_of []) mode = Some (26, ?buf)"
    using len unfolding marshal_predicates_from_parts_def
    by (simp add: raw_text_of wseq_appends [OF str.wr_enc] wseq_appends [OF appends_64] appendsD [OF appends_16]
        wseq_def [of wskip] wskip_def MAX_IPC_SIZE_def)
  moreover have "unmarshal_predicates_from_buffer ?buf \<noteq> Inr p" for p
    using well_behaved_Inr(3) [OF well_behaved_predicates, of ?buf] len
    by (fastforce simp: unmarshal_predicates_from_buffer_def decoded_def split: sum.splits)
  ultimately show ?thesis by blast
qed

section \<open>Accessors\<close>

text \<open>Handles to the parts and to buckets; \<open>None\<close> is null. Text comes back as a pointer into the object and its length.\<close>

definition C_OK :: i32 where "C_OK = 0"

definition borrowed :: "string \<Rightarrow> i32 \<times> (string \<times> u32) option" where
  "borrowed s = (C_OK, Some (s, of_nat (length s)))"

definition refused :: "i32 \<times> 'a option" where "refused = (- 1, None)"

definition parts_get_ops_buf :: "predicates_parts option \<Rightarrow> i32 \<times> (bytes \<times> u32) option" where
  "parts_get_ops_buf parts =
     (case parts of None \<Rightarrow> refused | Some p \<Rightarrow> (C_OK, Some (pp_ops_buf p, of_nat (length (pp_ops_buf p)))))"

definition parts_get_where_clause :: "predicates_parts option \<Rightarrow> i32 \<times> (string \<times> u32) option" where
  "parts_get_where_clause parts = (case parts of None \<Rightarrow> refused | Some p \<Rightarrow> borrowed (pp_where_clause p))"

definition parts_get_where_args_count :: "predicates_parts option \<Rightarrow> u32" where
  "parts_get_where_args_count parts = (case parts of None \<Rightarrow> 0 | Some p \<Rightarrow> of_nat (length (pp_where_args p)))"

definition parts_get_where_arg :: "predicates_parts option \<Rightarrow> u32 \<Rightarrow> i32 \<times> (string \<times> u32) option" where
  "parts_get_where_arg parts index =
     (case parts of
        None \<Rightarrow> refused
      | Some p \<Rightarrow> if unat index \<ge> length (pp_where_args p) then refused else borrowed (pp_where_args p ! unat index))"

definition parts_get_order :: "predicates_parts option \<Rightarrow> i32 \<times> (string \<times> u32) option" where
  "parts_get_order parts = (case parts of None \<Rightarrow> refused | Some p \<Rightarrow> borrowed (pp_order p))"

definition parts_get_mode :: "predicates_parts option \<Rightarrow> i16" where
  "parts_get_mode parts = (case parts of None \<Rightarrow> 0 | Some p \<Rightarrow> pp_mode p)"

definition bucket_vec_get_at :: "data_share_values_bucket list option \<Rightarrow> u32 \<Rightarrow> data_share_values_bucket option" where
  "bucket_vec_get_at vec index =
     (case vec of None \<Rightarrow> None | Some bs \<Rightarrow> if unat index \<ge> length bs then None else Some (bs ! unat index))"

definition bucket_get_key_count :: "data_share_values_bucket option \<Rightarrow> u32" where
  "bucket_get_key_count bucket = (case bucket of None \<Rightarrow> 0 | Some b \<Rightarrow> of_nat (bucket_size b))"

definition bucket_get_key_at :: "data_share_values_bucket option \<Rightarrow> u32 \<Rightarrow> i32 \<times> (string \<times> u32) option" where
  "bucket_get_key_at bucket index =
     (case bucket of
        None \<Rightarrow> refused
      | Some b \<Rightarrow> if unat index < length (get_all b) then borrowed (fst (get_all b ! unat index)) else refused)"

text \<open>The value of a key; \<open>key\<close> is not checked for UTF-8.\<close>

definition keyed :: "data_share_values_bucket option \<Rightarrow> c_text \<Rightarrow> data_share_value option" where
  "keyed bucket key = (case (bucket, c_bytes key) of (Some b, Some k) \<Rightarrow> bucket_get b k | _ \<Rightarrow> None)"

definition bucket_get_value_type :: "data_share_values_bucket option \<Rightarrow> c_text \<Rightarrow> i32" where
  "bucket_get_value_type bucket key = (case keyed bucket key of None \<Rightarrow> - 1 | Some v \<Rightarrow> value_type_code (get_type v))"

definition bucket_get_int :: "data_share_values_bucket option \<Rightarrow> c_text \<Rightarrow> i32 \<times> i64 option" where
  "bucket_get_int bucket key = (case keyed bucket key of Some (VInt v) \<Rightarrow> (C_OK, Some v) | _ \<Rightarrow> refused)"

definition bucket_get_double :: "data_share_values_bucket option \<Rightarrow> c_text \<Rightarrow> i32 \<times> f64 option" where
  "bucket_get_double bucket key = (case keyed bucket key of Some (VDouble v) \<Rightarrow> (C_OK, Some v) | _ \<Rightarrow> refused)"

definition bucket_get_string :: "data_share_values_bucket option \<Rightarrow> c_text \<Rightarrow> i32 \<times> (string \<times> u32) option" where
  "bucket_get_string bucket key = (case keyed bucket key of Some (VString v) \<Rightarrow> borrowed v | _ \<Rightarrow> refused)"

definition bucket_get_bool :: "data_share_values_bucket option \<Rightarrow> c_text \<Rightarrow> i32 \<times> bool option" where
  "bucket_get_bool bucket key = (case keyed bucket key of Some (VBool v) \<Rightarrow> (C_OK, Some v) | _ \<Rightarrow> refused)"

definition bucket_get_blob :: "data_share_values_bucket option \<Rightarrow> c_text \<Rightarrow> i32 \<times> (bytes \<times> u32) option" where
  "bucket_get_blob bucket key = (case keyed bucket key of Some (VBlob v) \<Rightarrow> (C_OK, Some (v, of_nat (length v))) | _ \<Rightarrow> refused)"


text \<open>
  A bucket taken apart through the accessors: the positions below the number of keys give the keys in order, each with the
  type of its value, and exactly the accessor of that type gives the value.
\<close>

definition getter_answers :: "data_share_values_bucket option \<Rightarrow> c_text \<Rightarrow> data_share_value \<Rightarrow> bool" where
  "getter_answers b k v \<longleftrightarrow>
     bucket_get_value_type b k = value_type_code (get_type v)
     \<and> bucket_get_int b k = (case v of VInt x \<Rightarrow> (C_OK, Some x) | _ \<Rightarrow> refused)
     \<and> bucket_get_double b k = (case v of VDouble x \<Rightarrow> (C_OK, Some x) | _ \<Rightarrow> refused)
     \<and> bucket_get_string b k = (case v of VString x \<Rightarrow> borrowed x | _ \<Rightarrow> refused)
     \<and> bucket_get_bool b k = (case v of VBool x \<Rightarrow> (C_OK, Some x) | _ \<Rightarrow> refused)
     \<and> bucket_get_blob b k = (case v of VBlob x \<Rightarrow> (C_OK, Some (x, of_nat (length x))) | _ \<Rightarrow> refused)"

lemma bucket_taken_apart:
  assumes "bucket_ok b" and "bucket_size b < 2 ^ 32" and "i < bucket_size b" and "get_all b ! i = (k, v)" and "length k < 2 ^ 32"
  shows "bucket_get_key_at (Some b) (of_nat i) = borrowed k" and "getter_answers (Some b) (c_text_of k) v"
proof -
  have i: "unat (of_nat i :: u32) = i" using assms(2,3) by (simp add: unat_of_nat_u32)
  have "bucket_get b k = Some v"
    using assms(1,3,4) nth_mem [of i "bucket_values b"]
    by (auto simp: bucket_ok_def bucket_get_def get_all_def bucket_size_def intro: bt_get_mem)
  then have "keyed (Some b) (c_text_of k) = Some v" using assms(5) by (simp add: keyed_def c_bytes_of)
  then show "getter_answers (Some b) (c_text_of k) v"
    by (cases v) (simp_all add: getter_answers_def bucket_get_value_type_def bucket_get_int_def bucket_get_double_def
        bucket_get_string_def bucket_get_bool_def bucket_get_blob_def)
  show "bucket_get_key_at (Some b) (of_nat i) = borrowed k"
    using assms(3,4) i by (simp add: bucket_get_key_at_def get_all_def bucket_size_def)
qed

end
