(* ===== verification/C_Boxes.thy ===== *)
theory C_Boxes
  imports Itypes_Ffi Json_Parser
begin

text \<open>
  \<open>c_adapter/value_object_ffi.rs\<close>, \<open>values_bucket_ffi.rs\<close>, \<open>serialization_ffi.rs\<close> and the handles of \<open>itypes_utils_ffi.rs\<close>: objects that C holds by raw
  pointers. The boxes are a store of live objects; a pointer that is used must be that of a live object of the right type, otherwise the
  behaviour is undefined. \<open>None\<close> stands for undefined behaviour and for a panic, which may not leave an \<open>extern "C"\<close> function.
  An address is not given twice, so that a stale pointer is always noticed.
\<close>

section \<open>Boxes\<close>

datatype c_object =
    ObValue data_share_value
  | ObBucket data_share_values_bucket
  | ObBuckets "data_share_values_bucket list"
  | ObPredicates data_share_predicates
  | ObJson json
  | ObParts predicates_parts
  | ObBuffer bytes

type_synonym addr = nat

record boxes =
  bx_next :: addr
  bx_live :: "addr \<Rightarrow> c_object option"

definition NULL :: addr where "NULL = 0"

text \<open>A box of no bytes has a dangling address and owns nothing.\<close>

definition DANGLING :: addr where "DANGLING = 1"

definition boxes_new :: boxes where "boxes_new = \<lparr>bx_next = 2, bx_live = (\<lambda>_. None)\<rparr>"

type_synonym 'r c_fun = "boxes \<Rightarrow> ('r \<times> boxes) option"

definition answer :: "'r \<Rightarrow> 'r c_fun" where "answer r h = Some (r, h)"

definition into_raw :: "c_object \<Rightarrow> addr c_fun" where
  "into_raw ob h = Some (bx_next h, \<lparr>bx_next = Suc (bx_next h), bx_live = (bx_live h)(bx_next h \<mapsto> ob)\<rparr>)"

definition buffer_into_raw :: "bytes \<Rightarrow> addr c_fun" where
  "buffer_into_raw bs = (if bs = [] then answer DANGLING else into_raw (ObBuffer bs))"

definition from_raw :: "(c_object \<Rightarrow> 'a option) \<Rightarrow> addr \<Rightarrow> 'a c_fun" where
  "from_raw kind a h =
     (case Option.bind (bx_live h a) kind of None \<Rightarrow> None | Some x \<Rightarrow> Some (x, h\<lparr>bx_live := (bx_live h)(a := None)\<rparr>))"

definition deref :: "(c_object \<Rightarrow> 'a option) \<Rightarrow> addr \<Rightarrow> 'a c_fun" where
  "deref kind a h = (case Option.bind (bx_live h a) kind of None \<Rightarrow> None | Some x \<Rightarrow> Some (x, h))"

definition modify :: "addr \<Rightarrow> c_object \<Rightarrow> unit c_fun" where
  "modify a ob h = Some ((), h\<lparr>bx_live := (bx_live h)(a \<mapsto> ob)\<rparr>)"

definition andthen :: "'a c_fun \<Rightarrow> ('a \<Rightarrow> 'b c_fun) \<Rightarrow> 'b c_fun" where
  "andthen f g h = (case f h of None \<Rightarrow> None | Some (x, h) \<Rightarrow> g x h)"

definition undefined_behaviour :: "'a c_fun" where "undefined_behaviour h = None"

definition kind_value :: "c_object \<Rightarrow> data_share_value option" where
  "kind_value ob = (case ob of ObValue v \<Rightarrow> Some v | _ \<Rightarrow> None)"

definition kind_bucket :: "c_object \<Rightarrow> data_share_values_bucket option" where
  "kind_bucket ob = (case ob of ObBucket b \<Rightarrow> Some b | _ \<Rightarrow> None)"

definition kind_buckets :: "c_object \<Rightarrow> data_share_values_bucket list option" where
  "kind_buckets ob = (case ob of ObBuckets bs \<Rightarrow> Some bs | _ \<Rightarrow> None)"

definition kind_predicates :: "c_object \<Rightarrow> data_share_predicates option" where
  "kind_predicates ob = (case ob of ObPredicates p \<Rightarrow> Some p | _ \<Rightarrow> None)"

definition kind_json :: "c_object \<Rightarrow> json option" where
  "kind_json ob = (case ob of ObJson v \<Rightarrow> Some v | _ \<Rightarrow> None)"

definition kind_parts :: "c_object \<Rightarrow> predicates_parts option" where
  "kind_parts ob = (case ob of ObParts p \<Rightarrow> Some p | _ \<Rightarrow> None)"

text \<open>A buffer is freed with its length, which decides the layout that is given back.\<close>

definition kind_buffer :: "u32 \<Rightarrow> c_object \<Rightarrow> bytes option" where
  "kind_buffer n ob = (case ob of ObBuffer bs \<Rightarrow> if length bs = unat n then Some bs else None | _ \<Rightarrow> None)"

text \<open>The shapes the adapters have: freeing, and reading behind a null check.\<close>

definition free_as :: "(c_object \<Rightarrow> 'a option) \<Rightarrow> addr \<Rightarrow> unit c_fun" where
  "free_as kind a = (if a = NULL then answer () else andthen (from_raw kind a) (\<lambda>_. answer ()))"

definition read_as :: "(c_object \<Rightarrow> 'a option) \<Rightarrow> 'r \<Rightarrow> ('a \<Rightarrow> 'r) \<Rightarrow> addr \<Rightarrow> 'r c_fun" where
  "read_as kind null f a = (if a = NULL then answer null else andthen (deref kind a) (\<lambda>x. answer (f x)))"

section \<open>Values\<close>

definition value_create_null :: "addr c_fun" where "value_create_null = into_raw (ObValue VNull)"
definition value_create_int :: "i64 \<Rightarrow> addr c_fun" where "value_create_int v = into_raw (ObValue (VInt v))"
definition value_create_double :: "f64 \<Rightarrow> addr c_fun" where "value_create_double v = into_raw (ObValue (VDouble v))"

definition value_create_string :: "c_text \<Rightarrow> addr c_fun" where
  "value_create_string t = into_raw (ObValue (case c_bytes t of None \<Rightarrow> VNull | Some s \<Rightarrow> VString s))"

definition value_create_bool :: "bool \<Rightarrow> addr c_fun" where "value_create_bool v = into_raw (ObValue (VBool v))"

definition value_create_blob :: "bytes option \<Rightarrow> u32 \<Rightarrow> addr c_fun" where
  "value_create_blob data sz = into_raw (ObValue (case data of None \<Rightarrow> VNull | Some bs \<Rightarrow> VBlob (take (unat sz) bs)))"

definition value_get_type :: "addr \<Rightarrow> i32 c_fun" where "value_get_type = read_as kind_value (- 1) (\<lambda>v. value_type_code (get_type v))"
definition value_get_int :: "addr \<Rightarrow> i64 c_fun" where "value_get_int = read_as kind_value 0 as_i64"
definition value_get_double :: "addr \<Rightarrow> f64 c_fun" where "value_get_double = read_as kind_value 0 as_f64"
definition value_get_bool :: "addr \<Rightarrow> bool c_fun" where "value_get_bool = read_as kind_value False as_bool"
definition value_free :: "addr \<Rightarrow> unit c_fun" where "value_free = free_as kind_value"

section \<open>Buckets\<close>

definition values_bucket_new :: "addr c_fun" where "values_bucket_new = into_raw (ObBucket bucket_new)"

definition put_column :: "addr \<Rightarrow> c_text \<Rightarrow> (string \<Rightarrow> data_share_values_bucket \<Rightarrow> data_share_values_bucket) \<Rightarrow> i32 c_fun" where
  "put_column bucket column put =
     (case c_bytes column of
        None \<Rightarrow> answer (- 1)
      | Some col \<Rightarrow>
          if bucket = NULL then answer (- 1)
          else andthen (deref kind_bucket bucket) (\<lambda>b. andthen (modify bucket (ObBucket (put col b))) (\<lambda>_. answer 0)))"

definition values_bucket_put_int :: "addr \<Rightarrow> c_text \<Rightarrow> i64 \<Rightarrow> i32 c_fun" where
  "values_bucket_put_int bucket column v = put_column bucket column (\<lambda>col. put_int col v)"

definition values_bucket_put_double :: "addr \<Rightarrow> c_text \<Rightarrow> f64 \<Rightarrow> i32 c_fun" where
  "values_bucket_put_double bucket column v = put_column bucket column (\<lambda>col. put_double col v)"

definition values_bucket_put_string :: "addr \<Rightarrow> c_text \<Rightarrow> c_text \<Rightarrow> i32 c_fun" where
  "values_bucket_put_string bucket column v =
     (case c_bytes v of None \<Rightarrow> answer (- 1) | Some s \<Rightarrow> put_column bucket column (\<lambda>col. put_string col s))"

definition values_bucket_put_bool :: "addr \<Rightarrow> c_text \<Rightarrow> bool \<Rightarrow> i32 c_fun" where
  "values_bucket_put_bool bucket column v = put_column bucket column (\<lambda>col. put_bool col v)"

definition values_bucket_put_blob :: "addr \<Rightarrow> c_text \<Rightarrow> bytes option \<Rightarrow> u32 \<Rightarrow> i32 c_fun" where
  "values_bucket_put_blob bucket column data n =
     (case data of None \<Rightarrow> answer (- 1) | Some bs \<Rightarrow> put_column bucket column (\<lambda>col. put_blob col (take (unat n) bs)))"

definition values_bucket_clear :: "addr \<Rightarrow> i32 c_fun" where
  "values_bucket_clear bucket =
     (if bucket = NULL then answer (- 1)
      else andthen (deref kind_bucket bucket) (\<lambda>b. andthen (modify bucket (ObBucket (bucket_clear b))) (\<lambda>_. answer 0)))"

definition values_bucket_is_empty :: "addr \<Rightarrow> bool c_fun" where
  "values_bucket_is_empty = read_as kind_bucket True bucket_is_empty"

definition values_bucket_size :: "addr \<Rightarrow> u32 c_fun" where
  "values_bucket_size = read_as kind_bucket 0 (\<lambda>b. of_nat (bucket_size b))"

definition values_bucket_free :: "addr \<Rightarrow> unit c_fun" where "values_bucket_free = free_as kind_bucket"


section \<open>Buffers\<close>

text \<open>A boxed slice is handed over as its address and \<open>len as u32\<close>.\<close>

type_synonym c_buffer = "i32 \<times> (addr \<times> u32) option"

definition hand_over :: "bytes \<Rightarrow> c_buffer c_fun" where
  "hand_over bs = andthen (buffer_into_raw bs) (\<lambda>a. answer (0, Some (a, of_nat (length bs))))"

definition no_buffer :: c_buffer where "no_buffer = (- 1, None)"

definition buffer_free :: "addr \<Rightarrow> u32 \<Rightarrow> unit c_fun" where
  "buffer_free buf sz = (if buf \<noteq> NULL \<and> 0 < sz then andthen (from_raw (kind_buffer sz) buf) (\<lambda>_. answer ()) else answer ())"

section \<open>Binary images\<close>

text \<open>What a reader gives: reading a \<open>bool\<close> out of another byte is undefined.\<close>

definition boxed_read :: "('a \<Rightarrow> c_object) \<Rightarrow> (bytes \<Rightarrow> read_error + 'a) \<Rightarrow> bytes option \<Rightarrow> u32 \<Rightarrow> addr c_fun" where
  "boxed_read box read buf sz =
     (case buf of
        None \<Rightarrow> answer NULL
      | Some data \<Rightarrow>
          if sz = 0 then answer NULL
          else case read (take (unat sz) data) of
                 Inl ReadNone \<Rightarrow> answer NULL
               | Inl ReadUndefined \<Rightarrow> undefined_behaviour
               | Inr x \<Rightarrow> into_raw (box x))"

definition marshalled :: "(c_object \<Rightarrow> 'a option) \<Rightarrow> ('a \<Rightarrow> bytes option) \<Rightarrow> addr \<Rightarrow> c_buffer c_fun" where
  "marshalled kind write a =
     (if a = NULL then answer no_buffer
      else andthen (deref kind a) (\<lambda>x. case write x of Some buf \<Rightarrow> hand_over buf | None \<Rightarrow> answer no_buffer))"

definition ffi_marshal_predicates :: "addr \<Rightarrow> c_buffer c_fun" where
  "ffi_marshal_predicates = marshalled kind_predicates marshal_predicates_to_buffer"

definition ffi_unmarshal_predicates :: "bytes option \<Rightarrow> u32 \<Rightarrow> addr c_fun" where
  "ffi_unmarshal_predicates = boxed_read ObPredicates unmarshal_predicates_from_buffer"

definition values_bucket_vec_new :: "addr c_fun" where "values_bucket_vec_new = into_raw (ObBuckets [])"

definition values_bucket_vec_push :: "addr \<Rightarrow> addr \<Rightarrow> i32 c_fun" where
  "values_bucket_vec_push vec bucket =
     (if vec = NULL \<or> bucket = NULL then answer (- 1)
      else andthen (from_raw kind_bucket bucket) (\<lambda>b. andthen (deref kind_buckets vec) (\<lambda>bs.
           andthen (modify vec (ObBuckets (bs @ [b]))) (\<lambda>_. answer 0))))"

definition values_bucket_vec_size :: "addr \<Rightarrow> u32 c_fun" where
  "values_bucket_vec_size = read_as kind_buckets 0 (\<lambda>bs. of_nat (length bs))"

definition values_bucket_vec_free :: "addr \<Rightarrow> unit c_fun" where "values_bucket_vec_free = free_as kind_buckets"

definition ffi_marshal_buckets :: "addr \<Rightarrow> c_buffer c_fun" where
  "ffi_marshal_buckets = marshalled kind_buckets marshal_values_bucket_vec_to_buffer"

definition ffi_unmarshal_buckets :: "bytes option \<Rightarrow> u32 \<Rightarrow> addr c_fun" where
  "ffi_unmarshal_buckets = boxed_read ObBuckets unmarshal_values_bucket_vec_from_buffer"

text \<open>The handle to predicates in parts; \<open>avail\<close> is what the allocator can give at this call.\<close>

definition ffi_unmarshal_parts :: "nat \<Rightarrow> bytes option \<Rightarrow> u32 \<Rightarrow> addr c_fun" where
  "ffi_unmarshal_parts avail buf sz =
     (case unmarshal_predicates_to_parts avail buf sz of
        Inl ReadNone \<Rightarrow> answer NULL
      | Inl ReadUndefined \<Rightarrow> undefined_behaviour
      | Inr parts \<Rightarrow> into_raw (ObParts parts))"

definition predicates_parts_free :: "addr \<Rightarrow> unit c_fun" where "predicates_parts_free = free_as kind_parts"

section \<open>JSON\<close>

text \<open>\<open>ft\<close> is the formatting and parsing of floating-point numbers by the standard library.\<close>

definition ffi_json_parse :: "f64_text \<Rightarrow> c_text \<Rightarrow> addr c_fun" where
  "ffi_json_parse ft t =
     (case c_bytes t of
        None \<Rightarrow> answer NULL
      | Some s \<Rightarrow>
          (case to_json ft s of
             None \<Rightarrow> undefined_behaviour
           | Some v \<Rightarrow> if json_is_null v then answer NULL else into_raw (ObJson v)))"

definition ffi_json_dump :: "f64_text \<Rightarrow> addr \<Rightarrow> c_buffer c_fun" where
  "ffi_json_dump ft = marshalled kind_json (\<lambda>v. Some (as_bytes (dump ft v)))"

definition ffi_is_json :: "f64_text \<Rightarrow> c_text \<Rightarrow> bool c_fun" where
  "ffi_is_json ft t =
     (case c_bytes t of
        None \<Rightarrow> answer False
      | Some s \<Rightarrow> (case is_json ft s of None \<Rightarrow> undefined_behaviour | Some b \<Rightarrow> answer b))"

definition json_value_free :: "addr \<Rightarrow> unit c_fun" where "json_value_free = free_as kind_json"

definition name_to_str :: "c_text \<Rightarrow> string" where
  "name_to_str t = (case c_bytes t of None \<Rightarrow> [] | Some s \<Rightarrow> if snd t = 0 then [] else s)"

definition write_string_result :: "string \<Rightarrow> c_buffer c_fun" where "write_string_result s = hand_over (as_bytes s)"

definition json_member_as :: "(json \<Rightarrow> string \<Rightarrow> 'a option) \<Rightarrow> addr \<Rightarrow> c_text \<Rightarrow> (i32 \<times> 'a option) c_fun" where
  "json_member_as get json name =
     read_as kind_json refused (\<lambda>v. case get v (name_to_str name) of Some x \<Rightarrow> (0, Some x) | None \<Rightarrow> refused) json"

definition json_member_buffer :: "(json \<Rightarrow> string \<Rightarrow> bytes option) \<Rightarrow> addr \<Rightarrow> c_text \<Rightarrow> c_buffer c_fun" where
  "json_member_buffer get json name = marshalled kind_json (\<lambda>v. get v (name_to_str name)) json"

definition ffi_json_get_string :: "addr \<Rightarrow> c_text \<Rightarrow> c_buffer c_fun" where
  "ffi_json_get_string = json_member_buffer (\<lambda>v n. map_option as_bytes (json_get_string v n))"

definition ffi_json_get_i32 :: "addr \<Rightarrow> c_text \<Rightarrow> (i32 \<times> i32 option) c_fun" where "ffi_json_get_i32 = json_member_as json_get_i32"
definition ffi_json_get_u32 :: "addr \<Rightarrow> c_text \<Rightarrow> (i32 \<times> u32 option) c_fun" where "ffi_json_get_u32 = json_member_as json_get_u32"
definition ffi_json_get_i64 :: "addr \<Rightarrow> c_text \<Rightarrow> (i32 \<times> i64 option) c_fun" where "ffi_json_get_i64 = json_member_as json_get_i64"
definition ffi_json_get_u64 :: "addr \<Rightarrow> c_text \<Rightarrow> (i32 \<times> u64 option) c_fun" where "ffi_json_get_u64 = json_member_as json_get_u64"
definition ffi_json_get_u16 :: "addr \<Rightarrow> c_text \<Rightarrow> (i32 \<times> u16 option) c_fun" where "ffi_json_get_u16 = json_member_as json_get_u16"
definition ffi_json_get_bool :: "addr \<Rightarrow> c_text \<Rightarrow> (i32 \<times> bool option) c_fun" where "ffi_json_get_bool = json_member_as json_get_bool"
definition ffi_json_get_blob :: "addr \<Rightarrow> c_text \<Rightarrow> c_buffer c_fun" where "ffi_json_get_blob = json_member_buffer json_get_blob"

definition dump_json_value :: "f64_text \<Rightarrow> json \<Rightarrow> c_buffer c_fun" where
  "dump_json_value ft v = write_string_result (dump ft v)"

definition json_from_string :: "f64_text \<Rightarrow> c_text \<Rightarrow> c_buffer c_fun" where
  "json_from_string ft t = dump_json_value ft (JString (name_to_str t))"

definition json_from_i32 :: "f64_text \<Rightarrow> i32 \<Rightarrow> c_buffer c_fun" where
  "json_from_i32 ft v = dump_json_value ft (JInt (word_of_int (sint v)))"

definition json_from_u32 :: "f64_text \<Rightarrow> u32 \<Rightarrow> c_buffer c_fun" where
  "json_from_u32 ft v = dump_json_value ft (JUint (of_nat (unat v)))"

definition json_from_i64 :: "f64_text \<Rightarrow> i64 \<Rightarrow> c_buffer c_fun" where "json_from_i64 ft v = dump_json_value ft (JInt v)"
definition json_from_double :: "f64_text \<Rightarrow> f64 \<Rightarrow> c_buffer c_fun" where "json_from_double ft v = dump_json_value ft (JFloat v)"
definition json_from_u64 :: "f64_text \<Rightarrow> u64 \<Rightarrow> c_buffer c_fun" where "json_from_u64 ft v = dump_json_value ft (JUint v)"

definition json_from_u16 :: "f64_text \<Rightarrow> u16 \<Rightarrow> c_buffer c_fun" where
  "json_from_u16 ft v = dump_json_value ft (JUint (of_nat (unat v)))"

definition json_from_blob :: "f64_text \<Rightarrow> bytes option \<Rightarrow> u32 \<Rightarrow> c_buffer c_fun" where
  "json_from_blob ft data n =
     dump_json_value ft (JArray (case data of
       None \<Rightarrow> [] | Some bs \<Rightarrow> if n = 0 then [] else map (\<lambda>b. JUint (of_nat (unat b))) (take (unat n) bs)))"


section \<open>Clients\<close>

datatype c_kind = KValue | KBucket | KBuckets | KPredicates | KJson | KParts | KBuffer nat

fun kind_of :: "c_object \<Rightarrow> c_kind" where
  "kind_of (ObValue v) = KValue"
| "kind_of (ObBucket b) = KBucket"
| "kind_of (ObBuckets bs) = KBuckets"
| "kind_of (ObPredicates p) = KPredicates"
| "kind_of (ObJson v) = KJson"
| "kind_of (ObParts p) = KParts"
| "kind_of (ObBuffer bs) = KBuffer (length bs)"

definition kinds :: "boxes \<Rightarrow> addr \<Rightarrow> c_kind option" where "kinds h a = map_option kind_of (bx_live h a)"

datatype (plugins only: size) c_call =
    CValueNull | CValueInt i64 | CValueDouble f64 | CValueString c_text | CValueBool bool | CValueBlob "bytes option" u32
  | CValueGetType addr | CValueGetInt addr | CValueGetDouble addr | CValueGetBool addr | CValueFree addr
  | CBucketNew | CPutInt addr c_text i64 | CPutDouble addr c_text f64 | CPutString addr c_text c_text | CPutBool addr c_text bool
  | CPutBlob addr c_text "bytes option" u32 | CBucketClear addr | CBucketIsEmpty addr | CBucketSize addr | CBucketFree addr
  | CMarshalPredicates addr | CUnmarshalPredicates "bytes option" u32
  | CUnmarshalParts nat "bytes option" u32 | CPartsFree addr
  | CVecNew | CVecPush addr addr | CVecSize addr | CVecFree addr | CMarshalBuckets addr | CUnmarshalBuckets "bytes option" u32
  | CJsonParse c_text | CJsonDump addr | CIsJson c_text | CJsonFree addr
  | CJsonGetString addr c_text | CJsonGetI32 addr c_text | CJsonGetU32 addr c_text | CJsonGetI64 addr c_text
  | CJsonGetU64 addr c_text | CJsonGetU16 addr c_text | CJsonGetBool addr c_text | CJsonGetBlob addr c_text
  | CJsonFromString c_text | CJsonFromI32 i32 | CJsonFromU32 u32 | CJsonFromI64 i64 | CJsonFromDouble f64 | CJsonFromU64 u64
  | CJsonFromU16 u16 | CJsonFromBlob "bytes option" u32
  | CBufferFree addr u32

text \<open>The effect of a call on the boxes, with the address it hands over.\<close>

definition hands_nothing :: "'r c_fun \<Rightarrow> addr c_fun" where "hands_nothing f = andthen f (\<lambda>_. answer NULL)"

definition hands_buffer :: "c_buffer c_fun \<Rightarrow> addr c_fun" where
  "hands_buffer f = andthen f (\<lambda>(_, b). answer (case b of None \<Rightarrow> NULL | Some (a, n) \<Rightarrow> a))"

primrec exec :: "f64_text \<Rightarrow> c_call \<Rightarrow> addr c_fun" where
  "exec ft CValueNull = value_create_null"
| "exec ft (CValueInt v) = value_create_int v"
| "exec ft (CValueDouble v) = value_create_double v"
| "exec ft (CValueString t) = value_create_string t"
| "exec ft (CValueBool v) = value_create_bool v"
| "exec ft (CValueBlob data n) = value_create_blob data n"
| "exec ft (CValueGetType a) = hands_nothing (value_get_type a)"
| "exec ft (CValueGetInt a) = hands_nothing (value_get_int a)"
| "exec ft (CValueGetDouble a) = hands_nothing (value_get_double a)"
| "exec ft (CValueGetBool a) = hands_nothing (value_get_bool a)"
| "exec ft (CValueFree a) = hands_nothing (value_free a)"
| "exec ft CBucketNew = values_bucket_new"
| "exec ft (CPutInt a c v) = hands_nothing (values_bucket_put_int a c v)"
| "exec ft (CPutDouble a c v) = hands_nothing (values_bucket_put_double a c v)"
| "exec ft (CPutString a c v) = hands_nothing (values_bucket_put_string a c v)"
| "exec ft (CPutBool a c v) = hands_nothing (values_bucket_put_bool a c v)"
| "exec ft (CPutBlob a c data n) = hands_nothing (values_bucket_put_blob a c data n)"
| "exec ft (CBucketClear a) = hands_nothing (values_bucket_clear a)"
| "exec ft (CBucketIsEmpty a) = hands_nothing (values_bucket_is_empty a)"
| "exec ft (CBucketSize a) = hands_nothing (values_bucket_size a)"
| "exec ft (CBucketFree a) = hands_nothing (values_bucket_free a)"
| "exec ft (CMarshalPredicates a) = hands_buffer (ffi_marshal_predicates a)"
| "exec ft (CUnmarshalPredicates data n) = ffi_unmarshal_predicates data n"
| "exec ft (CUnmarshalParts avail data n) = ffi_unmarshal_parts avail data n"
| "exec ft (CPartsFree a) = hands_nothing (predicates_parts_free a)"
| "exec ft CVecNew = values_bucket_vec_new"
| "exec ft (CVecPush v b) = hands_nothing (values_bucket_vec_push v b)"
| "exec ft (CVecSize a) = hands_nothing (values_bucket_vec_size a)"
| "exec ft (CVecFree a) = hands_nothing (values_bucket_vec_free a)"
| "exec ft (CMarshalBuckets a) = hands_buffer (ffi_marshal_buckets a)"
| "exec ft (CUnmarshalBuckets data n) = ffi_unmarshal_buckets data n"
| "exec ft (CJsonParse t) = ffi_json_parse ft t"
| "exec ft (CJsonDump a) = hands_buffer (ffi_json_dump ft a)"
| "exec ft (CIsJson t) = hands_nothing (ffi_is_json ft t)"
| "exec ft (CJsonFree a) = hands_nothing (json_value_free a)"
| "exec ft (CJsonGetString a n) = hands_buffer (ffi_json_get_string a n)"
| "exec ft (CJsonGetI32 a n) = hands_nothing (ffi_json_get_i32 a n)"
| "exec ft (CJsonGetU32 a n) = hands_nothing (ffi_json_get_u32 a n)"
| "exec ft (CJsonGetI64 a n) = hands_nothing (ffi_json_get_i64 a n)"
| "exec ft (CJsonGetU64 a n) = hands_nothing (ffi_json_get_u64 a n)"
| "exec ft (CJsonGetU16 a n) = hands_nothing (ffi_json_get_u16 a n)"
| "exec ft (CJsonGetBool a n) = hands_nothing (ffi_json_get_bool a n)"
| "exec ft (CJsonGetBlob a n) = hands_buffer (ffi_json_get_blob a n)"
| "exec ft (CJsonFromString t) = hands_buffer (json_from_string ft t)"
| "exec ft (CJsonFromI32 v) = hands_buffer (json_from_i32 ft v)"
| "exec ft (CJsonFromU32 v) = hands_buffer (json_from_u32 ft v)"
| "exec ft (CJsonFromI64 v) = hands_buffer (json_from_i64 ft v)"
| "exec ft (CJsonFromDouble v) = hands_buffer (json_from_double ft v)"
| "exec ft (CJsonFromU64 v) = hands_buffer (json_from_u64 ft v)"
| "exec ft (CJsonFromU16 v) = hands_buffer (json_from_u16 ft v)"
| "exec ft (CJsonFromBlob data n) = hands_buffer (json_from_blob ft data n)"
| "exec ft (CBufferFree a n) = hands_nothing (buffer_free a n)"

text \<open>What a client needs for a call: the handles with their types, and the handles the call takes from it.\<close>

fun uses :: "c_call \<Rightarrow> (addr \<times> c_kind) list" where
  "uses (CValueGetType a) = [(a, KValue)]"
| "uses (CValueGetInt a) = [(a, KValue)]"
| "uses (CValueGetDouble a) = [(a, KValue)]"
| "uses (CValueGetBool a) = [(a, KValue)]"
| "uses (CValueFree a) = [(a, KValue)]"
| "uses (CPutInt a c v) = [(a, KBucket)]"
| "uses (CPutDouble a c v) = [(a, KBucket)]"
| "uses (CPutString a c s) = [(a, KBucket)]"
| "uses (CPutBool a c b) = [(a, KBucket)]"
| "uses (CPutBlob a c data n) = [(a, KBucket)]"
| "uses (CBucketClear a) = [(a, KBucket)]"
| "uses (CBucketIsEmpty a) = [(a, KBucket)]"
| "uses (CBucketSize a) = [(a, KBucket)]"
| "uses (CBucketFree a) = [(a, KBucket)]"
| "uses (CMarshalPredicates a) = [(a, KPredicates)]"
| "uses (CPartsFree a) = [(a, KParts)]"
| "uses (CVecPush v b) = [(v, KBuckets), (b, KBucket)]"
| "uses (CVecSize a) = [(a, KBuckets)]"
| "uses (CVecFree a) = [(a, KBuckets)]"
| "uses (CMarshalBuckets a) = [(a, KBuckets)]"
| "uses (CJsonDump a) = [(a, KJson)]"
| "uses (CJsonFree a) = [(a, KJson)]"
| "uses (CJsonGetString a t) = [(a, KJson)]"
| "uses (CJsonGetI32 a t) = [(a, KJson)]"
| "uses (CJsonGetU32 a t) = [(a, KJson)]"
| "uses (CJsonGetI64 a t) = [(a, KJson)]"
| "uses (CJsonGetU64 a t) = [(a, KJson)]"
| "uses (CJsonGetU16 a t) = [(a, KJson)]"
| "uses (CJsonGetBool a t) = [(a, KJson)]"
| "uses (CJsonGetBlob a t) = [(a, KJson)]"
| "uses (CBufferFree a n) = (if n = 0 then [] else [(a, KBuffer (unat n))])"
| "uses _ = []"

fun takes :: "c_call \<Rightarrow> addr set" where
  "takes (CValueFree a) = {a}"
| "takes (CBucketFree a) = {a}"
| "takes (CVecPush v b) = (if v = NULL then {} else {b})"
| "takes (CPartsFree a) = {a}"
| "takes (CVecFree a) = {a}"
| "takes (CJsonFree a) = {a}"
| "takes (CBufferFree a n) = (if n = 0 then {} else {a})"
| "takes _ = {}"

text \<open>
  The inputs on which the decoders themselves panic or read an invalid \<open>bool\<close>: for these five calls owning the handles is not
  enough, every other call is defined.
\<close>

fun defined_input :: "f64_text \<Rightarrow> c_call \<Rightarrow> bool" where
  "defined_input ft (CUnmarshalPredicates data n) =
     (case data of None \<Rightarrow> True | Some bs \<Rightarrow> n = 0 \<or> unmarshal_predicates_from_buffer (take (unat n) bs) \<noteq> Inl ReadUndefined)"
| "defined_input ft (CUnmarshalParts avail data n) = (unmarshal_predicates_to_parts avail data n \<noteq> Inl ReadUndefined)"
| "defined_input ft (CUnmarshalBuckets data n) =
     (case data of None \<Rightarrow> True | Some bs \<Rightarrow> n = 0 \<or> unmarshal_values_bucket_vec_from_buffer (take (unat n) bs) \<noteq> Inl ReadUndefined)"
| "defined_input ft (CJsonParse t) = (case c_bytes t of None \<Rightarrow> True | Some s \<Rightarrow> to_json ft s \<noteq> None)"
| "defined_input ft (CIsJson t) = (case c_bytes t of None \<Rightarrow> True | Some s \<Rightarrow> is_json ft s \<noteq> None)"
| "defined_input ft _ = True"

text \<open>What is asked of the client: every handle of the call is null or one it owns, of the right type.\<close>

definition permitted :: "(addr \<Rightarrow> c_kind option) \<Rightarrow> c_call \<Rightarrow> bool" where
  "permitted owned call \<longleftrightarrow> (\<forall>(a, k) \<in> set (uses call). a \<noteq> NULL \<longrightarrow> owned a = Some k)"


definition boxes_ok :: "boxes \<Rightarrow> bool" where
  "boxes_ok h \<longleftrightarrow> 2 \<le> bx_next h \<and> (\<forall>a. bx_live h a \<noteq> None \<longrightarrow> 2 \<le> a \<and> a < bx_next h)"

definition drops :: "addr set \<Rightarrow> (addr \<Rightarrow> c_kind option) \<Rightarrow> addr \<Rightarrow> c_kind option" where
  "drops T m a = (if a \<in> T then None else m a)"

definition client_gets :: "addr \<Rightarrow> c_kind \<Rightarrow> (addr \<Rightarrow> c_kind option) \<Rightarrow> addr \<Rightarrow> c_kind option" where
  "client_gets a k m = (if a = NULL \<or> a = DANGLING then m else m(a \<mapsto> k))"

text \<open>A call is defined, what it takes is gone, what it hands over is new, and nothing else changes hands.\<close>

definition effect :: "addr set \<Rightarrow> addr c_fun \<Rightarrow> boxes \<Rightarrow> bool" where
  "effect T f h \<longleftrightarrow> (\<exists>a h' k. f h = Some (a, h') \<and> boxes_ok h' \<and> kinds h' = client_gets a k (drops T (kinds h))
     \<and> (a \<noteq> NULL \<and> a \<noteq> DANGLING \<longrightarrow> kinds h a = None))"

lemma boxes_ok_low: "boxes_ok h \<Longrightarrow> kinds h NULL = None \<and> kinds h DANGLING = None \<and> kinds h (bx_next h) = None"
  by (fastforce simp: boxes_ok_def kinds_def NULL_def DANGLING_def)

lemma effectI:
  "f h = Some (a, h') \<Longrightarrow> boxes_ok h' \<Longrightarrow> kinds h' = client_gets a k (drops T (kinds h)) \<Longrightarrow>
    (a \<noteq> NULL \<Longrightarrow> a \<noteq> DANGLING \<Longrightarrow> kinds h a = None) \<Longrightarrow> effect T f h"
  by (auto simp: effect_def)

lemma drops_empty [simp]: "drops {} m = m"
  by (rule ext) (simp add: drops_def)

lemma drops_null: "boxes_ok h \<Longrightarrow> T \<subseteq> {NULL} \<Longrightarrow> drops T (kinds h) = kinds h"
  using boxes_ok_low [of h] by (intro ext) (auto simp: drops_def)

lemma effect_answer: "boxes_ok h \<Longrightarrow> a = NULL \<or> a = DANGLING \<Longrightarrow> T \<subseteq> {NULL} \<Longrightarrow> effect T (answer a) h"
  by (rule effectI [where a = a]) (auto simp: answer_def client_gets_def drops_null)

lemma into_raw_ok: "boxes_ok h \<Longrightarrow> boxes_ok (h\<lparr>bx_next := Suc (bx_next h), bx_live := (bx_live h)(bx_next h \<mapsto> ob)\<rparr>)"
  by (auto simp: boxes_ok_def less_Suc_eq)

lemma into_raw_eq:
  "into_raw ob h = Some (bx_next h, h\<lparr>bx_next := Suc (bx_next h), bx_live := (bx_live h)(bx_next h \<mapsto> ob)\<rparr>)"
  by (cases h) (simp add: into_raw_def)

lemma effect_into_raw: "boxes_ok h \<Longrightarrow> effect {} (into_raw ob) h"
  by (rule effectI [OF into_raw_eq into_raw_ok, where k = "kind_of ob"])
    (auto simp: kinds_def client_gets_def boxes_ok_def NULL_def DANGLING_def fun_eq_iff boxes_ok_low dest: boxes_ok_low)

lemma effect_hand_over: "boxes_ok h \<Longrightarrow> effect {} (hands_buffer (hand_over bs)) h"
  using effect_into_raw [of h "ObBuffer bs"] effect_answer [of h DANGLING "{}"]
  by (auto simp: effect_def hands_buffer_def hand_over_def buffer_into_raw_def andthen_def answer_def split: option.splits)

lemma effect_no_buffer: "boxes_ok h \<Longrightarrow> effect {} (hands_buffer (answer no_buffer)) h"
  using effect_answer [of h NULL "{}"] by (simp add: effect_def hands_buffer_def andthen_def answer_def no_buffer_def)

lemma effect_hands_answer: "boxes_ok h \<Longrightarrow> T \<subseteq> {NULL} \<Longrightarrow> effect T (hands_nothing (answer x)) h"
  using effect_answer [of h NULL T] by (simp add: effect_def hands_nothing_def andthen_def answer_def)

text \<open>The selector of a type accepts the objects of its kind.\<close>

definition selects :: "(c_object \<Rightarrow> 'a option) \<Rightarrow> c_kind \<Rightarrow> bool" where
  "selects sel k \<longleftrightarrow> (\<forall>ob. kind_of ob = k \<longrightarrow> sel ob \<noteq> None)"

lemma selects_kinds: "selects kind_value KValue" "selects kind_bucket KBucket" "selects kind_buckets KBuckets"
    "selects kind_predicates KPredicates" "selects kind_json KJson" "selects kind_parts KParts" "selects (kind_buffer n) (KBuffer (unat n))"
  by (auto simp: selects_def kind_value_def kind_bucket_def kind_buckets_def kind_predicates_def kind_json_def kind_parts_def kind_buffer_def
      split: c_object.splits)

lemma deref_live: "selects sel k \<Longrightarrow> kinds h a = Some k \<Longrightarrow> \<exists>x. deref sel a h = Some (x, h)"
  by (auto simp: deref_def kinds_def selects_def split: option.splits)

lemma from_raw_live:
  "selects sel k \<Longrightarrow> kinds h a = Some k \<Longrightarrow> \<exists>x. from_raw sel a h = Some (x, h\<lparr>bx_live := (bx_live h)(a := None)\<rparr>)"
  by (auto simp: from_raw_def kinds_def selects_def split: option.splits)

lemma freed_ok: "boxes_ok h \<Longrightarrow> boxes_ok (h\<lparr>bx_live := (bx_live h)(a := None)\<rparr>)"
  by (auto simp: boxes_ok_def)

lemma freed_kinds: "kinds (h\<lparr>bx_live := (bx_live h)(a := None)\<rparr>) = drops {a} (kinds h)"
  by (auto simp: kinds_def drops_def)

lemma effect_free:
  assumes "boxes_ok h" and "selects sel k" and "a \<noteq> NULL \<longrightarrow> kinds h a = Some k"
  shows "effect {a} (hands_nothing (free_as sel a)) h"
proof (cases "a = NULL")
  case True
  then show ?thesis using effect_hands_answer [OF assms(1), of "{a}" "()"] by (simp add: free_as_def)
next
  case False
  then obtain x where "from_raw sel a h = Some (x, h\<lparr>bx_live := (bx_live h)(a := None)\<rparr>)"
    using from_raw_live [OF assms(2)] assms(3) by blast
  then show ?thesis
    using False freed_ok [OF assms(1), of a]
    by (intro effectI [where a = NULL]) (auto simp: hands_nothing_def free_as_def andthen_def answer_def freed_kinds client_gets_def)
qed

lemma effect_read:
  assumes "boxes_ok h" and "selects sel k" and "a \<noteq> NULL \<longrightarrow> kinds h a = Some k"
  shows "effect {} (hands_nothing (read_as sel n f a)) h"
proof (cases "a = NULL")
  case False
  then obtain x where "deref sel a h = Some (x, h)" using deref_live [OF assms(2)] assms(3) by blast
  then show ?thesis
    using False effect_answer [OF assms(1), of NULL "{}"]
    by (simp add: effect_def hands_nothing_def read_as_def andthen_def answer_def)
qed (simp add: read_as_def effect_hands_answer [OF assms(1)])

lemma effect_marshalled:
  assumes "boxes_ok h" and "selects sel k" and "a \<noteq> NULL \<longrightarrow> kinds h a = Some k"
  shows "effect {} (hands_buffer (marshalled sel w a)) h"
proof (cases "a = NULL")
  case False
  then obtain x where "deref sel a h = Some (x, h)" using deref_live [OF assms(2)] assms(3) by blast
  then have "hands_buffer (marshalled sel w a) h
      = hands_buffer (case w x of Some buf \<Rightarrow> hand_over buf | None \<Rightarrow> answer no_buffer) h"
    using False by (simp add: hands_buffer_def marshalled_def andthen_def)
  then show ?thesis
    using effect_hand_over [OF assms(1)] effect_no_buffer [OF assms(1)] by (simp add: effect_def split: option.split)
qed (simp add: marshalled_def effect_no_buffer [OF assms(1)])


lemma modify_ok: "boxes_ok h \<Longrightarrow> bx_live h a \<noteq> None \<Longrightarrow> boxes_ok (h\<lparr>bx_live := (bx_live h)(a \<mapsto> ob)\<rparr>)"
  by (auto simp: boxes_ok_def)

lemma modify_kinds: "kinds h a = Some (kind_of ob) \<Longrightarrow> kinds (h\<lparr>bx_live := (bx_live h)(a \<mapsto> ob)\<rparr>) = kinds h"
  by (auto simp: kinds_def fun_eq_iff)

lemma effect_put_column:
  assumes "boxes_ok h" and "a \<noteq> NULL \<longrightarrow> kinds h a = Some KBucket"
  shows "effect {} (hands_nothing (put_column a c put)) h"
proof (cases "c_bytes c = None \<or> a = NULL")
  case True
  then show ?thesis using effect_hands_answer [OF assms(1), of "{}" "- 1 :: i32"] by (auto simp: put_column_def split: option.split)
next
  case False
  then obtain b where b: "bx_live h a = Some (ObBucket b)" and a: "kinds h a = Some KBucket"
    using assms(2) by (auto simp: kinds_def elim!: kind_of.elims)
  let ?h = "\<lambda>x. h\<lparr>bx_live := (bx_live h)(a \<mapsto> ObBucket x)\<rparr>"
  have "boxes_ok (?h x)" "kinds (?h x) = kinds h" for x using modify_ok [OF assms(1)] modify_kinds [of h a] b a by auto
  moreover obtain col where col: "c_bytes c = Some col" using False by auto
  moreover have "hands_nothing (put_column a c put) h = Some (NULL, ?h (put col b))"
    using False b col by (simp add: hands_nothing_def put_column_def andthen_def answer_def deref_def kind_bucket_def modify_def)
  ultimately show ?thesis by (intro effectI [where a = NULL and h' = "?h (put col b)"]) (auto simp: client_gets_def)
qed

lemma effect_clear:
  assumes "boxes_ok h" and "a \<noteq> NULL \<longrightarrow> kinds h a = Some KBucket"
  shows "effect {} (hands_nothing (values_bucket_clear a)) h"
proof -
  have "values_bucket_clear a = put_column a (Some [], 0) (\<lambda>_. bucket_clear)"
    by (simp add: values_bucket_clear_def put_column_def c_bytes_def)
  then show ?thesis using effect_put_column [OF assms] by simp
qed

lemma effect_boxed_read:
  assumes "boxes_ok h" and "\<forall>bs. data = Some bs \<longrightarrow> n = 0 \<or> read (take (unat n) bs) \<noteq> Inl ReadUndefined"
  shows "effect {} (boxed_read box read data n) h"
  using effect_into_raw [OF assms(1)] effect_answer [OF assms(1), of NULL "{}"] assms(2)
  by (auto simp: boxed_read_def split: option.split sum.split read_error.split)

lemma effect_push:
  assumes ok: "boxes_ok h" and v: "v \<noteq> NULL \<longrightarrow> kinds h v = Some KBuckets" and b: "b \<noteq> NULL \<longrightarrow> kinds h b = Some KBucket"
  shows "effect (if v = NULL then {} else {b}) (hands_nothing (values_bucket_vec_push v b)) h"
proof (cases "v = NULL \<or> b = NULL")
  case True
  then show ?thesis using effect_hands_answer [OF ok, of _ "- 1 :: i32"] by (auto simp: values_bucket_vec_push_def)
next
  case False
  then obtain bs x where live: "bx_live h v = Some (ObBuckets bs)" "bx_live h b = Some (ObBucket x)"
    using v b by (auto simp: kinds_def elim!: kind_of.elims)
  then have "v \<noteq> b" by auto
  let ?h = "h\<lparr>bx_live := ((bx_live h)(b := None))(v \<mapsto> ObBuckets (bs @ [x]))\<rparr>"
  have "boxes_ok ?h" using ok live by (auto simp: boxes_ok_def)
  moreover have "kinds ?h = drops {b} (kinds h)" using live \<open>v \<noteq> b\<close> by (auto simp: kinds_def drops_def fun_eq_iff)
  moreover have "hands_nothing (values_bucket_vec_push v b) h = Some (NULL, ?h)"
    using False live \<open>v \<noteq> b\<close>
    by (simp add: hands_nothing_def values_bucket_vec_push_def andthen_def answer_def from_raw_def kind_bucket_def deref_def
        kind_buckets_def modify_def)
  ultimately show ?thesis using False by (intro effectI [where a = NULL]) (auto simp: client_gets_def)
qed

lemma effect_buffer_free:
  assumes "boxes_ok h" and "n \<noteq> 0 \<longrightarrow> a \<noteq> NULL \<longrightarrow> kinds h a = Some (KBuffer (unat n))"
  shows "effect (if n = 0 then {} else {a}) (hands_nothing (buffer_free a n)) h"
proof (cases "n = 0")
  case True
  then show ?thesis using effect_hands_answer [OF assms(1), of "{}" "()"] by (simp add: buffer_free_def)
next
  case False
  then have "buffer_free a n = free_as (kind_buffer n) a" by (auto simp: buffer_free_def free_as_def word_gt_0)
  then show ?thesis using effect_free [OF assms(1) selects_kinds(7)] assms(2) False by simp
qed

lemmas effect_intros = effect_answer [OF _ disjI1] effect_into_raw effect_hand_over effect_hands_answer effect_free effect_read effect_marshalled
  effect_put_column effect_clear effect_boxed_read effect_push effect_buffer_free

lemmas adapter_defs = value_create_null_def value_create_int_def value_create_double_def value_create_string_def
  value_create_bool_def value_create_blob_def value_get_type_def value_get_int_def value_get_double_def value_get_bool_def
  value_free_def values_bucket_new_def values_bucket_put_int_def values_bucket_put_double_def values_bucket_put_bool_def
  values_bucket_is_empty_def values_bucket_size_def values_bucket_free_def ffi_marshal_predicates_def
  ffi_unmarshal_predicates_def values_bucket_vec_new_def values_bucket_vec_size_def values_bucket_vec_free_def
  ffi_marshal_buckets_def ffi_unmarshal_buckets_def ffi_json_dump_def json_value_free_def predicates_parts_free_def write_string_result_def
  json_member_as_def json_member_buffer_def ffi_json_get_string_def ffi_json_get_i32_def ffi_json_get_u32_def
  ffi_json_get_i64_def ffi_json_get_u64_def ffi_json_get_u16_def ffi_json_get_bool_def ffi_json_get_blob_def
  dump_json_value_def json_from_string_def json_from_i32_def json_from_u32_def json_from_i64_def json_from_double_def
  json_from_u64_def json_from_u16_def json_from_blob_def

lemma exec_effect:
  assumes "boxes_ok h" and "permitted (kinds h) call" and "defined_input ft call"
  shows "effect (takes call) (exec ft call) h"
proof (cases call)
  case (CVecPush v b)
  then show ?thesis using effect_push [OF assms(1), of v b] assms(2) by (simp add: permitted_def)
next
  case (CBufferFree a n)
  then show ?thesis using effect_buffer_free [OF assms(1), of n a] assms(2) by (auto simp: permitted_def)
qed (use assms(2,3) in \<open>auto simp: permitted_def adapter_defs values_bucket_put_string_def values_bucket_put_blob_def
      ffi_json_parse_def ffi_is_json_def ffi_unmarshal_parts_def
      intro!: effect_intros assms(1) selects_kinds split: option.split sum.split read_error.split\<close>)

lemma exec_undefined: "\<not> defined_input ft call \<Longrightarrow> exec ft call h = None"
  by (cases call) (auto simp: adapter_defs boxed_read_def ffi_unmarshal_parts_def ffi_json_parse_def ffi_is_json_def
      hands_nothing_def andthen_def undefined_behaviour_def split: option.splits)


section \<open>Runs of a client\<close>

lemma of_nat_u32_0: "n < 2 ^ 32 \<Longrightarrow> (of_nat n :: u32) = 0 \<longleftrightarrow> n = 0"
  using unat_of_nat_u32 [of n] unat_eq_zero [of "of_nat n :: u32"] by simp

text \<open>
  A client that keeps the book its documentation asks for: it uses a handle only while it owns it and for what it is, and
  gives up what a call takes. The length of a buffer comes with it.
\<close>

inductive client_run :: "f64_text \<Rightarrow> (addr \<Rightarrow> c_kind option) \<Rightarrow> boxes \<Rightarrow> bool" for ft where
  start: "client_run ft (\<lambda>_. None) boxes_new"
| call: "client_run ft owned h \<Longrightarrow> permitted owned call \<Longrightarrow> exec ft call h = Some (a, h') \<Longrightarrow>
    (a \<noteq> NULL \<Longrightarrow> a \<noteq> DANGLING \<Longrightarrow> kinds h' a = Some k) \<Longrightarrow> client_run ft (client_gets a k (drops (takes call) owned)) h'"

lemma kinds_None: "kinds h a = None \<longleftrightarrow> bx_live h a = None"
  by (simp add: kinds_def)

lemma client_gets_other: "b \<noteq> a \<Longrightarrow> client_gets a k m b = m b"
  by (simp add: client_gets_def)

lemma client_gets_self: "a \<noteq> NULL \<Longrightarrow> a \<noteq> DANGLING \<Longrightarrow> client_gets a k m a = Some k"
  by (simp add: client_gets_def)

lemma drops_in: "b \<in> T \<Longrightarrow> drops T m b = None"
  by (simp add: drops_def)

lemma boxes_new_ok: "boxes_ok boxes_new \<and> kinds boxes_new = (\<lambda>_. None)"
  by (auto simp: boxes_ok_def boxes_new_def kinds_def)

lemma effectD:
  "effect T f h \<Longrightarrow> f h = Some (a, h') \<Longrightarrow> boxes_ok h' \<and> (\<exists>k. kinds h' = client_gets a k (drops T (kinds h)))
     \<and> (a \<noteq> NULL \<longrightarrow> a \<noteq> DANGLING \<longrightarrow> kinds h a = None)"
  by (auto simp: effect_def)

lemma client_run_book: "client_run ft owned h \<Longrightarrow> boxes_ok h \<and> kinds h = owned"
proof (induction rule: client_run.induct)
  case start
  show ?case by (rule boxes_new_ok)
next
  case (call owned h c a h' k)
  have "defined_input ft c" using exec_undefined call(3) by fastforce
  then obtain j where h': "boxes_ok h'" "kinds h' = client_gets a j (drops (takes c) (kinds h))"
    using effectD [OF exec_effect call(3)] call.IH call(2) by blast
  have "client_gets a j m = client_gets a k m" for m
    using call(4) h'(2) by (auto simp: client_gets_def fun_eq_iff)
  then show ?case using h' call.IH by simp
qed


definition no_floats :: f64_text where "no_floats = \<lparr>show_f64 = (\<lambda>_. []), show_f64_1 = (\<lambda>_. []), parse_f64 = (\<lambda>_. None)\<rparr>"

lemma bucket_and_vec:
  "client_run no_floats [2 \<mapsto> KBucket, 3 \<mapsto> KBuckets]
     \<lparr>bx_next = 4, bx_live = [2 \<mapsto> ObBucket bucket_new, 3 \<mapsto> ObBuckets []]\<rparr>"
proof -
  have "client_run no_floats (client_gets 2 KBucket (drops (takes CBucketNew) (\<lambda>_. None)))
      \<lparr>bx_next = 3, bx_live = [2 \<mapsto> ObBucket bucket_new]\<rparr>"
    by (rule client_run.call [OF client_run.start])
      (simp_all add: permitted_def values_bucket_new_def into_raw_def boxes_new_def kinds_def)
  then have 1: "client_run no_floats [2 \<mapsto> KBucket] \<lparr>bx_next = 3, bx_live = [2 \<mapsto> ObBucket bucket_new]\<rparr>"
    by (simp add: client_gets_def NULL_def DANGLING_def)
  have "client_run no_floats (client_gets 3 KBuckets (drops (takes CVecNew) [2 \<mapsto> KBucket]))
      \<lparr>bx_next = 4, bx_live = [2 \<mapsto> ObBucket bucket_new, 3 \<mapsto> ObBuckets []]\<rparr>"
    by (rule client_run.call [OF 1])
      (simp_all add: permitted_def values_bucket_vec_new_def into_raw_def kinds_def)
  then show ?thesis by (simp add: client_gets_def NULL_def DANGLING_def)
qed


section \<open>What can be given back\<close>

text \<open>Everything but predicates has a call that frees it; a buffer when its length fits the \<open>u32\<close> of the call.\<close>

definition freeing :: "addr \<Rightarrow> c_kind \<Rightarrow> c_call option" where
  "freeing a k = (case k of
     KValue \<Rightarrow> Some (CValueFree a) | KBucket \<Rightarrow> Some (CBucketFree a) | KBuckets \<Rightarrow> Some (CVecFree a) | KPredicates \<Rightarrow> None
   | KJson \<Rightarrow> Some (CJsonFree a) | KParts \<Rightarrow> Some (CPartsFree a)
   | KBuffer n \<Rightarrow> if 0 < n \<and> n < 2 ^ 32 then Some (CBufferFree a (of_nat n)) else None)"

lemma freeing_frees:
  assumes "client_run ft owned h" and "owned a = Some k" and "freeing a k = Some c"
  shows "permitted owned c \<and> takes c = {a}"
  using assms(2,3) by (auto simp: freeing_def permitted_def unat_of_nat_u32 of_nat_u32_0 split: c_kind.splits if_splits)

lemma predicates_never_freed:
  assumes "client_run ft owned h" and "owned p = Some KPredicates" and "permitted owned call" and "exec ft call h = Some (a, h')"
  shows "kinds h' p = Some KPredicates"
proof -
  have book: "boxes_ok h" "kinds h = owned" using client_run_book [OF assms(1)] by simp_all
  moreover have "defined_input ft call" using exec_undefined assms(4) by fastforce
  ultimately obtain k where h': "kinds h' = client_gets a k (drops (takes call) owned)" "a \<noteq> NULL \<longrightarrow> a \<noteq> DANGLING \<longrightarrow> owned a = None"
    using effectD [OF exec_effect assms(4)] assms(3) by blast
  have "p \<notin> takes call"
    using assms(2,3) boxes_ok_low [OF book(1)] book(2) by (cases call) (auto simp: permitted_def split: if_splits)
  then show ?thesis using h' assms(2) by (auto simp: client_gets_def drops_def)
qed

end
