(* ===== verification/C_Utils.thy ===== *)
theory C_Utils
  imports C_Types Itypes_Ffi Verify Call_Reporter Permission Data_Types
begin

text \<open>
  The C adapters without state of their own: \<open>predicates_verify_ffi.rs\<close>, \<open>uri_utils_ffi.rs\<close>, \<open>string_utils_ffi.rs\<close>,
  \<open>template_ffi.rs\<close>, \<open>error_ffi.rs\<close> and \<open>call_reporter_ffi.rs\<close> of the common crate and \<open>permission_ffi.rs\<close>. The adapter of the
  verification repeats \<open>verify.rs\<close> with numbers for its enumeration; shown is that the two agree. Pointers for results are
  taken not to be null, and bytes that the code takes for text unchecked are taken to be UTF-8.
\<close>

section \<open>Verification\<close>

definition ffi_verify_predicates :: "data_share_predicates option \<Rightarrow> i32 \<times> (i32 \<times> i32) option" where
  "ffi_verify_predicates pred = (case pred of None \<Rightarrow> refused | Some p \<Rightarrow> (0, Some (verify_predicates p)))"

definition ffi_verify_field :: "c_text \<Rightarrow> bool" where
  "ffi_verify_field t = (case c_bytes t of None \<Rightarrow> True | Some s \<Rightarrow> if snd t = 0 then True else verify_field s)"

definition VERIFY_DEFAULT :: i32 where "VERIFY_DEFAULT = 0"
definition SINGLE_2_PARAMS_PUBLIC :: i32 where "SINGLE_2_PARAMS_PUBLIC = 1"
definition SINGLE_3_PARAMS_PUBLIC :: i32 where "SINGLE_3_PARAMS_PUBLIC = 2"
definition SINGLE_2_PARAMS_SYS :: i32 where "SINGLE_2_PARAMS_SYS = 3"
definition SINGLE_3_PARAMS_SYS :: i32 where "SINGLE_3_PARAMS_SYS = 4"
definition MULTI_2_PARAMS_SYS :: i32 where "MULTI_2_PARAMS_SYS = 5"
definition E_FIELD_ILLEGAL :: i32 where "E_FIELD_ILLEGAL = 1087"
definition E_FIELD_INVALID :: i32 where "E_FIELD_INVALID = 1088"

lemmas verify_numbers = VERIFY_DEFAULT_def SINGLE_2_PARAMS_PUBLIC_def SINGLE_3_PARAMS_PUBLIC_def SINGLE_2_PARAMS_SYS_def
  SINGLE_3_PARAMS_SYS_def MULTI_2_PARAMS_SYS_def E_FIELD_ILLEGAL_def E_FIELD_INVALID_def

definition ffi_get_verify_type :: "i32 \<Rightarrow> i32" where
  "ffi_get_verify_type op_type =
     (case operation_type_from_i32 op_type of
        None \<Rightarrow> VERIFY_DEFAULT
      | Some op \<Rightarrow>
          (if op \<in> {OpOrderByAsc, OpOrderByDesc} then SINGLE_2_PARAMS_PUBLIC
           else if op = OpEqualTo then SINGLE_3_PARAMS_PUBLIC
           else if op \<in> {OpIsNull, OpIsNotNull, OpIndexedBy, OpKeyPrefix} then SINGLE_2_PARAMS_SYS
           else if op \<in> {OpNotEqualTo, OpGreaterThan, OpLessThan, OpGreaterThanOrEqualTo, OpLessThanOrEqualTo,
               OpNotIn, OpLike, OpUnlike, OpBeginWith, OpEndWith, OpContains, OpGlob, OpBetween, OpNotBetween}
             then SINGLE_3_PARAMS_SYS
           else if op \<in> {OpInKey, OpGroupBy} then MULTI_2_PARAMS_SYS
           else VERIFY_DEFAULT))"

definition ffi_check_param_num :: "i32 \<Rightarrow> u32 \<Rightarrow> u32 \<Rightarrow> bool" where
  "ffi_check_param_num verify_type single_count multi_count =
     (if verify_type = VERIFY_DEFAULT then True
      else if verify_type = MULTI_2_PARAMS_SYS then 0 < multi_count else 0 < single_count)"

definition ffi_verify_fields :: "c_text list option \<Rightarrow> u32 \<Rightarrow> bool" where
  "ffi_verify_fields texts n =
     (if n = 0 then True
      else case texts of None \<Rightarrow> True | Some texts \<Rightarrow> list_all ffi_verify_field (take (unat n) texts))"

definition ffi_verify_by_type :: "i32 \<Rightarrow> c_text \<Rightarrow> u32 \<Rightarrow> u32 \<Rightarrow> c_text list option \<Rightarrow> u32 \<Rightarrow> i32" where
  "ffi_verify_by_type verify_type field single_count multi_count multi_fields multi_field_count =
     (if verify_type = VERIFY_DEFAULT \<or> \<not> ffi_check_param_num verify_type single_count multi_count then 0
      else if verify_type \<in> {SINGLE_2_PARAMS_PUBLIC, SINGLE_3_PARAMS_PUBLIC}
        then (if \<not> ffi_verify_field field then E_FIELD_INVALID else 0)
      else if verify_type \<in> {SINGLE_2_PARAMS_SYS, SINGLE_3_PARAMS_SYS}
        then (if \<not> ffi_verify_field field then E_FIELD_ILLEGAL else 0)
      else if verify_type = MULTI_2_PARAMS_SYS
        then (if \<not> ffi_verify_fields multi_fields multi_field_count then E_FIELD_ILLEGAL else 0)
      else 0)"

section \<open>URIs and strings\<close>

definition ffi_format_uri :: "c_text \<Rightarrow> i32 \<times> (string \<times> u32) option" where
  "ffi_format_uri uri = with_text refused uri (\<lambda>s. borrowed (format_uri s))"

text \<open>A text that is not UTF-8 is a failed parse rather than a failed call.\<close>

definition parsed_text :: "(string \<Rightarrow> 'a) \<Rightarrow> 'a \<Rightarrow> c_text \<Rightarrow> i32 \<times> 'a option" where
  "parsed_text parse failed t = (case c_bytes t of None \<Rightarrow> refused | Some s \<Rightarrow> (0, Some (if utf8_valid s then parse s else failed)))"

definition ffi_strtoul :: "c_text \<Rightarrow> i32 \<times> (bool \<times> u32) option" where "ffi_strtoul = parsed_text strtoul (False, 0)"

definition ffi_get_user_from_uri :: "c_text \<Rightarrow> i32 \<times> (bool \<times> i32) option" where
  "ffi_get_user_from_uri = parsed_text get_user_from_uri (False, - 1)"

definition ffi_extract_first_path_segment :: "c_text \<Rightarrow> i32 \<times> (string \<times> u32) option" where
  "ffi_extract_first_path_segment uri = with_text refused uri (\<lambda>s. borrowed (extract_first_path_segment s))"

definition NUL :: char where "NUL = CHR 0x00"

definition write_params :: "(string, string) btree \<Rightarrow> string" where
  "write_params params = concat (map (\<lambda>(key, val). key @ [NUL] @ val @ [NUL]) params)"

text \<open>The buffer, if any, its length and the number of pairs.\<close>

definition ffi_get_query_params :: "c_text \<Rightarrow> i32 \<times> (string option \<times> u32 \<times> u32) option" where
  "ffi_get_query_params =
     parsed_text (\<lambda>uri.
       let params = get_query_params uri; n = (of_nat (length params) :: u32)
       in if n = 0 then (None, 0, 0) else let buf = write_params params in (Some buf, of_nat (length buf), n)) (None, 0, 0)"

definition ffi_get_system_ability_id :: "c_text \<Rightarrow> i32 \<times> (bool \<times> i32) option" where
  "ffi_get_system_ability_id = parsed_text get_system_ability_id (False, - 1)"

text \<open>\<open>None\<close> is the panic of a cut inside a character, which may not leave the function.\<close>

definition ffi_anonymous :: "c_text \<Rightarrow> (i32 \<times> (string \<times> u32) option) option" where
  "ffi_anonymous name = with_text (Some refused) name (\<lambda>s. map_option borrowed (anonymous s))"

definition ffi_change :: "c_text \<Rightarrow> (i32 \<times> (string \<times> u32) option) option" where
  "ffi_change name = with_text (Some refused) name (\<lambda>s. map_option borrowed (change s))"

definition ffi_remove_from_query :: "c_text \<Rightarrow> i32 \<times> (string \<times> u32) option" where
  "ffi_remove_from_query uri = with_text refused uri (\<lambda>s. borrowed (remove_from_query s))"

definition ffi_get_random_number :: "u64 option \<Rightarrow> i32 \<Rightarrow> i32 \<Rightarrow> i32" where
  "ffi_get_random_number entropy mn mx = get_random_number entropy mn mx"

section \<open>Errors, calls and permissions\<close>

definition ffi_error_to_code :: "i32 \<Rightarrow> i32" where "ffi_error_to_code err = error_code (error_of_code err)"

definition ffi_error_is_ok :: "i32 \<Rightarrow> bool" where "ffi_error_is_ok err \<longleftrightarrow> err = 0"

definition ffi_call_reporter_new :: call_reporter where "ffi_call_reporter_new = call_reporter_new"

definition ffi_call_reporter_count :: "i64 \<Rightarrow> i64 \<Rightarrow> call_reporter option \<Rightarrow> c_text \<Rightarrow> c_text \<Rightarrow> bool option \<times> call_reporter option" where
  "ffi_call_reporter_count t now reporter func_name uri =
     (case (reporter, c_bytes func_name, c_bytes uri) of
        (Some cr, Some f, Some u) \<Rightarrow> let (over, logs, cr') = count_call t now f u cr in (over, Some cr')
      | _ \<Rightarrow> (Some False, reporter))"

text \<open>The C strings end at a NUL; one that is not UTF-8 counts as empty.\<close>

definition ffi_verify_permission :: "u32 \<Rightarrow> string option \<Rightarrow> string option \<Rightarrow> bool" where
  "ffi_verify_permission token_id uri permission =
     (case (uri, permission) of
        (Some u, Some p) \<Rightarrow> verify_permission permission_new token_id (if utf8_valid u then u else []) (if utf8_valid p then p else [])
      | _ \<Rightarrow> False)"

section \<open>A region for published data\<close>

text \<open>The code, the descriptor and the size that come back, and the regions closed on the way.\<close>

definition ffi_create_ashmem :: "'a ashmem_api \<Rightarrow> c_text \<Rightarrow> bytes option \<Rightarrow> u32 \<Rightarrow> i32 \<times> i32 \<times> i32 \<times> 'a list" where
  "ffi_create_ashmem api name data data_len =
     (let failed = (\<lambda>closed. (- 1, - 1, 0, closed)) in
      if fst name = None \<or> snd name = 0 then failed []
      else if data = None \<and> data_len \<noteq> 0 then failed []
      else if c_str_to_rust name = None then failed []
      else
        let blob = (if data_len = 0 then [] else case data of None \<Rightarrow> [] | Some d \<Rightarrow> take (unat data_len) d) in
        case ash_create api data_len of
          None \<Rightarrow> failed []
        | Some a \<Rightarrow>
            (case ash_map_read_write api a of
               (False, a) \<Rightarrow> failed [ash_close api a]
             | (True, a) \<Rightarrow>
                 (case ash_write api blob data_len 0 a of
                    (False, a) \<Rightarrow> failed [ash_close api (ash_unmap api a)]
                  | (True, a) \<Rightarrow>
                      if ash_fd api a <s 0 then failed [ash_close api (ash_unmap api a)]
                      else (0, ash_fd api a, ash_size api a, []))))"

section \<open>The two verifiers agree\<close>

primrec verify_type_number :: "predicates_verify_type \<Rightarrow> i32" where
  "verify_type_number PvDefault = VERIFY_DEFAULT"
| "verify_type_number PvSingle2ParamsPublic = SINGLE_2_PARAMS_PUBLIC"
| "verify_type_number PvSingle3ParamsPublic = SINGLE_3_PARAMS_PUBLIC"
| "verify_type_number PvSingle2ParamsSys = SINGLE_2_PARAMS_SYS"
| "verify_type_number PvSingle3ParamsSys = SINGLE_3_PARAMS_SYS"
| "verify_type_number PvMulti2ParamsSys = MULTI_2_PARAMS_SYS"

lemma ffi_get_verify_type_eq: "ffi_get_verify_type (operation_type_code op) = verify_type_number (get_verify_type op)"
  by (simp add: ffi_get_verify_type_def get_verify_type_def operation_type_from_code)

lemma ffi_verify_field_of: "length s < 2 ^ 32 \<Longrightarrow> ffi_verify_field (c_text_of s) = verify_field s"
  by (simp add: ffi_verify_field_def c_bytes_of) (auto simp: c_text_of_def verify_field_def dest: arg_cong [where f = unat] simp: unat_of_nat_u32)

definition value_text :: "single_value \<Rightarrow> string option" where
  "value_text v = (case v of SvString s \<Rightarrow> Some s | _ \<Rightarrow> None)"

definition multi_texts :: "operation_item \<Rightarrow> string list" where
  "multi_texts item = List.map_filter value_text (case oi_multi_values item of None \<Rightarrow> [] | Some vs \<Rightarrow> vs)"

lemma verify_fields_texts:
  "verify_fields vs = list_all verify_field (List.map_filter value_text vs)"
proof (induction vs)
  case (Cons v vs)
  then show ?case by (cases v) (simp_all add: map_filter_simps value_text_def)
qed simp

lemma ffi_verify_fields_of:
  assumes "\<forall>s \<in> set ss. length s < 2 ^ 32" "length ss < 2 ^ 32"
  shows "ffi_verify_fields (Some (map c_text_of ss)) (of_nat (length ss)) = list_all verify_field ss"
proof -
  have "(of_nat (length ss) :: u32) = 0 \<longleftrightarrow> ss = []"
    using unat_of_nat_u32 [OF assms(2)] unat_eq_zero [of "of_nat (length ss) :: u32"] by simp
  then show ?thesis
    using assms by (simp add: ffi_verify_fields_def unat_of_nat_u32 list_all_iff ffi_verify_field_of)
qed

text \<open>
  The verifier for C, given the number of an operation, its field, the texts among its values and the counts of its parameters, reports for
  every operation item what \<open>verify_by_type\<close> reports for the item, so that a caller in C which checks item by item accepts exactly
  what \<open>verify_predicates\<close> accepts.
\<close>

theorem ffi_verify_agrees:
  assumes "length (oi_field item) < 2 ^ 32" "\<forall>s \<in> set (multi_texts item). length s < 2 ^ 32" "length (multi_texts item) < 2 ^ 32"
    and "0 < single_count \<longleftrightarrow> oi_field item \<noteq> [] \<or> oi_value item \<noteq> None"
    and "0 < multi_count \<longleftrightarrow> (case oi_multi_values item of None \<Rightarrow> False | Some vs \<Rightarrow> vs \<noteq> [])"
  shows "ffi_verify_by_type (ffi_get_verify_type (operation_type_code (oi_operation item))) (c_text_of (oi_field item))
      single_count multi_count (Some (map c_text_of (multi_texts item))) (of_nat (length (multi_texts item)))
    = verify_by_type (get_verify_type (oi_operation item)) item"
proof -
  note ffi = ffi_verify_field_of [OF assms(1)] ffi_verify_fields_of [OF assms(2,3)]
  have fields: "list_all verify_field (multi_texts item) = (case oi_multi_values item of None \<Rightarrow> True | Some vs \<Rightarrow> verify_fields vs)"
    by (simp add: multi_texts_def verify_fields_texts map_filter_simps split: option.split)
  show ?thesis
    unfolding ffi_get_verify_type_eq
    by (cases "get_verify_type (oi_operation item)"; cases "oi_multi_values item")
      (use assms(4,5) in \<open>auto simp: ffi_verify_by_type_def verify_by_type_def ffi_check_param_num_def check_param_num_def verify_numbers
          ffi fields\<close>)
qed

theorem ffi_verify_agrees_witness:
  "ffi_verify_by_type (ffi_get_verify_type 1) (c_text_of ''a;b'') 2 0 (Some []) 0 = 1088
   \<and> ffi_verify_by_type (ffi_get_verify_type 23) (c_text_of []) 0 1 (Some [c_text_of ''a;b'']) 1 = 1087"
proof -
  let ?eq = "\<lparr>oi_operation = OpEqualTo, oi_field = ''a;b'', oi_value = Some (SvLong 1), oi_multi_values = None, oi_extra = []\<rparr>"
  let ?in = "\<lparr>oi_operation = OpInKey, oi_field = [], oi_value = None, oi_multi_values = Some [SvString ''a;b''], oi_extra = []\<rparr>"
  have "trim ''a;b'' = ''a;b''" by (rule trim_no_ws) simp_all
  then have bad: "\<not> verify_field ''a;b''"
    by (simp add: verify_field_def unwrap_brackets_def is_valid_identifier_def is_word_def is_ascii_alphanumeric_def Let_def)
  have "verify_by_type (get_verify_type OpEqualTo) ?eq = 1088" "verify_by_type (get_verify_type OpInKey) ?in = 1087"
    by (simp_all add: verify_by_type_def get_verify_type_def check_param_num_def bad)
  then show ?thesis
    using ffi_verify_agrees [of ?eq 2 0] ffi_verify_agrees [of ?in 0 1]
    by (simp add: multi_texts_def value_text_def map_filter_simps)
qed

section \<open>The buffer of query parameters\<close>

text \<open>
  The buffer holds one NUL behind each key and each value. Split at the NULs it gives the pairs of the map in their order, unless the URI holds a
  NUL itself, which nothing excludes: then there are more texts than the count of pairs promises.
\<close>

lemma split_params:
  assumes "\<forall>(k, v) \<in> set ps. NUL \<notin> set k \<and> NUL \<notin> set v"
  shows "split_char NUL (write_params ps) = concat (map (\<lambda>(k, v). [k, v]) ps) @ [[]]"
  using assms by (induction ps) (auto simp: write_params_def split_char_append)

lemma query_params_within:
  assumes "(k, v) \<in> set (bt_insert_all (query_pairs q) [])"
  shows "set k \<subseteq> set q \<and> set v \<subseteq> set q"
proof -
  have "set (fold (\<lambda>(k, v). bt_insert k v) ps m) \<subseteq> set ps \<union> set m" for ps :: "(string \<times> string) list" and m
    by (induction ps arbitrary: m) (use set_bt_insert in \<open>fastforce\<close>)+
  then have "(k, v) \<in> set (query_pairs q)" using assms unfolding bt_insert_all_def by fastforce
  then obtain piece where p: "piece \<in> set (split_char (CHR ''&'') q)" "(k, v) \<in> set (piece_pair piece)"
    by (auto simp: query_pairs_def)
  then show ?thesis
    using split_char_parts [OF p(1)] by (auto simp: piece_pair_def dest!: in_set_takeD in_set_dropD split: option.splits)
qed

lemma query_params_chars:
  assumes "(k, v) \<in> set (get_query_params uri)"
  shows "set k \<subseteq> set uri \<and> set v \<subseteq> set uri"
proof (cases "find_char (CHR ''?'') uri")
  case (Some i)
  then show ?thesis
    using assms query_params_within [of k v "drop (Suc i) uri"] set_drop_subset [of "Suc i" uri]
    by (auto simp: get_query_params_def query_loop_eq)
qed (use assms in \<open>simp add: get_query_params_def\<close>)

lemma query_params_buffer:
  assumes "c_text_ok uri" "NUL \<notin> set uri" "get_query_params uri \<noteq> []" "length (get_query_params uri) < 2 ^ 32"
  shows "\<exists>buf. ffi_get_query_params (c_text_of uri) = (0, Some (Some buf, of_nat (length buf), of_nat (length (get_query_params uri))))
    \<and> split_char NUL buf = concat (map (\<lambda>(k, v). [k, v]) (get_query_params uri)) @ [[]]"
proof -
  have "split_char NUL (write_params (get_query_params uri)) = concat (map (\<lambda>(k, v). [k, v]) (get_query_params uri)) @ [[]]"
    by (rule split_params) (use assms(2) query_params_chars [of _ _ uri] in blast)
  moreover have "(of_nat (length (get_query_params uri)) :: u32) \<noteq> 0"
    using assms(3) unat_of_nat_u32 [OF assms(4)] by (auto dest: arg_cong [where f = unat])
  ultimately show ?thesis
    using assms(1) by (simp add: ffi_get_query_params_def parsed_text_def c_bytes_of c_text_ok_def Let_def)
qed

lemma query_params_nul:
  "ffi_get_query_params (c_text_of (''a?k=v'' @ [NUL] @ ''w'')) = (0, Some (Some (''k'' @ [NUL] @ ''v'' @ [NUL] @ ''w'' @ [NUL]), 6, 1))"
  by code_simp

section \<open>The region is handed over or closed\<close>

lemma ffi_create_ashmem_owned:
  assumes "ffi_create_ashmem api name data data_len = (code, fd, sz, closed)"
  shows "code = 0 \<and> 0 \<le>s fd \<and> closed = [] \<or> code = - 1 \<and> fd = - 1 \<and> sz = 0
    \<and> length closed = (if c_str_to_rust name \<noteq> None \<and> snd name \<noteq> 0 \<and> (data \<noteq> None \<or> data_len = 0) \<and> ash_create api data_len \<noteq> None then 1 else 0)"
  using assms
  by (auto simp: ffi_create_ashmem_def Let_def c_str_to_rust_def c_bytes_def word_sless_alt word_sle_eq
      split: if_splits option.splits prod.splits bool.splits)

end
