(* ===== verification/C_Result_Set.thy ===== *)
theory C_Result_Set
  imports C_Types Block_Parcel Cursor Observer_Stub
begin

text \<open>
  The C adapter of result sets, \<open>c_adapter/mod.rs\<close> of the crate: shared blocks, writers and result sets behind handles. A handle is an
  option, \<open>None\<close> for null; a pointer into the mapping is an offset; the outer \<open>None\<close> is undefined behaviour. Functions that free
  only drop what is behind the handle. Pointers for results are taken not to be null.
\<close>

section \<open>Shared blocks\<close>

text \<open>A block with the descriptor of its memory and whether the pages are mapped for reading only.\<close>

record c_block =
  cb_block :: shared_block
  cb_fd :: i32
  cb_protected :: bool

definition ffi_block_create :: "bytes option \<Rightarrow> bool \<Rightarrow> bool \<Rightarrow> i32 \<Rightarrow> c_text \<Rightarrow> u32 \<Rightarrow> (i32 \<times> c_block option) option" where
  "ffi_block_create region map_ok read_ok fd name sz =
     (case c_str_to_rust name of
        None \<Rightarrow> Some (SHARED_BLOCK_BAD_VALUE, None)
      | Some s \<Rightarrow> do {
          created \<leftarrow> create region map_ok read_ok s (unat sz);
          Some (case created of
              Inl code \<Rightarrow> (code, None)
            | Inr b \<Rightarrow> (SHARED_BLOCK_OK, Some \<lparr>cb_block = b, cb_fd = fd, cb_protected = False\<rparr>))
        })"

definition ffi_block_new_from_fd ::
  "bytes option \<Rightarrow> bool \<Rightarrow> bool \<Rightarrow> c_text \<Rightarrow> i32 \<Rightarrow> i32 \<Rightarrow> bool \<Rightarrow> i32 \<times> c_block option" where
  "ffi_block_new_from_fd region map_ok read_ok name fd fd_size read_only =
     (case c_str_to_rust name of
        None \<Rightarrow> (SHARED_BLOCK_BAD_VALUE, None)
      | Some s \<Rightarrow>
          (case create_from_fd region map_ok read_ok s (unat (scast fd_size :: u64)) read_only of
             Inl code \<Rightarrow> (code, None)
           | Inr b \<Rightarrow> (SHARED_BLOCK_OK, Some \<lparr>cb_block = b, cb_fd = fd, cb_protected = read_only\<rparr>)))"

text \<open>Calls on the block behind a handle. The mutators of the block check its flag for read-only blocks before they write.\<close>

definition at_block :: "'x \<Rightarrow> (shared_block \<Rightarrow> ('x \<times> shared_block) option) \<Rightarrow> c_block option \<Rightarrow> ('x \<times> c_block option) option" where
  "at_block null f h =
     (case h of
        None \<Rightarrow> Some (null, None)
      | Some cb \<Rightarrow> do { (x, b) \<leftarrow> f (cb_block cb); Some (x, Some (cb\<lparr>cb_block := b\<rparr>)) })"

definition of_block :: "'x \<Rightarrow> (shared_block \<Rightarrow> 'x option) \<Rightarrow> c_block option \<Rightarrow> 'x option" where
  "of_block null f h = (case h of None \<Rightarrow> Some null | Some cb \<Rightarrow> f (cb_block cb))"

type_synonym block_fn = "c_block option \<Rightarrow> (i32 \<times> c_block option) option"

definition ffi_block_init :: "bool \<Rightarrow> c_block option \<Rightarrow> (bool \<times> c_block option) option" where
  "ffi_block_init read_ok = at_block False (\<lambda>b. Some (init read_ok b))"

definition ffi_block_clear :: block_fn where "ffi_block_clear = at_block SHARED_BLOCK_BAD_VALUE clear"

definition ffi_block_set_column_num :: "u32 \<Rightarrow> block_fn" where
  "ffi_block_set_column_num cols = at_block SHARED_BLOCK_BAD_VALUE (set_column_num cols)"

definition ffi_block_alloc_row :: block_fn where "ffi_block_alloc_row = at_block SHARED_BLOCK_BAD_VALUE alloc_row"

definition ffi_block_free_last_row :: block_fn where "ffi_block_free_last_row = at_block SHARED_BLOCK_BAD_VALUE free_last_row"

text \<open>\<open>slice::from_raw_parts\<close>, of a null pointer undefined whatever the length.\<close>

definition raw_slice :: "bytes option \<Rightarrow> u32 \<Rightarrow> bytes option" where
  "raw_slice p n = map_option (take (unat n)) p"

definition ffi_block_put_blob :: "u32 \<Rightarrow> u32 \<Rightarrow> bytes option \<Rightarrow> u32 \<Rightarrow> block_fn" where
  "ffi_block_put_blob row col v n h =
     (if h = None \<or> v = None \<and> n \<noteq> 0 then Some (SHARED_BLOCK_BAD_VALUE, h)
      else do { slice \<leftarrow> raw_slice v n; at_block SHARED_BLOCK_BAD_VALUE (block_put_blob row col slice) h })"

definition ffi_block_put_string :: "u32 \<Rightarrow> u32 \<Rightarrow> bytes option \<Rightarrow> u32 \<Rightarrow> block_fn" where
  "ffi_block_put_string row col v n h =
     (if h = None \<or> v = None \<and> n \<noteq> 0 then Some (SHARED_BLOCK_BAD_VALUE, h)
      else at_block SHARED_BLOCK_BAD_VALUE (block_put_string row col v (unat n)) h)"

definition ffi_block_put_long :: "u32 \<Rightarrow> u32 \<Rightarrow> i64 \<Rightarrow> block_fn" where
  "ffi_block_put_long row col v = at_block SHARED_BLOCK_BAD_VALUE (Shared_Block.put_long row col v)"

definition ffi_block_put_double :: "u32 \<Rightarrow> u32 \<Rightarrow> f64 \<Rightarrow> block_fn" where
  "ffi_block_put_double row col v = at_block SHARED_BLOCK_BAD_VALUE (Shared_Block.put_double row col v)"

definition ffi_block_put_null :: "u32 \<Rightarrow> u32 \<Rightarrow> block_fn" where
  "ffi_block_put_null row col = at_block SHARED_BLOCK_BAD_VALUE (Shared_Block.put_null row col)"

definition ffi_block_get_cell_unit :: "u32 \<Rightarrow> u32 \<Rightarrow> c_block option \<Rightarrow> nat option option" where
  "ffi_block_get_cell_unit row col = of_block None (\<lambda>b. get_cell_unit b row col)"

text \<open>Offset and size of the data of the cell at \<open>p\<close>: where the data is, if that is inside, and the size as it stands there.\<close>

definition get_cell_unit_value_string :: "nat \<Rightarrow> shared_block \<Rightarrow> (nat option \<times> u32) option" where
  "get_cell_unit_value_string p b = do {
     offset \<leftarrow> load32 (p + 4) (sb_mem b);
     sz \<leftarrow> load32 (p + 8) (sb_mem b);
     Some (offset_to_ptr b offset sz, sz)
   }"

definition ffi_block_value_string :: "nat option \<Rightarrow> c_block option \<Rightarrow> (nat option \<times> u32 option) option" where
  "ffi_block_value_string cell h =
     (case (h, cell) of
        (Some cb, Some p) \<Rightarrow> map_option (\<lambda>(q, n). (q, Some n)) (get_cell_unit_value_string p (cb_block cb))
      | _ \<Rightarrow> Some (None, None))"

definition ffi_block_value_blob :: "nat option \<Rightarrow> c_block option \<Rightarrow> (nat option \<times> u32 option) option" where
  "ffi_block_value_blob cell h =
     (case (h, cell) of
        (Some cb, Some p) \<Rightarrow> map_option (\<lambda>(q, n). (q, Some n)) (get_cell_unit_value_string p (cb_block cb))
      | _ \<Rightarrow> Some (None, None))"

definition ffi_block_name :: "c_block option \<Rightarrow> i32 \<times> (string \<times> u32) option" where
  "ffi_block_name h =
     (case h of
        None \<Rightarrow> (SHARED_BLOCK_BAD_VALUE, None)
      | Some cb \<Rightarrow> (SHARED_BLOCK_OK, Some (sb_name (cb_block cb), of_nat (length (sb_name (cb_block cb))))))"

definition ffi_block_size :: "c_block option \<Rightarrow> nat" where
  "ffi_block_size h = (case h of None \<Rightarrow> 0 | Some cb \<Rightarrow> sb_size (cb_block cb))"

definition ffi_block_row_num :: "c_block option \<Rightarrow> u32 option" where "ffi_block_row_num = of_block 0 row_num"
definition ffi_block_column_num :: "c_block option \<Rightarrow> u32 option" where "ffi_block_column_num = of_block 0 column_num"
definition ffi_block_used_bytes :: "c_block option \<Rightarrow> u32 option" where "ffi_block_used_bytes = of_block 0 used_bytes"

definition ffi_block_fd :: "c_block option \<Rightarrow> i32" where
  "ffi_block_fd h = (case h of None \<Rightarrow> - 1 | Some cb \<Rightarrow> cb_fd cb)"

definition ffi_block_header :: "c_block option \<Rightarrow> nat option" where
  "ffi_block_header h = (case h of None \<Rightarrow> None | Some cb \<Rightarrow> if sb_mapped (cb_block cb) then Some 0 else None)"

text \<open>These four write without looking at the flag, so pages mapped for reading only fault.\<close>

definition ffi_block_set_raw_data :: "bytes option \<Rightarrow> u32 \<Rightarrow> block_fn" where
  "ffi_block_set_raw_data data n h =
     (case h of
        None \<Rightarrow> Some (SHARED_BLOCK_BAD_VALUE, None)
      | Some cb \<Rightarrow> do {
          (code, b) \<leftarrow> set_raw_data data (unat n) (cb_block cb);
          if code = SHARED_BLOCK_OK \<and> cb_protected cb then None else Some (code, Some (cb\<lparr>cb_block := b\<rparr>))
        })"

definition unprotected :: "(shared_block \<Rightarrow> shared_block option) \<Rightarrow> c_block option \<Rightarrow> c_block option option" where
  "unprotected f h =
     (case h of
        None \<Rightarrow> Some None
      | Some cb \<Rightarrow> if cb_protected cb then None else do { b \<leftarrow> f (cb_block cb); Some (Some (cb\<lparr>cb_block := b\<rparr>)) })"

definition ffi_block_set_start_pos :: "u32 \<Rightarrow> c_block option \<Rightarrow> c_block option option" where
  "ffi_block_set_start_pos v = unprotected (set_start_pos v)"

definition ffi_block_set_last_pos :: "u32 \<Rightarrow> c_block option \<Rightarrow> c_block option option" where
  "ffi_block_set_last_pos v = unprotected (set_last_pos v)"

definition ffi_block_set_block_pos :: "u32 \<Rightarrow> c_block option \<Rightarrow> c_block option option" where
  "ffi_block_set_block_pos v = unprotected (set_block_pos v)"

definition ffi_block_start_pos :: "c_block option \<Rightarrow> u32 option" where "ffi_block_start_pos = of_block 0 start_pos"
definition ffi_block_last_pos :: "c_block option \<Rightarrow> u32 option" where "ffi_block_last_pos = of_block 0 last_pos"
definition ffi_block_block_pos :: "c_block option \<Rightarrow> u32 option" where "ffi_block_block_pos = of_block 0 block_pos"

definition ffi_block_write_parcel :: "('a, 'r) parcel_api \<Rightarrow> 'a \<Rightarrow> c_block option \<Rightarrow> bytes option \<Rightarrow> i32 \<times> bytes option" where
  "ffi_block_write_parcel P ashmem h message =
     (case (h, message) of
        (Some cb, Some buf) \<Rightarrow> (let (code, buf) = write_message_parcel P ashmem (cb_block cb) buf in (code, Some buf))
      | _ \<Rightarrow> (SHARED_BLOCK_BAD_VALUE, message))"

definition ffi_block_read_parcel :: "('a, 'r) parcel_api \<Rightarrow> 'a block_memory \<Rightarrow> i32 \<Rightarrow> bytes option \<Rightarrow> i32 \<times> c_block option" where
  "ffi_block_read_parcel P M fd message =
     (case message of
        None \<Rightarrow> (SHARED_BLOCK_BAD_VALUE, None)
      | Some buf \<Rightarrow>
          (case read_message_parcel P M buf of
             Inl code \<Rightarrow> (code, None)
           | Inr b \<Rightarrow> (SHARED_BLOCK_OK, Some \<lparr>cb_block = b, cb_fd = fd, cb_protected = False\<rparr>)))"


section \<open>Writers\<close>

definition ffi_writer_new :: block_writer where "ffi_writer_new = writer_new"

text \<open>The region, the mapping and the reading are those of \<open>SharedBlock::create\<close>; there is no writer only when the name is refused.\<close>

definition ffi_writer_new_with_block :: "bytes option \<Rightarrow> bool \<Rightarrow> bool \<Rightarrow> c_text \<Rightarrow> u32 \<Rightarrow> block_writer option option" where
  "ffi_writer_new_with_block region map_ok read_ok name sz =
     with_text (Some None) name (\<lambda>s. do {
       created \<leftarrow> create region map_ok read_ok s (unat sz);
       Some (Some (new_with_block created))
     })"

definition at_writer :: "(block_writer \<Rightarrow> (i32 \<times> block_writer) option) \<Rightarrow> block_writer option \<Rightarrow> (i32 \<times> block_writer option) option" where
  "at_writer f h =
     (case h of None \<Rightarrow> Some (- 1, None) | Some w \<Rightarrow> do { (code, w) \<leftarrow> f w; Some (code, Some w) })"

type_synonym writer_fn = "block_writer option \<Rightarrow> (i32 \<times> block_writer option) option"

definition ffi_writer_alloc_row :: writer_fn where "ffi_writer_alloc_row = at_writer writer_alloc_row"
definition ffi_writer_free_last_row :: writer_fn where "ffi_writer_free_last_row = at_writer writer_free_last_row"

definition ffi_writer_write_null :: "u32 \<Rightarrow> writer_fn" where "ffi_writer_write_null col = at_writer (writer_write_null col)"

definition ffi_writer_write_long :: "u32 \<Rightarrow> i64 \<Rightarrow> writer_fn" where
  "ffi_writer_write_long col v = at_writer (writer_write_long col v)"

definition ffi_writer_write_double :: "u32 \<Rightarrow> f64 \<Rightarrow> writer_fn" where
  "ffi_writer_write_double col v = at_writer (writer_write_double col v)"

definition ffi_writer_write_blob :: "u32 \<Rightarrow> bytes option \<Rightarrow> u32 \<Rightarrow> writer_fn" where
  "ffi_writer_write_blob col v n h =
     (if h = None \<or> v = None \<and> n \<noteq> 0 then Some (- 1, h)
      else do { slice \<leftarrow> raw_slice v n; at_writer (writer_write_blob col slice) h })"

definition ffi_writer_write_string :: "u32 \<Rightarrow> bytes option \<Rightarrow> u32 \<Rightarrow> writer_fn" where
  "ffi_writer_write_string col v n h =
     (if h = None \<or> v = None then Some (- 1, h) else at_writer (writer_write_string col v (unat n)) h)"

text \<open>The block stays in the writer; the pointer that is returned is the one inside.\<close>

definition ffi_writer_get_block :: "block_writer option \<Rightarrow> shared_block option" where
  "ffi_writer_get_block h = (case h of None \<Rightarrow> None | Some w \<Rightarrow> bw_block w)"

definition ffi_writer_current_row_index :: "block_writer option \<Rightarrow> (bool \<times> u32 option) option" where
  "ffi_writer_current_row_index h =
     (case h of
        None \<Rightarrow> Some (False, None)
      | Some w \<Rightarrow> do { row \<leftarrow> current_row_index w; Some (row \<noteq> None, row) })"

section \<open>Result sets\<close>

definition ffi_rs_new :: "'s result_set" where "ffi_rs_new = result_set_new"

text \<open>The block is taken over, and its handle is no longer the caller's.\<close>

definition ffi_rs_set_block :: "'s result_set option \<Rightarrow> c_block option \<Rightarrow> (i32 \<times> 's result_set option \<times> c_block option) option" where
  "ffi_rs_set_block rs block =
     (case (rs, block) of
        (Some s, Some cb) \<Rightarrow> do { s \<leftarrow> set_block (cb_block cb) s; Some (0, Some s, None) }
      | _ \<Rightarrow> Some (- 1, rs, block))"

text \<open>The names end at a NUL, so that each is a list of bytes; null pointers among them are left out.\<close>

definition ffi_rs_set_column_names ::
  "(string \<Rightarrow> string) \<Rightarrow> bytes option list option \<Rightarrow> u32 \<Rightarrow> 's result_set option \<Rightarrow> i32 \<times> 's result_set option" where
  "ffi_rs_set_column_names lower names n rs =
     (case (rs, names) of
        (Some s, Some ns) \<Rightarrow>
          (0, Some (set_column_names lower (List.map_filter (map_option from_utf8_lossy) (take (unat n) ns)) s))
      | _ \<Rightarrow> (- 1, rs))"

definition code_of_bool :: "bool ds_result \<Rightarrow> i32" where
  "code_of_bool r = (case r of Inl e \<Rightarrow> error_code e | Inr True \<Rightarrow> 1 | Inr False \<Rightarrow> 0)"

definition code_and_value :: "'x ds_result \<Rightarrow> i32 \<times> 'x option" where
  "code_and_value r = (case r of Inl e \<Rightarrow> (error_code e, None) | Inr v \<Rightarrow> (0, Some v))"

definition of_set :: "('s result_set \<Rightarrow> 'x ds_result option) \<Rightarrow> 's result_set option \<Rightarrow> (i32 \<times> 'x option) option" where
  "of_set f rs = (case rs of None \<Rightarrow> Some (- 1, None) | Some s \<Rightarrow> map_option code_and_value (f s))"

definition ffi_rs_go_to_row :: "(i32 + shared_block) \<Rightarrow> i32 \<Rightarrow> 's result_set option \<Rightarrow> (i32 \<times> 's result_set option) option" where
  "ffi_rs_go_to_row created position rs =
     (case rs of
        None \<Rightarrow> Some (- 1, None)
      | Some s \<Rightarrow> do { (r, s) \<leftarrow> go_to_row created position s; Some (code_of_bool r, Some s) })"

definition ffi_rs_get_long :: "i32 \<Rightarrow> 's result_set option \<Rightarrow> (i32 \<times> i64 option) option" where
  "ffi_rs_get_long column = of_set (\<lambda>s. rs_get_long s column)"

definition ffi_rs_get_double :: "(string \<Rightarrow> f64 option) \<Rightarrow> i32 \<Rightarrow> 's result_set option \<Rightarrow> (i32 \<times> f64 option) option" where
  "ffi_rs_get_double parse_f64 column = of_set (\<lambda>s. rs_get_double parse_f64 s column)"

definition ffi_rs_get_string :: "(f64 \<Rightarrow> string) \<Rightarrow> i32 \<Rightarrow> 's result_set option \<Rightarrow> (i32 \<times> (string \<times> nat) option) option" where
  "ffi_rs_get_string show_f64 column rs =
     map_option (map_prod id (map_option (\<lambda>s. (s, length s)))) (of_set (\<lambda>s. rs_get_string show_f64 s column) rs)"

definition ffi_rs_is_column_null :: "i32 \<Rightarrow> 's result_set option \<Rightarrow> i32 option" where
  "ffi_rs_is_column_null column rs =
     (case rs of None \<Rightarrow> Some (- 1) | Some s \<Rightarrow> map_option code_of_bool (is_column_null s column))"

definition ffi_rs_close :: "'s result_set option \<Rightarrow> i32 \<times> 's result_set option" where
  "ffi_rs_close rs =
     (case rs of None \<Rightarrow> (- 1, None) | Some s \<Rightarrow> (let (r, s) = rs_close s in (fst (code_and_value r), Some s)))"

definition ffi_rs_get_row_count :: "'s result_set option \<Rightarrow> (i32 \<times> i32 option) option" where
  "ffi_rs_get_row_count = of_set (\<lambda>s. Some (rs_get_row_count s))"

definition ffi_rs_get_column_count :: "'s result_set option \<Rightarrow> (i32 \<times> i32 option) option" where
  "ffi_rs_get_column_count = of_set get_column_count"

end
