(* ===== verification/C_Session.thy ===== *)
theory C_Session
  imports C_Result_Set
begin

text \<open>
  A client in C of the result set adapter: one handle of a block, one of a writer and one of a result set, and any sequence of calls. The locale
  \<open>guarded_machine\<close> states what is shown of each of the three, that the calls the documentation allows return and keep an invariant. Not
  among the calls are those that fill a block with bytes of another origin (\<open>SetRawData\<close>, a block from a descriptor or a parcel).
\<close>

section \<open>Calls\<close>

datatype (plugins only: size) block_call =
    KClear
  | KColumns u32
  | KAllocRow
  | KFreeRow
  | KPutBlob u32 u32 "bytes option" u32
  | KPutString u32 u32 "bytes option" u32
  | KPutLong u32 u32 i64
  | KPutDouble u32 u32 f64
  | KPutNull u32 u32
  | KText u32 u32
  | KCounts
  | KSetPositions u32 u32 u32
  | KPositions

text \<open>\<open>KText\<close> gets a cell and then the data it points to, both ways.\<close>

primrec block_exec :: "block_call \<Rightarrow> c_block option \<Rightarrow> c_block option option" where
  "block_exec KClear h = map_option snd (ffi_block_clear h)"
| "block_exec (KColumns n) h = map_option snd (ffi_block_set_column_num n h)"
| "block_exec KAllocRow h = map_option snd (ffi_block_alloc_row h)"
| "block_exec KFreeRow h = map_option snd (ffi_block_free_last_row h)"
| "block_exec (KPutBlob r c v n) h = map_option snd (ffi_block_put_blob r c v n h)"
| "block_exec (KPutString r c v n) h = map_option snd (ffi_block_put_string r c v n h)"
| "block_exec (KPutLong r c v) h = map_option snd (ffi_block_put_long r c v h)"
| "block_exec (KPutDouble r c v) h = map_option snd (ffi_block_put_double r c v h)"
| "block_exec (KPutNull r c) h = map_option snd (ffi_block_put_null r c h)"
| "block_exec (KText r c) h = do {
     cell \<leftarrow> ffi_block_get_cell_unit r c h; _ \<leftarrow> ffi_block_value_string cell h; _ \<leftarrow> ffi_block_value_blob cell h; Some h }"
| "block_exec KCounts h = do {
     _ \<leftarrow> ffi_block_row_num h; _ \<leftarrow> ffi_block_column_num h; _ \<leftarrow> ffi_block_used_bytes h; Some h }"
| "block_exec (KSetPositions s l k) h = do {
     h \<leftarrow> ffi_block_set_start_pos s h; h \<leftarrow> ffi_block_set_last_pos l h; ffi_block_set_block_pos k h }"
| "block_exec KPositions h = do {
     _ \<leftarrow> ffi_block_start_pos h; _ \<leftarrow> ffi_block_last_pos h; _ \<leftarrow> ffi_block_block_pos h; Some h }"

datatype (plugins only: size) row_call =
    WkAllocRow
  | WkFreeRow
  | WkNull u32
  | WkLong u32 i64
  | WkDouble u32 f64
  | WkBlob u32 "bytes option" u32
  | WkString u32 "bytes option" u32
  | WkRow

primrec writer_exec :: "row_call \<Rightarrow> block_writer option \<Rightarrow> block_writer option option" where
  "writer_exec WkAllocRow h = map_option snd (ffi_writer_alloc_row h)"
| "writer_exec WkFreeRow h = map_option snd (ffi_writer_free_last_row h)"
| "writer_exec (WkNull c) h = map_option snd (ffi_writer_write_null c h)"
| "writer_exec (WkLong c v) h = map_option snd (ffi_writer_write_long c v h)"
| "writer_exec (WkDouble c v) h = map_option snd (ffi_writer_write_double c v h)"
| "writer_exec (WkBlob c v n) h = map_option snd (ffi_writer_write_blob c v n h)"
| "writer_exec (WkString c v n) h = map_option snd (ffi_writer_write_string c v n h)"
| "writer_exec WkRow h = do { _ \<leftarrow> ffi_writer_current_row_index h; Some h }"

datatype (plugins only: size) set_call =
    SkNames "bytes option list option" u32
  | SkGo i32
  | SkLong i32
  | SkDouble i32
  | SkString i32
  | SkIsNull i32
  | SkCounts
  | SkClose

text \<open>A result set made from C has no bridge, so that no block is created on the way; \<open>Inl 0\<close> stands for it.\<close>

primrec set_exec ::
  "(string \<Rightarrow> string) \<Rightarrow> (string \<Rightarrow> f64 option) \<Rightarrow> (f64 \<Rightarrow> string) \<Rightarrow> set_call \<Rightarrow> 's result_set option \<Rightarrow> 's result_set option option" where
  "set_exec lower parse print (SkNames ns n) h = Some (snd (ffi_rs_set_column_names lower ns n h))"
| "set_exec lower parse print (SkGo p) h = map_option snd (ffi_rs_go_to_row (Inl 0) p h)"
| "set_exec lower parse print (SkLong c) h = map_option (\<lambda>_. h) (ffi_rs_get_long c h)"
| "set_exec lower parse print (SkDouble c) h = map_option (\<lambda>_. h) (ffi_rs_get_double parse c h)"
| "set_exec lower parse print (SkString c) h = map_option (\<lambda>_. h) (ffi_rs_get_string print c h)"
| "set_exec lower parse print (SkIsNull c) h = map_option (\<lambda>_. h) (ffi_rs_is_column_null c h)"
| "set_exec lower parse print SkCounts h = do { _ \<leftarrow> ffi_rs_get_row_count h; _ \<leftarrow> ffi_rs_get_column_count h; Some h }"
| "set_exec lower parse print SkClose h = Some (snd (ffi_rs_close h))"

record 's c_session =
  cs_block :: "c_block option"
  cs_writer :: "block_writer option"
  cs_set :: "'s result_set option"

text \<open>
  \<open>CWriterBlock\<close> is a call on the block of the writer, which \<open>GetBlock\<close> points to: the client may use it but not free it or
  give it away. \<open>CGiveBlock\<close> gives the block to the result set.
\<close>

datatype (plugins only: size) session_call =
    CNewBlock "bytes option" bool bool i32 c_text u32
  | CFreeBlock
  | CBlock block_call
  | CNewWriter "bytes option" bool bool c_text u32
  | CFreeWriter
  | CWriter row_call
  | CWriterBlock block_call
  | CNewSet
  | CFreeSet
  | CGiveBlock
  | CSet set_call

definition writer_block_exec :: "block_call \<Rightarrow> block_writer option \<Rightarrow> block_writer option option" where
  "writer_block_exec k h =
     (case ffi_writer_get_block h of
        None \<Rightarrow> map_option (\<lambda>_. h) (block_exec k None)
      | Some b \<Rightarrow> do {
          h' \<leftarrow> block_exec k (Some \<lparr>cb_block = b, cb_fd = 0, cb_protected = False\<rparr>);
          Some (map_option (\<lambda>w. w\<lparr>bw_block := map_option cb_block h'\<rparr>) h)
        })"

primrec session_exec ::
  "(string \<Rightarrow> string) \<Rightarrow> (string \<Rightarrow> f64 option) \<Rightarrow> (f64 \<Rightarrow> string) \<Rightarrow> session_call \<Rightarrow> 's c_session \<Rightarrow> 's c_session option" where
  "session_exec lower parse print (CNewBlock m mo ro fd name n) s =
     map_option (\<lambda>r. s\<lparr>cs_block := snd r\<rparr>) (ffi_block_create m mo ro fd name n)"
| "session_exec lower parse print CFreeBlock s = Some (s\<lparr>cs_block := None\<rparr>)"
| "session_exec lower parse print (CBlock k) s = map_option (\<lambda>h. s\<lparr>cs_block := h\<rparr>) (block_exec k (cs_block s))"
| "session_exec lower parse print (CNewWriter m mo ro name n) s =
     map_option (\<lambda>h. s\<lparr>cs_writer := h\<rparr>) (ffi_writer_new_with_block m mo ro name n)"
| "session_exec lower parse print CFreeWriter s = Some (s\<lparr>cs_writer := None\<rparr>)"
| "session_exec lower parse print (CWriter k) s = map_option (\<lambda>h. s\<lparr>cs_writer := h\<rparr>) (writer_exec k (cs_writer s))"
| "session_exec lower parse print (CWriterBlock k) s = map_option (\<lambda>h. s\<lparr>cs_writer := h\<rparr>) (writer_block_exec k (cs_writer s))"
| "session_exec lower parse print CNewSet s = Some (s\<lparr>cs_set := Some ffi_rs_new\<rparr>)"
| "session_exec lower parse print CFreeSet s = Some (s\<lparr>cs_set := None\<rparr>)"
| "session_exec lower parse print CGiveBlock s =
     map_option (\<lambda>(_, rs, h). s\<lparr>cs_set := rs, cs_block := h\<rparr>) (ffi_rs_set_block (cs_set s) (cs_block s))"
| "session_exec lower parse print (CSet k) s = map_option (\<lambda>h. s\<lparr>cs_set := h\<rparr>) (set_exec lower parse print k (cs_set s))"

section \<open>The contract\<close>

primrec guarded_run :: "('c \<Rightarrow> 's \<Rightarrow> 's option) \<Rightarrow> 'c list \<Rightarrow> 's \<Rightarrow> 's option" where
  "guarded_run step [] s = Some s"
| "guarded_run step (c # cs) s = (case step c s of None \<Rightarrow> None | Some s \<Rightarrow> guarded_run step cs s)"

locale guarded_machine =
  fixes step :: "'c \<Rightarrow> 's \<Rightarrow> 's option" and allowed :: "'c \<Rightarrow> bool" and ok :: "'s \<Rightarrow> bool"
  assumes step_ok: "ok s \<Longrightarrow> allowed c \<Longrightarrow> \<exists>s'. step c s = Some s' \<and> ok s'"
begin

lemma run_ok: "ok s \<Longrightarrow> list_all allowed cs \<Longrightarrow> \<exists>s'. guarded_run step cs s = Some s' \<and> ok s'"
proof (induction cs arbitrary: s)
  case (Cons c cs)
  then obtain s' where "step c s = Some s'" "ok s'" using step_ok by fastforce
  then show ?case using Cons by simp
qed simp

end


section \<open>Blocks\<close>

definition c_block_ok :: "c_block option \<Rightarrow> bool" where
  "c_block_ok h \<longleftrightarrow> (case h of None \<Rightarrow> True | Some cb \<Rightarrow> valid_block (cb_block cb) \<and> \<not> cb_protected cb)"

text \<open>What is asked of a client: data as long as it says, and no empty blob behind a null pointer.\<close>

definition data_ok :: "bytes option \<Rightarrow> u32 \<Rightarrow> bool" where
  "data_ok v n \<longleftrightarrow> (case v of None \<Rightarrow> True | Some d \<Rightarrow> unat n \<le> length d)"

definition blob_ok :: "bytes option \<Rightarrow> u32 \<Rightarrow> bool" where
  "blob_ok v n \<longleftrightarrow> data_ok v n \<and> (v = None \<longrightarrow> n \<noteq> 0)"

definition block_allowed :: "block_call \<Rightarrow> bool" where
  "block_allowed k \<longleftrightarrow> (case k of KPutBlob r c v n \<Rightarrow> blob_ok v n | KPutString r c v n \<Rightarrow> data_ok v n | _ \<Rightarrow> True)"

lemma at_block_ok:
  assumes "c_block_ok h" "\<And>b. valid_block b \<Longrightarrow> \<exists>x b'. f b = Some (x, b') \<and> valid_block b'"
  shows "\<exists>h'. map_option snd (at_block null f h) = Some h' \<and> c_block_ok h'"
proof (cases h)
  case (Some cb)
  then have "valid_block (cb_block cb)" using assms(1) by (simp add: c_block_ok_def)
  then obtain x b' where "f (cb_block cb) = Some (x, b')" "valid_block b'" using assms(2) by blast
  then show ?thesis using Some assms(1) by (simp add: at_block_def c_block_ok_def)
qed (use assms(1) in \<open>simp add: at_block_def\<close>)

lemma exec_op_ok: "c_block_ok h \<Longrightarrow> \<exists>h'. map_option snd (at_block null (exec_op x) h) = Some h' \<and> c_block_ok h'"
  by (rule at_block_ok) (use exec_op_valid in \<open>blast+\<close>)

lemma put_string_take: "block_put_string r c (Some d) n b = (if n \<le> length d then exec_op (OpPutString r c (take n d)) b else block_put_string r c (Some d) n b)"
  by (simp add: block_put_string_def put_blob_or_string_def min_def cong: option.case_cong if_cong)

lemma put_string_null: "block_put_string r c None 0 b = exec_op (OpPutString r c []) b"
  by (simp add: block_put_string_def put_blob_or_string_def cong: option.case_cong if_cong)

lemma put_string_ok:
  assumes "data_ok v n" "v = None \<longrightarrow> n = 0" "valid_block b"
  shows "\<exists>code b'. block_put_string r c v (unat n) b = Some (code, b') \<and> valid_block b'"
proof (cases v)
  case None
  then show ?thesis using assms(2) exec_op_valid [OF assms(3)] by (simp add: put_string_null del: exec_op.simps)
next
  case (Some d)
  then have "unat n \<le> length d" using assms(1) by (simp add: data_ok_def)
  then show ?thesis using Some exec_op_valid [OF assms(3)] put_string_take [of r c d "unat n" b] by (simp del: exec_op.simps)
qed

text \<open>The three positions of the header are no part of the invariant.\<close>

lemma set_position_ok:
  assumes "valid_block b" "off \<in> {16, 20, 24}"
  shows "\<exists>b'. poke32 off v b = Some b' \<and> valid_block b'"
proof -
  obtain gs ds cols u where b: "block_ok b gs ds cols u" using assms(1) by (auto simp: valid_block_def)
  have "off + length (le_bytes 4 v) \<le> length (sb_mem b)" using assms valid_basic [OF assms(1)] by auto
  then obtain m' where m': "store off (le_bytes 4 v) (sb_mem b) = Some m'" using store_ex by blast
  have other: "load32 a m' = load32 a (sb_mem b)" if "a + 4 \<le> 16" for a
    by (rule load32_store_other [OF m']) (use that assms(2) in \<open>auto simp: rdisj_def\<close>)
  have "block_ok (b\<lparr>sb_mem := m'\<rparr>) gs ds cols u"
    by (rule block_ok_header_store [OF b m']) (use b assms(2) other in \<open>auto simp: block_ok_def hdr_def\<close>)
  then show ?thesis using m' by (auto simp: poke32_def poke_def valid_block_def)
qed

text \<open>A cell that is found lies inside, and so does the data it points to.\<close>

definition inside :: "shared_block \<Rightarrow> nat \<Rightarrow> nat \<Rightarrow> bool" where
  "inside b p n \<longleftrightarrow> p + n \<le> length (sb_mem b)"

lemma cell_unit_inside:
  assumes "valid_block b"
  shows "\<exists>cell. get_cell_unit b r c = Some cell \<and> (\<forall>p. cell = Some p \<longrightarrow> inside b p CELL_SIZE)"
proof -
  obtain gs ds cols u where b: "block_ok b gs ds cols u" using assms by (auto simp: valid_block_def)
  show ?thesis
    using block_dir_bounds [OF b, of "unat r" "unat c"] block_basic [OF b]
    by (auto simp: get_cell_unit_block [OF b] inside_def CELL_SIZE_def)
qed

lemma offset_inside: "valid_block b \<Longrightarrow> offset_to_ptr b off n = Some p \<Longrightarrow> inside b p (unat n)"
  using valid_basic [of b] by (auto simp: offset_to_ptr_def inside_def split: if_splits)

lemma load_inside: "inside b p n \<Longrightarrow> \<exists>bs. load p n (sb_mem b) = Some bs"
  by (simp add: inside_def load_def)

lemma value_string_inside:
  assumes "valid_block b" "inside b p CELL_SIZE"
  shows "\<exists>q n. get_cell_unit_value_string p b = Some (q, n) \<and> (\<forall>q'. q = Some q' \<longrightarrow> inside b q' (unat n))"
  using assms offset_inside [OF assms(1)]
  by (auto simp: get_cell_unit_value_string_def load32_def load_def inside_def CELL_SIZE_def)

lemma text_call_ok:
  assumes "c_block_ok h"
  shows "block_exec (KText r c) h = Some h"
proof (cases h)
  case (Some cb)
  then have v: "valid_block (cb_block cb)" using assms by (simp add: c_block_ok_def)
  obtain cell where cell: "get_cell_unit (cb_block cb) r c = Some cell" "\<forall>p. cell = Some p \<longrightarrow> inside (cb_block cb) p CELL_SIZE"
    using cell_unit_inside [OF v] by blast
  show ?thesis
  proof (cases cell)
    case (Some p)
    then obtain q n where "get_cell_unit_value_string p (cb_block cb) = Some (q, n)"
      using value_string_inside [OF v] cell(2) by blast
    then show ?thesis using \<open>h = Some cb\<close> Some cell(1)
      by (simp add: ffi_block_get_cell_unit_def of_block_def ffi_block_value_string_def ffi_block_value_blob_def)
  qed (use \<open>h = Some cb\<close> cell(1) in
      \<open>simp add: ffi_block_get_cell_unit_def of_block_def ffi_block_value_string_def ffi_block_value_blob_def\<close>)
qed (simp add: ffi_block_get_cell_unit_def of_block_def ffi_block_value_string_def ffi_block_value_blob_def)

lemma header_words: "valid_block b \<Longrightarrow> off + 4 \<le> 28 \<Longrightarrow> \<exists>w. hdr off b = Some w"
  using valid_basic [of b] by (auto simp: hdr_def load32_def load_def)


lemma unprotected_ok:
  assumes "c_block_ok h" "\<And>b. valid_block b \<Longrightarrow> \<exists>b'. f b = Some b' \<and> valid_block b'"
  shows "\<exists>h'. unprotected f h = Some h' \<and> c_block_ok h'"
  using assms by (cases h) (fastforce simp: unprotected_def c_block_ok_def)+

lemma exec_op_eta:
  "exec_op OpClear = clear" "exec_op (OpSetColumns n) = set_column_num n" "exec_op OpAllocRow = alloc_row"
  "exec_op OpFreeRow = free_last_row" "exec_op (OpPutLong r c i) = Shared_Block.put_long r c i"
  "exec_op (OpPutDouble r c x) = Shared_Block.put_double r c x" "exec_op (OpPutNull r c) = Shared_Block.put_null r c"
  "exec_op (OpPutBlob r c d) = block_put_blob r c d"
  by (simp_all add: fun_eq_iff)

lemmas put_functions = exec_op_eta ffi_block_clear_def ffi_block_set_column_num_def ffi_block_alloc_row_def ffi_block_free_last_row_def
  ffi_block_put_long_def ffi_block_put_double_def ffi_block_put_null_def

lemma counts_ok:
  assumes "valid_block b"
  shows "\<exists>x. row_num b = Some x" "\<exists>x. column_num b = Some x" "\<exists>x. used_bytes b = Some x"
    "\<exists>x. start_pos b = Some x" "\<exists>x. last_pos b = Some x" "\<exists>x. block_pos b = Some x"
  using header_words [OF assms]
  by (simp_all add: row_num_def column_num_def used_bytes_def start_pos_def last_pos_def block_pos_def block_layout)

lemma put_blob_ok:
  assumes "c_block_ok h" "blob_ok v n"
  shows "\<exists>h'. map_option snd (ffi_block_put_blob r c v n h) = Some h' \<and> c_block_ok h'"
proof (cases v)
  case (Some d)
  then show ?thesis
    using assms exec_op_ok [OF assms(1), of SHARED_BLOCK_BAD_VALUE "OpPutBlob r c (take (unat n) d)"]
    by (cases h) (simp_all add: ffi_block_put_blob_def raw_slice_def exec_op_eta)
qed (use assms in \<open>simp add: ffi_block_put_blob_def blob_ok_def\<close>)

lemma put_string_call_ok:
  assumes "c_block_ok h" "data_ok v n"
  shows "\<exists>h'. map_option snd (ffi_block_put_string r c v n h) = Some h' \<and> c_block_ok h'"
proof (cases "h = None \<or> v = None \<and> n \<noteq> 0")
  case False
  then have "v = None \<longrightarrow> n = 0" by blast
  then have "\<exists>h'. map_option snd (at_block SHARED_BLOCK_BAD_VALUE (block_put_string r c v (unat n)) h) = Some h' \<and> c_block_ok h'"
    by (intro at_block_ok [OF assms(1)] put_string_ok [OF assms(2)])
  then show ?thesis unfolding ffi_block_put_string_def if_not_P [OF False] .
qed (use assms(1) in \<open>simp add: ffi_block_put_string_def\<close>)

lemma counts_call_ok:
  assumes "c_block_ok h"
  shows "block_exec KCounts h = Some h \<and> block_exec KPositions h = Some h"
proof (cases h)
  case (Some cb)
  then have v: "valid_block (cb_block cb)" using assms by (simp add: c_block_ok_def)
  show ?thesis
    using counts_ok [OF v] Some
    by (auto simp: of_block_def ffi_block_row_num_def ffi_block_column_num_def ffi_block_used_bytes_def
        ffi_block_start_pos_def ffi_block_last_pos_def ffi_block_block_pos_def)
qed (simp add: of_block_def ffi_block_row_num_def ffi_block_column_num_def ffi_block_used_bytes_def
    ffi_block_start_pos_def ffi_block_last_pos_def ffi_block_block_pos_def)

lemma set_positions_ok:
  assumes "c_block_ok h"
  shows "\<exists>h'. block_exec (KSetPositions s l k) h = Some h' \<and> c_block_ok h'"
proof -
  note pos = ffi_block_set_start_pos_def ffi_block_set_last_pos_def ffi_block_set_block_pos_def
    set_start_pos_def [abs_def] set_last_pos_def [abs_def] set_block_pos_def [abs_def] H_start_def H_last_def H_block_def
  have step: "\<exists>h'. unprotected (poke32 off v) h = Some h' \<and> c_block_ok h'"
    if "c_block_ok h" "off \<in> {16, 20, 24}" for h off v
    by (rule unprotected_ok [OF that(1)]) (rule set_position_ok [OF _ that(2)])
  obtain h1 where h1: "ffi_block_set_start_pos s h = Some h1" "c_block_ok h1" using step [OF assms, of 16 s] by (auto simp: pos)
  obtain h2 where h2: "ffi_block_set_last_pos l h1 = Some h2" "c_block_ok h2" using step [OF h1(2), of 20 l] by (auto simp: pos)
  show ?thesis using step [OF h2(2), of 24 k] h1 h2 by (simp add: pos)
qed

interpretation cb: guarded_machine block_exec block_allowed c_block_ok
proof
  fix h k assume h: "c_block_ok h" and k: "block_allowed k"
  note op = exec_op_ok [OF h, of SHARED_BLOCK_BAD_VALUE]
  show "\<exists>h'. block_exec k h = Some h' \<and> c_block_ok h'"
  proof (cases k)
    case KClear
    then show ?thesis using op [of OpClear] by (simp add: put_functions)
  next
    case (KColumns n)
    then show ?thesis using op [of "OpSetColumns n"] by (simp add: put_functions)
  next
    case KAllocRow
    then show ?thesis using op [of OpAllocRow] by (simp add: put_functions)
  next
    case KFreeRow
    then show ?thesis using op [of OpFreeRow] by (simp add: put_functions)
  next
    case (KPutBlob r c v n)
    then show ?thesis using put_blob_ok [OF h, of v n r c] k by (simp add: block_allowed_def)
  next
    case (KPutString r c v n)
    then show ?thesis using put_string_call_ok [OF h, of v n r c] k by (simp add: block_allowed_def)
  next
    case (KPutLong r c v)
    then show ?thesis using op [of "OpPutLong r c v"] by (simp add: put_functions)
  next
    case (KPutDouble r c v)
    then show ?thesis using op [of "OpPutDouble r c v"] by (simp add: put_functions)
  next
    case (KPutNull r c)
    then show ?thesis using op [of "OpPutNull r c"] by (simp add: put_functions)
  next
    case (KText r c)
    then show ?thesis using text_call_ok [OF h, of r c] h by simp
  next
    case KCounts
    then show ?thesis using counts_call_ok [OF h] h by simp
  next
    case (KSetPositions s l p)
    then show ?thesis using set_positions_ok [OF h, of s l p] by simp
  next
    case KPositions
    then show ?thesis using counts_call_ok [OF h] h by simp
  qed
qed


section \<open>Writers\<close>

definition c_writer_ok :: "block_writer option \<Rightarrow> bool" where
  "c_writer_ok h \<longleftrightarrow> (case h of None \<Rightarrow> True | Some w \<Rightarrow> writer_ok w)"

definition row_allowed :: "row_call \<Rightarrow> bool" where
  "row_allowed k \<longleftrightarrow> (case k of WkBlob c v n \<Rightarrow> blob_ok v n | WkString c v n \<Rightarrow> data_ok v n | _ \<Rightarrow> True)"

lemma with_code_ok:
  assumes "writer_ok w" "\<And>b. valid_block b \<Longrightarrow> \<exists>code b'. f b = Some (code, b') \<and> valid_block b'"
  shows "\<exists>code w'. with_code f w = Some (code, w') \<and> writer_ok w'"
proof (cases "bw_block w")
  case (Some b)
  then have "valid_block b" using assms(1) by (simp add: writer_ok_def)
  then obtain code b' where "f b = Some (code, b')" "valid_block b'" using assms(2) by blast
  then show ?thesis using Some by (simp add: with_code_def writer_ok_def)
qed (use assms(1) in \<open>simp add: with_code_def\<close>)

lemma current_row_ok: "writer_ok w \<Longrightarrow> \<exists>row. current_row_index w = Some row"
  using counts_ok(1) by (fastforce simp: current_row_index_def writer_ok_def split: option.splits)

lemma at_current_row_ok:
  assumes "writer_ok w" "\<And>row b. valid_block b \<Longrightarrow> \<exists>code b'. f row b = Some (code, b') \<and> valid_block b'"
  shows "\<exists>code w'. at_current_row f w = Some (code, w') \<and> writer_ok w'"
proof -
  obtain row where "current_row_index w = Some row" using current_row_ok [OF assms(1)] by blast
  then show ?thesis using assms(1) with_code_ok [OF assms(1), of "f (the row)"] assms(2)
    by (cases row) (simp_all add: at_current_row_def)
qed

lemma at_writer_ok:
  assumes "c_writer_ok h" "\<And>w. writer_ok w \<Longrightarrow> \<exists>code w'. f w = Some (code, w') \<and> writer_ok w'"
  shows "\<exists>h'. map_option snd (at_writer f h) = Some h' \<and> c_writer_ok h'"
proof (cases h)
  case (Some w)
  then have "writer_ok w" using assms(1) by (simp add: c_writer_ok_def)
  then obtain code w' where "f w = Some (code, w')" "writer_ok w'" using assms(2) by blast
  then show ?thesis using Some by (simp add: at_writer_def c_writer_ok_def)
qed (simp add: at_writer_def c_writer_ok_def)

lemma row_op_ok:
  assumes "c_writer_ok h" "\<And>row b. valid_block b \<Longrightarrow> \<exists>code b'. f row b = Some (code, b') \<and> valid_block b'"
  shows "\<exists>h'. map_option snd (at_writer (at_current_row f) h) = Some h' \<and> c_writer_ok h'"
  by (rule at_writer_ok [OF assms(1)]) (rule at_current_row_ok [OF _ assms(2)])

lemma exec_op_puts:
  assumes "valid_block b"
  shows "\<exists>code b'. alloc_row b = Some (code, b') \<and> valid_block b'" "\<exists>code b'. free_last_row b = Some (code, b') \<and> valid_block b'"
    "\<exists>code b'. Shared_Block.put_null r c b = Some (code, b') \<and> valid_block b'"
    "\<exists>code b'. Shared_Block.put_long r c i b = Some (code, b') \<and> valid_block b'"
    "\<exists>code b'. Shared_Block.put_double r c x b = Some (code, b') \<and> valid_block b'"
    "\<exists>code b'. block_put_blob r c d b = Some (code, b') \<and> valid_block b'"
  using exec_op_valid [OF assms] unfolding exec_op_eta [symmetric] by blast+

lemma write_blob_ok:
  assumes "c_writer_ok h" "blob_ok v n"
  shows "\<exists>h'. map_option snd (ffi_writer_write_blob c v n h) = Some h' \<and> c_writer_ok h'"
proof (cases v)
  case (Some d)
  then show ?thesis
    using assms(1) row_op_ok [OF assms(1), of "\<lambda>row. block_put_blob row c (take (unat n) d)"] exec_op_puts(6)
    by (cases h) (simp_all add: ffi_writer_write_blob_def raw_slice_def writer_write_blob_def [abs_def])
qed (use assms in \<open>simp add: ffi_writer_write_blob_def blob_ok_def\<close>)

lemma write_string_ok:
  assumes "c_writer_ok h" "data_ok v n"
  shows "\<exists>h'. map_option snd (ffi_writer_write_string c v n h) = Some h' \<and> c_writer_ok h'"
proof (cases "h = None \<or> v = None")
  case False
  then have "v = None \<longrightarrow> n = 0" by blast
  then have "\<exists>h'. map_option snd (at_writer (at_current_row (\<lambda>row. block_put_string row c v (unat n))) h) = Some h' \<and> c_writer_ok h'"
    by (intro row_op_ok [OF assms(1)] put_string_ok [OF assms(2)])
  then show ?thesis unfolding ffi_writer_write_string_def if_not_P [OF False] writer_write_string_def [abs_def] .
qed (use assms(1) in \<open>simp add: ffi_writer_write_string_def\<close>)

lemma writer_row_ok: "c_writer_ok h \<Longrightarrow> writer_exec WkRow h = Some h"
  using current_row_ok by (cases h) (fastforce simp: ffi_writer_current_row_index_def c_writer_ok_def)+

lemmas writer_functions = ffi_writer_alloc_row_def ffi_writer_free_last_row_def ffi_writer_write_null_def ffi_writer_write_long_def
  ffi_writer_write_double_def writer_write_null_def [abs_def] writer_write_long_def [abs_def] writer_write_double_def [abs_def]
  writer_alloc_row_def [abs_def] writer_free_last_row_def [abs_def]

interpretation cw: guarded_machine writer_exec row_allowed c_writer_ok
proof
  fix h k assume h: "c_writer_ok h" and k: "row_allowed k"
  show "\<exists>h'. writer_exec k h = Some h' \<and> c_writer_ok h'"
  proof (cases k)
    case WkAllocRow
    then show ?thesis using at_writer_ok [OF h with_code_ok [OF _ exec_op_puts(1)]] by (simp add: writer_functions)
  next
    case WkFreeRow
    then show ?thesis using at_writer_ok [OF h with_code_ok [OF _ exec_op_puts(2)]] by (simp add: writer_functions)
  next
    case (WkNull c)
    then show ?thesis using row_op_ok [OF h exec_op_puts(3)] by (simp add: writer_functions)
  next
    case (WkLong c v)
    then show ?thesis using row_op_ok [OF h exec_op_puts(4)] by (simp add: writer_functions)
  next
    case (WkDouble c v)
    then show ?thesis using row_op_ok [OF h exec_op_puts(5)] by (simp add: writer_functions)
  next
    case (WkBlob c v n)
    then show ?thesis using write_blob_ok [OF h, of v n c] k by (simp add: row_allowed_def)
  next
    case (WkString c v n)
    then show ?thesis using write_string_ok [OF h, of v n c] k by (simp add: row_allowed_def)
  next
    case WkRow
    then show ?thesis using writer_row_ok [OF h] h by simp
  qed
qed


section \<open>Result sets\<close>

definition c_set_ok :: "'s result_set option \<Rightarrow> bool" where
  "c_set_ok h \<longleftrightarrow> (case h of None \<Rightarrow> True
     | Some s \<Rightarrow> rs_bridge s = None \<and> (case rs_block s of None \<Rightarrow> True | Some b \<Rightarrow> valid_block b))"

lemma reads_total:
  assumes "valid_block b"
  shows "\<exists>x. get_cell_value b r c = Some x" "\<exists>x. get_string_data b off n = Some x" "\<exists>x. get_cell_unit_str b cv = Some x"
proof -
  obtain cell where cell: "get_cell_unit b r c = Some cell" "\<forall>p. cell = Some p \<longrightarrow> inside b p CELL_SIZE"
    using cell_unit_inside [OF assms] by blast
  then show "\<exists>x. get_cell_value b r c = Some x"
    by (cases cell) (auto simp: get_cell_value_def Let_def dest: load_inside)
  have load: "\<exists>bs. load p (unat k) (sb_mem b) = Some bs" if "offset_to_ptr b o' k = Some p" for p o' k
    by (rule load_inside) (rule offset_inside [OF assms that])
  show "\<exists>x. get_string_data b off n = Some x"
    using load [of off n] by (cases "offset_to_ptr b off n") (auto simp: get_string_data_def)
  show "\<exists>x. get_cell_unit_str b cv = Some x"
    using load [of "cv_offset cv" "cv_size cv"] by (cases "offset_to_ptr b (cv_offset cv) (cv_size cv)") (auto simp: get_cell_unit_str_def Let_def)
qed

lemma col_count_total: "c_set_ok (Some s) \<Longrightarrow> \<exists>n. col_count s = Some n"
  using counts_ok(2) by (fastforce simp: col_count_def c_set_ok_def split: option.splits)

lemma with_cell_total:
  assumes "c_set_ok (Some s)" "\<And>b ty cv. valid_block b \<Longrightarrow> \<exists>x. k b ty cv = Some x"
  shows "\<exists>x. with_cell s c k = Some x"
proof -
  obtain n where n: "col_count s = Some n" using col_count_total [OF assms(1)] by blast
  show ?thesis
  proof (cases "rs_block s")
    case (Some b)
    then have v: "valid_block b" using assms(1) by (simp add: c_set_ok_def)
    obtain x where "get_cell_value b (block_row_index s) c = Some x" using reads_total(1) [OF v] by blast
    then show ?thesis using n Some assms(2) [OF v] by (auto simp: with_cell_def check_state_def split: sum.splits)
  qed (use n in \<open>simp add: with_cell_def check_state_def\<close>)
qed

lemma cell_text_total: "valid_block b \<Longrightarrow> \<exists>x. cell_text b cv = Some x"
  using reads_total(3) [of b cv] by (auto simp: cell_text_def)

lemma getters_total:
  assumes "c_set_ok (Some s)"
  shows "\<exists>x. rs_get_long s c = Some x" "\<exists>x. rs_get_double parse s c = Some x" "\<exists>x. rs_get_string print s c = Some x"
    "\<exists>x. is_column_null s c = Some x"
proof -
  have coerced: "\<exists>x. (if P then u else if Q then v else if R then w else if S then cell_text b cv \<bind> (\<lambda>t. Some (f t)) else z) = Some x"
    if "valid_block b" "\<exists>x. u = Some x" "\<exists>x. v = Some x" "\<exists>x. w = Some x" "\<exists>x. z = Some x" for P Q R S b cv u v w z f
    using cell_text_total [OF that(1), of cv] that(2-) by auto
  show "\<exists>x. rs_get_long s c = Some x" "\<exists>x. rs_get_double parse s c = Some x"
    unfolding rs_get_long_def rs_get_double_def by (rule with_cell_total [OF assms], rule coerced, simp_all)+
  show "\<exists>x. rs_get_string print s c = Some x"
    unfolding rs_get_string_def
  proof (rule with_cell_total [OF assms])
    fix b ty cv assume v: "valid_block b"
    obtain str d where "get_cell_unit_str b cv = Some str" "get_string_data b (cv_offset cv) (cv_size cv) = Some d"
      using reads_total(2,3) [OF v] by blast
    then show "\<exists>x. (if ty = 0 then Some (Inr []) else if ty = 1 then Some (Inr (i64_to_string (cv_long_value cv)))
      else if ty = 2 then Some (Inr (print (cv_double_value cv))) else if ty = 3 then get_cell_unit_str b cv
      else if ty = 4 then do {
        data \<leftarrow> get_string_data b (cv_offset cv) (cv_size cv);
        Some (case data of Inl e \<Rightarrow> Inl e | Inr d \<Rightarrow> if utf8_valid (of_bytes d) then Inr (of_bytes d) else Inl ErrInvalidOperation)
      } else Some (Inr [])) = Some x" by auto
  qed
  show "\<exists>x. is_column_null s c = Some x"
    unfolding is_column_null_def by (rule with_cell_total [OF assms]) simp
qed

lemma go_to_row_ok:
  assumes "c_set_ok (Some s)"
  shows "\<exists>r s'. go_to_row created p s = Some (r, s') \<and> c_set_ok (Some s')"
  using assms by (simp add: go_to_row_def c_set_ok_def)

interpretation cs: guarded_machine "set_exec lower parse print" "\<lambda>_. True" c_set_ok for lower parse print
proof
  fix h :: "'a result_set option" and k assume h: "c_set_ok h"
  show "\<exists>h'. set_exec lower parse print k h = Some h' \<and> c_set_ok h'"
  proof (cases h)
    case None
    then show ?thesis
      by (cases k) (simp_all add: c_set_ok_def ffi_rs_set_column_names_def ffi_rs_go_to_row_def of_set_def ffi_rs_get_long_def
          ffi_rs_get_double_def ffi_rs_get_string_def ffi_rs_is_column_null_def ffi_rs_get_row_count_def ffi_rs_get_column_count_def ffi_rs_close_def)
  next
    case (Some s)
    note s = h [unfolded Some]
    show ?thesis
    proof (cases k)
      case (SkNames ns n)
      then show ?thesis using s Some by (simp add: ffi_rs_set_column_names_def set_column_names_def c_set_ok_def split: option.split)
    next
      case (SkGo p)
      then show ?thesis using go_to_row_ok [OF s, of "Inl 0" p] Some by (auto simp: ffi_rs_go_to_row_def)
    next
      case (SkLong c)
      then show ?thesis using getters_total(1) [OF s, of c] s Some by (auto simp: ffi_rs_get_long_def of_set_def)
    next
      case (SkDouble c)
      then show ?thesis using getters_total(2) [OF s, of parse c] s Some by (auto simp: ffi_rs_get_double_def of_set_def)
    next
      case (SkString c)
      then show ?thesis using getters_total(3) [OF s, of print c] s Some by (auto simp: ffi_rs_get_string_def of_set_def)
    next
      case (SkIsNull c)
      then show ?thesis using getters_total(4) [OF s, of c] s Some by (auto simp: ffi_rs_is_column_null_def)
    next
      case SkCounts
      then show ?thesis using col_count_total [OF s] s Some
        by (auto simp: ffi_rs_get_row_count_def ffi_rs_get_column_count_def of_set_def get_column_count_def unless_closed_def)
    next
      case SkClose
      then show ?thesis using s Some by (simp add: ffi_rs_close_def rs_close_def c_set_ok_def split_def)
    qed
  qed
qed


section \<open>A client\<close>

definition session_ok :: "'s c_session \<Rightarrow> bool" where
  "session_ok s \<longleftrightarrow> c_block_ok (cs_block s) \<and> c_writer_ok (cs_writer s) \<and> c_set_ok (cs_set s)"

definition session_new :: "'s c_session" where
  "session_new = \<lparr>cs_block = None, cs_writer = None, cs_set = None\<rparr>"

text \<open>A region that is delivered has the size asked for, which leaves room for the header and is below 2 GB.\<close>

definition region_ok :: "bytes option \<Rightarrow> u32 \<Rightarrow> bool" where
  "region_ok m n \<longleftrightarrow> (case m of None \<Rightarrow> True | Some m \<Rightarrow> length m = unat n \<and> 432 < unat n \<and> unat n < 2 ^ 31)"

definition session_allowed :: "session_call \<Rightarrow> bool" where
  "session_allowed k \<longleftrightarrow> (case k of
     CNewBlock m mo ro fd name n \<Rightarrow> region_ok m n
   | CBlock k \<Rightarrow> block_allowed k
   | CNewWriter m mo ro name n \<Rightarrow> region_ok m n
   | CWriter k \<Rightarrow> row_allowed k
   | CWriterBlock k \<Rightarrow> block_allowed k
   | _ \<Rightarrow> True)"

lemma create_ok:
  assumes "region_ok m n"
  shows "\<exists>r. create m mo ro s (unat n) = Some r \<and> (\<forall>b. r = Inr b \<longrightarrow> valid_block b)"
proof (cases "m = None \<or> \<not> mo \<or> \<not> ro")
  case False
  then obtain region where m: "m = Some region" "length region = unat n" "432 < unat n" "unat n < 2 ^ 31"
    using assms by (auto simp: region_ok_def)
  then obtain b where "create m True True s (unat n) = Some (Inr b)" "block_ok b [28] [] 0 432"
    using create_block [of region "unat n" s] by auto
  then show ?thesis using False valid_blockI by auto
qed (auto simp: create_def init_def split: option.split)

lemma new_block_ok:
  assumes "region_ok m n"
  shows "\<exists>r. ffi_block_create m mo ro fd name n = Some r \<and> c_block_ok (snd r)"
proof (cases "c_str_to_rust name")
  case (Some s)
  show ?thesis using create_ok [OF assms, of mo ro s] Some by (auto simp: ffi_block_create_def c_block_ok_def split: sum.split)
qed (simp add: ffi_block_create_def c_block_ok_def)

lemma new_writer_ok:
  assumes "region_ok m n"
  shows "\<exists>h. ffi_writer_new_with_block m mo ro name n = Some h \<and> c_writer_ok h"
proof -
  have created: "\<exists>r. create m mo ro s (unat n) = Some r \<and> writer_ok (new_with_block r)" for s
    using create_ok [OF assms, of mo ro s] by (auto simp: new_with_block_def writer_ok_def split: sum.split)
  show ?thesis
  proof (cases "c_str_to_rust name")
    case (Some s)
    then show ?thesis using created [of s] by (auto simp: ffi_writer_new_with_block_def with_text_def c_writer_ok_def)
  qed (simp add: ffi_writer_new_with_block_def with_text_def c_writer_ok_def)
qed

lemma writer_block_ok:
  assumes "c_writer_ok h" "block_allowed k"
  shows "\<exists>h'. writer_block_exec k h = Some h' \<and> c_writer_ok h'"
proof (cases "ffi_writer_get_block h")
  case None
  then show ?thesis
    using cb.step_ok [of None, OF _ assms(2)] assms(1) by (auto simp: writer_block_exec_def c_block_ok_def)
next
  case (Some b)
  then obtain w where w: "h = Some w" "bw_block w = Some b" by (auto simp: ffi_writer_get_block_def split: option.splits)
  let ?h = "Some \<lparr>cb_block = b, cb_fd = 0, cb_protected = False\<rparr>"
  have "c_block_ok ?h" using assms(1) w by (simp add: c_block_ok_def c_writer_ok_def writer_ok_def)
  then obtain h' where "block_exec k ?h = Some h'" "c_block_ok h'" using cb.step_ok [OF _ assms(2)] by blast
  then show ?thesis using Some w(1)
    by (auto simp: writer_block_exec_def c_writer_ok_def writer_ok_def c_block_ok_def split: option.splits)
qed

lemma give_block_ok:
  assumes "c_set_ok rs" "c_block_ok h"
  shows "\<exists>x. ffi_rs_set_block rs h = Some x \<and> c_set_ok (fst (snd x)) \<and> c_block_ok (snd (snd x))"
proof (cases "rs = None \<or> h = None")
  case False
  then obtain s cb where sc: "rs = Some s" "h = Some cb" by auto
  then have v: "valid_block (cb_block cb)" using assms(2) by (simp add: c_block_ok_def)
  then obtain n where "row_num (cb_block cb) = Some n" using counts_ok(1) by blast
  then show ?thesis using sc assms(1) v by (simp add: ffi_rs_set_block_def set_block_def c_set_ok_def c_block_ok_def)
qed (use assms in \<open>auto simp: ffi_rs_set_block_def split: option.split\<close>)

interpretation cl: guarded_machine "session_exec lower parse print" session_allowed session_ok for lower parse print
proof
  fix s :: "'a c_session" and k assume s: "session_ok s" and k: "session_allowed k"
  then have parts: "c_block_ok (cs_block s)" "c_writer_ok (cs_writer s)" "c_set_ok (cs_set s)" by (simp_all add: session_ok_def)
  note ok = session_ok_def session_allowed_def
  show "\<exists>s'. session_exec lower parse print k s = Some s' \<and> session_ok s'"
  proof (cases k)
    case (CNewBlock m mo ro fd name n)
    then have "region_ok m n" using k by (simp add: ok)
    then show ?thesis using CNewBlock new_block_ok [of m n mo ro fd name] parts by (auto simp: session_ok_def)
  next
    case (CBlock b)
    then have "block_allowed b" using k by (simp add: ok)
    then show ?thesis using CBlock cb.step_ok [OF parts(1)] parts by (fastforce simp: session_ok_def)
  next
    case (CNewWriter m mo ro name n)
    then have "region_ok m n" using k by (simp add: ok)
    then show ?thesis using CNewWriter new_writer_ok [of m n mo ro name] parts by (auto simp: session_ok_def)
  next
    case (CWriter r)
    then have "row_allowed r" using k by (simp add: ok)
    then show ?thesis using CWriter cw.step_ok [OF parts(2)] parts by (fastforce simp: session_ok_def)
  next
    case (CWriterBlock b)
    then have "block_allowed b" using k by (simp add: ok)
    then show ?thesis using CWriterBlock writer_block_ok [OF parts(2)] parts by (fastforce simp: session_ok_def)
  next
    case CGiveBlock
    then show ?thesis using give_block_ok [OF parts(3,1)] parts by (fastforce simp: session_ok_def)
  next
    case (CSet c)
    then show ?thesis using cs.step_ok [OF parts(3), of lower parse print c] parts by (fastforce simp: session_ok_def)
  qed (use parts in \<open>simp_all add: session_ok_def c_block_ok_def c_writer_ok_def c_set_ok_def ffi_rs_new_def result_set_new_def\<close>)
qed


text \<open>
  C40: a session of C. Any sequence of the modelled calls on the handles of a block, a writer and a result set, over null handles too: every
  call returns, every block stays valid, the block inside a writer included, and what a cell of the client's block points to lies inside
  the mapping, size included. Not covered: data that is shorter than it is said to be, an empty blob behind a null pointer (which is
  undefined, \<open>empty_blob_undefined\<close> below), \<open>SetRawData\<close>, blocks from a descriptor or a parcel, freeing or giving away the block
  inside a writer, regions of at most 432 bytes or from 2 GB on.
\<close>

theorem c_session_safe:
  assumes "list_all session_allowed calls"
  shows "\<exists>s. guarded_run (session_exec lower parse print) calls session_new = Some (s :: 's c_session) \<and> session_ok s
    \<and> (\<forall>cb r c p. cs_block s = Some cb \<and> ffi_block_get_cell_unit r c (Some cb) = Some (Some p) \<longrightarrow>
         inside (cb_block cb) p CELL_SIZE
         \<and> (\<exists>q n. ffi_block_value_string (Some p) (Some cb) = Some (q, Some n) \<and> (\<forall>q'. q = Some q' \<longrightarrow> inside (cb_block cb) q' (unat n))))"
proof -
  have "session_ok (session_new :: 's c_session)" by (simp add: session_ok_def session_new_def c_block_ok_def c_writer_ok_def c_set_ok_def)
  then obtain s :: "'s c_session" where s: "guarded_run (session_exec lower parse print) calls session_new = Some s" "session_ok s"
    using cl.run_ok [OF _ assms] by blast
  have "inside (cb_block cb) p CELL_SIZE
      \<and> (\<exists>q n. ffi_block_value_string (Some p) (Some cb) = Some (q, Some n) \<and> (\<forall>q'. q = Some q' \<longrightarrow> inside (cb_block cb) q' (unat n)))"
    if "cs_block s = Some cb" "ffi_block_get_cell_unit r c (Some cb) = Some (Some p)" for cb r c p
  proof -
    have v: "valid_block (cb_block cb)" using s(2) that(1) by (simp add: session_ok_def c_block_ok_def)
    have p: "inside (cb_block cb) p CELL_SIZE"
      using cell_unit_inside [OF v, of r c] that(2) by (auto simp: ffi_block_get_cell_unit_def of_block_def)
    then show ?thesis using value_string_inside [OF v p] by (auto simp: ffi_block_value_string_def)
  qed
  with s show ?thesis by blast
qed

theorem c_session_safe_witness:
  "\<exists>s. guarded_run (session_exec id (\<lambda>_. None) (\<lambda>_. []))
     [CNewBlock (Some (replicate 8192 0)) True True 3 (c_text_of ''b'') 8192, CBlock (KColumns 2), CBlock KAllocRow,
      CBlock (KPutString 0 1 (Some [104, 0]) 2), CBlock (KText 0 1), CNewSet, CGiveBlock, CBlock (KPutNull 0 0), CSet (SkGo 0), CSet (SkString 1),
      CNewWriter (Some (replicate 8192 0)) True True (c_text_of ''w'') 8192, CWriterBlock (KColumns 1), CWriter WkAllocRow, CWriter (WkLong 0 7)]
     session_new = Some (s :: unit c_session)"
proof -
  let ?calls = "[CNewBlock (Some (replicate 8192 0)) True True 3 (c_text_of ''b'') 8192, CBlock (KColumns 2), CBlock KAllocRow,
      CBlock (KPutString 0 1 (Some [104, 0]) 2), CBlock (KText 0 1), CNewSet, CGiveBlock, CBlock (KPutNull 0 0), CSet (SkGo 0), CSet (SkString 1),
      CNewWriter (Some (replicate 8192 0)) True True (c_text_of ''w'') 8192, CWriterBlock (KColumns 1), CWriter WkAllocRow, CWriter (WkLong 0 7)]"
  have "list_all session_allowed ?calls"
    by (simp add: session_allowed_def region_ok_def block_allowed_def row_allowed_def data_ok_def)
  from c_session_safe [OF this] show ?thesis by blast
qed

section \<open>What is asked is needed\<close>

lemma empty_blob_undefined: "ffi_block_put_blob r c None 0 (Some cb) = None"
  by (simp add: ffi_block_put_blob_def raw_slice_def)

text \<open>The positions of a block that was mapped for reading only cannot be set, although the function has no way to refuse.\<close>

lemma read_only_positions_fault:
  assumes "ffi_block_new_from_fd region map_ok read_ok name fd sz True = (SHARED_BLOCK_OK, Some cb)"
  shows "ffi_block_set_start_pos v (Some cb) = None \<and> ffi_block_clear (Some cb) = Some (SHARED_BLOCK_INVALID_OPERATION, Some cb)"
proof -
  have "cb_protected cb \<and> sb_read_only (cb_block cb)"
    using assms by (auto simp: ffi_block_new_from_fd_def create_from_fd_def init_def shared_block_new_def
        split: option.splits sum.splits if_splits prod.splits bool.splits)
  then show ?thesis by (simp add: ffi_block_set_start_pos_def unprotected_def ffi_block_clear_def at_block_def clear_def)
qed

text \<open>Codes of failure are never those of an answer.\<close>

lemma codes_apart: "code_of_bool (Inl e) \<in> {0, 1} \<longleftrightarrow> e = ErrOk" "fst (code_and_value (Inl e)) = 0 \<longleftrightarrow> e = ErrOk"
  by (cases e; simp add: code_of_bool_def code_and_value_def)+

end
