(* ===== verification/Spec2Isabelle.thy ===== *)
theory Spec2Isabelle
  imports Verify Uri_Utils Marshalling Cursor Json_Text Permission Service_Proxy Datashare_Proxy
    Result_Set_Ipc Observer_Stub Provider_Stub Helper_Calls Block_Parcel String_Split C_Boxes C_Utils C_Session
begin

text \<open>
  Verification of the Rust implementation of DataShare (\<open>src/frameworks/rust\<close>), the framework through which one OpenHarmony application
  reads, changes and observes the data of another. This theory only assembles the development; every component has its own theory, with a text at its
  head.

  \<^bold>\<open>The program.\<close> A consumer creates a helper. The helper sends each operation down one of two paths: the silent path, to the data
  share service of the system, or a connection to the extension of the provider. Predicates, values and statements are encoded for the way, in the
  format of the parcel or in a binary buffer of their own. Rows come back as a result set: a cursor over a block of shared memory that is filled page
  by page, itself behind a remote object when the provider keeps it. Changes of data come back through observer stubs, which hand them to managers of
  subscribers, which call back the observers. Around this stand the verification of predicates against SQL injection, permission checks, URI
  utilities, a JSON reader and writer and a limit on the rate of calls.

  \<^bold>\<open>Foundations.\<close> Prelude (machine integers, little-endian images, UTF-8), Rust_Str (the methods of \<open>str\<close> that are
  called), F64 (the casts of floating-point bit patterns), Ordered_Map (\<open>BTreeMap\<close>; the locale \<open>key_value_map\<close>), Step_Runs
  (runs of labelled steps; the locale \<open>attempt_counter\<close>).

  \<^bold>\<open>Data\<close> (\<open>datashare_common_rust\<close>). Errors is \<open>error.rs\<close> and the locales of numbered enumerations.
  Values is \<open>value_object.rs\<close> and \<open>values_bucket.rs\<close>; Predicates is \<open>predicates/operations.rs\<close> and
  \<open>predicates/predicates.rs\<close>; Statements is \<open>operation.rs\<close>; Data_Types is \<open>types.rs\<close>,
  \<open>template.rs\<close> and \<open>observer.rs\<close>; Verify is \<open>predicates/verify.rs\<close>; Uri_Utils and String_Split are
  \<open>utils/uri_utils.rs\<close> and \<open>utils/string_utils.rs\<close>. Shown: an accepted field name holds no SQL, the first offending item is
  the one reported, the scanning loop of query parameters is the map of the pieces of the query, numbers of enumerations come back.

  \<^bold>\<open>Formats.\<close> Binary_Buffer, Itypes_Utils and Marshalling are \<open>ipc/itypes_utils.rs\<close> and
  \<open>ipc/predicates_marshal.rs\<close>. The locale \<open>codec\<close> states what a writer and its reader promise (the image is appended, it is
  read back up to a normal form with the rest left, proper prefixes are refused, an image has a least size); each pair of functions is an
  interpretation of it, composed as the code composes them. Json_Value, Json_Parser and Json_Text are \<open>ipc/serializable.rs\<close>: a written
  value is parsed back, a document that was parsed and written again is stable. Parcel is the contract of the IPC crate's parcel, Parcel_Values and Parcel_Types are
  \<open>ipc/parcel_impl.rs\<close>: every type written to a parcel is read back as what the format keeps of it. The two formats of predicates are not
  the same, and neither is what they keep: \<open>predicates_norm\<close> and \<open>parcel_predicates_norm\<close>.

  \<^bold>\<open>Rows\<close> (\<open>datashare_resultset_rust\<close>). Shared_Block is \<open>shared_block.rs\<close> byte by byte, with
  \<open>None\<close> for an access outside the mapping; Block_Layout, Block_Rows and Block_Table give its invariant \<open>block_ok\<close>, its
  abstract table \<open>cell_view\<close>, and for every mutator the refinement of the table by the bytes: no sequence of mutators leaves the mapping.
  Block_Parcel is its transfer through a parcel, Block_Writer is \<open>block_writer.rs\<close> (the locale \<open>call_machine\<close>). Result_Set
  and Cursor are \<open>result_set.rs\<close>: navigation is exact over the integers, a page keeps the window in step with the block, the typed
  getters are the coercions the code makes of the cell under the cursor, a scan reads every row and ends. Result_Set_Ipc is \<open>ipc/stub.rs\<close>,
  \<open>ipc/proxy.rs\<close>, \<open>ipc/interface.rs\<close> and \<open>kvstore_proxy.rs\<close>: a proxy over the stub of a result set answers as
  the result set, up to closing.

  \<^bold>\<open>Subscriptions\<close> (\<open>datashare_consumer_rust/src/subscriber\<close>). Callbacks holds what the managers share, the locale
  \<open>observer_registry\<close>. Published_Manager and Rdb_Manager are the three managers: registered keys are exactly those whose subscription the
  service confirmed, in every run of operations that do not overlap and that the service answers, and an observer disabled while its data changes gets the last change when it is enabled. Observer_Stub is
  \<open>observer_stub.rs\<close> with the rows that come in shared memory.

  \<^bold>\<open>Connections\<close> (\<open>connection\<close>). Connection is \<open>datashare_connection.rs\<close>, a state machine whose events
  come in any order: reconnections between two established connections are bounded, an invalid connection gives up, a reconnection registers again
  exactly the observers known. Service_Manager is \<open>manager_impl.rs\<close>, Sa_Connection is \<open>datashare_sa_connection.rs\<close>,
  Proxy_Source is what they share: a source of proxies with a cache that the death of a watched proxy clears (\<open>proxy_source\<close>,
  \<open>slot_refinement\<close>); a proxy that was handed in is not watched.
  Call_Reporter is \<open>call_reporter.rs\<close>: a call is limited only after 3000 calls within 30 seconds.

  \<^bold>\<open>Controllers and helper.\<close> Service_Controller and Provider_Controller are the two paths
  (\<open>controller/service_impl.rs\<close>; \<open>provider_impl.rs\<close>, \<open>ext_special.rs\<close>), with the retries of a timed query and
  the observers that survive a restart. Helper and Helper_Calls are \<open>helper\<close> and the persistent and published controllers. Permission is
  \<open>permission.rs\<close> and \<open>called_config.rs\<close> of \<open>datashare_permission_rust\<close>.

  \<^bold>\<open>Proxies\<close> (\<open>proxy\<close>). Remote_Call is \<open>ipc/codes.rs\<close> and the exchange of a request for a reply.
  Service_Proxy with Proxy_Codec is \<open>service_proxy.rs\<close>, Datashare_Proxy is \<open>datashare_proxy.rs\<close>. Their theorems compose the
  codecs into calls: over another process that decodes by the numbering of the C++ headers and computes any function, a method of the proxy is that
  function of the arguments as the parcel carries them, and the error of the method exactly where a parcel refuses the request or the reply or, with an
  extension, its stub in C++ turns the answer into an error (\<open>outcome\<close>, \<open>service_outcome\<close>). Helper_Calls puts the helper on top. Provider_Stub is the part of \<open>datashare_provider_rust\<close> that is written: the handler table, the waiting for a
  callback and the module loader.

  \<^bold>\<open>How the code is read.\<close> Arithmetic is that of release builds, wrapping at its width, on a 64-bit little-endian target; casts
  are \<open>scast\<close>, \<open>ucast\<close> and their readings \<open>sint\<close> and \<open>unat\<close>. A \<open>String\<close> is the list
  of its UTF-8 bytes. An error is the left of a sum or \<open>None\<close>; where code can panic or do what Rust leaves undefined, the model has a
  value of its own for that, misaligned reads included (Observer_Stub). What is done under a mutex in one go is one step; where the lock is released in
  between, as in connecting or around the requests of the published manager, the parts are definitions of their own. A
  \<open>HashMap\<close> whose order shows is an association list. The clock, sleeps and what a service answers are arguments, so that the theorems
  hold whatever they are.

  \<^bold>\<open>Parameters.\<close> What is not in the repository is an argument, with what is relied on as a named predicate: the typed reads and
  writes of the IPC crate's parcel (\<open>parcel_ok\<close>: what is written is read back, any write may be refused;
  Result_Set_Ipc takes a parcel without limit, \<open>parcel_accepts\<close>), remote objects and the
  services behind them (\<open>service_ok\<close>, \<open>provider_ok\<close>), shared memory (\<open>ashmem_ok\<close>, \<open>region_holds\<close>,
  \<open>backs\<close>), a bridge of a provider (\<open>bridge_ok\<close>, it writes only through the \<open>Writer\<close>), printing and parsing of
  floating-point text (\<open>std_float_text\<close>), Unicode case mapping, the random source, the allocator, the ability manager. Each predicate holds of a concrete instance in the
  development (\<open>plain_parcel\<close>, \<open>list_ashmem\<close>, \<open>example_service\<close> and so on), on which the witnesses run.

  \<^bold>\<open>Bounds.\<close> The one fuel is that of \<open>scan_long\<close>, a client's loop over a result set, for which one more than the rows
  left is shown to be enough. Loops of the code are structural or recursive with a measure (the parser on the text left, the walk over row groups on
  the rows left, polling on the tries left, a timed query on its attempts), so termination is part of their definition. The stack of the recursive
  parser is not modelled.

  \<^bold>\<open>Border to C\<close> (\<open>c_adapter\<close>). C_Types is how text crosses it (\<open>types_ffi.rs\<close>). Itypes_Ffi is
  \<open>itypes_utils_ffi.rs\<close>, a second writer and reader of predicates, which agree with those of \<open>itypes_utils.rs\<close> wherever these accept
  a message. C_Boxes is \<open>value_object_ffi.rs\<close>, \<open>values_bucket_ffi.rs\<close> and \<open>serialization_ffi.rs\<close> over a store of live
  objects: for a client that uses only what it owns, a call is undefined exactly when a decoder meets an invalid boolean byte or panics on its input. C_Result_Set is \<open>c_adapter/mod.rs\<close> of the result sets and
  C_Session a client of it: any sequence of calls keeps blocks valid and hands out pointers into the mapping only (the locale
  \<open>guarded_machine\<close>), with the calls left out and what is asked of the data named there. C_Utils holds the adapters without state: verification, URIs, texts, errors, calls, permissions.

  \<^bold>\<open>Not modelled.\<close> The C adapters of the consumer check pointers and convert around the functions modelled here; those of building predicates are commented out. The
  \<open>cxx\<close> bindings (\<open>ffi\<close>) and the language runtime bindings (\<open>src/common/ani_rs\<close> and its macros) have no logic of the program, and \<open>src/frameworks/ets/ani\<close> converts
  arguments for them. What is left of the provider consists of placeholders that ignore their arguments and return constants. Logging and time
  measurements are left out. The C++, JavaScript and Cangjie implementations are other programs.
\<close>

end
